(* ===== verification/Prelude.thy ===== *)
theory Prelude
  imports Main "HOL-Library.Sublist" "HOL-Library.Multiset"
begin

text \<open>
  Shared vocabulary of the development: the model's basic types, JavaScript string and list
  primitives used by several components, and the generic lemmas on lists and sorting that the
  component proofs rest on.

  Strings are \<^typ>\<open>string\<close> (lists of bytes): the strings the modelled code computes with
  (identifiers, decimal money, error classes, keys) are ASCII, either by a regular expression the
  code checks first or because the database renders them so. A UUID is a \<^typ>\<open>nat\<close>: the
  128-bit value, compared as PostgreSQL compares the type \<open>uuid\<close> (bytewise, which is the numeric
  order). An instant is an \<^typ>\<open>int\<close> number of milliseconds.
\<close>

type_synonym uuid = nat
type_synonym instant = int

named_theorems js_simps \<open>evaluation rules for the JavaScript primitives\<close>
named_theorems table_simps \<open>what the table operations do to single rows and to other tenants\<close>

section \<open>JavaScript primitives\<close>

text \<open>\<open>[...new Set(xs)]\<close>: duplicates dropped, the first occurrence kept, insertion order.\<close>

fun js_dedup_from :: "'a list \<Rightarrow> 'a list \<Rightarrow> 'a list" where
  "js_dedup_from seen [] = []"
| "js_dedup_from seen (x # xs) =
     (if x \<in> set seen then js_dedup_from seen xs else x # js_dedup_from (x # seen) xs)"

definition js_dedup :: "'a list \<Rightarrow> 'a list" where
  "js_dedup xs = js_dedup_from [] xs"

lemma set_js_dedup_from: "set (js_dedup_from seen xs) = set xs - set seen"
  by (induction seen xs rule: js_dedup_from.induct) auto

lemma distinct_js_dedup_from: "distinct (js_dedup_from seen xs)"
  by (induction seen xs rule: js_dedup_from.induct) (auto simp: set_js_dedup_from)

lemma set_js_dedup [simp]: "set (js_dedup xs) = set xs"
  by (simp add: js_dedup_def set_js_dedup_from)

lemma distinct_js_dedup [simp]: "distinct (js_dedup xs)"
  by (simp add: js_dedup_def distinct_js_dedup_from)

text \<open>\<open>s.split(c)\<close> for a one-character separator: never the empty list.\<close>

fun js_split :: "char \<Rightarrow> string \<Rightarrow> string list" where
  "js_split c [] = [[]]"
| "js_split c (x # xs) =
     (if x = c then [] # js_split c xs
      else (case js_split c xs of [] \<Rightarrow> [[x]] | s # ss \<Rightarrow> (x # s) # ss))"

lemma js_split_nonempty: "js_split c xs \<noteq> []"
  by (induction xs) (auto split: list.splits)

lemma js_split_no_sep: "c \<notin> set xs \<Longrightarrow> js_split c xs = [xs]"
  by (induction xs) auto

lemma js_split_sep:
  "c \<notin> set xs \<Longrightarrow> js_split c (xs @ c # ys) = xs # js_split c ys"
  by (induction xs) auto

text \<open>\<open>s.padStart(n, c)\<close> for a one-character filler.\<close>

definition js_padStart :: "nat \<Rightarrow> char \<Rightarrow> string \<Rightarrow> string" where
  "js_padStart n c s = replicate (n - length s) c @ s"

text \<open>\<open>s.slice(-n)\<close> and other slices are \<^const>\<open>take\<close> and \<^const>\<open>drop\<close>.
  \<open>s.startsWith(p)\<close> is \<^const>\<open>prefix\<close>, \<open>s.endsWith(p)\<close> is \<^const>\<open>suffix\<close>.\<close>

section \<open>Decimal digits\<close>

definition digit_char :: "nat \<Rightarrow> char" where
  "digit_char d = char_of (48 + d)"

definition is_digit :: "char \<Rightarrow> bool" where
  "is_digit c \<longleftrightarrow> 48 \<le> (of_char c :: nat) \<and> (of_char c :: nat) \<le> 57"

definition digit_value :: "char \<Rightarrow> nat" where
  "digit_value c = of_char c - 48"

lemma of_char_digit_char [simp]: "d < 10 \<Longrightarrow> (of_char (digit_char d) :: nat) = 48 + d"
  by (simp add: digit_char_def)

lemma is_digit_digit_char [simp]: "d < 10 \<Longrightarrow> is_digit (digit_char d)"
  by (simp add: is_digit_def)

lemma digit_value_digit_char [simp]: "d < 10 \<Longrightarrow> digit_value (digit_char d) = d"
  by (simp add: digit_value_def)

lemma digit_value_less: "is_digit c \<Longrightarrow> digit_value c < 10"
  by (auto simp: is_digit_def digit_value_def)

lemma not_digit_punct [simp]: "\<not> is_digit CHR ''.''" "\<not> is_digit CHR ''-''" "\<not> is_digit CHR ''+''"
  by (simp_all add: is_digit_def)

text \<open>The value of a string of decimal digits, most significant first.\<close>

definition decimal_value :: "string \<Rightarrow> nat" where
  "decimal_value s = foldl (\<lambda>n c. 10 * n + digit_value c) 0 s"

lemma foldl_decimal: "foldl (\<lambda>n c. 10 * n + digit_value c) a s = a * 10 ^ length s + decimal_value s"
proof (induction s arbitrary: a)
  case Nil
  then show ?case by (simp add: decimal_value_def)
next
  case (Cons c s)
  have "decimal_value (c # s) = digit_value c * 10 ^ length s + decimal_value s"
    using Cons [of "digit_value c"] by (simp add: decimal_value_def)
  then show ?case using Cons [of "10 * a + digit_value c"] by (simp add: algebra_simps)
qed

lemma decimal_value_Nil [simp]: "decimal_value [] = 0"
  by (simp add: decimal_value_def)

lemma decimal_value_Cons:
  "decimal_value (c # s) = digit_value c * 10 ^ length s + decimal_value s"
  using foldl_decimal [of "digit_value c" s] by (simp add: decimal_value_def)

lemma decimal_value_append:
  "decimal_value (s @ t) = decimal_value s * 10 ^ length t + decimal_value t"
  by (induction s) (simp_all add: decimal_value_Cons algebra_simps power_add)

lemma decimal_value_zeros [simp]: "decimal_value (replicate n CHR ''0'') = 0"
  by (induction n) (simp_all add: decimal_value_Cons digit_value_def)

lemma decimal_value_less: "list_all is_digit s \<Longrightarrow> decimal_value s < 10 ^ length s"
proof (induction s)
  case Nil
  then show ?case by simp
next
  case (Cons c s)
  then have "digit_value c \<le> 9" and "decimal_value s < 10 ^ length s"
    using digit_value_less [of c] by auto
  moreover have "digit_value c * 10 ^ length s \<le> 9 * 10 ^ length s"
    using \<open>digit_value c \<le> 9\<close> by simp
  ultimately have "digit_value c * 10 ^ length s + decimal_value s < 10 * 10 ^ length s"
    by linarith
  then show ?case by (simp add: decimal_value_Cons)
qed

text \<open>\<open>n.toString()\<close> of a non-negative integer.\<close>

fun show_nat :: "nat \<Rightarrow> string" where
  "show_nat n = (if n < 10 then [digit_char n] else show_nat (n div 10) @ [digit_char (n mod 10)])"

declare show_nat.simps [simp del]

lemma show_nat_digits: "list_all is_digit (show_nat n)"
proof (induction n rule: show_nat.induct)
  case (1 n)
  then show ?case by (subst show_nat.simps) auto
qed

lemma show_nat_nonempty: "show_nat n \<noteq> []"
  by (subst show_nat.simps) simp

lemma decimal_value_show_nat [simp]: "decimal_value (show_nat n) = n"
proof (induction n rule: show_nat.induct)
  case (1 n)
  show ?case
  proof (cases "n < 10")
    case True
    then show ?thesis by (subst show_nat.simps) (simp add: decimal_value_Cons)
  next
    case False
    with 1 have "decimal_value (show_nat (n div 10)) = n div 10" by simp
    with False show ?thesis
      by (subst show_nat.simps) (simp add: decimal_value_append decimal_value_Cons)
  qed
qed

lemma show_nat_length: "n < 10 ^ k \<Longrightarrow> 0 < k \<Longrightarrow> length (show_nat n) \<le> k"
proof (induction n arbitrary: k rule: show_nat.induct)
  case (1 n)
  show ?case
  proof (cases "n < 10")
    case True
    with "1.prems" show ?thesis by (subst show_nat.simps) simp
  next
    case False
    with "1.prems" obtain j where j: "k = Suc j" "0 < j"
      by (cases k) (auto, cases "k - 1", auto)
    from "1.prems"(1) j have "n div 10 < 10 ^ j" by (simp add: less_mult_imp_div_less mult.commute)
    with False j "1.IH" have "length (show_nat (n div 10)) \<le> j" by simp
    with False j show ?thesis by (subst show_nat.simps) simp
  qed
qed

lemma list_all_not_mem: "list_all P s \<Longrightarrow> \<not> P c \<Longrightarrow> c \<notin> set s"
  by (auto simp: list_all_iff)

section \<open>Lists as tables\<close>

text \<open>
  A table is a list of rows. \<open>UPDATE ... WHERE p\<close> maps the rows that satisfy the predicate,
  \<open>SELECT ... WHERE p\<close> filters, \<open>LIMIT 1\<close> finds.
\<close>

definition update_where :: "('r \<Rightarrow> bool) \<Rightarrow> ('r \<Rightarrow> 'r) \<Rightarrow> 'r list \<Rightarrow> 'r list" where
  "update_where p f rs = map (\<lambda>r. if p r then f r else r) rs"

lemma length_update_where [simp]: "length (update_where p f rs) = length rs"
  by (simp add: update_where_def)

lemma update_where_Nil [simp]: "update_where p f [] = []"
  by (simp add: update_where_def)

lemma update_where_Cons [simp]:
  "update_where p f (r # rs) = (if p r then f r else r) # update_where p f rs"
  by (simp add: update_where_def)

lemma set_update_where: "set (update_where p f rs) = (\<lambda>r. if p r then f r else r) ` set rs"
  by (simp add: update_where_def)

lemma filter_update_where_leave:
  "(\<And>r. p r \<Longrightarrow> \<not> q (f r)) \<Longrightarrow> filter q (update_where p f rs) = filter (\<lambda>r. q r \<and> \<not> p r) rs"
  by (induction rs) auto

lemma map_filter_update_where:
  "(\<And>r. q (f r) = q r) \<Longrightarrow> (\<And>r. g (f r) = g r) \<Longrightarrow>
   map g (filter q (update_where p f rs)) = map g (filter q rs)"
  by (induction rs) auto

lemma update_where_none: "(\<And>r. r \<in> set rs \<Longrightarrow> \<not> p r) \<Longrightarrow> update_where p f rs = rs"
  by (simp add: update_where_def map_idI)

lemma map_update_where [table_simps]:
  "(\<And>r. k (f r) = k r) \<Longrightarrow> map k (update_where p f rs) = map k rs"
  by (simp add: update_where_def)

lemma filter_update_where_other:
  "(\<And>r. p r \<Longrightarrow> \<not> q r) \<Longrightarrow> (\<And>r. p r \<Longrightarrow> \<not> q (f r)) \<Longrightarrow>
   filter q (update_where p f rs) = filter q rs"
  by (induction rs) auto

lemma find_update_where:
  "(\<And>r. k (f r) = k r) \<Longrightarrow>
   find (\<lambda>r. k r = i) (update_where p f rs) =
   map_option (\<lambda>r. if p r then f r else r) (find (\<lambda>r. k r = i) rs)"
  by (induction rs) auto

lemma find_update_where_other:
  "(\<And>r. p r \<Longrightarrow> \<not> q r \<and> \<not> q (f r)) \<Longrightarrow> find q (update_where p f rs) = find q rs"
  by (induction rs) auto

text \<open>An update by key, where keys are distinct: it changes the row it finds and no other.\<close>

lemma update_one_row:
  assumes "distinct (map k xs)" and "\<And>r. p r \<Longrightarrow> k r = i" and "x \<in> set xs" and "p x"
    and "y \<in> set (update_where p f xs)"
  shows "y \<in> set xs \<and> \<not> p y \<or> y = f x"
proof -
  have "r = x" if "r \<in> set xs" "p r" for r
    using assms(1-4) that by (metis distinct_map inj_onD)
  with assms(5) show ?thesis by (auto simp: set_update_where)
qed

lemma distinct_update_one:
  assumes "distinct (map k xs)" and "\<And>r. p r \<Longrightarrow> k r = i" and "distinct (map g xs)"
    and "\<And>r. r \<in> set xs \<Longrightarrow> p r \<Longrightarrow> g (f r) \<notin> g ` set xs"
  shows "distinct (map g (update_where p f xs))"
  using assms(1,3,4)
proof (induction xs)
  case (Cons x xs)
  have tail: "distinct (map g (update_where p f xs))" using Cons by auto
  show ?case
  proof (cases "p x")
    case True
    then have "\<not> p r" if "r \<in> set xs" for r using Cons.prems(1) that assms(2) by (metis distinct.simps(2) image_eqI list.set_map list.simps(9))
    then have "update_where p f xs = xs" by (simp add: update_where_none)
    with True Cons.prems show ?thesis by auto
  next
    case False
    have "g x \<noteq> g (f r)" if "r \<in> set xs" "p r" for r using Cons.prems(3) [of r] that by auto
    with False Cons.prems tail show ?thesis by (auto simp: set_update_where)
  qed
qed simp

lemma update_where_twice:
  "(\<And>r. p r \<Longrightarrow> \<not> q (f r)) \<Longrightarrow> update_where q f (update_where p f rs) = update_where (\<lambda>r. p r \<or> q r) f rs"
  by (induction rs) auto

lemma update_where_no_match: "find p rs = None \<Longrightarrow> update_where p f rs = rs"
  by (induction rs) (auto split: if_splits)

lemma find_SomeD: "find p rs = Some r \<Longrightarrow> r \<in> set rs \<and> p r"
  by (induction rs) (auto split: if_splits)

lemma find_NoneD: "find p rs = None \<Longrightarrow> r \<in> set rs \<Longrightarrow> \<not> p r"
  by (induction rs) (auto split: if_splits)

lemma find_stronger: "find p rs = Some r \<Longrightarrow> q r \<Longrightarrow> find (\<lambda>x. p x \<and> q x) rs = Some r"
  by (induction rs) (auto split: if_splits)

lemma distinct_key_unique:
  "distinct (map k rs) \<Longrightarrow> r \<in> set rs \<Longrightarrow> r' \<in> set rs \<Longrightarrow> k r = k r' \<Longrightarrow> r = r'"
  by (metis distinct_map inj_onD)

lemma distinct_find:
  "distinct (map k rs) \<Longrightarrow> r \<in> set rs \<Longrightarrow> k r = i \<Longrightarrow> find (\<lambda>x. k x = i) rs = Some r"
proof (induction rs)
  case (Cons a rs)
  then show ?case by (auto simp: image_iff)
qed simp

lemma filter_key_unique:
  "distinct (map k rs) \<Longrightarrow> r \<in> set rs \<Longrightarrow> k r = i \<Longrightarrow> filter (\<lambda>x. k x = i) rs = [r]"
proof (induction rs)
  case (Cons a rs)
  show ?case
  proof (cases "k a = i")
    case True
    with Cons.prems have "a = r" by (auto simp: image_iff)
    moreover have "filter (\<lambda>x. k x = i) rs = []"
      using True Cons.prems by (auto simp: filter_empty_conv image_iff)
    ultimately show ?thesis using True by simp
  next
    case False
    with Cons show ?thesis by auto
  qed
qed simp

text \<open>A row that enters a selection by an update adds its image.\<close>

lemma mset_filter_update_where:
  assumes "distinct (map k rs)" and "x \<in> set rs" and "p x" and "\<And>r. r \<in> set rs \<Longrightarrow> p r \<Longrightarrow> k r = k x"
    and "\<not> q x" and "q (f x)"
  shows "mset (map g (filter q (update_where p f rs))) = add_mset (g (f x)) (mset (map g (filter q rs)))"
  using assms
proof (induction rs)
  case (Cons a rs)
  show ?case
  proof (cases "a = x")
    case True
    have "update_where p f rs = rs"
    proof (rule update_where_none)
      fix r assume "r \<in> set rs"
      with Cons.prems(1) Cons.prems(4) [of r] True show "\<not> p r" by (metis image_eqI distinct.simps(2) list.map(2) list.set_intros(2) list.set_map)
    qed
    then show ?thesis using True Cons.prems(3,5,6) by simp
  next
    case False
    with Cons.prems(2) have x: "x \<in> set rs" by simp
    with Cons.prems(1) have "k a \<noteq> k x" by auto
    with Cons.prems(4) [of a] have pa: "\<not> p a" by auto
    have "mset (map g (filter q (update_where p f rs))) = add_mset (g (f x)) (mset (map g (filter q rs)))"
      using Cons.prems(1,3,5,6) x by (intro Cons.IH Cons.prems(4)) simp_all
    with pa show ?thesis by simp
  qed
qed simp

text \<open>A sum over a table changes, under an update of one row, by that row's change.\<close>

lemma sum_list_update_key:
  fixes g :: "'r \<Rightarrow> 'b::ab_group_add"
  assumes "distinct (map k rs)" and "r \<in> set rs" and "k r = i"
  shows "sum_list (map g (update_where (\<lambda>x. k x = i) f rs)) = sum_list (map g rs) - g r + g (f r)"
  using assms
proof (induction rs)
  case (Cons a rs)
  show ?case
  proof (cases "k a = i")
    case True
    with Cons.prems have "a = r" by (auto simp: image_iff)
    moreover from True Cons.prems have "update_where (\<lambda>x. k x = i) f rs = rs"
      by (intro update_where_none) (auto simp: image_iff)
    ultimately show ?thesis using True by simp
  next
    case False
    with Cons.prems have "r \<in> set rs" by auto
    with False Cons show ?thesis by (simp add: algebra_simps)
  qed
qed simp

text \<open>
  A table after a unit of work: every old row is related to its successor, in place, and the new
  rows satisfy a predicate.
\<close>

definition table_extends :: "('r \<Rightarrow> 'r \<Rightarrow> bool) \<Rightarrow> ('r \<Rightarrow> bool) \<Rightarrow> 'r list \<Rightarrow> 'r list \<Rightarrow> bool" where
  "table_extends rel new xs ys \<longleftrightarrow>
     (\<exists>old add. ys = old @ add \<and> list_all2 rel xs old \<and> (\<forall>y \<in> set add. new y))"

lemma list_all2_set2: "list_all2 p xs ys \<Longrightarrow> y \<in> set ys \<Longrightarrow> \<exists>x \<in> set xs. p x y"
  by (induction rule: list_all2_induct) auto

lemma table_extendsI:
  "ys = old @ add \<Longrightarrow> list_all2 rel xs old \<Longrightarrow> (\<And>y. y \<in> set add \<Longrightarrow> new y) \<Longrightarrow> table_extends rel new xs ys"
  by (auto simp: table_extends_def)

lemma table_extends_refl: "(\<And>r. rel r r) \<Longrightarrow> table_extends rel new xs xs"
  by (rule table_extendsI [of _ xs "[]"]) (simp_all add: list_all2_refl)

lemma table_extends_snoc: "(\<And>r. rel r r) \<Longrightarrow> new y \<Longrightarrow> table_extends rel new xs (xs @ [y])"
  by (rule table_extendsI [of _ xs "[y]"]) (simp_all add: list_all2_refl)

lemma table_extends_update_where:
  "(\<And>r. rel r r) \<Longrightarrow> (\<And>r. r \<in> set xs \<Longrightarrow> p r \<Longrightarrow> rel r (f r)) \<Longrightarrow>
   table_extends rel new xs (update_where p f xs)"
  unfolding table_extends_def update_where_def
  by (intro exI [of _ "map (\<lambda>r. if p r then f r else r) xs"] exI [of _ "[]"])
     (simp add: list_all2_map2 list.rel_refl_strong)

lemma table_extends_trans:
  assumes "\<And>x y z. rel x y \<Longrightarrow> rel y z \<Longrightarrow> rel x z"
    and "\<And>y z. new y \<Longrightarrow> rel y z \<Longrightarrow> new z"
    and "table_extends rel new xs ys" and "table_extends rel new ys zs"
  shows "table_extends rel new xs zs"
proof -
  from assms(3) obtain o1 a1 where 1: "ys = o1 @ a1" "list_all2 rel xs o1" "\<forall>y \<in> set a1. new y"
    by (auto simp: table_extends_def)
  from assms(4) 1(1) obtain o2 a2 where 2: "zs = o2 @ a2" "list_all2 rel (o1 @ a1) o2"
    "\<forall>y \<in> set a2. new y"
    by (auto simp: table_extends_def)
  then obtain p q where pq: "o2 = p @ q" "list_all2 rel o1 p" "list_all2 rel a1 q"
    by (auto simp: list_all2_append1)
  have "list_all2 rel xs p"
    using list_all2_trans [of rel rel rel] assms(1) 1(2) pq(2) by blast
  moreover have "\<forall>y \<in> set q. new y"
    using pq(3) 1(3) assms(2) by (metis list_all2_conv_all_nth in_set_conv_nth)
  ultimately show ?thesis
    using 2 pq by (intro table_extendsI [of zs p "q @ a2"]) auto
qed

lemma table_extends_weaken:
  "table_extends rel new xs ys \<Longrightarrow> (\<And>x y. rel x y \<Longrightarrow> rel' x y) \<Longrightarrow> (\<And>y. new y \<Longrightarrow> new' y) \<Longrightarrow> table_extends rel' new' xs ys"
  unfolding table_extends_def by (metis list_all2_mono)

lemma table_extends_filter:
  assumes "table_extends rel new xs ys"
    and "\<And>x y. rel x y \<Longrightarrow> q x \<or> q y \<Longrightarrow> y = x" and "\<And>y. new y \<Longrightarrow> \<not> q y"
  shows "filter q ys = filter q xs"
proof -
  from assms(1) obtain old add where t: "ys = old @ add" "list_all2 rel xs old" "\<forall>y \<in> set add. new y"
    by (auto simp: table_extends_def)
  have "filter q old = filter q xs"
    using t(2)
  proof (induction rule: list_all2_induct)
    case (Cons x xs y ys)
    with assms(2) [of x y] show ?case by auto
  qed simp
  moreover have "filter q add = []" using t(3) assms(3) by (simp add: filter_empty_conv)
  ultimately show ?thesis using t(1) by simp
qed

lemma table_extends_map:
  assumes "table_extends rel new xs ys" and "\<And>x y. rel x y \<Longrightarrow> g y = g x"
  obtains add where "map g ys = map g xs @ map g add" "\<And>y. y \<in> set add \<Longrightarrow> new y"
proof -
  from assms(1) obtain old add where t: "ys = old @ add" "list_all2 rel xs old" "\<forall>y \<in> set add. new y"
    by (auto simp: table_extends_def)
  from t(2) have "map g old = map g xs"
    by (induction rule: list_all2_induct) (auto simp: assms(2))
  with t show thesis by (intro that [of add]) auto
qed

lemma table_extends_rowD:
  assumes "table_extends rel new xs ys" and "x \<in> set xs"
  obtains y where "y \<in> set ys" "rel x y"
proof -
  from assms(1) obtain old add where t: "ys = old @ add" "list_all2 rel xs old"
    by (auto simp: table_extends_def)
  from assms(2) obtain i where i: "i < length xs" "x = xs ! i" by (auto simp: in_set_conv_nth)
  with t(2) have "rel x (old ! i)" "old ! i \<in> set old"
    by (simp_all add: list_all2_conv_all_nth)
  with t(1) show thesis by (intro that [of "old ! i"]) simp_all
qed

text \<open>
  An update changes a sum over the table by the change on the rows of any wider selection that
  leaves the other rows of the selection as they are.
\<close>

lemma sum_list_update_where:
  fixes g :: "'r \<Rightarrow> 'b::ab_group_add"
  assumes "\<And>r. r \<in> set rs \<Longrightarrow> p r \<Longrightarrow> q r \<and> g (f r) = h r"
    and "\<And>r. r \<in> set rs \<Longrightarrow> q r \<Longrightarrow> \<not> p r \<Longrightarrow> h r = g r"
  shows "sum_list (map g (update_where p f rs))
    = sum_list (map g rs) + (sum_list (map h (filter q rs)) - sum_list (map g (filter q rs)))"
  using assms
proof (induction rs)
  case (Cons r rs)
  then have ih: "sum_list (map g (update_where p f rs))
    = sum_list (map g rs) + (sum_list (map h (filter q rs)) - sum_list (map g (filter q rs)))"
    by simp
  show ?case
  proof (cases "p r")
    case True
    with Cons.prems(1) [of r] ih show ?thesis by (simp add: algebra_simps)
  next
    case False
    with Cons.prems(2) [of r] ih show ?thesis by (simp add: algebra_simps)
  qed
qed simp

section \<open>Sorting by a key\<close>

lemma sorted_map_filter: "sorted (map k xs) \<Longrightarrow> sorted (map k (filter p xs))"
  by (induction xs) auto

lemma distinct_map_sort_key: "distinct (map k (sort_key h xs)) = distinct (map k xs)"
  by (simp add: distinct_map)

lemma sum_list_sort_key:
  fixes h :: "'r \<Rightarrow> 'b::comm_monoid_add"
  shows "sum_list (map h (sort_key k xs)) = sum_list (map h xs)"
  by (metis mset_map mset_sort sum_mset_sum_list)

lemma set_sort_key [simp]: "set (sort_key k xs) = set xs"
  by simp

end
