(* ===== verification/Tenancy.thy ===== *)
theory Tenancy
  imports Prelude
begin

text \<open>
  Tenant-scoped transactions: \<open>runWithTenantContext\<close> of
  packages/db/src/middleware/tenant-context.ts. A unit of work sees a database state and ends in
  one of three ways; the wrapper commits or rolls back. The row-level-security policies of the
  migrations decide, from the two session settings the wrapper sets, which rows a statement sees.

  A transaction is modelled as one atomic step: the service operations lock the rows they read
  before they write them (\<open>FOR UPDATE\<close>), so operations on the same rows are serial.
\<close>

section \<open>Errors\<close>

datatype exn =
    Pg_error string       \<comment> \<open>an SQLSTATE raised by a statement\<close>
  | Js_error string       \<comment> \<open>a thrown \<open>Error\<close>, by class name\<close>

abbreviation "fk_violation \<equiv> Pg_error ''23503''"
abbreviation "unique_violation \<equiv> Pg_error ''23505''"
abbreviation "check_violation \<equiv> Pg_error ''23514''"
abbreviation "numeric_overflow \<equiv> Pg_error ''22003''"
abbreviation "invalid_text \<equiv> Pg_error ''22P02''"

text \<open>The checks of a statement in their order: the first that fails gives the error.\<close>

definition sql_check :: "bool \<Rightarrow> exn \<Rightarrow> exn option \<Rightarrow> exn option" where
  "sql_check ok e rest = (if ok then rest else Some e)"

lemma sql_check_None [simp]: "sql_check b e r = None \<longleftrightarrow> b \<and> r = None"
  by (simp add: sql_check_def)

lemma sql_check_then:
  "(case sql_check b e r of Some x \<Rightarrow> f x | None \<Rightarrow> g) = (if b then (case r of Some x \<Rightarrow> f x | None \<Rightarrow> g) else f e)"
  by (simp add: sql_check_def)

text \<open>The generated identifiers an operation draws, in the order it draws them.\<close>

type_synonym id_source = "nat \<Rightarrow> uuid"

section \<open>The tenant context\<close>

record tenant_context =
  ctxTenant :: "uuid option"
  ctxPlatformAdmin :: bool

definition NIL_TENANT_ID :: uuid where
  "NIL_TENANT_ID = 0"

definition tenant_ctx :: "uuid \<Rightarrow> tenant_context" where
  "tenant_ctx t = \<lparr>ctxTenant = Some t, ctxPlatformAdmin = False\<rparr>"

definition platform_ctx :: tenant_context where
  "platform_ctx = \<lparr>ctxTenant = None, ctxPlatformAdmin = True\<rparr>"

text \<open>\<open>app.current_tenant\<close> as the wrapper sets it: the null tenant is the nil UUID.\<close>

definition current_tenant :: "tenant_context \<Rightarrow> uuid" where
  "current_tenant c = (case ctxTenant c of None \<Rightarrow> NIL_TENANT_ID | Some t \<Rightarrow> t)"

text \<open>The two shapes of policy: tenant equality, and tenant equality or platform admin.\<close>

definition rls_tenant :: "tenant_context \<Rightarrow> uuid \<Rightarrow> bool" where
  "rls_tenant c row_tenant \<longleftrightarrow> row_tenant = current_tenant c"

definition rls_tenant_or_admin :: "tenant_context \<Rightarrow> uuid \<Rightarrow> bool" where
  "rls_tenant_or_admin c row_tenant \<longleftrightarrow> row_tenant = current_tenant c \<or> ctxPlatformAdmin c"

lemma current_tenant_simps [simp]:
  "current_tenant (tenant_ctx t) = t" "current_tenant platform_ctx = NIL_TENANT_ID"
  by (simp_all add: current_tenant_def tenant_ctx_def platform_ctx_def)

lemma rls_simps [simp]:
  "rls_tenant (tenant_ctx t) t' \<longleftrightarrow> t' = t"
  "rls_tenant_or_admin (tenant_ctx t) t' \<longleftrightarrow> t' = t"
  "rls_tenant_or_admin platform_ctx t'"
  by (simp_all add: rls_tenant_def rls_tenant_or_admin_def tenant_ctx_def current_tenant_def platform_ctx_def)

section \<open>Transactions\<close>

text \<open>
  The end of a unit of work: it returned (with the state its statements built); it returned after
  catching the error of a statement, which leaves the PostgreSQL transaction aborted; or it threw.
\<close>

datatype ('a, 's) work_end = Returns 'a 's | Returns_aborted 'a | Throws exn

text \<open>
  \<open>BEGIN; work; COMMIT\<close>, with \<open>ROLLBACK\<close> and re-throw on an error. \<open>COMMIT\<close> of an aborted
  transaction rolls back.
\<close>

definition runWithTenantContext ::
    "tenant_context \<Rightarrow> (tenant_context \<Rightarrow> 's \<Rightarrow> ('a, 's) work_end) \<Rightarrow> 's \<Rightarrow> (exn + 'a) \<times> 's" where
  "runWithTenantContext c work s =
     (case work c s of
        Returns a s' \<Rightarrow> (Inr a, s')
      | Returns_aborted a \<Rightarrow> (Inr a, s)
      | Throws e \<Rightarrow> (Inl e, s))"

lemma runWithTenantContext_throws:
  "runWithTenantContext c work s = (Inl e, s') \<Longrightarrow> s' = s"
  by (auto simp: runWithTenantContext_def split: work_end.splits)

lemma runWithTenantContext_commits: "work c s = Returns a s' \<Longrightarrow> runWithTenantContext c work s = (Inr a, s')"
  by (simp add: runWithTenantContext_def)

lemma runWithTenantContext_cases:
  assumes "runWithTenantContext c work s = (r, s')"
  obtains a where "work c s = Returns a s'" "r = Inr a"
  | a where "work c s = Returns_aborted a" "r = Inr a" "s' = s"
  | e where "work c s = Throws e" "r = Inl e" "s' = s"
  using assms by (auto simp: runWithTenantContext_def split: work_end.splits)

section \<open>Invariants carried through a transaction\<close>

text \<open>
  The contract every unit of work of this development meets: from a state with the invariant it
  commits a state with the invariant, and it relates the two by a relation that holds of an
  unchanged state.
\<close>

locale tenant_work =
  fixes work :: "tenant_context \<Rightarrow> 's \<Rightarrow> ('a, 's) work_end"
    and ctx_ok :: "tenant_context \<Rightarrow> bool"
    and inv :: "'s \<Rightarrow> bool"
    and frame :: "tenant_context \<Rightarrow> 's \<Rightarrow> 's \<Rightarrow> bool"
  assumes work_inv: "\<lbrakk>ctx_ok c; inv s; work c s = Returns a s'\<rbrakk> \<Longrightarrow> inv s'"
    and work_frame: "\<lbrakk>ctx_ok c; inv s; work c s = Returns a s'\<rbrakk> \<Longrightarrow> frame c s s'"
    and frame_refl: "frame c s s"
begin

lemma run_inv:
  assumes "ctx_ok c" and "inv s" and "runWithTenantContext c work s = (r, s')"
  shows "inv s'"
  using assms(3) by (rule runWithTenantContext_cases) (auto intro: work_inv assms(1,2) simp: assms(2))

lemma run_frame:
  assumes "ctx_ok c" and "inv s" and "runWithTenantContext c work s = (r, s')"
  shows "frame c s s'"
  using assms(3) by (rule runWithTenantContext_cases) (auto intro: work_frame assms(1,2) frame_refl)

end

end
