(* ===== verification/Money.thy ===== *)
theory Money
  imports Tenancy
begin

text \<open>
  Exact-decimal money: the scale-4 helpers of apps/api/src/settlement (three copies of
  \<open>toScaledInt\<close>, two of \<open>fromScaledInt\<close>), the wire check \<open>MONEY_RE\<close> of the DTOs, and the column
  type \<open>numeric(19,4)\<close> the amounts are stored in. A stored amount is an \<^typ>\<open>int\<close> number of
  ten-thousandths.
\<close>

type_synonym money = int

definition SCALE :: nat where
  "SCALE = 4"

section \<open>\<open>BigInt(string)\<close>\<close>

text \<open>
  JavaScript's StringToBigInt: surrounding white space is dropped, the empty string is zero, an
  optional sign and decimal digits, or a radix prefix and digits; anything else is a SyntaxError
  (\<^const>\<open>None\<close>).
\<close>

definition is_space :: "char \<Rightarrow> bool" where
  "is_space c \<longleftrightarrow> (of_char c :: nat) \<in> {9, 10, 11, 12, 13, 32}"

definition js_trim :: "string \<Rightarrow> string" where
  "js_trim s = rev (dropWhile is_space (rev (dropWhile is_space s)))"

definition radix_value :: "char \<Rightarrow> nat" where
  "radix_value c = (let n = of_char c :: nat in
     if 48 \<le> n \<and> n \<le> 57 then n - 48
     else if 97 \<le> n \<and> n \<le> 122 then n - 87
     else if 65 \<le> n \<and> n \<le> 90 then n - 55
     else 99)"

fun parse_radix :: "nat \<Rightarrow> nat \<Rightarrow> string \<Rightarrow> nat option" where
  "parse_radix b acc [] = Some acc"
| "parse_radix b acc (c # cs) =
     (if radix_value c < b then parse_radix b (b * acc + radix_value c) cs else None)"

definition parse_digits :: "nat \<Rightarrow> string \<Rightarrow> nat option" where
  "parse_digits b s = (if s = [] then None else parse_radix b 0 s)"

definition js_BigInt :: "string \<Rightarrow> int option" where
  "js_BigInt s =
     (case js_trim s of
        [] \<Rightarrow> Some 0
      | c # cs \<Rightarrow>
          (if c = CHR ''-'' then map_option (\<lambda>n. - int n) (parse_digits 10 cs)
           else if c = CHR ''+'' then map_option int (parse_digits 10 cs)
           else if c = CHR ''0'' \<and> cs \<noteq> [] \<and> (hd cs = CHR ''x'' \<or> hd cs = CHR ''X'')
             then map_option int (parse_digits 16 (tl cs))
           else if c = CHR ''0'' \<and> cs \<noteq> [] \<and> (hd cs = CHR ''o'' \<or> hd cs = CHR ''O'')
             then map_option int (parse_digits 8 (tl cs))
           else if c = CHR ''0'' \<and> cs \<noteq> [] \<and> (hd cs = CHR ''b'' \<or> hd cs = CHR ''B'')
             then map_option int (parse_digits 2 (tl cs))
           else map_option int (parse_digits 10 (c # cs))))"

section \<open>The scale-4 helpers\<close>

text \<open>\<open>const [whole = "0", frac = ""] = s.split(".")\<close>\<close>

definition split_whole_frac :: "string \<Rightarrow> string \<times> string" where
  "split_whole_frac s =
     (case js_split CHR ''.'' s of
        [] \<Rightarrow> (''0'', [])
      | [w] \<Rightarrow> (w, [])
      | w # f # _ \<Rightarrow> (w, f))"

definition frac_padded :: "string \<Rightarrow> string" where
  "frac_padded frac = take SCALE (frac @ replicate SCALE CHR ''0'')"

definition scaled_magnitude :: "string \<Rightarrow> int option" where
  "scaled_magnitude s =
     (case split_whole_frac s of (whole, frac) \<Rightarrow>
        (case (js_BigInt whole,
               js_BigInt (if frac_padded frac = [] then ''0'' else frac_padded frac)) of
           (Some w, Some f) \<Rightarrow> Some (w * 10 ^ SCALE + f)
         | _ \<Rightarrow> None))"

definition toScaledInt :: "string \<Rightarrow> int option" where
  "toScaledInt money =
     (let negative = prefix ''-'' money;
          abs = (if negative then drop 1 money else money)
      in map_option (\<lambda>m. if negative then - m else m) (scaled_magnitude abs))"

definition fromScaledInt :: "int \<Rightarrow> string" where
  "fromScaledInt v =
     (let negative = v < 0; abs = nat \<bar>v\<bar>;
          whole = abs div 10 ^ SCALE;
          frac = js_padStart SCALE CHR ''0'' (show_nat (abs mod 10 ^ SCALE))
      in (if negative then ''-'' else []) @ show_nat whole @ ''.'' @ frac)"

text \<open>The copies of reconcile-decision.ts and claim.service.ts do not treat the sign.\<close>

definition reconcile_toScaledInt :: "string \<Rightarrow> int option" where
  "reconcile_toScaledInt money = scaled_magnitude money"

definition claim_toScaledInt :: "string \<Rightarrow> int option" where
  "claim_toScaledInt money = scaled_magnitude money"

section \<open>The wire check\<close>

text \<open>\<open>/^\d{1,15}(\.\d{1,4})?$/\<close>\<close>

definition MONEY_RE :: "string \<Rightarrow> bool" where
  "MONEY_RE s =
     (let w = takeWhile is_digit s; rest = dropWhile is_digit s
      in 1 \<le> length w \<and> length w \<le> 15 \<and>
         (rest = [] \<or>
          (hd rest = CHR ''.'' \<and> 1 \<le> length (tl rest) \<and> length (tl rest) \<le> 4 \<and>
           list_all is_digit (tl rest))))"

text \<open>
  \<open>Number(v) > 0\<close> on a string that passed \<^const>\<open>MONEY_RE\<close>: rounding to a double keeps zero and
  non-zero apart at this scale, so the test is whether the amount is positive.
\<close>

definition Number_positive :: "string \<Rightarrow> bool" where
  "Number_positive s = (case toScaledInt s of Some v \<Rightarrow> v > 0 | None \<Rightarrow> False)"

section \<open>The column type\<close>

text \<open>
  \<open>numeric(19,4)\<close> holds at most fifteen integral digits. Its text output has exactly four
  fractional digits; on input of a decimal literal it rounds half away from zero at the fifth.
\<close>

definition numeric_19_4_fits :: "money \<Rightarrow> bool" where
  "numeric_19_4_fits v \<longleftrightarrow> \<bar>v\<bar> < 10 ^ 19"

definition pg_numeric_text :: "money \<Rightarrow> string" where
  "pg_numeric_text v =
     (if v < 0 then ''-'' else []) @ show_nat (nat \<bar>v\<bar> div 10000) @ ''.'' @
     js_padStart 4 CHR ''0'' (show_nat (nat \<bar>v\<bar> mod 10000))"

definition pg_decimal_in :: "string \<Rightarrow> money option" where
  "pg_decimal_in s =
     (let neg = prefix ''-'' s; t = (if neg then drop 1 s else s);
          w = takeWhile is_digit t; r = dropWhile is_digit t; f = drop 1 r
      in if w \<noteq> [] \<and> (r = [] \<or> (hd r = CHR ''.'' \<and> list_all is_digit f))
         then let m = (2 * 10 ^ 4 * decimal_value (w @ f) + 10 ^ length f) div (2 * 10 ^ length f)
              in Some (if neg then - int m else int m)
         else None)"

definition pg_numeric_in :: "string \<Rightarrow> exn + money" where
  "pg_numeric_in s =
     (case pg_decimal_in s of
        None \<Rightarrow> Inl invalid_text
      | Some v \<Rightarrow> if numeric_19_4_fits v then Inr v else Inl numeric_overflow)"

section \<open>Digit strings\<close>

lemma digit_not_space: "is_digit c \<Longrightarrow> \<not> is_space c"
  by (auto simp: is_digit_def is_space_def)

lemma radix_value_digit: "is_digit c \<Longrightarrow> radix_value c = digit_value c"
  by (simp add: is_digit_def radix_value_def digit_value_def Let_def)

lemma parse_radix_digits:
  "list_all is_digit s \<Longrightarrow> parse_radix 10 acc s = Some (foldl (\<lambda>n c. 10 * n + digit_value c) acc s)"
  by (induction s arbitrary: acc) (auto simp: radix_value_digit digit_value_less)

lemma parse_digits_digits:
  "list_all is_digit s \<Longrightarrow> s \<noteq> [] \<Longrightarrow> parse_digits 10 s = Some (decimal_value s)"
  by (simp add: parse_digits_def parse_radix_digits decimal_value_def)

lemma dropWhile_space_digits: "list_all is_digit s \<Longrightarrow> dropWhile is_space s = s"
  by (cases s) (auto dest: digit_not_space)

lemma js_trim_digits: "list_all is_digit s \<Longrightarrow> js_trim s = s"
  by (simp add: js_trim_def dropWhile_space_digits list_all_rev)

lemma js_BigInt_digits:
  assumes "list_all is_digit s"
  shows "js_BigInt s = Some (int (decimal_value s))"
proof (cases s)
  case Nil
  then show ?thesis by (simp add: js_BigInt_def js_trim_def)
next
  case (Cons c cs)
  with assms have c: "is_digit c" and cs: "list_all is_digit cs" by auto
  have "cs \<noteq> [] \<Longrightarrow> is_digit (hd cs)" using cs by (cases cs) auto
  then have "cs = [] \<or> hd cs \<notin> set ''xXoObB''" by (auto simp: is_digit_def)
  moreover from c have "c \<noteq> CHR ''-''" "c \<noteq> CHR ''+''" by (auto simp: is_digit_def)
  moreover have "parse_digits 10 (c # cs) = Some (decimal_value (c # cs))"
    using assms Cons by (intro parse_digits_digits) auto
  ultimately show ?thesis
    unfolding js_BigInt_def using assms Cons by (auto simp: js_trim_digits)
qed

text \<open>What the scale-4 helpers compute on a well-formed amount.\<close>

definition scaled :: "string \<Rightarrow> string \<Rightarrow> nat" where
  "scaled w f = decimal_value w * 10 ^ SCALE + decimal_value f * 10 ^ (SCALE - length f)"

lemma frac_padded_short:
  "length f \<le> SCALE \<Longrightarrow> frac_padded f = f @ replicate (SCALE - length f) CHR ''0''"
  by (simp add: frac_padded_def)

lemma frac_padded_digits: "list_all is_digit f \<Longrightarrow> list_all is_digit (frac_padded f)"
  by (auto simp: frac_padded_def list_all_iff is_digit_def dest: in_set_takeD)

lemma frac_padded_value:
  "length f \<le> SCALE \<Longrightarrow> decimal_value (frac_padded f) = decimal_value f * 10 ^ (SCALE - length f)"
  by (simp add: frac_padded_short decimal_value_append)

lemma scaled_magnitude_split:
  assumes "split_whole_frac s = (w, f)" and "list_all is_digit w" and "list_all is_digit f"
    and "length f \<le> SCALE"
  shows "scaled_magnitude s = Some (int (scaled w f))"
proof -
  have "frac_padded f \<noteq> []" by (simp add: frac_padded_def SCALE_def)
  then show ?thesis
    using assms
    by (simp add: scaled_magnitude_def js_BigInt_digits frac_padded_digits frac_padded_value scaled_def)
qed

lemma split_whole_frac_dot:
  "list_all is_digit w \<Longrightarrow> list_all is_digit f \<Longrightarrow> split_whole_frac (w @ CHR ''.'' # f) = (w, f)"
  by (simp add: split_whole_frac_def js_split_sep js_split_no_sep list_all_not_mem)

lemma split_whole_frac_plain: "list_all is_digit w \<Longrightarrow> split_whole_frac w = (w, [])"
  by (simp add: split_whole_frac_def js_split_no_sep list_all_not_mem)

lemma digits_no_minus: "list_all is_digit w \<Longrightarrow> w \<noteq> [] \<Longrightarrow> \<not> prefix ''-'' (w @ r)"
  by (cases w) (auto simp: is_digit_def)

section \<open>Round trips\<close>

lemma frac_digits:
  assumes "m < 10 ^ SCALE"
  shows "list_all is_digit (js_padStart SCALE CHR ''0'' (show_nat m))"
    and "length (js_padStart SCALE CHR ''0'' (show_nat m)) = SCALE"
    and "decimal_value (js_padStart SCALE CHR ''0'' (show_nat m)) = m"
proof -
  have "length (show_nat m) \<le> SCALE"
    using assms by (intro show_nat_length) (simp_all add: SCALE_def)
  then show "length (js_padStart SCALE CHR ''0'' (show_nat m)) = SCALE"
    by (simp add: js_padStart_def)
  show "list_all is_digit (js_padStart SCALE CHR ''0'' (show_nat m))"
    using show_nat_digits by (auto simp: js_padStart_def list_all_iff is_digit_def)
  show "decimal_value (js_padStart SCALE CHR ''0'' (show_nat m)) = m"
    by (simp add: js_padStart_def decimal_value_append)
qed

lemma scaled_magnitude_render:
  "scaled_magnitude (show_nat (n div 10 ^ SCALE) @ ''.'' @
     js_padStart SCALE CHR ''0'' (show_nat (n mod 10 ^ SCALE))) = Some (int n)"
proof -
  define w where "w = show_nat (n div 10 ^ SCALE)"
  define f where "f = js_padStart SCALE CHR ''0'' (show_nat (n mod 10 ^ SCALE))"
  have "(n mod 10 ^ SCALE) < 10 ^ SCALE" by simp
  from frac_digits [OF this] have f: "list_all is_digit f" "length f = SCALE"
    "decimal_value f = n mod 10 ^ SCALE"
    by (simp_all add: f_def)
  have w: "list_all is_digit w" "decimal_value w = n div 10 ^ SCALE"
    by (simp_all add: w_def show_nat_digits)
  have "scaled_magnitude (w @ CHR ''.'' # f) = Some (int (scaled w f))"
    using f w by (intro scaled_magnitude_split split_whole_frac_dot) auto
  also have "scaled w f = n"
    using div_mult_mod_eq [of n "10 ^ SCALE"] by (simp only: scaled_def f w) simp
  finally show ?thesis by (simp add: w_def f_def)
qed

lemma toScaledInt_fromScaledInt [simp]: "toScaledInt (fromScaledInt v) = Some v"
proof (cases "v < 0")
  case True
  then show ?thesis
    by (simp add: toScaledInt_def fromScaledInt_def Let_def scaled_magnitude_render [simplified])
next
  case False
  then have "\<not> prefix ''-'' (show_nat (nat v div 10 ^ SCALE) @ r)" for r
    by (intro digits_no_minus show_nat_digits show_nat_nonempty)
  with False show ?thesis
    by (simp add: toScaledInt_def fromScaledInt_def Let_def scaled_magnitude_render [simplified])
qed

lemma reconcile_toScaledInt_fromScaledInt [simp]:
  "0 \<le> v \<Longrightarrow> reconcile_toScaledInt (fromScaledInt v) = Some v"
  by (simp add: reconcile_toScaledInt_def fromScaledInt_def Let_def scaled_magnitude_render [simplified])

lemma claim_toScaledInt_eq: "claim_toScaledInt = reconcile_toScaledInt"
  by (simp add: fun_eq_iff claim_toScaledInt_def reconcile_toScaledInt_def)

lemma pg_numeric_text_eq: "pg_numeric_text = fromScaledInt"
  by (simp add: fun_eq_iff pg_numeric_text_def fromScaledInt_def Let_def SCALE_def)

section \<open>Wire amounts\<close>

lemma MONEY_RE_cases:
  assumes "MONEY_RE s"
  obtains (plain) "list_all is_digit s" "s \<noteq> []" "length s \<le> 15"
  | (frac) w f where "s = w @ CHR ''.'' # f" "list_all is_digit w" "w \<noteq> []" "length w \<le> 15"
      "list_all is_digit f" "f \<noteq> []" "length f \<le> SCALE"
proof -
  define w where "w = takeWhile is_digit s"
  define r where "r = dropWhile is_digit s"
  have s: "s = w @ r" by (simp add: w_def r_def)
  have w: "list_all is_digit w" by (auto simp: w_def list_all_iff dest: set_takeWhileD)
  show thesis
  proof (cases r)
    case Nil
    with s w assms show ?thesis
      by (intro plain) (auto simp: MONEY_RE_def Let_def w_def)
  next
    case (Cons d f)
    with assms have "d = CHR ''.''" "1 \<le> length f" "length f \<le> 4" "list_all is_digit f"
      "1 \<le> length w" "length w \<le> 15"
      unfolding MONEY_RE_def Let_def w_def [symmetric] r_def [symmetric] by simp_all
    with s w Cons show ?thesis
      by (intro frac [of w f]) (auto simp: SCALE_def)
  qed
qed

lemma scaled_bound:
  assumes "list_all is_digit w" "length w \<le> 15" "list_all is_digit f" "length f \<le> SCALE"
  shows "scaled w f < 10 ^ 19"
proof -
  have "decimal_value w < 10 ^ length w" using assms(1) by (rule decimal_value_less)
  also have "(10::nat) ^ length w \<le> 10 ^ 15" using assms(2) by (rule power_increasing) simp
  finally have w: "decimal_value w + 1 \<le> 10 ^ 15" by simp
  have "decimal_value f < 10 ^ length f" using assms(3) by (rule decimal_value_less)
  then have "decimal_value f * 10 ^ (SCALE - length f) < 10 ^ length f * 10 ^ (SCALE - length f)"
    by simp
  also have "\<dots> = 10 ^ SCALE" using assms(4) by (simp flip: power_add)
  finally have "scaled w f < (decimal_value w + 1) * 10 ^ SCALE"
    by (simp add: scaled_def)
  also have "\<dots> \<le> 10 ^ 15 * 10 ^ SCALE" using w by (rule mult_le_mono1)
  finally show ?thesis by (simp add: SCALE_def)
qed

lemma pg_decimal_in_split:
  assumes "list_all is_digit w" "w \<noteq> []" "list_all is_digit f" "length f \<le> SCALE"
    and "r = [] \<and> f = [] \<or> r = CHR ''.'' # f"
  shows "pg_decimal_in (w @ r) = Some (int (scaled w f))"
proof -
  have neg: "\<not> prefix ''-'' (w @ r)" using assms(1,2) by (rule digits_no_minus)
  have tw: "takeWhile is_digit (w @ r) = w" and dw: "dropWhile is_digit (w @ r) = r"
    using assms(1,5) by (auto simp: takeWhile_append dropWhile_append list_all_iff)
  define k where "k = length f"
  have k: "(10::nat) ^ SCALE = 10 ^ (SCALE - k) * 10 ^ k"
    using assms(4) by (simp add: k_def flip: power_add)
  define v where "v = decimal_value w * 10 ^ k + decimal_value f"
  have "scaled w f = v * 10 ^ (SCALE - k)"
    using k by (simp add: scaled_def v_def k_def algebra_simps)
  moreover have "(2 * 10 ^ 4 * v + 10 ^ k) div (2 * 10 ^ k) = v * 10 ^ (SCALE - k)"
  proof -
    have "2 * 10 ^ 4 * v + 10 ^ k = 10 ^ k + (v * 10 ^ (SCALE - k)) * (2 * 10 ^ k)"
      using k by (simp add: SCALE_def algebra_simps)
    also have "\<dots> div (2 * 10 ^ k) = v * 10 ^ (SCALE - k)"
      by (subst div_mult_self1) (simp_all add: div_mult2_eq)
    finally show ?thesis .
  qed
  moreover have "pg_decimal_in (w @ r) =
    Some (int ((2 * 10 ^ 4 * decimal_value (w @ f) + 10 ^ length f) div (2 * 10 ^ length f)))"
  proof -
    have "drop 1 r = f" using assms(5) by auto
    moreover have "r = [] \<or> hd r = CHR ''.''" using assms(5) by auto
    ultimately show ?thesis
      using assms(2,3) by (simp only: pg_decimal_in_def Let_def neg if_False tw dw) simp
  qed
  ultimately show ?thesis by (simp add: decimal_value_append v_def k_def)
qed

lemma MONEY_RE_scaled:
  assumes "MONEY_RE s"
  obtains v where "toScaledInt s = Some v" "reconcile_toScaledInt s = Some v"
    "pg_numeric_in s = Inr v" "0 \<le> v" "numeric_19_4_fits v"
  using assms
proof (cases rule: MONEY_RE_cases)
  case plain
  note neg = digits_no_minus [OF plain(1,2), of "[]", simplified]
  have "scaled_magnitude s = Some (int (scaled s []))"
    using plain by (intro scaled_magnitude_split split_whole_frac_plain) auto
  moreover have "pg_decimal_in (s @ []) = Some (int (scaled s []))"
    using plain by (intro pg_decimal_in_split) auto
  moreover have "scaled s [] < 10 ^ 19" using plain by (intro scaled_bound) auto
  ultimately show ?thesis
    using neg by (intro that [of "int (scaled s [])"])
      (auto simp: toScaledInt_def reconcile_toScaledInt_def pg_numeric_in_def numeric_19_4_fits_def)
next
  case (frac w f)
  note neg = digits_no_minus [OF frac(2,3), of "CHR ''.'' # f"]
  have "scaled_magnitude s = Some (int (scaled w f))"
    unfolding frac(1) using frac by (intro scaled_magnitude_split split_whole_frac_dot) auto
  moreover have "pg_decimal_in s = Some (int (scaled w f))"
    unfolding frac(1) using frac by (intro pg_decimal_in_split) auto
  moreover have "scaled w f < 10 ^ 19" using frac by (intro scaled_bound) auto
  ultimately show ?thesis
    using neg frac(1) by (intro that [of "int (scaled w f)"])
      (auto simp: toScaledInt_def reconcile_toScaledInt_def pg_numeric_in_def numeric_19_4_fits_def)
qed

lemma pg_decimal_in_render:
  "pg_decimal_in (fromScaledInt v) = Some v"
proof -
  define n where "n = nat \<bar>v\<bar>"
  define w where "w = show_nat (n div 10 ^ SCALE)"
  define f where "f = js_padStart SCALE CHR ''0'' (show_nat (n mod 10 ^ SCALE))"
  have "(n mod 10 ^ SCALE) < 10 ^ SCALE" by simp
  from frac_digits [OF this] have f: "list_all is_digit f" "length f = SCALE"
    "decimal_value f = n mod 10 ^ SCALE"
    by (simp_all add: f_def)
  have w: "list_all is_digit w" "decimal_value w = n div 10 ^ SCALE" "w \<noteq> []"
    by (simp_all add: w_def show_nat_digits show_nat_nonempty)
  have "pg_decimal_in (w @ CHR ''.'' # f) = Some (int (scaled w f))"
    using f w by (intro pg_decimal_in_split) auto
  also have "scaled w f = n"
    using div_mult_mod_eq [of n "10 ^ SCALE"] by (simp only: scaled_def f w) simp
  finally have pos: "pg_decimal_in (w @ CHR ''.'' # f) = Some (int n)" .
  have nomin: "\<not> prefix ''-'' (w @ CHR ''.'' # f)" by (rule digits_no_minus [OF w(1,3)])
  have render: "fromScaledInt v = (if v < 0 then ''-'' else []) @ w @ CHR ''.'' # f"
    by (simp add: fromScaledInt_def Let_def w_def f_def n_def)
  show ?thesis
  proof (cases "v < 0")
    case True
    have "pg_decimal_in (''-'' @ w @ CHR ''.'' # f) = Some (- int n)"
      using pos nomin by (auto simp: pg_decimal_in_def Let_def split: if_splits)
    with True render show ?thesis by (simp add: n_def)
  next
    case False
    with pos render show ?thesis by (simp add: n_def)
  qed
qed

lemma pg_numeric_in_render:
  "pg_numeric_in (fromScaledInt v) = (if numeric_19_4_fits v then Inr v else Inl numeric_overflow)"
  by (simp add: pg_numeric_in_def pg_decimal_in_render)

lemma positive_amount:
  assumes "MONEY_RE s" and "Number_positive s"
  obtains v where "toScaledInt s = Some v" "pg_numeric_in s = Inr v" "0 < v" "numeric_19_4_fits v"
  using assms by (auto simp: Number_positive_def elim!: MONEY_RE_scaled)

lemma numeric_fits_less: "0 \<le> v \<Longrightarrow> v \<le> w \<Longrightarrow> numeric_19_4_fits w \<Longrightarrow> numeric_19_4_fits v"
  by (simp add: numeric_19_4_fits_def)

lemma toScaledInt_pg_numeric_text [simp]: "toScaledInt (pg_numeric_text v) = Some v"
  by (simp add: pg_numeric_text_eq)

lemma claim_toScaledInt_pg_numeric_text [simp]:
  "0 \<le> v \<Longrightarrow> claim_toScaledInt (pg_numeric_text v) = Some v"
  by (simp add: pg_numeric_text_eq claim_toScaledInt_eq)

end
