(* ===== verification/Lifecycle.thy ===== *)
theory Lifecycle
  imports Tenancy
begin

text \<open>
  Interfaces several components share: a row life cycle with a table of allowed moves, a table that
  is only appended to, and two forms of keyset pagination (\<open>WHERE key < cursor ORDER BY key DESC LIMIT n\<close>): the next cursor is
  the last key of a full page, or it is given when a row more than the page was found.
\<close>

section \<open>Life cycles\<close>

locale lifecycle =
  fixes can :: "'st \<Rightarrow> 'st \<Rightarrow> bool"
    and terminal :: "'st \<Rightarrow> bool"
    and state_of :: "'row \<Rightarrow> 'st"
    and writes :: "'row \<Rightarrow> 'row \<Rightarrow> bool"
  assumes terminal_no_move: "terminal s \<Longrightarrow> \<not> can s s'"
    and writes_move: "writes r r' \<Longrightarrow> state_of r' = state_of r \<or> can (state_of r) (state_of r')"
begin

lemma history_moves: "writes\<^sup>*\<^sup>* r r' \<Longrightarrow> can\<^sup>*\<^sup>* (state_of r) (state_of r')"
proof (induction rule: rtranclp_induct)
  case base
  show ?case by simp
next
  case (step y z)
  from writes_move [OF step.hyps(2)] step.IH show ?case
    by (auto intro: rtranclp.rtrancl_into_rtrancl)
qed

lemma terminal_stays: "writes\<^sup>*\<^sup>* r r' \<Longrightarrow> terminal (state_of r) \<Longrightarrow> state_of r' = state_of r"
proof (induction rule: rtranclp_induct)
  case base
  show ?case by simp
next
  case (step y z)
  with writes_move [OF step.hyps(2)] terminal_no_move show ?case by auto
qed

end

section \<open>Append-only tables\<close>

text \<open>
  A table of a machine whose steps only append rows, owned by the tenant the step runs for. Then a
  run keeps every row, in place, and the rows of a tenant are those of its own steps.
\<close>

locale append_table =
  fixes step :: "'op \<Rightarrow> 's \<Rightarrow> 's"
    and tenant_of :: "'op \<Rightarrow> uuid option"
    and op_ok :: "'op \<Rightarrow> bool"
    and inv :: "'s \<Rightarrow> bool"
    and rows :: "'s \<Rightarrow> 'r list"
    and owner :: "'r \<Rightarrow> uuid option"
  assumes step_inv: "\<lbrakk>inv s; op_ok op\<rbrakk> \<Longrightarrow> inv (step op s)"
    and step_appends: "\<lbrakk>inv s; op_ok op\<rbrakk> \<Longrightarrow>
      \<exists>rs. rows (step op s) = rows s @ rs \<and> (\<forall>r \<in> set rs. tenant_of op = owner r)"
begin

lemma run_inv: "inv s \<Longrightarrow> list_all op_ok ops \<Longrightarrow> inv (fold step ops s)"
  by (induction ops arbitrary: s) (auto intro: step_inv)

lemma run_appends: "inv s \<Longrightarrow> list_all op_ok ops \<Longrightarrow>
    \<exists>rs. rows (fold step ops s) = rows s @ rs \<and> (\<forall>r \<in> set rs. owner r \<in> tenant_of ` set ops)"
proof (induction ops arbitrary: s)
  case (Cons op ops)
  then obtain rs where rs: "rows (step op s) = rows s @ rs" "\<forall>r \<in> set rs. tenant_of op = owner r"
    using step_appends [of s op] by auto
  from Cons.IH [of "step op s"] Cons.prems step_inv [of s op] obtain rs' where
    "rows (fold step ops (step op s)) = rows (step op s) @ rs'" "\<forall>r \<in> set rs'. owner r \<in> tenant_of ` set ops"
    by auto
  with rs show ?case by (intro exI [of _ "rs @ rs'"]) auto
qed simp

lemma run_keeps: "inv s \<Longrightarrow> list_all op_ok ops \<Longrightarrow> prefix (rows s) (rows (fold step ops s))"
  using run_appends [of s ops] by (auto simp: prefix_def)

lemma run_isolated:
  assumes "inv s" and "list_all op_ok ops" and "Some t \<notin> tenant_of ` set ops"
    and "\<And>r. p r \<Longrightarrow> owner r = Some t"
  shows "filter p (rows (fold step ops s)) = filter p (rows s)"
proof -
  obtain rs where rs: "rows (fold step ops s) = rows s @ rs" "\<forall>r \<in> set rs. owner r \<in> tenant_of ` set ops"
    using run_appends [OF assms(1,2)] by blast
  then have "filter p rs = []" using assms(3,4) by (fastforce simp: filter_empty_conv)
  with rs(1) show ?thesis by simp
qed

end

section \<open>Keyset pagination\<close>

text \<open>
  The page of a query: rows that satisfy the filter and lie before the cursor, newest first, at
  most \<open>n\<close> of them.
\<close>

definition keyset_before :: "('r \<Rightarrow> 'k::linorder) \<Rightarrow> 'k option \<Rightarrow> 'r \<Rightarrow> bool" where
  "keyset_before key cur r = (case cur of None \<Rightarrow> True | Some k \<Rightarrow> key r < k)"

definition order_desc :: "('r \<Rightarrow> 'k::linorder) \<Rightarrow> 'r list \<Rightarrow> 'r list" where
  "order_desc key rs = rev (sort_key key rs)"

definition keyset_page ::
    "('r \<Rightarrow> 'k::linorder) \<Rightarrow> ('r \<Rightarrow> bool) \<Rightarrow> 'k option \<Rightarrow> nat \<Rightarrow> 'r list \<Rightarrow> 'r list" where
  "keyset_page key p cur n rs = take n (order_desc key (filter (\<lambda>r. p r \<and> keyset_before key cur r) rs))"

definition keyset_next :: "('r \<Rightarrow> 'k) \<Rightarrow> nat \<Rightarrow> 'r list \<Rightarrow> 'k option" where
  "keyset_next key n page = (if length page = n \<and> page \<noteq> [] then Some (key (last page)) else None)"

text \<open>A client that follows \<open>nextCursor\<close> until it is null, at most \<open>fuel\<close> pages.\<close>

fun fetch_all ::
    "nat \<Rightarrow> ('k option \<Rightarrow> 'v list \<times> 'k option) \<Rightarrow> 'k option \<Rightarrow> 'v list option" where
  "fetch_all 0 fetch cur = None"
| "fetch_all (Suc fuel) fetch cur =
     (case fetch cur of
        (page, None) \<Rightarrow> Some page
      | (page, Some k) \<Rightarrow> map_option (\<lambda>rest. page @ rest) (fetch_all fuel fetch (Some k)))"

lemma set_order_desc [simp]: "set (order_desc key rs) = set rs"
  by (simp add: order_desc_def)

lemma length_order_desc [simp]: "length (order_desc key rs) = length rs"
  by (simp add: order_desc_def)

lemma keyset_page_length: "length (keyset_page key p cur n rs) \<le> n"
  by (simp add: keyset_page_def)

lemma keyset_page_member:
  "r \<in> set (keyset_page key p cur n rs) \<Longrightarrow> r \<in> set rs \<and> p r \<and> keyset_before key cur r"
  by (auto simp: keyset_page_def dest: in_set_takeD)

lemma filter_order_desc: "filter p (order_desc key rs) = order_desc key (filter p rs)"
  by (simp add: order_desc_def rev_filter [symmetric] filter_sort)

text \<open>In a list that is strictly descending, the rows before the \<open>n\<close>-th are those after it.\<close>

lemma drop_desc_filter:
  fixes key :: "'r \<Rightarrow> 'k::linorder"
  assumes "sorted_wrt (\<lambda>x y. key y < key x) xs" and "n \<le> length xs" and "0 < n"
  shows "filter (\<lambda>r. key r < key (xs ! (n - 1))) xs = drop n xs"
  using assms
proof (induction xs arbitrary: n)
  case Nil
  then show ?case by simp
next
  case (Cons x xs)
  show ?case
  proof (cases n)
    case 0
    with Cons.prems show ?thesis by simp
  next
    case (Suc m)
    show ?thesis
    proof (cases m)
      case 0
      from Cons.prems(1) have "filter (\<lambda>r. key r < key x) xs = xs"
        by (simp add: filter_id_conv)
      with 0 Suc show ?thesis by simp
    next
      case (Suc j)
      with \<open>n = Suc m\<close> Cons.prems have j: "j < length xs" by simp
      with Cons.prems(1) have "\<not> key x < key (xs ! j)"
        using nth_mem [of j xs] by (auto dest: order.asym)
      with Cons.IH [of m] Cons.prems Suc \<open>n = Suc m\<close> show ?thesis by simp
    qed
  qed
qed

lemma order_desc_strict:
  assumes "distinct (map key rs)"
  shows "sorted_wrt (\<lambda>x y. key y < key x) (order_desc key rs)"
proof -
  have "sorted (map key (sort_key key rs))" by simp
  moreover have "distinct (map key (sort_key key rs))"
    using assms by (metis distinct_map distinct_sort set_sort_key)
  ultimately have "sorted_wrt (<) (map key (sort_key key rs))"
    by (simp add: strict_sorted_iff)
  then show ?thesis by (simp add: order_desc_def sorted_wrt_rev sorted_wrt_map)
qed

text \<open>
  One page and its cursor: the rows the walk still owes after the page are exactly the rows before
  the new cursor.
\<close>

lemma keyset_next_rest:
  assumes "distinct (map key rs)" and "keyset_next key n (keyset_page key p cur n rs) = Some k"
  shows "order_desc key (filter (\<lambda>r. p r \<and> keyset_before key (Some k) r) rs)
    = drop n (order_desc key (filter (\<lambda>r. p r \<and> keyset_before key cur r) rs))"
proof -
  define all where "all = order_desc key (filter (\<lambda>r. p r \<and> keyset_before key cur r) rs)"
  have page: "keyset_page key p cur n rs = take n all" by (simp add: keyset_page_def all_def)
  from assms(2) page have n: "length (take n all) = n" "take n all \<noteq> []" "k = key (last (take n all))"
    by (auto simp: keyset_next_def split: if_splits)
  then have n': "n \<le> length all" "0 < n" by auto
  with n have k: "k = key (all ! (n - 1))"
    by (simp add: last_conv_nth)
  have "all ! (n - 1) \<in> set all" using n' by simp
  then have kcur: "keyset_before key cur (all ! (n - 1))" by (simp add: all_def)
  have "distinct (map key (filter (\<lambda>r. p r \<and> keyset_before key cur r) rs))"
    using assms(1) by (rule distinct_map_filter)
  then have "filter (\<lambda>r. key r < key (all ! (n - 1))) all = drop n all"
    using n' unfolding all_def by (intro drop_desc_filter order_desc_strict) simp_all
  moreover have "filter (\<lambda>r. key r < k) all
      = order_desc key (filter (\<lambda>r. p r \<and> keyset_before key (Some k) r) rs)"
  proof -
    have "(p r \<and> keyset_before key cur r) \<and> key r < k \<longleftrightarrow> p r \<and> keyset_before key (Some k) r" for r
      using kcur k by (auto simp: keyset_before_def split: option.splits)
    then show ?thesis by (simp add: all_def filter_order_desc conj_commute conj_left_commute)
  qed
  ultimately show ?thesis by (simp add: k all_def)
qed

text \<open>
  The interface of a paged endpoint: for every query it serves the keyset page of the visible rows,
  rendered, with the next cursor. A client that follows the cursors then receives every visible row
  exactly once, newest first.
\<close>

locale paged_query =
  fixes fetch :: "'q \<Rightarrow> 's \<Rightarrow> nat \<Rightarrow> 'k::linorder option \<Rightarrow> 'v list \<times> 'k option"
    and rows :: "'s \<Rightarrow> 'r list"
    and key :: "'r \<Rightarrow> 'k"
    and visible :: "'q \<Rightarrow> 'r \<Rightarrow> bool"
    and render :: "'r \<Rightarrow> 'v"
    and inv :: "'s \<Rightarrow> bool"
    and size_ok :: "nat \<Rightarrow> bool"
  assumes fetch_page: "\<lbrakk>inv s; size_ok n\<rbrakk> \<Longrightarrow> fetch q s n cur =
      (map render (keyset_page key (visible q) cur n (rows s)),
       keyset_next key n (keyset_page key (visible q) cur n (rows s)))"
    and size_pos: "size_ok n \<Longrightarrow> 0 < n"
    and keys_distinct: "inv s \<Longrightarrow> distinct (map key (rows s))"
begin

lemma fetch_all_complete:
  assumes "inv s" and "size_ok n"
    and "length (filter (\<lambda>r. visible q r \<and> keyset_before key cur r) (rows s)) < fuel"
  shows "fetch_all fuel (fetch q s n) cur
    = Some (map render (order_desc key (filter (\<lambda>r. visible q r \<and> keyset_before key cur r) (rows s))))"
  using assms(3)
proof (induction fuel arbitrary: cur)
  case 0
  then show ?case by simp
next
  case (Suc fuel)
  define all where "all = order_desc key (filter (\<lambda>r. visible q r \<and> keyset_before key cur r) (rows s))"
  have pos: "0 < n" using assms(2) by (rule size_pos)
  have page: "fetch q s n cur = (map render (take n all), keyset_next key n (take n all))"
    using fetch_page [OF assms(1,2)] by (simp add: keyset_page_def all_def)
  show ?case
  proof (cases "keyset_next key n (take n all)")
    case None
    with pos have "length all < n \<or> all = []"
      by (auto simp: keyset_next_def min_def split: if_splits)
    then have "take n all = all" by auto
    with None page show ?thesis by (simp add: all_def)
  next
    case (Some k)
    then have n: "n \<le> length all" by (auto simp: keyset_next_def split: if_splits)
    have rest: "order_desc key (filter (\<lambda>r. visible q r \<and> keyset_before key (Some k) r) (rows s)) = drop n all"
      using keyset_next_rest [OF keys_distinct [OF assms(1)], of n "visible q" cur k] Some
      by (simp add: all_def keyset_page_def)
    have "length (filter (\<lambda>r. visible q r \<and> keyset_before key (Some k) r) (rows s)) = length (drop n all)"
      using arg_cong [OF rest, of length] by simp
    also have "\<dots> < fuel"
      using Suc.prems n pos by (simp add: all_def)
    finally have "fetch_all fuel (fetch q s n) (Some k) = Some (map render (drop n all))"
      using Suc.IH [of "Some k"] rest by simp
    with Some page have "fetch_all (Suc fuel) (fetch q s n) cur = Some (map render (take n all @ drop n all))"
      by (simp flip: map_append)
    then show ?thesis by (simp add: all_def)
  qed
qed

lemma fetch_all_from_start:
  assumes "inv s" and "size_ok n"
  shows "fetch_all (Suc (length (rows s))) (fetch q s n) None
    = Some (map render (order_desc key (filter (visible q) (rows s))))"
proof -
  have "length (filter (visible q) (rows s)) < Suc (length (rows s))" by (simp add: le_imp_less_Suc)
  then show ?thesis
    using fetch_all_complete [OF assms, of q None "Suc (length (rows s))"]
    by (simp add: keyset_before_def)
qed

end

section \<open>Keyset pagination with a peeked row\<close>

text \<open>
  The other form of a paged endpoint: it fetches one row more than the page, and gives a next
  cursor (a text made of the last row of the page) exactly when it found it.
\<close>

definition peek_next :: "('r \<Rightarrow> 'c) \<Rightarrow> nat \<Rightarrow> 'r list \<Rightarrow> 'c option" where
  "peek_next enc n peeked = (if n < length peeked then Some (enc (last (take n peeked))) else None)"

locale peek_query =
  fixes fetch :: "'q \<Rightarrow> 's \<Rightarrow> nat \<Rightarrow> 'c option \<Rightarrow> 'v list \<times> 'c option"
    and rows :: "'s \<Rightarrow> 'r list"
    and key :: "'r \<Rightarrow> 'k::linorder"
    and visible :: "'q \<Rightarrow> 'r \<Rightarrow> bool"
    and render :: "'r \<Rightarrow> 'v"
    and enc :: "'r \<Rightarrow> 'c"
    and inv :: "'s \<Rightarrow> bool"
    and query_ok :: "'q \<Rightarrow> bool"
    and size_ok :: "nat \<Rightarrow> bool"
  assumes fetch_first: "\<lbrakk>inv s; query_ok q; size_ok n\<rbrakk> \<Longrightarrow> fetch q s n None =
      (map render (take n (keyset_page key (visible q) None (Suc n) (rows s))),
       peek_next enc n (keyset_page key (visible q) None (Suc n) (rows s)))"
    and fetch_after: "\<lbrakk>inv s; query_ok q; size_ok n; r \<in> set (rows s)\<rbrakk> \<Longrightarrow> fetch q s n (Some (enc r)) =
      (map render (take n (keyset_page key (visible q) (Some (key r)) (Suc n) (rows s))),
       peek_next enc n (keyset_page key (visible q) (Some (key r)) (Suc n) (rows s)))"
    and size_pos: "size_ok n \<Longrightarrow> 0 < n"
    and keys_distinct: "inv s \<Longrightarrow> distinct (map key (rows s))"
begin

lemma fetch_page:
  assumes "inv s" and "query_ok q" and "size_ok n" and "\<forall>r. cur = Some r \<longrightarrow> r \<in> set (rows s)"
  shows "fetch q s n (map_option enc cur) =
    (map render (take n (keyset_page key (visible q) (map_option key cur) (Suc n) (rows s))),
     peek_next enc n (keyset_page key (visible q) (map_option key cur) (Suc n) (rows s)))"
  using assms by (cases cur) (simp_all add: fetch_first fetch_after)

lemma fetch_all_complete:
  assumes "inv s" and "query_ok q" and "size_ok n" and "\<forall>r. cur = Some r \<longrightarrow> r \<in> set (rows s)"
    and "length (filter (\<lambda>r. visible q r \<and> keyset_before key (map_option key cur) r) (rows s)) < fuel"
  shows "fetch_all fuel (fetch q s n) (map_option enc cur) = Some (map render (order_desc key
    (filter (\<lambda>r. visible q r \<and> keyset_before key (map_option key cur) r) (rows s))))"
  using assms(4,5)
proof (induction fuel arbitrary: cur)
  case 0
  then show ?case by simp
next
  case (Suc fuel)
  define all where "all = order_desc key
    (filter (\<lambda>r. visible q r \<and> keyset_before key (map_option key cur) r) (rows s))"
  have pos: "0 < n" using assms(3) by (rule size_pos)
  have page: "fetch q s n (map_option enc cur) = (map render (take n all), peek_next enc n (take (Suc n) all))"
    using fetch_page [OF assms(1-3) Suc.prems(1)] by (simp add: keyset_page_def all_def min_def)
  show ?case
  proof (cases "n < length all")
    case False
    then have "take n all = all" "peek_next enc n (take (Suc n) all) = None" by (simp_all add: peek_next_def)
    with page show ?thesis by (simp add: all_def)
  next
    case True
    define r where "r = last (take n all)"
    have len: "length (take n all) = n" "take n all \<noteq> []" using True pos by auto
    have more: "peek_next enc n (take (Suc n) all) = Some (enc r)"
      using True by (simp add: peek_next_def r_def min_def)
    have "keyset_next key n (keyset_page key (visible q) (map_option key cur) n (rows s)) = Some (key r)"
      using len by (simp add: keyset_next_def keyset_page_def all_def [symmetric] r_def)
    from keyset_next_rest [OF keys_distinct [OF assms(1)] this]
    have rest: "order_desc key (filter (\<lambda>r'. visible q r' \<and> keyset_before key (Some (key r)) r') (rows s)) = drop n all"
      by (simp add: all_def)
    have "r \<in> set (take n all)" unfolding r_def using len(2) by (rule last_in_set)
    then have "r \<in> set all" by (rule in_set_takeD)
    then have mem: "r \<in> set (rows s)" by (simp add: all_def)
    have "length (filter (\<lambda>r'. visible q r' \<and> keyset_before key (Some (key r)) r') (rows s)) = length (drop n all)"
      using arg_cong [OF rest, of length] by simp
    also have "\<dots> < fuel" using Suc.prems(2) True pos by (simp add: all_def)
    finally have "fetch_all fuel (fetch q s n) (Some (enc r)) = Some (map render (drop n all))"
      using Suc.IH [of "Some r"] mem rest by simp
    with page more have "fetch_all (Suc fuel) (fetch q s n) (map_option enc cur)
        = Some (map render (take n all @ drop n all))"
      by (simp flip: map_append)
    then show ?thesis by (simp add: all_def)
  qed
qed

lemma fetch_all_from_start:
  assumes "inv s" and "query_ok q" and "size_ok n"
  shows "fetch_all (Suc (length (rows s))) (fetch q s n) None
    = Some (map render (order_desc key (filter (visible q) (rows s))))"
proof -
  have "length (filter (visible q) (rows s)) < Suc (length (rows s))" by (simp add: le_imp_less_Suc)
  then show ?thesis
    using fetch_all_complete [OF assms, of None "Suc (length (rows s))"]
    by (simp add: keyset_before_def)
qed

end

end
