(* ===== verification/Settlement.thy ===== *)
theory Settlement
  imports Money Lifecycle
begin

text \<open>
  Sale settlement and receivables (apps/api/src/settlement, tables of migration 0027 and
  packages/db/src/schema/settlement): the receivable life cycle, the pure cash-application and
  reconciliation decisions, and the two services that drive them, each operation one tenant-scoped
  transaction over the settlement tables.
\<close>

section \<open>The receivable life cycle\<close>

datatype receivable_state = Open | Partially_applied | Settled | Claimed | Flagged

definition RECEIVABLE_STATES :: "receivable_state list" where
  "RECEIVABLE_STATES = [Open, Partially_applied, Settled, Claimed, Flagged]"

definition INITIAL_RECEIVABLE_STATE :: receivable_state where
  "INITIAL_RECEIVABLE_STATE = Open"

fun VALID_TRANSITIONS :: "receivable_state \<Rightarrow> receivable_state list" where
  "VALID_TRANSITIONS Open = [Partially_applied, Settled, Claimed]"
| "VALID_TRANSITIONS Partially_applied = [Settled, Claimed, Flagged]"
| "VALID_TRANSITIONS Claimed = [Settled, Partially_applied, Flagged]"
| "VALID_TRANSITIONS Settled = []"
| "VALID_TRANSITIONS Flagged = []"

definition canTransition :: "receivable_state \<Rightarrow> receivable_state \<Rightarrow> bool" where
  "canTransition from to \<longleftrightarrow> to \<in> set (VALID_TRANSITIONS from)"

definition isTerminalState :: "receivable_state \<Rightarrow> bool" where
  "isTerminalState s \<longleftrightarrow> length (VALID_TRANSITIONS s) = 0"

section \<open>The pure decisions\<close>

datatype apply_decision = Apply_ok string receivable_state | Over_application

text \<open>\<^const>\<open>None\<close> is the SyntaxError that \<open>BigInt\<close> throws on a malformed amount.\<close>

definition decideApplication :: "string \<Rightarrow> string \<Rightarrow> apply_decision option" where
  "decideApplication outstandingBalance amount =
     (case (toScaledInt outstandingBalance, toScaledInt amount) of
        (Some balance, Some amt) \<Rightarrow>
          Some (if amt > balance then Over_application
                else let newBalance = balance - amt;
                         newState = (if newBalance = 0 then Settled else Partially_applied)
                     in Apply_ok (fromScaledInt newBalance) newState)
      | _ \<Rightarrow> None)"

datatype reconcile_outcome = Outcome_settled | Outcome_partial | Outcome_flagged

definition decideReconciliation :: "string \<Rightarrow> string \<Rightarrow> (reconcile_outcome \<times> string) option" where
  "decideReconciliation claimedAmount remittedAmount =
     (case (reconcile_toScaledInt claimedAmount, reconcile_toScaledInt remittedAmount) of
        (Some claimed, Some remitted) \<Rightarrow>
          (let variance = claimed - remitted;
               outcome = (if variance = 0 then Outcome_settled
                          else if variance > 0 then Outcome_partial
                          else Outcome_flagged)
           in Some (outcome, fromScaledInt variance))
      | _ \<Rightarrow> None)"

text \<open>\<open>sumScaled\<close>: the loop over the line balances.\<close>

fun sumScaled_from :: "int \<Rightarrow> string list \<Rightarrow> int option" where
  "sumScaled_from acc [] = Some acc"
| "sumScaled_from acc (a # as) =
     (case claim_toScaledInt a of None \<Rightarrow> None | Some v \<Rightarrow> sumScaled_from (acc + v) as)"

definition sumScaled :: "string list \<Rightarrow> string option" where
  "sumScaled amounts = map_option fromScaledInt (sumScaled_from 0 amounts)"

section \<open>Tables\<close>

record receivable =
  rcvId :: uuid
  rcvTenant :: uuid
  rcvStore :: uuid
  rcvSale :: uuid
  rcvPayer :: uuid
  rcvBalance :: money
  rcvState :: receivable_state
  rcvErpRef :: "string option"
  rcvTax :: "string option"
  rcvVersion :: nat

record payer_account =
  payId :: uuid
  payTenant :: uuid
  payStore :: "uuid option"

record payment_application =
  appId :: uuid
  appTenant :: uuid
  appStore :: uuid
  appReceivable :: uuid
  appAmount :: money
  appNote :: "string option"

datatype claim_status = Submitted | Acknowledged | Reconciled

record claim_rec =
  clmId :: uuid
  clmTenant :: uuid
  clmStore :: uuid
  clmPayer :: uuid
  clmStatus :: claim_status
  clmVersion :: nat

record claim_receivable =
  lineId :: uuid
  lineTenant :: uuid
  lineStore :: uuid
  lineClaim :: uuid
  lineReceivable :: uuid

record remittance =
  remId :: uuid
  remTenant :: uuid
  remStore :: uuid
  remClaim :: uuid
  remAmount :: money
  remRef :: "string option"

record reconciliation_result =
  resId :: uuid
  resTenant :: uuid
  resStore :: uuid
  resClaim :: uuid
  resClaimed :: money
  resRemitted :: money
  resVariance :: money
  resOutcome :: reconcile_outcome

text \<open>The tables the services touch; a store is (id, tenant), a sale is (id, tenant, store).\<close>

record settle_db =
  receivables :: "receivable list"
  payers :: "payer_account list"
  stores :: "(uuid \<times> uuid) list"
  sales :: "(uuid \<times> uuid \<times> uuid) list"
  applications :: "payment_application list"
  claims :: "claim_rec list"
  claimLines :: "claim_receivable list"
  remittances :: "remittance list"
  results :: "reconciliation_result list"

section \<open>Statements\<close>

text \<open>
  Each INSERT checks the policy, the CHECK constraints, the primary key and the foreign keys of
  the migration, in that order, and appends the row.
\<close>

definition insert_receivable :: "tenant_context \<Rightarrow> receivable \<Rightarrow> settle_db \<Rightarrow> exn + settle_db" where
  "insert_receivable c r s =
     (case sql_check (rls_tenant c (rcvTenant r)) (Pg_error ''42501'')
          (sql_check (0 \<le> rcvBalance r) check_violation
          (sql_check (rcvId r \<notin> rcvId ` set (receivables s)) unique_violation
          (sql_check (rcvPayer r \<in> payId ` set (payers s)) fk_violation
          (sql_check (rcvStore r \<in> fst ` set (stores s)) fk_violation
          (sql_check ((rcvSale r, rcvTenant r, rcvStore r) \<in> set (sales s)) fk_violation None))))) of
        Some e \<Rightarrow> Inl e
      | None \<Rightarrow> Inr (s\<lparr>receivables := receivables s @ [r]\<rparr>))"

definition insert_application :: "tenant_context \<Rightarrow> payment_application \<Rightarrow> settle_db \<Rightarrow> exn + settle_db" where
  "insert_application c a s =
     (case sql_check (rls_tenant c (appTenant a)) (Pg_error ''42501'')
          (sql_check (0 < appAmount a) check_violation
          (sql_check (appId a \<notin> appId ` set (applications s)) unique_violation
          (sql_check ((appReceivable a, appTenant a, appStore a)
                       \<in> (\<lambda>r. (rcvId r, rcvTenant r, rcvStore r)) ` set (receivables s))
             fk_violation None))) of
        Some e \<Rightarrow> Inl e
      | None \<Rightarrow> Inr (s\<lparr>applications := applications s @ [a]\<rparr>))"

definition insert_claim :: "tenant_context \<Rightarrow> claim_rec \<Rightarrow> settle_db \<Rightarrow> exn + settle_db" where
  "insert_claim c k s =
     (case sql_check (rls_tenant c (clmTenant k)) (Pg_error ''42501'')
          (sql_check (clmId k \<notin> clmId ` set (claims s)) unique_violation
          (sql_check (clmPayer k \<in> payId ` set (payers s)) fk_violation
          (sql_check (clmStore k \<in> fst ` set (stores s)) fk_violation None))) of
        Some e \<Rightarrow> Inl e
      | None \<Rightarrow> Inr (s\<lparr>claims := claims s @ [k]\<rparr>))"

definition insert_claim_line :: "tenant_context \<Rightarrow> claim_receivable \<Rightarrow> settle_db \<Rightarrow> exn + settle_db" where
  "insert_claim_line c l s =
     (case sql_check (rls_tenant c (lineTenant l)) (Pg_error ''42501'')
          (sql_check (lineId l \<notin> lineId ` set (claimLines s)) unique_violation
          (sql_check ((lineClaim l, lineReceivable l)
                       \<notin> (\<lambda>x. (lineClaim x, lineReceivable x)) ` set (claimLines s)) unique_violation
          (sql_check ((lineClaim l, lineTenant l, lineStore l)
                       \<in> (\<lambda>k. (clmId k, clmTenant k, clmStore k)) ` set (claims s)) fk_violation
          (sql_check ((lineReceivable l, lineTenant l, lineStore l)
                       \<in> (\<lambda>r. (rcvId r, rcvTenant r, rcvStore r)) ` set (receivables s))
             fk_violation None)))) of
        Some e \<Rightarrow> Inl e
      | None \<Rightarrow> Inr (s\<lparr>claimLines := claimLines s @ [l]\<rparr>))"

definition insert_remittance :: "tenant_context \<Rightarrow> remittance \<Rightarrow> settle_db \<Rightarrow> exn + settle_db" where
  "insert_remittance c m s =
     (case sql_check (rls_tenant c (remTenant m)) (Pg_error ''42501'')
          (sql_check (0 \<le> remAmount m) check_violation
          (sql_check (remId m \<notin> remId ` set (remittances s)) unique_violation
          (sql_check ((remClaim m, remTenant m, remStore m)
                       \<in> (\<lambda>k. (clmId k, clmTenant k, clmStore k)) ` set (claims s)) fk_violation None))) of
        Some e \<Rightarrow> Inl e
      | None \<Rightarrow> Inr (s\<lparr>remittances := remittances s @ [m]\<rparr>))"

definition insert_result :: "tenant_context \<Rightarrow> reconciliation_result \<Rightarrow> settle_db \<Rightarrow> exn + settle_db" where
  "insert_result c x s =
     (case sql_check (rls_tenant c (resTenant x)) (Pg_error ''42501'')
          (sql_check (resId x \<notin> resId ` set (results s)) unique_violation
          (sql_check ((resClaim x, resTenant x, resStore x)
                       \<in> (\<lambda>k. (clmId k, clmTenant k, clmStore k)) ` set (claims s)) fk_violation None)) of
        Some e \<Rightarrow> Inl e
      | None \<Rightarrow> Inr (s\<lparr>results := results s @ [x]\<rparr>))"

text \<open>\<open>UPDATE receivable SET ... WHERE p\<close> under the update policy.\<close>

definition update_receivables ::
    "tenant_context \<Rightarrow> (receivable \<Rightarrow> bool) \<Rightarrow> (receivable \<Rightarrow> receivable) \<Rightarrow> settle_db \<Rightarrow> settle_db" where
  "update_receivables c p f s =
     s\<lparr>receivables := update_where (\<lambda>r. rls_tenant c (rcvTenant r) \<and> p r) f (receivables s)\<rparr>"

definition find_receivable :: "tenant_context \<Rightarrow> uuid \<Rightarrow> settle_db \<Rightarrow> receivable option" where
  "find_receivable c i s = find (\<lambda>r. rls_tenant c (rcvTenant r) \<and> rcvId r = i) (receivables s)"

section \<open>Row projections\<close>

fun state_text :: "receivable_state \<Rightarrow> string" where
  "state_text Open = ''open''"
| "state_text Partially_applied = ''partially_applied''"
| "state_text Settled = ''settled''"
| "state_text Claimed = ''claimed''"
| "state_text Flagged = ''flagged''"

definition isReceivableState :: "string \<Rightarrow> bool" where
  "isReceivableState v \<longleftrightarrow> v \<in> set (map state_text RECEIVABLE_STATES)"

record receivable_row =
  rowId :: uuid
  rowSale :: uuid
  rowPayer :: uuid
  rowBalance :: string
  rowState :: receivable_state
  rowErpRef :: "string option"
  rowTax :: "string option"
  rowVersion :: nat

definition toRow :: "receivable \<Rightarrow> receivable_row" where
  "toRow r = \<lparr>rowId = rcvId r, rowSale = rcvSale r, rowPayer = rcvPayer r,
     rowBalance = pg_numeric_text (rcvBalance r), rowState = rcvState r,
     rowErpRef = rcvErpRef r, rowTax = rcvTax r, rowVersion = rcvVersion r\<rparr>"

record receivable_body =
  receivableRef :: uuid
  saleRef :: uuid
  payerRef :: uuid
  outstandingBalance :: string
  bodyState :: receivable_state
  erpnextPaymentEntryRef :: "string option"
  taxPlaceholder :: "string option"
  bodyVersion :: nat

definition toReceivable :: "receivable_row \<Rightarrow> receivable_body" where
  "toReceivable row = \<lparr>receivableRef = rowId row, saleRef = rowSale row, payerRef = rowPayer row,
     outstandingBalance = rowBalance row, bodyState = rowState row,
     erpnextPaymentEntryRef = rowErpRef row, taxPlaceholder = rowTax row, bodyVersion = rowVersion row\<rparr>"

section \<open>Opening receivables from a settlement intent\<close>

text \<open>
  \<open>newId()\<close> is a source of identifiers: the \<open>k\<close>-th call of an operation draws \<open>ids k\<close>.
\<close>

record intent_payer =
  inPayerRef :: uuid
  inOwedAmount :: string
  inClaimMetadata :: "string option"

record open_intent =
  oiStore :: uuid
  oiSale :: uuid
  oiPayers :: "intent_payer list"

datatype open_result = Opened "receivable_row list" | Open_conflict

definition payerInScope :: "tenant_context \<Rightarrow> uuid \<Rightarrow> uuid option \<Rightarrow> settle_db \<Rightarrow> bool" where
  "payerInScope c ref storeId s =
     (\<exists>p \<in> set (payers s). rls_tenant c (payTenant p) \<and> payId p = ref \<and>
        (storeId = None \<or> payStore p = None \<or> payStore p = storeId))"

definition new_receivable :: "uuid \<Rightarrow> open_intent \<Rightarrow> uuid \<Rightarrow> intent_payer \<Rightarrow> money \<Rightarrow> receivable" where
  "new_receivable t inp i p owed =
     \<lparr>rcvId = i, rcvTenant = t, rcvStore = oiStore inp, rcvSale = oiSale inp,
      rcvPayer = inPayerRef p, rcvBalance = owed, rcvState = INITIAL_RECEIVABLE_STATE,
      rcvErpRef = None, rcvTax = None, rcvVersion = 0\<rparr>"

fun insert_intent_rows ::
    "tenant_context \<Rightarrow> uuid \<Rightarrow> open_intent \<Rightarrow> id_source \<Rightarrow> nat \<Rightarrow> intent_payer list \<Rightarrow> settle_db
     \<Rightarrow> exn + (receivable_row list \<times> settle_db)" where
  "insert_intent_rows c t inp ids k [] s = Inr ([], s)"
| "insert_intent_rows c t inp ids k (p # ps) s =
     (case pg_numeric_in (inOwedAmount p) of
        Inl e \<Rightarrow> Inl e
      | Inr owed \<Rightarrow>
          (let r = new_receivable t inp (ids k) p owed
           in case insert_receivable c r s of
                Inl e \<Rightarrow> Inl e
              | Inr s' \<Rightarrow>
                  (case insert_intent_rows c t inp ids (Suc k) ps s' of
                     Inl e \<Rightarrow> Inl e
                   | Inr (rows, s'') \<Rightarrow> Inr (toRow r # rows, s''))))"

definition openFromIntent_work ::
    "uuid \<Rightarrow> id_source \<Rightarrow> open_intent \<Rightarrow> tenant_context \<Rightarrow> settle_db \<Rightarrow> (open_result, settle_db) work_end" where
  "openFromIntent_work t ids inp c s =
     (if \<not> list_all (\<lambda>p. payerInScope c (inPayerRef p) (Some (oiStore inp)) s) (oiPayers inp)
      then Returns Open_conflict s
      else case insert_intent_rows c t inp ids 0 (oiPayers inp) s of
             Inr (rows, s') \<Rightarrow> Returns (Opened rows) s'
           | Inl e \<Rightarrow> if e = fk_violation then Returns_aborted Open_conflict else Throws e)"

text \<open>
  A service is its database and the counter \<open>recordSettlementReceivable\<close> bumps after a commit.
\<close>

record settle_svc =
  svcDb :: settle_db
  svcSignals :: nat

definition with_signal ::
    "('a \<Rightarrow> bool) \<Rightarrow> (settle_db \<Rightarrow> (exn + 'a) \<times> settle_db) \<Rightarrow> settle_svc \<Rightarrow> (exn + 'a) \<times> settle_svc" where
  "with_signal ok run s =
     (case run (svcDb s) of
        (Inr a, d) \<Rightarrow> (Inr a, s\<lparr>svcDb := d, svcSignals := svcSignals s + (if ok a then 1 else 0)\<rparr>)
      | (Inl e, d) \<Rightarrow> (Inl e, s\<lparr>svcDb := d\<rparr>))"

definition openFromIntent ::
    "uuid \<Rightarrow> id_source \<Rightarrow> open_intent \<Rightarrow> settle_svc \<Rightarrow> (exn + open_result) \<times> settle_svc" where
  "openFromIntent t ids inp =
     with_signal (\<lambda>r. r \<noteq> Open_conflict)
       (runWithTenantContext (tenant_ctx t) (openFromIntent_work t ids inp))"

section \<open>Applying a payment\<close>

record apply_payment_input =
  apRef :: uuid
  apAmount :: string
  apVersion :: nat
  apNote :: "string option"

datatype apply_result = Applied receivable_row | Apply_not_found | Apply_conflict

definition application_row ::
    "uuid \<Rightarrow> id_source \<Rightarrow> apply_payment_input \<Rightarrow> receivable \<Rightarrow> money \<Rightarrow> payment_application" where
  "application_row t ids inp r a =
     \<lparr>appId = ids 0, appTenant = t, appStore = rcvStore r, appReceivable = apRef inp,
      appAmount = a, appNote = apNote inp\<rparr>"

definition paid_row :: "money \<Rightarrow> receivable_state \<Rightarrow> receivable \<Rightarrow> receivable" where
  "paid_row bal st r = r\<lparr>rcvBalance := bal, rcvState := st, rcvVersion := rcvVersion r + 1\<rparr>"

text \<open>The two writes: the ledger row, then the guarded update of the receivable.\<close>

definition applyPayment_write ::
    "uuid \<Rightarrow> id_source \<Rightarrow> apply_payment_input \<Rightarrow> receivable \<Rightarrow> string \<Rightarrow> receivable_state
     \<Rightarrow> tenant_context \<Rightarrow> settle_db \<Rightarrow> (apply_result, settle_db) work_end" where
  "applyPayment_write t ids inp row newBalance newState c s =
     (case pg_numeric_in (apAmount inp) of
        Inl e \<Rightarrow> Throws e
      | Inr amount \<Rightarrow>
          (case insert_application c (application_row t ids inp row amount) s of
             Inl e \<Rightarrow> Throws e
           | Inr s' \<Rightarrow>
               (case pg_numeric_in newBalance of
                  Inl e \<Rightarrow> Throws e
                | Inr bal \<Rightarrow>
                    if bal < 0 then Throws check_violation
                    else
                      (case find (\<lambda>r. (rls_tenant c (rcvTenant r) \<and> rcvId r = apRef inp)
                                      \<and> rcvVersion r = apVersion inp) (receivables s') of
                         None \<Rightarrow> Returns Apply_conflict s'
                       | Some r \<Rightarrow>
                           Returns (Applied (toRow (paid_row bal newState r)))
                             (update_receivables c
                                (\<lambda>r. rcvId r = apRef inp \<and> rcvVersion r = apVersion inp)
                                (paid_row bal newState) s')))))"

definition applyPayment_work ::
    "uuid \<Rightarrow> id_source \<Rightarrow> apply_payment_input \<Rightarrow> tenant_context \<Rightarrow> settle_db \<Rightarrow> (apply_result, settle_db) work_end" where
  "applyPayment_work t ids inp c s =
     (case find_receivable c (apRef inp) s of
        None \<Rightarrow> Returns Apply_not_found s
      | Some row \<Rightarrow>
          (if rcvVersion row \<noteq> apVersion inp \<or> rcvState row = Settled \<or> rcvState row = Flagged
           then Returns Apply_conflict s
           else case decideApplication (pg_numeric_text (rcvBalance row)) (apAmount inp) of
                  None \<Rightarrow> Throws (Js_error ''SyntaxError'')
                | Some Over_application \<Rightarrow> Returns Apply_conflict s
                | Some (Apply_ok newBalance newState) \<Rightarrow>
                    applyPayment_write t ids inp row newBalance newState c s))"

definition applyPayment ::
    "uuid \<Rightarrow> id_source \<Rightarrow> apply_payment_input \<Rightarrow> settle_svc \<Rightarrow> (exn + apply_result) \<times> settle_svc" where
  "applyPayment t ids inp =
     with_signal (\<lambda>r. case r of Applied _ \<Rightarrow> True | _ \<Rightarrow> False)
       (runWithTenantContext (tenant_ctx t) (applyPayment_work t ids inp))"

section \<open>Reads\<close>

datatype get_result = Got receivable_row | Get_not_found

definition getOne :: "uuid \<Rightarrow> uuid \<Rightarrow> settle_db \<Rightarrow> get_result" where
  "getOne t ref s =
     (case find_receivable (tenant_ctx t) ref s of
        Some r \<Rightarrow> Got (toRow r)
      | None \<Rightarrow> Get_not_found)"

record list_filter =
  lfTenant :: uuid
  lfStore :: "uuid option"
  lfState :: "receivable_state option"
  lfPayer :: "uuid option"

definition LIST_MAX_PAGE :: int where
  "LIST_MAX_PAGE = 200"

definition list_visible :: "list_filter \<Rightarrow> receivable \<Rightarrow> bool" where
  "list_visible q r \<longleftrightarrow>
     rls_tenant (tenant_ctx (lfTenant q)) (rcvTenant r) \<and>
     (lfStore q = None \<or> Some (rcvStore r) = lfStore q) \<and>
     (lfState q = None \<or> Some (rcvState r) = lfState q) \<and>
     (lfPayer q = None \<or> Some (rcvPayer r) = lfPayer q)"

definition list_receivables ::
    "list_filter \<Rightarrow> settle_db \<Rightarrow> int \<Rightarrow> uuid option \<Rightarrow> receivable_row list \<times> uuid option" where
  "list_receivables q s rawLimit cursor =
     (let limit = nat (min (max 1 rawLimit) LIST_MAX_PAGE);
          rows = keyset_page rcvId (list_visible q) cursor limit (receivables s);
          items = map toRow rows;
          nextCursor = (if length rows = limit \<and> rows \<noteq> [] then Some (rcvId (last rows)) else None)
      in (items, nextCursor))"

definition storeInScope :: "uuid \<Rightarrow> uuid option \<Rightarrow> settle_db \<Rightarrow> bool" where
  "storeInScope t storeId s =
     (case storeId of
        None \<Rightarrow> True
      | Some i \<Rightarrow> \<exists>x \<in> set (stores s). fst x = i \<and> rls_tenant (tenant_ctx t) (snd x))"

definition payerRefInScope :: "uuid \<Rightarrow> uuid option \<Rightarrow> settle_db \<Rightarrow> bool" where
  "payerRefInScope t ref s =
     (case ref of None \<Rightarrow> True | Some p \<Rightarrow> payerInScope (tenant_ctx t) p None s)"

section \<open>Submitting a claim\<close>

record submit_claim_input =
  scPayer :: uuid
  scRefs :: "uuid list"

record claim_body =
  cbClaim :: uuid
  cbPayer :: uuid
  cbStatus :: claim_status
  cbRefs :: "uuid list"

datatype submit_result = Claim_submitted claim_body | Claim_not_found | Claim_conflict

definition CLAIMABLE_STATES :: "receivable_state list" where
  "CLAIMABLE_STATES = [Open, Partially_applied]"

fun insert_claim_lines ::
    "tenant_context \<Rightarrow> uuid \<Rightarrow> uuid \<Rightarrow> uuid \<Rightarrow> id_source \<Rightarrow> nat \<Rightarrow> uuid list \<Rightarrow> settle_db \<Rightarrow> exn + settle_db" where
  "insert_claim_lines c t store claimId ids k [] s = Inr s"
| "insert_claim_lines c t store claimId ids k (ref # refs) s =
     (case insert_claim_line c \<lparr>lineId = ids k, lineTenant = t, lineStore = store,
                                lineClaim = claimId, lineReceivable = ref\<rparr> s of
        Inl e \<Rightarrow> Inl e
      | Inr s' \<Rightarrow> insert_claim_lines c t store claimId ids (Suc k) refs s')"

text \<open>The locked read of the named receivables, and the claim transition of one of them.\<close>

definition named_receivables :: "tenant_context \<Rightarrow> uuid list \<Rightarrow> settle_db \<Rightarrow> receivable list" where
  "named_receivables c refs s =
     filter (\<lambda>r. rls_tenant c (rcvTenant r) \<and> rcvId r \<in> set refs) (receivables s)"

definition claimed_row :: "receivable \<Rightarrow> receivable" where
  "claimed_row r = r\<lparr>rcvState := Claimed, rcvVersion := rcvVersion r + 1\<rparr>"

definition submitClaim_work ::
    "uuid \<Rightarrow> id_source \<Rightarrow> submit_claim_input \<Rightarrow> tenant_context \<Rightarrow> settle_db \<Rightarrow> (submit_result, settle_db) work_end" where
  "submitClaim_work t ids inp c s =
     (if \<not> payerInScope c (scPayer inp) None s then Returns Claim_not_found s
      else
        let refs = js_dedup (scRefs inp);
            found = named_receivables c refs s
        in
        if length found \<noteq> length refs then Returns Claim_conflict s
        else if list_ex (\<lambda>r. rcvState r \<notin> set CLAIMABLE_STATES) found then Returns Claim_conflict s
        else if list_ex (\<lambda>r. rcvPayer r \<noteq> scPayer inp) found then Returns Claim_conflict s
        else
          let storeIds = js_dedup (map rcvStore found) in
          (case storeIds of
             [storeId] \<Rightarrow>
               (case insert_claim c \<lparr>clmId = ids 0, clmTenant = t, clmStore = storeId,
                                     clmPayer = scPayer inp, clmStatus = Submitted, clmVersion = 0\<rparr> s of
                  Inl e \<Rightarrow> Throws e
                | Inr s1 \<Rightarrow>
                    (case insert_claim_lines c t storeId (ids 0) ids 1 refs s1 of
                       Inl e \<Rightarrow> Throws e
                     | Inr s2 \<Rightarrow>
                         Returns (Claim_submitted \<lparr>cbClaim = ids 0, cbPayer = scPayer inp,
                                                    cbStatus = Submitted, cbRefs = refs\<rparr>)
                           (update_receivables c (\<lambda>r. rcvId r \<in> set refs) claimed_row s2)))
           | _ \<Rightarrow> Returns Claim_conflict s))"

definition submitClaim ::
    "uuid \<Rightarrow> id_source \<Rightarrow> submit_claim_input \<Rightarrow> settle_svc \<Rightarrow> (exn + submit_result) \<times> settle_svc" where
  "submitClaim t ids inp =
     with_signal (\<lambda>r. case r of Claim_submitted _ \<Rightarrow> True | _ \<Rightarrow> False)
       (runWithTenantContext (tenant_ctx t) (submitClaim_work t ids inp))"

section \<open>Reconciling a remittance\<close>

record reconcile_input =
  riClaim :: uuid
  riAmount :: string
  riRef :: "string option"

record reconcile_body =
  rbClaim :: uuid
  rbClaimed :: string
  rbRemitted :: string
  rbVariance :: string
  rbOutcome :: reconcile_outcome

datatype reconcile_result = Reconciled_ok reconcile_body | Reconcile_not_found | Reconcile_conflict

text \<open>
  The FIFO loop of a partial remittance: lines by ascending id, each drops by what is left or by
  its balance. The result is the balance updates the loop issues, in order.
\<close>

fun fifo_updates :: "int \<Rightarrow> (uuid \<times> int) list \<Rightarrow> (uuid \<times> int) list" where
  "fifo_updates remaining [] = []"
| "fifo_updates remaining ((i, balance) # ls) =
     (if remaining \<le> 0 then []
      else let applied = (if remaining < balance then remaining else balance) in
        if applied \<le> 0 then fifo_updates remaining ls
        else (i, balance - applied) # fifo_updates (remaining - applied) ls)"

definition set_balance :: "int \<Rightarrow> receivable \<Rightarrow> receivable" where
  "set_balance b r = r\<lparr>rcvBalance := b, rcvVersion := rcvVersion r + 1\<rparr>"

fun apply_balance_updates :: "tenant_context \<Rightarrow> (uuid \<times> int) list \<Rightarrow> settle_db \<Rightarrow> settle_db" where
  "apply_balance_updates c [] s = s"
| "apply_balance_updates c ((i, b) # us) s =
     apply_balance_updates c us (update_receivables c (\<lambda>r. rcvId r = i) (set_balance b) s)"

text \<open>The loop of a settling or flagging remittance: every line is closed at zero.\<close>

fun close_lines :: "tenant_context \<Rightarrow> receivable_state \<Rightarrow> uuid list \<Rightarrow> settle_db \<Rightarrow> settle_db" where
  "close_lines c st [] s = s"
| "close_lines c st (i # is) s =
     close_lines c st is (update_receivables c (\<lambda>r. rcvId r = i) (paid_row 0 st) s)"

text \<open>\<open>toScaledInt(line.outstanding_balance)\<close> of a row the driver returned.\<close>

definition parsed_balance :: "receivable \<Rightarrow> int" where
  "parsed_balance r =
     (case claim_toScaledInt (pg_numeric_text (rcvBalance r)) of Some v \<Rightarrow> v | None \<Rightarrow> 0)"

text \<open>The lines of a claim: the join on \<open>claim_receivables\<close>, ordered by receivable id.\<close>

definition claim_lines_of :: "tenant_context \<Rightarrow> uuid \<Rightarrow> settle_db \<Rightarrow> receivable list" where
  "claim_lines_of c claimRef s =
     sort_key rcvId
       (filter (\<lambda>r. rls_tenant c (rcvTenant r) \<and>
          list_ex (\<lambda>l. rls_tenant c (lineTenant l) \<and> lineClaim l = claimRef \<and> lineReceivable l = rcvId r)
            (claimLines s)) (receivables s))"

text \<open>The balance movement of a remittance, and the last update of the claim.\<close>

definition apply_remittance ::
    "tenant_context \<Rightarrow> reconcile_outcome \<Rightarrow> int \<Rightarrow> receivable list \<Rightarrow> settle_db \<Rightarrow> settle_db" where
  "apply_remittance c outcome remitted lines s =
     (case outcome of
        Outcome_settled \<Rightarrow> close_lines c Settled (map rcvId lines) s
      | Outcome_flagged \<Rightarrow> close_lines c Flagged (map rcvId lines) s
      | Outcome_partial \<Rightarrow>
          apply_balance_updates c
            (fifo_updates remitted (map (\<lambda>r. (rcvId r, parsed_balance r)) lines)) s)"

definition mark_reconciled :: "tenant_context \<Rightarrow> uuid \<Rightarrow> settle_db \<Rightarrow> settle_db" where
  "mark_reconciled c ref s =
     s\<lparr>claims := update_where (\<lambda>k. rls_tenant c (clmTenant k) \<and> clmId k = ref)
        (\<lambda>k. k\<lparr>clmStatus := Reconciled, clmVersion := clmVersion k + 1\<rparr>) (claims s)\<rparr>"

definition find_claim :: "tenant_context \<Rightarrow> uuid \<Rightarrow> settle_db \<Rightarrow> claim_rec option" where
  "find_claim c i s = find (\<lambda>k. rls_tenant c (clmTenant k) \<and> clmId k = i) (claims s)"

definition remittance_row ::
    "uuid \<Rightarrow> id_source \<Rightarrow> reconcile_input \<Rightarrow> claim_rec \<Rightarrow> money \<Rightarrow> remittance" where
  "remittance_row t ids inp k amount =
     \<lparr>remId = ids 0, remTenant = t, remStore = clmStore k, remClaim = riClaim inp,
      remAmount = amount, remRef = riRef inp\<rparr>"

definition result_row ::
    "uuid \<Rightarrow> id_source \<Rightarrow> reconcile_input \<Rightarrow> claim_rec \<Rightarrow> money \<Rightarrow> money \<Rightarrow> money \<Rightarrow> reconcile_outcome
     \<Rightarrow> reconciliation_result" where
  "result_row t ids inp k claimed remitted variance outcome =
     \<lparr>resId = ids 1, resTenant = t, resStore = clmStore k, resClaim = riClaim inp,
      resClaimed = claimed, resRemitted = remitted, resVariance = variance, resOutcome = outcome\<rparr>"

definition reconcileRemittance_work ::
    "uuid \<Rightarrow> id_source \<Rightarrow> reconcile_input \<Rightarrow> tenant_context \<Rightarrow> settle_db \<Rightarrow> (reconcile_result, settle_db) work_end" where
  "reconcileRemittance_work t ids inp c s =
     (case find_claim c (riClaim inp) s of
        None \<Rightarrow> Returns Reconcile_not_found s
      | Some k \<Rightarrow>
        if clmStatus k = Reconciled then Returns Reconcile_conflict s
        else
          let lines = claim_lines_of c (riClaim inp) s in
          if lines = [] then Returns Reconcile_conflict s
          else if list_ex (\<lambda>r. rcvState r \<noteq> Claimed) lines then Returns Reconcile_conflict s
          else
            (case sumScaled (map (\<lambda>r. pg_numeric_text (rcvBalance r)) lines) of
               None \<Rightarrow> Throws (Js_error ''SyntaxError'')
             | Some claimed \<Rightarrow>
                 (case (decideReconciliation claimed (riAmount inp), claim_toScaledInt (riAmount inp)) of
                    (Some (outcome, variance), Some remitted) \<Rightarrow>
                      (case (pg_numeric_in (riAmount inp), pg_numeric_in claimed, pg_numeric_in variance) of
                         (Inr rem, Inr cl, Inr var) \<Rightarrow>
                           (case insert_remittance c (remittance_row t ids inp k rem) s of
                              Inl e \<Rightarrow> Throws e
                            | Inr s1 \<Rightarrow>
                                (case insert_result c (result_row t ids inp k cl rem var outcome) s1 of
                                   Inl e \<Rightarrow> Throws e
                                 | Inr s2 \<Rightarrow>
                                     Returns
                                       (Reconciled_ok \<lparr>rbClaim = riClaim inp, rbClaimed = claimed,
                                          rbRemitted = riAmount inp, rbVariance = variance,
                                          rbOutcome = outcome\<rparr>)
                                       (mark_reconciled c (riClaim inp)
                                          (apply_remittance c outcome remitted lines s2))))
                       | (Inl e, _, _) \<Rightarrow> Throws e
                       | (_, Inl e, _) \<Rightarrow> Throws e
                       | (_, _, Inl e) \<Rightarrow> Throws e)
                  | _ \<Rightarrow> Throws (Js_error ''SyntaxError''))))"

definition reconcileRemittance ::
    "uuid \<Rightarrow> id_source \<Rightarrow> reconcile_input \<Rightarrow> settle_svc \<Rightarrow> (exn + reconcile_result) \<times> settle_svc" where
  "reconcileRemittance t ids inp =
     with_signal (\<lambda>r. case r of Reconciled_ok _ \<Rightarrow> True | _ \<Rightarrow> False)
       (runWithTenantContext (tenant_ctx t) (reconcileRemittance_work t ids inp))"

end
