(* ===== verification/SettlementFacts.thy ===== *)
theory SettlementFacts
  imports Settlement
begin

text \<open>
  The library of the settlement component: what each statement does, the invariant of the tables
  and the frame of a transaction, and that each service operation keeps both.
\<close>

section \<open>Statements\<close>

lemma sql_check_case:
  "(case sql_check ok e rest of None \<Rightarrow> Inr x | Some d \<Rightarrow> Inl d) = Inr y \<longleftrightarrow>
   ok \<and> (case rest of None \<Rightarrow> Inr x | Some d \<Rightarrow> Inl d) = Inr y"
  by (simp add: sql_check_def)

lemma insert_receivable_Inr:
  "insert_receivable c r s = Inr s' \<longleftrightarrow>
     rls_tenant c (rcvTenant r) \<and> 0 \<le> rcvBalance r \<and> rcvId r \<notin> rcvId ` set (receivables s) \<and>
     rcvPayer r \<in> payId ` set (payers s) \<and> rcvStore r \<in> fst ` set (stores s) \<and>
     (rcvSale r, rcvTenant r, rcvStore r) \<in> set (sales s) \<and>
     s' = s\<lparr>receivables := receivables s @ [r]\<rparr>"
  by (simp only: insert_receivable_def sql_check_case option.simps) (auto simp: conj_commute)

lemma insert_application_Inr:
  "insert_application c a s = Inr s' \<longleftrightarrow>
     rls_tenant c (appTenant a) \<and> 0 < appAmount a \<and> appId a \<notin> appId ` set (applications s) \<and>
     (appReceivable a, appTenant a, appStore a)
       \<in> (\<lambda>r. (rcvId r, rcvTenant r, rcvStore r)) ` set (receivables s) \<and>
     s' = s\<lparr>applications := applications s @ [a]\<rparr>"
  by (simp only: insert_application_def sql_check_case option.simps) (auto simp: conj_commute)

lemma insert_claim_Inr:
  "insert_claim c k s = Inr s' \<longleftrightarrow>
     rls_tenant c (clmTenant k) \<and> clmId k \<notin> clmId ` set (claims s) \<and>
     clmPayer k \<in> payId ` set (payers s) \<and> clmStore k \<in> fst ` set (stores s) \<and>
     s' = s\<lparr>claims := claims s @ [k]\<rparr>"
  by (simp only: insert_claim_def sql_check_case option.simps) (auto simp: conj_commute)

lemma insert_claim_line_Inr:
  "insert_claim_line c l s = Inr s' \<longleftrightarrow>
     rls_tenant c (lineTenant l) \<and> lineId l \<notin> lineId ` set (claimLines s) \<and>
     (lineClaim l, lineReceivable l) \<notin> (\<lambda>x. (lineClaim x, lineReceivable x)) ` set (claimLines s) \<and>
     (lineClaim l, lineTenant l, lineStore l) \<in> (\<lambda>k. (clmId k, clmTenant k, clmStore k)) ` set (claims s) \<and>
     (lineReceivable l, lineTenant l, lineStore l)
       \<in> (\<lambda>r. (rcvId r, rcvTenant r, rcvStore r)) ` set (receivables s) \<and>
     s' = s\<lparr>claimLines := claimLines s @ [l]\<rparr>"
  by (simp only: insert_claim_line_def sql_check_case option.simps) (auto simp: conj_commute)

lemma insert_remittance_Inr:
  "insert_remittance c m s = Inr s' \<longleftrightarrow>
     rls_tenant c (remTenant m) \<and> 0 \<le> remAmount m \<and> remId m \<notin> remId ` set (remittances s) \<and>
     (remClaim m, remTenant m, remStore m) \<in> (\<lambda>k. (clmId k, clmTenant k, clmStore k)) ` set (claims s) \<and>
     s' = s\<lparr>remittances := remittances s @ [m]\<rparr>"
  by (simp only: insert_remittance_def sql_check_case option.simps) (auto simp: conj_commute)

lemma insert_result_Inr:
  "insert_result c x s = Inr s' \<longleftrightarrow>
     rls_tenant c (resTenant x) \<and> resId x \<notin> resId ` set (results s) \<and>
     (resClaim x, resTenant x, resStore x) \<in> (\<lambda>k. (clmId k, clmTenant k, clmStore k)) ` set (claims s) \<and>
     s' = s\<lparr>results := results s @ [x]\<rparr>"
  by (simp only: insert_result_def sql_check_case option.simps) (auto simp: conj_commute)

lemmas insert_Inr = insert_receivable_Inr insert_application_Inr insert_claim_Inr
  insert_claim_line_Inr insert_remittance_Inr insert_result_Inr

lemma update_receivables_select [simp]:
  "payers (update_receivables c p f s) = payers s"
  "stores (update_receivables c p f s) = stores s"
  "sales (update_receivables c p f s) = sales s"
  "applications (update_receivables c p f s) = applications s"
  "claims (update_receivables c p f s) = claims s"
  "claimLines (update_receivables c p f s) = claimLines s"
  "remittances (update_receivables c p f s) = remittances s"
  "results (update_receivables c p f s) = results s"
  "receivables (update_receivables c p f s) =
     update_where (\<lambda>r. rls_tenant c (rcvTenant r) \<and> p r) f (receivables s)"
  by (simp_all add: update_receivables_def)

section \<open>The frame of a transaction\<close>

text \<open>
  One write to a receivable: identity and ownership are kept, the version grows, the balance never
  grows, and the state stays or moves along the transition table.
\<close>

definition rcv_write :: "receivable \<Rightarrow> receivable \<Rightarrow> bool" where
  "rcv_write r r' \<longleftrightarrow>
     rcvId r' = rcvId r \<and> rcvTenant r' = rcvTenant r \<and> rcvStore r' = rcvStore r \<and>
     rcvSale r' = rcvSale r \<and> rcvPayer r' = rcvPayer r \<and>
     rcvVersion r < rcvVersion r' \<and> rcvBalance r' \<le> rcvBalance r \<and>
     (rcvState r' = rcvState r \<or> canTransition (rcvState r) (rcvState r'))"

definition rcv_evolves :: "tenant_context \<Rightarrow> receivable \<Rightarrow> receivable \<Rightarrow> bool" where
  "rcv_evolves c = (\<lambda>r r'. rls_tenant c (rcvTenant r) \<and> rcv_write r r')\<^sup>*\<^sup>*"

definition claim_evolves :: "tenant_context \<Rightarrow> claim_rec \<Rightarrow> claim_rec \<Rightarrow> bool" where
  "claim_evolves c k k' \<longleftrightarrow> k' = k \<or>
     (rls_tenant c (clmTenant k) \<and> clmId k' = clmId k \<and> clmTenant k' = clmTenant k \<and>
      clmStore k' = clmStore k \<and> clmPayer k' = clmPayer k \<and>
      clmStatus k' = Reconciled \<and> clmVersion k < clmVersion k')"

definition settle_frame :: "tenant_context \<Rightarrow> settle_db \<Rightarrow> settle_db \<Rightarrow> bool" where
  "settle_frame c s s' \<longleftrightarrow>
     table_extends (rcv_evolves c) (\<lambda>r. rls_tenant c (rcvTenant r)) (receivables s) (receivables s') \<and>
     table_extends (claim_evolves c) (\<lambda>k. rls_tenant c (clmTenant k)) (claims s) (claims s') \<and>
     table_extends (=) (\<lambda>a. rls_tenant c (appTenant a)) (applications s) (applications s') \<and>
     table_extends (=) (\<lambda>l. rls_tenant c (lineTenant l)) (claimLines s) (claimLines s') \<and>
     table_extends (=) (\<lambda>m. rls_tenant c (remTenant m)) (remittances s) (remittances s') \<and>
     table_extends (=) (\<lambda>x. rls_tenant c (resTenant x)) (results s) (results s') \<and>
     payers s' = payers s \<and> stores s' = stores s \<and> sales s' = sales s"

lemma rcv_evolves_refl [simp]: "rcv_evolves c r r"
  by (simp add: rcv_evolves_def)

lemma rcv_evolves_trans: "rcv_evolves c x y \<Longrightarrow> rcv_evolves c y z \<Longrightarrow> rcv_evolves c x z"
  by (simp add: rcv_evolves_def)

lemma rcv_evolves_write: "rls_tenant c (rcvTenant r) \<Longrightarrow> rcv_write r r' \<Longrightarrow> rcv_evolves c r r'"
  by (auto simp: rcv_evolves_def)

lemma rcv_evolves_keeps:
  "rcv_evolves c r r' \<Longrightarrow>
     rcvId r' = rcvId r \<and> rcvTenant r' = rcvTenant r \<and> rcvStore r' = rcvStore r \<and>
     rcvSale r' = rcvSale r \<and> rcvPayer r' = rcvPayer r \<and>
     rcvBalance r' \<le> rcvBalance r \<and> rcvVersion r \<le> rcvVersion r'"
  unfolding rcv_evolves_def by (induction rule: rtranclp_induct) (auto simp: rcv_write_def)

lemma rcv_evolves_other: "rcv_evolves c r r' \<Longrightarrow> \<not> rls_tenant c (rcvTenant r) \<Longrightarrow> r' = r"
  unfolding rcv_evolves_def by (erule converse_rtranclpE) auto

lemma claim_evolves_refl [simp]: "claim_evolves c k k"
  by (simp add: claim_evolves_def)

lemma claim_evolves_trans: "claim_evolves c x y \<Longrightarrow> claim_evolves c y z \<Longrightarrow> claim_evolves c x z"
  by (auto simp: claim_evolves_def)

lemma claim_evolves_tenant: "claim_evolves c k k' \<Longrightarrow> clmTenant k' = clmTenant k"
  by (auto simp: claim_evolves_def)

lemma settle_frame_refl: "settle_frame c s s"
  by (simp add: settle_frame_def table_extends_refl)

lemma table_extends_eq_trans:
  "table_extends (=) new xs ys \<Longrightarrow> table_extends (=) new ys zs \<Longrightarrow> table_extends (=) new xs zs"
  by (rule table_extends_trans [of "(=)" new xs ys zs]) auto

lemma settle_frame_trans:
  assumes "settle_frame c x y" and "settle_frame c y z"
  shows "settle_frame c x z"
proof -
  note xy = assms(1) [unfolded settle_frame_def] and yz = assms(2) [unfolded settle_frame_def]
  have "table_extends (rcv_evolves c) (\<lambda>r. rls_tenant c (rcvTenant r)) (receivables x) (receivables z)"
    by (rule table_extends_trans [of "rcv_evolves c" _ "receivables x" "receivables y"])
      (use xy yz in \<open>auto intro: rcv_evolves_trans dest: rcv_evolves_keeps\<close>)
  moreover have "table_extends (claim_evolves c) (\<lambda>k. rls_tenant c (clmTenant k)) (claims x) (claims z)"
    by (rule table_extends_trans [of "claim_evolves c" _ "claims x" "claims y"])
      (use xy yz in \<open>auto intro: claim_evolves_trans dest: claim_evolves_tenant\<close>)
  ultimately show ?thesis
    unfolding settle_frame_def
    using xy yz by (intro conjI) (blast intro: table_extends_eq_trans | simp)+
qed

lemma settle_frame_update:
  assumes "\<And>r. r \<in> set (receivables s) \<Longrightarrow> rls_tenant c (rcvTenant r) \<Longrightarrow> p r \<Longrightarrow> rcv_write r (f r)"
  shows "settle_frame c s (update_receivables c p f s)"
  using assms unfolding settle_frame_def
  by (auto intro!: table_extends_refl table_extends_update_where intro: rcv_evolves_write)

lemma settle_frame_insert:
  "insert_receivable c r s = Inr s' \<Longrightarrow> settle_frame c s s'"
  "insert_application c a s = Inr s' \<Longrightarrow> settle_frame c s s'"
  "insert_claim c k s = Inr s' \<Longrightarrow> settle_frame c s s'"
  "insert_claim_line c l s = Inr s' \<Longrightarrow> settle_frame c s s'"
  "insert_remittance c m s = Inr s' \<Longrightarrow> settle_frame c s s'"
  "insert_result c x s = Inr s' \<Longrightarrow> settle_frame c s s'"
  by (auto simp: insert_Inr settle_frame_def intro!: table_extends_refl table_extends_snoc)

section \<open>The invariant\<close>

definition rcv_ok :: "receivable \<Rightarrow> bool" where
  "rcv_ok r \<longleftrightarrow>
     0 \<le> rcvBalance r \<and> numeric_19_4_fits (rcvBalance r) \<and>
     (isTerminalState (rcvState r) \<longrightarrow> rcvBalance r = 0) \<and>
     (rcvState r \<in> set CLAIMABLE_STATES \<longrightarrow> 0 < rcvBalance r)"

definition claim_key :: "claim_rec \<Rightarrow> uuid \<times> uuid \<times> uuid" where
  "claim_key k = (clmId k, clmTenant k, clmStore k)"

definition settle_inv :: "settle_db \<Rightarrow> bool" where
  "settle_inv s \<longleftrightarrow>
     distinct (map rcvId (receivables s)) \<and> distinct (map clmId (claims s)) \<and>
     (\<forall>r \<in> set (receivables s). rcv_ok r) \<and>
     (\<forall>l \<in> set (claimLines s). (lineClaim l, lineTenant l, lineStore l) \<in> claim_key ` set (claims s)) \<and>
     (\<forall>a \<in> set (applications s). 0 < appAmount a)"

lemma terminal_iff: "isTerminalState st \<longleftrightarrow> st = Settled \<or> st = Flagged"
  by (cases st) (simp_all add: isTerminalState_def)

lemma claimable_iff: "st \<in> set CLAIMABLE_STATES \<longleftrightarrow> st = Open \<or> st = Partially_applied"
  by (auto simp: CLAIMABLE_STATES_def)

lemma settle_inv_insert_receivable:
  "settle_inv s \<Longrightarrow> insert_receivable c r s = Inr s' \<Longrightarrow> rcv_ok r \<Longrightarrow> settle_inv s'"
  by (auto simp: settle_inv_def insert_receivable_Inr)

lemma settle_inv_insert_application:
  "settle_inv s \<Longrightarrow> insert_application c a s = Inr s' \<Longrightarrow> settle_inv s'"
  by (auto simp: settle_inv_def insert_application_Inr)

lemma settle_inv_insert_claim:
  "settle_inv s \<Longrightarrow> insert_claim c k s = Inr s' \<Longrightarrow> settle_inv s'"
  by (auto simp: settle_inv_def insert_claim_Inr)

lemma settle_inv_insert_claim_line:
  "settle_inv s \<Longrightarrow> insert_claim_line c l s = Inr s' \<Longrightarrow> settle_inv s'"
  by (auto simp: settle_inv_def insert_claim_line_Inr claim_key_def)

lemma settle_inv_insert_remittance:
  "settle_inv s \<Longrightarrow> insert_remittance c m s = Inr s' \<Longrightarrow> settle_inv s'"
  by (auto simp: settle_inv_def insert_remittance_Inr)

lemma settle_inv_insert_result:
  "settle_inv s \<Longrightarrow> insert_result c x s = Inr s' \<Longrightarrow> settle_inv s'"
  by (auto simp: settle_inv_def insert_result_Inr)

lemmas settle_inv_inserts = settle_inv_insert_application settle_inv_insert_claim
  settle_inv_insert_claim_line settle_inv_insert_remittance settle_inv_insert_result

lemma settle_inv_update:
  assumes "settle_inv s" and "\<And>r. rcvId (f r) = rcvId r"
    and "\<And>r. r \<in> set (receivables s) \<Longrightarrow> rls_tenant c (rcvTenant r) \<Longrightarrow> p r \<Longrightarrow> rcv_ok (f r)"
  shows "settle_inv (update_receivables c p f s)"
  using assms by (auto simp: settle_inv_def map_update_where set_update_where)

lemma settle_inv_claims_update:
  assumes "settle_inv s"
    and "\<And>k. clmId (f k) = clmId k" "\<And>k. clmTenant (f k) = clmTenant k" "\<And>k. clmStore (f k) = clmStore k"
  shows "settle_inv (s\<lparr>claims := update_where p f (claims s)\<rparr>)"
proof -
  have key: "claim_key (if p k then f k else k) = claim_key k" for k
    using assms(2-4) by (simp add: claim_key_def)
  have "claim_key ` set (update_where p f (claims s)) = claim_key ` set (claims s)"
    unfolding set_update_where image_image by (simp only: key)
  then show ?thesis
    using assms by (auto simp: settle_inv_def map_update_where)
qed

section \<open>Opening receivables\<close>

definition payer_valid :: "intent_payer \<Rightarrow> bool" where
  "payer_valid p \<longleftrightarrow> MONEY_RE (inOwedAmount p) \<and> Number_positive (inOwedAmount p)"

lemma insert_intent_rows_Cons:
  "insert_intent_rows c t inp ids k (p # ps) s = Inr (rows, s'') \<longleftrightarrow>
     (\<exists>owed s' rest. pg_numeric_in (inOwedAmount p) = Inr owed \<and>
        insert_receivable c (new_receivable t inp (ids k) p owed) s = Inr s' \<and>
        insert_intent_rows c t inp ids (Suc k) ps s' = Inr (rest, s'') \<and>
        rows = toRow (new_receivable t inp (ids k) p owed) # rest)"
  by (auto simp: Let_def split: sum.splits prod.splits)

lemma rcv_ok_open:
  "0 < v \<Longrightarrow> numeric_19_4_fits v \<Longrightarrow> rcv_ok (new_receivable t inp i p v)"
  by (simp add: rcv_ok_def INITIAL_RECEIVABLE_STATE_def terminal_iff new_receivable_def)

lemma insert_intent_rows_inv:
  "insert_intent_rows c t inp ids k ps s = Inr (rows, s') \<Longrightarrow> settle_inv s \<Longrightarrow>
   list_all payer_valid ps \<Longrightarrow> settle_inv s'"
proof (induction ps arbitrary: k s rows)
  case (Cons p ps)
  from Cons.prems(1) obtain owed s1 rest
    where owed: "pg_numeric_in (inOwedAmount p) = Inr owed"
      and s1: "insert_receivable c (new_receivable t inp (ids k) p owed) s = Inr s1"
      and rest: "insert_intent_rows c t inp ids (Suc k) ps s1 = Inr (rest, s')"
    unfolding insert_intent_rows_Cons by blast
  from Cons.prems(3) have "payer_valid p" and ps: "list_all payer_valid ps" by simp_all
  with owed have "0 < owed" "numeric_19_4_fits owed"
    by (auto simp: payer_valid_def elim: positive_amount)
  then have "settle_inv s1"
    using settle_inv_insert_receivable [OF Cons.prems(2) s1] rcv_ok_open by blast
  with rest ps show ?case by (blast intro: Cons.IH)
qed simp

lemma insert_intent_rows_frame:
  "insert_intent_rows c t inp ids k ps s = Inr (rows, s') \<Longrightarrow> settle_frame c s s'"
proof (induction ps arbitrary: k s rows)
  case Nil
  then show ?case by (simp add: settle_frame_refl)
next
  case (Cons p ps)
  then show ?case
    unfolding insert_intent_rows_Cons
    by (blast intro: settle_frame_trans settle_frame_insert(1))
qed

text \<open>The rows an intent adds: one open receivable per payer, in order, carrying what it owes.\<close>

lemma insert_intent_rows_spec:
  "insert_intent_rows c t inp ids k ps s = Inr (rows, s') \<Longrightarrow>
   \<exists>new. s' = s\<lparr>receivables := receivables s @ new\<rparr> \<and> rows = map toRow new \<and>
     list_all2 (\<lambda>p r. rcvPayer r = inPayerRef p \<and> pg_numeric_in (inOwedAmount p) = Inr (rcvBalance r) \<and>
       rcvTenant r = t \<and> rcvStore r = oiStore inp \<and> rcvSale r = oiSale inp \<and>
       rcvState r = Open \<and> rcvVersion r = 0) ps new"
proof (induction ps arbitrary: k s rows)
  case Nil
  then show ?case by simp
next
  case (Cons p ps)
  from Cons.prems obtain owed s1 rest
    where owed: "pg_numeric_in (inOwedAmount p) = Inr owed"
      and s1: "insert_receivable c (new_receivable t inp (ids k) p owed) s = Inr s1"
      and rest: "insert_intent_rows c t inp ids (Suc k) ps s1 = Inr (rest, s')"
      and rows: "rows = toRow (new_receivable t inp (ids k) p owed) # rest"
    unfolding insert_intent_rows_Cons by blast
  from Cons.IH [OF rest] obtain new where new: "s' = s1\<lparr>receivables := receivables s1 @ new\<rparr>"
    "rest = map toRow new"
    "list_all2 (\<lambda>p r. rcvPayer r = inPayerRef p \<and> pg_numeric_in (inOwedAmount p) = Inr (rcvBalance r) \<and>
       rcvTenant r = t \<and> rcvStore r = oiStore inp \<and> rcvSale r = oiSale inp \<and>
       rcvState r = Open \<and> rcvVersion r = 0) ps new"
    by blast
  show ?case
    using owed s1 rows new
    by (intro exI [of _ "new_receivable t inp (ids k) p owed # new"])
      (simp add: insert_receivable_Inr new_receivable_def INITIAL_RECEIVABLE_STATE_def)
qed

section \<open>Applying a payment\<close>

text \<open>The decision on stored balances is integer subtraction.\<close>

lemma decideApplication_stored:
  "toScaledInt amount = Some a \<Longrightarrow>
   decideApplication (pg_numeric_text b) amount =
     Some (if b < a then Over_application
           else Apply_ok (fromScaledInt (b - a)) (if a = b then Settled else Partially_applied))"
  by (simp add: decideApplication_def Let_def)

lemma numeric_fits_diff:
  "0 \<le> a \<Longrightarrow> a \<le> b \<Longrightarrow> numeric_19_4_fits b \<Longrightarrow> numeric_19_4_fits (b - a)"
  by (simp add: numeric_19_4_fits_def)

lemma find_receivable_SomeD:
  "find_receivable c i s = Some r \<Longrightarrow> r \<in> set (receivables s) \<and> rls_tenant c (rcvTenant r) \<and> rcvId r = i"
  by (auto simp: find_receivable_def dest: find_SomeD)

lemma applyPayment_work_cases:
  assumes "applyPayment_work t ids inp c s = Returns res s'" and "settle_inv s"
    and "MONEY_RE (apAmount inp)"
  obtains (unchanged) "s' = s" "res = Apply_not_found \<or> res = Apply_conflict"
  | (applied) r a where "find_receivable c (apRef inp) s = Some r" "rcvVersion r = apVersion inp"
      "\<not> isTerminalState (rcvState r)" "toScaledInt (apAmount inp) = Some a" "0 < a" "a \<le> rcvBalance r"
      "insert_application c (application_row t ids inp r a) s
        = Inr (s\<lparr>applications := applications s @ [application_row t ids inp r a]\<rparr>)"
      "s' = update_receivables c (\<lambda>x. rcvId x = apRef inp \<and> rcvVersion x = apVersion inp)
         (paid_row (rcvBalance r - a) (if a = rcvBalance r then Settled else Partially_applied))
         (s\<lparr>applications := applications s @ [application_row t ids inp r a]\<rparr>)"
      "res = Applied (toRow (paid_row (rcvBalance r - a)
         (if a = rcvBalance r then Settled else Partially_applied) r))"
proof -
  from assms(3) obtain a where a: "toScaledInt (apAmount inp) = Some a"
    "pg_numeric_in (apAmount inp) = Inr a" "0 \<le> a" "numeric_19_4_fits a"
    by (rule MONEY_RE_scaled)
  show thesis
  proof (cases "find_receivable c (apRef inp) s")
    case None
    with assms(1) show ?thesis by (intro unchanged) (auto simp: applyPayment_work_def)
  next
    case (Some r)
    show ?thesis
    proof (cases "rcvVersion r \<noteq> apVersion inp \<or> isTerminalState (rcvState r) \<or> rcvBalance r < a")
      case True
      with assms(1) Some show ?thesis
        by (intro unchanged)
          (auto simp: applyPayment_work_def decideApplication_stored [OF a(1)] terminal_iff split: if_splits)
    next
      case False
      define st where "st = (if a = rcvBalance r then Settled else Partially_applied)"
      have "rcv_ok r" using find_receivable_SomeD [OF Some] assms(2) by (auto simp: settle_inv_def)
      with False a have bal: "pg_numeric_in (fromScaledInt (rcvBalance r - a)) = Inr (rcvBalance r - a)"
        by (simp add: pg_numeric_in_render numeric_fits_diff rcv_ok_def)
      from False assms(1) Some have
        "applyPayment_write t ids inp r (fromScaledInt (rcvBalance r - a)) st c s = Returns res s'"
        by (simp add: applyPayment_work_def decideApplication_stored [OF a(1)] terminal_iff st_def
            split: if_splits)
      then obtain s1 where s1: "insert_application c (application_row t ids inp r a) s = Inr s1"
        by (auto simp: applyPayment_write_def a(2) split: sum.splits)
      then have s1': "s1 = s\<lparr>applications := applications s @ [application_row t ids inp r a]\<rparr>" "0 < a"
        by (auto simp: insert_application_Inr application_row_def)
      have "find (\<lambda>x. (rls_tenant c (rcvTenant x) \<and> rcvId x = apRef inp) \<and> rcvVersion x = apVersion inp)
          (receivables s1) = Some r"
        using Some False
        by (intro find_stronger [where p = "\<lambda>x. rls_tenant c (rcvTenant x) \<and> rcvId x = apRef inp"])
          (simp_all add: find_receivable_def s1')
      with \<open>applyPayment_write t ids inp r _ st c s = _\<close> s1 bal False
      have "s' = update_receivables c (\<lambda>x. rcvId x = apRef inp \<and> rcvVersion x = apVersion inp)
              (paid_row (rcvBalance r - a) st) s1" "res = Applied (toRow (paid_row (rcvBalance r - a) st r))"
        by (auto simp: applyPayment_write_def a(2))
      with Some False a s1 s1' show ?thesis by (intro applied [of r a]) (auto simp: st_def)
    qed
  qed
qed

lemma rcv_write_paid:
  "0 < a \<Longrightarrow> a \<le> rcvBalance r \<Longrightarrow> \<not> isTerminalState (rcvState r) \<Longrightarrow>
   rcv_write r (paid_row (rcvBalance r - a) (if a = rcvBalance r then Settled else Partially_applied) r)"
  by (cases "rcvState r") (auto simp: rcv_write_def paid_row_def canTransition_def terminal_iff)

lemma rcv_ok_paid:
  "rcv_ok r \<Longrightarrow> 0 < a \<Longrightarrow> a \<le> rcvBalance r \<Longrightarrow>
   rcv_ok (paid_row (rcvBalance r - a) (if a = rcvBalance r then Settled else Partially_applied) r)"
  by (auto simp: rcv_ok_def paid_row_def terminal_iff claimable_iff numeric_fits_diff)

lemma settle_inv_unique:
  "settle_inv s \<Longrightarrow> r \<in> set (receivables s) \<Longrightarrow> x \<in> set (receivables s) \<Longrightarrow> rcvId x = rcvId r \<Longrightarrow> x = r"
  unfolding settle_inv_def by (blast dest: distinct_key_unique)

lemma settle_inv_rcv_ok: "settle_inv s \<Longrightarrow> r \<in> set (receivables s) \<Longrightarrow> rcv_ok r"
  by (simp add: settle_inv_def)

lemma applyPayment_work_inv:
  assumes "applyPayment_work t ids inp c s = Returns res s'" and "settle_inv s"
    and "MONEY_RE (apAmount inp)"
  shows "settle_inv s' \<and> settle_frame c s s'"
  using assms
proof (cases rule: applyPayment_work_cases)
  case unchanged
  with assms(2) show ?thesis by (simp add: settle_frame_refl)
next
  case (applied r a)
  let ?s1 = "s\<lparr>applications := applications s @ [application_row t ids inp r a]\<rparr>"
  have r: "r \<in> set (receivables s)" "rcvId r = apRef inp"
    using find_receivable_SomeD [OF applied(1)] by simp_all
  have inv1: "settle_inv ?s1" using assms(2) applied(7) by (rule settle_inv_insert_application)
  have same: "x = r" if "x \<in> set (receivables ?s1)" "rcvId x = apRef inp" for x
    using that settle_inv_unique [OF assms(2) r(1)] r(2) by simp
  have "settle_inv s'"
    unfolding applied(8)
  proof (rule settle_inv_update [OF inv1])
    fix x assume "x \<in> set (receivables ?s1)" "rcvId x = apRef inp \<and> rcvVersion x = apVersion inp"
    then have "x = r" by (intro same) auto
    then show "rcv_ok (paid_row (rcvBalance r - a) (if a = rcvBalance r then Settled else Partially_applied) x)"
      using rcv_ok_paid [OF settle_inv_rcv_ok [OF assms(2) r(1)] applied(5,6)] by simp
  qed (simp add: paid_row_def)
  moreover have "settle_frame c ?s1 s'"
    unfolding applied(8)
  proof (rule settle_frame_update)
    fix x assume "x \<in> set (receivables ?s1)" "rcvId x = apRef inp \<and> rcvVersion x = apVersion inp"
    then have "x = r" by (intro same) auto
    then show "rcv_write x (paid_row (rcvBalance r - a) (if a = rcvBalance r then Settled else Partially_applied) x)"
      using rcv_write_paid [OF applied(5,6,3)] by simp
  qed
  ultimately show ?thesis
    using settle_frame_insert(2) [OF applied(7)] settle_frame_trans by blast
qed

lemma openFromIntent_work_inv:
  assumes "openFromIntent_work t ids inp c s = Returns res s'" and "settle_inv s"
    and "list_all payer_valid (oiPayers inp)"
  shows "settle_inv s' \<and> settle_frame c s s'"
  using assms
  by (auto simp: openFromIntent_work_def settle_frame_refl split: if_splits sum.splits
      dest: insert_intent_rows_inv insert_intent_rows_frame)

section \<open>Submitting a claim\<close>

lemma insert_claim_lines_inv:
  "insert_claim_lines c t st k ids n refs s = Inr s' \<Longrightarrow> settle_inv s \<Longrightarrow>
   settle_inv s' \<and> settle_frame c s s' \<and> receivables s' = receivables s"
proof (induction refs arbitrary: n s)
  case Nil
  then show ?case by (simp add: settle_frame_refl)
next
  case (Cons ref refs)
  from Cons.prems(1) obtain s1 where
    s1: "insert_claim_line c \<lparr>lineId = ids n, lineTenant = t, lineStore = st,
           lineClaim = k, lineReceivable = ref\<rparr> s = Inr s1"
    and rest: "insert_claim_lines c t st k ids (Suc n) refs s1 = Inr s'"
    by (auto split: sum.splits)
  from settle_inv_insert_claim_line [OF Cons.prems(2) s1] Cons.IH [OF rest]
  have "settle_inv s' \<and> settle_frame c s1 s' \<and> receivables s' = receivables s1" by blast
  with s1 settle_frame_insert(4) [OF s1] show ?case
    by (auto simp: insert_claim_line_Inr intro: settle_frame_trans)
qed

text \<open>A submitted claim: its payer is in scope, every named receivable was found, claimable and
  owed by that payer, and all of them moved to \<open>claimed\<close> together.\<close>

lemma submitClaim_work_cases:
  assumes "submitClaim_work t ids inp c s = Returns res s'"
  obtains (unchanged) "s' = s" "res = Claim_not_found \<or> res = Claim_conflict"
  | (submitted) found refs store s1 s2 where
      "refs = js_dedup (scRefs inp)" "found = named_receivables c refs s"
      "length found = length refs"
      "\<forall>r \<in> set found. rcvState r \<in> set CLAIMABLE_STATES \<and> rcvPayer r = scPayer inp \<and> rcvStore r = store"
      "payerInScope c (scPayer inp) None s"
      "insert_claim c \<lparr>clmId = ids 0, clmTenant = t, clmStore = store,
         clmPayer = scPayer inp, clmStatus = Submitted, clmVersion = 0\<rparr> s = Inr s1"
      "insert_claim_lines c t store (ids 0) ids 1 refs s1 = Inr s2"
      "s' = update_receivables c (\<lambda>r. rcvId r \<in> set refs) claimed_row s2"
      "res = Claim_submitted \<lparr>cbClaim = ids 0, cbPayer = scPayer inp, cbStatus = Submitted,
         cbRefs = refs\<rparr>"
proof -
  define refs where "refs = js_dedup (scRefs inp)"
  define found where "found = named_receivables c refs s"
  note work = assms [unfolded submitClaim_work_def Let_def, folded refs_def, folded found_def]
  show thesis
  proof (cases "s' = s \<and> (res = Claim_not_found \<or> res = Claim_conflict)")
    case True
    then show ?thesis by (intro unchanged) auto
  next
    case False
    have guards: "length found = length refs" "payerInScope c (scPayer inp) None s"
      "\<not> list_ex (\<lambda>r. rcvState r \<notin> set CLAIMABLE_STATES) found"
      "\<not> list_ex (\<lambda>r. rcvPayer r \<noteq> scPayer inp) found"
      using work False by (auto split: if_splits)
    note work = work [simplified guards, simplified]
    from work False obtain store where store: "js_dedup (map rcvStore found) = [store]"
      by (cases "js_dedup (map rcvStore found)") (auto split: list.splits)
    then have "set (map rcvStore found) = {store}" by (metis empty_set list.simps(15) set_js_dedup)
    then have stores: "\<forall>r \<in> set found. rcvStore r = store" by auto
    from work store obtain s1 s2 where
      "insert_claim c \<lparr>clmId = ids 0, clmTenant = t, clmStore = store,
         clmPayer = scPayer inp, clmStatus = Submitted, clmVersion = 0\<rparr> s = Inr s1"
      "insert_claim_lines c t store (ids 0) ids 1 refs s1 = Inr s2"
      "s' = update_receivables c (\<lambda>r. rcvId r \<in> set refs) claimed_row s2"
      "res = Claim_submitted \<lparr>cbClaim = ids 0, cbPayer = scPayer inp, cbStatus = Submitted,
         cbRefs = refs\<rparr>"
      by (auto split: sum.splits)
    with guards stores show ?thesis
      by (intro submitted [OF refs_def found_def]) (auto simp: list_ex_iff)
  qed
qed

lemma named_receivables_unique:
  assumes "settle_inv s" and "length (named_receivables c refs s) = length refs" and "distinct refs"
  shows "rcvId ` set (named_receivables c refs s) = set refs"
proof -
  let ?found = "named_receivables c refs s"
  have "distinct (map rcvId ?found)"
    using assms(1) by (simp add: settle_inv_def named_receivables_def distinct_map_filter)
  then have "card (rcvId ` set ?found) = length ?found"
    using distinct_card by fastforce
  moreover have "rcvId ` set ?found \<subseteq> set refs" by (auto simp: named_receivables_def)
  ultimately show ?thesis
    using assms(2,3) by (intro card_subset_eq) (simp_all add: distinct_card)
qed

lemma claimable_to_claimed: "st \<in> set CLAIMABLE_STATES \<Longrightarrow> canTransition st Claimed"
  by (auto simp: claimable_iff canTransition_def)

lemma submitClaim_work_inv:
  assumes "submitClaim_work t ids inp c s = Returns res s'" and "settle_inv s"
  shows "settle_inv s' \<and> settle_frame c s s'"
  using assms(1)
proof (cases rule: submitClaim_work_cases)
  case unchanged
  with assms(2) show ?thesis by (simp add: settle_frame_refl)
next
  case (submitted found refs store s1 s2)
  have inv1: "settle_inv s1" using assms(2) submitted(6) by (rule settle_inv_insert_claim)
  have inv2: "settle_inv s2" and f2: "settle_frame c s1 s2" and r2: "receivables s2 = receivables s"
    using insert_claim_lines_inv [OF submitted(7) inv1] submitted(6) by (auto simp: insert_claim_Inr)
  have claimable: "rcvState r \<in> set CLAIMABLE_STATES" "rcv_ok r"
    if "r \<in> set (receivables s2)" "rls_tenant c (rcvTenant r)" "rcvId r \<in> set refs" for r
    using that submitted(2,4) r2 settle_inv_rcv_ok [OF assms(2)] by (auto simp: named_receivables_def)
  have "settle_inv s'"
    unfolding submitted(8) using inv2
    by (rule settle_inv_update)
      (use claimable in \<open>auto simp: claimed_row_def rcv_ok_def terminal_iff claimable_iff\<close>)
  moreover have "settle_frame c s2 s'"
    unfolding submitted(8)
    by (rule settle_frame_update)
      (use claimable claimable_to_claimed in \<open>simp add: claimed_row_def rcv_write_def\<close>)
  ultimately show ?thesis
    using settle_frame_insert(3) [OF submitted(6)] f2 settle_frame_trans by blast
qed

section \<open>Reconciling a remittance\<close>

lemma update_receivables_comp:
  assumes "\<And>r. rcvTenant (f r) = rcvTenant r" and "\<And>r. p r \<Longrightarrow> \<not> q (f r)"
    and "\<And>r. \<not> p r \<Longrightarrow> q r \<Longrightarrow> g r = f' r" and "\<And>r. p r \<Longrightarrow> f r = f' r"
  shows "update_receivables c q g (update_receivables c p f s)
    = update_receivables c (\<lambda>r. p r \<or> q r) f' s"
proof -
  have "(if rls_tenant c (rcvTenant x) \<and> q x then g x else x)
      = (if rls_tenant c (rcvTenant r) \<and> (p r \<or> q r) then f' r else r)"
    if "x = (if rls_tenant c (rcvTenant r) \<and> p r then f r else r)" for r x
    using that assms(1,2,3) [of r] assms(4) [of r] by (cases "p r") auto
  then show ?thesis
    by (simp add: update_receivables_def update_where_def)
qed

lemma update_receivables_empty: "update_receivables c (\<lambda>r. False) f s = s"
  by (simp add: update_receivables_def update_where_def)

lemma close_lines_eq:
  "distinct is \<Longrightarrow> close_lines c st is s = update_receivables c (\<lambda>r. rcvId r \<in> set is) (paid_row 0 st) s"
proof (induction "is" arbitrary: s)
  case Nil
  then show ?case by (simp add: update_receivables_empty)
next
  case (Cons i "is")
  then have "close_lines c st (i # is) s = update_receivables c (\<lambda>r. rcvId r \<in> set is) (paid_row 0 st)
      (update_receivables c (\<lambda>r. rcvId r = i) (paid_row 0 st) s)"
    by simp
  also have "\<dots> = update_receivables c (\<lambda>r. rcvId r = i \<or> rcvId r \<in> set is) (paid_row 0 st) s"
    using Cons.prems by (intro update_receivables_comp) (auto simp: paid_row_def)
  finally show ?case by simp
qed

lemma apply_balance_updates_eq:
  "distinct (map fst us) \<Longrightarrow> apply_balance_updates c us s =
     update_receivables c (\<lambda>r. rcvId r \<in> fst ` set us) (\<lambda>r. set_balance (the (map_of us (rcvId r))) r) s"
proof (induction us arbitrary: s)
  case Nil
  then show ?case by (simp add: update_receivables_empty)
next
  case (Cons u us)
  obtain i b where u: "u = (i, b)" by fastforce
  from Cons u have "apply_balance_updates c (u # us) s =
      update_receivables c (\<lambda>r. rcvId r \<in> fst ` set us) (\<lambda>r. set_balance (the (map_of us (rcvId r))) r)
        (update_receivables c (\<lambda>r. rcvId r = i) (set_balance b) s)"
    by simp
  also have "\<dots> = update_receivables c (\<lambda>r. rcvId r = i \<or> rcvId r \<in> fst ` set us)
      (\<lambda>r. set_balance (the (map_of (u # us) (rcvId r))) r) s"
    using Cons.prems u by (intro update_receivables_comp) (auto simp: set_balance_def)
  finally show ?case by (simp add: u)
qed

text \<open>The FIFO apportioning: which lines it writes, and how much it takes in total.\<close>

definition balance_after :: "(uuid \<times> int) list \<Rightarrow> uuid \<times> int \<Rightarrow> int" where
  "balance_after us l = (case map_of us (fst l) of None \<Rightarrow> snd l | Some b \<Rightarrow> b)"

lemma fifo_updates_ids: "fst ` set (fifo_updates n ls) \<subseteq> fst ` set ls"
proof -
  have "fst u \<in> fst ` set ls" if "u \<in> set (fifo_updates n ls)" for u
    using that by (induction n ls rule: fifo_updates.induct) (auto simp: Let_def split: if_splits)
  then show ?thesis by auto
qed

lemma fifo_updates_distinct: "distinct (map fst ls) \<Longrightarrow> distinct (map fst (fifo_updates n ls))"
proof (induction n ls rule: fifo_updates.induct)
  case (2 n i b ls)
  then show ?case using fifo_updates_ids [of _ ls] by (auto simp: Let_def) force+
qed simp

lemma fifo_updates_bounds:
  "(i, b) \<in> set (fifo_updates n ls) \<Longrightarrow> \<exists>b'. (i, b') \<in> set ls \<and> 0 \<le> b \<and> b < b'"
  by (induction n ls rule: fifo_updates.induct) (auto simp: Let_def split: if_splits)

lemma fifo_updates_total:
  assumes "distinct (map fst ls)" and "\<forall>l \<in> set ls. 0 \<le> snd l" and "0 \<le> n"
  shows "sum_list (map (balance_after (fifo_updates n ls)) ls)
    = sum_list (map snd ls) - min n (sum_list (map snd ls))"
  using assms
proof (induction n ls rule: fifo_updates.induct)
  case (1 n)
  then show ?case by simp
next
  case (2 n i b ls)
  have nonneg: "0 \<le> sum_list (map snd ls)" using "2.prems"(2) by (intro sum_list_nonneg) auto
  have other: "balance_after ((i, v) # us) l = balance_after us l" if "l \<in> set ls" for v us l
    using that "2.prems"(1) by (force simp: balance_after_def)
  have fresh: "map_of (fifo_updates m ls) i = None" for m
    using fifo_updates_ids [of m ls] "2.prems"(1) by (auto simp: map_of_eq_None_iff)
  consider "n \<le> 0" | "0 < n" "b = 0" | "0 < n" "0 < b" using "2.prems"(2) by fastforce
  then show ?case
  proof cases
    case 1
    with "2.prems"(2,3) nonneg show ?thesis by (simp add: balance_after_def)
  next
    case 2
    have "balance_after (fifo_updates n ls) (i, 0) = 0" using fresh by (simp add: balance_after_def)
    with 2 "2.IH"(1) [of 0] "2.prems" show ?thesis by (simp add: Let_def)
  next
    case 3
    define a where "a = (if n < b then n else b)"
    with 3 have a: "0 < a" "a \<le> b" "a \<le> n" by auto
    have ih: "sum_list (map (balance_after (fifo_updates (n - a) ls)) ls)
        = sum_list (map snd ls) - min (n - a) (sum_list (map snd ls))"
      using 3 a "2.prems" by (intro "2.IH"(2) [of a]) (auto simp: a_def)
    have upd: "fifo_updates n ((i, b) # ls) = (i, b - a) # fifo_updates (n - a) ls"
      using 3 a by (simp add: a_def Let_def)
    have rest: "map (balance_after ((i, b - a) # fifo_updates (n - a) ls)) ls
        = map (balance_after (fifo_updates (n - a) ls)) ls"
      using other by simp
    have "balance_after ((i, b - a) # fifo_updates (n - a) ls) (i, b) = b - a"
      by (simp add: balance_after_def)
    then have "sum_list (map (balance_after (fifo_updates n ((i, b) # ls))) ((i, b) # ls))
        = (b - a) + sum_list (map (balance_after (fifo_updates (n - a) ls)) ls)"
      by (simp only: upd list.map rest sum_list.Cons)
    also have "\<dots> = b + sum_list (map snd ls) - min n (b + sum_list (map snd ls))"
      unfolding ih using a nonneg 3 by (auto simp: a_def min_def)
    finally show ?thesis by simp
  qed
qed

lemma sumScaled_from_stored:
  "\<forall>r \<in> set ls. 0 \<le> rcvBalance r \<Longrightarrow>
   sumScaled_from n (map (\<lambda>r. pg_numeric_text (rcvBalance r)) ls) = Some (n + sum_list (map rcvBalance ls))"
  by (induction ls arbitrary: n) (auto simp: algebra_simps)

lemma sumScaled_stored:
  "\<forall>r \<in> set ls. 0 \<le> rcvBalance r \<Longrightarrow>
   sumScaled (map (\<lambda>r. pg_numeric_text (rcvBalance r)) ls) = Some (fromScaledInt (sum_list (map rcvBalance ls)))"
  by (simp add: sumScaled_def sumScaled_from_stored)

definition outcome_of :: "int \<Rightarrow> int \<Rightarrow> reconcile_outcome" where
  "outcome_of claimed remitted =
     (if remitted = claimed then Outcome_settled
      else if remitted < claimed then Outcome_partial else Outcome_flagged)"

lemma decideReconciliation_stored:
  "0 \<le> cl \<Longrightarrow> reconcile_toScaledInt amount = Some rm \<Longrightarrow>
   decideReconciliation (fromScaledInt cl) amount = Some (outcome_of cl rm, fromScaledInt (cl - rm))"
  by (auto simp: decideReconciliation_def Let_def outcome_of_def)

lemma claim_lines_of_mem:
  "r \<in> set (claim_lines_of c ref s) \<longleftrightarrow>
     r \<in> set (receivables s) \<and> rls_tenant c (rcvTenant r) \<and>
     (\<exists>l \<in> set (claimLines s). rls_tenant c (lineTenant l) \<and> lineClaim l = ref \<and> lineReceivable l = rcvId r)"
  by (auto simp: claim_lines_of_def list_ex_iff)

lemma claim_lines_of_distinct:
  "settle_inv s \<Longrightarrow> distinct (map rcvId (claim_lines_of c ref s))"
  unfolding claim_lines_of_def settle_inv_def
  by (simp add: distinct_map_sort_key distinct_map_filter)

definition claimed_total :: "tenant_context \<Rightarrow> uuid \<Rightarrow> settle_db \<Rightarrow> money" where
  "claimed_total c ref s = sum_list (map rcvBalance (claim_lines_of c ref s))"

lemma reconcileRemittance_work_cases:
  assumes "reconcileRemittance_work t ids inp c s = Returns res s'" and "settle_inv s"
    and "MONEY_RE (riAmount inp)"
  obtains (unchanged) "s' = s" "res = Reconcile_not_found \<or> res = Reconcile_conflict"
  | (reconciled) k rm s1 s2 lines cl where
      "find_claim c (riClaim inp) s = Some k" "clmStatus k \<noteq> Reconciled"
      "lines = claim_lines_of c (riClaim inp) s" "lines \<noteq> []" "\<forall>r \<in> set lines. rcvState r = Claimed"
      "cl = claimed_total c (riClaim inp) s" "numeric_19_4_fits cl" "0 \<le> cl"
      "toScaledInt (riAmount inp) = Some rm" "0 \<le> rm"
      "insert_remittance c (remittance_row t ids inp k rm) s = Inr s1"
      "insert_result c (result_row t ids inp k cl rm (cl - rm) (outcome_of cl rm)) s1 = Inr s2"
      "s' = mark_reconciled c (riClaim inp) (apply_remittance c (outcome_of cl rm) rm lines s2)"
      "res = Reconciled_ok \<lparr>rbClaim = riClaim inp, rbClaimed = fromScaledInt cl,
         rbRemitted = riAmount inp, rbVariance = fromScaledInt (cl - rm), rbOutcome = outcome_of cl rm\<rparr>"
proof -
  from assms(3) obtain rm where rm: "toScaledInt (riAmount inp) = Some rm"
    "reconcile_toScaledInt (riAmount inp) = Some rm" "pg_numeric_in (riAmount inp) = Inr rm"
    "0 \<le> rm" "numeric_19_4_fits rm"
    by (rule MONEY_RE_scaled)
  define lines where "lines = claim_lines_of c (riClaim inp) s"
  define cl where "cl = claimed_total c (riClaim inp) s"
  have bal: "\<forall>r \<in> set lines. 0 \<le> rcvBalance r"
    using assms(2) by (auto simp: lines_def claim_lines_of_mem settle_inv_def rcv_ok_def)
  then have cl0: "0 \<le> cl"
    by (auto simp: cl_def claimed_total_def lines_def intro!: sum_list_nonneg)
  have sum: "sumScaled (map (\<lambda>r. pg_numeric_text (rcvBalance r)) lines) = Some (fromScaledInt cl)"
    using sumScaled_stored [OF bal] by (simp add: cl_def claimed_total_def lines_def)
  note dec = decideReconciliation_stored [OF cl0 rm(2)]
  note work = assms(1) [unfolded reconcileRemittance_work_def Let_def, folded lines_def, unfolded sum]
  show thesis
  proof (cases "find_claim c (riClaim inp) s")
    case None
    with work have "s' = s \<and> res = Reconcile_not_found" by simp
    then show ?thesis by (intro unchanged) simp_all
  next
    case (Some k)
    show ?thesis
    proof (cases "clmStatus k = Reconciled \<or> lines = [] \<or> list_ex (\<lambda>r. rcvState r \<noteq> Claimed) lines")
      case True
      then consider "clmStatus k = Reconciled" | "clmStatus k \<noteq> Reconciled" "lines = []"
        | "clmStatus k \<noteq> Reconciled" "lines \<noteq> []" "list_ex (\<lambda>r. rcvState r \<noteq> Claimed) lines"
        by blast
      then have "s' = s \<and> res = Reconcile_conflict"
        using work by cases (simp_all add: Some)
      then show ?thesis by (intro unchanged) simp_all
    next
      case False
      then have guards: "clmStatus k \<noteq> Reconciled" "lines \<noteq> []"
        "\<not> list_ex (\<lambda>r. rcvState r \<noteq> Claimed) lines"
        by simp_all
      note facts = Some guards dec rm claim_toScaledInt_eq pg_numeric_in_render
      have fits: "numeric_19_4_fits cl" "numeric_19_4_fits (cl - rm)"
        using work by (simp_all add: facts split: if_splits)
      note facts = facts fits
      obtain s1 where s1: "insert_remittance c (remittance_row t ids inp k rm) s = Inr s1"
        using work by (cases "insert_remittance c (remittance_row t ids inp k rm) s") (simp_all add: facts)
      obtain s2 where
        s2: "insert_result c (result_row t ids inp k cl rm (cl - rm) (outcome_of cl rm)) s1 = Inr s2"
        using work by (cases "insert_result c (result_row t ids inp k cl rm (cl - rm) (outcome_of cl rm)) s1")
          (simp_all add: facts s1)
      have s': "s' = mark_reconciled c (riClaim inp) (apply_remittance c (outcome_of cl rm) rm lines s2)"
        and res: "res = Reconciled_ok \<lparr>rbClaim = riClaim inp, rbClaimed = fromScaledInt cl,
           rbRemitted = riAmount inp, rbVariance = fromScaledInt (cl - rm), rbOutcome = outcome_of cl rm\<rparr>"
        using work by (simp_all add: facts s1 s2)
      have claimed: "\<forall>r \<in> set lines. rcvState r = Claimed" using guards(3) by (auto simp: list_ex_iff)
      show ?thesis
        by (rule reconciled [OF Some guards(1) lines_def guards(2) claimed cl_def fits(1) cl0
              rm(1) rm(4) s1 s2 s' res])
    qed
  qed
qed

definition in_claim :: "tenant_context \<Rightarrow> uuid \<Rightarrow> settle_db \<Rightarrow> receivable \<Rightarrow> bool" where
  "in_claim c ref s r \<longleftrightarrow> rls_tenant c (rcvTenant r) \<and>
     (\<exists>l \<in> set (claimLines s). rls_tenant c (lineTenant l) \<and> lineClaim l = ref \<and> lineReceivable l = rcvId r)"

lemma claim_lines_of_eq: "claim_lines_of c ref s = sort_key rcvId (filter (in_claim c ref s) (receivables s))"
  by (simp add: claim_lines_of_def in_claim_def [abs_def] list_ex_iff)

lemma claimed_total_eq: "claimed_total c ref s = sum_list (map rcvBalance (filter (in_claim c ref s) (receivables s)))"
  by (simp add: claimed_total_def claim_lines_of_eq sum_list_sort_key)

lemma parsed_balance_eq [simp]: "0 \<le> rcvBalance r \<Longrightarrow> parsed_balance r = rcvBalance r"
  by (simp add: parsed_balance_def)

text \<open>The balance movement as one update of the rows of the claim.\<close>

definition total_balance :: "settle_db \<Rightarrow> money" where
  "total_balance s = sum_list (map rcvBalance (receivables s))"

lemma apply_remittance_update:
  assumes "settle_inv s" and "lines = claim_lines_of c ref s" and "\<forall>r \<in> set lines. rcvState r = Claimed"
    and "0 \<le> rm" and "receivables s2 = receivables s"
  obtains p f where
    "apply_remittance c (outcome_of (claimed_total c ref s) rm) rm lines s2 = update_receivables c p f s2"
    "\<forall>r \<in> set (receivables s). rls_tenant c (rcvTenant r) \<longrightarrow> p r \<longrightarrow>
       in_claim c ref s r \<and> rcv_write r (f r) \<and> rcv_ok (f r)"
    "\<forall>r. rcvId (f r) = rcvId r \<and> rcvTenant (f r) = rcvTenant r"
    "total_balance (update_receivables c p f s2) = total_balance s - min rm (claimed_total c ref s)"
proof -
  let ?cl = "claimed_total c ref s"
  have dist: "distinct (map rcvId lines)" unfolding assms(2) by (rule claim_lines_of_distinct [OF assms(1)])
  have bal: "0 \<le> rcvBalance r" "rcv_ok r" if "r \<in> set lines" for r
    using that assms(1) by (auto simp: assms(2) claim_lines_of_mem settle_inv_def rcv_ok_def)
  have mem: "in_claim c ref s r \<and> r \<in> set lines" if "r \<in> set (receivables s)" "rls_tenant c (rcvTenant r)" "rcvId r \<in> rcvId ` set lines" for r
    using that by (auto simp: assms(2) claim_lines_of_mem in_claim_def)
  have idin: "rcvId r \<in> rcvId ` set lines" if "r \<in> set (receivables s)" "in_claim c ref s r" for r
    using that by (auto simp: assms(2) claim_lines_of_mem in_claim_def)
  show thesis
  proof (cases "rm < ?cl")
    case False
    define st where "st = (if rm = ?cl then Settled else Flagged)"
    have eq: "apply_remittance c (outcome_of ?cl rm) rm lines s2
        = update_receivables c (\<lambda>r. rcvId r \<in> rcvId ` set lines) (paid_row 0 st) s2"
      using False close_lines_eq [OF dist] by (simp add: apply_remittance_def outcome_of_def st_def)
    have "total_balance (update_receivables c (\<lambda>r. rcvId r \<in> rcvId ` set lines) (paid_row 0 st) s2)
        = total_balance s + (sum_list (map (\<lambda>r. 0) (filter (in_claim c ref s) (receivables s))) - ?cl)"
      unfolding total_balance_def update_receivables_select assms(5) claimed_total_eq
      by (rule sum_list_update_where) (use mem idin in \<open>auto simp: paid_row_def in_claim_def\<close>)
    with False have tot: "total_balance (update_receivables c (\<lambda>r. rcvId r \<in> rcvId ` set lines) (paid_row 0 st) s2)
        = total_balance s - min rm ?cl"
      by simp
    show ?thesis
      by (rule that [OF eq _ _ tot])
        (use mem assms(3) bal in \<open>auto simp: paid_row_def rcv_write_def rcv_ok_def canTransition_def st_def
            terminal_iff claimable_iff numeric_19_4_fits_def\<close>)
  next
    case True
    define ls where "ls = map (\<lambda>r. (rcvId r, parsed_balance r)) lines"
    define us where "us = fifo_updates rm ls"
    have ls: "map fst ls = map rcvId lines" "\<forall>l \<in> set ls. 0 \<le> snd l" using bal by (auto simp: ls_def)
    then have du: "distinct (map fst us)" unfolding us_def using dist by (intro fifo_updates_distinct) simp
    have eq: "apply_remittance c (outcome_of ?cl rm) rm lines s2
        = update_receivables c (\<lambda>r. rcvId r \<in> fst ` set us) (\<lambda>r. set_balance (the (map_of us (rcvId r))) r) s2"
      using True apply_balance_updates_eq [OF du]
      by (simp add: apply_remittance_def outcome_of_def us_def ls_def)
    have upd: "in_claim c ref s r \<and> rcvState r = Claimed \<and> rcv_ok r \<and> 0 \<le> the (map_of us (rcvId r))
        \<and> the (map_of us (rcvId r)) < rcvBalance r"
      if "r \<in> set (receivables s)" "rls_tenant c (rcvTenant r)" "rcvId r \<in> fst ` set us" for r
    proof -
      from that(3) du obtain b where b: "(rcvId r, b) \<in> set us" "map_of us (rcvId r) = Some b"
        by auto
      from fifo_updates_bounds [OF b(1) [unfolded us_def]] obtain b' where b': "(rcvId r, b') \<in> set ls" "0 \<le> b" "b < b'"
        by blast
      then obtain r' where r': "r' \<in> set lines" "rcvId r' = rcvId r" "b' = parsed_balance r'"
        by (auto simp: ls_def)
      then have "r' = r"
        using settle_inv_unique [OF assms(1), of r r'] that(1) by (auto simp: assms(2) claim_lines_of_mem)
      with r' b b' bal assms(3) mem [of r] that show ?thesis by auto
    qed
    have sums: "sum_list (map snd ls) = ?cl"
      using bal by (simp add: ls_def claimed_total_def assms(2) comp_def cong: map_cong)
    have "sum_list (map (\<lambda>r. balance_after us (rcvId r, rcvBalance r)) lines) = sum_list (map (balance_after us) ls)"
      using bal by (simp add: ls_def comp_def cong: map_cong)
    also have "\<dots> = ?cl - min rm ?cl"
      using fifo_updates_total [of ls rm] ls dist assms(4) sums by (simp add: us_def)
    finally have after: "sum_list (map (\<lambda>r. balance_after us (rcvId r, rcvBalance r)) lines) = ?cl - min rm ?cl" .
    have "total_balance (update_receivables c (\<lambda>r. rcvId r \<in> fst ` set us) (\<lambda>r. set_balance (the (map_of us (rcvId r))) r) s2)
        = total_balance s + (sum_list (map (\<lambda>r. balance_after us (rcvId r, rcvBalance r))
            (filter (in_claim c ref s) (receivables s))) - ?cl)"
      unfolding total_balance_def update_receivables_select assms(5) claimed_total_eq
    proof (rule sum_list_update_where)
      fix r assume r: "r \<in> set (receivables s)" "rls_tenant c (rcvTenant r) \<and> rcvId r \<in> fst ` set us"
      with du obtain b where "map_of us (rcvId r) = Some b" by auto
      with upd [of r] r show "in_claim c ref s r \<and>
          rcvBalance (set_balance (the (map_of us (rcvId r))) r) = balance_after us (rcvId r, rcvBalance r)"
        by (simp add: set_balance_def balance_after_def)
    next
      fix r assume "r \<in> set (receivables s)" "in_claim c ref s r"
        "\<not> (rls_tenant c (rcvTenant r) \<and> rcvId r \<in> fst ` set us)"
      then have "map_of us (rcvId r) = None" by (auto simp: map_of_eq_None_iff in_claim_def)
      then show "balance_after us (rcvId r, rcvBalance r) = rcvBalance r" by (simp add: balance_after_def)
    qed
    also have "sum_list (map (\<lambda>r. balance_after us (rcvId r, rcvBalance r)) (filter (in_claim c ref s) (receivables s)))
        = ?cl - min rm ?cl"
      using after by (simp add: assms(2) claim_lines_of_eq sum_list_sort_key)
    finally have tot: "total_balance (update_receivables c (\<lambda>r. rcvId r \<in> fst ` set us)
        (\<lambda>r. set_balance (the (map_of us (rcvId r))) r) s2) = total_balance s - min rm ?cl"
      by simp
    have row: "in_claim c ref s r \<and> rcv_write r (set_balance (the (map_of us (rcvId r))) r)
        \<and> rcv_ok (set_balance (the (map_of us (rcvId r))) r)"
      if "r \<in> set (receivables s)" "rls_tenant c (rcvTenant r)" "rcvId r \<in> fst ` set us" for r
      using upd [OF that] numeric_fits_less [of "the (map_of us (rcvId r))" "rcvBalance r"]
      by (simp add: set_balance_def rcv_write_def rcv_ok_def terminal_iff claimable_iff)
    show ?thesis
      by (rule that [OF eq _ _ tot]) (use row in \<open>simp_all add: set_balance_def\<close>)
  qed
qed

lemma mark_reconciled_frame: "settle_frame c s (mark_reconciled c ref s)"
  unfolding settle_frame_def mark_reconciled_def
  by (auto intro!: table_extends_refl table_extends_update_where simp: claim_evolves_def)

lemma mark_reconciled_inv: "settle_inv s \<Longrightarrow> settle_inv (mark_reconciled c ref s)"
  unfolding mark_reconciled_def by (rule settle_inv_claims_update) simp_all

lemma mark_reconciled_receivables [simp]: "receivables (mark_reconciled c ref s) = receivables s"
  by (simp add: mark_reconciled_def)

lemma total_balance_receivables: "receivables s = receivables s' \<Longrightarrow> total_balance s = total_balance s'"
  by (simp add: total_balance_def)

lemma reconcileRemittance_work_inv:
  assumes "reconcileRemittance_work t ids inp c s = Returns res s'" and "settle_inv s"
    and "MONEY_RE (riAmount inp)"
  shows "settle_inv s' \<and> settle_frame c s s'"
  using assms
proof (cases rule: reconcileRemittance_work_cases)
  case unchanged
  with assms(2) show ?thesis by (simp add: settle_frame_refl)
next
  case (reconciled k rm s1 s2 lines cl)
  have inv2: "settle_inv s2"
    using settle_inv_insert_result [OF settle_inv_insert_remittance [OF assms(2) reconciled(11)] reconciled(12)] .
  have f2: "settle_frame c s s2"
    using settle_frame_insert(5) [OF reconciled(11)] settle_frame_insert(6) [OF reconciled(12)]
    by (rule settle_frame_trans)
  have r2: "receivables s2 = receivables s"
    using reconciled(11,12) by (auto simp: insert_remittance_Inr insert_result_Inr)
  obtain p f where upd:
    "apply_remittance c (outcome_of (claimed_total c (riClaim inp) s) rm) rm lines s2 = update_receivables c p f s2"
    "\<forall>r \<in> set (receivables s). rls_tenant c (rcvTenant r) \<longrightarrow> p r \<longrightarrow>
      in_claim c (riClaim inp) s r \<and> rcv_write r (f r) \<and> rcv_ok (f r)"
    "\<forall>r. rcvId (f r) = rcvId r \<and> rcvTenant (f r) = rcvTenant r"
    "total_balance (update_receivables c p f s2) = total_balance s - min rm (claimed_total c (riClaim inp) s)"
    by (rule apply_remittance_update [OF assms(2) reconciled(3,5,10) r2])
  have "settle_inv (update_receivables c p f s2)"
    using inv2 by (rule settle_inv_update) (use upd(2,3) r2 in auto)
  moreover have "settle_frame c s2 (update_receivables c p f s2)"
    by (rule settle_frame_update) (use upd(2) r2 in auto)
  ultimately have "settle_inv (update_receivables c p f s2) \<and> settle_frame c s (update_receivables c p f s2)"
    using settle_frame_trans [OF f2] by simp
  then show ?thesis
    unfolding reconciled(13,6) upd(1)
    using mark_reconciled_inv settle_frame_trans [OF _ mark_reconciled_frame] by simp
qed

text \<open>
  A remittance takes from the receivables exactly what was remitted, up to what was claimed.
\<close>

lemma reconcileRemittance_total:
  assumes "reconcileRemittance_work t ids inp c s = Returns (Reconciled_ok b) s'" and "settle_inv s"
    and "MONEY_RE (riAmount inp)"
  obtains rm where "toScaledInt (riAmount inp) = Some rm"
    "total_balance s' = total_balance s - min rm (claimed_total c (riClaim inp) s)"
  using assms
proof (cases rule: reconcileRemittance_work_cases)
  case unchanged
  then show ?thesis by simp
next
  case (reconciled k rm s1 s2 lines cl)
  have r2: "receivables s2 = receivables s"
    using reconciled(11,12) by (auto simp: insert_remittance_Inr insert_result_Inr)
  obtain p f where upd:
    "apply_remittance c (outcome_of (claimed_total c (riClaim inp) s) rm) rm lines s2 = update_receivables c p f s2"
    "\<forall>r \<in> set (receivables s). rls_tenant c (rcvTenant r) \<longrightarrow> p r \<longrightarrow>
      in_claim c (riClaim inp) s r \<and> rcv_write r (f r) \<and> rcv_ok (f r)"
    "\<forall>r. rcvId (f r) = rcvId r \<and> rcvTenant (f r) = rcvTenant r"
    "total_balance (update_receivables c p f s2) = total_balance s - min rm (claimed_total c (riClaim inp) s)"
    by (rule apply_remittance_update [OF assms(2) reconciled(3,5,10) r2])
  have "total_balance s' = total_balance (update_receivables c p f s2)"
    unfolding reconciled(13,6) upd(1) by (rule total_balance_receivables) simp
  with upd(4) reconciled(9) that show ?thesis by simp
qed

lemma applyPayment_total:
  assumes "applyPayment_work t ids inp c s = Returns (Applied row) s'" and "settle_inv s"
    and "MONEY_RE (apAmount inp)"
  obtains a where "toScaledInt (apAmount inp) = Some a" "0 < a"
    "total_balance s' = total_balance s - a"
    "\<exists>x. applications s' = applications s @ [x] \<and> appAmount x = a \<and> appReceivable x = apRef inp"
  using assms
proof (cases rule: applyPayment_work_cases)
  case unchanged
  then show ?thesis by simp
next
  case (applied r a)
  let ?f = "paid_row (rcvBalance r - a) (if a = rcvBalance r then Settled else Partially_applied)"
  have r: "r \<in> set (receivables s)" "rls_tenant c (rcvTenant r)" "rcvId r = apRef inp"
    using find_receivable_SomeD [OF applied(1)] by simp_all
  have rs: "receivables (s\<lparr>applications := applications s @ [application_row t ids inp r a]\<rparr>) = receivables s"
    by simp
  have "total_balance s' = total_balance s + (sum_list (map (\<lambda>x. rcvBalance x - a) (filter (\<lambda>x. rcvId x = apRef inp) (receivables s)))
      - sum_list (map rcvBalance (filter (\<lambda>x. rcvId x = apRef inp) (receivables s))))"
    unfolding total_balance_def applied(8) update_receivables_select rs
    by (rule sum_list_update_where)
      (use settle_inv_unique [OF assms(2) r(1)] r applied(2) in \<open>auto simp: paid_row_def\<close>)
  moreover have "filter (\<lambda>x. rcvId x = apRef inp) (receivables s) = [r]"
    using assms(2) r(1,3) unfolding settle_inv_def by (intro filter_key_unique) auto
  ultimately have "total_balance s' = total_balance s - a" by simp
  with applied that show ?thesis by (simp add: application_row_def)
qed

end
