(* ===== verification/Http.thy ===== *)
theory Http
  imports Tenancy
begin

text \<open>
  The HTTP boundary: what a handler throws, and the response the global exception filter
  (apps/api/src/common/exception.filter.ts) makes of it; the request context the guards resolve.
\<close>

section \<open>The request context\<close>

record resolved_context =
  rcUser :: "uuid option"
  rcTenant :: "uuid option"
  rcStore :: "uuid option"
  rcPlatformAdmin :: bool

text \<open>A request after the guards: its context is absent until one of them resolves it.\<close>

type_synonym request_context = "resolved_context option"

section \<open>Errors and responses\<close>

datatype thrown =
    Zod_error
  | Http_exception nat "string option"
  | Unhandled exn

datatype 'b response = Response_ok nat 'b | Response_error nat string

definition statusToCode :: "nat \<Rightarrow> string" where
  "statusToCode status =
     (if status = 400 then ''validation_error''
      else if status = 401 then ''unauthorized''
      else if status = 403 then ''forbidden''
      else if status = 404 then ''not_found''
      else if status = 409 then ''conflict''
      else if status = 429 then ''rate_limited''
      else ''internal_error'')"

record error_metrics =
  validationFailures :: nat
  http4xx :: nat
  http5xx :: nat

text \<open>
  \<open>GlobalExceptionFilter.catch\<close>: nothing when the headers were already sent; otherwise one
  response, and the counters it bumps.
\<close>

definition exception_filter ::
    "bool \<Rightarrow> thrown \<Rightarrow> error_metrics \<Rightarrow> 'b response option \<times> error_metrics" where
  "exception_filter headersSent ex m =
     (if headersSent then (None, m)
      else case ex of
        Zod_error \<Rightarrow>
          (Some (Response_error 400 ''validation_error''),
           m\<lparr>validationFailures := validationFailures m + 1, http4xx := http4xx m + 1\<rparr>)
      | Http_exception status userCode \<Rightarrow>
          (Some (Response_error status (case userCode of Some c \<Rightarrow> c | None \<Rightarrow> statusToCode status)),
           (if status \<ge> 500 then m\<lparr>http5xx := http5xx m + 1\<rparr>
            else if status \<ge> 400 then m\<lparr>http4xx := http4xx m + 1\<rparr> else m))
      | Unhandled _ \<Rightarrow>
          (Some (Response_error 500 ''internal_error''), m\<lparr>http5xx := http5xx m + 1\<rparr>))"

text \<open>The response of a handler that has not written one itself.\<close>

definition respond :: "nat \<Rightarrow> thrown + 'b \<Rightarrow> 'b response" where
  "respond status r =
     (case r of
        Inr b \<Rightarrow> Response_ok status b
      | Inl ex \<Rightarrow>
          (case fst (exception_filter False ex \<lparr>validationFailures = 0, http4xx = 0, http5xx = 0\<rparr>) of
             Some x \<Rightarrow> x
           | None \<Rightarrow> Response_error 500 ''internal_error''))"

lemma respond_simps [simp]:
  "respond st (Inr b) = Response_ok st b"
  "respond st (Inl Zod_error) = Response_error 400 ''validation_error''"
  "respond st (Inl (Unhandled e)) = Response_error 500 ''internal_error''"
  "respond st (Inl (Http_exception n c)) =
     Response_error n (case c of Some x \<Rightarrow> x | None \<Rightarrow> statusToCode n)"
  by (simp_all add: respond_def exception_filter_def)

lemma respond_Inl_not_ok [simp]: "respond st (Inl x) \<noteq> Response_ok n b"
  by (cases x) simp_all

lemma respond_Inl_case [simp]:
  "(case respond st (Inl x) of Response_ok n b \<Rightarrow> f n b | Response_error n c \<Rightarrow> q) = q"
  by (cases x) simp_all

end
