(* ===== verification/SettlementHttp.thy ===== *)
theory SettlementHttp
  imports SettlementFacts Http
begin

text \<open>
  The routes of \<open>SettlementController\<close> with the Zod schemas of their bodies: what each route
  answers for each result of the services, and the machine whose steps are the write routes.
\<close>

section \<open>Request bodies\<close>

record intent_body =
  ibSale :: uuid
  ibCash :: "string option"
  ibPayers :: "intent_payer list"

definition SettlementIntentPayerSchema :: "intent_payer \<Rightarrow> bool" where
  "SettlementIntentPayerSchema p \<longleftrightarrow> MONEY_RE (inOwedAmount p) \<and> Number_positive (inOwedAmount p)"

definition SettlementIntentCreateSchema :: "intent_body \<Rightarrow> bool" where
  "SettlementIntentCreateSchema b \<longleftrightarrow>
     (case ibCash b of None \<Rightarrow> True | Some m \<Rightarrow> MONEY_RE m) \<and>
     1 \<le> length (ibPayers b) \<and> length (ibPayers b) \<le> 16 \<and>
     list_all SettlementIntentPayerSchema (ibPayers b)"

record payment_body =
  pbAmount :: string
  pbVersion :: nat
  pbNote :: "string option"

definition ApplyPaymentRequestSchema :: "payment_body \<Rightarrow> bool" where
  "ApplyPaymentRequestSchema b \<longleftrightarrow>
     MONEY_RE (pbAmount b) \<and> Number_positive (pbAmount b) \<and>
     (case pbNote b of None \<Rightarrow> True | Some n \<Rightarrow> length n \<le> 500)"

definition ClaimCreateSchema :: "submit_claim_input \<Rightarrow> bool" where
  "ClaimCreateSchema b \<longleftrightarrow> 1 \<le> length (scRefs b) \<and> length (scRefs b) \<le> 500"

record remittance_body =
  mbAmount :: string
  mbRef :: "string option"

definition RemittanceReconcileSchema :: "remittance_body \<Rightarrow> bool" where
  "RemittanceReconcileSchema b \<longleftrightarrow>
     MONEY_RE (mbAmount b) \<and> (case mbRef b of None \<Rightarrow> True | Some r \<Rightarrow> length r \<le> 255)"

record list_query =
  lqStore :: "uuid option"
  lqState :: "receivable_state option"
  lqPayer :: "uuid option"
  lqCursor :: "uuid option"
  lqPageSize :: "int option"

definition ReceivableListQuerySchema :: "list_query \<Rightarrow> bool" where
  "ReceivableListQuerySchema q \<longleftrightarrow>
     (case lqPageSize q of None \<Rightarrow> True | Some n \<Rightarrow> 1 \<le> n \<and> n \<le> 200)"

section \<open>Context helpers\<close>

definition requirePosContext :: "request_context \<Rightarrow> thrown + (uuid \<times> uuid)" where
  "requirePosContext req =
     (case req of
        None \<Rightarrow> Inl (Http_exception 401 None)
      | Some c \<Rightarrow>
          (case (rcTenant c, rcStore c) of
             (Some t, Some s) \<Rightarrow> Inr (t, s)
           | _ \<Rightarrow> Inl (Http_exception 401 None)))"

definition requireTenant :: "request_context \<Rightarrow> thrown + uuid" where
  "requireTenant req =
     (case req of
        None \<Rightarrow> Inl (Http_exception 401 None)
      | Some c \<Rightarrow> (case rcTenant c of Some t \<Rightarrow> Inr t | None \<Rightarrow> Inl (Http_exception 401 None)))"

text \<open>A path reference is the UUID it parses to, or nothing when it is malformed.\<close>

definition assertUuid :: "uuid option \<Rightarrow> thrown + uuid" where
  "assertUuid ref = (case ref of Some r \<Rightarrow> Inr r | None \<Rightarrow> Inl (Http_exception 400 (Some ''validation_error'')))"

section \<open>Routes\<close>

definition recordIntent ::
    "request_context \<Rightarrow> id_source \<Rightarrow> intent_body \<Rightarrow> settle_svc
     \<Rightarrow> (uuid \<times> receivable_body list) response \<times> settle_svc" where
  "recordIntent req ids body s =
     (if \<not> SettlementIntentCreateSchema body then (respond 201 (Inl Zod_error), s)
      else case requirePosContext req of
        Inl e \<Rightarrow> (respond 201 (Inl e), s)
      | Inr (t, store) \<Rightarrow>
          (case openFromIntent t ids \<lparr>oiStore = store, oiSale = ibSale body, oiPayers = ibPayers body\<rparr> s of
             (Inl e, s') \<Rightarrow> (respond 201 (Inl (Unhandled e)), s')
           | (Inr Open_conflict, s') \<Rightarrow> (respond 201 (Inl (Http_exception 409 (Some ''conflict''))), s')
           | (Inr (Opened rows), s') \<Rightarrow> (respond 201 (Inr (ibSale body, map toReceivable rows)), s')))"

definition getReceivable ::
    "request_context \<Rightarrow> uuid option \<Rightarrow> settle_db \<Rightarrow> receivable_body response" where
  "getReceivable req ref d =
     (case requireTenant req of
        Inl e \<Rightarrow> respond 200 (Inl e)
      | Inr t \<Rightarrow>
          (case assertUuid ref of
             Inl e \<Rightarrow> respond 200 (Inl e)
           | Inr r \<Rightarrow>
               (case getOne t r d of
                  Get_not_found \<Rightarrow> respond 200 (Inl (Http_exception 404 (Some ''not_found'')))
                | Got row \<Rightarrow> respond 200 (Inr (toReceivable row)))))"

definition listReceivables ::
    "request_context \<Rightarrow> list_query \<Rightarrow> settle_db \<Rightarrow> (receivable_body list \<times> uuid option) response" where
  "listReceivables req q d =
     (if \<not> ReceivableListQuerySchema q then respond 200 (Inl Zod_error)
      else case requireTenant req of
        Inl e \<Rightarrow> respond 200 (Inl e)
      | Inr t \<Rightarrow>
          (if \<not> storeInScope t (lqStore q) d then respond 200 (Inl (Http_exception 404 (Some ''not_found'')))
           else if \<not> payerRefInScope t (lqPayer q) d
             then respond 200 (Inl (Http_exception 404 (Some ''not_found'')))
           else
             (case list_receivables \<lparr>lfTenant = t, lfStore = lqStore q, lfState = lqState q, lfPayer = lqPayer q\<rparr>
                     d (case lqPageSize q of None \<Rightarrow> 50 | Some n \<Rightarrow> n) (lqCursor q) of
                (items, nxt) \<Rightarrow> respond 200 (Inr (map toReceivable items, nxt)))))"

definition applyPayment_route ::
    "request_context \<Rightarrow> id_source \<Rightarrow> uuid option \<Rightarrow> payment_body \<Rightarrow> settle_svc
     \<Rightarrow> receivable_body response \<times> settle_svc" where
  "applyPayment_route req ids ref body s =
     (if \<not> ApplyPaymentRequestSchema body then (respond 200 (Inl Zod_error), s)
      else case requireTenant req of
        Inl e \<Rightarrow> (respond 200 (Inl e), s)
      | Inr t \<Rightarrow>
          (case assertUuid ref of
             Inl e \<Rightarrow> (respond 200 (Inl e), s)
           | Inr r \<Rightarrow>
               (case applyPayment t ids \<lparr>apRef = r, apAmount = pbAmount body, apVersion = pbVersion body,
                                         apNote = pbNote body\<rparr> s of
                  (Inl e, s') \<Rightarrow> (respond 200 (Inl (Unhandled e)), s')
                | (Inr Apply_conflict, s') \<Rightarrow> (respond 200 (Inl (Http_exception 409 (Some ''conflict''))), s')
                | (Inr Apply_not_found, s') \<Rightarrow> (respond 200 (Inl (Http_exception 404 (Some ''not_found''))), s')
                | (Inr (Applied row), s') \<Rightarrow> (respond 200 (Inr (toReceivable row)), s'))))"

definition submitClaim_route ::
    "request_context \<Rightarrow> id_source \<Rightarrow> submit_claim_input \<Rightarrow> settle_svc \<Rightarrow> claim_body response \<times> settle_svc" where
  "submitClaim_route req ids body s =
     (if \<not> ClaimCreateSchema body then (respond 201 (Inl Zod_error), s)
      else case requireTenant req of
        Inl e \<Rightarrow> (respond 201 (Inl e), s)
      | Inr t \<Rightarrow>
          (case submitClaim t ids body s of
             (Inl e, s') \<Rightarrow> (respond 201 (Inl (Unhandled e)), s')
           | (Inr Claim_conflict, s') \<Rightarrow> (respond 201 (Inl (Http_exception 409 (Some ''conflict''))), s')
           | (Inr Claim_not_found, s') \<Rightarrow> (respond 201 (Inl (Http_exception 404 (Some ''not_found''))), s')
           | (Inr (Claim_submitted b), s') \<Rightarrow> (respond 201 (Inr b), s')))"

definition reconcileRemittance_route ::
    "request_context \<Rightarrow> id_source \<Rightarrow> uuid option \<Rightarrow> remittance_body \<Rightarrow> settle_svc
     \<Rightarrow> reconcile_body response \<times> settle_svc" where
  "reconcileRemittance_route req ids ref body s =
     (if \<not> RemittanceReconcileSchema body then (respond 200 (Inl Zod_error), s)
      else case requireTenant req of
        Inl e \<Rightarrow> (respond 200 (Inl e), s)
      | Inr t \<Rightarrow>
          (case assertUuid ref of
             Inl e \<Rightarrow> (respond 200 (Inl e), s)
           | Inr r \<Rightarrow>
               (case reconcileRemittance t ids \<lparr>riClaim = r, riAmount = mbAmount body, riRef = mbRef body\<rparr> s of
                  (Inl e, s') \<Rightarrow> (respond 200 (Inl (Unhandled e)), s')
                | (Inr Reconcile_conflict, s') \<Rightarrow> (respond 200 (Inl (Http_exception 409 (Some ''conflict''))), s')
                | (Inr Reconcile_not_found, s') \<Rightarrow> (respond 200 (Inl (Http_exception 404 (Some ''not_found''))), s')
                | (Inr (Reconciled_ok b), s') \<Rightarrow> (respond 200 (Inr b), s'))))"

section \<open>The machine of the write routes\<close>

datatype settle_op =
    Post_intent request_context id_source intent_body
  | Post_payment request_context id_source "uuid option" payment_body
  | Post_claim request_context id_source submit_claim_input
  | Post_remittance request_context id_source "uuid option" remittance_body

fun settle_step :: "settle_op \<Rightarrow> settle_svc \<Rightarrow> settle_svc" where
  "settle_step (Post_intent req ids b) s = snd (recordIntent req ids b s)"
| "settle_step (Post_payment req ids ref b) s = snd (applyPayment_route req ids ref b s)"
| "settle_step (Post_claim req ids b) s = snd (submitClaim_route req ids b s)"
| "settle_step (Post_remittance req ids ref b) s = snd (reconcileRemittance_route req ids ref b s)"

fun settle_run :: "settle_op list \<Rightarrow> settle_svc \<Rightarrow> settle_svc" where
  "settle_run [] s = s"
| "settle_run (op # ops) s = settle_run ops (settle_step op s)"

fun op_context :: "settle_op \<Rightarrow> request_context" where
  "op_context (Post_intent req ids b) = req"
| "op_context (Post_payment req ids ref b) = req"
| "op_context (Post_claim req ids b) = req"
| "op_context (Post_remittance req ids ref b) = req"

definition op_tenant :: "settle_op \<Rightarrow> uuid option" where
  "op_tenant op = (case op_context op of None \<Rightarrow> None | Some c \<Rightarrow> rcTenant c)"

section \<open>The services meet the contract of a unit of work\<close>

interpretation open_work: tenant_work "openFromIntent_work t ids inp"
  "\<lambda>c. list_all payer_valid (oiPayers inp)" settle_inv settle_frame for t ids inp
  by unfold_locales (auto dest: openFromIntent_work_inv simp: settle_frame_refl)

interpretation apply_work: tenant_work "applyPayment_work t ids inp"
  "\<lambda>c. MONEY_RE (apAmount inp)" settle_inv settle_frame for t ids inp
  by unfold_locales (auto dest: applyPayment_work_inv simp: settle_frame_refl)

interpretation claim_work: tenant_work "submitClaim_work t ids inp"
  "\<lambda>c. True" settle_inv settle_frame for t ids inp
  by unfold_locales (auto dest: submitClaim_work_inv simp: settle_frame_refl)

interpretation reconcile_work: tenant_work "reconcileRemittance_work t ids inp"
  "\<lambda>c. MONEY_RE (riAmount inp)" settle_inv settle_frame for t ids inp
  by unfold_locales (auto dest: reconcileRemittance_work_inv simp: settle_frame_refl)

lemma with_signal_db: "svcDb (snd (with_signal ok run s)) = snd (run (svcDb s))"
  by (auto simp: with_signal_def split: prod.splits sum.splits)

lemma payer_schema: "SettlementIntentPayerSchema = payer_valid"
  by (simp add: fun_eq_iff SettlementIntentPayerSchema_def payer_valid_def)

lemma with_signal_work:
  "svcDb (snd (with_signal ok (runWithTenantContext c work) s)) = svcDb s \<or>
   (\<exists>a. work c (svcDb s) = Returns a (svcDb (snd (with_signal ok (runWithTenantContext c work) s))))"
  by (auto simp: with_signal_db runWithTenantContext_def split: work_end.splits)

text \<open>What each route does to the database: nothing, or one committed unit of work.\<close>

lemma recordIntent_db:
  "svcDb (snd (recordIntent req ids b s)) = svcDb s \<or>
   (\<exists>t st a. requirePosContext req = Inr (t, st) \<and> list_all payer_valid (ibPayers b) \<and>
      openFromIntent_work t ids \<lparr>oiStore = st, oiSale = ibSale b, oiPayers = ibPayers b\<rparr> (tenant_ctx t) (svcDb s)
        = Returns a (svcDb (snd (recordIntent req ids b s))))"
proof (cases "SettlementIntentCreateSchema b \<and> (\<exists>t st. requirePosContext req = Inr (t, st))")
  case False
  then show ?thesis by (auto simp: recordIntent_def split: sum.splits)
next
  case True
  then obtain t st where ctx: "requirePosContext req = Inr (t, st)" by blast
  let ?inp = "\<lparr>oiStore = st, oiSale = ibSale b, oiPayers = ibPayers b\<rparr>"
  have "svcDb (snd (recordIntent req ids b s)) = svcDb (snd (openFromIntent t ids ?inp s))"
    using True ctx by (auto simp: recordIntent_def split: prod.splits sum.splits open_result.splits)
  moreover have "list_all payer_valid (ibPayers b)"
    using True by (simp add: SettlementIntentCreateSchema_def payer_schema)
  ultimately show ?thesis
    using ctx with_signal_work [of _ "tenant_ctx t" "openFromIntent_work t ids ?inp" s] by (auto simp: openFromIntent_def)
qed

lemma applyPayment_route_db:
  "svcDb (snd (applyPayment_route req ids ref b s)) = svcDb s \<or>
   (\<exists>t r a. requireTenant req = Inr t \<and> ref = Some r \<and> MONEY_RE (pbAmount b) \<and>
      applyPayment_work t ids \<lparr>apRef = r, apAmount = pbAmount b, apVersion = pbVersion b, apNote = pbNote b\<rparr>
        (tenant_ctx t) (svcDb s) = Returns a (svcDb (snd (applyPayment_route req ids ref b s))))"
proof (cases "ApplyPaymentRequestSchema b \<and> (\<exists>t r. requireTenant req = Inr t \<and> ref = Some r)")
  case False
  then show ?thesis by (auto simp: applyPayment_route_def assertUuid_def split: sum.splits option.splits)
next
  case True
  then obtain t r where ctx: "requireTenant req = Inr t" "ref = Some r" by blast
  let ?inp = "\<lparr>apRef = r, apAmount = pbAmount b, apVersion = pbVersion b, apNote = pbNote b\<rparr>"
  have "svcDb (snd (applyPayment_route req ids ref b s)) = svcDb (snd (applyPayment t ids ?inp s))"
    using True ctx
    by (auto simp: applyPayment_route_def assertUuid_def split: prod.splits sum.splits apply_result.splits)
  moreover have "MONEY_RE (pbAmount b)" using True by (simp add: ApplyPaymentRequestSchema_def)
  ultimately show ?thesis
    using ctx with_signal_work [of _ "tenant_ctx t" "applyPayment_work t ids ?inp" s] by (auto simp: applyPayment_def)
qed

lemma submitClaim_route_db:
  "svcDb (snd (submitClaim_route req ids b s)) = svcDb s \<or>
   (\<exists>t a. requireTenant req = Inr t \<and>
      submitClaim_work t ids b (tenant_ctx t) (svcDb s) = Returns a (svcDb (snd (submitClaim_route req ids b s))))"
proof (cases "ClaimCreateSchema b \<and> (\<exists>t. requireTenant req = Inr t)")
  case False
  then show ?thesis by (auto simp: submitClaim_route_def split: sum.splits)
next
  case True
  then obtain t where ctx: "requireTenant req = Inr t" by blast
  have "svcDb (snd (submitClaim_route req ids b s)) = svcDb (snd (submitClaim t ids b s))"
    using True ctx by (auto simp: submitClaim_route_def split: prod.splits sum.splits submit_result.splits)
  then show ?thesis
    using ctx with_signal_work [of _ "tenant_ctx t" "submitClaim_work t ids b" s] by (auto simp: submitClaim_def)
qed

lemma reconcileRemittance_route_db:
  "svcDb (snd (reconcileRemittance_route req ids ref b s)) = svcDb s \<or>
   (\<exists>t r a. requireTenant req = Inr t \<and> ref = Some r \<and> MONEY_RE (mbAmount b) \<and>
      reconcileRemittance_work t ids \<lparr>riClaim = r, riAmount = mbAmount b, riRef = mbRef b\<rparr>
        (tenant_ctx t) (svcDb s) = Returns a (svcDb (snd (reconcileRemittance_route req ids ref b s))))"
proof (cases "RemittanceReconcileSchema b \<and> (\<exists>t r. requireTenant req = Inr t \<and> ref = Some r)")
  case False
  then show ?thesis by (auto simp: reconcileRemittance_route_def assertUuid_def split: sum.splits option.splits)
next
  case True
  then obtain t r where ctx: "requireTenant req = Inr t" "ref = Some r" by blast
  let ?inp = "\<lparr>riClaim = r, riAmount = mbAmount b, riRef = mbRef b\<rparr>"
  have "svcDb (snd (reconcileRemittance_route req ids ref b s)) = svcDb (snd (reconcileRemittance t ids ?inp s))"
    using True ctx
    by (auto simp: reconcileRemittance_route_def assertUuid_def split: prod.splits sum.splits reconcile_result.splits)
  moreover have "MONEY_RE (mbAmount b)" using True by (simp add: RemittanceReconcileSchema_def)
  ultimately show ?thesis
    using ctx with_signal_work [of _ "tenant_ctx t" "reconcileRemittance_work t ids ?inp" s]
    by (auto simp: reconcileRemittance_def)
qed

lemma op_tenant_Inr:
  "requirePosContext (op_context op) = Inr (t, st) \<Longrightarrow> op_tenant op = Some t"
  "requireTenant (op_context op) = Inr t \<Longrightarrow> op_tenant op = Some t"
  by (auto simp: op_tenant_def requirePosContext_def requireTenant_def split: option.splits)

text \<open>What one request does to the database: nothing, or one committed unit of work of its tenant.\<close>

lemma settle_step_db:
  assumes "settle_inv (svcDb s)"
  shows "svcDb (settle_step op s) = svcDb s \<or>
    (\<exists>t. op_tenant op = Some t \<and> settle_inv (svcDb (settle_step op s)) \<and>
         settle_frame (tenant_ctx t) (svcDb s) (svcDb (settle_step op s)))"
proof (cases op)
  case (Post_intent req ids b)
  show ?thesis
    using recordIntent_db [of req ids b s]
  proof (elim disjE exE conjE, goal_cases)
    case 1
    with Post_intent show ?case by simp
  next
    case (2 t st a)
    have "op_tenant op = Some t" using op_tenant_Inr(1) [of op t st] 2(1) Post_intent by simp
    with open_work.work_inv [OF _ assms 2(3)] open_work.work_frame [OF _ assms 2(3)] 2(2) Post_intent
    show ?case by simp
  qed
next
  case (Post_payment req ids ref b)
  show ?thesis
    using applyPayment_route_db [of req ids ref b s]
  proof (elim disjE exE conjE, goal_cases)
    case 1
    with Post_payment show ?case by simp
  next
    case (2 t r a)
    have "op_tenant op = Some t" using op_tenant_Inr(2) [of op t] 2(1) Post_payment by simp
    with apply_work.work_inv [OF _ assms 2(4)] apply_work.work_frame [OF _ assms 2(4)] 2(3) Post_payment
    show ?case by simp
  qed
next
  case (Post_claim req ids b)
  show ?thesis
    using submitClaim_route_db [of req ids b s]
  proof (elim disjE exE conjE, goal_cases)
    case 1
    with Post_claim show ?case by simp
  next
    case (2 t a)
    have "op_tenant op = Some t" using op_tenant_Inr(2) [of op t] 2(1) Post_claim by simp
    with claim_work.work_inv [OF _ assms 2(2)] claim_work.work_frame [OF _ assms 2(2)] 2(1) Post_claim
    show ?case by simp
  qed
next
  case (Post_remittance req ids ref b)
  show ?thesis
    using reconcileRemittance_route_db [of req ids ref b s]
  proof (elim disjE exE conjE, goal_cases)
    case 1
    with Post_remittance show ?case by simp
  next
    case (2 t r a)
    have "op_tenant op = Some t" using op_tenant_Inr(2) [of op t] 2(1) Post_remittance by simp
    with reconcile_work.work_inv [OF _ assms 2(4)] reconcile_work.work_frame [OF _ assms 2(4)] 2(3) Post_remittance
    show ?case by simp
  qed
qed

end
