(* ===== verification/SettlementProps.thy ===== *)
theory SettlementProps
  imports SettlementHttp
begin

text \<open>
  What the settlement component guarantees, over single operations and over arbitrary sequences of
  requests: the table invariant, tenant isolation, the receivable life cycle, the books (no money
  is created or lost), optimistic locking, non-disclosure of other tenants' rows and the complete
  paged listing.
\<close>

section \<open>Sequences of requests\<close>

text \<open>A receivable's history is a sequence of writes that follow the transition table.\<close>

interpretation rcv_life: lifecycle canTransition isTerminalState rcvState rcv_write
  by unfold_locales (auto simp: canTransition_def isTerminalState_def rcv_write_def)

lemma rcv_evolves_writes: "rcv_evolves c r r' \<Longrightarrow> rcv_write\<^sup>*\<^sup>* r r'"
  unfolding rcv_evolves_def by (rule rtranclp_mono [THEN predicate2D, rotated]) auto

text \<open>What a whole run does to the tables, the tenants of its requests being those of \<open>ts\<close>.\<close>

definition tenant_view ::
    "uuid \<Rightarrow> settle_db \<Rightarrow> receivable list \<times> claim_rec list \<times> payment_application list \<times>
       claim_receivable list \<times> remittance list \<times> reconciliation_result list" where
  "tenant_view t s =
     (filter (\<lambda>r. rcvTenant r = t) (receivables s), filter (\<lambda>k. clmTenant k = t) (claims s),
      filter (\<lambda>a. appTenant a = t) (applications s), filter (\<lambda>l. lineTenant l = t) (claimLines s),
      filter (\<lambda>m. remTenant m = t) (remittances s), filter (\<lambda>x. resTenant x = t) (results s))"

lemma filter_other_tenant:
  assumes "table_extends rel (\<lambda>x. rls_tenant (tenant_ctx t) (ten x)) xs ys" and "t' \<noteq> t"
    and "\<And>x y. rel x y \<Longrightarrow> ten y = ten x \<and> (ten x \<noteq> t \<longrightarrow> y = x)"
  shows "filter (\<lambda>x. ten x = t') ys = filter (\<lambda>x. ten x = t') xs"
  using assms(1) by (rule table_extends_filter) (use assms(2,3) in fastforce)+

lemma settle_frame_view:
  assumes "settle_frame (tenant_ctx t) s s'" and "t' \<noteq> t"
  shows "tenant_view t' s' = tenant_view t' s"
proof -
  have r: "rcvTenant y = rcvTenant x \<and> (rcvTenant x \<noteq> t \<longrightarrow> y = x)" if "rcv_evolves (tenant_ctx t) x y" for x y
    using rcv_evolves_keeps [OF that] rcv_evolves_other [OF that] by simp
  have k: "clmTenant y = clmTenant x \<and> (clmTenant x \<noteq> t \<longrightarrow> y = x)" if "claim_evolves (tenant_ctx t) x y" for x y
    using that by (auto simp: claim_evolves_def)
  have f: "table_extends (rcv_evolves (tenant_ctx t)) (\<lambda>r. rls_tenant (tenant_ctx t) (rcvTenant r)) (receivables s) (receivables s')"
    "table_extends (claim_evolves (tenant_ctx t)) (\<lambda>k. rls_tenant (tenant_ctx t) (clmTenant k)) (claims s) (claims s')"
    "table_extends (=) (\<lambda>a. rls_tenant (tenant_ctx t) (appTenant a)) (applications s) (applications s')"
    "table_extends (=) (\<lambda>l. rls_tenant (tenant_ctx t) (lineTenant l)) (claimLines s) (claimLines s')"
    "table_extends (=) (\<lambda>m. rls_tenant (tenant_ctx t) (remTenant m)) (remittances s) (remittances s')"
    "table_extends (=) (\<lambda>x. rls_tenant (tenant_ctx t) (resTenant x)) (results s) (results s')"
    using assms(1) unfolding settle_frame_def by blast+
  show ?thesis
    unfolding tenant_view_def
    using filter_other_tenant [OF f(1) assms(2) r] filter_other_tenant [OF f(2) assms(2) k]
      filter_other_tenant [OF f(3) assms(2)] filter_other_tenant [OF f(4) assms(2)]
      filter_other_tenant [OF f(5) assms(2)] filter_other_tenant [OF f(6) assms(2)]
    by simp
qed

lemma settle_step_inv: "settle_inv (svcDb s) \<Longrightarrow> settle_inv (svcDb (settle_step op s))"
  using settle_step_db [of s op] by auto

lemma settle_run_inv: "settle_inv (svcDb s) \<Longrightarrow> settle_inv (svcDb (settle_run ops s))"
  by (induction ops arbitrary: s) (simp_all add: settle_step_inv)

lemma settle_run_append: "settle_run (xs @ ys) s = settle_run ys (settle_run xs s)"
  by (induction xs arbitrary: s) simp_all

text \<open>The history of one row over a run.\<close>

lemma settle_frame_row:
  assumes "settle_frame c s s'" and "r \<in> set (receivables s)"
  shows "\<exists>r' \<in> set (receivables s'). rcv_evolves c r r'"
  using assms table_extends_rowD [of "rcv_evolves c"] unfolding settle_frame_def by blast

lemma settle_run_row:
  assumes "settle_inv (svcDb s)" and "r \<in> set (receivables (svcDb s))"
  shows "\<exists>r' \<in> set (receivables (svcDb (settle_run ops s))). rcv_write\<^sup>*\<^sup>* r r'"
  using assms
proof (induction ops arbitrary: s r)
  case Nil
  then show ?case by auto
next
  case (Cons op ops)
  obtain r1 where 1: "r1 \<in> set (receivables (svcDb (settle_step op s)))" "rcv_write\<^sup>*\<^sup>* r r1"
    using settle_step_db [OF Cons.prems(1), of op] Cons.prems(2)
    by (metis rcv_evolves_writes rtranclp.rtrancl_refl settle_frame_row)
  obtain r2 where "r2 \<in> set (receivables (svcDb (settle_run ops (settle_step op s))))" "rcv_write\<^sup>*\<^sup>* r1 r2"
    using Cons.IH [OF settle_step_inv [OF Cons.prems(1)] 1(1)] by blast
  with 1(2) show ?case by (auto intro: rtranclp_trans)
qed

lemma rcv_writes_keeps:
  "rcv_write\<^sup>*\<^sup>* r r' \<Longrightarrow> rcvId r' = rcvId r \<and> rcvTenant r' = rcvTenant r \<and> rcvStore r' = rcvStore r \<and>
     rcvSale r' = rcvSale r \<and> rcvPayer r' = rcvPayer r \<and>
     rcvBalance r' \<le> rcvBalance r \<and> rcvVersion r \<le> rcvVersion r'"
  by (induction rule: rtranclp_induct) (auto simp: rcv_write_def)

section \<open>The books\<close>

text \<open>
  Money owed plus money received: the balances, the payments applied, and what each remittance
  took (the lesser of remitted and claimed).
\<close>

definition books :: "settle_db \<Rightarrow> money" where
  "books s = total_balance s + sum_list (map appAmount (applications s))
     + sum_list (map (\<lambda>x. min (resRemitted x) (resClaimed x)) (results s))"

definition intent_total :: "intent_payer list \<Rightarrow> money" where
  "intent_total ps = sum_list (map (\<lambda>p. case pg_numeric_in (inOwedAmount p) of Inr v \<Rightarrow> v | Inl _ \<Rightarrow> 0) ps)"

lemma intent_rows_total:
  "list_all2 (\<lambda>p r. rcvPayer r = inPayerRef p \<and> pg_numeric_in (inOwedAmount p) = Inr (rcvBalance r) \<and> Q r) ps new
   \<Longrightarrow> sum_list (map rcvBalance new) = intent_total ps"
  by (induction rule: list_all2_induct) (simp_all add: intent_total_def)

lemma openFromIntent_work_books:
  assumes "openFromIntent_work t ids inp c s = Returns res s'"
  shows "books s' = books s + (case res of Opened _ \<Rightarrow> intent_total (oiPayers inp) | Open_conflict \<Rightarrow> 0)"
proof (cases "list_all (\<lambda>p. payerInScope c (inPayerRef p) (Some (oiStore inp)) s) (oiPayers inp)")
  case False
  with assms show ?thesis by (simp add: openFromIntent_work_def)
next
  case True
  with assms obtain rows where rows: "insert_intent_rows c t inp ids 0 (oiPayers inp) s = Inr (rows, s')"
    "res = Opened rows"
    by (auto simp: openFromIntent_work_def split: sum.splits if_splits)
  obtain new where new: "s' = s\<lparr>receivables := receivables s @ new\<rparr>"
    "list_all2 (\<lambda>p r. rcvPayer r = inPayerRef p \<and> pg_numeric_in (inOwedAmount p) = Inr (rcvBalance r) \<and>
       rcvTenant r = t \<and> rcvStore r = oiStore inp \<and> rcvSale r = oiSale inp \<and>
       rcvState r = Open \<and> rcvVersion r = 0) (oiPayers inp) new"
    using insert_intent_rows_spec [OF rows(1)] by blast
  show ?thesis
    using intent_rows_total [OF new(2)] rows(2) by (simp add: new(1) books_def total_balance_def)
qed

lemma applyPayment_work_books:
  assumes "applyPayment_work t ids inp c s = Returns res s'" and "settle_inv s"
    and "MONEY_RE (apAmount inp)"
  shows "books s' = books s"
  using assms
proof (cases rule: applyPayment_work_cases)
  case unchanged
  then show ?thesis by simp
next
  case (applied r a)
  from assms(1) obtain row where "applyPayment_work t ids inp c s = Returns (Applied row) s'"
    using applied by auto
  then obtain a' where "total_balance s' = total_balance s - a'"
    "\<exists>x. applications s' = applications s @ [x] \<and> appAmount x = a' \<and> appReceivable x = apRef inp"
    using assms(2,3) by (elim applyPayment_total) auto
  moreover have "results s' = results s" using applied by simp
  ultimately show ?thesis by (auto simp: books_def)
qed

lemma insert_claim_lines_books:
  "insert_claim_lines c t st k ids n refs s = Inr s' \<Longrightarrow> books s' = books s"
proof (induction refs arbitrary: n s)
  case (Cons r rs)
  then obtain s1 where "insert_claim_line c \<lparr>lineId = ids n, lineTenant = t, lineStore = st,
      lineClaim = k, lineReceivable = r\<rparr> s = Inr s1" "insert_claim_lines c t st k ids (Suc n) rs s1 = Inr s'"
    by (auto split: sum.splits)
  with Cons.IH [of "Suc n" s1] show ?case
    by (simp add: insert_Inr books_def total_balance_def)
qed simp

lemma submitClaim_work_books:
  assumes "submitClaim_work t ids inp c s = Returns res s'" and "settle_inv s"
  shows "books s' = books s"
  using assms(1)
proof (cases rule: submitClaim_work_cases)
  case unchanged
  then show ?thesis by simp
next
  case (submitted found refs store s1 s2)
  have s1: "books s1 = books s" "settle_inv s1"
    using submitted(6) settle_inv_insert_claim [OF assms(2) submitted(6)]
    by (simp_all add: insert_Inr books_def total_balance_def)
  have s2: "books s2 = books s1" using insert_claim_lines_books [OF submitted(7)] .
  have "books s' = books s2"
    unfolding submitted(8) books_def total_balance_def update_receivables_select
    by (simp add: map_update_where claimed_row_def)
  with s1 s2 show ?thesis by simp
qed

lemma reconcile_writes_books:
  assumes "insert_remittance c (remittance_row t ids inp k rm) s = Inr s1"
    and "insert_result c (result_row t ids inp k cl rm v oc) s1 = Inr s2"
    and "s' = mark_reconciled c ref (update_receivables c p f s2)"
    and "total_balance s' = total_balance s - min rm cl"
  shows "books s' = books s"
proof -
  have "applications s' = applications s" "results s' = results s @ [result_row t ids inp k cl rm v oc]"
    using assms(1,2) by (auto simp: assms(3) insert_Inr mark_reconciled_def)
  with assms(4) show ?thesis by (simp add: books_def result_row_def)
qed

lemma reconcileRemittance_work_books:
  assumes "reconcileRemittance_work t ids inp c s = Returns res s'" and "settle_inv s"
    and "MONEY_RE (riAmount inp)"
  shows "books s' = books s"
  using assms
proof (cases rule: reconcileRemittance_work_cases)
  case unchanged
  then show ?thesis by simp
next
  case (reconciled k rm s1 s2 lines cl)
  have "receivables s2 = receivables s"
    using reconciled(11,12) by (auto simp: insert_Inr)
  then obtain p f where upd: "apply_remittance c (outcome_of (claimed_total c (riClaim inp) s) rm) rm lines s2
      = update_receivables c p f s2"
    using apply_remittance_update [OF assms(2) reconciled(3,5,10)] by metis
  have "total_balance s' = total_balance s - min rm cl"
    using reconcileRemittance_total [OF assms(1) [unfolded reconciled(14)] assms(2,3)] reconciled(6,9)
    by (metis option.inject)
  with reconciled(6,11,12,13) upd show ?thesis
    by (intro reconcile_writes_books) simp_all
qed

section \<open>The books over requests\<close>

text \<open>What a request adds to the books: the total of an accepted intent, nothing otherwise.\<close>

definition opened_by :: "settle_op \<Rightarrow> settle_svc \<Rightarrow> money" where
  "opened_by op s =
     (case op of
        Post_intent req ids b \<Rightarrow>
          (case fst (recordIntent req ids b s) of
             Response_ok _ _ \<Rightarrow> intent_total (ibPayers b)
           | Response_error _ _ \<Rightarrow> 0)
      | _ \<Rightarrow> 0)"

fun opened_total :: "settle_op list \<Rightarrow> settle_svc \<Rightarrow> money" where
  "opened_total [] s = 0"
| "opened_total (op # ops) s = opened_by op s + opened_total ops (settle_step op s)"

lemma openFromIntent_end:
  "openFromIntent t ids inp s =
     (case openFromIntent_work t ids inp (tenant_ctx t) (svcDb s) of
        Returns r d \<Rightarrow> (Inr r, s\<lparr>svcDb := d, svcSignals := svcSignals s + (if r \<noteq> Open_conflict then 1 else 0)\<rparr>)
      | Returns_aborted r \<Rightarrow> (Inr r, s\<lparr>svcSignals := svcSignals s + (if r \<noteq> Open_conflict then 1 else 0)\<rparr>)
      | Throws e \<Rightarrow> (Inl e, s))"
  by (simp add: openFromIntent_def with_signal_def runWithTenantContext_def split: work_end.splits)

lemma openFromIntent_aborted:
  "openFromIntent_work t ids inp c s = Returns_aborted r \<Longrightarrow> r = Open_conflict"
  by (auto simp: openFromIntent_work_def split: if_splits sum.splits prod.splits)

lemma recordIntent_books:
  "books (svcDb (snd (recordIntent req ids b s)))
   = books (svcDb s) + opened_by (Post_intent req ids b) s"
proof (cases "SettlementIntentCreateSchema b \<and> (\<exists>t st. requirePosContext req = Inr (t, st))")
  case False
  then show ?thesis by (auto simp: opened_by_def recordIntent_def split: sum.splits)
next
  case True
  then obtain t st where ctx: "requirePosContext req = Inr (t, st)" by blast
  define inp where "inp = \<lparr>oiStore = st, oiSale = ibSale b, oiPayers = ibPayers b\<rparr>"
  have route: "recordIntent req ids b s = (case openFromIntent t ids inp s of
             (Inl e, s') \<Rightarrow> (respond 201 (Inl (Unhandled e)), s')
           | (Inr Open_conflict, s') \<Rightarrow> (respond 201 (Inl (Http_exception 409 (Some ''conflict''))), s')
           | (Inr (Opened rows), s') \<Rightarrow> (respond 201 (Inr (ibSale b, map toReceivable rows)), s'))"
    using True ctx by (simp add: recordIntent_def inp_def)
  show ?thesis
  proof (cases "openFromIntent_work t ids inp (tenant_ctx t) (svcDb s)")
    case (Returns r d)
    from openFromIntent_work_books [OF Returns] show ?thesis
      by (cases r) (simp_all add: opened_by_def route openFromIntent_end Returns, simp add: inp_def)
  next
    case (Returns_aborted r)
    with openFromIntent_aborted [OF Returns_aborted] show ?thesis
      by (simp add: opened_by_def route openFromIntent_end)
  next
    case (Throws e)
    then show ?thesis by (simp add: opened_by_def route openFromIntent_end)
  qed
qed

lemma settle_step_books:
  assumes "settle_inv (svcDb s)"
  shows "books (svcDb (settle_step op s)) = books (svcDb s) + opened_by op s"
proof (cases op)
  case (Post_intent req ids b)
  then show ?thesis by (simp add: recordIntent_books)
next
  case (Post_payment req ids ref b)
  have "books (svcDb (snd (applyPayment_route req ids ref b s))) = books (svcDb s)"
    using applyPayment_route_db [of req ids ref b s]
    by (elim disjE exE conjE) (simp_all add: applyPayment_work_books assms)
  with Post_payment show ?thesis by (simp add: opened_by_def)
next
  case (Post_claim req ids b)
  have "books (svcDb (snd (submitClaim_route req ids b s))) = books (svcDb s)"
    using submitClaim_route_db [of req ids b s]
    by (elim disjE exE conjE) (simp_all add: submitClaim_work_books assms)
  with Post_claim show ?thesis by (simp add: opened_by_def)
next
  case (Post_remittance req ids ref b)
  have "books (svcDb (snd (reconcileRemittance_route req ids ref b s))) = books (svcDb s)"
    using reconcileRemittance_route_db [of req ids ref b s]
    by (elim disjE exE conjE) (simp_all add: reconcileRemittance_work_books assms)
  with Post_remittance show ?thesis by (simp add: opened_by_def)
qed

section \<open>One payment, exactly\<close>

text \<open>
  The abstract payment, over integers: the reference the route is compared with. It has no
  strings, no transaction and no guarded update.
\<close>

definition payment_spec ::
    "uuid \<Rightarrow> id_source \<Rightarrow> uuid \<Rightarrow> payment_body \<Rightarrow> settle_svc \<Rightarrow> receivable_body response \<times> settle_svc" where
  "payment_spec t ids ref b s =
     (case find (\<lambda>r. rcvTenant r = t \<and> rcvId r = ref) (receivables (svcDb s)) of
        None \<Rightarrow> (Response_error 404 ''not_found'', s)
      | Some r \<Rightarrow>
          (let a = the (toScaledInt (pbAmount b)) in
           if rcvVersion r \<noteq> pbVersion b \<or> isTerminalState (rcvState r) \<or> rcvBalance r < a
           then (Response_error 409 ''conflict'', s)
           else
             let r' = paid_row (rcvBalance r - a) (if a = rcvBalance r then Settled else Partially_applied) r in
             (Response_ok 200 (toReceivable (toRow r')),
              s\<lparr>svcDb := (svcDb s)
                 \<lparr>receivables := map (\<lambda>x. if rcvId x = ref then r' else x) (receivables (svcDb s)),
                  applications := applications (svcDb s) @
                    [\<lparr>appId = ids 0, appTenant = t, appStore = rcvStore r, appReceivable = ref,
                      appAmount = a, appNote = pbNote b\<rparr>]\<rparr>,
               svcSignals := svcSignals s + 1\<rparr>)))"

lemma update_one_receivable:
  assumes "settle_inv s" and "r \<in> set (receivables s)" and "rls_tenant c (rcvTenant r)"
  shows "update_receivables c (\<lambda>x. rcvId x = rcvId r \<and> rcvVersion x = rcvVersion r) f s
    = s\<lparr>receivables := map (\<lambda>x. if rcvId x = rcvId r then f r else x) (receivables s)\<rparr>"
proof -
  have "(if rls_tenant c (rcvTenant x) \<and> rcvId x = rcvId r \<and> rcvVersion x = rcvVersion r then f x else x)
      = (if rcvId x = rcvId r then f r else x)" if "x \<in> set (receivables s)" for x
    using settle_inv_unique [OF assms(1,2) that] assms(3) by auto
  then show ?thesis by (simp add: update_receivables_def update_where_def)
qed

lemma applyPayment_work_ok:
  assumes inv: "settle_inv s" and r: "find_receivable (tenant_ctx t) (apRef inp) s = Some r"
    and a: "toScaledInt (apAmount inp) = Some a" "pg_numeric_in (apAmount inp) = Inr a" "0 < a"
    and fresh: "ids 0 \<notin> appId ` set (applications s)"
    and guard: "rcvVersion r = apVersion inp" "\<not> isTerminalState (rcvState r)" "a \<le> rcvBalance r"
  defines "st \<equiv> if a = rcvBalance r then Settled else Partially_applied"
  shows "applyPayment_work t ids inp (tenant_ctx t) s =
    Returns (Applied (toRow (paid_row (rcvBalance r - a) st r)))
      (s\<lparr>receivables := map (\<lambda>x. if rcvId x = apRef inp then paid_row (rcvBalance r - a) st r else x) (receivables s),
         applications := applications s @ [application_row t ids inp r a]\<rparr>)"
proof -
  have mem: "r \<in> set (receivables s)" "rcvTenant r = t" "rcvId r = apRef inp"
    using find_receivable_SomeD [OF r] by auto
  let ?s1 = "s\<lparr>applications := applications s @ [application_row t ids inp r a]\<rparr>"
  have ins: "insert_application (tenant_ctx t) (application_row t ids inp r a) s = Inr ?s1"
    using mem a fresh by (auto simp: insert_application_Inr application_row_def intro!: image_eqI [of _ _ r])
  have bal: "pg_numeric_in (fromScaledInt (rcvBalance r - a)) = Inr (rcvBalance r - a)"
    using settle_inv_rcv_ok [OF inv mem(1)] a(3) guard(3)
    by (simp add: pg_numeric_in_render numeric_fits_diff rcv_ok_def)
  have fnd: "find (\<lambda>x. rcvTenant x = t \<and> rcvId x = apRef inp \<and> rcvVersion x = apVersion inp)
      (receivables s) = Some r"
    using find_stronger [of "\<lambda>x. rcvTenant x = t \<and> rcvId x = apRef inp" _ r "\<lambda>x. rcvVersion x = apVersion inp"]
      r guard(1) by (simp add: find_receivable_def)
  have "applyPayment_write t ids inp r (fromScaledInt (rcvBalance r - a)) st (tenant_ctx t) s
      = Returns (Applied (toRow (paid_row (rcvBalance r - a) st r)))
          (update_receivables (tenant_ctx t) (\<lambda>x. rcvId x = apRef inp \<and> rcvVersion x = apVersion inp)
             (paid_row (rcvBalance r - a) st) ?s1)"
    using guard(3) by (simp add: applyPayment_write_def a(2) ins bal fnd)
  moreover have "update_receivables (tenant_ctx t) (\<lambda>x. rcvId x = apRef inp \<and> rcvVersion x = apVersion inp)
      (paid_row (rcvBalance r - a) st) ?s1
    = ?s1\<lparr>receivables := map (\<lambda>x. if rcvId x = apRef inp then paid_row (rcvBalance r - a) st r else x) (receivables s)\<rparr>"
    using update_one_receivable [OF settle_inv_insert_application [OF inv ins], of r "tenant_ctx t"] mem guard(1)
    by simp
  ultimately show ?thesis
    using guard by (simp add: applyPayment_work_def r decideApplication_stored [OF a(1)] terminal_iff st_def)
qed

lemma applyPayment_route_eq:
  assumes inv: "settle_inv (svcDb s)" and ctx: "requireTenant req = Inr t"
    and dto: "ApplyPaymentRequestSchema b" and fresh: "ids 0 \<notin> appId ` set (applications (svcDb s))"
  shows "applyPayment_route req ids (Some ref) b s = payment_spec t ids ref b s"
proof -
  let ?inp = "\<lparr>apRef = ref, apAmount = pbAmount b, apVersion = pbVersion b, apNote = pbNote b\<rparr>"
  obtain a where a: "toScaledInt (pbAmount b) = Some a" "pg_numeric_in (pbAmount b) = Inr a" "0 < a"
    using dto by (auto simp: ApplyPaymentRequestSchema_def elim: positive_amount)
  have route: "applyPayment_route req ids (Some ref) b s = (case applyPayment t ids ?inp s of
                  (Inl e, s') \<Rightarrow> (respond 200 (Inl (Unhandled e)), s')
                | (Inr Apply_conflict, s') \<Rightarrow> (respond 200 (Inl (Http_exception 409 (Some ''conflict''))), s')
                | (Inr Apply_not_found, s') \<Rightarrow> (respond 200 (Inl (Http_exception 404 (Some ''not_found''))), s')
                | (Inr (Applied row), s') \<Rightarrow> (respond 200 (Inr (toReceivable row)), s'))"
    using ctx dto by (simp add: applyPayment_route_def assertUuid_def)
  have find: "find_receivable (tenant_ctx t) ref (svcDb s)
      = find (\<lambda>r. rcvTenant r = t \<and> rcvId r = ref) (receivables (svcDb s))"
    by (simp add: find_receivable_def)
  show ?thesis
  proof (cases "find_receivable (tenant_ctx t) ref (svcDb s)")
    case None
    then show ?thesis
      by (simp add: route payment_spec_def find applyPayment_def applyPayment_work_def with_signal_def
          runWithTenantContext_def)
  next
    case (Some r)
    show ?thesis
    proof (cases "rcvVersion r \<noteq> pbVersion b \<or> isTerminalState (rcvState r) \<or> rcvBalance r < a")
      case True
      with Some have "applyPayment_work t ids ?inp (tenant_ctx t) (svcDb s) = Returns Apply_conflict (svcDb s)"
        by (auto simp: applyPayment_work_def decideApplication_stored [OF a(1)] terminal_iff)
      with True Some show ?thesis
        by (simp add: route payment_spec_def find applyPayment_def with_signal_def runWithTenantContext_def a)
    next
      case False
      with applyPayment_work_ok [OF inv, of t ?inp r a ids] Some a fresh False show ?thesis
        by (simp add: route payment_spec_def find applyPayment_def with_signal_def runWithTenantContext_def
            application_row_def Let_def)
    qed
  qed
qed

section \<open>Stale versions\<close>

lemma payment_spec_ok:
  assumes "fst (payment_spec t ids ref b s) = Response_ok 200 body"
  obtains r r' where "find (\<lambda>r. rcvTenant r = t \<and> rcvId r = ref) (receivables (svcDb s)) = Some r"
    "rcvVersion r = pbVersion b" "rcvVersion r' = rcvVersion r + 1" "rcvTenant r' = t" "rcvId r' = ref"
    "receivables (svcDb (snd (payment_spec t ids ref b s)))
      = map (\<lambda>x. if rcvId x = ref then r' else x) (receivables (svcDb s))"
proof (cases "find (\<lambda>r. rcvTenant r = t \<and> rcvId r = ref) (receivables (svcDb s))")
  case None
  with assms show ?thesis by (simp add: payment_spec_def)
next
  case (Some r)
  define a where "a = the (toScaledInt (pbAmount b))"
  define r' where "r' = paid_row (rcvBalance r - a) (if a = rcvBalance r then Settled else Partially_applied) r"
  have g: "\<not> (rcvVersion r \<noteq> pbVersion b \<or> isTerminalState (rcvState r) \<or> rcvBalance r < a)"
    using assms Some by (auto simp: payment_spec_def Let_def a_def split: if_splits)
  have "receivables (svcDb (snd (payment_spec t ids ref b s)))
      = map (\<lambda>x. if rcvId x = ref then r' else x) (receivables (svcDb s))"
    using Some g unfolding payment_spec_def Let_def a_def [symmetric] by (simp add: r'_def)
  with Some g find_SomeD [OF Some] show ?thesis by (intro that [of r r']) (auto simp: r'_def paid_row_def)
qed

lemma find_map_key:
  assumes "find (\<lambda>r. ten r = t \<and> k r = i) rs = Some r" and "distinct (map k rs)" and "ten r' = t" and "k r' = i"
  shows "find (\<lambda>r. ten r = t \<and> k r = i) (map (\<lambda>x. if k x = i then r' else x) rs) = Some r'"
  using assms
proof (induction rs)
  case (Cons a rs)
  show ?case
  proof (cases "k a = i")
    case True
    with Cons.prems show ?thesis by (auto dest: find_SomeD split: if_splits)
  next
    case False
    with Cons show ?thesis by simp
  qed
qed simp

lemma payment_replay:
  assumes inv: "settle_inv (svcDb s)" and ok: "fst (payment_spec t ids ref b s) = Response_ok 200 body"
  shows "payment_spec t ids' ref b (snd (payment_spec t ids ref b s))
    = (Response_error 409 ''conflict'', snd (payment_spec t ids ref b s))"
proof -
  from ok obtain r r' where r: "find (\<lambda>r. rcvTenant r = t \<and> rcvId r = ref) (receivables (svcDb s)) = Some r"
    "rcvVersion r = pbVersion b" "rcvVersion r' = rcvVersion r + 1" "rcvTenant r' = t" "rcvId r' = ref"
    "receivables (svcDb (snd (payment_spec t ids ref b s)))
      = map (\<lambda>x. if rcvId x = ref then r' else x) (receivables (svcDb s))"
    by (rule payment_spec_ok)
  have "find (\<lambda>r. rcvTenant r = t \<and> rcvId r = ref) (receivables (svcDb (snd (payment_spec t ids ref b s)))) = Some r'"
    unfolding r(6) using r(1,4,5) inv by (intro find_map_key) (simp_all add: settle_inv_def)
  with r(2,3) show ?thesis by (subst payment_spec_def) (simp add: Let_def)
qed

section \<open>Reads\<close>

interpretation rcv_list: paged_query
  "\<lambda>q s n cur. list_receivables q s (int n) cur" receivables rcvId list_visible toRow settle_inv
  "\<lambda>n. 1 \<le> n \<and> n \<le> 200"
proof unfold_locales
  fix s :: settle_db and n :: nat and q cur
  assume "1 \<le> n \<and> n \<le> 200"
  then have "nat (min (max 1 (int n)) LIST_MAX_PAGE) = n" by (simp add: LIST_MAX_PAGE_def)
  then show "list_receivables q s (int n) cur =
      (map toRow (keyset_page rcvId (list_visible q) cur n (receivables s)),
       keyset_next rcvId n (keyset_page rcvId (list_visible q) cur n (receivables s)))"
    by (simp add: list_receivables_def keyset_next_def Let_def)
qed (auto simp: settle_inv_def)

lemma find_in_filter: "find (\<lambda>x. p x \<and> q x) xs = find q (filter p xs)"
  by (induction xs) auto

lemma find_receivable_view:
  "tenant_view t d = tenant_view t d' \<Longrightarrow> find_receivable (tenant_ctx t) ref d = find_receivable (tenant_ctx t) ref d'"
  by (simp add: find_receivable_def find_in_filter tenant_view_def)

lemma filter_list_visible:
  "filter (\<lambda>r. list_visible q r \<and> g r) rs
    = filter (\<lambda>r. list_visible q r \<and> g r) (filter (\<lambda>r. rcvTenant r = lfTenant q) rs)"
  by (auto simp: list_visible_def intro: filter_cong)

lemma list_receivables_view:
  assumes "tenant_view (lfTenant q) d = tenant_view (lfTenant q) d'"
  shows "list_receivables q d n cur = list_receivables q d' n cur"
proof -
  have "filter (\<lambda>r. list_visible q r \<and> keyset_before rcvId cur r) (receivables d)
      = filter (\<lambda>r. list_visible q r \<and> keyset_before rcvId cur r) (receivables d')"
    by (subst (1 2) filter_list_visible) (use assms in \<open>simp add: tenant_view_def\<close>)
  then show ?thesis by (simp add: list_receivables_def keyset_page_def Let_def)
qed

section \<open>Claims\<close>

text \<open>
  A receivable left claimed with nothing to pay, all of whose claims are reconciled: no request
  changes it any more.
\<close>

definition stuck_receivable :: "receivable \<Rightarrow> settle_db \<Rightarrow> bool" where
  "stuck_receivable r s \<longleftrightarrow>
     r \<in> set (receivables s) \<and> rcvState r = Claimed \<and> rcvBalance r = 0 \<and>
     (\<forall>l \<in> set (claimLines s). lineReceivable l = rcvId r \<longrightarrow>
        (\<forall>k \<in> set (claims s). clmId k = lineClaim l \<longrightarrow> clmStatus k = Reconciled))"

lemma stuck_frame:
  assumes "stuck_receivable r s" and "r \<in> set (receivables s')" and "claims s' = claims s"
    and "claimLines s' = claimLines s"
  shows "stuck_receivable r s'"
  using assms by (simp add: stuck_receivable_def)

lemma stuck_open:
  assumes "openFromIntent_work t ids inp c s = Returns a s'" and "stuck_receivable r s"
  shows "stuck_receivable r s'"
proof (cases "s' = s")
  case False
  with assms(1) obtain rows where "insert_intent_rows c t inp ids 0 (oiPayers inp) s = Inr (rows, s')"
    by (auto simp: openFromIntent_work_def split: sum.splits if_splits)
  from insert_intent_rows_spec [OF this] show ?thesis
    using assms(2) by (auto simp: stuck_receivable_def)
qed (use assms in simp)

lemma in_update_receivables:
  "r \<in> set (receivables s) \<Longrightarrow> \<not> p r \<Longrightarrow> r \<in> set (receivables (update_receivables c p f s))"
  by (force simp: set_update_where)

lemma stuck_apply:
  assumes "applyPayment_work t ids inp c s = Returns a s'" and "settle_inv s" and "MONEY_RE (apAmount inp)"
    and "stuck_receivable r s"
  shows "stuck_receivable r s'"
  using assms(1-3)
proof (cases rule: applyPayment_work_cases)
  case unchanged
  with assms(4) show ?thesis by simp
next
  case (applied x v)
  from applied(1,5,6) assms(4) have "rcvId r \<noteq> apRef inp"
    using settle_inv_unique [OF assms(2), of x r] by (auto simp: stuck_receivable_def dest!: find_receivable_SomeD)
  with assms(4) show ?thesis
    unfolding applied(8)
    by (intro stuck_frame [OF assms(4)] in_update_receivables) (simp_all add: stuck_receivable_def)
qed

lemma insert_claim_lines_lines:
  "insert_claim_lines c t st k ids n refs s = Inr s' \<Longrightarrow>
   claims s' = claims s \<and>
   (\<forall>l \<in> set (claimLines s'). l \<in> set (claimLines s) \<or> lineReceivable l \<in> set refs)"
proof (induction refs arbitrary: n s)
  case (Cons r rs)
  then obtain s1 where 1: "insert_claim_line c \<lparr>lineId = ids n, lineTenant = t, lineStore = st,
      lineClaim = k, lineReceivable = r\<rparr> s = Inr s1" "insert_claim_lines c t st k ids (Suc n) rs s1 = Inr s'"
    by (auto split: sum.splits)
  from Cons.IH [OF 1(2)] 1(1) show ?case
    by (auto simp: insert_Inr)
qed simp

lemma stuck_submit:
  assumes "submitClaim_work t ids inp c s = Returns a s'" and "settle_inv s" and "stuck_receivable r s"
  shows "stuck_receivable r s'"
  using assms(1)
proof (cases rule: submitClaim_work_cases)
  case unchanged
  with assms(3) show ?thesis by simp
next
  case (submitted found refs store s1 s2)
  have ids: "rcvId ` set found = set refs"
    using named_receivables_unique [OF assms(2), of c refs] submitted(1,2,3) by simp
  have out: "rcvId r \<notin> set refs"
  proof
    assume "rcvId r \<in> set refs"
    with ids have "rcvId r \<in> rcvId ` set found" by simp
    then obtain x where "rcvId r = rcvId x" "x \<in> set found" by (rule imageE)
    moreover from this have "x = r"
      using settle_inv_unique [OF assms(2), of r x] assms(3) submitted(2)
      by (auto simp: stuck_receivable_def named_receivables_def)
    ultimately show False using submitted(4) assms(3) by (auto simp: stuck_receivable_def claimable_iff)
  qed
  have s1: "receivables s1 = receivables s" "claimLines s1 = claimLines s"
    "\<forall>k \<in> set (claims s1). k \<in> set (claims s) \<or> clmId k \<notin> clmId ` set (claims s)"
    using submitted(6) by (auto simp: insert_Inr)
  have s1_inv: "settle_inv s1" by (rule settle_inv_insert_claim [OF assms(2) submitted(6)])
  have s2: "receivables s2 = receivables s" "claims s2 = claims s1"
    "\<forall>l \<in> set (claimLines s2). l \<in> set (claimLines s) \<or> lineReceivable l \<in> set refs"
    using insert_claim_lines_inv [OF submitted(7) s1_inv] insert_claim_lines_lines [OF submitted(7)] s1
    by auto
  have old: "clmId k = lineClaim l \<Longrightarrow> k \<in> set (claims s1) \<Longrightarrow> l \<in> set (claimLines s) \<Longrightarrow> k \<in> set (claims s)" for k l
    using s1(3) assms(2) by (force simp: settle_inv_def claim_key_def)
  have "clmStatus k = Reconciled" if "l \<in> set (claimLines s2)" "lineReceivable l = rcvId r"
    "k \<in> set (claims s1)" "clmId k = lineClaim l" for l k
  proof -
    have "l \<in> set (claimLines s)" using that s2(3) out by auto
    with that old [of k l] assms(3) show ?thesis by (auto simp: stuck_receivable_def)
  qed
  moreover have "r \<in> set (receivables s')"
    unfolding submitted(8) using assms(3) out s2(1)
    by (intro in_update_receivables) (simp_all add: stuck_receivable_def)
  ultimately show ?thesis
    using assms(3) s2(2) by (auto simp: stuck_receivable_def submitted(8))
qed

lemma stuck_reconcile:
  assumes "reconcileRemittance_work t ids inp c s = Returns a s'" and "settle_inv s" and "MONEY_RE (riAmount inp)"
    and "stuck_receivable r s"
  shows "stuck_receivable r s'"
  using assms(1-3)
proof (cases rule: reconcileRemittance_work_cases)
  case unchanged
  with assms(4) show ?thesis by simp
next
  case (reconciled k rm s1 s2 lines cl)
  have s2: "receivables s2 = receivables s" "claims s2 = claims s" "claimLines s2 = claimLines s"
    using reconciled(11,12) by (auto simp: insert_Inr)
  obtain p f where upd:
    "apply_remittance c (outcome_of (claimed_total c (riClaim inp) s) rm) rm lines s2 = update_receivables c p f s2"
    "\<forall>r \<in> set (receivables s). rls_tenant c (rcvTenant r) \<longrightarrow> p r \<longrightarrow>
       in_claim c (riClaim inp) s r \<and> rcv_write r (f r) \<and> rcv_ok (f r)"
    "\<forall>r. rcvId (f r) = rcvId r \<and> rcvTenant (f r) = rcvTenant r"
    "total_balance (update_receivables c p f s2) = total_balance s - min rm (claimed_total c (riClaim inp) s)"
    by (rule apply_remittance_update [OF assms(2) reconciled(3,5,10) s2(1)])
  have k: "k \<in> set (claims s)" "clmId k = riClaim inp"
    using reconciled(1) by (auto simp: find_claim_def dest: find_SomeD)
  have "\<not> in_claim c (riClaim inp) s r"
    using assms(4) k reconciled(2) by (auto simp: in_claim_def stuck_receivable_def)
  with upd(2) assms(4) have "\<not> (rls_tenant c (rcvTenant r) \<and> p r)" by (auto simp: stuck_receivable_def)
  with assms(4) s2(1) have "r \<in> set (receivables s')"
    unfolding reconciled(13,6) upd(1) by (force simp: set_update_where stuck_receivable_def)
  moreover have "claimLines s' = claimLines s"
    "claims s' = update_where (\<lambda>k. rls_tenant c (clmTenant k) \<and> clmId k = riClaim inp)
        (\<lambda>k. k\<lparr>clmStatus := Reconciled, clmVersion := clmVersion k + 1\<rparr>) (claims s)"
    unfolding reconciled(13,6) upd(1) by (simp_all add: mark_reconciled_def s2)
  ultimately show ?thesis
    using assms(4) by (auto simp: stuck_receivable_def set_update_where)
qed

lemma stuck_step:
  assumes "settle_inv (svcDb s)" and "stuck_receivable r (svcDb s)"
  shows "stuck_receivable r (svcDb (settle_step op s))"
proof (cases op)
  case (Post_intent req ids b)
  with recordIntent_db [of req ids b s] stuck_open assms show ?thesis by auto
next
  case (Post_payment req ids ref b)
  with applyPayment_route_db [of req ids ref b s] stuck_apply [OF _ assms(1) _ assms(2)] assms show ?thesis
    by (elim disjE exE conjE) simp_all
next
  case (Post_claim req ids b)
  with submitClaim_route_db [of req ids b s] stuck_submit [OF _ assms] assms show ?thesis by auto
next
  case (Post_remittance req ids ref b)
  with reconcileRemittance_route_db [of req ids ref b s] stuck_reconcile [OF _ assms(1) _ assms(2)] assms show ?thesis
    by (elim disjE exE conjE) simp_all
qed

lemma stuck_run:
  "settle_inv (svcDb s) \<Longrightarrow> stuck_receivable r (svcDb s) \<Longrightarrow> stuck_receivable r (svcDb (settle_run ops s))"
  by (induction ops arbitrary: s) (simp_all add: stuck_step settle_step_inv)

section \<open>Remittances\<close>

lemma reconcileRemittance_work_not_aborted:
  "reconcileRemittance_work t ids inp c s = Returns_aborted r \<Longrightarrow> False"
  by (auto simp: reconcileRemittance_work_def Let_def split: option.splits if_splits sum.splits prod.splits)

lemma claims_close_lines: "claims (close_lines c st is s) = claims s"
  by (induction "is" arbitrary: s) simp_all

lemma claims_balance_updates: "claims (apply_balance_updates c us s) = claims s"
  by (induction c us s rule: apply_balance_updates.induct) simp_all

lemma apply_remittance_claims: "claims (apply_remittance c oc rm lines s) = claims s"
  by (simp add: apply_remittance_def claims_close_lines claims_balance_updates split: reconcile_outcome.split)

lemma find_claim_cong: "claims s = claims s' \<Longrightarrow> find_claim c ref s = find_claim c ref s'"
  by (simp add: find_claim_def)

lemma find_claim_reconciled:
  "find_claim c ref (mark_reconciled c ref s)
    = map_option (\<lambda>k. k\<lparr>clmStatus := Reconciled, clmVersion := clmVersion k + 1\<rparr>) (find_claim c ref s)"
proof -
  have "find (\<lambda>k. rls_tenant c (clmTenant k) \<and> clmId k = ref)
      (update_where (\<lambda>k. rls_tenant c (clmTenant k) \<and> clmId k = ref)
        (\<lambda>k. k\<lparr>clmStatus := Reconciled, clmVersion := clmVersion k + 1\<rparr>) ks)
    = map_option (\<lambda>k. k\<lparr>clmStatus := Reconciled, clmVersion := clmVersion k + 1\<rparr>)
       (find (\<lambda>k. rls_tenant c (clmTenant k) \<and> clmId k = ref) ks)" for ks
    by (induction ks) auto
  then show ?thesis by (simp add: find_claim_def mark_reconciled_def)
qed

text \<open>The FIFO loop against the plain recursion: each line gives up what it can, in order.\<close>

fun fifo_reference :: "int \<Rightarrow> int list \<Rightarrow> int list" where
  "fifo_reference n [] = []"
| "fifo_reference n (b # bs) = (b - min n b) # fifo_reference (n - min n b) bs"

lemma fifo_reference_zero: "\<forall>b \<in> set bs. 0 \<le> b \<Longrightarrow> fifo_reference 0 bs = bs"
  by (induction bs) (auto simp: min_def)

lemma balance_after_cong:
  "map_of us (fst l) = map_of us' (fst l) \<Longrightarrow> balance_after us l = balance_after us' l"
  by (simp add: balance_after_def)

lemma fifo_updates_reference:
  "distinct (map fst ls) \<Longrightarrow> \<forall>l \<in> set ls. 0 \<le> snd l \<Longrightarrow> 0 \<le> n \<Longrightarrow>
   map (balance_after (fifo_updates n ls)) ls = fifo_reference n (map snd ls)"
proof (induction n ls rule: fifo_updates.induct)
  case (2 remaining i b ls)
  have other: "l \<in> set ls \<Longrightarrow> fst l \<noteq> i" for l using "2.prems"(1) by (auto simp: image_iff)
  have fresh: "map_of (fifo_updates m ls) i = None" for m
    using fifo_updates_ids [of m ls] "2.prems"(1) by (force simp: map_of_eq_None_iff)
  show ?case
  proof (cases "remaining \<le> 0")
    case True
    with "2.prems" have "remaining = 0" by simp
    with "2.prems" have "map snd ((i, b) # ls) = fifo_reference remaining (map snd ((i, b) # ls))"
      using fifo_reference_zero [of "map snd ((i, b) # ls)"] by auto
    moreover have "balance_after [] = snd" by (simp add: balance_after_def fun_eq_iff)
    moreover have "fifo_updates remaining ((i, b) # ls) = []" using True by simp
    ultimately show ?thesis by metis
  next
    case pos: False
    show ?thesis
    proof (cases "b \<le> 0")
      case True
      with "2.prems" have "b = 0" by simp
      with pos "2.IH"(1) "2.prems" fresh show ?thesis by (simp add: balance_after_def)
    next
      case False
      define m where "m = (if remaining < b then remaining else b)"
      have m: "m = min remaining b" "0 < m" using pos False by (auto simp: m_def)
      have "fifo_updates remaining ((i, b) # ls) = (i, b - m) # fifo_updates (remaining - m) ls"
        using pos m(2) by (simp add: m_def)
      moreover have "map (balance_after ((i, b - m) # fifo_updates (remaining - m) ls)) ls
          = map (balance_after (fifo_updates (remaining - m) ls)) ls"
        using other by (intro map_cong balance_after_cong) auto
      moreover have "map (balance_after (fifo_updates (remaining - m) ls)) ls
          = fifo_reference (remaining - m) (map snd ls)"
        using "2.IH"(2) [OF pos m_def] "2.prems" m by simp
      moreover have "balance_after ((i, b - m) # fifo_updates (remaining - m) ls) (i, b) = b - m"
        by (simp add: balance_after_def)
      ultimately show ?thesis by (simp only: list.map snd_conv fifo_reference.simps m(1))
    qed
  qed
qed simp

section \<open>An accepted claim\<close>

lemma submitClaim_work_not_aborted:
  "submitClaim_work t ids inp c s = Returns_aborted r \<Longrightarrow> False"
  by (auto simp: submitClaim_work_def Let_def split: option.splits if_splits sum.splits list.splits)

lemma insert_claim_lines_append:
  "insert_claim_lines c t st k ids n refs s = Inr s' \<Longrightarrow>
   \<exists>lines. claimLines s' = claimLines s @ lines \<and> map lineReceivable lines = refs \<and>
     (\<forall>l \<in> set lines. lineClaim l = k)"
proof (induction refs arbitrary: n s)
  case (Cons r rs)
  then obtain s1 where 1: "insert_claim_line c \<lparr>lineId = ids n, lineTenant = t, lineStore = st,
      lineClaim = k, lineReceivable = r\<rparr> s = Inr s1" "insert_claim_lines c t st k ids (Suc n) rs s1 = Inr s'"
    by (auto split: sum.splits)
  from Cons.IH [OF 1(2)] obtain lines where "claimLines s' = claimLines s1 @ lines"
    "map lineReceivable lines = rs" "\<forall>l \<in> set lines. lineClaim l = k" by blast
  with 1(1) show ?case
    by (intro exI [of _ "\<lparr>lineId = ids n, lineTenant = t, lineStore = st, lineClaim = k, lineReceivable = r\<rparr> # lines"])
       (auto simp: insert_Inr)
qed simp

lemma find_receivable_iff:
  assumes "settle_inv s"
  shows "find_receivable c i s = Some r \<longleftrightarrow> r \<in> set (receivables s) \<and> rls_tenant c (rcvTenant r) \<and> rcvId r = i"
proof
  assume r: "r \<in> set (receivables s) \<and> rls_tenant c (rcvTenant r) \<and> rcvId r = i"
  show "find_receivable c i s = Some r"
  proof (cases "find_receivable c i s")
    case None
    with r show ?thesis by (auto simp: find_receivable_def dest: find_NoneD)
  next
    case (Some x)
    with r settle_inv_unique [OF assms, of r x] show ?thesis by (auto dest: find_receivable_SomeD)
  qed
qed (rule find_receivable_SomeD)

lemma claim_success:
  assumes "submitClaim_work t ids b c s = Returns (Claim_submitted body) s'" and "settle_inv s"
  shows "(\<forall>ref \<in> set (scRefs b). \<exists>r. find_receivable c ref s = Some r \<and>
       rcvState r \<in> set CLAIMABLE_STATES \<and> rcvPayer r = scPayer b) \<and>
    receivables s' = map (\<lambda>r. if rcvId r \<in> set (scRefs b) then claimed_row r else r) (receivables s) \<and>
    (\<exists>lines. claimLines s' = claimLines s @ lines \<and> map lineReceivable lines = js_dedup (scRefs b) \<and>
       (\<forall>l \<in> set lines. lineClaim l = cbClaim body))"
  using assms(1)
proof (cases rule: submitClaim_work_cases)
  case (submitted found refs store s1 s2)
  have refs: "set refs = set (scRefs b)" by (simp add: submitted(1))
  have ids: "rcvId ` set found = set refs"
    using named_receivables_unique [OF assms(2), of c refs] submitted(1,2,3) by simp
  have 1: "\<exists>r. find_receivable c ref s = Some r \<and> rcvState r \<in> set CLAIMABLE_STATES \<and> rcvPayer r = scPayer b"
    if "ref \<in> set (scRefs b)" for ref
  proof -
    from that refs ids have "ref \<in> rcvId ` set found" by simp
    then obtain r where "ref = rcvId r" "r \<in> set found" by (rule imageE)
    with submitted(2,4) show ?thesis
      by (intro exI [of _ r]) (auto simp: find_receivable_iff [OF assms(2)] named_receivables_def)
  qed
  have s2: "receivables s2 = receivables s"
    using insert_claim_lines_inv [OF submitted(7) settle_inv_insert_claim [OF assms(2) submitted(6)]] submitted(6)
    by (auto simp: insert_Inr)
  have own: "rls_tenant c (rcvTenant x)" if "x \<in> set (receivables s)" "rcvId x \<in> set (scRefs b)" for x
  proof -
    from 1 [OF that(2)] obtain r where "find_receivable c (rcvId x) s = Some r" by blast
    with settle_inv_unique [OF assms(2) _ that(1), of r] show ?thesis by (auto dest!: find_receivable_SomeD)
  qed
  then have "update_where (\<lambda>r. rls_tenant c (rcvTenant r) \<and> rcvId r \<in> set refs) claimed_row (receivables s)
      = map (\<lambda>r. if rcvId r \<in> set (scRefs b) then claimed_row r else r) (receivables s)"
    by (auto simp: update_where_def refs)
  then have 2: "receivables s' = map (\<lambda>r. if rcvId r \<in> set (scRefs b) then claimed_row r else r) (receivables s)"
    by (simp add: submitted(8) s2)
  from insert_claim_lines_append [OF submitted(7)] submitted(6) submitted(1,9)
  have "\<exists>lines. claimLines s' = claimLines s @ lines \<and> map lineReceivable lines = js_dedup (scRefs b) \<and>
       (\<forall>l \<in> set lines. lineClaim l = cbClaim body)"
    by (auto simp: submitted(8) insert_Inr)
  with 1 2 show ?thesis by blast
qed simp

section \<open>An accepted intent\<close>

lemma intent_cases:
  "(\<exists>n c. fst (recordIntent req ids b s) = Response_error n c \<and> svcDb (snd (recordIntent req ids b s)) = svcDb s) \<or>
   (\<exists>bodies new t st. fst (recordIntent req ids b s) = Response_ok 201 (ibSale b, bodies) \<and>
      requirePosContext req = Inr (t, st) \<and>
      svcDb (snd (recordIntent req ids b s)) = (svcDb s)\<lparr>receivables := receivables (svcDb s) @ new\<rparr> \<and>
      bodies = map (toReceivable \<circ> toRow) new \<and>
      list_all2 (\<lambda>p r. rcvPayer r = inPayerRef p \<and> pg_numeric_in (inOwedAmount p) = Inr (rcvBalance r) \<and>
        rcvTenant r = t \<and> rcvStore r = st \<and> rcvSale r = ibSale b \<and> rcvState r = Open \<and> rcvVersion r = 0)
        (ibPayers b) new)"
proof (cases "SettlementIntentCreateSchema b \<and> (\<exists>t st. requirePosContext req = Inr (t, st))")
  case False
  then show ?thesis
    by (auto simp: recordIntent_def requirePosContext_def split: option.splits)
next
  case True
  then obtain t st where ctx: "requirePosContext req = Inr (t, st)" by blast
  define inp where "inp = \<lparr>oiStore = st, oiSale = ibSale b, oiPayers = ibPayers b\<rparr>"
  have route: "recordIntent req ids b s = (case openFromIntent t ids inp s of
             (Inl e, s') \<Rightarrow> (respond 201 (Inl (Unhandled e)), s')
           | (Inr Open_conflict, s') \<Rightarrow> (respond 201 (Inl (Http_exception 409 (Some ''conflict''))), s')
           | (Inr (Opened rows), s') \<Rightarrow> (respond 201 (Inr (ibSale b, map toReceivable rows)), s'))"
    using True ctx by (simp add: recordIntent_def inp_def)
  show ?thesis
  proof (cases "openFromIntent_work t ids inp (tenant_ctx t) (svcDb s)")
    case (Returns r d)
    show ?thesis
    proof (cases r)
      case Open_conflict
      with Returns have "d = svcDb s"
        by (auto simp: openFromIntent_work_def split: if_splits sum.splits)
      with Open_conflict Returns show ?thesis by (simp add: route openFromIntent_end)
    next
      case (Opened rows)
      with Returns have "insert_intent_rows (tenant_ctx t) t inp ids 0 (oiPayers inp) (svcDb s) = Inr (rows, d)"
        by (auto simp: openFromIntent_work_def split: if_splits sum.splits)
      from insert_intent_rows_spec [OF this] Opened Returns ctx show ?thesis
        by (auto simp: route openFromIntent_end inp_def)
    qed
  next
    case (Returns_aborted r)
    with openFromIntent_aborted [OF Returns_aborted] show ?thesis
      by (simp add: route openFromIntent_end)
  next
    case (Throws e)
    then show ?thesis by (simp add: route openFromIntent_end)
  qed
qed

end
