(* ===== verification/SettlementTheorems.thy ===== *)
theory SettlementTheorems
  imports SettlementProps "HOL-Library.Code_Target_Nat" "HOL-Library.Code_Target_Int"
begin

text \<open>
  The properties of the settlement component, with concrete instances of those that have
  hypotheses.
\<close>

section \<open>A concrete database\<close>

text \<open>
  Two tenants; tenant 1 owns store 10, the sales 100 and 101, the payer 7 and three receivables,
  one of them already claimed; tenant 2 owns one receivable.
\<close>

definition demo_rcv :: "uuid \<Rightarrow> uuid \<Rightarrow> money \<Rightarrow> receivable_state \<Rightarrow> receivable" where
  "demo_rcv i t b st = \<lparr>rcvId = i, rcvTenant = t, rcvStore = 10 * t, rcvSale = 100 * t, rcvPayer = 7,
     rcvBalance = b, rcvState = st, rcvErpRef = None, rcvTax = None, rcvVersion = 0\<rparr>"

definition demo_db :: settle_db where
  "demo_db = \<lparr>receivables = [demo_rcv 21 1 1000000 Open, demo_rcv 22 1 500000 Open,
       demo_rcv 23 1 70000 Claimed, demo_rcv 31 2 10000 Open],
     payers = [\<lparr>payId = 7, payTenant = 1, payStore = None\<rparr>],
     stores = [(10, 1), (20, 2)], sales = [(100, 1, 10), (200, 2, 20)],
     applications = [], 
     claims = [\<lparr>clmId = 51, clmTenant = 1, clmStore = 10, clmPayer = 7, clmStatus = Submitted, clmVersion = 0\<rparr>],
     claimLines = [\<lparr>lineId = 61, lineTenant = 1, lineStore = 10, lineClaim = 51, lineReceivable = 23\<rparr>],
     remittances = [], results = []\<rparr>"

definition demo_svc :: settle_svc where
  "demo_svc = \<lparr>svcDb = demo_db, svcSignals = 0\<rparr>"

definition demo_req :: "uuid \<Rightarrow> request_context" where
  "demo_req t = Some \<lparr>rcUser = Some 1, rcTenant = Some t, rcStore = Some (10 * t), rcPlatformAdmin = False\<rparr>"

definition demo_ids :: "nat \<Rightarrow> id_source" where
  "demo_ids n k = n + k"

lemma requireTenant_demo [simp]: "requireTenant (demo_req t) = Inr t"
  by (simp add: requireTenant_def demo_req_def)

definition demo_remittance :: remittance_body where
  "demo_remittance = \<lparr>mbAmount = ''7.0'', mbRef = None\<rparr>"

definition demo_payment :: payment_body where
  "demo_payment = \<lparr>pbAmount = ''40.5'', pbVersion = 0, pbNote = None\<rparr>"

definition demo_ops :: "settle_op list" where
  "demo_ops =
     [Post_intent (demo_req 1) (demo_ids 900)
        \<lparr>ibSale = 100, ibCash = None,
         ibPayers = [\<lparr>inPayerRef = 7, inOwedAmount = ''12.5'', inClaimMetadata = None\<rparr>]\<rparr>,
      Post_payment (demo_req 1) (demo_ids 910) (Some 21) demo_payment,
      Post_remittance (demo_req 1) (demo_ids 920) (Some 51) demo_remittance]"

lemma demo_inv: "settle_inv (svcDb demo_svc)"
  by (simp add: settle_inv_def demo_svc_def demo_db_def demo_rcv_def rcv_ok_def numeric_19_4_fits_def
      terminal_iff claimable_iff claim_key_def)

text \<open>What the requests of \<^const>\<open>demo_ops\<close> do, as the model evaluates them.\<close>

lemma demo_run:
  "map (\<lambda>r. (rcvId r, rcvBalance r, rcvState r)) (receivables (svcDb (settle_run demo_ops demo_svc)))
    = [(21, 595000, Partially_applied), (22, 500000, Open), (23, 0, Settled), (31, 10000, Open),
       (900, 125000, Open)] \<and> opened_total demo_ops demo_svc = 125000"
  by code_simp

section \<open>Sequences of requests\<close>

text \<open>C1: The books balance, and every request keeps the tables well-formed. Over any sequence of settlement requests, money owed plus money
  received (payments, and what remittances took) changes by exactly the totals of the intents that
  were accepted: no request creates, loses or double-counts an amount. Identifiers stay unique, balances lie between
  zero and the column's bound, an open or partially applied receivable owes money, a settled or
  flagged one owes nothing, and every claim line belongs to a claim of its tenant and store.\<close>

theorem books_balance:
  assumes "settle_inv (svcDb s)"
  shows "books (svcDb (settle_run ops s)) = books (svcDb s) + opened_total ops s \<and> settle_inv (svcDb (settle_run ops s))"
  using assms
proof (induction ops arbitrary: s)
  case (Cons op ops)
  then show ?case using settle_step_inv [OF Cons.prems] settle_step_books [OF Cons.prems, of op] by simp
qed simp

lemma books_balance_witness:
  "books (svcDb (settle_run demo_ops demo_svc)) = books (svcDb demo_svc) + 125000 \<and> settle_inv (svcDb (settle_run demo_ops demo_svc))"
  using books_balance [OF demo_inv, of demo_ops] demo_run by simp

text \<open>C2: Tenant isolation. Requests of other tenants leave every settlement row of a tenant as it
  is, whatever identifiers they name.\<close>

theorem tenants_isolated:
  assumes "settle_inv (svcDb s)" and "\<forall>op \<in> set ops. op_tenant op \<noteq> Some t"
  shows "tenant_view t (svcDb (settle_run ops s)) = tenant_view t (svcDb s)"
  using assms
proof (induction ops arbitrary: s)
  case (Cons op ops)
  have "tenant_view t (svcDb (settle_step op s)) = tenant_view t (svcDb s)"
    using settle_step_db [OF Cons.prems(1), of op] Cons.prems(2) settle_frame_view by fastforce
  with Cons.IH [OF settle_step_inv [OF Cons.prems(1)]] Cons.prems(2) show ?case by simp
qed simp

lemma tenants_isolated_witness:
  "tenant_view 2 (svcDb (settle_run demo_ops demo_svc)) = tenant_view 2 (svcDb demo_svc)"
  by (rule tenants_isolated [OF demo_inv]) (simp add: demo_ops_def op_tenant_def demo_req_def)

text \<open>C3: The life of a receivable. Whatever requests follow, the row keeps its identity and its
  owner, its version never decreases, its balance never grows, its state moves only along
  \<open>VALID_TRANSITIONS\<close>, and once settled or flagged it stays so with a zero balance.\<close>

theorem receivable_life:
  assumes "settle_inv (svcDb s)" and "r \<in> set (receivables (svcDb s))"
  shows "\<exists>r' \<in> set (receivables (svcDb (settle_run ops s))).
    rcvId r' = rcvId r \<and> rcvTenant r' = rcvTenant r \<and> rcvStore r' = rcvStore r \<and>
    rcvPayer r' = rcvPayer r \<and> rcvVersion r \<le> rcvVersion r' \<and> rcvBalance r' \<le> rcvBalance r \<and>
    canTransition\<^sup>*\<^sup>* (rcvState r) (rcvState r') \<and>
    (isTerminalState (rcvState r) \<longrightarrow> rcvState r' = rcvState r \<and> rcvBalance r' = 0)"
proof -
  obtain r' where r': "r' \<in> set (receivables (svcDb (settle_run ops s)))" "rcv_write\<^sup>*\<^sup>* r r'"
    using settle_run_row [OF assms] by blast
  have "rcv_ok r'" using settle_inv_rcv_ok [OF settle_run_inv [OF assms(1)] r'(1)] .
  with r' rcv_writes_keeps [OF r'(2)] rcv_life.history_moves [OF r'(2)] rcv_life.terminal_stays [OF r'(2)]
  show ?thesis by (intro bexI [of _ r']) (auto simp: rcv_ok_def)
qed

lemma receivable_life_witness:
  "\<exists>r' \<in> set (receivables (svcDb (settle_run demo_ops demo_svc))).
     rcvId r' = 23 \<and> canTransition\<^sup>*\<^sup>* Claimed (rcvState r')"
  using receivable_life [OF demo_inv, of "demo_rcv 23 1 70000 Claimed" demo_ops]
  by (auto simp: demo_svc_def demo_db_def demo_rcv_def)

section \<open>Single requests\<close>



text \<open>A payment applies once. Replaying a payment request that was accepted (same body, so the
  same version) is refused with 409 and changes nothing, whatever ids it draws.\<close>

lemma payment_applies_once:
  assumes "settle_inv (svcDb s)" and "requireTenant req = Inr t"
    and "ids 0 \<notin> appId ` set (applications (svcDb s))"
    and "applyPayment_route req ids (Some ref) b s = (Response_ok 200 body, s')"
    and "ids' 0 \<notin> appId ` set (applications (svcDb s'))"
  shows "applyPayment_route req ids' (Some ref) b s' = (Response_error 409 ''conflict'', s')"
proof -
  have dto: "ApplyPaymentRequestSchema b"
    using assms(4) by (auto simp: applyPayment_route_def split: if_splits)
  have 1: "payment_spec t ids ref b s = (Response_ok 200 body, s')"
    using applyPayment_route_eq [of s req t b ids ref, OF assms(1,2) dto assms(3)] assms(4) by simp
  have "settle_inv (svcDb s')"
    using settle_step_inv [OF assms(1), of "Post_payment req ids (Some ref) b"] assms(4) by simp
  with applyPayment_route_eq [of s' req t b ids' ref, OF _ assms(2) dto assms(5)] payment_replay [OF assms(1), of t ids ref b body ids'] 1
  show ?thesis by simp
qed

lemma payment_applies_once_witness:
  "let s' = snd (applyPayment_route (demo_req 1) (demo_ids 910) (Some 21) demo_payment demo_svc)
   in applyPayment_route (demo_req 1) (demo_ids 915) (Some 21) demo_payment s' = (Response_error 409 ''conflict'', s')"
proof -
  define s' where "s' = snd (applyPayment_route (demo_req 1) (demo_ids 910) (Some 21) demo_payment demo_svc)"
  have "\<exists>body. fst (applyPayment_route (demo_req 1) (demo_ids 910) (Some 21) demo_payment demo_svc)
      = Response_ok 200 body"
  proof -
    have "case fst (applyPayment_route (demo_req 1) (demo_ids 910) (Some 21) demo_payment demo_svc)
        of Response_ok n _ \<Rightarrow> n = 200 | _ \<Rightarrow> False" by code_simp
    then show ?thesis by (simp split: response.splits)
  qed
  then obtain body where ok: "applyPayment_route (demo_req 1) (demo_ids 910) (Some 21) demo_payment demo_svc
      = (Response_ok 200 body, s')"
    by (metis prod.collapse s'_def)
  have "915 \<notin> appId ` set (applications (svcDb s'))" unfolding s'_def by code_simp
  then show ?thesis
    unfolding s'_def [symmetric] Let_def
    by (intro payment_applies_once [OF demo_inv _ _ ok, of 1])
       (simp_all add: demo_ids_def demo_svc_def demo_db_def)
qed





text \<open>A claim moves its receivables together. When it is accepted, every named receivable was
  visible, open or partially applied and owed by the named payer, all of one store; afterwards every
  one of them is claimed at an unchanged balance, with one line per receivable, and no other
  receivable changed.\<close>

lemma claim_moves_together:
  assumes "settle_inv (svcDb s)" and "submitClaim_route req ids b s = (Response_ok 201 body, s')"
  shows "\<exists>t. requireTenant req = Inr t \<and>
    (\<forall>ref \<in> set (scRefs b). \<exists>r. find_receivable (tenant_ctx t) ref (svcDb s) = Some r \<and>
       rcvState r \<in> set CLAIMABLE_STATES \<and> rcvPayer r = scPayer b) \<and>
    receivables (svcDb s') = map (\<lambda>r. if rcvId r \<in> set (scRefs b) then claimed_row r else r) (receivables (svcDb s)) \<and>
    (\<exists>lines. claimLines (svcDb s') = claimLines (svcDb s) @ lines \<and>
       map lineReceivable lines = js_dedup (scRefs b) \<and> (\<forall>l \<in> set lines. lineClaim l = cbClaim body))"
proof -
  from assms(2) obtain t where ctx: "requireTenant req = Inr t" and dto: "ClaimCreateSchema b"
    by (auto simp: submitClaim_route_def split: if_splits sum.splits)
  have work: "submitClaim_work t ids b (tenant_ctx t) (svcDb s) = Returns (Claim_submitted body) (svcDb s')"
    using assms(2) ctx dto
    by (auto simp: submitClaim_route_def submitClaim_def with_signal_def
        runWithTenantContext_def split: work_end.splits submit_result.splits prod.splits sum.splits
        dest: submitClaim_work_not_aborted)
  from claim_success [OF work assms(1)] ctx show ?thesis by auto
qed

definition demo_claim :: submit_claim_input where
  "demo_claim = \<lparr>scPayer = 7, scRefs = [22, 21, 22]\<rparr>"

lemma claim_moves_together_witness:
  "receivables (svcDb (snd (submitClaim_route (demo_req 1) (demo_ids 930) demo_claim demo_svc)))
    = map (\<lambda>r. if rcvId r \<in> {21, 22} then claimed_row r else r) (receivables (svcDb demo_svc))"
proof -
  define out where "out = submitClaim_route (demo_req 1) (demo_ids 930) demo_claim demo_svc"
  have "case fst out of Response_ok n _ \<Rightarrow> n = 201 | _ \<Rightarrow> False" unfolding out_def by code_simp
  then obtain body where out: "out = (Response_ok 201 body, snd out)"
    by (cases out) (auto split: response.splits)
  have "set (scRefs demo_claim) = {21, 22}" by (auto simp: demo_claim_def)
  with claim_moves_together [OF demo_inv out [unfolded out_def]]
  have "receivables (svcDb (snd out)) = map (\<lambda>r. if rcvId r \<in> {21, 22} then claimed_row r else r) (receivables (svcDb demo_svc))"
    by (auto simp: out_def [symmetric] simp del: One_nat_def)
  then show ?thesis by (simp add: out_def)
qed

text \<open>An intent is all or nothing. When it is accepted, one open receivable per payer is
  appended in the order of the request, each owing that payer's amount for the sale in the caller's
  store; when it is refused, or fails, the tables are as before.\<close>

lemma intent_all_or_nothing:
  "case recordIntent req ids b s of
      (Response_ok n (sale, bodies), s') \<Rightarrow> n = 201 \<and> sale = ibSale b \<and>
        (\<exists>new t st. requirePosContext req = Inr (t, st) \<and>
           svcDb s' = (svcDb s)\<lparr>receivables := receivables (svcDb s) @ new\<rparr> \<and>
           bodies = map (toReceivable \<circ> toRow) new \<and>
           list_all2 (\<lambda>p r. rcvPayer r = inPayerRef p \<and> pg_numeric_in (inOwedAmount p) = Inr (rcvBalance r) \<and>
             rcvTenant r = t \<and> rcvStore r = st \<and> rcvSale r = ibSale b \<and> rcvState r = Open \<and> rcvVersion r = 0)
             (ibPayers b) new)
    | (Response_error _ _, s') \<Rightarrow> svcDb s' = svcDb s"
  using intent_cases [of req ids b s]
  by (cases "recordIntent req ids b s") auto

text \<open>No request learns about another tenant's receivables: what the read routes answer is a
  function of the caller's own rows, so an identifier of another tenant reads exactly as an
  identifier that does not exist.\<close>

lemma reads_are_tenant_local:
  assumes "requireTenant req = Inr t" and "tenant_view t d = tenant_view t d'"
    and "payers d = payers d'" and "stores d = stores d'"
  shows "getReceivable req ref d = getReceivable req ref d' \<and>
    listReceivables req q d = listReceivables req q d'"
proof -
  have "list_receivables \<lparr>lfTenant = t, lfStore = a, lfState = b, lfPayer = c\<rparr> d n cur
      = list_receivables \<lparr>lfTenant = t, lfStore = a, lfState = b, lfPayer = c\<rparr> d' n cur" for a b c n cur
    using assms(2) by (intro list_receivables_view) simp
  moreover have "payerRefInScope t x d = payerRefInScope t x d'" "storeInScope t y d = storeInScope t y d'" for x y
    using assms(3,4) by (simp_all add: payerRefInScope_def storeInScope_def payerInScope_def split: option.splits)
  ultimately show ?thesis
    using assms(1) find_receivable_view [OF assms(2)]
    by (cases "assertUuid ref") (simp_all add: getReceivable_def listReceivables_def getOne_def)
qed

lemma reads_are_tenant_local_witness:
  "getReceivable (demo_req 1) (Some 31) (svcDb demo_svc)
    = getReceivable (demo_req 1) (Some 31) ((svcDb demo_svc)\<lparr>receivables := butlast (receivables (svcDb demo_svc))\<rparr>)"
  by (rule reads_are_tenant_local [THEN conjunct1, of _ 1])
     (simp_all add: demo_svc_def demo_db_def tenant_view_def demo_rcv_def)

text \<open>The listing is complete. A client that follows \<open>nextCursor\<close> from the start with any
  page size from 1 to 200 receives every receivable its filter selects exactly once, in descending
  id order, and then stops.\<close>

lemma listing_complete:
  assumes "settle_inv s" and "1 \<le> n \<and> n \<le> 200"
  shows "fetch_all (Suc (length (receivables s))) (list_receivables q s (int n)) None
    = Some (map toRow (order_desc rcvId (filter (list_visible q) (receivables s))))"
  using rcv_list.fetch_all_from_start [OF assms] .

lemma listing_complete_witness:
  "map_option (map rowId)
     (fetch_all 5 (list_receivables \<lparr>lfTenant = 1, lfStore = None, lfState = None, lfPayer = None\<rparr>
        (svcDb demo_svc) (int 2)) None) = Some [23, 22, 21]"
proof -
  have "length (receivables (svcDb demo_svc)) = 4" by (simp add: demo_svc_def demo_db_def)
  moreover have "order_desc rcvId (filter (list_visible \<lparr>lfTenant = 1, lfStore = None, lfState = None, lfPayer = None\<rparr>)
      (receivables (svcDb demo_svc))) = [demo_rcv 23 1 70000 Claimed, demo_rcv 22 1 500000 Open, demo_rcv 21 1 1000000 Open]"
    by code_simp
  ultimately show ?thesis
    using listing_complete [OF demo_inv, of 2] by (simp add: toRow_def demo_rcv_def)
qed

text \<open>A receivable can be stranded. A partial remittance reconciles its claim for good but
  leaves every line claimed, also a line it paid in full; such a line, claimed at balance zero with
  all its claims reconciled, is changed by no later request: it can never become settled.\<close>

lemma paid_claimed_line_stranded:
  assumes "settle_inv (svcDb s)" and "stuck_receivable r (svcDb s)"
  shows "r \<in> set (receivables (svcDb (settle_run ops s))) \<and> rcvState r = Claimed"
  using stuck_run [OF assms, of ops] by (simp add: stuck_receivable_def)

text \<open>The program reaches such a state: claim 21 and 22 together, then remit exactly what 21 owes.\<close>

definition stranded_svc :: settle_svc where
  "stranded_svc = settle_run
     [Post_claim (demo_req 1) (demo_ids 930) demo_claim,
      Post_remittance (demo_req 1) (demo_ids 940) (Some 930) \<lparr>mbAmount = ''100'', mbRef = None\<rparr>] demo_svc"

definition stranded_row :: receivable where
  "stranded_row = (demo_rcv 21 1 1000000 Open)\<lparr>rcvBalance := 0, rcvState := Claimed, rcvVersion := 2\<rparr>"

lemma paid_claimed_line_stranded_witness:
  "stranded_row \<in> set (receivables (svcDb (settle_run demo_ops stranded_svc))) \<and> rcvState stranded_row = Claimed"
proof (rule paid_claimed_line_stranded)
  show "settle_inv (svcDb stranded_svc)"
    unfolding stranded_svc_def by (rule settle_run_inv [OF demo_inv])
  show "stuck_receivable stranded_row (svcDb stranded_svc)" by code_simp
qed

text \<open>C7: Amounts round-trip. The scaled integer of a rendered amount is that amount, for every
  integer, also negative ones: the rendering loses nothing and the parser accepts all of it.\<close>

theorem money_roundtrip: "toScaledInt (fromScaledInt v) = Some v \<and> pg_numeric_text v = fromScaledInt v"
  by (simp add: pg_numeric_text_eq)

end
