(* ===== verification/Outbox.thy ===== *)
theory Outbox
  imports Lifecycle "HOL-Library.Product_Lexorder"
begin

text \<open>
  The transactional outbox: the table of migration 0006, the producer
  (packages/db/src/outbox/producer.ts), the claim and mark operations
  (packages/db/src/outbox/repository.ts), the drainer with its consumer registry
  (apps/worker/src/outbox/drainer.processor.ts, registry.ts) and the retention sweep
  (apps/worker/src/outbox/retention.policy.ts, retention.processor.ts,
  drizzle-outbox-retention.repository.ts).

  A \<open>timestamptz\<close> is an \<^typ>\<open>int\<close> number of microseconds; the clock of the worker process is in
  milliseconds. What another open transaction has locked is the argument \<open>locked\<close>, and the order the
  database scans rows of equal \<open>occurred_at\<close> in is the argument \<open>rank\<close>: both arbitrary.
\<close>

section \<open>The table\<close>

type_synonym timestamptz = int

datatype delivery_state = Ev_pending | Ev_claimed | Ev_delivered | Ev_failed | Ev_dead_lettered

record outbox_event =
  evId :: uuid
  evTenant :: uuid
  evStore :: "uuid option"
  evType :: string
  evPayload :: string
  evState :: delivery_state
  evAttempts :: nat
  evNextAt :: "timestamptz option"
  evLastError :: "string option"
  evOccurred :: timestamptz
  evCreated :: timestamptz
  evUpdated :: timestamptz
  evProcessed :: "timestamptz option"
  evCorrelation :: "uuid option"

section \<open>The producer\<close>

definition OUTBOX_EVENT_TYPES :: "string list" where
  "OUTBOX_EVENT_TYPES =
     [''audit.event.created'', ''inventory.movement.created'', ''sale.captured'',
      ''erpnext.posting.requested'', ''erpnext.reconciliation.requested'',
      ''erpnext.product_reconciliation.requested'']"

record emit_input =
  emType :: string
  emTenant :: uuid
  emStore :: "uuid option"
  emPayload :: string
  emCorrelation :: "uuid option"
  emOccurred :: "timestamptz option"

definition pending_event :: "uuid \<Rightarrow> timestamptz \<Rightarrow> emit_input \<Rightarrow> outbox_event" where
  "pending_event i now inp =
     \<lparr>evId = i, evTenant = emTenant inp, evStore = emStore inp, evType = emType inp,
      evPayload = emPayload inp, evState = Ev_pending, evAttempts = 0, evNextAt = None,
      evLastError = None, evOccurred = (case emOccurred inp of None \<Rightarrow> now | Some t \<Rightarrow> t),
      evCreated = now, evUpdated = now, evProcessed = None, evCorrelation = emCorrelation inp\<rparr>"

definition emit ::
    "uuid \<Rightarrow> timestamptz \<Rightarrow> emit_input \<Rightarrow> tenant_context \<Rightarrow> outbox_event list \<Rightarrow> exn + (uuid \<times> outbox_event list)" where
  "emit i now inp c rows =
     (if \<not> rls_tenant_or_admin c (emTenant inp) then Inl (Pg_error ''42501'')
      else if i \<in> evId ` set rows then Inl unique_violation
      else Inr (i, rows @ [pending_event i now inp]))"

definition emitInNewTransaction ::
    "uuid \<Rightarrow> timestamptz \<Rightarrow> tenant_context \<Rightarrow> emit_input \<Rightarrow> outbox_event list \<Rightarrow> (exn + uuid) \<times> outbox_event list" where
  "emitInNewTransaction i now ctx inp =
     runWithTenantContext ctx (\<lambda>c rows. case emit i now inp c rows of
        Inl e \<Rightarrow> Throws e
      | Inr (j, rows') \<Rightarrow> Returns j rows')"

section \<open>Claiming\<close>

record claimed_event =
  ceId :: uuid
  ceType :: string
  ceTenant :: uuid
  ceStore :: "uuid option"
  cePayload :: string
  ceCorrelation :: "uuid option"
  ceOccurred :: timestamptz
  ceAttempts :: nat

definition MAX_ATTEMPTS :: nat where
  "MAX_ATTEMPTS = 8"

definition nextAttemptDelayMs :: "nat \<Rightarrow> int" where
  "nextAttemptDelayMs attempts =
     (if attempts \<le> 1 then 30000
      else if attempts = 2 then 2 * 60000
      else if attempts = 3 then 10 * 60000
      else 60 * 60000)"

definition claimable :: "timestamptz \<Rightarrow> outbox_event \<Rightarrow> bool" where
  "claimable now e \<longleftrightarrow>
     (evState e = Ev_pending \<or> evState e = Ev_failed) \<and>
     (case evNextAt e of None \<Rightarrow> True | Some t \<Rightarrow> t \<le> now)"

text \<open>\<open>ORDER BY occurred_at ASC LIMIT n FOR UPDATE SKIP LOCKED\<close>.\<close>

definition scan_oldest ::
    "(uuid \<Rightarrow> bool) \<Rightarrow> (uuid \<Rightarrow> nat) \<Rightarrow> nat \<Rightarrow> (outbox_event \<Rightarrow> bool) \<Rightarrow> outbox_event list \<Rightarrow> uuid list" where
  "scan_oldest locked rank n p rows =
     map evId (take n (sort_key (\<lambda>e. (evOccurred e, rank (evId e)))
       (filter (\<lambda>e. p e \<and> \<not> locked (evId e)) rows)))"

definition claim_row :: "timestamptz \<Rightarrow> outbox_event \<Rightarrow> outbox_event" where
  "claim_row now e = e\<lparr>evState := Ev_claimed, evAttempts := evAttempts e + 1, evUpdated := now\<rparr>"

definition claimed_of :: "outbox_event \<Rightarrow> claimed_event" where
  "claimed_of e = \<lparr>ceId = evId e, ceType = evType e, ceTenant = evTenant e, ceStore = evStore e,
     cePayload = evPayload e, ceCorrelation = evCorrelation e, ceOccurred = evOccurred e,
     ceAttempts = evAttempts e\<rparr>"

definition claimBatchOnClient ::
    "timestamptz \<Rightarrow> (uuid \<Rightarrow> bool) \<Rightarrow> (uuid \<Rightarrow> nat) \<Rightarrow> nat \<Rightarrow> tenant_context \<Rightarrow> outbox_event list
     \<Rightarrow> (claimed_event list, outbox_event list) work_end" where
  "claimBatchOnClient now locked rank n c rows =
     (let ids = scan_oldest locked rank n (\<lambda>e. rls_tenant_or_admin c (evTenant e) \<and> claimable now e) rows;
          rows' = update_where (\<lambda>e. rls_tenant_or_admin c (evTenant e) \<and> evId e \<in> set ids) (claim_row now) rows
      in Returns (map claimed_of (filter (\<lambda>e. rls_tenant_or_admin c (evTenant e) \<and> evId e \<in> set ids) rows')) rows')"

definition claimBatch ::
    "timestamptz \<Rightarrow> (uuid \<Rightarrow> bool) \<Rightarrow> (uuid \<Rightarrow> nat) \<Rightarrow> int \<Rightarrow> outbox_event list
     \<Rightarrow> (exn + claimed_event list) \<times> outbox_event list" where
  "claimBatch now locked rank batchSize rows =
     (if batchSize \<le> 0 then (Inl (Js_error ''RangeError''), rows)
      else runWithTenantContext platform_ctx (claimBatchOnClient now locked rank (nat batchSize)) rows)"

section \<open>Marking\<close>

text \<open>\<open>UPDATE ... WHERE event_id = $1 AND delivery_state = 'claimed'\<close> with \<open>assertSingleRow\<close>.\<close>

definition transition_work ::
    "uuid \<Rightarrow> (outbox_event \<Rightarrow> outbox_event) \<Rightarrow> tenant_context \<Rightarrow> outbox_event list \<Rightarrow> (unit, outbox_event list) work_end" where
  "transition_work i f c rows =
     (let p = (\<lambda>e. rls_tenant_or_admin c (evTenant e) \<and> evId e = i \<and> evState e = Ev_claimed)
      in if length (filter p rows) = 1 then Returns () (update_where p f rows)
         else Throws (Js_error ''OutboxStateTransitionError''))"

definition delivered_row :: "timestamptz \<Rightarrow> outbox_event \<Rightarrow> outbox_event" where
  "delivered_row now e = e\<lparr>evState := Ev_delivered, evProcessed := Some now, evUpdated := now\<rparr>"

definition failed_row :: "timestamptz \<Rightarrow> string \<Rightarrow> timestamptz \<Rightarrow> outbox_event \<Rightarrow> outbox_event" where
  "failed_row now cls next e =
     e\<lparr>evState := Ev_failed, evLastError := Some cls, evNextAt := Some next, evUpdated := now\<rparr>"

definition dead_row :: "timestamptz \<Rightarrow> string \<Rightarrow> outbox_event \<Rightarrow> outbox_event" where
  "dead_row now cls e =
     e\<lparr>evState := Ev_dead_lettered, evLastError := Some cls, evProcessed := Some now, evUpdated := now\<rparr>"

definition markDelivered :: "timestamptz \<Rightarrow> uuid \<Rightarrow> outbox_event list \<Rightarrow> (exn + unit) \<times> outbox_event list" where
  "markDelivered now i = runWithTenantContext platform_ctx (transition_work i (delivered_row now))"

text \<open>\<open>nodeNow\<close> is \<open>Date.now()\<close> of the worker, in milliseconds.\<close>

definition markFailed ::
    "instant \<Rightarrow> timestamptz \<Rightarrow> uuid \<Rightarrow> nat \<Rightarrow> string \<Rightarrow> outbox_event list \<Rightarrow> (exn + unit) \<times> outbox_event list" where
  "markFailed nodeNow now i attempts cls rows =
     (if attempts \<ge> MAX_ATTEMPTS then (Inl (Js_error ''OutboxStateTransitionError''), rows)
      else let nextAttemptAt = nodeNow + nextAttemptDelayMs attempts
           in runWithTenantContext platform_ctx (transition_work i (failed_row now cls (1000 * nextAttemptAt))) rows)"

definition markDeadLettered ::
    "timestamptz \<Rightarrow> uuid \<Rightarrow> string \<Rightarrow> outbox_event list \<Rightarrow> (exn + unit) \<times> outbox_event list" where
  "markDeadLettered now i cls = runWithTenantContext platform_ctx (transition_work i (dead_row now cls))"

section \<open>The consumer registry\<close>

text \<open>What a consumer's \<open>handle\<close> does to the event: it returns, or throws an \<open>Error\<close> with a name, or
  throws something else. Its own effects are outside the outbox.\<close>

datatype js_thrown = Js_err string | Js_other

record consumer =
  consumerId :: string
  eventType :: string
  handle :: "claimed_event \<Rightarrow> js_thrown option"

type_synonym registry = "string \<rightharpoonup> consumer"

definition registry_register :: "consumer \<Rightarrow> registry \<Rightarrow> exn + registry" where
  "registry_register k reg =
     (case reg (eventType k) of
        Some existing \<Rightarrow> Inl (Js_error ''Error'')
      | None \<Rightarrow> Inr (reg(eventType k \<mapsto> k)))"

definition registry_resolve :: "registry \<Rightarrow> string \<Rightarrow> consumer option" where
  "registry_resolve reg ty = reg ty"

section \<open>The drainer\<close>

definition WORKER_ERROR_CLASSES :: "string list" where
  "WORKER_ERROR_CLASSES =
     [''TenantContextMissingError'', ''ZodValidationError'', ''PostgresUniqueViolation'',
      ''RedisConnectionError'', ''Timeout'', ''UnknownError'']"

definition sanitizeErrorClass :: "string option \<Rightarrow> string" where
  "sanitizeErrorClass className =
     (case className of
        None \<Rightarrow> ''UnknownError''
      | Some n \<Rightarrow> if n \<notin> set WORKER_ERROR_CLASSES then ''UnknownError'' else n)"

record drain_metrics =
  queueFailed :: "string \<Rightarrow> nat"
  queueRetry :: nat
  queueDeadLetter :: nat
  outboxDeadLetter :: "string \<Rightarrow> nat"
  drainDuration :: "string \<Rightarrow> nat"

definition recordQueueFailed :: "string \<Rightarrow> drain_metrics \<Rightarrow> drain_metrics" where
  "recordQueueFailed cls m = m\<lparr>queueFailed := (queueFailed m)(cls := queueFailed m cls + 1)\<rparr>"

definition recordQueueRetry :: "drain_metrics \<Rightarrow> drain_metrics" where
  "recordQueueRetry m = m\<lparr>queueRetry := queueRetry m + 1\<rparr>"

definition recordQueueDeadLetter :: "drain_metrics \<Rightarrow> drain_metrics" where
  "recordQueueDeadLetter m = m\<lparr>queueDeadLetter := queueDeadLetter m + 1\<rparr>"

definition recordOutboxDeadLetter :: "string \<Rightarrow> drain_metrics \<Rightarrow> drain_metrics" where
  "recordOutboxDeadLetter ty m = m\<lparr>outboxDeadLetter := (outboxDeadLetter m)(ty := outboxDeadLetter m ty + 1)\<rparr>"

definition recordOutboxDrainDuration :: "string \<Rightarrow> drain_metrics \<Rightarrow> drain_metrics" where
  "recordOutboxDrainDuration ty m = m\<lparr>drainDuration := (drainDuration m)(ty := drainDuration m ty + 1)\<rparr>"

definition extractErrorClass :: "js_thrown \<Rightarrow> string" where
  "extractErrorClass err = (case err of Js_err n \<Rightarrow> if n = [] then ''Error'' else n | Js_other \<Rightarrow> ''UnknownError'')"

text \<open>
  One row. The clocks are read once per row: the worker's for the backoff, the database's in the
  mark. The safe wrappers log a failed mark and drop it, so only the table of the mark is kept.
\<close>

record clocks =
  nodeNow :: instant
  dbNow :: timestamptz

definition processRow_marks ::
    "registry \<Rightarrow> clocks \<Rightarrow> claimed_event \<Rightarrow> outbox_event list \<Rightarrow> outbox_event list" where
  "processRow_marks reg clk row rows =
     (case registry_resolve reg (ceType row) of
        None \<Rightarrow> snd (markFailed (nodeNow clk) (dbNow clk) (ceId row) (ceAttempts row) ''UnroutableEventType'' rows)
      | Some consumer \<Rightarrow>
          (case handle consumer row of
             None \<Rightarrow> snd (markDelivered (dbNow clk) (ceId row) rows)
           | Some err \<Rightarrow>
               (let errorClass = extractErrorClass err in
                if ceAttempts row \<ge> MAX_ATTEMPTS
                then snd (markDeadLettered (dbNow clk) (ceId row) errorClass rows)
                else snd (markFailed (nodeNow clk) (dbNow clk) (ceId row) (ceAttempts row) errorClass rows))))"

definition processRow_metrics :: "registry \<Rightarrow> claimed_event \<Rightarrow> drain_metrics \<Rightarrow> drain_metrics" where
  "processRow_metrics reg row m =
     recordOutboxDrainDuration (ceType row)
      (case registry_resolve reg (ceType row) of
         None \<Rightarrow> recordQueueRetry (recordQueueFailed (sanitizeErrorClass (Some ''UnroutableEventType'')) m)
       | Some consumer \<Rightarrow>
           (case handle consumer row of
              None \<Rightarrow> m
            | Some err \<Rightarrow>
                (let m1 = recordQueueFailed (sanitizeErrorClass (Some (extractErrorClass err))) m in
                 if ceAttempts row \<ge> MAX_ATTEMPTS
                 then recordOutboxDeadLetter (ceType row) (recordQueueDeadLetter m1)
                 else recordQueueRetry m1)))"

definition processRow ::
    "registry \<Rightarrow> (uuid \<Rightarrow> clocks) \<Rightarrow> claimed_event \<Rightarrow> outbox_event list \<times> drain_metrics
     \<Rightarrow> outbox_event list \<times> drain_metrics" where
  "processRow reg clk row s =
     (processRow_marks reg (clk (ceId row)) row (fst s), processRow_metrics reg row (snd s))"

text \<open>\<open>Promise.all\<close> over the batch: the rows finish in some order, here that of the list.\<close>

definition process_rows ::
    "registry \<Rightarrow> (uuid \<Rightarrow> clocks) \<Rightarrow> claimed_event list \<Rightarrow> outbox_event list \<times> drain_metrics
     \<Rightarrow> outbox_event list \<times> drain_metrics" where
  "process_rows reg clk batch s = fold (processRow reg clk) batch s"

definition tick ::
    "registry \<Rightarrow> (uuid \<Rightarrow> clocks) \<Rightarrow> timestamptz \<Rightarrow> (uuid \<Rightarrow> bool) \<Rightarrow> (uuid \<Rightarrow> nat) \<Rightarrow> int
     \<Rightarrow> outbox_event list \<times> drain_metrics \<Rightarrow> outbox_event list \<times> drain_metrics" where
  "tick reg clk now locked rank batchSize s =
     (case claimBatch now locked rank batchSize (fst s) of
        (Inl _, rows) \<Rightarrow> process_rows reg clk [] (rows, snd s)
      | (Inr batch, rows) \<Rightarrow> process_rows reg clk batch (rows, snd s))"

section \<open>The poll loop\<close>

text \<open>\<open>dpTicks\<close> counts the timer-driven ticks that have started and not finished.\<close>

record drainer_loop =
  dpRunning :: bool
  dpTimer :: bool
  dpInFlight :: bool
  dpTicks :: nat

datatype loop_event = Loop_start | Loop_stop | Timer_fires | Tick_finishes

fun loop_step :: "loop_event \<Rightarrow> drainer_loop \<Rightarrow> drainer_loop" where
  "loop_step Loop_start s = (if dpRunning s then s else s\<lparr>dpRunning := True, dpTimer := True\<rparr>)"
| "loop_step Loop_stop s = s\<lparr>dpTimer := False, dpRunning := False\<rparr>"
| "loop_step Timer_fires s =
     (if \<not> dpTimer s then s
      else if dpInFlight s then s
      else s\<lparr>dpInFlight := True, dpTicks := dpTicks s + 1\<rparr>)"
| "loop_step Tick_finishes s =
     (if dpTicks s = 0 then s else s\<lparr>dpInFlight := False, dpTicks := dpTicks s - 1\<rparr>)"

section \<open>Retention\<close>

definition DELIVERED_RETENTION_DAYS :: int where "DELIVERED_RETENTION_DAYS = 90"
definition FAILED_RETENTION_DAYS :: int where "FAILED_RETENTION_DAYS = 365"
definition BATCH_SIZE :: nat where "BATCH_SIZE = 1000"
definition AUDIT_EVENT_TYPE :: string where "AUDIT_EVENT_TYPE = ''audit.event.created''"

definition computeCutoff :: "instant \<Rightarrow> int \<Rightarrow> instant" where
  "computeCutoff now days = now - days * 86400000"

record retention_cutoffs =
  deliveredCutoff :: instant
  failedCutoff :: instant

definition computeRetentionCutoffs :: "instant \<Rightarrow> retention_cutoffs" where
  "computeRetentionCutoffs now =
     \<lparr>deliveredCutoff = computeCutoff now DELIVERED_RETENTION_DAYS,
      failedCutoff = computeCutoff now FAILED_RETENTION_DAYS\<rparr>"

text \<open>The predicate of \<open>PURGE_BATCH_SQL\<close>; a comparison with a null \<open>processed_at\<close> is not true.\<close>

definition before :: "timestamptz option \<Rightarrow> instant \<Rightarrow> bool" where
  "before t cutoff = (case t of None \<Rightarrow> False | Some x \<Rightarrow> x < 1000 * cutoff)"

definition purgeable :: "retention_cutoffs \<Rightarrow> outbox_event \<Rightarrow> bool" where
  "purgeable co e \<longleftrightarrow>
     (evState e = Ev_delivered \<and> evType e \<noteq> AUDIT_EVENT_TYPE \<and> before (evProcessed e) (deliveredCutoff co)) \<or>
     ((evState e = Ev_failed \<or> evState e = Ev_dead_lettered) \<and>
      before (Some (case evProcessed e of Some t \<Rightarrow> t | None \<Rightarrow> evUpdated e)) (failedCutoff co)) \<or>
     (evState e = Ev_delivered \<and> evType e = AUDIT_EVENT_TYPE \<and> before (evProcessed e) (failedCutoff co))"

definition purgeBatch_work ::
    "retention_cutoffs \<Rightarrow> (uuid \<Rightarrow> bool) \<Rightarrow> (uuid \<Rightarrow> nat) \<Rightarrow> nat \<Rightarrow> tenant_context \<Rightarrow> outbox_event list
     \<Rightarrow> (nat, outbox_event list) work_end" where
  "purgeBatch_work co locked rank n c rows =
     (let ids = scan_oldest locked rank n (\<lambda>e. rls_tenant_or_admin c (evTenant e) \<and> purgeable co e) rows;
          gone = (\<lambda>e. rls_tenant_or_admin c (evTenant e) \<and> evId e \<in> set ids)
      in Returns (length (filter gone rows)) (filter (\<lambda>e. \<not> gone e) rows))"

definition purgeBatch ::
    "retention_cutoffs \<Rightarrow> (uuid \<Rightarrow> bool) \<Rightarrow> (uuid \<Rightarrow> nat) \<Rightarrow> nat \<Rightarrow> outbox_event list
     \<Rightarrow> (exn + nat) \<times> outbox_event list" where
  "purgeBatch co locked rank n = runWithTenantContext platform_ctx (purgeBatch_work co locked rank n)"

text \<open>The do-while loop of \<open>process\<close>: purge until a batch is not full.\<close>

record sweep_result =
  purgedCount :: nat
  batchCount :: nat

function (sequential) sweep_loop ::
    "retention_cutoffs \<Rightarrow> (uuid \<Rightarrow> bool) \<Rightarrow> (uuid \<Rightarrow> nat) \<Rightarrow> sweep_result \<Rightarrow> outbox_event list
     \<Rightarrow> (exn + sweep_result) \<times> outbox_event list" where
  "sweep_loop co locked rank acc rows =
     (case purgeBatch co locked rank BATCH_SIZE rows of
        (Inl e, rows') \<Rightarrow> (Inl e, rows')
      | (Inr batchPurged, rows') \<Rightarrow>
          (let acc' = \<lparr>purgedCount = purgedCount acc + batchPurged, batchCount = batchCount acc + 1\<rparr>
           in if batchPurged = BATCH_SIZE then sweep_loop co locked rank acc' rows' else (Inr acc', rows')))"
  by pat_completeness auto

lemma purgeBatch_length:
  "purgeBatch co locked rank n rows = (Inr k, rows') \<Longrightarrow> length rows' + k = length rows"
  by (auto simp: purgeBatch_def purgeBatch_work_def runWithTenantContext_def Let_def
      sum_length_filter_compl add.commute)

termination sweep_loop
  by (relation "measure (\<lambda>(_, _, _, _, rows). length rows)")
     (auto simp: BATCH_SIZE_def dest!: purgeBatch_length [OF sym])

declare sweep_loop.simps [simp del]

definition OUTBOX_RETENTION_JOB_NAME :: string where
  "OUTBOX_RETENTION_JOB_NAME = ''outbox-retention-sweep''"

text \<open>\<open>OutboxRetentionProcessor.process\<close>; \<open>isObject\<close> is the verdict of the schema on the payload.\<close>

definition retention_process ::
    "string \<Rightarrow> bool \<Rightarrow> instant \<Rightarrow> (uuid \<Rightarrow> bool) \<Rightarrow> (uuid \<Rightarrow> nat) \<Rightarrow> outbox_event list
     \<Rightarrow> (exn + sweep_result) \<times> outbox_event list" where
  "retention_process jobName isObject now locked rank rows =
     (if jobName \<noteq> OUTBOX_RETENTION_JOB_NAME then (Inl (Js_error ''UnknownOutboxRetentionJobError''), rows)
      else if \<not> isObject then (Inl (Js_error ''MalformedOutboxRetentionJobError''), rows)
      else sweep_loop (computeRetentionCutoffs now) locked rank \<lparr>purgedCount = 0, batchCount = 0\<rparr> rows)"

end
