(* ===== verification/OutboxFacts.thy ===== *)
theory OutboxFacts
  imports Outbox
begin

text \<open>
  The library of the outbox: what the marks, a claim and a purge do to the table, the system of
  concurrent drainers as a step relation, its invariant, and the commutation of the rows of a batch.
\<close>

section \<open>Marks\<close>

lemma run_platform:
  "runWithTenantContext platform_ctx (transition_work i f) rows =
     (if length (filter (\<lambda>e. evId e = i \<and> evState e = Ev_claimed) rows) = 1
      then (Inr (), update_where (\<lambda>e. evId e = i \<and> evState e = Ev_claimed) f rows)
      else (Inl (Js_error ''OutboxStateTransitionError''), rows))"
  by (simp add: runWithTenantContext_def transition_work_def Let_def)

definition mark :: "uuid \<Rightarrow> (outbox_event \<Rightarrow> outbox_event) \<Rightarrow> outbox_event list \<Rightarrow> outbox_event list" where
  "mark i f rows = snd (runWithTenantContext platform_ctx (transition_work i f) rows)"

lemma mark_eq:
  "mark i f rows =
     (if length (filter (\<lambda>e. evId e = i \<and> evState e = Ev_claimed) rows) = 1
      then update_where (\<lambda>e. evId e = i \<and> evState e = Ev_claimed) f rows else rows)"
  by (simp add: mark_def run_platform)

text \<open>The mark a processed row makes, when it makes one: the row it writes.\<close>

definition mark_of :: "registry \<Rightarrow> clocks \<Rightarrow> claimed_event \<Rightarrow> (outbox_event \<Rightarrow> outbox_event) option" where
  "mark_of reg clk x =
     (let fail = (\<lambda>cls. if ceAttempts x \<ge> MAX_ATTEMPTS then None
                        else Some (failed_row (dbNow clk) cls (1000 * (nodeNow clk + nextAttemptDelayMs (ceAttempts x)))))
      in case reg (ceType x) of
        None \<Rightarrow> fail ''UnroutableEventType''
      | Some k \<Rightarrow>
          (case handle k x of
             None \<Rightarrow> Some (delivered_row (dbNow clk))
           | Some err \<Rightarrow>
               (if ceAttempts x \<ge> MAX_ATTEMPTS then Some (dead_row (dbNow clk) (extractErrorClass err))
                else fail (extractErrorClass err))))"

lemma processRow_marks_eq:
  "processRow_marks reg clk x rows = (case mark_of reg clk x of None \<Rightarrow> rows | Some f \<Rightarrow> mark (ceId x) f rows)"
  by (simp add: processRow_marks_def mark_of_def mark_def registry_resolve_def markFailed_def markDelivered_def
      markDeadLettered_def Let_def split: option.splits)

lemma mark_of_id: "mark_of reg clk x = Some f \<Longrightarrow> evId (f e) = evId e"
  by (auto simp: mark_of_def Let_def delivered_row_def failed_row_def dead_row_def split: option.splits if_splits)

section \<open>Rows finish in any order\<close>

lemma filter_update_other:
  "(\<And>e. evId (f e) = evId e) \<Longrightarrow> i \<noteq> j \<Longrightarrow>
   filter (\<lambda>e. evId e = i \<and> evState e = Ev_claimed) (update_where (\<lambda>e. evId e = j \<and> evState e = Ev_claimed) f rows)
   = filter (\<lambda>e. evId e = i \<and> evState e = Ev_claimed) rows"
  by (intro filter_update_where_other) auto

lemma update_update_other:
  assumes "\<And>e. evId (f e) = evId e" and "\<And>e. evId (g e) = evId e" and "i \<noteq> j"
  shows "update_where (\<lambda>e. evId e = i \<and> evState e = Ev_claimed) f (update_where (\<lambda>e. evId e = j \<and> evState e = Ev_claimed) g rows)
    = update_where (\<lambda>e. evId e = j \<and> evState e = Ev_claimed) g (update_where (\<lambda>e. evId e = i \<and> evState e = Ev_claimed) f rows)"
  using assms by (induction rows) auto

lemma mark_commute:
  assumes "\<And>e. evId (f e) = evId e" and "\<And>e. evId (g e) = evId e" and "i \<noteq> j"
  shows "mark i f (mark j g rows) = mark j g (mark i f rows)"
  using assms(3) update_update_other [OF assms, of rows] filter_update_other [OF assms(1), of j i rows]
    filter_update_other [OF assms(2), of i j rows]
  by (simp add: mark_eq)

lemma processRow_marks_commute:
  assumes "ceId x \<noteq> ceId y"
  shows "processRow_marks reg a x (processRow_marks reg b y rows) = processRow_marks reg b y (processRow_marks reg a x rows)"
proof (cases "mark_of reg a x")
  case None
  then show ?thesis by (simp add: processRow_marks_eq)
next
  case f: (Some f)
  show ?thesis
  proof (cases "mark_of reg b y")
    case None
    then show ?thesis by (simp add: processRow_marks_eq)
  next
    case g: (Some g)
    with f mark_commute [OF mark_of_id [OF f] mark_of_id [OF g] assms] show ?thesis
      by (simp add: processRow_marks_eq)
  qed
qed

text \<open>The counters a row adds, as an increment.\<close>

definition bump :: "(string \<Rightarrow> nat) \<Rightarrow> nat \<Rightarrow> nat \<Rightarrow> (string \<Rightarrow> nat) \<Rightarrow> (string \<Rightarrow> nat) \<Rightarrow> drain_metrics \<Rightarrow> drain_metrics" where
  "bump a b c d e m = \<lparr>queueFailed = (\<lambda>k. queueFailed m k + a k), queueRetry = queueRetry m + b,
     queueDeadLetter = queueDeadLetter m + c, outboxDeadLetter = (\<lambda>k. outboxDeadLetter m k + d k),
     drainDuration = (\<lambda>k. drainDuration m k + e k)\<rparr>"

definition adds :: "(drain_metrics \<Rightarrow> drain_metrics) \<Rightarrow> bool" where
  "adds g \<longleftrightarrow> (\<exists>a b c d e. \<forall>m. g m = bump a b c d e m)"

lemma addsI: "(\<And>m. g m = bump a b c d e m) \<Longrightarrow> adds g"
  unfolding adds_def by (intro exI allI)

lemma adds_id: "adds (\<lambda>m. m)"
  by (rule addsI [where a = "\<lambda>_. 0" and b = 0 and c = 0 and d = "\<lambda>_. 0" and e = "\<lambda>_. 0"]) (simp add: bump_def)

lemma bump_bump:
  "bump a b c d e (bump a' b' c' d' e' m) = bump (\<lambda>k. a k + a' k) (b + b') (c + c') (\<lambda>k. d k + d' k) (\<lambda>k. e k + e' k) m"
  by (simp add: bump_def add.commute add.left_commute)

lemma adds_comp:
  assumes "adds g" and "adds h"
  shows "adds (\<lambda>m. g (h m))"
proof -
  obtain a b c d e where "\<And>m. g m = bump a b c d e m" using assms(1) by (auto simp: adds_def)
  moreover obtain a' b' c' d' e' where "\<And>m. h m = bump a' b' c' d' e' m" using assms(2) by (auto simp: adds_def)
  ultimately show ?thesis by (intro addsI) (simp add: bump_bump)
qed

lemma adds_record:
  "adds (recordQueueFailed k)" "adds recordQueueRetry" "adds recordQueueDeadLetter"
  "adds (recordOutboxDeadLetter k)" "adds (recordOutboxDrainDuration k)"
proof -
  let ?one = "\<lambda>x. if x = k then 1 else (0::nat)" and ?z = "\<lambda>_. 0::nat"
  show "adds (recordQueueFailed k)"
    by (rule addsI [where a = ?one and b = 0 and c = 0 and d = ?z and e = ?z])
       (auto simp: bump_def recordQueueFailed_def intro!: drain_metrics.equality)
  show "adds recordQueueRetry"
    by (rule addsI [where a = ?z and b = 1 and c = 0 and d = ?z and e = ?z])
       (auto simp: bump_def recordQueueRetry_def intro!: drain_metrics.equality)
  show "adds recordQueueDeadLetter"
    by (rule addsI [where a = ?z and b = 0 and c = 1 and d = ?z and e = ?z])
       (auto simp: bump_def recordQueueDeadLetter_def intro!: drain_metrics.equality)
  show "adds (recordOutboxDeadLetter k)"
    by (rule addsI [where a = ?z and b = 0 and c = 0 and d = ?one and e = ?z])
       (auto simp: bump_def recordOutboxDeadLetter_def intro!: drain_metrics.equality)
  show "adds (recordOutboxDrainDuration k)"
    by (rule addsI [where a = ?z and b = 0 and c = 0 and d = ?z and e = ?one])
       (auto simp: bump_def recordOutboxDrainDuration_def intro!: drain_metrics.equality)
qed

lemma adds_processRow_metrics: "adds (processRow_metrics reg x)"
proof -
  have "adds (\<lambda>m. case registry_resolve reg (ceType x) of
         None \<Rightarrow> recordQueueRetry (recordQueueFailed (sanitizeErrorClass (Some ''UnroutableEventType'')) m)
       | Some consumer \<Rightarrow>
           (case handle consumer x of
              None \<Rightarrow> m
            | Some err \<Rightarrow>
                (let m1 = recordQueueFailed (sanitizeErrorClass (Some (extractErrorClass err))) m in
                 if ceAttempts x \<ge> MAX_ATTEMPTS
                 then recordOutboxDeadLetter (ceType x) (recordQueueDeadLetter m1)
                 else recordQueueRetry m1)))"
  proof (cases "registry_resolve reg (ceType x)")
    case None
    then show ?thesis using adds_comp [OF adds_record(2,1)] by simp
  next
    case (Some k)
    then show ?thesis
      using adds_comp [OF adds_record(2,1)] adds_comp [OF adds_record(4) adds_comp [OF adds_record(3,1)]] adds_id
      by (cases "handle k x"; cases "ceAttempts x \<ge> MAX_ATTEMPTS") simp_all
  qed
  from adds_comp [OF adds_record(5) this] show ?thesis
    unfolding processRow_metrics_def .
qed

lemma adds_commute: "adds g \<Longrightarrow> adds h \<Longrightarrow> g (h m) = h (g m)"
  by (auto simp: adds_def bump_bump add.commute)

lemma processRow_metrics_commute:
  "processRow_metrics reg x (processRow_metrics reg y m) = processRow_metrics reg y (processRow_metrics reg x m)"
  by (intro adds_commute adds_processRow_metrics)

lemma processRow_commute:
  assumes "ceId x \<noteq> ceId y \<or> x = y"
  shows "processRow reg clk x \<circ> processRow reg clk y = processRow reg clk y \<circ> processRow reg clk x"
proof (cases "x = y")
  case False
  with assms have "ceId x \<noteq> ceId y" by simp
  then show ?thesis
    by (simp add: fun_eq_iff processRow_def processRow_marks_commute processRow_metrics_commute)
qed simp

lemma process_rows_perm:
  assumes "distinct (map ceId xs)" and "mset xs = mset ys"
  shows "process_rows reg clk xs s = process_rows reg clk ys s"
proof -
  have "fold (processRow reg clk) xs = fold (processRow reg clk) ys"
  proof (rule fold_multiset_equiv [OF _ assms(2)])
    fix x y
    assume "x \<in> set xs" "y \<in> set xs"
    then show "processRow reg clk x \<circ> processRow reg clk y = processRow reg clk y \<circ> processRow reg clk x"
      using distinct_key_unique [OF assms(1)] by (intro processRow_commute) blast
  qed
  then show ?thesis by (simp add: process_rows_def)
qed

section \<open>Claims and purges\<close>

lemma set_scan_oldest:
  "set (scan_oldest locked rank n p rows) \<subseteq> evId ` {e \<in> set rows. p e \<and> \<not> locked (evId e)}"
  by (auto simp: scan_oldest_def dest: in_set_takeD)

lemma claimBatch_cases:
  assumes "claimBatch now locked rank n rows = (Inr batch, rows')" and "distinct (map evId rows)"
  obtains p where "\<forall>e \<in> set rows. p e \<longrightarrow> claimable now e \<and> \<not> locked (evId e)"
    "rows' = update_where p (claim_row now) rows"
    "batch = map (\<lambda>e. claimed_of (claim_row now e)) (filter p rows)"
proof -
  define ids where "ids = scan_oldest locked rank (nat n) (\<lambda>e. claimable now e) rows"
  from assms(1) have eq: "rows' = update_where (\<lambda>e. evId e \<in> set ids) (claim_row now) rows"
    "batch = map claimed_of (filter (\<lambda>e. evId e \<in> set ids) rows')"
    by (auto simp: claimBatch_def claimBatchOnClient_def runWithTenantContext_def Let_def ids_def split: if_splits)
  have "claimable now e \<and> \<not> locked (evId e)" if "e \<in> set rows" "evId e \<in> set ids" for e
    using set_scan_oldest [of locked rank "nat n" "claimable now" rows] that distinct_key_unique [OF assms(2) that(1)]
    by (auto simp: ids_def)
  moreover have "filter (\<lambda>e. evId e \<in> set ids) (update_where (\<lambda>e. evId e \<in> set ids) (claim_row now) rows)
      = map (claim_row now) (filter (\<lambda>e. evId e \<in> set ids) rows)"
    by (induction rows) (simp_all add: claim_row_def)
  ultimately show thesis
    using eq by (intro that [of "\<lambda>e. evId e \<in> set ids"]) simp_all
qed

lemma purgeBatch_cases:
  assumes "purgeBatch co locked rank n rows = (Inr k, rows')" and "distinct (map evId rows)"
  obtains p where "\<forall>e \<in> set rows. p e \<longrightarrow> purgeable co e \<and> \<not> locked (evId e)"
    "rows' = filter (\<lambda>e. \<not> p e) rows" "k = length (filter p rows)"
proof -
  define ids where "ids = scan_oldest locked rank n (\<lambda>e. purgeable co e) rows"
  from assms(1) have eq: "rows' = filter (\<lambda>e. evId e \<notin> set ids) rows" "k = length (filter (\<lambda>e. evId e \<in> set ids) rows)"
    by (auto simp: purgeBatch_def purgeBatch_work_def runWithTenantContext_def Let_def ids_def)
  have "purgeable co e \<and> \<not> locked (evId e)" if "e \<in> set rows" "evId e \<in> set ids" for e
    using set_scan_oldest [of locked rank n "purgeable co" rows] that distinct_key_unique [OF assms(2) that(1)]
    by (auto simp: ids_def)
  with eq show thesis by (intro that [of "\<lambda>e. evId e \<in> set ids"]) simp_all
qed

section \<open>Concurrent drainers\<close>

text \<open>
  The table and the claimed events some drainer still holds. Any number of replicas run: a claim
  adds its batch, a processed row leaves, a crash forgets a row, and producers and the retention
  sweep run at any time.
\<close>

record outbox_sys =
  osRows :: "outbox_event list"
  osInFlight :: "claimed_event list"

inductive outbox_step :: "registry \<Rightarrow> outbox_sys \<Rightarrow> outbox_sys \<Rightarrow> bool" for reg where
  step_emit: "emit i now inp c (osRows s) = Inr (j, rows') \<Longrightarrow> outbox_step reg s (s\<lparr>osRows := rows'\<rparr>)"
| step_claim: "claimBatch now locked rank n (osRows s) = (Inr batch, rows') \<Longrightarrow>
    outbox_step reg s \<lparr>osRows = rows', osInFlight = osInFlight s @ batch\<rparr>"
| step_process: "x \<in> set (osInFlight s) \<Longrightarrow>
    outbox_step reg s \<lparr>osRows = processRow_marks reg clk x (osRows s), osInFlight = remove1 x (osInFlight s)\<rparr>"
| step_crash: "x \<in> set (osInFlight s) \<Longrightarrow> outbox_step reg s (s\<lparr>osInFlight := remove1 x (osInFlight s)\<rparr>)"
| step_purge: "purgeBatch co locked rank n (osRows s) = (Inr k, rows') \<Longrightarrow> outbox_step reg s (s\<lparr>osRows := rows'\<rparr>)"

definition ev_ok :: "outbox_event \<Rightarrow> bool" where
  "ev_ok e \<longleftrightarrow>
     (case evState e of
        Ev_pending \<Rightarrow> evAttempts e = 0 \<and> evNextAt e = None \<and> evProcessed e = None
      | Ev_claimed \<Rightarrow> 1 \<le> evAttempts e \<and> evAttempts e \<le> MAX_ATTEMPTS \<and> evProcessed e = None
      | Ev_failed \<Rightarrow> 1 \<le> evAttempts e \<and> evAttempts e < MAX_ATTEMPTS \<and> evNextAt e \<noteq> None \<and>
          evLastError e \<noteq> None \<and> evProcessed e = None
      | Ev_delivered \<Rightarrow> 1 \<le> evAttempts e \<and> evAttempts e \<le> MAX_ATTEMPTS \<and> evProcessed e \<noteq> None
      | Ev_dead_lettered \<Rightarrow> evAttempts e = MAX_ATTEMPTS \<and> evLastError e \<noteq> None \<and> evProcessed e \<noteq> None)"

definition held :: "outbox_event list \<Rightarrow> claimed_event \<Rightarrow> bool" where
  "held rows x \<longleftrightarrow> (\<exists>e \<in> set rows. evState e = Ev_claimed \<and> claimed_of e = x)"

definition outbox_inv :: "outbox_sys \<Rightarrow> bool" where
  "outbox_inv s \<longleftrightarrow>
     distinct (map evId (osRows s)) \<and> (\<forall>e \<in> set (osRows s). ev_ok e) \<and>
     distinct (map ceId (osInFlight s)) \<and> (\<forall>x \<in> set (osInFlight s). held (osRows s) x)"

lemma claimed_of_id [simp]: "ceId (claimed_of e) = evId e"
  by (simp add: claimed_of_def)

lemma claim_row_id [simp]: "evId (claim_row now e) = evId e"
  by (simp add: claim_row_def)

text \<open>A held event is the row it was claimed from, and the mark of a held row hits that row only.\<close>

lemma held_row:
  assumes "distinct (map evId rows)" and "held rows x"
  obtains e where "e \<in> set rows" "evState e = Ev_claimed" "claimed_of e = x"
    "filter (\<lambda>r. evId r = ceId x \<and> evState r = Ev_claimed) rows = [e]"
    "\<forall>r \<in> set rows. evId r = ceId x \<longrightarrow> r = e"
proof -
  obtain e where e: "e \<in> set rows" "evState e = Ev_claimed" "claimed_of e = x"
    using assms(2) by (auto simp: held_def)
  then have id: "evId e = ceId x" using claimed_of_id [of e] by simp
  have uniq: "\<forall>r \<in> set rows. evId r = ceId x \<longrightarrow> r = e"
    by (intro ballI impI distinct_key_unique [OF assms(1) _ e(1)]) (simp_all add: id)
  have "filter (\<lambda>r. evId r = ceId x \<and> evState r = Ev_claimed) rows = filter (\<lambda>r. evId r = ceId x) rows"
    using uniq e(2) by (intro filter_cong) auto
  also have "\<dots> = [e]" by (rule filter_key_unique [OF assms(1) e(1) id])
  finally show thesis by (rule that [OF e _ uniq])
qed

lemma mark_held:
  assumes "distinct (map evId rows)" and "held rows x"
  shows "mark (ceId x) f rows = update_where (\<lambda>e. evId e = ceId x) f rows"
proof -
  obtain e where "e \<in> set rows" and e': "evState e = Ev_claimed" and "claimed_of e = x"
    and e: "filter (\<lambda>r. evId r = ceId x \<and> evState r = Ev_claimed) rows = [e]"
    "\<forall>r \<in> set rows. evId r = ceId x \<longrightarrow> r = e"
    by (rule held_row [OF assms])
  have "update_where (\<lambda>e. evId e = ceId x \<and> evState e = Ev_claimed) f rows = update_where (\<lambda>e. evId e = ceId x) f rows"
    unfolding update_where_def using e(2) e' by (intro map_cong) auto
  with e(1) show ?thesis by (simp add: mark_eq)
qed

lemma held_update_other:
  assumes "held rows y" and "ceId y \<noteq> i"
  shows "held (update_where (\<lambda>e. evId e = i) f rows) y"
proof -
  from assms(1) obtain e where e: "e \<in> set rows" "evState e = Ev_claimed" "claimed_of e = y"
    by (auto simp: held_def)
  with assms(2) have "evId e \<noteq> i" using claimed_of_id [of e] by simp
  with e(1) have "e \<in> set (update_where (\<lambda>e. evId e = i) f rows)"
    by (auto simp: set_update_where image_iff intro!: bexI [of _ e])
  with e(2,3) show ?thesis by (auto simp: held_def)
qed

lemma ev_ok_mark:
  assumes "mark_of reg clk (claimed_of e) = Some f" and "ev_ok e" and "evState e = Ev_claimed"
  shows "ev_ok (f e)"
proof -
  have att: "ceAttempts (claimed_of e) = evAttempts e" by (simp add: claimed_of_def)
  from assms(2,3) have ok: "1 \<le> evAttempts e" "evAttempts e \<le> MAX_ATTEMPTS" "evProcessed e = None"
    by (simp_all add: ev_ok_def)
  consider "f = delivered_row (dbNow clk)"
    | c where "f = dead_row (dbNow clk) c" "MAX_ATTEMPTS \<le> evAttempts e"
    | c n where "f = failed_row (dbNow clk) c n" "evAttempts e < MAX_ATTEMPTS"
    using assms(1) by (auto simp: mark_of_def Let_def att split: option.splits if_splits)
  then show ?thesis
    using ok by cases (auto simp: ev_ok_def delivered_row_def dead_row_def failed_row_def)
qed

lemma in_remove1_ids:
  assumes "distinct (map ceId xs)" and "x \<in> set xs"
  shows "distinct (map ceId (remove1 x xs)) \<and> set (remove1 x xs) = {y \<in> set xs. ceId y \<noteq> ceId x}"
proof -
  have d: "distinct xs" using assms(1) by (simp add: distinct_map)
  have "set (remove1 x xs) = {y \<in> set xs. ceId y \<noteq> ceId x}"
    using distinct_key_unique [OF assms(1) _ assms(2)] by (auto simp: set_remove1_eq [OF d])
  moreover have "distinct (map ceId (remove1 x xs))"
    using assms(1) d by (simp add: distinct_map inj_on_def set_remove1_eq)
  ultimately show ?thesis by simp
qed

section \<open>The invariant is kept\<close>

lemma ev_ok_claim: "ev_ok r \<Longrightarrow> claimable now r \<Longrightarrow> ev_ok (claim_row now r)"
  by (auto simp: ev_ok_def claim_row_def claimable_def MAX_ATTEMPTS_def)

lemma outbox_inv_claim:
  assumes "outbox_inv s" and "claimBatch now locked rank n (osRows s) = (Inr batch, rows')"
  shows "outbox_inv \<lparr>osRows = rows', osInFlight = osInFlight s @ batch\<rparr>"
proof -
  have d: "distinct (map evId (osRows s))" and ok: "\<forall>e \<in> set (osRows s). ev_ok e"
    and di: "distinct (map ceId (osInFlight s))" and h: "\<forall>x \<in> set (osInFlight s). held (osRows s) x"
    using assms(1) by (simp_all add: outbox_inv_def)
  obtain p where p: "\<forall>e \<in> set (osRows s). p e \<longrightarrow> claimable now e \<and> \<not> locked (evId e)"
    and rows': "rows' = update_where p (claim_row now) (osRows s)"
    and batch: "batch = map (\<lambda>e. claimed_of (claim_row now e)) (filter p (osRows s))"
    by (rule claimBatch_cases [OF assms(2) d])
  have np: "\<not> p e" if "e \<in> set (osRows s)" "evState e = Ev_claimed" for e
    using p that by (auto simp: claimable_def)
  have "distinct (map evId rows')" using d by (simp add: rows' map_update_where)
  moreover have "ev_ok e" if "e \<in> set rows'" for e
  proof -
    from that obtain r where r: "r \<in> set (osRows s)" "e = (if p r then claim_row now r else r)"
      by (auto simp: rows' set_update_where)
    with ok p show ?thesis using ev_ok_claim [of r now] by (auto split: if_splits)
  qed
  moreover have ids: "map ceId batch = map evId (filter p (osRows s))" by (simp add: batch)
  have "distinct (map ceId (osInFlight s @ batch))"
  proof -
    have "evId e \<noteq> ceId x" if "e \<in> set (osRows s)" "p e" "x \<in> set (osInFlight s)" for e x
    proof
      assume eq: "evId e = ceId x"
      from h that(3) obtain r where r: "r \<in> set (osRows s)" "evState r = Ev_claimed" "claimed_of r = x"
        by (auto simp: held_def)
      with eq claimed_of_id [of r] have "e = r" using distinct_key_unique [OF d that(1) r(1)] by simp
      with np r that(2) show False by auto
    qed
    then have "set (map ceId (osInFlight s)) \<inter> set (map evId (filter p (osRows s))) = {}" by force
    with di d ids show ?thesis by (simp only: map_append distinct_append ids) (simp add: distinct_map_filter)
  qed
  moreover have "held rows' x" if "x \<in> set (osInFlight s)" for x
  proof -
    from h that obtain r where r: "r \<in> set (osRows s)" "evState r = Ev_claimed" "claimed_of r = x"
      by (auto simp: held_def)
    with np have "r \<in> set rows'" by (auto simp: rows' set_update_where image_iff intro!: bexI [of _ r])
    with r show ?thesis by (auto simp: held_def)
  qed
  moreover have "held rows' x" if "x \<in> set batch" for x
  proof -
    from that obtain e where e: "e \<in> set (osRows s)" "p e" "x = claimed_of (claim_row now e)"
      by (auto simp: batch)
    then have "claim_row now e \<in> set rows'" by (auto simp: rows' set_update_where)
    moreover have "evState (claim_row now e) = Ev_claimed" by (simp add: claim_row_def)
    ultimately show ?thesis using e(3) unfolding held_def by blast
  qed
  ultimately show ?thesis by (auto simp: outbox_inv_def)
qed

lemma outbox_inv_process:
  assumes "outbox_inv s" and "x \<in> set (osInFlight s)"
  shows "outbox_inv \<lparr>osRows = processRow_marks reg clk x (osRows s), osInFlight = remove1 x (osInFlight s)\<rparr>"
proof -
  have d: "distinct (map evId (osRows s))" and ok: "\<forall>e \<in> set (osRows s). ev_ok e"
    and di: "distinct (map ceId (osInFlight s))" and h: "\<forall>x \<in> set (osInFlight s). held (osRows s) x"
    using assms(1) by (simp_all add: outbox_inv_def)
  have hx: "held (osRows s) x" using h assms(2) by blast
  obtain e where "e \<in> set (osRows s)" and e: "evState e = Ev_claimed" "claimed_of e = x"
    and "filter (\<lambda>r. evId r = ceId x \<and> evState r = Ev_claimed) (osRows s) = [e]"
    and uniq: "\<forall>r \<in> set (osRows s). evId r = ceId x \<longrightarrow> r = e"
    by (rule held_row [OF d hx])
  note rest = in_remove1_ids [OF di assms(2)]
  show ?thesis
  proof (cases "mark_of reg clk x")
    case None
    then show ?thesis using d ok h rest by (simp add: outbox_inv_def processRow_marks_eq)
  next
    case (Some f)
    have id: "evId (f r) = evId r" for r using mark_of_id [OF Some] .
    have rows: "processRow_marks reg clk x (osRows s) = update_where (\<lambda>e. evId e = ceId x) f (osRows s)"
      using Some mark_held [OF d hx] by (simp add: processRow_marks_eq)
    have "distinct (map evId (update_where (\<lambda>e. evId e = ceId x) f (osRows s)))"
      using d id by (simp add: map_update_where)
    moreover have "ev_ok r" if "r \<in> set (update_where (\<lambda>e. evId e = ceId x) f (osRows s))" for r
    proof -
      from that obtain q where "q \<in> set (osRows s)" "r = (if evId q = ceId x then f q else q)"
        by (auto simp: set_update_where)
      with uniq ok ev_ok_mark [of reg clk e f] Some e show ?thesis by (auto split: if_splits)
    qed
    moreover have "held (update_where (\<lambda>e. evId e = ceId x) f (osRows s)) y" if "y \<in> set (remove1 x (osInFlight s))" for y
      using that rest h by (intro held_update_other) auto
    ultimately show ?thesis using rest by (simp add: outbox_inv_def rows)
  qed
qed

lemma outbox_inv_step:
  assumes "outbox_step reg s s'" and "outbox_inv s"
  shows "outbox_inv s'"
  using assms
proof (cases rule: outbox_step.cases)
  case (step_emit i now inp c j rows')
  then have "i \<notin> evId ` set (osRows s)" "rows' = osRows s @ [pending_event i now inp]"
    by (auto simp: emit_def split: if_splits)
  with assms(2) step_emit(1) show ?thesis
    by (auto simp: outbox_inv_def held_def ev_ok_def pending_event_def)
next
  case (step_claim now locked rank n batch rows')
  with outbox_inv_claim [OF assms(2)] show ?thesis by simp
next
  case (step_process x clk)
  with outbox_inv_process [OF assms(2)] show ?thesis by simp
next
  case (step_crash x)
  with assms(2) in_remove1_ids [of "osInFlight s" x] show ?thesis by (simp add: outbox_inv_def)
next
  case (step_purge co locked rank n k rows')
  have d: "distinct (map evId (osRows s))" using assms(2) by (simp add: outbox_inv_def)
  obtain p where p: "\<forall>e \<in> set (osRows s). p e \<longrightarrow> purgeable co e \<and> \<not> locked (evId e)"
    and rows': "rows' = filter (\<lambda>e. \<not> p e) (osRows s)" and "k = length (filter p (osRows s))"
    by (rule purgeBatch_cases [OF step_purge(2) d])
  have "held rows' x" if "held (osRows s) x" for x
    using that p by (auto simp: held_def rows' purgeable_def)
  with assms(2) step_purge(1) d show ?thesis
    by (auto simp: outbox_inv_def rows' distinct_map_filter)
qed

lemma outbox_inv_steps: "(outbox_step reg)\<^sup>*\<^sup>* s s' \<Longrightarrow> outbox_inv s \<Longrightarrow> outbox_inv s'"
  by (induction rule: rtranclp_induct) (auto intro: outbox_inv_step)

lemma outbox_inv_empty: "outbox_inv \<lparr>osRows = [], osInFlight = []\<rparr>"
  by (simp add: outbox_inv_def)

section \<open>The life of an event\<close>

fun ev_moves :: "delivery_state \<Rightarrow> delivery_state list" where
  "ev_moves Ev_pending = [Ev_claimed]"
| "ev_moves Ev_failed = [Ev_claimed]"
| "ev_moves Ev_claimed = [Ev_delivered, Ev_failed, Ev_dead_lettered]"
| "ev_moves Ev_delivered = []"
| "ev_moves Ev_dead_lettered = []"

definition ev_write :: "outbox_event \<Rightarrow> outbox_event \<Rightarrow> bool" where
  "ev_write e e' \<longleftrightarrow>
     evId e' = evId e \<and> evTenant e' = evTenant e \<and> evType e' = evType e \<and> evPayload e' = evPayload e \<and>
     evOccurred e' = evOccurred e \<and> evAttempts e \<le> evAttempts e' \<and> evState e' \<in> set (ev_moves (evState e))"

interpretation ev_life: lifecycle "\<lambda>a b. b \<in> set (ev_moves a)" "\<lambda>a. ev_moves a = []" evState ev_write
  by unfold_locales (auto simp: ev_write_def)

lemma mark_of_write:
  "mark_of reg clk x = Some f \<Longrightarrow> evState e = Ev_claimed \<Longrightarrow> ev_write e (f e)"
  by (auto simp: mark_of_def Let_def ev_write_def delivered_row_def failed_row_def dead_row_def
      split: option.splits if_splits)

text \<open>What a step does to one row: nothing, one write of its life, or its purge at the end of it.\<close>

lemma outbox_step_row:
  assumes "outbox_step reg s s'" and "outbox_inv s" and "e \<in> set (osRows s)"
  shows "e \<in> set (osRows s') \<or> (\<exists>e' \<in> set (osRows s'). ev_write e e') \<or>
    (evState e \<in> {Ev_delivered, Ev_failed, Ev_dead_lettered} \<and> (\<exists>co. purgeable co e))"
  using assms(1)
proof (cases rule: outbox_step.cases)
  case (step_emit i now inp c j rows')
  with assms(3) show ?thesis by (auto simp: emit_def split: if_splits)
next
  case (step_claim now locked rank n batch rows')
  have d: "distinct (map evId (osRows s))" using assms(2) by (simp add: outbox_inv_def)
  obtain p where p: "\<forall>e \<in> set (osRows s). p e \<longrightarrow> claimable now e \<and> \<not> locked (evId e)"
    and rows': "rows' = update_where p (claim_row now) (osRows s)"
    and "batch = map (\<lambda>e. claimed_of (claim_row now e)) (filter p (osRows s))"
    by (rule claimBatch_cases [OF step_claim(2) d])
  show ?thesis
  proof (cases "p e")
    case True
    with p assms(3) have "claimable now e" by blast
    then have "ev_write e (claim_row now e)" by (auto simp: ev_write_def claim_row_def claimable_def)
    moreover have "claim_row now e \<in> set rows'" using True assms(3) by (auto simp: rows' set_update_where)
    ultimately show ?thesis using step_claim(1) by auto
  next
    case False
    then have "e \<in> set rows'" using assms(3) by (auto simp: rows' set_update_where image_iff intro!: bexI [of _ e])
    with step_claim(1) show ?thesis by simp
  qed
next
  case (step_process x clk)
  have d: "distinct (map evId (osRows s))" and hx: "held (osRows s) x"
    using assms(2) step_process(2) by (simp_all add: outbox_inv_def)
  show ?thesis
  proof (cases "mark_of reg clk x")
    case None
    with step_process(1) assms(3) show ?thesis by (simp add: processRow_marks_eq)
  next
    case (Some f)
    have rows: "osRows s' = update_where (\<lambda>e. evId e = ceId x) f (osRows s)"
      using step_process(1) Some mark_held [OF d hx] by (simp add: processRow_marks_eq)
    obtain q where "q \<in> set (osRows s)" and q: "evState q = Ev_claimed" and "claimed_of q = x"
      and "filter (\<lambda>r. evId r = ceId x \<and> evState r = Ev_claimed) (osRows s) = [q]"
      and uniq: "\<forall>r \<in> set (osRows s). evId r = ceId x \<longrightarrow> r = q"
      by (rule held_row [OF d hx])
    show ?thesis
    proof (cases "evId e = ceId x")
      case True
      with uniq assms(3) q have "ev_write e (f e)" using mark_of_write [OF Some] by simp
      moreover have "f e \<in> set (osRows s')" using True assms(3) by (auto simp: rows set_update_where)
      ultimately show ?thesis by blast
    next
      case False
      then have "e \<in> set (osRows s')" using assms(3) by (auto simp: rows set_update_where image_iff intro!: bexI [of _ e])
      then show ?thesis by simp
    qed
  qed
next
  case (step_crash x)
  with assms(3) show ?thesis by simp
next
  case (step_purge co locked rank n k rows')
  have d: "distinct (map evId (osRows s))" using assms(2) by (simp add: outbox_inv_def)
  obtain p where p: "\<forall>e \<in> set (osRows s). p e \<longrightarrow> purgeable co e \<and> \<not> locked (evId e)"
    and rows': "rows' = filter (\<lambda>e. \<not> p e) (osRows s)" and "k = length (filter p (osRows s))"
    by (rule purgeBatch_cases [OF step_purge(2) d])
  show ?thesis
  proof (cases "p e")
    case True
    with p assms(3) have "purgeable co e" by blast
    moreover from this have "evState e \<in> {Ev_delivered, Ev_failed, Ev_dead_lettered}"
      by (auto simp: purgeable_def)
    ultimately show ?thesis by blast
  next
    case False
    with assms(3) step_purge(1) show ?thesis by (simp add: rows')
  qed
qed

text \<open>A claimed row nobody holds is out of reach of every step.\<close>

definition orphaned :: "outbox_event \<Rightarrow> outbox_sys \<Rightarrow> bool" where
  "orphaned e s \<longleftrightarrow> e \<in> set (osRows s) \<and> evState e = Ev_claimed \<and> evId e \<notin> ceId ` set (osInFlight s)"

lemma orphaned_step:
  assumes "outbox_step reg s s'" and "outbox_inv s" and "orphaned e s"
  shows "orphaned e s'"
proof -
  have d: "distinct (map evId (osRows s))" using assms(2) by (simp add: outbox_inv_def)
  have e: "e \<in> set (osRows s)" "evState e = Ev_claimed" "evId e \<notin> ceId ` set (osInFlight s)"
    using assms(3) by (simp_all add: orphaned_def)
  from assms(1) show ?thesis
  proof (cases rule: outbox_step.cases)
    case (step_emit i now inp c j rows')
    with e show ?thesis by (auto simp: orphaned_def emit_def split: if_splits)
  next
    case (step_claim now locked rank n batch rows')
    obtain p where p: "\<forall>e \<in> set (osRows s). p e \<longrightarrow> claimable now e \<and> \<not> locked (evId e)"
      and rows': "rows' = update_where p (claim_row now) (osRows s)"
      and batch: "batch = map (\<lambda>e. claimed_of (claim_row now e)) (filter p (osRows s))"
      by (rule claimBatch_cases [OF step_claim(2) d])
    have np: "\<not> p e" using p e by (auto simp: claimable_def)
    then have "e \<in> set rows'" using e(1) by (auto simp: rows' set_update_where image_iff intro!: bexI [of _ e])
    moreover have "evId e \<notin> ceId ` set batch"
      using np distinct_key_unique [OF d e(1)] by (auto simp: batch)
    ultimately show ?thesis using step_claim(1) e by (auto simp: orphaned_def)
  next
    case (step_process x clk)
    have hx: "held (osRows s) x" using assms(2) step_process(2) by (simp add: outbox_inv_def)
    have ne: "evId e \<noteq> ceId x" using e(3) step_process(2) by auto
    have "e \<in> set (processRow_marks reg clk x (osRows s))"
      using ne e(1) mark_held [OF d hx]
      by (cases "mark_of reg clk x")
         (auto simp: processRow_marks_eq set_update_where image_iff intro!: bexI [of _ e])
    then show ?thesis
      using step_process(1) e set_remove1_subset [of x "osInFlight s"] by (auto simp: orphaned_def)
  next
    case (step_crash x)
    then show ?thesis using e set_remove1_subset [of x "osInFlight s"] by (auto simp: orphaned_def)
  next
    case (step_purge co locked rank n k rows')
    obtain p where p: "\<forall>e \<in> set (osRows s). p e \<longrightarrow> purgeable co e \<and> \<not> locked (evId e)"
      and rows': "rows' = filter (\<lambda>e. \<not> p e) (osRows s)" and "k = length (filter p (osRows s))"
      by (rule purgeBatch_cases [OF step_purge(2) d])
    with e have "e \<in> set rows'" by (auto simp: purgeable_def)
    with step_purge(1) e show ?thesis by (simp add: orphaned_def)
  qed
qed

lemma orphaned_steps:
  "(outbox_step reg)\<^sup>*\<^sup>* s s' \<Longrightarrow> outbox_inv s \<Longrightarrow> orphaned e s \<Longrightarrow> orphaned e s'"
  by (induction rule: rtranclp_induct) (auto intro: orphaned_step outbox_inv_steps)

section \<open>Oldest first, and the whole sweep\<close>

text \<open>The rows of a scan: at most \<open>n\<close> of the eligible rows, all of them if there are fewer, the oldest.\<close>

lemma scan_oldest_spec:
  fixes locked :: "uuid \<Rightarrow> bool" and rank :: "uuid \<Rightarrow> nat" and n :: nat and p :: "outbox_event \<Rightarrow> bool"
  assumes "distinct (map evId rows)"
  defines "ids \<equiv> scan_oldest locked rank n p rows" and "el \<equiv> filter (\<lambda>e. p e \<and> \<not> locked (evId e)) rows"
  shows "distinct ids" "length ids = min n (length el)" "set ids \<subseteq> evId ` set el"
    "\<forall>e \<in> set el. evId e \<notin> set ids \<longrightarrow> (\<forall>i \<in> set ids. \<exists>r \<in> set el. evId r = i \<and> evOccurred r \<le> evOccurred e)"
proof -
  define key where "key = (\<lambda>e :: outbox_event. (evOccurred e, rank (evId e)))"
  define srt where "srt = sort_key key el"
  have ids: "ids = map evId (take n srt)" by (simp add: ids_def scan_oldest_def srt_def el_def key_def)
  have set_srt: "set srt = set el" by (simp add: srt_def)
  have dist: "distinct (map evId srt)"
    using distinct_map_filter [OF assms(1), of "\<lambda>e. p e \<and> \<not> locked (evId e)"]
    by (simp add: srt_def el_def distinct_map)
  show "distinct ids" using distinct_take [OF dist, of n] by (simp add: ids take_map)
  show "length ids = min n (length el)" by (simp add: ids srt_def min.commute)
  show "set ids \<subseteq> evId ` set el" using set_take_subset [of n srt] by (auto simp: ids set_srt)
  show "\<forall>e \<in> set el. evId e \<notin> set ids \<longrightarrow> (\<forall>i \<in> set ids. \<exists>r \<in> set el. evId r = i \<and> evOccurred r \<le> evOccurred e)"
  proof (intro ballI impI)
    fix e i
    assume e: "e \<in> set el" "evId e \<notin> set ids" and i: "i \<in> set ids"
    then obtain r where r: "r \<in> set (take n srt)" "evId r = i" by (auto simp: ids)
    have "e \<in> set (take n srt @ drop n srt)" using e(1) set_srt by simp
    with e(2) have "e \<in> set (drop n srt)" by (auto simp: ids simp del: append_take_drop_id)
    moreover have "sorted (map key (take n srt @ drop n srt))" by (simp add: srt_def)
    ultimately have "key r \<le> key e" using r(1) by (simp only: map_append sorted_append) auto
    then have "evOccurred r \<le> evOccurred e" by (auto simp: key_def less_eq_prod_def)
    then show "\<exists>r \<in> set el. evId r = i \<and> evOccurred r \<le> evOccurred e"
      using r set_srt in_set_takeD by metis
  qed
qed

lemma length_filter_ids:
  assumes "distinct (map evId rows)" and "distinct ids" and "set ids \<subseteq> evId ` set rows"
  shows "length (filter (\<lambda>e. evId e \<in> set ids) rows) = length ids"
proof -
  have "distinct (map evId (filter (\<lambda>e. evId e \<in> set ids) rows))" using assms(1) by (rule distinct_map_filter)
  moreover have "set (map evId (filter (\<lambda>e. evId e \<in> set ids) rows)) = set ids" using assms(3) by auto
  ultimately show ?thesis using assms(2) by (metis distinct_card length_map)
qed

lemma claimBatch_oldest:
  fixes locked :: "uuid \<Rightarrow> bool" and rank :: "uuid \<Rightarrow> nat" and n :: int and now :: timestamptz
  assumes "claimBatch now locked rank n rows = (Inr batch, rows')" and d: "distinct (map evId rows)"
  defines "el \<equiv> filter (\<lambda>e. claimable now e \<and> \<not> locked (evId e)) rows"
  shows "length batch = min (nat n) (length el)"
    "\<forall>e \<in> set el. evId e \<notin> ceId ` set batch \<longrightarrow> (\<forall>x \<in> set batch. ceOccurred x \<le> evOccurred e)"
proof -
  define ids where "ids = scan_oldest locked rank (nat n) (claimable now) rows"
  note sp = scan_oldest_spec [OF d, where locked = locked and rank = rank and n = "nat n" and p = "claimable now", folded ids_def el_def]
  have batch: "batch = map claimed_of (filter (\<lambda>e. evId e \<in> set ids)
      (update_where (\<lambda>e. evId e \<in> set ids) (claim_row now) rows))"
    using assms(1)
    by (auto simp: claimBatch_def claimBatchOnClient_def runWithTenantContext_def Let_def ids_def split: if_splits)
  have "filter (\<lambda>e. evId e \<in> set ids) (update_where (\<lambda>e. evId e \<in> set ids) (claim_row now) rows)
      = map (claim_row now) (filter (\<lambda>e. evId e \<in> set ids) rows)"
    by (induction rows) (simp_all add: claim_row_def)
  then have batch': "batch = map (\<lambda>e. claimed_of (claim_row now e)) (filter (\<lambda>e. evId e \<in> set ids) rows)"
    using batch by simp
  have sub: "set ids \<subseteq> evId ` set rows" using sp(3) by (auto simp: el_def)
  show "length batch = min (nat n) (length el)"
    using length_filter_ids [OF d sp(1) sub] sp(2) by (simp add: batch')
  have idset: "ceId ` set batch = set ids" using sub by (force simp: batch')
  show "\<forall>e \<in> set el. evId e \<notin> ceId ` set batch \<longrightarrow> (\<forall>x \<in> set batch. ceOccurred x \<le> evOccurred e)"
  proof (intro ballI impI)
    fix e x
    assume e: "e \<in> set el" "evId e \<notin> ceId ` set batch" and x: "x \<in> set batch"
    from x obtain q where q: "q \<in> set rows" "evId q \<in> set ids" "x = claimed_of (claim_row now q)"
      by (auto simp: batch')
    obtain r where r: "r \<in> set el" "evId r = evId q" "evOccurred r \<le> evOccurred e"
      using sp(4) e q(2) idset by blast
    then have "r = q" using distinct_key_unique [OF d _ q(1)] by (auto simp: el_def)
    with r q(3) show "ceOccurred x \<le> evOccurred e" by (simp add: claimed_of_def claim_row_def)
  qed
qed

lemma filter_length_less:
  assumes "length (filter q (filter p xs)) = length (filter p xs)"
  shows "\<forall>x \<in> set xs. p x \<longrightarrow> q x"
  using assms length_filter_less [of _ "filter p xs" q] by fastforce

lemma purgeBatch_spec:
  fixes locked :: "uuid \<Rightarrow> bool" and rank :: "uuid \<Rightarrow> nat" and n :: nat and co :: retention_cutoffs
  assumes "distinct (map evId rows)"
  defines "el \<equiv> \<lambda>e. purgeable co e \<and> \<not> locked (evId e)"
  obtains k rows' where "purgeBatch co locked rank n rows = (Inr k, rows')"
    "k = min n (length (filter el rows))" "filter (\<lambda>e. \<not> el e) rows' = filter (\<lambda>e. \<not> el e) rows"
    "length (filter el rows') = length (filter el rows) - k" "distinct (map evId rows')"
proof -
  define ids where "ids = scan_oldest locked rank n (purgeable co) rows"
  note sp = scan_oldest_spec [OF assms(1), where locked = locked and rank = rank and n = n and p = "purgeable co", folded ids_def el_def]
  define rows' where "rows' = filter (\<lambda>e. evId e \<notin> set ids) rows"
  have sub: "set ids \<subseteq> evId ` set rows" using sp(3) by auto
  have run: "purgeBatch co locked rank n rows = (Inr (length ids), rows')"
    using length_filter_ids [OF assms(1) sp(1) sub]
    by (simp add: purgeBatch_def purgeBatch_work_def runWithTenantContext_def Let_def ids_def rows'_def)
  have gone: "el e" if "evId e \<in> set ids" "e \<in> set rows" for e
  proof -
    from that(1) sp(3) have "evId e \<in> evId ` set (filter el rows)" by blast
    then obtain q where q: "evId e = evId q" "q \<in> set (filter el rows)" by (rule imageE)
    with distinct_key_unique [OF assms(1) that(2), of q] show ?thesis by simp
  qed
  have keep: "filter (\<lambda>e. \<not> el e) rows' = filter (\<lambda>e. \<not> el e) rows"
    using gone by (auto simp: rows'_def intro: filter_cong)
  have "length (filter el rows) = length (filter (\<lambda>e. evId e \<in> set ids) (filter el rows))
      + length (filter (\<lambda>e. evId e \<notin> set ids) (filter el rows))"
    using sum_length_filter_compl [of "\<lambda>e. evId e \<in> set ids" "filter el rows"] by (simp only:)
  moreover have "filter (\<lambda>e. evId e \<in> set ids) (filter el rows) = filter (\<lambda>e. evId e \<in> set ids) rows"
    using gone by (auto intro: filter_cong)
  moreover have "filter (\<lambda>e. evId e \<notin> set ids) (filter el rows) = filter el rows'"
    by (auto simp: rows'_def intro: filter_cong)
  ultimately have "length (filter el rows') = length (filter el rows) - length ids"
    using length_filter_ids [OF assms(1) sp(1) sub] by simp
  with run keep sp(2) assms(1) show thesis
    by (intro that [of "length ids" rows']) (simp_all add: rows'_def distinct_map_filter)
qed

lemma sweep_loop_spec:
  fixes locked :: "uuid \<Rightarrow> bool" and rank :: "uuid \<Rightarrow> nat" and co :: retention_cutoffs
  assumes "distinct (map evId rows)"
  shows "sweep_loop co locked rank acc rows =
    (Inr \<lparr>purgedCount = purgedCount acc + length (filter (\<lambda>e. purgeable co e \<and> \<not> locked (evId e)) rows),
          batchCount = batchCount acc + length (filter (\<lambda>e. purgeable co e \<and> \<not> locked (evId e)) rows) div BATCH_SIZE + 1\<rparr>,
     filter (\<lambda>e. \<not> (purgeable co e \<and> \<not> locked (evId e))) rows)"
  using assms(1)
proof (induction co locked rank acc rows rule: sweep_loop.induct)
  case (1 co locked rank acc rows)
  let ?el = "\<lambda>e. purgeable co e \<and> \<not> locked (evId e)"
  obtain k rows' where run: "purgeBatch co locked rank BATCH_SIZE rows = (Inr k, rows')"
    and k: "k = min BATCH_SIZE (length (filter ?el rows))"
    and keep: "filter (\<lambda>e. \<not> ?el e) rows' = filter (\<lambda>e. \<not> ?el e) rows"
    and left: "length (filter ?el rows') = length (filter ?el rows) - k"
    and d: "distinct (map evId rows')"
    by (rule purgeBatch_spec [OF 1(2)])
  show ?case
  proof (cases "k = BATCH_SIZE")
    case True
    then have ge: "BATCH_SIZE \<le> length (filter ?el rows)" using k by simp
    have div: "(length (filter ?el rows) - BATCH_SIZE) div BATCH_SIZE + 1 = length (filter ?el rows) div BATCH_SIZE"
      using ge by (simp add: BATCH_SIZE_def le_div_geq)
    note ih = "1.IH" [OF run [symmetric] refl refl True d]
    have "sweep_loop co locked rank acc rows = sweep_loop co locked rank
        \<lparr>purgedCount = purgedCount acc + k, batchCount = batchCount acc + 1\<rparr> rows'"
      by (subst sweep_loop.simps) (simp add: run True)
    also have "\<dots> = (Inr \<lparr>purgedCount = purgedCount acc + length (filter ?el rows),
          batchCount = batchCount acc + length (filter ?el rows) div BATCH_SIZE + 1\<rparr>,
        filter (\<lambda>e. \<not> ?el e) rows)"
      using ih keep left True ge div by simp
    finally show ?thesis .
  next
    case False
    then have less: "length (filter ?el rows) < BATCH_SIZE" "k = length (filter ?el rows)" using k by auto
    with left have "filter ?el rows' = []" by simp
    then have "filter (\<lambda>e. \<not> ?el e) rows' = rows'" by (auto simp: filter_empty_conv filter_id_conv)
    with keep less False show ?thesis
      by (subst sweep_loop.simps) (simp add: run)
  qed
qed

end
