(* ===== verification/Codec.thy ===== *)
theory Codec
  imports Prelude
begin

text \<open>
  The texts the wire carries: the canonical text of a UUID, and base64url as Node's
  \<open>Buffer\<close> encodes and (leniently) decodes it. Both are proved to round-trip.
\<close>

section \<open>Hexadecimal\<close>

definition hex_char :: "nat \<Rightarrow> char" where
  "hex_char d = (if d < 10 then char_of (48 + d) else char_of (87 + d))"

definition hex_digit :: "char \<Rightarrow> nat option" where
  "hex_digit c = (let n = of_char c :: nat in
     if 48 \<le> n \<and> n \<le> 57 then Some (n - 48)
     else if 97 \<le> n \<and> n \<le> 102 then Some (n - 87)
     else if 65 \<le> n \<and> n \<le> 70 then Some (n - 55)
     else None)"

fun hex_fixed :: "nat \<Rightarrow> nat \<Rightarrow> string" where
  "hex_fixed 0 n = []"
| "hex_fixed (Suc k) n = hex_fixed k (n div 16) @ [hex_char (n mod 16)]"

fun hex_value_from :: "nat \<Rightarrow> string \<Rightarrow> nat option" where
  "hex_value_from acc [] = Some acc"
| "hex_value_from acc (c # cs) =
     (case hex_digit c of None \<Rightarrow> None | Some d \<Rightarrow> hex_value_from (16 * acc + d) cs)"

lemma hex_digit_char: "d < 16 \<Longrightarrow> hex_digit (hex_char d) = Some d"
  by (auto simp: hex_digit_def hex_char_def Let_def)

lemma hex_value_from_append:
  "hex_value_from acc (xs @ ys) = (case hex_value_from acc xs of None \<Rightarrow> None | Some v \<Rightarrow> hex_value_from v ys)"
  by (induction acc xs rule: hex_value_from.induct) (auto split: option.split)

lemma hex_value_fixed: "hex_value_from acc (hex_fixed k n) = Some (acc * 16 ^ k + n mod 16 ^ k)"
proof (induction k arbitrary: n)
  case (Suc k)
  have "n mod 16 ^ Suc k = 16 * (n div 16 mod 16 ^ k) + n mod 16"
    by (metis mod_mult2_eq power_Suc add.commute)
  with Suc [of "n div 16"] show ?case
    by (simp add: hex_value_from_append hex_digit_char algebra_simps)
qed simp

lemma hex_fixed_length [simp]: "length (hex_fixed k n) = k"
  by (induction k arbitrary: n) simp_all

lemma hex_fixed_digits: "list_all (\<lambda>c. hex_digit c \<noteq> None) (hex_fixed k n)"
  by (induction k arbitrary: n) (simp_all add: hex_digit_char)

section \<open>UUIDs\<close>

text \<open>The 8-4-4-4-12 text of a 128-bit value.\<close>

definition uuid_text :: "uuid \<Rightarrow> string" where
  "uuid_text u =
     hex_fixed 8 (u div 16 ^ 24) @ ''-'' @ hex_fixed 4 (u div 16 ^ 20) @ ''-'' @ hex_fixed 4 (u div 16 ^ 16) @ ''-''
       @ hex_fixed 4 (u div 16 ^ 12) @ ''-'' @ hex_fixed 12 u"

text \<open>\<open>/^[0-9a-f]{8}-...-[0-9a-f]{12}$/i\<close> and the value of a match.\<close>

definition parse_uuid :: "string \<Rightarrow> uuid option" where
  "parse_uuid s =
     (let a = take 8 s; b = take 4 (drop 9 s); c = take 4 (drop 14 s); d = take 4 (drop 19 s); e = drop 24 s
      in if length s = 36 \<and> s ! 8 = CHR ''-'' \<and> s ! 13 = CHR ''-'' \<and> s ! 18 = CHR ''-'' \<and> s ! 23 = CHR ''-''
         then hex_value_from 0 (a @ b @ c @ d @ e) else None)"

lemma mod_div_join:
  fixes u :: nat
  shows "u div (16 ^ (j + k)) * 16 ^ k + u div 16 ^ j mod 16 ^ k = u div 16 ^ j"
proof -
  have "u div (16 ^ (j + k)) = u div 16 ^ j div 16 ^ k" by (simp add: div_mult2_eq power_add)
  then show ?thesis by (simp only: div_mult_mod_eq)
qed

lemma parse_uuid_text:
  assumes "u < 16 ^ 32"
  shows "parse_uuid (uuid_text u) = Some u"
proof -
  define A B C D E where "A = hex_fixed 8 (u div 16 ^ 24)" and "B = hex_fixed 4 (u div 16 ^ 20)"
    and "C = hex_fixed 4 (u div 16 ^ 16)" and "D = hex_fixed 4 (u div 16 ^ 12)" and "E = hex_fixed 12 u"
  have len: "length A = 8" "length B = 4" "length C = 4" "length D = 4" "length E = 12"
    by (simp_all add: A_def B_def C_def D_def E_def)
  have s: "uuid_text u = A @ CHR ''-'' # B @ CHR ''-'' # C @ CHR ''-'' # D @ CHR ''-'' # E"
    by (simp add: uuid_text_def A_def B_def C_def D_def E_def)
  have "hex_value_from 0 (A @ B @ C @ D @ E) = Some u"
  proof -
    have "u div 16 ^ 24 < 16 ^ 8" using assms by (simp add: less_mult_imp_div_less)
    then have "hex_value_from 0 A = Some (u div 16 ^ 24)" by (simp add: A_def hex_value_fixed)
    moreover have "hex_value_from (u div 16 ^ 24) B = Some (u div 16 ^ 20)"
      using mod_div_join [of u 20 4] by (simp add: B_def hex_value_fixed)
    moreover have "hex_value_from (u div 16 ^ 20) C = Some (u div 16 ^ 16)"
      using mod_div_join [of u 16 4] by (simp add: C_def hex_value_fixed)
    moreover have "hex_value_from (u div 16 ^ 16) D = Some (u div 16 ^ 12)"
      using mod_div_join [of u 12 4] by (simp add: D_def hex_value_fixed)
    moreover have "hex_value_from (u div 16 ^ 12) E = Some u"
      using mod_div_join [of u 0 12] by (simp add: E_def hex_value_fixed)
    ultimately show ?thesis by (simp add: hex_value_from_append)
  qed
  with len show ?thesis
    by (simp add: parse_uuid_def s Let_def nth_append nth_Cons')
qed

section \<open>base64url\<close>

definition b64_char :: "nat \<Rightarrow> char" where
  "b64_char v = (if v < 26 then char_of (65 + v) else if v < 52 then char_of (71 + v)
     else if v < 62 then char_of (v - 4) else if v = 62 then CHR ''-'' else CHR ''_'')"

text \<open>Node's decoder takes both alphabets; other characters have no value and are skipped.\<close>

definition b64_value :: "char \<Rightarrow> nat option" where
  "b64_value c = (let n = of_char c :: nat in
     if 65 \<le> n \<and> n \<le> 90 then Some (n - 65)
     else if 97 \<le> n \<and> n \<le> 122 then Some (n - 71)
     else if 48 \<le> n \<and> n \<le> 57 then Some (n + 4)
     else if n = 45 \<or> n = 43 then Some 62
     else if n = 95 \<or> n = 47 then Some 63
     else None)"

fun b64_groups :: "nat list \<Rightarrow> nat list" where
  "b64_groups (a # b # c # bs) =
     a div 4 # ((a mod 4) * 16 + b div 16) # ((b mod 16) * 4 + c div 64) # c mod 64 # b64_groups bs"
| "b64_groups [a, b] = [a div 4, (a mod 4) * 16 + b div 16, (b mod 16) * 4]"
| "b64_groups [a] = [a div 4, (a mod 4) * 16]"
| "b64_groups [] = []"

fun b64_ungroup :: "nat list \<Rightarrow> nat list" where
  "b64_ungroup (a # b # c # d # vs) =
     (a * 4 + b div 16) # ((b mod 16) * 16 + c div 4) # ((c mod 4) * 64 + d) # b64_ungroup vs"
| "b64_ungroup [a, b, c] = [a * 4 + b div 16, (b mod 16) * 16 + c div 4]"
| "b64_ungroup [a, b] = [a * 4 + b div 16]"
| "b64_ungroup [a] = []"
| "b64_ungroup [] = []"

definition base64url_encode :: "string \<Rightarrow> string" where
  "base64url_encode s = map b64_char (b64_groups (map of_char s))"

definition base64url_decode :: "string \<Rightarrow> string" where
  "base64url_decode s = map char_of (b64_ungroup (List.map_filter b64_value s))"

lemma b64_value_char: "v < 64 \<Longrightarrow> b64_value (b64_char v) = Some v"
  by (auto simp: b64_value_def b64_char_def Let_def)

lemma b64_groups_bound: "list_all (\<lambda>b. b < 256) bs \<Longrightarrow> list_all (\<lambda>v. v < 64) (b64_groups bs)"
proof (induction bs rule: b64_groups.induct)
  case (1 a b c bs)
  then have "a < 256" "b < 256" "c < 256" by simp_all
  then have "a div 4 < 64" "(a mod 4) * 16 + b div 16 < 64" "(b mod 16) * 4 + c div 64 < 64" by linarith+
  with 1 show ?case by simp
qed (simp_all, linarith+)

lemma digit_split: "(y :: nat) < m \<Longrightarrow> (x * m + y) div m = x" "(y :: nat) < m \<Longrightarrow> (x * m + y) mod m = y"
  by simp_all

lemma b64_join:
  fixes a b c :: nat
  assumes "a < 256" and "b < 256" and "c < 256"
  shows "a div 4 * 4 + ((a mod 4) * 16 + b div 16) div 16 = a"
    and "(((a mod 4) * 16 + b div 16) mod 16) * 16 + ((b mod 16) * 4 + c div 64) div 4 = b"
    and "(((b mod 16) * 4 + c div 64) mod 4) * 64 + c mod 64 = c"
proof -
  have "b div 16 < 16" "c div 64 < 4" using assms by simp_all
  note d = digit_split [OF this(1), of "a mod 4"] digit_split [OF this(2), of "b mod 16"]
  show "a div 4 * 4 + ((a mod 4) * 16 + b div 16) div 16 = a" by (simp only: d div_mult_mod_eq)
  show "(((a mod 4) * 16 + b div 16) mod 16) * 16 + ((b mod 16) * 4 + c div 64) div 4 = b"
    by (simp only: d div_mult_mod_eq)
  show "(((b mod 16) * 4 + c div 64) mod 4) * 64 + c mod 64 = c" by (simp only: d div_mult_mod_eq)
qed

lemma b64_ungroup_groups: "list_all (\<lambda>b. b < 256) bs \<Longrightarrow> b64_ungroup (b64_groups bs) = bs"
proof (induction bs rule: b64_groups.induct)
  case (1 a b c bs)
  then show ?case using b64_join [of a b c] by simp
next
  case (2 a b)
  then show ?case using b64_join [of a b 0] by simp
next
  case (3 a)
  then show ?case using b64_join [of a 0 0] by simp
qed simp

lemma map_filter_value: "list_all (\<lambda>v. v < 64) vs \<Longrightarrow> List.map_filter b64_value (map b64_char vs) = vs"
  by (induction vs) (simp_all add: List.map_filter_def b64_value_char)

lemma base64url_roundtrip: "base64url_decode (base64url_encode s) = s"
proof -
  have "list_all (\<lambda>b. b < 256) (map of_char s :: nat list)" by (simp add: list_all_iff)
  then have "b64_ungroup (List.map_filter b64_value (map b64_char (b64_groups (map of_char s)))) = (map of_char s :: nat list)"
    by (simp add: map_filter_value b64_groups_bound b64_ungroup_groups)
  then show ?thesis by (simp add: base64url_decode_def base64url_encode_def comp_def)
qed

end
