(* ===== verification/OutboxAdmin.thy ===== *)
theory OutboxAdmin
  imports OutboxFacts Money Codec Http
begin

text \<open>
  Dead-letter triage: the error-class sanitiser and the two read queries of
  packages/db/src/outbox/repository.ts, and the admin endpoint of apps/api/src/outbox (query
  schema, cursor codec, service, controller).

  PostgreSQL's text of a \<open>timestamptz\<close> (\<open>to_char\<close> with microseconds, and the cast back) is a
  parameter, \<open>ts_codec\<close>. A JavaScript \<open>Date\<close> of a column is the column's value in whole
  milliseconds; the ISO text of such a date is represented by the milliseconds it denotes.
\<close>

section \<open>Sanitising the error class\<close>

definition is_name_start :: "char \<Rightarrow> bool" where
  "is_name_start c = (let n = of_char c :: nat in (65 \<le> n \<and> n \<le> 90) \<or> (97 \<le> n \<and> n \<le> 122) \<or> n = 95)"

definition is_identifier :: "string \<Rightarrow> bool" where
  "is_identifier s = (case s of [] \<Rightarrow> False | c # cs \<Rightarrow> is_name_start c \<and> list_all (\<lambda>c. is_name_start c \<or> is_digit c) cs)"

definition SAFE_ERROR_CLASS_RE :: "string \<Rightarrow> bool" where
  "SAFE_ERROR_CLASS_RE s = list_all is_identifier (js_split CHR ''.'' s)"

definition SAFE_ERROR_CLASS_MAX_LEN :: nat where
  "SAFE_ERROR_CLASS_MAX_LEN = 80"

definition sanitizeLastErrorClass :: "string option \<Rightarrow> string option" where
  "sanitizeLastErrorClass v =
     (case v of
        None \<Rightarrow> None
      | Some value \<Rightarrow>
          (if length value = 0 then None
           else if value \<noteq> js_trim value then None
           else if length value > SAFE_ERROR_CLASS_MAX_LEN then None
           else if \<not> SAFE_ERROR_CLASS_RE value then None
           else Some value))"

section \<open>The queries\<close>

record ts_codec =
  tsText :: "timestamptz \<Rightarrow> string"
  tsParse :: "string \<Rightarrow> timestamptz option"

record dead_letter_record =
  dlId :: uuid
  dlType :: string
  dlTenant :: uuid
  dlStore :: "uuid option"
  dlAttempts :: nat
  dlCorrelation :: "uuid option"
  dlErrorClass :: "string option"
  dlOccurred :: instant
  dlOccurredText :: string
  dlCreated :: instant
  dlUpdated :: instant
  dlProcessed :: "instant option"

definition mapRow :: "ts_codec \<Rightarrow> outbox_event \<Rightarrow> dead_letter_record" where
  "mapRow cd e =
     \<lparr>dlId = evId e, dlType = evType e, dlTenant = evTenant e, dlStore = evStore e,
      dlAttempts = evAttempts e, dlCorrelation = evCorrelation e,
      dlErrorClass = sanitizeLastErrorClass (evLastError e),
      dlOccurred = evOccurred e div 1000, dlOccurredText = tsText cd (evOccurred e),
      dlCreated = evCreated e div 1000, dlUpdated = evUpdated e div 1000,
      dlProcessed = map_option (\<lambda>t. t div 1000) (evProcessed e)\<rparr>"

record list_dead_input =
  liType :: "string option"
  liTenant :: "uuid option"
  liCursor :: "(string \<times> uuid) option"
  liLimit :: int

definition dead_visible :: "string option \<Rightarrow> uuid option \<Rightarrow> outbox_event \<Rightarrow> bool" where
  "dead_visible ty t e \<longleftrightarrow>
     rls_tenant_or_admin platform_ctx (evTenant e) \<and> evState e = Ev_dead_lettered \<and> evProcessed e \<noteq> None \<and>
     (ty = None \<or> ty = Some (evType e)) \<and> (t = None \<or> t = Some (evTenant e))"

text \<open>The keyset predicate, in its OR-form; a cursor that does not cast is an error of the query.\<close>

definition before_cursor :: "timestamptz \<Rightarrow> uuid \<Rightarrow> outbox_event \<Rightarrow> bool" where
  "before_cursor t i e \<longleftrightarrow> evOccurred e < t \<or> (evOccurred e = t \<and> evId e < i)"

definition dead_key :: "outbox_event \<Rightarrow> timestamptz \<times> uuid" where
  "dead_key e = (evOccurred e, evId e)"

definition listDeadLettered :: "ts_codec \<Rightarrow> list_dead_input \<Rightarrow> outbox_event list \<Rightarrow> exn + dead_letter_record list" where
  "listDeadLettered cd inp rows =
     (if liLimit inp \<le> 0 then Inl (Js_error ''RangeError'')
      else
        let select = (\<lambda>p. map (mapRow cd) (take (nat (liLimit inp))
               (order_desc dead_key (filter (\<lambda>e. dead_visible (liType inp) (liTenant inp) e \<and> p e) rows))))
        in case liCursor inp of
             None \<Rightarrow> Inr (select (\<lambda>e. True))
           | Some (tx, i) \<Rightarrow>
               (case tsParse cd tx of
                  None \<Rightarrow> Inl (Pg_error ''22007'')
                | Some t \<Rightarrow> Inr (select (before_cursor t i))))"

definition getDeadLettered :: "ts_codec \<Rightarrow> uuid \<Rightarrow> outbox_event list \<Rightarrow> dead_letter_record option" where
  "getDeadLettered cd i rows =
     map_option (mapRow cd)
       (find (\<lambda>e. rls_tenant_or_admin platform_ctx (evTenant e) \<and> evId e = i \<and>
          evState e = Ev_dead_lettered \<and> evProcessed e \<noteq> None) rows)"

section \<open>The cursor\<close>

text \<open>\<open>/^\d{4}-\d{2}-\d{2}T\d{2}:\d{2}:\d{2}\.\d{6}Z$/\<close>, character by character.\<close>

fun matches_template :: "string \<Rightarrow> string \<Rightarrow> bool" where
  "matches_template [] [] = True"
| "matches_template (p # ps) (c # cs) = ((if p = CHR ''9'' then is_digit c else c = p) \<and> matches_template ps cs)"
| "matches_template _ _ = False"

definition OCCURRED_AT_TEXT_RE :: "string \<Rightarrow> bool" where
  "OCCURRED_AT_TEXT_RE = matches_template ''9999-99-99T99:99:99.999999Z''"

definition encodeCursor :: "string \<Rightarrow> uuid \<Rightarrow> string" where
  "encodeCursor occurredAtText eventId = base64url_encode (occurredAtText @ ''|'' @ uuid_text eventId)"

definition decodeCursor :: "string \<Rightarrow> (string \<times> uuid) option" where
  "decodeCursor raw =
     (let decoded = base64url_decode raw in
      if length decoded = 0 then None
      else
        let sep = length (takeWhile (\<lambda>c. c \<noteq> CHR ''|'') decoded) in
        if sep = length decoded \<or> sep = 0 \<or> sep = length decoded - 1 then None
        else
          let occurredAtText = take sep decoded; idPart = drop (sep + 1) decoded in
          if \<not> OCCURRED_AT_TEXT_RE occurredAtText then None
          else map_option (\<lambda>u. (occurredAtText, u)) (parse_uuid idPart))"

section \<open>The query schema\<close>

datatype raw_limit = Limit_absent | Limit_number int | Limit_text string

definition integer_text :: "string \<Rightarrow> int option" where
  "integer_text s =
     (let neg = prefix ''-'' s; d = (if neg then drop 1 s else s)
      in if d \<noteq> [] \<and> list_all is_digit d then Some (if neg then - int (decimal_value d) else int (decimal_value d))
         else None)"

definition limitField :: "raw_limit \<Rightarrow> int option" where
  "limitField v =
     (case v of
        Limit_absent \<Rightarrow> Some 50
      | Limit_number n \<Rightarrow> if n < 1 \<or> n > 200 then None else Some n
      | Limit_text s \<Rightarrow>
          (case integer_text s of None \<Rightarrow> None | Some n \<Rightarrow> if n < 1 \<or> n > 200 then None else Some n))"

record raw_query =
  rqType :: "string option"
  rqTenant :: "string option"
  rqCursor :: "string option"
  rqLimit :: raw_limit
  rqUnknown :: "string list"

record parsed_query =
  pqType :: "string option"
  pqTenant :: "uuid option"
  pqCursor :: "(string \<times> uuid) option"
  pqLimit :: int

definition OutboxAdminListQuerySchema :: "raw_query \<Rightarrow> thrown + parsed_query" where
  "OutboxAdminListQuerySchema q =
     (if rqType q = Some [] \<or> rqUnknown q \<noteq> [] then Inl Zod_error
      else case limitField (rqLimit q) of
        None \<Rightarrow> Inl Zod_error
      | Some n \<Rightarrow>
          (case (case rqTenant q of None \<Rightarrow> Some None | Some s \<Rightarrow> map_option Some (parse_uuid s)) of
             None \<Rightarrow> Inl Zod_error
           | Some t \<Rightarrow>
               (case (case rqCursor q of None \<Rightarrow> Some None
                      | Some c \<Rightarrow> if c = [] then None else map_option Some (decodeCursor c)) of
                  None \<Rightarrow> Inl Zod_error
                | Some cur \<Rightarrow> Inr \<lparr>pqType = rqType q, pqTenant = t, pqCursor = cur, pqLimit = n\<rparr>)))"

section \<open>The service and its routes\<close>

text \<open>The wire shape drops the microsecond text.\<close>

record dead_letter_dto =
  dtoId :: uuid
  dtoType :: string
  dtoTenant :: uuid
  dtoStore :: "uuid option"
  dtoAttempts :: nat
  dtoCorrelation :: "uuid option"
  dtoErrorClass :: "string option"
  dtoOccurred :: instant
  dtoCreated :: instant
  dtoUpdated :: instant
  dtoProcessed :: "instant option"

definition toDto :: "dead_letter_record \<Rightarrow> dead_letter_dto" where
  "toDto r = \<lparr>dtoId = dlId r, dtoType = dlType r, dtoTenant = dlTenant r, dtoStore = dlStore r,
     dtoAttempts = dlAttempts r, dtoCorrelation = dlCorrelation r, dtoErrorClass = dlErrorClass r,
     dtoOccurred = dlOccurred r, dtoCreated = dlCreated r, dtoUpdated = dlUpdated r, dtoProcessed = dlProcessed r\<rparr>"

definition admin_list ::
    "ts_codec \<Rightarrow> parsed_query \<Rightarrow> outbox_event list \<Rightarrow> exn + (dead_letter_dto list \<times> string option)" where
  "admin_list cd q rows =
     (case listDeadLettered cd \<lparr>liType = pqType q, liTenant = pqTenant q, liCursor = pqCursor q,
                               liLimit = pqLimit q + 1\<rparr> rows of
        Inl e \<Rightarrow> Inl e
      | Inr found \<Rightarrow>
          (let hasMore = int (length found) > pqLimit q;
               kept = (if hasMore then take (nat (pqLimit q)) found else found);
               nextCursor = (if hasMore \<and> kept \<noteq> []
                             then Some (encodeCursor (dlOccurredText (last kept)) (dlId (last kept))) else None)
           in Inr (map toDto kept, nextCursor)))"

definition list_route ::
    "ts_codec \<Rightarrow> raw_query \<Rightarrow> outbox_event list \<Rightarrow> (dead_letter_dto list \<times> string option) response" where
  "list_route cd q rows =
     (case OutboxAdminListQuerySchema q of
        Inl e \<Rightarrow> respond 200 (Inl e)
      | Inr p \<Rightarrow>
          (case admin_list cd p rows of
             Inl e \<Rightarrow> respond 200 (Inl (Unhandled e))
           | Inr page \<Rightarrow> respond 200 (Inr page)))"

text \<open>\<open>ParseUUIDPipe\<close> answers 400 to a malformed id.\<close>

definition get_route :: "ts_codec \<Rightarrow> string \<Rightarrow> outbox_event list \<Rightarrow> dead_letter_dto response" where
  "get_route cd eventId rows =
     (case parse_uuid eventId of
        None \<Rightarrow> respond 200 (Inl (Http_exception 400 None))
      | Some i \<Rightarrow>
          (case getDeadLettered cd i rows of
             None \<Rightarrow> respond 200 (Inl (Http_exception 404 None))
           | Some r \<Rightarrow> respond 200 (Inr (toDto r))))"

section \<open>The cursor round-trips\<close>

lemma takeWhile_sep: "c \<notin> set xs \<Longrightarrow> takeWhile (\<lambda>x. x \<noteq> c) (xs @ c # ys) = xs"
  by (induction xs) auto

lemma matches_template_chars:
  "matches_template ps cs \<Longrightarrow> length cs = length ps \<and> (\<forall>c \<in> set cs. is_digit c \<or> c \<in> set ps)"
  by (induction ps cs rule: matches_template.induct) (auto split: if_splits)

lemma occurred_text_no_bar: "OCCURRED_AT_TEXT_RE s \<Longrightarrow> CHR ''|'' \<notin> set s \<and> length s = 27"
  using matches_template_chars [of "''9999-99-99T99:99:99.999999Z''" s]
  by (auto simp: OCCURRED_AT_TEXT_RE_def is_digit_def)

lemma uuid_text_length: "length (uuid_text u) = 36"
  by (simp add: uuid_text_def)

lemma decode_encode_cursor:
  assumes "OCCURRED_AT_TEXT_RE s" and "u < 16 ^ 32"
  shows "decodeCursor (encodeCursor s u) = Some (s, u)"
proof -
  have s: "CHR ''|'' \<notin> set s" "length s = 27" using occurred_text_no_bar [OF assms(1)] by auto
  then have "takeWhile (\<lambda>c. c \<noteq> CHR ''|'') (s @ CHR ''|'' # uuid_text u) = s" by (intro takeWhile_sep)
  with s assms show ?thesis
    by (simp add: decodeCursor_def encodeCursor_def base64url_roundtrip Let_def uuid_text_length parse_uuid_text)
qed

section \<open>The listing as a paged query\<close>

definition codec_ok :: "ts_codec \<Rightarrow> outbox_event list \<Rightarrow> bool" where
  "codec_ok cd rows \<longleftrightarrow>
     (\<forall>e \<in> set rows. tsParse cd (tsText cd (evOccurred e)) = Some (evOccurred e) \<and>
        OCCURRED_AT_TEXT_RE (tsText cd (evOccurred e)) \<and> evId e < 16 ^ 32)"

definition admin_page ::
    "ts_codec \<Rightarrow> string option \<times> uuid option \<Rightarrow> outbox_event list \<Rightarrow> nat \<Rightarrow> string option
     \<Rightarrow> dead_letter_dto list \<times> string option" where
  "admin_page cd q rows n cur =
     (case list_route cd \<lparr>rqType = fst q, rqTenant = map_option uuid_text (snd q), rqCursor = cur,
                          rqLimit = Limit_number (int n), rqUnknown = []\<rparr> rows of
        Response_ok _ page \<Rightarrow> page
      | Response_error _ _ \<Rightarrow> ([], None))"

lemma keyset_before_cursor: "keyset_before dead_key (Some (t, i)) e = before_cursor t i e"
  by (auto simp: keyset_before_def dead_key_def before_cursor_def less_prod_def less_eq_prod_def)

lemma listDeadLettered_page:
  assumes "0 < n" and "cur = None \<or> (\<exists>tx i t. cur = Some (tx, i) \<and> tsParse cd tx = Some t \<and> k = Some (t, i))"
    and "cur = None \<Longrightarrow> k = None"
  shows "listDeadLettered cd \<lparr>liType = ty, liTenant = t, liCursor = cur, liLimit = int n + 1\<rparr> rows
    = Inr (map (mapRow cd) (keyset_page dead_key (dead_visible ty t) k (Suc n) rows))"
proof -
  have n: "nat (int n + 1) = Suc n" by simp
  show ?thesis
  proof (cases cur)
    case None
    with assms(3) show ?thesis by (simp add: listDeadLettered_def n keyset_page_def keyset_before_def Let_def)
  next
    case (Some c)
    with assms(2) obtain tx i u where c: "c = (tx, i)" "tsParse cd tx = Some u" "k = Some (u, i)" by auto
    show ?thesis
      by (simp add: listDeadLettered_def n keyset_page_def Some c keyset_before_cursor Let_def)
  qed
qed

lemma admin_list_page:
  assumes "0 < n" and "listDeadLettered cd \<lparr>liType = ty, liTenant = t, liCursor = cur, liLimit = int n + 1\<rparr> rows
      = Inr (map (mapRow cd) page)"
  shows "admin_list cd \<lparr>pqType = ty, pqTenant = t, pqCursor = cur, pqLimit = int n\<rparr> rows
    = Inr (map (toDto \<circ> mapRow cd) (take n page),
        peek_next (\<lambda>e. encodeCursor (tsText cd (evOccurred e)) (evId e)) n page)"
proof (cases "n < length page")
  case True
  then have "take n page \<noteq> []" using assms(1) by auto
  with True assms show ?thesis
    by (simp add: admin_list_def peek_next_def take_map last_map mapRow_def [of _ "last _"] Let_def comp_def)
next
  case False
  with assms show ?thesis by (simp add: admin_list_def peek_next_def Let_def)
qed

definition tenant_small :: "string option \<times> uuid option \<Rightarrow> bool" where
  "tenant_small q \<longleftrightarrow> (case snd q of None \<Rightarrow> True | Some t \<Rightarrow> t < 16 ^ 32)"

lemma query_parse:
  assumes "fst q \<noteq> Some []" and "tenant_small q" and "1 \<le> n" and "n \<le> 200"
    and "(cur = None \<and> c = None) \<or> (\<exists>raw x. cur = Some raw \<and> raw \<noteq> [] \<and> decodeCursor raw = Some x \<and> c = Some x)"
  shows "OutboxAdminListQuerySchema \<lparr>rqType = fst q, rqTenant = map_option uuid_text (snd q), rqCursor = cur,
      rqLimit = Limit_number (int n), rqUnknown = []\<rparr>
    = Inr \<lparr>pqType = fst q, pqTenant = snd q, pqCursor = c, pqLimit = int n\<rparr>"
  using assms
  by (auto simp: OutboxAdminListQuerySchema_def limitField_def tenant_small_def parse_uuid_text split: option.splits)

lemma encodeCursor_nonempty: "encodeCursor s u \<noteq> []"
proof
  assume "encodeCursor s u = []"
  then have "s @ CHR ''|'' # uuid_text u = []"
    using base64url_roundtrip [of "s @ CHR ''|'' # uuid_text u"] by (simp add: encodeCursor_def base64url_decode_def)
  then show False by simp
qed

lemma order_desc_dead_key: "distinct (map evId rows) \<Longrightarrow> distinct (map dead_key rows)"
  by (simp add: dead_key_def distinct_map inj_on_def)

definition admin_query_ok :: "string option \<times> uuid option \<Rightarrow> bool" where
  "admin_query_ok q \<longleftrightarrow> fst q \<noteq> Some [] \<and> tenant_small q"

definition dead_cursor :: "ts_codec \<Rightarrow> outbox_event \<Rightarrow> string" where
  "dead_cursor cd e = encodeCursor (tsText cd (evOccurred e)) (evId e)"

lemma admin_page_eq:
  assumes "codec_ok cd rows" and "admin_query_ok q" and "1 \<le> n" and "n \<le> 200"
    and "(cur = None \<and> k = None) \<or> (\<exists>r \<in> set rows. cur = Some (dead_cursor cd r) \<and> k = Some (dead_key r))"
  shows "admin_page cd q rows n cur =
    (map (toDto \<circ> mapRow cd) (take n (keyset_page dead_key (dead_visible (fst q) (snd q)) k (Suc n) rows)),
     peek_next (dead_cursor cd) n (keyset_page dead_key (dead_visible (fst q) (snd q)) k (Suc n) rows))"
proof -
  define c where "c = (case k of None \<Rightarrow> None | Some (t, i) \<Rightarrow> Some (tsText cd t, i))"
  have cur: "(cur = None \<and> c = None \<and> k = None) \<or>
    (\<exists>r \<in> set rows. cur = Some (dead_cursor cd r) \<and> c = Some (tsText cd (evOccurred r), evId r) \<and>
       k = Some (evOccurred r, evId r))"
    using assms(5) by (auto simp: c_def dead_key_def)
  have parse: "OutboxAdminListQuerySchema \<lparr>rqType = fst q, rqTenant = map_option uuid_text (snd q), rqCursor = cur,
      rqLimit = Limit_number (int n), rqUnknown = []\<rparr>
    = Inr \<lparr>pqType = fst q, pqTenant = snd q, pqCursor = c, pqLimit = int n\<rparr>"
    using assms cur
    by (intro query_parse)
       (auto simp: admin_query_ok_def dead_cursor_def encodeCursor_nonempty codec_ok_def decode_encode_cursor)
  have "listDeadLettered cd \<lparr>liType = fst q, liTenant = snd q, liCursor = c, liLimit = int n + 1\<rparr> rows
      = Inr (map (mapRow cd) (keyset_page dead_key (dead_visible (fst q) (snd q)) k (Suc n) rows))"
    using assms(1,3) cur by (intro listDeadLettered_page) (auto simp: codec_ok_def)
  from admin_list_page [OF _ this] assms(3) parse show ?thesis
    by (simp add: admin_page_def list_route_def dead_cursor_def [abs_def])
qed

lemma admin_page_after:
  "r \<in> set rows \<Longrightarrow> codec_ok cd rows \<Longrightarrow> admin_query_ok q \<Longrightarrow> 1 \<le> n \<Longrightarrow> n \<le> 200 \<Longrightarrow>
   admin_page cd q rows n (Some (dead_cursor cd r)) =
    (map (toDto \<circ> mapRow cd) (take n (keyset_page dead_key (dead_visible (fst q) (snd q)) (Some (dead_key r)) (Suc n) rows)),
     peek_next (dead_cursor cd) n (keyset_page dead_key (dead_visible (fst q) (snd q)) (Some (dead_key r)) (Suc n) rows))"
  by (rule admin_page_eq) auto

interpretation dead_list: peek_query "admin_page cd" "\<lambda>rows. rows" dead_key
  "\<lambda>q. dead_visible (fst q) (snd q)" "toDto \<circ> mapRow cd" "dead_cursor cd"
  "\<lambda>rows. distinct (map evId rows) \<and> codec_ok cd rows" admin_query_ok "\<lambda>n. 1 \<le> n \<and> n \<le> 200" for cd
  by unfold_locales
     (auto simp: admin_page_after admin_page_eq order_desc_dead_key)

section \<open>Safe classes\<close>

lemma js_split_chars: "c \<in> set s \<Longrightarrow> c = sep \<or> (\<exists>p \<in> set (js_split sep s). c \<in> set p)"
proof (induction s)
  case (Cons x xs)
  then show ?case using js_split_nonempty [of sep xs] by (auto split: list.splits)
qed simp

lemma safe_class_chars:
  assumes "SAFE_ERROR_CLASS_RE v"
  shows "list_all (\<lambda>c. is_name_start c \<or> is_digit c \<or> c = CHR ''.'') v"
  unfolding list_all_iff
proof
  fix c
  assume "c \<in> set v"
  then consider "c = CHR ''.''" | p where "p \<in> set (js_split CHR ''.'' v)" "c \<in> set p"
    using js_split_chars by blast
  then show "is_name_start c \<or> is_digit c \<or> c = CHR ''.''"
  proof cases
    case 2
    with assms have "is_identifier p" by (simp add: SAFE_ERROR_CLASS_RE_def list_all_iff)
    with 2(2) show ?thesis by (auto simp: is_identifier_def list_all_iff split: list.splits)
  qed simp
qed

end
