(* ===== verification/OutboxTheorems.thy ===== *)
theory OutboxTheorems
  imports OutboxAdmin "HOL-Library.Code_Target_Nat" "HOL-Library.Code_Target_Int"
begin

text \<open>
  The properties of the outbox: exclusive claims and the retry budget under any interleaving of
  drainers, what each row's processing does, the retention sweep, and the dead-letter endpoint.
\<close>

section \<open>Concrete tables\<close>

definition demo_event :: "uuid \<Rightarrow> string \<Rightarrow> delivery_state \<Rightarrow> nat \<Rightarrow> timestamptz \<Rightarrow> outbox_event" where
  "demo_event i ty st k t =
     \<lparr>evId = i, evTenant = 1, evStore = None, evType = ty, evPayload = ''{}'', evState = st, evAttempts = k,
      evNextAt = (if st = Ev_failed then Some t else None),
      evLastError = (if st = Ev_failed \<or> st = Ev_dead_lettered then Some ''Timeout'' else None),
      evOccurred = t, evCreated = t, evUpdated = t,
      evProcessed = (if st = Ev_delivered \<or> st = Ev_dead_lettered then Some t else None), evCorrelation = None\<rparr>"

definition demo_consumer :: consumer where
  "demo_consumer = \<lparr>consumerId = ''worker.audit'', eventType = ''audit.event.created'',
     handle = (\<lambda>x. if ceId x = 2 then Some (Js_err ''Timeout'') else None)\<rparr>"

definition demo_registry :: registry where
  "demo_registry = [''audit.event.created'' \<mapsto> demo_consumer]"

definition demo_clocks :: clocks where
  "demo_clocks = \<lparr>nodeNow = 5, dbNow = 5000\<rparr>"

definition demo_events :: "outbox_event list" where
  "demo_events = [demo_event 1 ''audit.event.created'' Ev_pending 0 100,
     demo_event 2 ''audit.event.created'' Ev_failed 2 50, demo_event 3 ''unknown.type'' Ev_failed 7 70,
     demo_event 4 ''audit.event.created'' Ev_dead_lettered 8 40, demo_event 5 ''sale.captured'' Ev_delivered 1 30]"

definition demo_sys :: outbox_sys where
  "demo_sys = \<lparr>osRows = demo_events, osInFlight = []\<rparr>"

lemma demo_outbox_inv: "outbox_inv demo_sys"
  by (simp add: outbox_inv_def demo_sys_def demo_events_def demo_event_def ev_ok_def MAX_ATTEMPTS_def)

definition demo_batch :: "claimed_event list" where
  "demo_batch = map claimed_of [demo_event 1 ''audit.event.created'' Ev_claimed 1 100,
     demo_event 2 ''audit.event.created'' Ev_claimed 3 50, demo_event 3 ''unknown.type'' Ev_claimed 8 70]"

definition demo_claimed :: outbox_sys where
  "demo_claimed = \<lparr>osRows = update_where (\<lambda>e. evId e \<le> 3) (claim_row 1000) demo_events, osInFlight = demo_batch\<rparr>"

lemma demo_claim:
  "claimBatch 1000 (\<lambda>_. False) id 50 demo_events = (Inr demo_batch, osRows demo_claimed)"
  by code_simp

lemma demo_step: "outbox_step demo_registry demo_sys demo_claimed"
  using step_claim [of 1000 "\<lambda>_. False" id 50 demo_sys demo_batch "osRows demo_claimed" demo_registry] demo_claim
  by (simp add: demo_sys_def demo_claimed_def)

lemma demo_claimed_inv: "outbox_inv demo_claimed"
  by (rule outbox_inv_step [OF demo_step demo_outbox_inv])

section \<open>Concurrent drainers\<close>

text \<open>C8: Claims are exclusive and the retry budget holds. Whatever claims, completions, crashes,
  emissions and purges any number of drainers perform, in any order and with any row locks, no event
  is held by two drainers, each held event is its claimed row as claimed, and no event is ever
  attempted more than eight times; a dead-lettered one was attempted exactly eight times.\<close>

theorem claims_exclusive_within_budget:
  assumes "(outbox_step reg)\<^sup>*\<^sup>* s s'" and "outbox_inv s"
  shows "distinct (map ceId (osInFlight s')) \<and>
    (\<forall>x \<in> set (osInFlight s'). \<exists>e \<in> set (osRows s'). evState e = Ev_claimed \<and> claimed_of e = x) \<and>
    (\<forall>e \<in> set (osRows s'). evAttempts e \<le> 8 \<and>
       (evState e = Ev_dead_lettered \<longrightarrow> evAttempts e = 8 \<and> evProcessed e \<noteq> None))"
proof -
  have inv: "outbox_inv s'" using assms by (rule outbox_inv_steps)
  have "evAttempts e \<le> 8" if "ev_ok e" for e
    using that by (cases "evState e") (auto simp: ev_ok_def MAX_ATTEMPTS_def)
  moreover have "evState e = Ev_dead_lettered \<longrightarrow> evAttempts e = 8 \<and> evProcessed e \<noteq> None" if "ev_ok e" for e
    using that by (auto simp: ev_ok_def MAX_ATTEMPTS_def)
  ultimately show ?thesis using inv by (simp add: outbox_inv_def held_def)
qed

lemma claims_exclusive_within_budget_witness:
  "distinct (map ceId (osInFlight demo_claimed)) \<and> osInFlight demo_claimed \<noteq> []"
  using claims_exclusive_within_budget [OF r_into_rtranclp [of "outbox_step demo_registry", OF demo_step] demo_outbox_inv]
  by (simp add: demo_claimed_def demo_batch_def)



text \<open>A claimed event nobody holds is lost to the drainers. If the drainer that claimed it
  crashed, or its mark was refused, no later step of any drainer, restarted or not, moves the row
  out of claimed: nothing reclaims it, and retention never purges it.\<close>

lemma orphaned_claim_is_stuck:
  assumes "outbox_inv s" and "e \<in> set (osRows s)" and "evState e = Ev_claimed"
    and "evId e \<notin> ceId ` set (osInFlight s)" and "(outbox_step reg)\<^sup>*\<^sup>* s s'"
  shows "e \<in> set (osRows s') \<and> evId e \<notin> ceId ` set (osInFlight s')"
  using orphaned_steps [OF assms(5,1), of e] assms(2-4) by (simp add: orphaned_def)

text \<open>An event type without a consumer gets there: at its eighth claim the failed mark is refused.\<close>

definition demo_orphan :: outbox_sys where
  "demo_orphan = \<lparr>osRows = processRow_marks demo_registry demo_clocks (demo_batch ! 2) (osRows demo_claimed),
     osInFlight = remove1 (demo_batch ! 2) (osInFlight demo_claimed)\<rparr>"

lemma orphaned_claim_is_stuck_witness:
  "\<exists>e. e \<in> set (osRows demo_orphan) \<and> evId e = 3 \<and> evState e = Ev_claimed \<and> evAttempts e = 8 \<and>
     (\<forall>s'. (outbox_step demo_registry)\<^sup>*\<^sup>* demo_orphan s' \<longrightarrow> e \<in> set (osRows s'))"
proof -
  have "outbox_step demo_registry demo_claimed demo_orphan"
    using step_process [of "demo_batch ! 2" demo_claimed demo_registry demo_clocks]
    by (simp add: demo_orphan_def demo_claimed_def demo_batch_def)
  then have inv: "outbox_inv demo_orphan" by (rule outbox_inv_step [OF _ demo_claimed_inv])
  define e where "e = osRows demo_orphan ! 2"
  have len: "length (osRows demo_orphan) = 5" by code_simp
  have e: "e \<in> set (osRows demo_orphan)" unfolding e_def using len by (intro nth_mem) simp
  have st: "evId e = 3 \<and> evState e = Ev_claimed \<and> evAttempts e = 8" unfolding e_def by code_simp
  have "3 \<notin> ceId ` set (osInFlight demo_orphan)" by code_simp
  with orphaned_claim_is_stuck [OF inv e _ _, of demo_registry] e st show ?thesis by (intro exI [of _ e]) simp
qed

section \<open>One drainer\<close>

text \<open>What processing a held event does, on every branch. Success delivers the row; a throw
  with budget left fails it with the redacted class and the next attempt exactly the backoff delay
  after the worker's clock; a throw on the eighth attempt dead-letters it; an event without a
  consumer is failed in the same way. No other row changes.\<close>

lemma processing_outcome:
  assumes "outbox_inv s" and "x \<in> set (osInFlight s)"
  shows "\<exists>e. find (\<lambda>e. evId e = ceId x) (processRow_marks reg clk x (osRows s)) = Some e \<and>
    filter (\<lambda>e. evId e \<noteq> ceId x) (processRow_marks reg clk x (osRows s)) = filter (\<lambda>e. evId e \<noteq> ceId x) (osRows s) \<and>
    evAttempts e = ceAttempts x \<and>
    (let retry = (\<lambda>cls. evState e = Ev_failed \<and> evLastError e = Some cls \<and>
             evNextAt e = Some (1000 * (nodeNow clk + nextAttemptDelayMs (ceAttempts x))))
     in case reg (ceType x) of
          None \<Rightarrow> if ceAttempts x < 8 then retry ''UnroutableEventType'' else evState e = Ev_claimed
        | Some k \<Rightarrow>
            (case handle k x of
               None \<Rightarrow> evState e = Ev_delivered \<and> evProcessed e = Some (dbNow clk)
             | Some err \<Rightarrow>
                 if ceAttempts x < 8 then retry (extractErrorClass err)
                 else evState e = Ev_dead_lettered \<and> evLastError e = Some (extractErrorClass err) \<and>
                      evProcessed e = Some (dbNow clk)))"
proof -
  have d: "distinct (map evId (osRows s))" and hx: "held (osRows s) x"
    using assms by (simp_all add: outbox_inv_def)
  obtain e where e: "e \<in> set (osRows s)" "evState e = Ev_claimed" "claimed_of e = x"
    and "filter (\<lambda>r. evId r = ceId x \<and> evState r = Ev_claimed) (osRows s) = [e]"
    and "\<forall>r \<in> set (osRows s). evId r = ceId x \<longrightarrow> r = e"
    by (rule held_row [OF d hx])
  have id: "evId e = ceId x" and att: "evAttempts e = ceAttempts x" using e(3) by (auto simp: claimed_of_def)
  have fnd: "find (\<lambda>r. evId r = ceId x) (osRows s) = Some e" by (rule distinct_find [OF d e(1) id])
  show ?thesis
  proof (cases "mark_of reg clk x")
    case None
    then show ?thesis
      using fnd att e(2)
      by (auto simp: processRow_marks_eq mark_of_def Let_def MAX_ATTEMPTS_def split: option.splits if_splits)
  next
    case (Some f)
    have keep: "evId (f r) = evId r" for r using mark_of_id [OF Some] .
    have rows: "processRow_marks reg clk x (osRows s) = update_where (\<lambda>e. evId e = ceId x) f (osRows s)"
      using Some mark_held [OF d hx] by (simp add: processRow_marks_eq)
    have "find (\<lambda>r. evId r = ceId x) (update_where (\<lambda>e. evId e = ceId x) f (osRows s)) = Some (f e)"
      using find_update_where [of evId f "ceId x"] keep fnd id by simp
    moreover have "filter (\<lambda>e. evId e \<noteq> ceId x) (update_where (\<lambda>e. evId e = ceId x) f (osRows s))
        = filter (\<lambda>e. evId e \<noteq> ceId x) (osRows s)"
      using keep by (intro filter_update_where_other) auto
    ultimately show ?thesis
      using Some att unfolding rows
      by (auto simp: mark_of_def Let_def MAX_ATTEMPTS_def delivered_row_def failed_row_def dead_row_def
          split: option.splits if_splits)
  qed
qed

lemma processing_outcome_witness:
  "\<exists>e. find (\<lambda>e. evId e = 2) (processRow_marks demo_registry demo_clocks (demo_batch ! 1) (osRows demo_claimed)) = Some e \<and>
     evState e = Ev_failed \<and> evLastError e = Some ''Timeout'' \<and> evNextAt e = Some (1000 * (5 + 600000))"
  using processing_outcome [OF demo_claimed_inv, of "demo_batch ! 1" demo_registry demo_clocks]
  by (auto simp: demo_claimed_def demo_batch_def claimed_of_def demo_event_def demo_registry_def demo_consumer_def
      demo_clocks_def extractErrorClass_def nextAttemptDelayMs_def Let_def)

text \<open>The rows of a batch may finish in any order. For every permutation of a claimed batch
  the table and the counters end up the same.\<close>

lemma batch_order_irrelevant:
  assumes "distinct (map ceId xs)" and "mset ys = mset xs"
  shows "process_rows reg clk ys s = process_rows reg clk xs s"
  using process_rows_perm [OF assms(1) assms(2) [symmetric]] by simp

lemma batch_order_irrelevant_witness:
  "\<forall>m. process_rows demo_registry (\<lambda>_. demo_clocks) (rev demo_batch) (osRows demo_claimed, m) =
     process_rows demo_registry (\<lambda>_. demo_clocks) demo_batch (osRows demo_claimed, m)"
  by (intro allI, rule batch_order_irrelevant) (simp_all add: demo_batch_def claimed_of_def demo_event_def)

text \<open>A claim takes the oldest eligible events. It claims as many as the batch size allows of
  the rows that are pending or failed, due and not locked, and every such row it leaves is at least
  as recent as every row it takes.\<close>

lemma claim_takes_oldest:
  assumes "claimBatch now locked rank n rows = (Inr batch, rows')" and "distinct (map evId rows)"
  shows "length batch = min (nat n) (length (filter (\<lambda>e. claimable now e \<and> \<not> locked (evId e)) rows)) \<and>
    (\<forall>e \<in> set rows. claimable now e \<and> \<not> locked (evId e) \<and> evId e \<notin> ceId ` set batch \<longrightarrow>
       (\<forall>x \<in> set batch. ceOccurred x \<le> evOccurred e))"
  using claimBatch_oldest [OF assms] by simp

lemma claim_takes_oldest_witness:
  "length (case fst (claimBatch 1000 (\<lambda>_. False) id 2 demo_events) of Inr b \<Rightarrow> b | Inl _ \<Rightarrow> []) = 2"
proof -
  obtain b r where run: "claimBatch 1000 (\<lambda>_. False) id 2 demo_events = (Inr b, r)"
    by (simp add: claimBatch_def claimBatchOnClient_def runWithTenantContext_def Let_def)
  have "length (filter (\<lambda>e. claimable 1000 e \<and> \<not> False) demo_events) = 3" by code_simp
  with claim_takes_oldest [OF run] run show ?thesis by (simp add: demo_events_def demo_event_def)
qed

text \<open>At most one timer-driven tick runs. Whatever starts, stops and timer fires happen, the
  poll loop never overlaps two ticks, and the timer exists exactly while the loop is running.\<close>

lemma one_tick_at_a_time:
  "let s = fold loop_step evs \<lparr>dpRunning = False, dpTimer = False, dpInFlight = False, dpTicks = 0\<rparr>
   in dpTicks s \<le> 1 \<and> (dpInFlight s = (dpTicks s = 1)) \<and> (dpTimer s = dpRunning s)"
proof -
  define ok where "ok s \<longleftrightarrow> dpTicks s \<le> 1 \<and> (dpInFlight s = (dpTicks s = 1)) \<and> (dpTimer s = dpRunning s)"
    for s :: drainer_loop
  have step: "ok s \<Longrightarrow> ok (loop_step ev s)" for ev s
    by (cases ev) (auto simp: ok_def)
  have "ok s \<Longrightarrow> ok (fold loop_step evs s)" for s
    by (induction evs arbitrary: s) (simp_all add: step)
  then show ?thesis by (simp add: ok_def Let_def)
qed

section \<open>Retention\<close>

text \<open>The retention sweep ends and purges exactly the rows past their window that no
  transaction holds: delivered ones after 90 days (audit events after 365), failed and dead-lettered
  ones after 365, counted exactly, in one batch more than the full batches of 1000. Pending and
  claimed rows are kept whatever their age.\<close>

lemma sweep_purges_exactly:
  assumes "distinct (map evId rows)"
  shows "retention_process OUTBOX_RETENTION_JOB_NAME True now locked rank rows =
      (let gone = filter (\<lambda>e. purgeable (computeRetentionCutoffs now) e \<and> \<not> locked (evId e)) rows
       in (Inr \<lparr>purgedCount = length gone, batchCount = length gone div 1000 + 1\<rparr>,
           filter (\<lambda>e. \<not> (purgeable (computeRetentionCutoffs now) e \<and> \<not> locked (evId e))) rows)) \<and>
    (\<forall>e. evState e = Ev_pending \<or> evState e = Ev_claimed \<longrightarrow> \<not> purgeable (computeRetentionCutoffs now) e)"
  using sweep_loop_spec [OF assms, of "computeRetentionCutoffs now" locked rank]
  by (auto simp: retention_process_def Let_def BATCH_SIZE_def purgeable_def)

lemma sweep_purges_exactly_witness:
  "snd (retention_process OUTBOX_RETENTION_JOB_NAME True (100 * 86400000) (\<lambda>_. False) id demo_events)
    = butlast demo_events"
proof -
  have "distinct (map evId demo_events)" by (simp add: demo_events_def demo_event_def)
  moreover have "filter (\<lambda>e. \<not> (purgeable (computeRetentionCutoffs (100 * 86400000)) e \<and> \<not> False)) demo_events
      = butlast demo_events" by code_simp
  ultimately show ?thesis
    using sweep_purges_exactly [of demo_events "100 * 86400000" "\<lambda>_. False" id] by (simp add: Let_def)
qed

section \<open>Dead-letter triage\<close>

text \<open>C10: The triage listing is complete. An operator who follows \<open>next_cursor\<close> from the first page,
  with any limit from 1 to 200 and any filters, receives every dead-lettered event they select
  exactly once, newest first, microsecond ties broken by id, and then stops.\<close>

theorem triage_listing_complete:
  assumes "distinct (map evId rows)" and "codec_ok cd rows" and "fst q \<noteq> Some []" and "tenant_small q"
    and "1 \<le> n" and "n \<le> 200"
  shows "fetch_all (Suc (length rows)) (admin_page cd q rows n) None
    = Some (map (toDto \<circ> mapRow cd) (order_desc dead_key (filter (dead_visible (fst q) (snd q)) rows)))"
  using dead_list.fetch_all_from_start [of rows cd q n] assms by (simp add: admin_query_ok_def)

text \<open>A codec for the instants of the example table: minute 0 of year 2026, the microseconds as given.\<close>

definition demo_codec :: ts_codec where
  "demo_codec = \<lparr>tsText = (\<lambda>t. ''2026-01-01T00:00:00.'' @ js_padStart 6 CHR ''0'' (show_nat (nat t)) @ ''Z''),
     tsParse = (\<lambda>s. Some (int (decimal_value (take 6 (drop 20 s)))))\<rparr>"

definition demo_dead :: "outbox_event list" where
  "demo_dead = [demo_event 4 ''audit.event.created'' Ev_dead_lettered 8 40, demo_event 6 ''sale.captured'' Ev_dead_lettered 8 40,
     demo_event 7 ''sale.captured'' Ev_dead_lettered 8 90, demo_event 5 ''sale.captured'' Ev_delivered 1 30]"

lemma triage_listing_complete_witness:
  "map_option (map dtoId) (fetch_all 5 (admin_page demo_codec (None, Some 1) demo_dead 1) None) = Some [7, 6, 4]"
proof -
  have "codec_ok demo_codec demo_dead" by code_simp
  moreover have "distinct (map evId demo_dead)" by (simp add: demo_dead_def demo_event_def)
  moreover have "length demo_dead = 4" by (simp add: demo_dead_def)
  moreover have "map (dtoId \<circ> (toDto \<circ> mapRow demo_codec)) (order_desc dead_key (filter (dead_visible None (Some 1)) demo_dead)) = [7, 6, 4]"
    by code_simp
  ultimately show ?thesis
    using triage_listing_complete [of demo_dead demo_codec "(None, Some 1)" 1] by (simp add: tenant_small_def)
qed

text \<open>The endpoint never leaks a stored error text. The class it reports is either absent or the
  stored value unchanged, and then it is at most 80 characters of dotted identifiers: no white
  space, quotes or braces.\<close>

lemma error_class_redacted:
  "dlErrorClass (mapRow cd e) = None \<or>
   (dlErrorClass (mapRow cd e) = evLastError e \<and>
    (\<exists>v. evLastError e = Some v \<and> length v \<le> 80 \<and> v \<noteq> [] \<and>
       list_all (\<lambda>c. is_name_start c \<or> is_digit c \<or> c = CHR ''.'') v))"
proof (cases "dlErrorClass (mapRow cd e)")
  case (Some v)
  then have v: "evLastError e = Some v" "v \<noteq> []" "length v \<le> 80" "SAFE_ERROR_CLASS_RE v"
    by (auto simp: mapRow_def sanitizeLastErrorClass_def SAFE_ERROR_CLASS_MAX_LEN_def split: option.splits if_splits)
  with Some safe_class_chars [OF v(4)] show ?thesis by simp
qed simp

text \<open>The triage cursor round-trips: what \<open>encodeCursor\<close> makes of a timestamp text and an event
  id, \<open>decodeCursor\<close> takes apart to the same timestamp text and id.\<close>

lemma cursor_roundtrip: "OCCURRED_AT_TEXT_RE s \<Longrightarrow> u < 16 ^ 32 \<Longrightarrow> decodeCursor (encodeCursor s u) = Some (s, u)"
  by (rule decode_encode_cursor)

end
