(* ===== verification/Idempotency.thy ===== *)
theory Idempotency
  imports Http
begin

text \<open>
  HTTP idempotency: the key store (packages/shared/src/idempotency/store.ts), the in-flight marker
  and the global interceptor (apps/api/src/idempotency). Redis executes one command at a time; its
  clock and the application's are one. SHA-256 is the argument \<open>sha256\<close> (hexadecimal text), on which
  nothing is assumed. A body is its JSON text, and a stored entry stands for the JSON that
  \<open>serialize\<close> writes and \<open>deserialize\<close> reads.
\<close>

section \<open>The key store\<close>

record idem_entry =
  enFingerprint :: string
  enStatus :: nat
  enBody :: string
  enExpires :: instant

text \<open>Redis: entries with the instant Redis drops them, and markers with theirs.\<close>

record idem_redis =
  rdEntries :: "string \<rightharpoonup> idem_entry \<times> instant"
  rdMarkers :: "string \<rightharpoonup> instant"

definition redis_get :: "instant \<Rightarrow> string \<Rightarrow> idem_redis \<Rightarrow> idem_entry option" where
  "redis_get now k r =
     (case rdEntries r k of None \<Rightarrow> None | Some (e, ex) \<Rightarrow> if now < ex then Some e else None)"

definition redis_set_px :: "instant \<Rightarrow> string \<Rightarrow> idem_entry \<Rightarrow> int \<Rightarrow> idem_redis \<Rightarrow> idem_redis" where
  "redis_set_px now k e px r = r\<lparr>rdEntries := (rdEntries r)(k \<mapsto> (e, now + px))\<rparr>"

definition redis_set_nx_ex :: "instant \<Rightarrow> string \<Rightarrow> int \<Rightarrow> idem_redis \<Rightarrow> bool \<times> idem_redis" where
  "redis_set_nx_ex now k seconds r =
     (if (case rdMarkers r k of None \<Rightarrow> False | Some ex \<Rightarrow> now < ex) then (False, r)
      else (True, r\<lparr>rdMarkers := (rdMarkers r)(k \<mapsto> now + 1000 * seconds)\<rparr>))"

definition redis_del :: "string \<Rightarrow> idem_redis \<Rightarrow> idem_redis" where
  "redis_del k r = r\<lparr>rdMarkers := (rdMarkers r)(k := None)\<rparr>"

definition redisKey :: "string \<Rightarrow> string option \<Rightarrow> string \<Rightarrow> string \<Rightarrow> string" where
  "redisKey tenantId storeId clientId key =
     (let store = (case storeId of None \<Rightarrow> ''null'' | Some s \<Rightarrow> s)
      in ''idempotency:'' @ tenantId @ '':'' @ store @ '':'' @ clientId @ '':'' @ key)"

datatype find_result = Hit idem_entry | Collision | Miss

text \<open>\<open>pgFind\<close> is the Postgres mirror reader; the module wires one that never finds anything.\<close>

definition findOrCreate ::
    "(string \<Rightarrow> idem_entry option) \<Rightarrow> instant \<Rightarrow> string \<Rightarrow> string \<Rightarrow> idem_redis \<Rightarrow> find_result" where
  "findOrCreate pgFind now rkey fingerprint r =
     (case redis_get now rkey r of
        Some entry \<Rightarrow>
          (if enExpires entry \<le> now then Miss
           else if enFingerprint entry \<noteq> fingerprint then Collision
           else Hit entry)
      | None \<Rightarrow>
          (case pgFind rkey of
             None \<Rightarrow> Miss
           | Some pgEntry \<Rightarrow>
               (if enExpires pgEntry \<le> now then Miss
                else if enFingerprint pgEntry \<noteq> fingerprint then Collision
                else Hit pgEntry)))"

definition NullPgMirrorReader :: "string \<Rightarrow> idem_entry option" where
  "NullPgMirrorReader k = None"

definition store_save ::
    "instant \<Rightarrow> string \<Rightarrow> string \<Rightarrow> nat \<Rightarrow> string \<Rightarrow> instant \<Rightarrow> idem_redis \<Rightarrow> idem_redis" where
  "store_save now rkey fingerprint status body expiresAt r =
     (let ttlMs = expiresAt - now;
          entry = \<lparr>enFingerprint = fingerprint, enStatus = status, enBody = body, enExpires = expiresAt\<rparr>
      in redis_set_px now rkey entry (max ttlMs 1) r)"

section \<open>The in-flight marker\<close>

definition DEFAULT_INFLIGHT_TTL_SEC :: int where
  "DEFAULT_INFLIGHT_TTL_SEC = 60"

definition markerKey :: "(string \<Rightarrow> string) \<Rightarrow> string \<Rightarrow> string" where
  "markerKey sha256 tuple = ''idem:inflight:'' @ take 32 (sha256 tuple)"

definition trySet :: "(string \<Rightarrow> string) \<Rightarrow> instant \<Rightarrow> string \<Rightarrow> int \<Rightarrow> idem_redis \<Rightarrow> bool \<times> idem_redis" where
  "trySet sha256 now tuple ttlSec r = redis_set_nx_ex now (markerKey sha256 tuple) ttlSec r"

definition marker_del :: "(string \<Rightarrow> string) \<Rightarrow> string \<Rightarrow> idem_redis \<Rightarrow> idem_redis" where
  "marker_del sha256 tuple r = redis_del (markerKey sha256 tuple) r"

section \<open>Admission\<close>

datatype idem_policy = Policy_required | Policy_optional

record idem_options =
  replayTtlSec :: "int option"
  inflightTtlSec :: "int option"

text \<open>What the interceptor reads of a request: the identifiers of the resolved context and of the
  principal are texts; the header may be repeated.\<close>

record idem_request =
  rqMethod :: string
  rqRoutePath :: "string option"
  rqUrl :: string
  rqHeader :: "string list"
  rqBody :: string
  rqContextUser :: "string option"
  rqContextTenant :: "string option"
  rqPrincipalUser :: "string option"
  rqPrincipalTenant :: "string option"

definition orElse :: "'a option \<Rightarrow> 'a option \<Rightarrow> 'a option" where
  "orElse a b = (case a of None \<Rightarrow> b | Some x \<Rightarrow> Some x)"

definition clientId :: "idem_request \<Rightarrow> string" where
  "clientId req =
     (case orElse (rqContextUser req) (rqPrincipalUser req) of None \<Rightarrow> ''anonymous'' | Some u \<Rightarrow> u)"

definition tenantId :: "idem_request \<Rightarrow> string option" where
  "tenantId req = orElse (rqContextTenant req) (rqPrincipalTenant req)"

definition KEY_REGEX :: "string \<Rightarrow> bool" where
  "KEY_REGEX s \<longleftrightarrow> 16 \<le> length s \<and> length s \<le> 128 \<and>
     list_all (\<lambda>c. 33 \<le> (of_char c :: nat) \<and> (of_char c :: nat) \<le> 126) s"

definition js_toUpperCase :: "string \<Rightarrow> string" where
  "js_toUpperCase s = map (\<lambda>c. let n = of_char c :: nat in if 97 \<le> n \<and> n \<le> 122 then char_of (n - 32) else c) s"

definition composeTuple :: "string \<Rightarrow> string \<Rightarrow> string \<Rightarrow> string \<Rightarrow> string" where
  "composeTuple method routePath cId headerKey = method @ '':'' @ routePath @ '':'' @ cId @ '':'' @ headerKey"

record idem_scope =
  scTenant :: string
  scClient :: string
  scTuple :: string
  scFingerprint :: string
  scPath :: string
  scReplayMs :: int
  scInflightSec :: int

definition scope_key :: "idem_scope \<Rightarrow> string" where
  "scope_key sc = redisKey (scTenant sc) None (scClient sc) (scTuple sc)"

datatype admission = Admit_pass | Admit_reject nat string | Admit_check idem_scope

definition admit ::
    "(string \<Rightarrow> string) \<Rightarrow> (idem_policy \<times> idem_options) option \<Rightarrow> idem_request \<Rightarrow> admission" where
  "admit sha256 policy req =
     (case policy of
        None \<Rightarrow> Admit_pass
      | Some (p, options) \<Rightarrow>
          (let headerValue = (case rqHeader req of [] \<Rightarrow> [] | h # _ \<Rightarrow> h) in
           if headerValue = []
           then (if p = Policy_required then Admit_reject 400 ''idempotency_key_required'' else Admit_pass)
           else if \<not> KEY_REGEX headerValue then Admit_reject 400 ''idempotency_key_malformed''
           else
             let method = js_toUpperCase (rqMethod req);
                 routePath = (case rqRoutePath req of Some p \<Rightarrow> p | None \<Rightarrow> rqUrl req);
                 cId = clientId req;
                 tId = (case tenantId req of Some t \<Rightarrow> t | None \<Rightarrow> ''no-tenant'')
             in Admit_check
                 \<lparr>scTenant = tId, scClient = cId, scTuple = composeTuple method routePath cId headerValue,
                  scFingerprint = sha256 (rqBody req), scPath = routePath,
                  scReplayMs = (case replayTtlSec options of Some n \<Rightarrow> n * 1000 | None \<Rightarrow> 72 * 60 * 60 * 1000),
                  scInflightSec = (case inflightTtlSec options of Some n \<Rightarrow> n | None \<Rightarrow> DEFAULT_INFLIGHT_TTL_SEC)\<rparr>))"

section \<open>The effects of a collision\<close>

text \<open>Which counters are bumped and whether an audit subject is enqueued.\<close>

record collision_effects =
  ceConflict :: bool
  ceTokenMismatch :: bool
  ceAudit :: bool

definition collision_effects :: "bool \<Rightarrow> string \<Rightarrow> collision_effects" where
  "collision_effects auditEnqueuerWired routePath =
     (let isUnknownItemsCaptureRoute = suffix ''/catalog/unknown-items'' routePath
      in \<lparr>ceConflict = True, ceTokenMismatch = isUnknownItemsCaptureRoute,
          ceAudit = isUnknownItemsCaptureRoute \<and> auditEnqueuerWired\<rparr>)"

text \<open>
  \<open>idempotencyInterceptorProvider\<close> constructs the interceptor with three arguments: the enqueuer
  takes its default, null, and the logger is absent.
\<close>

record interceptor_wiring =
  wiredEnqueuer :: bool
  wiredLogger :: bool

definition idempotencyInterceptorProvider :: interceptor_wiring where
  "idempotencyInterceptorProvider = \<lparr>wiredEnqueuer = False, wiredLogger = False\<rparr>"

section \<open>The life of a request\<close>

datatype idem_response =
    Resp_in_progress
  | Resp_replayed nat string
  | Resp_conflict
  | Resp_handler nat string
  | Resp_error

text \<open>
  A request owns the marker, then its handler runs, then its result is saved, then the marker is
  deleted. \<open>Ph_running\<close> carries when the lookup missed and when a result would expire.
\<close>

datatype req_phase =
    Ph_owned idem_scope
  | Ph_running idem_scope instant instant
  | Ph_succeeded idem_scope instant nat string
  | Ph_saved idem_scope nat string
  | Ph_done idem_response

record execution =
  exKey :: string
  exStart :: instant
  exExpires :: instant

record idem_sys =
  isNow :: instant
  isRedis :: idem_redis
  isReqs :: "nat \<rightharpoonup> req_phase"
  isDone :: "execution list"

definition set_phase :: "nat \<Rightarrow> req_phase \<Rightarrow> idem_sys \<Rightarrow> idem_sys" where
  "set_phase i ph s = s\<lparr>isReqs := (isReqs s)(i \<mapsto> ph)\<rparr>"

definition arrive :: "(string \<Rightarrow> string) \<Rightarrow> nat \<Rightarrow> idem_scope \<Rightarrow> idem_sys \<Rightarrow> idem_sys" where
  "arrive sha256 i sc s =
     (case trySet sha256 (isNow s) (scTuple sc) (scInflightSec sc) (isRedis s) of
        (True, r) \<Rightarrow> set_phase i (Ph_owned sc) (s\<lparr>isRedis := r\<rparr>)
      | (False, r) \<Rightarrow> set_phase i (Ph_done Resp_in_progress) (s\<lparr>isRedis := r\<rparr>))"

definition lookup :: "(string \<Rightarrow> string) \<Rightarrow> nat \<Rightarrow> idem_scope \<Rightarrow> idem_sys \<Rightarrow> idem_sys" where
  "lookup sha256 i sc s =
     (case findOrCreate NullPgMirrorReader (isNow s) (scope_key sc) (scFingerprint sc) (isRedis s) of
        Hit e \<Rightarrow> set_phase i (Ph_done (Resp_replayed (enStatus e) (enBody e)))
                   (s\<lparr>isRedis := marker_del sha256 (scTuple sc) (isRedis s)\<rparr>)
      | Collision \<Rightarrow> set_phase i (Ph_done Resp_conflict) (s\<lparr>isRedis := marker_del sha256 (scTuple sc) (isRedis s)\<rparr>)
      | Miss \<Rightarrow> set_phase i (Ph_running sc (isNow s) (isNow s + scReplayMs sc)) s)"

definition handler_succeeds :: "nat \<Rightarrow> idem_scope \<Rightarrow> instant \<Rightarrow> instant \<Rightarrow> nat \<Rightarrow> string \<Rightarrow> idem_sys \<Rightarrow> idem_sys" where
  "handler_succeeds i sc start ex status body s =
     set_phase i (Ph_succeeded sc ex status body)
       (s\<lparr>isDone := isDone s @ [\<lparr>exKey = scope_key sc, exStart = start, exExpires = ex\<rparr>]\<rparr>)"

definition handler_fails :: "(string \<Rightarrow> string) \<Rightarrow> nat \<Rightarrow> idem_scope \<Rightarrow> idem_sys \<Rightarrow> idem_sys" where
  "handler_fails sha256 i sc s =
     set_phase i (Ph_done Resp_error) (s\<lparr>isRedis := marker_del sha256 (scTuple sc) (isRedis s)\<rparr>)"

definition save_result :: "nat \<Rightarrow> idem_scope \<Rightarrow> instant \<Rightarrow> nat \<Rightarrow> string \<Rightarrow> idem_sys \<Rightarrow> idem_sys" where
  "save_result i sc ex status body s =
     set_phase i (Ph_saved sc status body)
       (s\<lparr>isRedis := store_save (isNow s) (scope_key sc) (scFingerprint sc) status body ex (isRedis s)\<rparr>)"

definition finalize :: "(string \<Rightarrow> string) \<Rightarrow> nat \<Rightarrow> idem_scope \<Rightarrow> nat \<Rightarrow> string \<Rightarrow> idem_sys \<Rightarrow> idem_sys" where
  "finalize sha256 i sc status body s =
     set_phase i (Ph_done (Resp_handler status body))
       (s\<lparr>isRedis := marker_del sha256 (scTuple sc) (isRedis s)\<rparr>)"

text \<open>
  Requests interleave at every Redis command. With \<open>timely\<close>, time never passes the expiry of the
  marker of a request in progress, saves succeed and no process dies; without it all of this may
  happen.
\<close>

definition in_progress :: "req_phase \<Rightarrow> idem_scope option" where
  "in_progress ph =
     (case ph of Ph_owned sc \<Rightarrow> Some sc | Ph_running sc _ _ \<Rightarrow> Some sc | Ph_succeeded sc _ _ _ \<Rightarrow> Some sc
      | Ph_saved sc _ _ \<Rightarrow> Some sc | Ph_done _ \<Rightarrow> None)"

definition markers_last :: "(string \<Rightarrow> string) \<Rightarrow> instant \<Rightarrow> idem_sys \<Rightarrow> bool" where
  "markers_last sha256 now s \<longleftrightarrow>
     (\<forall>i ph sc. isReqs s i = Some ph \<longrightarrow> in_progress ph = Some sc \<longrightarrow>
        (\<exists>ex. rdMarkers (isRedis s) (markerKey sha256 (scTuple sc)) = Some ex \<and> now < ex))"

text \<open>Tenant and client identifiers are UUIDs or fixed words: neither has a colon.\<close>

definition scope_wf :: "idem_scope \<Rightarrow> bool" where
  "scope_wf sc \<longleftrightarrow> CHR '':'' \<notin> set (scTenant sc) \<and> CHR '':'' \<notin> set (scClient sc)"

inductive idem_step :: "(string \<Rightarrow> string) \<Rightarrow> bool \<Rightarrow> idem_sys \<Rightarrow> idem_sys \<Rightarrow> bool" for sha256 timely where
  is_arrive: "isReqs s i = None \<Longrightarrow> scope_wf sc \<Longrightarrow> 0 < scInflightSec sc \<Longrightarrow>
    idem_step sha256 timely s (arrive sha256 i sc s)"
| is_lookup: "isReqs s i = Some (Ph_owned sc) \<Longrightarrow> idem_step sha256 timely s (lookup sha256 i sc s)"
| is_lookup_fails: "isReqs s i = Some (Ph_owned sc) \<Longrightarrow> idem_step sha256 timely s (handler_fails sha256 i sc s)"
| is_success: "isReqs s i = Some (Ph_running sc start ex) \<Longrightarrow>
    idem_step sha256 timely s (handler_succeeds i sc start ex status body s)"
| is_failure: "isReqs s i = Some (Ph_running sc start ex) \<Longrightarrow> idem_step sha256 timely s (handler_fails sha256 i sc s)"
| is_save: "isReqs s i = Some (Ph_succeeded sc ex status body) \<Longrightarrow>
    idem_step sha256 timely s (save_result i sc ex status body s)"
| is_save_fails: "isReqs s i = Some (Ph_succeeded sc ex status body) \<Longrightarrow> \<not> timely \<Longrightarrow>
    idem_step sha256 timely s (set_phase i (Ph_saved sc status body) s)"
| is_finalize: "isReqs s i = Some (Ph_saved sc status body) \<Longrightarrow>
    idem_step sha256 timely s (finalize sha256 i sc status body s)"
| is_crash: "isReqs s i = Some ph \<Longrightarrow> \<not> timely \<Longrightarrow> idem_step sha256 timely s (set_phase i (Ph_done Resp_error) s)"
| is_time: "isNow s \<le> now \<Longrightarrow> timely \<longrightarrow> markers_last sha256 now s \<Longrightarrow>
    idem_step sha256 timely s (s\<lparr>isNow := now\<rparr>)"

definition idem_start :: idem_sys where
  "idem_start = \<lparr>isNow = 0, isRedis = \<lparr>rdEntries = (\<lambda>_. None), rdMarkers = (\<lambda>_. None)\<rparr>,
     isReqs = (\<lambda>_. None), isDone = []\<rparr>"

end
