(* ===== verification/IdempotencyFacts.thy ===== *)
theory IdempotencyFacts
  imports Idempotency
begin

text \<open>
  The library of the idempotency layer: keys of different scopes differ, a saved result is found
  until it expires, and the invariant of interleaved requests.
\<close>

section \<open>Keys\<close>

lemma append_sep_inj:
  "xs @ c # ys = xs' @ c # ys' \<Longrightarrow> c \<notin> set xs \<Longrightarrow> c \<notin> set xs' \<Longrightarrow> xs = xs' \<and> ys = ys'"
proof (induction xs arbitrary: xs')
  case Nil
  then show ?case by (cases xs') auto
next
  case (Cons x xs)
  then show ?case by (cases xs') auto
qed

lemma scope_key_inj:
  assumes "scope_key a = scope_key b" and "scope_wf a" and "scope_wf b"
  shows "scTenant a = scTenant b \<and> scClient a = scClient b \<and> scTuple a = scTuple b"
proof -
  have "scTenant a @ CHR '':'' # (''null:'' @ scClient a @ CHR '':'' # scTuple a)
      = scTenant b @ CHR '':'' # (''null:'' @ scClient b @ CHR '':'' # scTuple b)"
    using assms(1) by (simp add: scope_key_def redisKey_def)
  from append_sep_inj [OF this] have 1: "scTenant a = scTenant b"
    and 2: "''null:'' @ scClient a @ CHR '':'' # scTuple a = ''null:'' @ scClient b @ CHR '':'' # scTuple b"
    using assms(2,3) by (auto simp: scope_wf_def)
  from 2 have "scClient a @ CHR '':'' # scTuple a = scClient b @ CHR '':'' # scTuple b" by simp
  from append_sep_inj [OF this] 1 show ?thesis
    using assms(2,3) by (auto simp: scope_wf_def)
qed

section \<open>The store\<close>

lemma find_after_save:
  "findOrCreate NullPgMirrorReader now' k fp' (store_save now k fp status body ex r) =
     (if now' < ex then
        if fp' = fp then Hit \<lparr>enFingerprint = fp, enStatus = status, enBody = body, enExpires = ex\<rparr> else Collision
      else Miss)"
  by (auto simp: findOrCreate_def store_save_def redis_get_def redis_set_px_def NullPgMirrorReader_def Let_def)

lemma find_other_key:
  "k' \<noteq> k \<Longrightarrow> findOrCreate pg now' k' fp' (store_save now k fp status body ex r) = findOrCreate pg now' k' fp' r"
  by (simp add: findOrCreate_def store_save_def redis_get_def redis_set_px_def Let_def)

section \<open>The invariant of interleaved requests\<close>

definition active :: "idem_sys \<Rightarrow> nat \<Rightarrow> idem_scope \<Rightarrow> bool" where
  "active s i sc \<longleftrightarrow> (\<exists>ph. isReqs s i = Some ph \<and> in_progress ph = Some sc)"

definition mk :: "(string \<Rightarrow> string) \<Rightarrow> idem_scope \<Rightarrow> string" where
  "mk sha256 sc = markerKey sha256 (scTuple sc)"

text \<open>An execution that has not expired is findable, or its request is about to save it.\<close>

definition findable :: "idem_sys \<Rightarrow> execution \<Rightarrow> bool" where
  "findable s x \<longleftrightarrow>
     (\<exists>e rex. rdEntries (isRedis s) (exKey x) = Some (e, rex) \<and> exExpires x \<le> enExpires e \<and> exExpires x \<le> rex) \<or>
     (\<exists>i sc status body. isReqs s i = Some (Ph_succeeded sc (exExpires x) status body) \<and> scope_key sc = exKey x)"

definition inv_exclusive :: "(string \<Rightarrow> string) \<Rightarrow> idem_sys \<Rightarrow> bool" where
  "inv_exclusive sha256 s \<longleftrightarrow>
     (\<forall>i j a b. active s i a \<longrightarrow> active s j b \<longrightarrow> mk sha256 a = mk sha256 b \<longrightarrow> i = j)"

definition inv_marked :: "(string \<Rightarrow> string) \<Rightarrow> idem_sys \<Rightarrow> bool" where
  "inv_marked sha256 s \<longleftrightarrow>
     (\<forall>i a. active s i a \<longrightarrow> scope_wf a \<and> (\<exists>ex. rdMarkers (isRedis s) (mk sha256 a) = Some ex \<and> isNow s < ex))"

definition inv_found :: "idem_sys \<Rightarrow> bool" where
  "inv_found s \<longleftrightarrow> (\<forall>x \<in> set (isDone s). isNow s < exExpires x \<longrightarrow> findable s x)"

definition inv_started :: "idem_sys \<Rightarrow> bool" where
  "inv_started s \<longleftrightarrow>
     (\<forall>i sc st ex. isReqs s i = Some (Ph_running sc st ex) \<longrightarrow>
        st \<le> isNow s \<and> (\<forall>x \<in> set (isDone s). exKey x = scope_key sc \<longrightarrow> exExpires x \<le> st)) \<and>
     (\<forall>i sc ex status body. isReqs s i = Some (Ph_succeeded sc ex status body) \<longrightarrow>
        (\<exists>st \<le> isNow s. \<forall>x \<in> set (isDone s). exKey x = scope_key sc \<longrightarrow> exExpires x \<le> st \<or> exExpires x = ex))"

definition inv_disjoint :: "idem_sys \<Rightarrow> bool" where
  "inv_disjoint s \<longleftrightarrow> sorted_wrt (\<lambda>x y. exKey x = exKey y \<longrightarrow> exExpires x \<le> exStart y) (isDone s)"

definition idem_inv :: "(string \<Rightarrow> string) \<Rightarrow> idem_sys \<Rightarrow> bool" where
  "idem_inv sha256 s \<longleftrightarrow>
     inv_exclusive sha256 s \<and> inv_marked sha256 s \<and> inv_found s \<and> inv_started s \<and> inv_disjoint s"

lemma idem_inv_start: "idem_inv sha256 idem_start"
  by (simp add: idem_inv_def idem_start_def inv_exclusive_def inv_marked_def inv_found_def inv_started_def
      inv_disjoint_def active_def)

lemma findable_mono:
  assumes "findable s x" and "rdEntries (isRedis s') = rdEntries (isRedis s)"
    and "\<And>j sc ex st b. isReqs s j = Some (Ph_succeeded sc ex st b) \<Longrightarrow> isReqs s' j = isReqs s j"
  shows "findable s' x"
  using assms(1) unfolding findable_def
proof (elim disjE exE conjE, goal_cases)
  case (1 e rex)
  with assms(2) show ?case by auto
next
  case (2 i sc st b)
  with assms(3) [OF 2(1)] have "isReqs s' i = Some (Ph_succeeded sc (exExpires x) st b)" by simp
  with 2(2) show ?case by blast
qed

text \<open>A request that ends: its marker goes, nothing else changes.\<close>

lemma active_end:
  "active (set_phase i (Ph_done resp) s) j a \<longleftrightarrow> j \<noteq> i \<and> active s j a"
  by (auto simp: active_def set_phase_def in_progress_def)

lemma active_redis [simp]: "active (s\<lparr>isRedis := r\<rparr>) = active s"
  by (simp add: active_def fun_eq_iff)

lemma end_keeps:
  assumes "idem_inv sha256 s" and "active s i sc"
    and "\<And>ex st b. isReqs s i \<noteq> Some (Ph_succeeded sc ex st b)"
  shows "idem_inv sha256 (set_phase i (Ph_done resp) (s\<lparr>isRedis := marker_del sha256 (scTuple sc) (isRedis s)\<rparr>))"
    (is "idem_inv _ ?s'")
proof -
  have act: "active ?s' j a \<longleftrightarrow> j \<noteq> i \<and> active s j a" for j a
    using active_end [of i resp "s\<lparr>isRedis := marker_del sha256 (scTuple sc) (isRedis s)\<rparr>" j a] by simp
  note inv = assms(1) [unfolded idem_inv_def]
  have ex: "mk sha256 a \<noteq> mk sha256 sc" if "j \<noteq> i" "active s j a" for j a
    using inv assms(2) that by (auto simp: inv_exclusive_def)
  have no: "isReqs s i \<noteq> Some (Ph_succeeded a ex st b)" for a ex st b
    using assms(2) assms(3) [of ex st b] by (auto simp: active_def in_progress_def)
  have "inv_exclusive sha256 ?s'" using inv act by (auto simp: inv_exclusive_def)
  moreover have "inv_marked sha256 ?s'"
    using inv ex unfolding inv_marked_def act by (auto simp: set_phase_def marker_del_def redis_del_def mk_def)
  moreover have "inv_found ?s'"
    unfolding inv_found_def
  proof (intro ballI impI)
    fix x
    assume "x \<in> set (isDone ?s')" "isNow ?s' < exExpires x"
    then have "findable s x" using inv by (simp add: inv_found_def set_phase_def)
    then show "findable ?s' x"
      by (rule findable_mono) (use no in \<open>auto simp: set_phase_def marker_del_def redis_del_def\<close>)
  qed
  moreover have "inv_started ?s'" using inv by (simp add: inv_started_def set_phase_def)
  moreover have "inv_disjoint ?s'" using inv by (simp add: inv_disjoint_def set_phase_def)
  ultimately show ?thesis by (simp add: idem_inv_def)
qed

text \<open>The marker of a request: taken when no request in progress has it.\<close>

lemma arrive_keeps:
  assumes "idem_inv sha256 s" and "isReqs s i = None" and "scope_wf sc" and "0 < scInflightSec sc"
  shows "idem_inv sha256 (arrive sha256 i sc s)"
proof (cases "\<exists>ex. rdMarkers (isRedis s) (mk sha256 sc) = Some ex \<and> isNow s < ex")
  case True
  then have "arrive sha256 i sc s = set_phase i (Ph_done Resp_in_progress) (s\<lparr>isRedis := isRedis s\<rparr>)"
    by (auto simp: arrive_def trySet_def redis_set_nx_ex_def mk_def)
  then have s': "arrive sha256 i sc s = set_phase i (Ph_done Resp_in_progress) s" by simp
  have act: "active (arrive sha256 i sc s) j a \<longleftrightarrow> active s j a" for j a
    unfolding s' active_end using assms(2) by (auto simp: active_def)
  have f: "findable s x \<Longrightarrow> findable (arrive sha256 i sc s) x" for x
    by (rule findable_mono) (use assms(2) in \<open>auto simp: s' set_phase_def\<close>)
  show ?thesis
    using assms(1,2) f unfolding idem_inv_def inv_exclusive_def inv_marked_def inv_found_def inv_disjoint_def act
    by (auto simp: s' set_phase_def inv_started_def)
next
  case False
  define r where "r = (isRedis s)\<lparr>rdMarkers := (rdMarkers (isRedis s))(mk sha256 sc \<mapsto> isNow s + 1000 * scInflightSec sc)\<rparr>"
  have s': "arrive sha256 i sc s = set_phase i (Ph_owned sc) (s\<lparr>isRedis := r\<rparr>)"
    using False by (auto simp: arrive_def trySet_def redis_set_nx_ex_def mk_def r_def split: option.splits)
  note inv = assms(1) [unfolded idem_inv_def]
  have act: "active (arrive sha256 i sc s) j a \<longleftrightarrow> (j = i \<and> a = sc) \<or> (j \<noteq> i \<and> active s j a)" for j a
    by (auto simp: s' active_def set_phase_def in_progress_def)
  have other: "mk sha256 a \<noteq> mk sha256 sc" if "active s j a" for j a
    using inv False that unfolding inv_marked_def by metis
  have "inv_exclusive sha256 (arrive sha256 i sc s)"
    using inv other unfolding inv_exclusive_def act by metis
  moreover have "inv_marked sha256 (arrive sha256 i sc s)"
    using inv other assms(3,4) unfolding inv_marked_def act
    by (auto simp: s' set_phase_def r_def)
  moreover have "findable s x \<Longrightarrow> findable (arrive sha256 i sc s) x" for x
    by (rule findable_mono) (use assms(2) in \<open>auto simp: s' set_phase_def r_def\<close>)
  ultimately show ?thesis
    using inv assms(2)
    by (auto simp: idem_inv_def inv_found_def inv_started_def inv_disjoint_def s' set_phase_def)
qed

text \<open>Moving a request to another phase of the same scope.\<close>

lemma active_move:
  assumes "isReqs s i = Some ph" and "in_progress ph = Some sc" and "in_progress ph' = Some sc"
  shows "active (set_phase i ph' s) j a \<longleftrightarrow> active s j a"
  using assms by (auto simp: active_def set_phase_def)

lemma activeI: "isReqs s i = Some ph \<Longrightarrow> in_progress ph = Some sc \<Longrightarrow> active s i sc"
  by (auto simp: active_def)

lemma same_key_same_request:
  assumes "idem_inv sha256 s" and "active s i a" and "active s j b" and "scope_key a = scope_key b"
  shows "i = j"
proof -
  have "scope_wf a" "scope_wf b" using assms(1-3) unfolding idem_inv_def inv_marked_def by blast+
  with assms(4) have "mk sha256 a = mk sha256 b" using scope_key_inj [of a b] by (simp add: mk_def)
  with assms(1-3) show ?thesis unfolding idem_inv_def inv_exclusive_def by blast
qed

lemma lookup_keeps:
  assumes "idem_inv sha256 s" and "isReqs s i = Some (Ph_owned sc)"
  shows "idem_inv sha256 (lookup sha256 i sc s)"
proof -
  have act: "active s i sc" using assms(2) by (rule activeI) (simp add: in_progress_def)
  show ?thesis
  proof (cases "findOrCreate NullPgMirrorReader (isNow s) (scope_key sc) (scFingerprint sc) (isRedis s)")
    case (Hit e)
    then show ?thesis using end_keeps [OF assms(1) act] assms(2) by (simp add: lookup_def)
  next
    case Collision
    then show ?thesis using end_keeps [OF assms(1) act] assms(2) by (simp add: lookup_def)
  next
    case Miss
    then have s': "lookup sha256 i sc s = set_phase i (Ph_running sc (isNow s) (isNow s + scReplayMs sc)) s"
      by (simp add: lookup_def)
    note inv = assms(1) [unfolded idem_inv_def]
    have am: "active (lookup sha256 i sc s) j a \<longleftrightarrow> active s j a" for j a
      unfolding s' using assms(2) by (rule active_move) (simp_all add: in_progress_def)
    have expired: "exExpires x \<le> isNow s" if "x \<in> set (isDone s)" "exKey x = scope_key sc" for x
    proof (rule ccontr)
      assume "\<not> exExpires x \<le> isNow s"
      then have late: "isNow s < exExpires x" by simp
      with inv that(1) have "findable s x" by (simp add: inv_found_def)
      then show False
        unfolding findable_def
      proof (elim disjE exE conjE, goal_cases)
        case (1 e rex)
        with Miss late that(2) show ?case
          by (auto simp: findOrCreate_def redis_get_def split: if_splits)
      next
        case (2 j a st b)
        then have "active s j a" by (intro activeI) (auto simp: in_progress_def)
        then have "j = i" using same_key_same_request [OF assms(1) _ act] 2(2) that(2) by simp
        with 2(1) assms(2) show ?case by simp
      qed
    qed
    have "findable s x \<Longrightarrow> findable (lookup sha256 i sc s) x" for x
      by (rule findable_mono) (use assms(2) in \<open>auto simp: s' set_phase_def\<close>)
    moreover have "inv_started (lookup sha256 i sc s)"
      using inv expired by (auto simp: inv_started_def s' set_phase_def)
    ultimately show ?thesis
      using inv unfolding idem_inv_def inv_exclusive_def inv_marked_def am
      by (auto simp: inv_found_def inv_disjoint_def s' set_phase_def)
  qed
qed

lemma success_keeps:
  assumes "idem_inv sha256 s" and "isReqs s i = Some (Ph_running sc st ex)"
  shows "idem_inv sha256 (handler_succeeds i sc st ex status body s)" (is "idem_inv _ ?s'")
proof -
  note inv = assms(1) [unfolded idem_inv_def]
  let ?x = "\<lparr>exKey = scope_key sc, exStart = st, exExpires = ex\<rparr>"
  have act: "active s i sc" using assms(2) by (rule activeI) (simp add: in_progress_def)
  have am: "active ?s' j a \<longleftrightarrow> active s j a" for j a
    using assms(2) by (auto simp: handler_succeeds_def active_def set_phase_def in_progress_def)
  have mine: "j = i" if "isReqs s j = Some ph" "in_progress ph = Some a" "scope_key a = scope_key sc" for j ph a
    using same_key_same_request [OF assms(1) activeI [OF that(1,2)] act that(3)] .
  have dn: "set (isDone ?s') = insert ?x (set (isDone s))"
    by (auto simp: handler_succeeds_def set_phase_def)
  have old: "findable s x \<Longrightarrow> findable ?s' x" for x
    by (rule findable_mono) (use assms(2) in \<open>auto simp: handler_succeeds_def set_phase_def\<close>)
  have new: "findable ?s' ?x"
    unfolding findable_def by (intro disjI2 exI [of _ i] exI [of _ sc] exI [of _ status] exI [of _ body])
      (simp add: handler_succeeds_def set_phase_def)
  have found: "inv_found ?s'"
    using inv old new unfolding inv_found_def dn by (auto simp: handler_succeeds_def set_phase_def)
  have "inv_started ?s'"
    unfolding inv_started_def
  proof (intro conjI allI impI)
    fix j a st' ex'
    assume run: "isReqs ?s' j = Some (Ph_running a st' ex')"
    then have ji: "j \<noteq> i" and run0: "isReqs s j = Some (Ph_running a st' ex')"
      by (auto simp: handler_succeeds_def set_phase_def split: if_splits)
    have "scope_key a \<noteq> scope_key sc" using mine [OF run0] ji by (auto simp: in_progress_def)
    moreover have "st' \<le> isNow s" "\<forall>x \<in> set (isDone s). exKey x = scope_key a \<longrightarrow> exExpires x \<le> st'"
      using inv run0 unfolding inv_started_def by blast+
    ultimately show "st' \<le> isNow ?s'" "\<forall>x \<in> set (isDone ?s'). exKey x = scope_key a \<longrightarrow> exExpires x \<le> st'"
      unfolding dn by (auto simp: handler_succeeds_def set_phase_def)
  next
    fix j a ex' st' b
    assume suc: "isReqs ?s' j = Some (Ph_succeeded a ex' st' b)"
    show "\<exists>t \<le> isNow ?s'. \<forall>x \<in> set (isDone ?s'). exKey x = scope_key a \<longrightarrow> exExpires x \<le> t \<or> exExpires x = ex'"
    proof (cases "j = i")
      case True
      with suc have "a = sc" "ex' = ex" by (auto simp: handler_succeeds_def set_phase_def)
      with inv assms(2) show ?thesis
        unfolding dn inv_started_def
        by (intro exI [of _ st]) (auto simp: handler_succeeds_def set_phase_def)
    next
      case False
      with suc have suc0: "isReqs s j = Some (Ph_succeeded a ex' st' b)"
        by (auto simp: handler_succeeds_def set_phase_def)
      have "scope_key a \<noteq> scope_key sc" using mine [OF suc0] False by (auto simp: in_progress_def)
      moreover obtain t where "t \<le> isNow s"
        "\<forall>x \<in> set (isDone s). exKey x = scope_key a \<longrightarrow> exExpires x \<le> t \<or> exExpires x = ex'"
        using inv suc0 unfolding inv_started_def by blast
      ultimately show ?thesis unfolding dn by (intro exI [of _ t]) (auto simp: handler_succeeds_def set_phase_def)
    qed
  qed
  moreover have "inv_disjoint ?s'"
    using inv assms(2) by (auto simp: inv_disjoint_def inv_started_def handler_succeeds_def set_phase_def sorted_wrt_append)
  ultimately show ?thesis
    using inv found unfolding idem_inv_def inv_exclusive_def inv_marked_def am
    by (simp add: handler_succeeds_def set_phase_def)
qed

lemma save_keeps:
  assumes "idem_inv sha256 s" and "isReqs s i = Some (Ph_succeeded sc ex status body)"
  shows "idem_inv sha256 (save_result i sc ex status body s)" (is "idem_inv _ ?s'")
proof -
  note inv = assms(1) [unfolded idem_inv_def]
  have am: "active ?s' j a \<longleftrightarrow> active s j a" for j a
    using assms(2) by (auto simp: save_result_def active_def set_phase_def in_progress_def)
  have "inv_found ?s'"
    unfolding inv_found_def
  proof (intro ballI impI)
    fix x
    assume x: "x \<in> set (isDone ?s')" "isNow ?s' < exExpires x"
    then have x0: "x \<in> set (isDone s)" "isNow s < exExpires x" by (simp_all add: save_result_def set_phase_def)
    show "findable ?s' x"
    proof (cases "exKey x = scope_key sc")
      case True
      obtain t where "t \<le> isNow s"
        "\<forall>x \<in> set (isDone s). exKey x = scope_key sc \<longrightarrow> exExpires x \<le> t \<or> exExpires x = ex"
        using inv assms(2) unfolding inv_started_def by blast
      with x0 True have "exExpires x = ex" by fastforce
      moreover have "ex \<le> isNow s + max (ex - isNow s) 1" by simp
      ultimately show ?thesis using True
        by (simp add: findable_def save_result_def set_phase_def store_save_def redis_set_px_def Let_def)
    next
      case False
      have "findable s x" using inv x0 by (simp add: inv_found_def)
      then show ?thesis
        unfolding findable_def
      proof (elim disjE exE conjE, goal_cases)
        case (1 e rex)
        with False show ?case
          by (simp add: save_result_def set_phase_def store_save_def redis_set_px_def Let_def)
      next
        case (2 j a st b)
        with False assms(2) have "j \<noteq> i" by auto
        with 2 show ?case by (auto simp: save_result_def set_phase_def)
      qed
    qed
  qed
  moreover have "rdMarkers (isRedis ?s') = rdMarkers (isRedis s)"
    by (simp add: save_result_def set_phase_def store_save_def redis_set_px_def Let_def)
  moreover have "inv_started ?s'" using inv by (auto simp: inv_started_def save_result_def set_phase_def)
  ultimately show ?thesis
    using inv unfolding idem_inv_def inv_exclusive_def inv_marked_def am
    by (simp add: save_result_def set_phase_def inv_disjoint_def)
qed

lemma idem_step_keeps:
  assumes "idem_step sha256 True s s'" and "idem_inv sha256 s"
  shows "idem_inv sha256 s'"
  using assms
proof (cases rule: idem_step.cases)
  case (is_arrive i sc)
  with arrive_keeps [OF assms(2)] show ?thesis by simp
next
  case (is_lookup i sc)
  with lookup_keeps [OF assms(2)] show ?thesis by simp
next
  case (is_lookup_fails i sc)
  have "active s i sc" using is_lookup_fails(2) by (rule activeI) (simp add: in_progress_def)
  with end_keeps [OF assms(2)] is_lookup_fails show ?thesis by (simp add: handler_fails_def)
next
  case (is_success i sc st ex status body)
  with success_keeps [OF assms(2)] show ?thesis by simp
next
  case (is_failure i sc st ex)
  have "active s i sc" using is_failure(2) by (rule activeI) (simp add: in_progress_def)
  with end_keeps [OF assms(2)] is_failure show ?thesis by (simp add: handler_fails_def)
next
  case (is_save i sc ex status body)
  with save_keeps [OF assms(2)] show ?thesis by simp
next
  case (is_finalize i sc status body)
  have "active s i sc" using is_finalize(2) by (rule activeI) (simp add: in_progress_def)
  with end_keeps [OF assms(2)] is_finalize show ?thesis by (simp add: finalize_def)
next
  case (is_time now)
  have act: "active (s\<lparr>isNow := now\<rparr>) = active s" by (simp add: active_def fun_eq_iff)
  have f: "findable (s\<lparr>isNow := now\<rparr>) = findable s" by (simp add: findable_def fun_eq_iff)
  note inv = assms(2) [unfolded idem_inv_def]
  have marked: "inv_marked sha256 (s\<lparr>isNow := now\<rparr>)"
    using inv is_time(3) unfolding inv_marked_def act markers_last_def by (auto simp: active_def mk_def)
  have "inv_started (s\<lparr>isNow := now\<rparr>)"
    unfolding inv_started_def
  proof (intro conjI allI impI)
    fix i sc st ex
    assume "isReqs (s\<lparr>isNow := now\<rparr>) i = Some (Ph_running sc st ex)"
    then have "st \<le> isNow s" "\<forall>x \<in> set (isDone s). exKey x = scope_key sc \<longrightarrow> exExpires x \<le> st"
      using inv unfolding inv_started_def by auto
    with is_time(2) show "st \<le> isNow (s\<lparr>isNow := now\<rparr>)"
      "\<forall>x \<in> set (isDone (s\<lparr>isNow := now\<rparr>)). exKey x = scope_key sc \<longrightarrow> exExpires x \<le> st" by auto
  next
    fix i sc ex st b
    assume "isReqs (s\<lparr>isNow := now\<rparr>) i = Some (Ph_succeeded sc ex st b)"
    then obtain t where "t \<le> isNow s"
      "\<forall>x \<in> set (isDone s). exKey x = scope_key sc \<longrightarrow> exExpires x \<le> t \<or> exExpires x = ex"
      using inv unfolding inv_started_def by (simp, blast)
    with is_time(2) show "\<exists>t \<le> isNow (s\<lparr>isNow := now\<rparr>). \<forall>x \<in> set (isDone (s\<lparr>isNow := now\<rparr>)).
        exKey x = scope_key sc \<longrightarrow> exExpires x \<le> t \<or> exExpires x = ex"
      by (intro exI [of _ t]) auto
  qed
  moreover have "inv_exclusive sha256 (s\<lparr>isNow := now\<rparr>)" using inv unfolding inv_exclusive_def act by blast
  ultimately show ?thesis
    using marked inv is_time(1,2) unfolding idem_inv_def by (auto simp: inv_found_def f inv_disjoint_def)
qed simp_all

lemma idem_steps_keep: "(idem_step sha256 True)\<^sup>*\<^sup>* s s' \<Longrightarrow> idem_inv sha256 s \<Longrightarrow> idem_inv sha256 s'"
  by (induction rule: rtranclp_induct) (auto intro: idem_step_keeps)

end
