(* ===== verification/JsNumber.thy ===== *)
theory JsNumber
  imports Money Complex_Main "HOL-Library.Log_Nat"
begin

text \<open>
  JavaScript's Number as the code uses it on quantities: \<open>Number(string)\<close>, the arithmetic operations
  rounded to the nearest double, \<open>Math.round\<close> and \<open>toFixed(4)\<close>. A finite double is the rational it
  denotes; the two zeros are one value, which no use in the modelled code tells apart.

  The last section bounds the error of the idiom \<open>Math.round(x * 1e4) / 1e4\<close>: up to \<open>2 ^ 50\<close>
  ten-thousandths it loses nothing.
\<close>

section \<open>Rounding to a double\<close>

text \<open>The exponent of the leading binary digit of a positive rational.\<close>

definition leading_exponent :: "rat \<Rightarrow> int" where
  "leading_exponent x =
     (case quotient_of x of (n, d) \<Rightarrow>
        let k = int (floorlog 2 (nat n)) - int (floorlog 2 (nat d))
        in if 2 powi k \<le> x then k else k - 1)"

text \<open>Round to nearest, ties to even.\<close>

definition round_half_even :: "rat \<Rightarrow> int" where
  "round_half_even x =
     (let f = \<lfloor>x\<rfloor>; r = x - of_int f
      in if r < 1 / 2 then f else if r > 1 / 2 then f + 1 else if even f then f else f + 1)"

text \<open>The spacing of the doubles around a value: 53 significant bits, and no less than \<open>2 ^ -1074\<close>.\<close>

definition spacing :: "rat \<Rightarrow> rat" where
  "spacing x = 2 powi (max (leading_exponent \<bar>x\<bar> - 52) (- 1074))"

definition to_double :: "rat \<Rightarrow> rat" where
  "to_double x = (if x = 0 then 0 else of_int (round_half_even (x / spacing x)) * spacing x)"

datatype js_number = Finite rat | Infinite bool | NaN

text \<open>The double nearest to a rational; from \<open>2 ^ 1024\<close> on, infinity with the sign.\<close>

definition js_num :: "rat \<Rightarrow> js_number" where
  "js_num x = (if \<bar>to_double x\<bar> < 2 ^ 1024 then Finite (to_double x) else Infinite (x < 0))"

section \<open>\<open>Number(string)\<close>\<close>

text \<open>
  A StrDecimalLiteral: digits, an optional fraction, an optional exponent; at least one digit
  before the exponent. Its value is exact here and rounded once.
\<close>

definition exponent_part :: "string \<Rightarrow> int option" where
  "exponent_part s =
     (if s = [] then Some 0
      else if hd s \<in> set ''eE'' then
        (let t = tl s; neg = prefix ''-'' t; ds = (if neg \<or> prefix ''+'' t then tl t else t)
         in if ds \<noteq> [] \<and> list_all is_digit ds
            then Some (if neg then - int (decimal_value ds) else int (decimal_value ds)) else None)
      else None)"

definition decimal_literal :: "string \<Rightarrow> rat option" where
  "decimal_literal s =
     (let w = takeWhile is_digit s; r = dropWhile is_digit s;
          f = (if prefix ''.'' r then takeWhile is_digit (tl r) else []);
          e = (if prefix ''.'' r then dropWhile is_digit (tl r) else r)
      in if w = [] \<and> f = [] then None
         else map_option (\<lambda>k. of_nat (decimal_value (w @ f)) * 10 powi (k - int (length f))) (exponent_part e))"

definition js_Number :: "string \<Rightarrow> js_number" where
  "js_Number str =
     (let s = js_trim str;
          neg = prefix ''-'' s; u = (if neg \<or> prefix ''+'' s then tl s else s)
      in if s = [] then Finite 0
         else if u = ''Infinity'' then Infinite neg
         else if 2 \<le> length s \<and> hd s = CHR ''0'' \<and> s ! 1 \<in> set ''xXoObB'' then
           (case parse_digits (if s ! 1 \<in> set ''xX'' then 16 else if s ! 1 \<in> set ''oO'' then 8 else 2) (drop 2 s) of
              Some n \<Rightarrow> js_num (of_nat n) | None \<Rightarrow> NaN)
         else case decimal_literal u of
                Some v \<Rightarrow> js_num (if neg then - v else v)
              | None \<Rightarrow> NaN)"

section \<open>Arithmetic\<close>

text \<open>\<open>x * 10000\<close>, \<open>x / 10000\<close> and \<open>x - y\<close> on doubles.\<close>

fun js_times_1e4 :: "js_number \<Rightarrow> js_number" where
  "js_times_1e4 (Finite x) = js_num (x * 10000)"
| "js_times_1e4 y = y"

fun js_over_1e4 :: "js_number \<Rightarrow> js_number" where
  "js_over_1e4 (Finite x) = js_num (x / 10000)"
| "js_over_1e4 y = y"

fun js_minus :: "js_number \<Rightarrow> js_number \<Rightarrow> js_number" where
  "js_minus (Finite x) (Finite y) = js_num (x - y)"
| "js_minus (Finite x) (Infinite b) = Infinite (\<not> b)"
| "js_minus (Infinite b) (Finite y) = Infinite b"
| "js_minus (Infinite a) (Infinite b) = (if a = b then NaN else Infinite a)"
| "js_minus _ _ = NaN"

text \<open>\<open>Math.round\<close>: the nearest integer, ties upwards.\<close>

fun Math_round :: "js_number \<Rightarrow> js_number" where
  "Math_round (Finite x) = Finite (of_int \<lfloor>x + 1 / 2\<rfloor>)"
| "Math_round y = y"

text \<open>Comparisons with zero: false of NaN.\<close>

fun js_less_0 :: "js_number \<Rightarrow> bool" where
  "js_less_0 (Finite x) = (x < 0)"
| "js_less_0 (Infinite b) = b"
| "js_less_0 NaN = False"

fun js_greater_0 :: "js_number \<Rightarrow> bool" where
  "js_greater_0 (Finite x) = (x > 0)"
| "js_greater_0 (Infinite b) = (\<not> b)"
| "js_greater_0 NaN = False"

fun js_isFinite :: "js_number \<Rightarrow> bool" where
  "js_isFinite (Finite x) = True"
| "js_isFinite y = False"

text \<open>The idiom of the quantity checks: \<open>Math.round(x * 1e4) / 1e4\<close>.\<close>

definition at_scale_4 :: "js_number \<Rightarrow> js_number" where
  "at_scale_4 x = js_over_1e4 (Math_round (js_times_1e4 x))"

text \<open>
  \<open>x.toFixed(4)\<close>, as the number of ten-thousandths it prints: the integer nearest to \<open>x * 10 ^ 4\<close>,
  the larger of two. (From \<open>10 ^ 21\<close> on it prints an exponent form; as input of the column type
  both forms overflow.) The text is that of the column type.
\<close>

definition toFixed4_scaled :: "rat \<Rightarrow> int" where
  "toFixed4_scaled x = (if x < 0 then - \<lfloor>(- x) * 10000 + 1 / 2\<rfloor> else \<lfloor>x * 10000 + 1 / 2\<rfloor>)"

definition js_toFixed4 :: "rat \<Rightarrow> string" where
  "js_toFixed4 x = (if x < 0 then ''-'' else []) @ pg_numeric_text \<bar>toFixed4_scaled x\<bar>"

section \<open>Error bounds\<close>


lemma round_half_even_error: "\<bar>of_int (round_half_even x) - x\<bar> \<le> 1 / 2"
proof -
  have "of_int \<lfloor>x\<rfloor> \<le> x" "x < of_int \<lfloor>x\<rfloor> + 1" by linarith+
  then show ?thesis unfolding round_half_even_def Let_def by (simp split: if_splits)
qed

lemma floorlog_rat:
  assumes "0 < n"
  shows "2 powi (int (floorlog 2 (nat n)) - 1) \<le> (of_int n :: rat)"
    and "(of_int n :: rat) < 2 powi (int (floorlog 2 (nat n)))"
proof -
  let ?k = "floorlog 2 (nat n)"
  have b: "2 ^ (?k - 1) \<le> nat n \<and> nat n < 2 ^ ?k" using assms by (intro floorlog_bounds) auto
  have k: "0 < ?k" using assms floorlog_eq_zero_iff [of 2 "nat n"] by simp
  have "of_int (2 ^ (?k - 1)) \<le> (of_int n :: rat)" "(of_int n :: rat) < of_int (2 ^ ?k)"
    using b assms by (simp_all only: of_int_le_iff of_int_less_iff) (simp_all add: nat_less_iff le_nat_iff)
  then show "2 powi (int ?k - 1) \<le> (of_int n :: rat)" "(of_int n :: rat) < 2 powi (int ?k)"
    using k by (simp_all add: power_int_def nat_diff_distrib)
qed

lemma leading_exponent_le:
  assumes "0 < x"
  shows "2 powi (leading_exponent x) \<le> x"
proof -
  obtain n d where q: "quotient_of x = (n, d)" by force
  have d: "0 < d" using quotient_of_denom_pos [OF q] .
  have x: "x = of_int n / of_int d" using quotient_of_div [OF q] .
  with assms d have n: "0 < n" by (simp add: zero_less_divide_iff)
  let ?a = "int (floorlog 2 (nat n))" and ?b = "int (floorlog 2 (nat d))"
  have "2 powi (?a - ?b - 1) \<le> x"
  proof -
    have "(2::rat) powi (?a - ?b - 1) * 2 powi ?b = 2 powi (?a - 1)"
      by (subst power_int_add [symmetric]) simp_all
    moreover have "(2::rat) powi (?a - ?b - 1) * of_int d \<le> 2 powi (?a - ?b - 1) * 2 powi ?b"
      using floorlog_rat(2) [OF d] by (intro mult_left_mono) auto
    ultimately have "(2::rat) powi (?a - ?b - 1) * of_int d \<le> of_int n"
      using floorlog_rat(1) [OF n] by linarith
    then show ?thesis using d x by (simp add: pos_le_divide_eq)
  qed
  then show ?thesis by (simp add: leading_exponent_def q Let_def)
qed

text \<open>A weak form without a case distinction: a relative error, and an absolute one that does not matter.\<close>

lemma to_double_error: "\<bar>to_double x - x\<bar> \<le> \<bar>x\<bar> / 2 ^ 53 + 1 / 2 ^ 60"
proof (cases "x = 0")
  case False
  let ?e = "leading_exponent \<bar>x\<bar>"
  have le: "2 powi ?e \<le> \<bar>x\<bar>" using False by (simp add: leading_exponent_le)
  have s: "spacing x \<le> \<bar>x\<bar> / 2 ^ 52 + 1 / 2 ^ 59"
  proof (cases "?e - 52 \<le> - 1074")
    case True
    then have "spacing x = 2 powi (- 1074)" by (simp add: spacing_def)
    also have "\<dots> \<le> 2 powi (- 59)" by (intro power_int_increasing) auto
    also have "\<dots> = 1 / 2 ^ 59" by (simp add: power_int_def power_one_over)
    finally show ?thesis by (intro order.trans [OF _ add_increasing [OF _ order_refl]]) auto
  next
    case False
    then have "spacing x = 2 powi (?e - 52)" by (simp add: spacing_def)
    also have "\<dots> = 2 powi ?e / 2 ^ 52" by (subst power_int_diff) (auto simp: power_int_def)
    finally have "spacing x \<le> \<bar>x\<bar> / 2 ^ 52" using le by (simp add: divide_right_mono)
    then show ?thesis by simp
  qed
  have pos: "0 < spacing x" by (simp add: spacing_def)
  have "to_double x - x = (of_int (round_half_even (x / spacing x)) - x / spacing x) * spacing x"
    using False pos by (simp add: to_double_def algebra_simps)
  then have "\<bar>to_double x - x\<bar> = \<bar>of_int (round_half_even (x / spacing x)) - x / spacing x\<bar> * spacing x"
    using pos by (simp add: abs_mult)
  also have "\<dots> \<le> 1 / 2 * spacing x"
    using round_half_even_error pos by (intro mult_right_mono) auto
  also have "\<dots> \<le> 1 / 2 * (\<bar>x\<bar> / 2 ^ 52 + 1 / 2 ^ 59)" using s by (intro mult_left_mono) auto
  finally show ?thesis by simp
qed (simp add: to_double_def)

text \<open>
  What it means for amounts at the scale of the column: the double of an amount is near it, and a
  double near an amount, scaled up, is within half of it.
\<close>

lemma amount_le: "\<bar>m\<bar> \<le> 2 ^ k \<Longrightarrow> \<bar>of_int m :: rat\<bar> \<le> 2 ^ k"
  by (metis of_int_abs of_int_le_iff of_int_numeral of_int_power)

lemma amount_near: "\<bar>to_double (of_int m / 10000) - of_int m / 10000\<bar> \<le> \<bar>of_int m\<bar> / 10000 / 2 ^ 53 + 1 / 2 ^ 60"
  using to_double_error [of "of_int m / 10000"] by (simp add: abs_divide)

lemma scale_up_near:
  assumes "\<bar>x * 10000 - of_int m\<bar> \<le> 5 / 16" and "\<bar>m\<bar> \<le> 2 ^ 50"
  shows "\<bar>to_double (x * 10000) - of_int m\<bar> < 1 / 2"
proof -
  have "\<bar>x * 10000\<bar> \<le> 2 ^ 50 + 5 / 16" using assms(1) amount_le [OF assms(2)] by linarith
  then have "\<bar>x * 10000\<bar> / 2 ^ 53 \<le> (2 ^ 50 + 5 / 16) / 2 ^ 53" by (intro divide_right_mono) auto
  moreover have "(2 ^ 50 + 5 / 16) / 2 ^ 53 + 1 / 2 ^ 60 < (3 / 16 :: rat)" by simp
  ultimately show ?thesis using to_double_error [of "x * 10000"] assms(1) by linarith
qed

lemma to_double_0 [simp]: "to_double 0 = 0"
  by (simp add: to_double_def)

lemma near_round: "\<bar>x - of_int m\<bar> < 1 / 2 \<Longrightarrow> \<lfloor>x + 1 / 2\<rfloor> = m"
  by (intro floor_unique) linarith+

lemma js_num_Finite:
  assumes "\<bar>x\<bar> \<le> 2 ^ 70"
  shows "js_num x = Finite (to_double x)"
proof -
  have "\<bar>x\<bar> / 2 ^ 53 \<le> \<bar>x\<bar>" by simp
  with assms to_double_error [of x] have "\<bar>to_double x\<bar> \<le> 2 ^ 72" by simp
  moreover have "(2::rat) ^ 72 < 2 ^ 1024" by (rule power_strict_increasing) auto
  ultimately have "\<bar>to_double x\<bar> < 2 ^ 1024" by (rule le_less_trans)
  then show ?thesis by (simp only: js_num_def if_True)
qed

lemma at_scale_4_near:
  assumes "\<bar>x * 10000 - of_int m\<bar> \<le> 5 / 16" and "\<bar>m\<bar> \<le> 2 ^ 50"
  shows "at_scale_4 (Finite x) = Finite (to_double (of_int m / 10000))"
proof -
  have "\<bar>x * 10000\<bar> \<le> 2 ^ 50 + 5 / 16" using assms(1) amount_le [OF assms(2)] by linarith
  then have "\<bar>x * 10000\<bar> \<le> 2 ^ 70" by simp
  moreover have "\<bar>of_int m / 10000 :: rat\<bar> \<le> 2 ^ 70" using amount_le [OF assms(2)] by (simp add: abs_divide)
  ultimately show ?thesis
    using near_round [OF scale_up_near [OF assms]] by (simp add: at_scale_4_def js_num_Finite)
qed

lemma scaled_error: "\<bar>to_double y * 10000 - y * 10000\<bar> \<le> \<bar>y * 10000\<bar> / 2 ^ 53 + 10000 / 2 ^ 60"
proof -
  have "\<bar>to_double y - y\<bar> * 10000 \<le> (\<bar>y\<bar> / 2 ^ 53 + 1 / 2 ^ 60) * 10000"
    by (intro mult_right_mono to_double_error) simp
  moreover have "\<bar>to_double y * 10000 - y * 10000\<bar> = \<bar>to_double y - y\<bar> * 10000"
    by (subst left_diff_distrib [symmetric]) (simp only: abs_mult abs_numeral)
  moreover have "(\<bar>y\<bar> / 2 ^ 53 + 1 / 2 ^ 60) * 10000 = \<bar>y * 10000\<bar> / 2 ^ 53 + 10000 / (2 ^ 60 :: rat)"
    by (simp only: abs_mult abs_numeral distrib_right times_divide_eq_left mult_1)
  ultimately show ?thesis by simp
qed

lemma amount_times_error:
  "\<bar>to_double (of_int m / 10000) * 10000 - of_int m\<bar> \<le> \<bar>of_int m\<bar> / 2 ^ 53 + 10000 / 2 ^ 60"
  using scaled_error [of "of_int m / 10000"] by simp

lemma amount_times:
  assumes "\<bar>m\<bar> \<le> 2 ^ 50"
  shows "\<bar>to_double (of_int m / 10000) * 10000 - of_int m\<bar> \<le> 1 / 4"
proof -
  have "\<bar>of_int m :: rat\<bar> / 2 ^ 53 \<le> 2 ^ 50 / 2 ^ 53"
    using amount_le [OF assms] by (intro divide_right_mono) auto
  moreover have "2 ^ 50 / 2 ^ 53 + 10000 / 2 ^ 60 < (1 / 4 :: rat)" by simp
  ultimately show ?thesis using amount_times_error [of m] by linarith
qed

lemma at_scale_4_amount:
  assumes "\<bar>m\<bar> \<le> 2 ^ 50"
  shows "at_scale_4 (Finite (to_double (of_int m / 10000))) = Finite (to_double (of_int m / 10000))"
  using amount_times [OF assms] by (intro at_scale_4_near assms) linarith

lemma toFixed4_amount:
  assumes "\<bar>m\<bar> \<le> 2 ^ 50"
  shows "toFixed4_scaled (to_double (of_int m / 10000)) = m"
proof -
  have "\<bar>to_double (of_int m / 10000) * 10000 - of_int m\<bar> < 1 / 2" using amount_times [OF assms] by linarith
  then have "\<lfloor>to_double (of_int m / 10000) * 10000 + 1 / 2\<rfloor> = m"
    "\<lfloor>- to_double (of_int m / 10000) * 10000 + 1 / 2\<rfloor> = - m"
    by (intro near_round; simp add: abs_if split: if_splits)+
  then show ?thesis by (simp add: toFixed4_scaled_def)
qed

text \<open>The difference of two amounts, both converted, subtracted and rounded to the scale.\<close>

lemma at_scale_4_difference:
  assumes "\<bar>c\<bar> \<le> 2 ^ 48" and "\<bar>d\<bar> \<le> 2 ^ 48"
  shows "at_scale_4 (js_minus (Finite (to_double (of_int c / 10000))) (Finite (to_double (of_int d / 10000))))
    = Finite (to_double (of_int (c - d) / 10000))"
proof -
  let ?D = "to_double (of_int c / 10000) - to_double (of_int d / 10000)"
  have half: "\<bar>to_double (of_int m / 10000) * 10000 - of_int m\<bar> \<le> 1 / 30" if "\<bar>m\<bar> \<le> 2 ^ 48" for m
  proof -
    have "\<bar>of_int m :: rat\<bar> / 2 ^ 53 \<le> 2 ^ 48 / 2 ^ 53"
      using amount_le [OF that] by (intro divide_right_mono) auto
    moreover have "2 ^ 48 / 2 ^ 53 + 10000 / 2 ^ 60 < (1 / 30 :: rat)" by simp
    ultimately show ?thesis using amount_times_error [of m] by linarith
  qed
  have near: "\<bar>?D * 10000 - of_int (c - d)\<bar> \<le> 1 / 15"
    using half [OF assms(1)] half [OF assms(2)] unfolding left_diff_distrib of_int_diff by linarith
  have cd: "\<bar>of_int (c - d) :: rat\<bar> \<le> 2 ^ 49"
    using amount_le [OF assms(1)] amount_le [OF assms(2)] by simp
  with near have size: "\<bar>?D * 10000\<bar> \<le> 2 ^ 49 + 1 / 15" by linarith
  then have "\<bar>?D * 10000\<bar> / 2 ^ 53 \<le> (2 ^ 49 + 1 / 15) / 2 ^ 53" by (intro divide_right_mono) auto
  moreover have "(2 ^ 49 + 1 / 15) / 2 ^ 53 + 10000 / 2 ^ 60 < (1 / 10 :: rat)" by simp
  ultimately have "\<bar>to_double ?D * 10000 - of_int (c - d)\<bar> \<le> 5 / 16"
    using scaled_error [of ?D] near by linarith
  moreover have "\<bar>c - d\<bar> \<le> 2 ^ 50"
  proof -
    have "(2::int) ^ 50 = 4 * 2 ^ 48" by simp
    with assms show ?thesis by linarith
  qed
  ultimately have "at_scale_4 (Finite (to_double ?D)) = Finite (to_double (of_int (c - d) / 10000))"
    by (rule at_scale_4_near)
  moreover have "\<bar>?D\<bar> * 10000 \<le> 2 ^ 49 + 1 / 15" using size by (simp only: abs_mult abs_numeral)
  then have "\<bar>?D\<bar> \<le> 2 ^ 70" by simp
  ultimately show ?thesis by (simp add: js_num_Finite)
qed


text \<open>The idiom keeps the sign of every amount of the column, also of those it does not keep exactly.\<close>

lemma to_double_sign:
  assumes "1 / 2 ^ 58 < \<bar>x\<bar>"
  shows "to_double x > 0 \<longleftrightarrow> x > 0" and "to_double x < 0 \<longleftrightarrow> x < 0"
proof -
  have "\<bar>x\<bar> / 2 ^ 53 \<le> \<bar>x\<bar> / 2" by (simp add: divide_left_mono)
  with to_double_error [of x] assms have "\<bar>to_double x - x\<bar> < \<bar>x\<bar>" by simp
  then show "to_double x > 0 \<longleftrightarrow> x > 0" "to_double x < 0 \<longleftrightarrow> x < 0" by (auto simp: abs_if split: if_splits)
qed

lemma at_scale_4_sign:
  assumes "m \<noteq> 0" and "\<bar>m\<bar> < 10 ^ 19"
  obtains q where "at_scale_4 (js_num (of_int m / 10000)) = Finite q" "q > 0 \<longleftrightarrow> m > 0" "q < 0 \<longleftrightarrow> m < 0"
proof -
  let ?x = "to_double (of_int m / 10000)" and ?m = "of_int m :: rat"
  have m1: "1 \<le> \<bar>?m\<bar>" using assms(1) by linarith
  have m2: "\<bar>?m\<bar> < 10 ^ 19" using assms(2) by (metis of_int_abs of_int_less_iff of_int_numeral of_int_power)
  have fin: "js_num (?m / 10000) = Finite ?x" using m2 by (intro js_num_Finite) (simp add: abs_divide)
  have e1: "\<bar>?x * 10000 - ?m\<bar> \<le> \<bar>?m\<bar> / 2 ^ 53 + 10000 / 2 ^ 60" by (rule amount_times_error)
  have "\<bar>?m\<bar> / 2 ^ 53 \<le> \<bar>?m\<bar> / 1000" by (intro divide_left_mono) auto
  with e1 m1 have e2: "\<bar>?x * 10000 - ?m\<bar> \<le> \<bar>?m\<bar> / 500" by simp
  then have s1: "\<bar>?x * 10000\<bar> \<le> \<bar>?m\<bar> * (501 / 500)" by (simp add: abs_if field_simps split: if_splits)
  let ?y = "to_double (?x * 10000)"
  have "\<bar>?x * 10000\<bar> / 2 ^ 53 \<le> \<bar>?m\<bar> * (501 / 500) / 1000"
    using s1 by (intro frac_le) auto
  with to_double_error [of "?x * 10000"] m1 have "\<bar>?y - ?x * 10000\<bar> \<le> \<bar>?m\<bar> / 400" by simp
  with e2 have e3: "\<bar>?y - ?m\<bar> \<le> \<bar>?m\<bar> / 200" by linarith
  let ?r = "\<lfloor>?y + 1 / 2\<rfloor>"
  have r: "(?r > 0 \<longleftrightarrow> m > 0) \<and> (?r < 0 \<longleftrightarrow> m < 0)"
  proof -
    have "?m \<ge> 1 \<or> ?m \<le> - 1" using assms(1) by (cases "m > 0") linarith+
    then show ?thesis
    proof (elim disjE)
      assume "?m \<ge> 1"
      moreover from this e3 have "?y + 1 / 2 \<ge> 1" by linarith
      ultimately show ?thesis by linarith
    next
      assume "?m \<le> - 1"
      moreover from this e3 have "?y + 1 / 2 < 0" by linarith
      ultimately show ?thesis by linarith
    qed
  qed
  have "\<bar>?y\<bar> \<le> 2 * 10 ^ 19" using e3 m2 by linarith
  moreover have "\<bar>of_int ?r :: rat\<bar> \<le> \<bar>?y\<bar> + 2" by linarith
  moreover have "2 * 10 ^ 19 + 2 \<le> (3 * 10 ^ 19 :: rat)" by simp
  ultimately have size: "\<bar>of_int ?r :: rat\<bar> \<le> 3 * 10 ^ 19" by linarith
  have big: "\<bar>?x * 10000\<bar> \<le> 2 ^ 70" using s1 m2 by simp
  have r10: "\<bar>of_int ?r / 10000 :: rat\<bar> \<le> 2 ^ 70" using size by (simp add: abs_divide)
  have at: "at_scale_4 (js_num (?m / 10000)) = Finite (to_double (of_int ?r / 10000))"
    by (simp add: fin at_scale_4_def js_num_Finite [OF big] js_num_Finite [OF r10])
  have "?r \<noteq> 0" using r assms(1) by linarith
  then have "1 \<le> \<bar>of_int ?r :: rat\<bar>" by linarith
  then have "1 / 2 ^ 58 < \<bar>of_int ?r / 10000 :: rat\<bar>" by (simp add: abs_divide)
  note to_double_sign [OF this]
  with at r show thesis by (intro that) (auto simp: zero_less_divide_iff divide_less_0_iff)
qed


section \<open>Rounding is to nearest\<close>


lemma leading_exponent_less:
  assumes "0 < x"
  shows "x < 2 powi (leading_exponent x + 1)"
proof -
  obtain n d where q: "quotient_of x = (n, d)" by force
  have d: "0 < d" using quotient_of_denom_pos [OF q] .
  have x: "x = of_int n / of_int d" using quotient_of_div [OF q] .
  with assms d have n: "0 < n" by (simp add: zero_less_divide_iff)
  let ?a = "int (floorlog 2 (nat n))" and ?b = "int (floorlog 2 (nat d))"
  have "x < 2 powi (?a - ?b + 1)"
  proof -
    have "(2::rat) powi (?a - ?b + 1) * 2 powi (?b - 1) = 2 powi ?a"
      by (subst power_int_add [symmetric]) simp_all
    moreover have "(2::rat) powi (?a - ?b + 1) * 2 powi (?b - 1) \<le> 2 powi (?a - ?b + 1) * of_int d"
      using floorlog_rat(1) [OF d] by (intro mult_left_mono) auto
    ultimately have "of_int n < (2::rat) powi (?a - ?b + 1) * of_int d"
      using floorlog_rat(2) [OF n] by linarith
    then show ?thesis using d x by (simp add: pos_divide_less_eq)
  qed
  then show ?thesis by (auto simp: leading_exponent_def q Let_def)
qed

lemma leading_exponent_unique:
  assumes "2 powi e \<le> x" and "x < 2 powi (e + 1)"
  shows "leading_exponent x = e"
proof -
  have x: "0 < x" using assms(1) by (rule less_le_trans [rotated]) simp
  have "(2::rat) powi e < 2 powi (leading_exponent x + 1)" "(2::rat) powi (leading_exponent x) < 2 powi (e + 1)"
    using leading_exponent_le [OF x] leading_exponent_less [OF x] assms by linarith+
  then have "\<not> leading_exponent x + 1 \<le> e" "\<not> e + 1 \<le> leading_exponent x"
    using power_int_increasing [of "leading_exponent x + 1" e "2::rat"]
      power_int_increasing [of "e + 1" "leading_exponent x" "2::rat"] by linarith+
  then show ?thesis by simp
qed

lemma round_half_even_unique:
  assumes "\<bar>x - of_int n\<bar> < 1 / 2"
  shows "round_half_even x = n"
proof (cases "of_int n \<le> x")
  case True
  with assms have "\<lfloor>x\<rfloor> = n" by (intro floor_unique) linarith+
  with assms True show ?thesis by (simp add: round_half_even_def)
next
  case False
  with assms have f: "\<lfloor>x\<rfloor> = n - 1" by (intro floor_unique; unfold of_int_diff of_int_1; linarith)
  moreover from assms have "x - of_int (n - 1) > 1 / 2" unfolding of_int_diff of_int_1 by linarith
  ultimately show ?thesis by (simp add: round_half_even_def)
qed

text \<open>A value nearer to a double than half its spacing rounds to it.\<close>

lemma to_double_nearest:
  assumes "2 powi e \<le> \<bar>x\<bar>" and "\<bar>x\<bar> < 2 powi (e + 1)" and "- 1022 \<le> e"
    and "\<bar>x / 2 powi (e - 52) - of_int n\<bar> < 1 / 2"
  shows "to_double x = of_int n * 2 powi (e - 52)"
proof -
  have "(0::rat) < 2 powi e" by simp
  with assms(1) have "0 < \<bar>x\<bar>" by (rule less_le_trans [rotated])
  then have "x \<noteq> 0" by simp
  moreover have "spacing x = 2 powi (e - 52)"
    using leading_exponent_unique [OF assms(1,2)] assms(3) by (simp add: spacing_def)
  ultimately show ?thesis using round_half_even_unique [OF assms(4)] by (simp add: to_double_def)
qed

section \<open>Amounts as text\<close>


lemma js_trim_plain: "list_all (\<lambda>c. \<not> is_space c) s \<Longrightarrow> js_trim s = s"
proof -
  have *: "list_all (\<lambda>c. \<not> is_space c) t \<Longrightarrow> dropWhile is_space t = t" for t by (cases t) auto
  assume "list_all (\<lambda>c. \<not> is_space c) s"
  then show ?thesis by (simp add: js_trim_def * list_all_rev)
qed

lemma decimal_literal_split:
  assumes "list_all is_digit w" "w \<noteq> []" "list_all is_digit f" "length f \<le> SCALE"
    and "r = [] \<and> f = [] \<or> r = CHR ''.'' # f"
  shows "decimal_literal (w @ r) = Some (of_nat (scaled w f) / 10000)"
proof -
  have tw: "takeWhile is_digit (w @ r) = w" and dw: "dropWhile is_digit (w @ r) = r"
    using assms(1,5) by (auto simp: takeWhile_append dropWhile_append list_all_iff)
  have tf: "takeWhile is_digit f = f" and df: "dropWhile is_digit f = []"
    using assms(3) by (auto simp: takeWhile_eq_all_conv dropWhile_eq_Nil_conv list_all_iff)
  have "decimal_literal (w @ r) = Some (of_nat (decimal_value (w @ f)) * 10 powi (- int (length f)))"
    using assms(5)
  proof (elim disjE conjE)
    assume r: "r = []" "f = []"
    have tw0: "takeWhile is_digit w = w" and dw0: "dropWhile is_digit w = []"
      using assms(1) by (auto simp: takeWhile_eq_all_conv dropWhile_eq_Nil_conv list_all_iff)
    show ?thesis by (simp add: r decimal_literal_def exponent_part_def tw0 dw0 assms(2))
  next
    assume r: "r = CHR ''.'' # f"
    have "decimal_literal (w @ r) = map_option (\<lambda>k. of_nat (decimal_value (w @ f)) * 10 powi (k - int (length f))) (exponent_part [])"
      unfolding decimal_literal_def Let_def tw dw using assms(2) by (simp add: r tf df)
    then show ?thesis by (simp add: exponent_part_def)
  qed
  moreover have "of_nat (decimal_value (w @ f)) * 10 powi (- int (length f)) = (of_nat (scaled w f) / 10000 :: rat)"
  proof -
    have "(10::rat) ^ 4 = 10 ^ (4 - length f) * 10 ^ length f"
      using assms(4) by (simp add: SCALE_def flip: power_add)
    then show ?thesis
      by (simp add: scaled_def SCALE_def decimal_value_append power_int_minus field_simps)
  qed
  ultimately show ?thesis by simp
qed

lemma js_Number_split:
  assumes "list_all is_digit w" "w \<noteq> []" "list_all is_digit f" "length f \<le> SCALE"
    and "r = [] \<and> f = [] \<or> r = CHR ''.'' # f"
  shows "js_Number (w @ r) = js_num (of_nat (scaled w f) / 10000)"
    and "js_Number (CHR ''-'' # w @ r) = js_num (- (of_nat (scaled w f) / 10000))"
proof -
  obtain c cs where w: "w = c # cs" using assms(2) by (cases w) auto
  have c: "is_digit c" "list_all is_digit cs" using assms(1) w by auto
  have nosp: "list_all (\<lambda>c. \<not> is_space c) t" if "list_all is_digit t" for t
    using that digit_not_space by (auto simp: list_all_iff)
  have sp: "list_all (\<lambda>c. \<not> is_space c) (w @ r)" "\<not> is_space CHR ''-''"
    using nosp [OF assms(1)] nosp [OF assms(3)] assms(5) by (auto simp: is_space_def)
  have c': "c \<noteq> CHR ''-''" "c \<noteq> CHR ''+''" "c \<noteq> CHR ''I''" using c by (auto simp: is_digit_def)
  have x: "2 \<le> length (w @ r) \<Longrightarrow> (w @ r) ! 1 \<notin> set ''xXoObB''"
    using c assms(5) by (cases cs) (auto simp: w is_digit_def)
  note lit = decimal_literal_split [OF assms]
  show "js_Number (w @ r) = js_num (of_nat (scaled w f) / 10000)"
    using lit x c' unfolding js_Number_def js_trim_plain [OF sp(1)] Let_def by (auto simp: w)
  have t: "js_trim (CHR ''-'' # w @ r) = CHR ''-'' # w @ r"
    using sp by (intro js_trim_plain) simp
  show "js_Number (CHR ''-'' # w @ r) = js_num (- (of_nat (scaled w f) / 10000))"
    using lit c' unfolding js_Number_def t Let_def by (auto simp: w)
qed

text \<open>A signed amount of the column's shape: what \<open>Number\<close> and the column make of it.\<close>

definition signed_amount :: "string \<Rightarrow> bool" where
  "signed_amount s \<longleftrightarrow> MONEY_RE (if prefix ''-'' s then tl s else s)"

lemma money_parts:
  assumes "MONEY_RE s"
  obtains w f r where "s = w @ r" "list_all is_digit w" "w \<noteq> []" "list_all is_digit f" "length f \<le> SCALE"
    "r = [] \<and> f = [] \<or> r = CHR ''.'' # f" "length w \<le> 15"
  using assms
proof (cases rule: MONEY_RE_cases)
  case plain
  then show ?thesis by (intro that [of s "[]" "[]"]) auto
next
  case (frac w f)
  then show ?thesis by (intro that [of w "CHR ''.'' # f" f]) auto
qed

lemma signed_amount_value:
  assumes "signed_amount s"
  obtains v where "pg_numeric_in s = Inr v" "js_Number s = js_num (of_int v / 10000)" "\<bar>v\<bar> < 10 ^ 19"
    "prefix ''-'' s \<Longrightarrow> v \<le> 0" "\<not> prefix ''-'' s \<Longrightarrow> 0 \<le> v"
proof (cases "prefix ''-'' s")
  case True
  then obtain u where s: "s = CHR ''-'' # u" by (auto simp: prefix_def)
  with assms True have "MONEY_RE u" by (simp add: signed_amount_def)
  then obtain w f r where p: "u = w @ r" "list_all is_digit w" "w \<noteq> []" "list_all is_digit f"
    "length f \<le> SCALE" "r = [] \<and> f = [] \<or> r = CHR ''.'' # f" "length w \<le> 15" by (rule money_parts)
  have b: "scaled w f < 10 ^ 19" using p by (intro scaled_bound) auto
  have "pg_decimal_in u = Some (int (scaled w f))" unfolding p(1) using p by (intro pg_decimal_in_split) auto
  moreover have "\<not> prefix ''-'' u" using digits_no_minus [OF p(2,3)] p(1) by simp
  ultimately have "pg_decimal_in s = Some (- int (scaled w f))"
    by (auto simp: s pg_decimal_in_def Let_def split: if_splits)
  moreover have "js_Number s = js_num (- (of_nat (scaled w f) / 10000))"
    unfolding s p(1) using p by (intro js_Number_split(2)) auto
  ultimately show ?thesis
    using b True by (intro that [of "- int (scaled w f)"]) (auto simp: pg_numeric_in_def numeric_19_4_fits_def)
next
  case False
  with assms have "MONEY_RE s" by (simp add: signed_amount_def)
  then obtain w f r where p: "s = w @ r" "list_all is_digit w" "w \<noteq> []" "list_all is_digit f"
    "length f \<le> SCALE" "r = [] \<and> f = [] \<or> r = CHR ''.'' # f" "length w \<le> 15" by (rule money_parts)
  have b: "scaled w f < 10 ^ 19" using p by (intro scaled_bound) auto
  have "pg_decimal_in s = Some (int (scaled w f))" unfolding p(1) using p by (intro pg_decimal_in_split) auto
  moreover have "js_Number s = js_num (of_nat (scaled w f) / 10000)"
    unfolding p(1) using p by (intro js_Number_split(1)) auto
  ultimately show ?thesis
    using b False by (intro that [of "int (scaled w f)"]) (auto simp: pg_numeric_in_def numeric_19_4_fits_def)
qed

lemma js_Number_numeric_text: "js_Number (pg_numeric_text v) = js_num (of_int v / 10000)"
proof -
  let ?n = "nat \<bar>v\<bar>"
  define w where "w = show_nat (?n div 10000)"
  define f where "f = js_padStart 4 CHR ''0'' (show_nat (?n mod 10000))"
  have f: "list_all is_digit f" "length f = SCALE" "decimal_value f = ?n mod 10000"
    using frac_digits [of "?n mod 10000"] by (simp_all add: f_def SCALE_def)
  have w: "list_all is_digit w" "w \<noteq> []" "decimal_value w = ?n div 10000"
    by (simp_all add: w_def show_nat_digits show_nat_nonempty)
  have "scaled w f = ?n" using div_mult_mod_eq [of ?n 10000] by (simp add: scaled_def w f SCALE_def)
  moreover have "pg_numeric_text v = (if v < 0 then ''-'' else []) @ w @ CHR ''.'' # f"
    by (simp add: pg_numeric_text_def w_def f_def)
  ultimately show ?thesis
    using js_Number_split [OF w(1,2) f(1), of "CHR ''.'' # f"] f(2) by auto
qed


end
