(* ===== verification/Json.thy ===== *)
theory Json
  imports Codec
begin

text \<open>
  \<open>JSON.stringify\<close> of the values the code sends to \<open>jsonb\<close> columns: nested objects of strings,
  booleans, nulls and arrays, with no indentation.
\<close>

datatype json =
    J_null
  | J_bool bool
  | J_string string
  | J_array "json list"
  | J_object "(string \<times> json) list"

definition json_escape :: "char \<Rightarrow> string" where
  "json_escape c =
     (let n = of_char c :: nat in
      if n = 34 then [char_of (92::nat), char_of (34::nat)]
      else if n = 92 then [char_of (92::nat), char_of (92::nat)]
      else if n = 8 then char_of (92::nat) # ''b''
      else if n = 12 then char_of (92::nat) # ''f''
      else if n = 10 then char_of (92::nat) # ''n''
      else if n = 13 then char_of (92::nat) # ''r''
      else if n = 9 then char_of (92::nat) # ''t''
      else if n < 32 then char_of (92::nat) # ''u'' @ hex_fixed 4 n
      else [c])"

definition json_quote :: "string \<Rightarrow> string" where
  "json_quote s = char_of (34::nat) # concat (map json_escape s) @ [char_of (34::nat)]"

fun sep_by :: "char \<Rightarrow> string list \<Rightarrow> string" where
  "sep_by c [] = []"
| "sep_by c [x] = x"
| "sep_by c (x # xs) = x @ c # sep_by c xs"

fun json_text :: "json \<Rightarrow> string" where
  "json_text J_null = ''null''"
| "json_text (J_bool b) = (if b then ''true'' else ''false'')"
| "json_text (J_string s) = json_quote s"
| "json_text (J_array xs) = ''['' @ sep_by CHR '','' (map json_text xs) @ '']''"
| "json_text (J_object fs) =
     ''{'' @ sep_by CHR '','' (map (\<lambda>(k, v). json_quote k @ '':'' @ json_text v) fs) @ ''}''"

text \<open>The fields that are an identifier, a text, or null.\<close>

definition J_uuid :: "uuid \<Rightarrow> json" where
  "J_uuid u = J_string (uuid_text u)"

definition J_option :: "('a \<Rightarrow> json) \<Rightarrow> 'a option \<Rightarrow> json" where
  "J_option f x = (case x of None \<Rightarrow> J_null | Some a \<Rightarrow> f a)"

end
