(* ===== verification/Transaction.thy ===== *)
theory Transaction
  imports Tenancy
begin

text \<open>
  Programs that run statements on one transaction and may catch the error of a statement. A failed
  statement aborts the PostgreSQL transaction: every later statement fails with 25P02 until the
  rollback, also one in a \<open>catch\<close> block, and a \<open>COMMIT\<close> rolls back. So an action takes and returns
  the state of the transaction together with a value or the error it throws.

  \<open>succeeds m s a s'\<close> is the relation the component proofs use: the action runs on an open
  transaction, returns a value and leaves it open. The rules of \<open>run_simps\<close> compute it.
\<close>

named_theorems run_simps \<open>when a database action succeeds, and with what\<close>
named_theorems seq_simps \<open>when a sequence of steps succeeds\<close>

datatype 's tx = Tx_open 's | Tx_aborted

type_synonym ('a, 's) action = "'s tx \<Rightarrow> (exn + 'a) \<times> 's tx"

abbreviation "in_failed_transaction \<equiv> Pg_error ''25P02''"

definition act_return :: "'a \<Rightarrow> ('a, 's) action" where
  "act_return a t = (Inr a, t)"

definition act_throw :: "exn \<Rightarrow> ('a, 's) action" where
  "act_throw e t = (Inl e, t)"

definition act_bind :: "('a, 's) action \<Rightarrow> ('a \<Rightarrow> ('b, 's) action) \<Rightarrow> ('b, 's) action" where
  "act_bind m f t = (case m t of (Inl e, t') \<Rightarrow> (Inl e, t') | (Inr a, t') \<Rightarrow> f a t')"

definition act_then :: "('a, 's) action \<Rightarrow> ('b, 's) action \<Rightarrow> ('b, 's) action" where
  "act_then m n = act_bind m (\<lambda>_. n)"

definition act_catch :: "('a, 's) action \<Rightarrow> (exn \<Rightarrow> ('a, 's) action) \<Rightarrow> ('a, 's) action" where
  "act_catch m h t = (case m t of (Inl e, t') \<Rightarrow> h e t' | r \<Rightarrow> r)"

text \<open>One statement: what it does to the tables, or the error that aborts the transaction.\<close>

definition act_query :: "('s \<Rightarrow> exn + ('a \<times> 's)) \<Rightarrow> ('a, 's) action" where
  "act_query q t =
     (case t of
        Tx_aborted \<Rightarrow> (Inl in_failed_transaction, Tx_aborted)
      | Tx_open s \<Rightarrow> (case q s of Inl e \<Rightarrow> (Inl e, Tx_aborted) | Inr (a, s') \<Rightarrow> (Inr a, Tx_open s')))"

definition act_select :: "('s \<Rightarrow> 'a) \<Rightarrow> ('a, 's) action" where
  "act_select q = act_query (\<lambda>s. Inr (q s, s))"

text \<open>The unit of work an action is.\<close>

definition as_work :: "('a, 's) action \<Rightarrow> 's \<Rightarrow> ('a, 's) work_end" where
  "as_work m s =
     (case m (Tx_open s) of
        (Inl e, _) \<Rightarrow> Throws e
      | (Inr a, Tx_open s') \<Rightarrow> Returns a s'
      | (Inr a, Tx_aborted) \<Rightarrow> Returns_aborted a)"

definition succeeds :: "('a, 's) action \<Rightarrow> 's \<Rightarrow> 'a \<Rightarrow> 's \<Rightarrow> bool" where
  "succeeds m s a s' \<longleftrightarrow> m (Tx_open s) = (Inr a, Tx_open s')"

text \<open>No action opens an aborted transaction again.\<close>

definition stays_aborted :: "('a, 's) action \<Rightarrow> bool" where
  "stays_aborted m \<longleftrightarrow> snd (m Tx_aborted) = Tx_aborted"

lemma stays_aborted_simps [simp]:
  "stays_aborted (act_return a)" "stays_aborted (act_throw e)"
  "stays_aborted (act_query q)" "stays_aborted (act_select f)"
  by (simp_all add: stays_aborted_def act_return_def act_throw_def act_query_def act_select_def)

lemma stays_aborted_bind [simp]:
  "stays_aborted m \<Longrightarrow> (\<And>a. stays_aborted (f a)) \<Longrightarrow> stays_aborted (act_bind m f)"
  by (auto simp: stays_aborted_def act_bind_def split: prod.splits sum.splits)

lemma stays_aborted_then [simp]: "stays_aborted m \<Longrightarrow> stays_aborted n \<Longrightarrow> stays_aborted (act_then m n)"
  by (simp add: act_then_def)

lemma stays_aborted_catch [simp]:
  "stays_aborted m \<Longrightarrow> (\<And>e. stays_aborted (h e)) \<Longrightarrow> stays_aborted (act_catch m h)"
  by (auto simp: stays_aborted_def act_catch_def split: prod.splits sum.splits)

lemma stays_aborted_if [simp]: "stays_aborted m \<Longrightarrow> stays_aborted n \<Longrightarrow> stays_aborted (if b then m else n)"
  by simp

lemma stays_aborted_option [simp]:
  "stays_aborted m \<Longrightarrow> (\<And>x. stays_aborted (f x)) \<Longrightarrow> stays_aborted (case z of None \<Rightarrow> m | Some x \<Rightarrow> f x)"
  by (simp split: option.split)

section \<open>When an action succeeds\<close>

lemma succeeds_return [run_simps]: "succeeds (act_return a) s b s' \<longleftrightarrow> b = a \<and> s' = s"
  by (auto simp: succeeds_def act_return_def)

lemma succeeds_throw [run_simps]: "\<not> succeeds (act_throw e) s b s'"
  by (simp add: succeeds_def act_throw_def)

lemma succeeds_query [run_simps]: "succeeds (act_query q) s a s' \<longleftrightarrow> q s = Inr (a, s')"
  by (auto simp: succeeds_def act_query_def split: sum.splits)

lemma succeeds_select [run_simps]: "succeeds (act_select f) s a s' \<longleftrightarrow> a = f s \<and> s' = s"
  by (auto simp: act_select_def succeeds_query)

lemma succeeds_bind:
  assumes "\<And>a. stays_aborted (f a)"
  shows "succeeds (act_bind m f) s b s'' \<longleftrightarrow> (\<exists>a s'. succeeds m s a s' \<and> succeeds (f a) s' b s'')"
proof -
  have "snd (f a Tx_aborted) = Tx_aborted" for a using assms by (simp add: stays_aborted_def)
  then have "f a Tx_aborted \<noteq> (Inr b, Tx_open s'')" for a by (metis snd_conv tx.distinct(1))
  then show ?thesis
    by (auto simp: succeeds_def act_bind_def split: prod.splits sum.splits) (metis tx.exhaust)+
qed

lemma succeeds_then:
  "stays_aborted n \<Longrightarrow> succeeds (act_then m n) s b s'' \<longleftrightarrow> (\<exists>a s'. succeeds m s a s' \<and> succeeds n s' b s'')"
  by (simp add: act_then_def succeeds_bind)

lemma succeeds_option [run_simps]:
  "succeeds (case x of None \<Rightarrow> act_throw e | Some r \<Rightarrow> g r) s b s' \<longleftrightarrow> (\<exists>r. x = Some r \<and> succeeds (g r) s b s')"
  by (auto simp: succeeds_throw split: option.split)

lemma succeeds_guard [run_simps]:
  "succeeds (if p then act_throw e else m) s b s' \<longleftrightarrow> \<not> p \<and> succeeds m s b s'"
  by (simp add: succeeds_throw)

lemma succeeds_catch:
  assumes "\<And>e. stays_aborted (h e)" and "\<And>e s'. m (Tx_open s) \<noteq> (Inl e, Tx_open s')"
  shows "succeeds (act_catch m h) s b s'' \<longleftrightarrow> succeeds m s b s''"
proof -
  have "snd (h e Tx_aborted) = Tx_aborted" for e using assms by (simp add: stays_aborted_def)
  then have "h e Tx_aborted \<noteq> (Inr b, Tx_open s'')" for e by (metis snd_conv tx.distinct(1))
  moreover have "t = Tx_aborted" if "m (Tx_open s) = (Inl e, t)" for e t
    using that assms(2) [of e] by (cases t) auto
  ultimately show ?thesis
    by (auto simp: succeeds_def act_catch_def split: prod.splits sum.splits)
qed

lemma succeeds_bind_select [seq_simps]:
  "succeeds (act_bind (act_select g) f) s b s'' \<longleftrightarrow> succeeds (f (g s)) s b s''"
  by (simp add: succeeds_def act_bind_def act_select_def act_query_def)

lemma succeeds_bind_return [seq_simps]: "succeeds (act_bind (act_return a) f) s b s'' \<longleftrightarrow> succeeds (f a) s b s''"
  by (simp add: succeeds_def act_bind_def act_return_def)

lemma succeeds_then_return [seq_simps]: "succeeds (act_then (act_return a) n) s b s'' \<longleftrightarrow> succeeds n s b s''"
  by (simp add: succeeds_def act_then_def act_bind_def act_return_def)

lemma succeeds_bind_if [seq_simps]:
  "succeeds (act_bind (if p then m else n) f) s b s'' \<longleftrightarrow>
    (if p then succeeds (act_bind m f) s b s'' else succeeds (act_bind n f) s b s'')"
  by simp

lemma act_query_error_aborts: "act_query q (Tx_open s) \<noteq> (Inl e, Tx_open s')"
  by (auto simp: act_query_def split: sum.splits prod.splits)

lemma as_work_Returns: "as_work m s = Returns a s' \<longleftrightarrow> succeeds m s a s'"
  by (auto simp: as_work_def succeeds_def split: prod.splits sum.splits tx.splits)

text \<open>Running an action on an open transaction step by step.\<close>

lemma act_open_simps:
  "act_bind m f t = (case m t of (Inl e, t') \<Rightarrow> (Inl e, t') | (Inr a, t') \<Rightarrow> f a t')"
  "act_then m n t = (case m t of (Inl e, t') \<Rightarrow> (Inl e, t') | (Inr a, t') \<Rightarrow> n t')"
  "act_return a t = (Inr a, t)" "act_throw e t = (Inl e, t)"
  "act_select g (Tx_open s) = (Inr (g s), Tx_open s)"
  "act_query q (Tx_open s) = (case q s of Inl e \<Rightarrow> (Inl e, Tx_aborted) | Inr (a, s') \<Rightarrow> (Inr a, Tx_open s'))"
  by (auto simp: act_bind_def act_then_def act_return_def act_throw_def act_select_def act_query_def)

text \<open>A run leaves the state as it was or commits what the action built.\<close>

lemma run_commits_or_nothing:
  "snd (runWithTenantContext c (\<lambda>c. as_work (m c)) s) = s \<or>
   (\<exists>a. succeeds (m c) s a (snd (runWithTenantContext c (\<lambda>c. as_work (m c)) s)))"
  by (auto simp: runWithTenantContext_def as_work_Returns [symmetric] split: work_end.splits)

section \<open>Acknowledged and committed\<close>

text \<open>
  An action that lets no error of a statement pass unseen: when it returns, the transaction is still
  open, so that its commit commits. One that swallows an error is not.
\<close>

definition honest :: "('a, 's) action \<Rightarrow> bool" where
  "honest m \<longleftrightarrow> (\<forall>s a. m (Tx_open s) \<noteq> (Inr a, Tx_aborted))"

lemma honest_simps [simp]: "honest (act_return a)" "honest (act_throw e)" "honest (act_query q)" "honest (act_select g)"
  by (auto simp: honest_def act_return_def act_throw_def act_query_def act_select_def split: sum.splits)

lemma honest_bind [simp]: "honest m \<Longrightarrow> (\<And>a. honest (f a)) \<Longrightarrow> honest (act_bind m f)"
  unfolding honest_def act_bind_def
  by (auto split: prod.splits sum.splits) (metis tx.exhaust)

lemma honest_then [simp]: "honest m \<Longrightarrow> honest n \<Longrightarrow> honest (act_then m n)"
  by (simp add: act_then_def)

lemma honest_if [simp]: "honest m \<Longrightarrow> honest n \<Longrightarrow> honest (if b then m else n)"
  by simp

lemma honest_option [simp]:
  "honest m \<Longrightarrow> (\<And>x. honest (f x)) \<Longrightarrow> honest (case z of None \<Rightarrow> m | Some x \<Rightarrow> f x)"
  by (simp split: option.split)

lemma honest_prod [simp]: "(\<And>x y. honest (f x y)) \<Longrightarrow> honest (case z of (x, y) \<Rightarrow> f x y)"
  by (simp split: prod.split)

lemma honest_catch [simp]: "honest m \<Longrightarrow> (\<And>e t a t'. h e t \<noteq> (Inr a, t')) \<Longrightarrow> honest (act_catch m h)"
  unfolding honest_def act_catch_def by (auto split: prod.splits sum.splits)

lemma honest_work: "honest m \<Longrightarrow> as_work m s \<noteq> Returns_aborted a"
  by (auto simp: honest_def as_work_def split: prod.splits sum.splits tx.splits)

text \<open>Hence a run that answered with a value has committed what the action built.\<close>

lemma honest_run:
  assumes "honest (m c)" and "runWithTenantContext c (\<lambda>c. as_work (m c)) s = (Inr a, s')"
  shows "succeeds (m c) s a s'"
  using assms(2) honest_work [OF assms(1), of s]
  by (auto simp: runWithTenantContext_def as_work_Returns [symmetric] split: work_end.splits)

end
