(* ===== verification/Inventory.thy ===== *)
theory Inventory
  imports JsNumber Json Outbox Transaction Http "HOL-Library.List_Lexorder" "HOL-Library.Char_ord"
begin

text \<open>
  The stock ledger: apps/api/src/inventory/inventory.service.ts over the tables of
  packages/db/src/schema/inventory and migrations 0014 and 0016. Movements are appended, never
  changed; the on-hand quantity of a product at a store is the sum of its movements. Every operation
  is a program of statements on one transaction (theory Transaction).

  Quantities are stored as \<open>numeric(19,4)\<close> (an \<^typ>\<open>int\<close> of ten-thousandths) and checked as
  JavaScript numbers (theory JsNumber). Timestamps of requests arrive parsed; identifiers drawn with
  \<open>newId\<close> or by the database come from the operation's \<open>id_source\<close>, in the order they are drawn.
\<close>

section \<open>Tables\<close>

datatype movement_type = Inbound | Outbound | Adjustment | Transfer_out | Transfer_in | Count_correction

fun movement_type_text :: "movement_type \<Rightarrow> string" where
  "movement_type_text Inbound = ''inbound''"
| "movement_type_text Outbound = ''outbound''"
| "movement_type_text Adjustment = ''adjustment''"
| "movement_type_text Transfer_out = ''transfer_out''"
| "movement_type_text Transfer_in = ''transfer_in''"
| "movement_type_text Count_correction = ''count_correction''"

record movement =
  mvId :: uuid
  mvTenant :: uuid
  mvStore :: uuid
  mvType :: movement_type
  mvQty :: money
  mvUnit :: string
  mvProduct :: "uuid option"
  mvReason :: "string option"
  mvOccurred :: timestamptz
  mvReceived :: timestamptz
  mvSource :: "string option"
  mvExternal :: "string option"
  mvSale :: "uuid option"
  mvSaleLine :: "uuid option"
  mvTerminal :: "uuid option"
  mvGroup :: "uuid option"
  mvCount :: "uuid option"
  mvCreatedBy :: uuid

record stock_count =
  ctId :: uuid
  ctTenant :: uuid
  ctStore :: uuid
  ctProduct :: "uuid option"
  ctCounted :: money
  ctDerived :: money
  ctUnit :: string
  ctAt :: timestamptz
  ctCreatedBy :: uuid

record audit_event =
  auId :: uuid
  auActor :: "uuid option"
  auTenant :: "uuid option"
  auAction :: string
  auTargetType :: "string option"
  auTarget :: "uuid option"
  auMetadata :: string

text \<open>
  A store is (id, tenant); of a captured sale the backfill reads (id, tenant, store, processed) and
  of its lines the quantity in millionths (\<open>numeric(19,6)\<close>), the unit and the product.
\<close>

record captured_sale =
  csId :: uuid
  csTenant :: uuid
  csStore :: uuid
  csProcessed :: bool

record sale_line =
  slId :: uuid
  slTenant :: uuid
  slStore :: uuid
  slSale :: uuid
  slQuantity :: int
  slUnit :: string
  slProduct :: "uuid option"

record inv_db =
  movements :: "movement list"
  counts :: "stock_count list"
  audits :: "audit_event list"
  outbox :: "outbox_event list"
  storeRows :: "(uuid \<times> uuid) list"
  products :: "uuid list"
  users :: "uuid list"
  capturedSales :: "captured_sale list"
  saleLines :: "sale_line list"

section \<open>Statements\<close>

text \<open>
  \<open>INSERT INTO stock_movements\<close>: the policy and the CHECK constraints; with \<open>ON CONFLICT DO NOTHING\<close>
  a row of the same provenance pair makes it insert nothing; then the keys, the exclusion constraint
  (one unit per store and product, over the rows of every tenant) and the foreign keys.
\<close>

abbreviation "exclusion_violation \<equiv> Pg_error ''23P01''"

definition provenance_taken :: "movement \<Rightarrow> inv_db \<Rightarrow> bool" where
  "provenance_taken m s \<longleftrightarrow> mvSource m \<noteq> None \<and> mvExternal m \<noteq> None \<and>
     (mvTenant m, mvSource m, mvExternal m) \<in> (\<lambda>x. (mvTenant x, mvSource x, mvExternal x)) ` set (movements s)"

definition unit_excluded :: "movement \<Rightarrow> inv_db \<Rightarrow> bool" where
  "unit_excluded m s \<longleftrightarrow> mvProduct m \<noteq> None \<and>
     list_ex (\<lambda>x. mvStore x = mvStore m \<and> mvProduct x = mvProduct m \<and> mvUnit x \<noteq> mvUnit m) (movements s)"

definition movement_row_checks :: "tenant_context \<Rightarrow> movement \<Rightarrow> exn option" where
  "movement_row_checks c m =
     sql_check (rls_tenant c (mvTenant m)) (Pg_error ''42501'')
    (sql_check ((mvSource m = None) = (mvExternal m = None)) check_violation
    (sql_check (case mvReason m of None \<Rightarrow> True | Some r \<Rightarrow> length r \<le> 500) check_violation
    (sql_check ((mvType m = Count_correction) = (mvCount m \<noteq> None)) check_violation None)))"

definition movement_key_checks :: "movement \<Rightarrow> inv_db \<Rightarrow> exn option" where
  "movement_key_checks m s =
     sql_check (mvId m \<notin> mvId ` set (movements s)) unique_violation
    (sql_check (\<not> provenance_taken m s) unique_violation
    (sql_check (\<not> unit_excluded m s) exclusion_violation
    (sql_check (mvStore m \<in> fst ` set (storeRows s)) fk_violation
    (sql_check (case mvProduct m of None \<Rightarrow> True | Some p \<Rightarrow> p \<in> set (products s)) fk_violation
    (sql_check (case mvCount m of None \<Rightarrow> True
                | Some k \<Rightarrow> (k, mvTenant m, mvStore m) \<in> (\<lambda>x. (ctId x, ctTenant x, ctStore x)) ` set (counts s))
       fk_violation None)))))"

definition insert_movement :: "tenant_context \<Rightarrow> bool \<Rightarrow> movement \<Rightarrow> inv_db \<Rightarrow> exn + (movement option \<times> inv_db)" where
  "insert_movement c on_conflict m s =
     (case movement_row_checks c m of
        Some e \<Rightarrow> Inl e
      | None \<Rightarrow>
          if on_conflict \<and> provenance_taken m s then Inr (None, s)
          else case movement_key_checks m s of
                 Some e \<Rightarrow> Inl e
               | None \<Rightarrow> Inr (Some m, s\<lparr>movements := movements s @ [m]\<rparr>))"

definition insert_count :: "tenant_context \<Rightarrow> stock_count \<Rightarrow> inv_db \<Rightarrow> exn + (unit \<times> inv_db)" where
  "insert_count c k s =
     (case sql_check (rls_tenant c (ctTenant k)) (Pg_error ''42501'')
          (sql_check (ctId k \<notin> ctId ` set (counts s)) unique_violation
          (sql_check (ctStore k \<in> fst ` set (storeRows s)) fk_violation
          (sql_check (case ctProduct k of None \<Rightarrow> True | Some p \<Rightarrow> p \<in> set (products s)) fk_violation None))) of
        Some e \<Rightarrow> Inl e
      | None \<Rightarrow> Inr ((), s\<lparr>counts := counts s @ [k]\<rparr>))"

definition insert_audit :: "tenant_context \<Rightarrow> audit_event \<Rightarrow> inv_db \<Rightarrow> exn + (unit \<times> inv_db)" where
  "insert_audit c a s =
     (case sql_check ((case auTenant a of None \<Rightarrow> False | Some t \<Rightarrow> rls_tenant c t) \<or> ctxPlatformAdmin c) (Pg_error ''42501'')
          (sql_check (auId a \<notin> auId ` set (audits s)) unique_violation
          (sql_check (case auActor a of None \<Rightarrow> True | Some u \<Rightarrow> u \<in> set (users s)) fk_violation None)) of
        Some e \<Rightarrow> Inl e
      | None \<Rightarrow> Inr ((), s\<lparr>audits := audits s @ [a]\<rparr>))"

text \<open>The rows of a store and product a transaction sees, and the two queries over them.\<close>

definition visible_movements :: "tenant_context \<Rightarrow> uuid \<Rightarrow> uuid \<Rightarrow> inv_db \<Rightarrow> movement list" where
  "visible_movements c st p s =
     filter (\<lambda>m. rls_tenant c (mvTenant m) \<and> mvStore m = st \<and> mvProduct m = Some p) (movements s)"

definition on_hand :: "tenant_context \<Rightarrow> uuid \<Rightarrow> uuid \<Rightarrow> inv_db \<Rightarrow> money" where
  "on_hand c st p s = sum_list (map mvQty (visible_movements c st p s))"

text \<open>\<open>SELECT COALESCE(SUM(quantity), 0)::numeric(19,4)\<close>\<close>

definition select_on_hand :: "tenant_context \<Rightarrow> uuid \<Rightarrow> uuid \<Rightarrow> inv_db \<Rightarrow> exn + (money \<times> inv_db)" where
  "select_on_hand c st p s =
     (if numeric_19_4_fits (on_hand c st p s) then Inr (on_hand c st p s, s) else Inl numeric_overflow)"

text \<open>\<open>SELECT stocking_unit ... ORDER BY received_at, id LIMIT 1\<close>\<close>

definition established_unit :: "tenant_context \<Rightarrow> uuid \<Rightarrow> uuid \<Rightarrow> inv_db \<Rightarrow> string option" where
  "established_unit c st p s =
     (case sort_key (\<lambda>m. (mvReceived m, mvId m)) (visible_movements c st p s) of
        [] \<Rightarrow> None | m # _ \<Rightarrow> Some (mvUnit m))"

section \<open>Shared steps of the operations\<close>

abbreviation "bad_request \<equiv> Js_error ''BadRequestException''"
abbreviation "not_found_exception \<equiv> Js_error ''NotFoundException''"
abbreviation "cross_unit_error \<equiv> Js_error ''CrossUnitError''"

text \<open>
  23P01 identifies the constraint: migration 0016 adds the only exclusion constraint of the table.
\<close>

definition isUnitExclusionViolation :: "exn \<Rightarrow> bool" where
  "isUnitExclusionViolation e \<longleftrightarrow> e = exclusion_violation"

definition assertUnitMatchesEstablished :: "tenant_context \<Rightarrow> uuid \<Rightarrow> uuid \<Rightarrow> string \<Rightarrow> (unit, inv_db) action" where
  "assertUnitMatchesEstablished c st p unit_name =
     act_bind (act_select (established_unit c st p))
       (\<lambda>established. case established of
          None \<Rightarrow> act_return ()
        | Some u \<Rightarrow> if u \<noteq> unit_name then act_throw cross_unit_error else act_return ())"

definition assert_unit_of :: "tenant_context \<Rightarrow> uuid \<Rightarrow> uuid option \<Rightarrow> string \<Rightarrow> (unit, inv_db) action" where
  "assert_unit_of c st product unit_name =
     (case product of None \<Rightarrow> act_return () | Some p \<Rightarrow> assertUnitMatchesEstablished c st p unit_name)"

text \<open>
  The insert with the quantity text cast to the column, and the translation of an exclusion
  violation: it reads the established unit on the same client and throws \<open>CrossUnitError\<close>.
\<close>

definition insertMovementRow ::
    "tenant_context \<Rightarrow> bool \<Rightarrow> string \<Rightarrow> (money \<Rightarrow> movement) \<Rightarrow> (movement option, inv_db) action" where
  "insertMovementRow c on_conflict qty mk =
     act_catch
       (act_query (\<lambda>s. case pg_numeric_in qty of Inl e \<Rightarrow> Inl e | Inr v \<Rightarrow> insert_movement c on_conflict (mk v) s))
       (\<lambda>e. case mvProduct (mk 0) of
              Some p \<Rightarrow>
                if isUnitExclusionViolation e
                then act_then (act_select (established_unit c (mvStore (mk 0)) p)) (act_throw cross_unit_error)
                else act_throw e
            | None \<Rightarrow> act_throw e)"

definition flagIfNegativeOnHand :: "tenant_context \<Rightarrow> uuid \<Rightarrow> uuid option \<Rightarrow> (bool, inv_db) action" where
  "flagIfNegativeOnHand c st product =
     (case product of
        None \<Rightarrow> act_return False
      | Some p \<Rightarrow>
          act_catch
            (act_bind (act_query (select_on_hand c st p))
               (\<lambda>v. act_return (js_less_0 (js_Number (pg_numeric_text v)))))
            (\<lambda>_. act_return False))"

record movement_created =
  mcTenant :: uuid
  mcStore :: uuid
  mcIds :: "uuid list"
  mcType :: string
  mcProduct :: "uuid option"
  mcCorrelation :: "string option"
  mcProvenance :: "(string \<times> json) list"

definition movement_payload :: "movement_created \<Rightarrow> json" where
  "movement_payload inp =
     J_object ([(''movementIds'', J_array (map J_uuid (mcIds inp))),
                (''movementType'', J_string (mcType inp)),
                (''tenantProductRef'', J_option J_uuid (mcProduct inp))] @ mcProvenance inp)"

definition emitMovementCreated ::
    "tenant_context \<Rightarrow> uuid \<Rightarrow> timestamptz \<Rightarrow> movement_created \<Rightarrow> (uuid, inv_db) action" where
  "emitMovementCreated c i now inp =
     act_query (\<lambda>s.
       case emit i now
              \<lparr>emType = ''inventory.movement.created'', emTenant = mcTenant inp, emStore = Some (mcStore inp),
               emPayload = json_text (movement_payload inp),
               emCorrelation = (case mcCorrelation inp of None \<Rightarrow> None | Some x \<Rightarrow> parse_uuid x),
               emOccurred = None\<rparr> c (outbox s) of
         Inl e \<Rightarrow> Inl e
       | Inr (j, rows) \<Rightarrow> Inr (j, s\<lparr>outbox := rows\<rparr>))"

text \<open>The audit row of an operation, on the transaction of its movements.\<close>

definition audit_row :: "uuid \<Rightarrow> uuid \<Rightarrow> uuid \<Rightarrow> string \<Rightarrow> string \<Rightarrow> uuid \<Rightarrow> json \<Rightarrow> audit_event" where
  "audit_row i user t action target_type target meta =
     \<lparr>auId = i, auActor = Some user, auTenant = Some t, auAction = action, auTargetType = Some target_type,
      auTarget = Some target, auMetadata = json_text meta\<rparr>"

text \<open>The checks on a quantity: finite, and its value at the scale of the column.\<close>

definition quantity_at_scale :: "string \<Rightarrow> js_number option" where
  "quantity_at_scale q =
     (let raw = js_Number q in if js_isFinite raw then Some (at_scale_4 raw) else None)"

definition trimmed_reason :: "string option \<Rightarrow> string option" where
  "trimmed_reason r = (case r of None \<Rightarrow> None | Some x \<Rightarrow> if js_trim x = [] then None else Some (js_trim x))"

text \<open>What \<open>toFixed(4)\<close> sends to a \<open>numeric(19,4)\<close> parameter; an infinity is rejected by the cast.\<close>

fun fixed4_text :: "js_number \<Rightarrow> string" where
  "fixed4_text (Finite x) = js_toFixed4 x"
| "fixed4_text (Infinite b) = (if b then ''-Infinity'' else ''Infinity'')"
| "fixed4_text NaN = ''NaN''"

end
