(* ===== verification/InventoryService.thy ===== *)
theory InventoryService
  imports Inventory
begin

text \<open>
  The operations of \<open>InventoryService\<close> (apps/api/src/inventory/inventory.service.ts): the two reads,
  the manual movement, the transfer, the count and the two backfill entries. Each write is a check
  of its input, then one transaction; what it returns carries whether it raised the negative-balance
  signal.
\<close>

section \<open>Wire projections\<close>

record movement_body =
  mbId :: uuid
  mbStore :: uuid
  mbType :: string
  mbQuantity :: string
  mbUnit :: string
  mbProduct :: "uuid option"
  mbReason :: "string option"
  mbOccurred :: timestamptz
  mbReceived :: timestamptz
  mbSale :: "uuid option"
  mbSaleLine :: "uuid option"
  mbTerminal :: "uuid option"
  mbGroup :: "uuid option"
  mbCount :: "uuid option"
  mbCreatedBy :: uuid

definition toMovementBody :: "movement \<Rightarrow> movement_body" where
  "toMovementBody r =
     \<lparr>mbId = mvId r, mbStore = mvStore r, mbType = movement_type_text (mvType r),
      mbQuantity = pg_numeric_text (mvQty r), mbUnit = mvUnit r, mbProduct = mvProduct r,
      mbReason = mvReason r, mbOccurred = mvOccurred r, mbReceived = mvReceived r, mbSale = mvSale r,
      mbSaleLine = mvSaleLine r, mbTerminal = mvTerminal r, mbGroup = mvGroup r, mbCount = mvCount r,
      mbCreatedBy = mvCreatedBy r\<rparr>"

record on_hand_body =
  ohStore :: uuid
  ohProduct :: uuid
  ohQuantity :: string
  ohUnit :: "string option"
  ohNegative :: bool

section \<open>Reads\<close>

text \<open>\<open>MIN(stocking_unit)\<close> in the C collation; one unit occurs by the exclusion constraint.\<close>

definition min_unit :: "string list \<Rightarrow> string option" where
  "min_unit us = (case us of [] \<Rightarrow> None | u # us' \<Rightarrow> Some (fold min us' u))"

definition getOnHand :: "uuid \<Rightarrow> uuid \<Rightarrow> uuid \<Rightarrow> inv_db \<Rightarrow> exn + on_hand_body" where
  "getOnHand t st p s =
     (case select_on_hand (tenant_ctx t) st p s of
        Inl e \<Rightarrow> Inl e
      | Inr (v, _) \<Rightarrow>
          Inr \<lparr>ohStore = st, ohProduct = p, ohQuantity = pg_numeric_text v,
               ohUnit = min_unit (map mvUnit (visible_movements (tenant_ctx t) st p s)),
               ohNegative = js_less_0 (js_Number (pg_numeric_text v))\<rparr>)"

definition DEFAULT_LIMIT :: int where
  "DEFAULT_LIMIT = 50"

definition MAX_LIMIT :: int where
  "MAX_LIMIT = 200"

definition listStockMovements :: "uuid \<Rightarrow> uuid \<Rightarrow> uuid option \<Rightarrow> int option \<Rightarrow> inv_db \<Rightarrow> movement_body list" where
  "listStockMovements t st product limit s =
     (let n = min (max (case limit of None \<Rightarrow> DEFAULT_LIMIT | Some k \<Rightarrow> k) 1) MAX_LIMIT
      in map toMovementBody (take (nat n) (sort_key (\<lambda>m. (mvOccurred m, mvId m))
           (filter (\<lambda>m. rls_tenant (tenant_ctx t) (mvTenant m) \<and> mvStore m = st \<and> mvProduct m = product)
             (movements s)))))"

section \<open>The manual movement\<close>

record create_movement_input =
  cmTenant :: uuid
  cmStore :: uuid
  cmUser :: uuid
  cmType :: movement_type
  cmQuantity :: string
  cmUnit :: string
  cmProduct :: "uuid option"
  cmReason :: "string option"
  cmOccurred :: "timestamptz option"
  cmSale :: "uuid option"
  cmSaleLine :: "uuid option"
  cmTerminal :: "uuid option"

definition MANUAL_MOVEMENT_TYPES :: "movement_type list" where
  "MANUAL_MOVEMENT_TYPES = [Inbound, Outbound, Adjustment]"

definition movement_input_error :: "create_movement_input \<Rightarrow> exn option" where
  "movement_input_error inp =
     (if cmType inp \<notin> set MANUAL_MOVEMENT_TYPES then Some bad_request
      else case quantity_at_scale (cmQuantity inp) of
        None \<Rightarrow> Some bad_request
      | Some qty \<Rightarrow>
          if qty = Finite 0 then Some bad_request
          else if cmType inp = Inbound \<and> js_less_0 qty then Some bad_request
          else if cmType inp = Outbound \<and> js_greater_0 qty then Some bad_request
          else if cmType inp = Adjustment \<and> trimmed_reason (cmReason inp) = None then Some bad_request
          else if js_trim (cmUnit inp) = [] then Some bad_request
          else None)"

definition manual_row :: "create_movement_input \<Rightarrow> id_source \<Rightarrow> timestamptz \<Rightarrow> money \<Rightarrow> movement" where
  "manual_row inp ids now v =
     \<lparr>mvId = ids 0, mvTenant = cmTenant inp, mvStore = cmStore inp, mvType = cmType inp, mvQty = v,
      mvUnit = js_trim (cmUnit inp), mvProduct = cmProduct inp, mvReason = trimmed_reason (cmReason inp),
      mvOccurred = (case cmOccurred inp of None \<Rightarrow> now | Some x \<Rightarrow> x), mvReceived = now,
      mvSource = None, mvExternal = None, mvSale = cmSale inp, mvSaleLine = cmSaleLine inp,
      mvTerminal = cmTerminal inp, mvGroup = None, mvCount = None, mvCreatedBy = cmUser inp\<rparr>"

definition createStockMovement_work ::
    "create_movement_input \<Rightarrow> id_source \<Rightarrow> timestamptz \<Rightarrow> tenant_context \<Rightarrow> (movement_body \<times> bool, inv_db) action" where
  "createStockMovement_work inp ids now c =
     act_then (assert_unit_of c (cmStore inp) (cmProduct inp) (js_trim (cmUnit inp)))
    (act_bind (insertMovementRow c False (cmQuantity inp) (manual_row inp ids now)) (\<lambda>inserted.
       case inserted of
         None \<Rightarrow> act_throw (Js_error ''Error'')
       | Some row \<Rightarrow>
           act_then (act_query (insert_audit c (audit_row (ids 1) (cmUser inp) (cmTenant inp)
                       ''inventory.movement.create'' ''stock_movement'' (mvId row) (J_object []))))
          (act_then (emitMovementCreated c (ids 2) now
                       \<lparr>mcTenant = cmTenant inp, mcStore = cmStore inp, mcIds = [mvId row],
                        mcType = movement_type_text (mvType row), mcProduct = cmProduct inp,
                        mcCorrelation = None, mcProvenance = []\<rparr>)
          (act_bind (if cmType inp = Outbound then flagIfNegativeOnHand c (cmStore inp) (cmProduct inp)
                     else act_return False) (\<lambda>flagged.
             act_return (toMovementBody row, flagged))))))"

text \<open>
  A write of the service: reject the input before any connection, else run the transaction; the
  signal counts whatever the commit does.
\<close>

record inv_svc =
  invDb :: inv_db
  negativeSignals :: nat

definition run_write ::
    "uuid \<Rightarrow> exn option \<Rightarrow> (tenant_context \<Rightarrow> ('a \<times> bool, inv_db) action) \<Rightarrow> inv_svc \<Rightarrow> (exn + 'a) \<times> inv_svc" where
  "run_write t rejected work s =
     (case rejected of
        Some e \<Rightarrow> (Inl e, s)
      | None \<Rightarrow>
          (case runWithTenantContext (tenant_ctx t) (\<lambda>c. as_work (work c)) (invDb s) of
             (Inl e, db) \<Rightarrow> (Inl e, s\<lparr>invDb := db\<rparr>)
           | (Inr (a, flagged), db) \<Rightarrow>
               (Inr a, s\<lparr>invDb := db, negativeSignals := negativeSignals s + (if flagged then 1 else 0)\<rparr>)))"

definition createStockMovement ::
    "create_movement_input \<Rightarrow> id_source \<Rightarrow> timestamptz \<Rightarrow> inv_svc \<Rightarrow> (exn + movement_body) \<times> inv_svc" where
  "createStockMovement inp ids now =
     run_write (cmTenant inp) (movement_input_error inp) (createStockMovement_work inp ids now)"

section \<open>The transfer\<close>

record create_transfer_input =
  xfTenant :: uuid
  xfUser :: uuid
  xfSource :: uuid
  xfDestination :: uuid
  xfProduct :: uuid
  xfQuantity :: string
  xfUnit :: string
  xfReason :: "string option"

record transfer_body =
  tbGroup :: uuid
  tbOutbound :: movement_body
  tbInbound :: movement_body

definition transfer_quantity :: "create_transfer_input \<Rightarrow> js_number" where
  "transfer_quantity inp = (case quantity_at_scale (xfQuantity inp) of Some q \<Rightarrow> q | None \<Rightarrow> NaN)"

text \<open>\<open>qty <= 0\<close> is also false of NaN, but the quantity is finite before the scaling.\<close>

definition transfer_input_error :: "create_transfer_input \<Rightarrow> exn option" where
  "transfer_input_error inp =
     (if xfSource inp = xfDestination inp then Some bad_request
      else case quantity_at_scale (xfQuantity inp) of
        None \<Rightarrow> Some bad_request
      | Some qty \<Rightarrow>
          if qty = Finite 0 \<or> js_less_0 qty then Some bad_request
          else if js_trim (xfUnit inp) = [] then Some bad_request
          else None)"

definition transfer_row ::
    "create_transfer_input \<Rightarrow> id_source \<Rightarrow> timestamptz \<Rightarrow> uuid \<Rightarrow> uuid \<Rightarrow> movement_type \<Rightarrow> money \<Rightarrow> movement" where
  "transfer_row inp ids now i st ty v =
     \<lparr>mvId = i, mvTenant = xfTenant inp, mvStore = st, mvType = ty, mvQty = v,
      mvUnit = js_trim (xfUnit inp), mvProduct = Some (xfProduct inp), mvReason = trimmed_reason (xfReason inp),
      mvOccurred = now, mvReceived = now, mvSource = None, mvExternal = None, mvSale = None,
      mvSaleLine = None, mvTerminal = None, mvGroup = Some (ids 0), mvCount = None,
      mvCreatedBy = xfUser inp\<rparr>"

text \<open>\<open>transferGroupId\<close>, \<open>outId\<close>, \<open>inId\<close>, \<open>auditId\<close>, then the id of the event.\<close>

definition createStockTransfer_work ::
    "create_transfer_input \<Rightarrow> id_source \<Rightarrow> timestamptz \<Rightarrow> tenant_context \<Rightarrow> (transfer_body \<times> bool, inv_db) action" where
  "createStockTransfer_work inp ids now c =
     act_bind (act_select (\<lambda>s. list_ex (\<lambda>(i, t). i = xfDestination inp \<and> rls_tenant_or_admin c t) (storeRows s)))
       (\<lambda>found. if \<not> found then act_throw not_found_exception else
     act_then (assertUnitMatchesEstablished c (xfSource inp) (xfProduct inp) (js_trim (xfUnit inp)))
    (act_then (assertUnitMatchesEstablished c (xfDestination inp) (xfProduct inp) (js_trim (xfUnit inp)))
    (act_bind (insertMovementRow c False (''-'' @ fixed4_text (transfer_quantity inp))
                 (transfer_row inp ids now (ids 1) (xfSource inp) Transfer_out)) (\<lambda>outRow.
     act_bind (insertMovementRow c False (fixed4_text (transfer_quantity inp))
                 (transfer_row inp ids now (ids 2) (xfDestination inp) Transfer_in)) (\<lambda>inRow.
       case (outRow, inRow) of
         (Some r, Some q) \<Rightarrow>
           act_then (act_query (insert_audit c (audit_row (ids 3) (xfUser inp) (xfTenant inp)
                       ''inventory.transfer.create'' ''stock_transfer'' (ids 0)
                       (J_object [(''sourceStoreId'', J_uuid (xfSource inp)),
                                  (''destinationStoreId'', J_uuid (xfDestination inp))]))))
          (act_then (emitMovementCreated c (ids 4) now
                       \<lparr>mcTenant = xfTenant inp, mcStore = xfSource inp, mcIds = [mvId r, mvId q],
                        mcType = ''transfer'', mcProduct = Some (xfProduct inp), mcCorrelation = None,
                        mcProvenance = [(''transferGroupId'', J_uuid (ids 0)),
                                        (''sourceStoreId'', J_uuid (xfSource inp)),
                                        (''destinationStoreId'', J_uuid (xfDestination inp))]\<rparr>)
          (act_bind (flagIfNegativeOnHand c (xfSource inp) (Some (xfProduct inp))) (\<lambda>flagged.
             act_return (\<lparr>tbGroup = ids 0, tbOutbound = toMovementBody r, tbInbound = toMovementBody q\<rparr>, flagged))))
       | _ \<Rightarrow> act_throw (Js_error ''Error''))))))"

definition createStockTransfer ::
    "create_transfer_input \<Rightarrow> id_source \<Rightarrow> timestamptz \<Rightarrow> inv_svc \<Rightarrow> (exn + transfer_body) \<times> inv_svc" where
  "createStockTransfer inp ids now =
     run_write (xfTenant inp) (transfer_input_error inp) (createStockTransfer_work inp ids now)"

section \<open>The count\<close>

record record_count_input =
  rkTenant :: uuid
  rkStore :: uuid
  rkUser :: uuid
  rkProduct :: uuid
  rkCounted :: string
  rkUnit :: string
  rkAt :: "timestamptz option"

record count_body =
  kbCount :: uuid
  kbCounted :: string
  kbVariance :: string
  kbCorrection :: "movement_body option"

definition counted_number :: "record_count_input \<Rightarrow> js_number" where
  "counted_number inp = (case quantity_at_scale (rkCounted inp) of Some q \<Rightarrow> q | None \<Rightarrow> NaN)"

definition count_input_error :: "record_count_input \<Rightarrow> exn option" where
  "count_input_error inp =
     (case quantity_at_scale (rkCounted inp) of
        None \<Rightarrow> Some bad_request
      | Some counted \<Rightarrow>
          if js_less_0 counted then Some bad_request
          else if js_trim (rkUnit inp) = [] then Some bad_request
          else None)"

text \<open>
  The variance: the counted number less \<open>Number\<close> of the on-hand text, at the scale of the column.
\<close>

definition count_variance :: "record_count_input \<Rightarrow> money \<Rightarrow> js_number" where
  "count_variance inp derived =
     at_scale_4 (js_minus (counted_number inp) (js_Number (pg_numeric_text derived)))"

definition count_row ::
    "record_count_input \<Rightarrow> id_source \<Rightarrow> timestamptz \<Rightarrow> money \<Rightarrow> money \<Rightarrow> stock_count" where
  "count_row inp ids now counted derived =
     \<lparr>ctId = ids 0, ctTenant = rkTenant inp, ctStore = rkStore inp, ctProduct = Some (rkProduct inp),
      ctCounted = counted, ctDerived = derived, ctUnit = js_trim (rkUnit inp),
      ctAt = (case rkAt inp of None \<Rightarrow> now | Some x \<Rightarrow> x), ctCreatedBy = rkUser inp\<rparr>"

definition correction_row :: "record_count_input \<Rightarrow> id_source \<Rightarrow> timestamptz \<Rightarrow> money \<Rightarrow> movement" where
  "correction_row inp ids now v =
     \<lparr>mvId = ids 2, mvTenant = rkTenant inp, mvStore = rkStore inp, mvType = Count_correction, mvQty = v,
      mvUnit = js_trim (rkUnit inp), mvProduct = Some (rkProduct inp), mvReason = Some ''count variance'',
      mvOccurred = now, mvReceived = now, mvSource = None, mvExternal = None, mvSale = None,
      mvSaleLine = None, mvTerminal = None, mvGroup = None, mvCount = Some (ids 0),
      mvCreatedBy = rkUser inp\<rparr>"

definition recordStockCount_work ::
    "record_count_input \<Rightarrow> id_source \<Rightarrow> timestamptz \<Rightarrow> tenant_context \<Rightarrow> (count_body \<times> bool, inv_db) action" where
  "recordStockCount_work inp ids now c =
     act_then (assertUnitMatchesEstablished c (rkStore inp) (rkProduct inp) (js_trim (rkUnit inp)))
    (act_bind (act_query (select_on_hand c (rkStore inp) (rkProduct inp))) (\<lambda>derived.
       let variance = count_variance inp derived; varianceStr = fixed4_text variance
       in act_then (act_query (\<lambda>s.
              case (pg_numeric_in (fixed4_text (counted_number inp)),
                    pg_numeric_in (fixed4_text (js_Number (pg_numeric_text derived)))) of
                (Inr k, Inr d) \<Rightarrow> insert_count c (count_row inp ids now k d) s
              | (Inl e, _) \<Rightarrow> Inl e
              | (_, Inl e) \<Rightarrow> Inl e))
         (act_bind
            (if variance \<noteq> Finite 0 then
               act_bind (insertMovementRow c False varianceStr (correction_row inp ids now)) (\<lambda>inserted.
                 case inserted of None \<Rightarrow> act_throw (Js_error ''Error'') | Some row \<Rightarrow> act_return (Some (toMovementBody row)))
             else act_return None) (\<lambda>correction.
          act_then (act_query (insert_audit c (audit_row (ids 1) (rkUser inp) (rkTenant inp)
                      ''inventory.count.record'' ''stock_count'' (ids 0)
                      (J_object [(''variance'', J_string varianceStr), (''hasCorrection'', J_bool (variance \<noteq> Finite 0))]))))
         (act_then
            (case correction of
               None \<Rightarrow> act_return ()
             | Some m \<Rightarrow>
                 act_then (emitMovementCreated c (ids 3) now
                   \<lparr>mcTenant = rkTenant inp, mcStore = rkStore inp, mcIds = [mbId m], mcType = mbType m,
                    mcProduct = Some (rkProduct inp), mcCorrelation = None,
                    mcProvenance = [(''stockCountId'', J_uuid (ids 0))]\<rparr>) (act_return ()))
         (act_return
            (\<lparr>kbCount = ids 0, kbCounted = fixed4_text (counted_number inp), kbVariance = varianceStr,
              kbCorrection = correction\<rparr>, False)))))))"

definition recordStockCount ::
    "record_count_input \<Rightarrow> id_source \<Rightarrow> timestamptz \<Rightarrow> inv_svc \<Rightarrow> (exn + count_body) \<times> inv_svc" where
  "recordStockCount inp ids now =
     run_write (rkTenant inp) (count_input_error inp) (recordStockCount_work inp ids now)"

section \<open>The backfill entries\<close>

text \<open>
  \<open>backfillSaleLinkedOutbound\<close> and \<open>backfillRestockInbound\<close> are the same program with the sign
  turned and other provenance in the metadata; \<open>bfType\<close> is the type the caller passes and the first
  argument the one the entry demands. The quantity is a plain decimal text, as its type documents.
\<close>

record backfill_input =
  bfTenant :: uuid
  bfStore :: uuid
  bfUser :: uuid
  bfSource :: string
  bfExternal :: string
  bfType :: movement_type
  bfQuantity :: string
  bfUnit :: string
  bfProduct :: "uuid option"
  bfReason :: "string option"
  bfOccurred :: "timestamptz option"
  bfSale :: "uuid option"
  bfSaleLine :: "uuid option"
  bfTerminal :: "uuid option"
  bfCorrelation :: "string option"

definition backfill_input_error :: "movement_type \<Rightarrow> backfill_input \<Rightarrow> exn option" where
  "backfill_input_error ty inp =
     (if bfType inp \<noteq> ty then Some bad_request
      else case quantity_at_scale (bfQuantity inp) of
        None \<Rightarrow> Some bad_request
      | Some qty \<Rightarrow>
          if qty = Finite 0 then Some bad_request
          else if (if ty = Outbound then js_greater_0 qty else js_less_0 qty) then Some bad_request
          else if js_trim (bfSource inp) = [] \<or> js_trim (bfExternal inp) = [] then Some bad_request
          else if js_trim (bfUnit inp) = [] then Some bad_request
          else None)"

definition backfill_row :: "movement_type \<Rightarrow> backfill_input \<Rightarrow> id_source \<Rightarrow> timestamptz \<Rightarrow> money \<Rightarrow> movement" where
  "backfill_row ty inp ids now v =
     \<lparr>mvId = ids 0, mvTenant = bfTenant inp, mvStore = bfStore inp, mvType = ty, mvQty = v,
      mvUnit = js_trim (bfUnit inp), mvProduct = bfProduct inp, mvReason = trimmed_reason (bfReason inp),
      mvOccurred = (case bfOccurred inp of None \<Rightarrow> now | Some x \<Rightarrow> x), mvReceived = now,
      mvSource = Some (js_trim (bfSource inp)), mvExternal = Some (js_trim (bfExternal inp)),
      mvSale = bfSale inp, mvSaleLine = bfSaleLine inp, mvTerminal = bfTerminal inp, mvGroup = None,
      mvCount = None, mvCreatedBy = bfUser inp\<rparr>"

definition find_provenance :: "tenant_context \<Rightarrow> uuid \<Rightarrow> string \<Rightarrow> string \<Rightarrow> inv_db \<Rightarrow> movement option" where
  "find_provenance c t src ext s =
     find (\<lambda>m. rls_tenant c (mvTenant m) \<and> mvTenant m = t \<and> mvSource m = Some src \<and> mvExternal m = Some ext)
       (movements s)"

definition backfill_work ::
    "movement_type \<Rightarrow> backfill_input \<Rightarrow> id_source \<Rightarrow> timestamptz \<Rightarrow> tenant_context \<Rightarrow> (movement_body \<times> bool, inv_db) action" where
  "backfill_work ty inp ids now c =
     (let src = js_trim (bfSource inp); ext = js_trim (bfExternal inp);
          pair = [(''sourceSystem'', J_string src), (''externalId'', J_string ext)]
      in act_then (assert_unit_of c (bfStore inp) (bfProduct inp) (js_trim (bfUnit inp)))
        (act_bind (insertMovementRow c True (bfQuantity inp) (backfill_row ty inp ids now)) (\<lambda>inserted.
           case inserted of
             None \<Rightarrow>
               act_bind (act_select (find_provenance c (bfTenant inp) src ext)) (\<lambda>existing.
                 case existing of
                   None \<Rightarrow> act_throw (Js_error ''Error'')
                 | Some row \<Rightarrow> act_return (toMovementBody row, False))
           | Some row \<Rightarrow>
               act_then (act_query (insert_audit c (audit_row (ids 1) (bfUser inp) (bfTenant inp)
                           ''inventory.movement.backfill'' ''stock_movement'' (mvId row)
                           (J_object (pair
                             @ (if ty = Outbound then [] else [(''terminalEventRef'', J_option J_uuid (bfTerminal inp))])
                             @ [(''correlationId'', J_option J_string (bfCorrelation inp))])))))
              (act_then (emitMovementCreated c (ids 2) now
                           \<lparr>mcTenant = bfTenant inp, mcStore = bfStore inp, mcIds = [mvId row],
                            mcType = movement_type_text (mvType row), mcProduct = bfProduct inp,
                            mcCorrelation = bfCorrelation inp,
                            mcProvenance = pair @
                              (if ty = Outbound then [(''saleId'', J_option J_uuid (bfSale inp))]
                               else [(''terminalEventRef'', J_option J_uuid (bfTerminal inp))])\<rparr>)
              (act_bind (if ty = Outbound then flagIfNegativeOnHand c (bfStore inp) (bfProduct inp)
                         else act_return False) (\<lambda>flagged.
                 act_return (toMovementBody row, flagged)))))))"

definition backfillSaleLinkedOutbound ::
    "backfill_input \<Rightarrow> id_source \<Rightarrow> timestamptz \<Rightarrow> inv_svc \<Rightarrow> (exn + movement_body) \<times> inv_svc" where
  "backfillSaleLinkedOutbound inp ids now =
     run_write (bfTenant inp) (backfill_input_error Outbound inp) (backfill_work Outbound inp ids now)"

definition backfillRestockInbound ::
    "backfill_input \<Rightarrow> id_source \<Rightarrow> timestamptz \<Rightarrow> inv_svc \<Rightarrow> (exn + movement_body) \<times> inv_svc" where
  "backfillRestockInbound inp ids now =
     run_write (bfTenant inp) (backfill_input_error Inbound inp) (backfill_work Inbound inp ids now)"

end
