(* ===== verification/InventoryHttp.thy ===== *)
theory InventoryHttp
  imports InventoryService
begin

text \<open>
  The routes of apps/api/src/inventory/inventory.controller.ts with their request schemas, the
  off-request backfill of apps/worker/src/inventory/backfill.processor.ts, and the machine of all
  write operations of the ledger. Path and body identifiers arrive parsed: \<^const>\<open>None\<close> is one the
  pipe rejects.
\<close>

section \<open>Request schemas\<close>

text \<open>\<open>/^-?\d{1,15}(\.\d{1,4})?$/\<close> is \<^const>\<open>signed_amount\<close>; the unsigned form is \<^const>\<open>MONEY_RE\<close>.\<close>

definition unit_ok :: "string \<Rightarrow> bool" where
  "unit_ok u \<longleftrightarrow> 1 \<le> length u \<and> length u \<le> 32"

definition reason_ok :: "string option \<Rightarrow> bool" where
  "reason_ok r = (case r of None \<Rightarrow> True | Some x \<Rightarrow> length x \<le> 500)"

record movement_request =
  mrType :: movement_type
  mrQuantity :: string
  mrUnit :: string
  mrProduct :: "uuid option"
  mrReason :: "string option"
  mrOccurred :: "timestamptz option"
  mrSale :: "uuid option"
  mrSaleLine :: "uuid option"
  mrTerminal :: "uuid option"

definition CreateStockMovementSchema :: "movement_request \<Rightarrow> bool" where
  "CreateStockMovementSchema b \<longleftrightarrow>
     mrType b \<in> {Inbound, Outbound, Adjustment} \<and> signed_amount (mrQuantity b) \<and> unit_ok (mrUnit b) \<and>
     reason_ok (mrReason b)"

record transfer_request =
  trSource :: uuid
  trDestination :: uuid
  trProduct :: uuid
  trQuantity :: string
  trUnit :: string
  trReason :: "string option"

definition PositiveDecimalQtySchema :: "string \<Rightarrow> bool" where
  "PositiveDecimalQtySchema s \<longleftrightarrow> MONEY_RE s \<and> js_greater_0 (Math_round (js_times_1e4 (js_Number s)))"

definition CreateStockTransferSchema :: "transfer_request \<Rightarrow> bool" where
  "CreateStockTransferSchema b \<longleftrightarrow>
     PositiveDecimalQtySchema (trQuantity b) \<and> unit_ok (trUnit b) \<and> reason_ok (trReason b)"

record count_request =
  krProduct :: uuid
  krCounted :: string
  krUnit :: string
  krAt :: "timestamptz option"

definition RecordStockCountSchema :: "count_request \<Rightarrow> bool" where
  "RecordStockCountSchema b \<longleftrightarrow> MONEY_RE (krCounted b) \<and> unit_ok (krUnit b)"

section \<open>Context and store scope\<close>

definition requireContext :: "request_context \<Rightarrow> thrown + (uuid \<times> uuid \<times> uuid option)" where
  "requireContext req =
     (case req of
        None \<Rightarrow> Inl (Http_exception 401 None)
      | Some c \<Rightarrow>
          (case (rcTenant c, rcUser c) of
             (Some t, Some u) \<Rightarrow> Inr (t, u, rcStore c)
           | _ \<Rightarrow> Inl (Http_exception 401 None)))"

definition authorizeStore :: "uuid option \<Rightarrow> uuid \<Rightarrow> thrown option" where
  "authorizeStore scope st =
     (if scope \<noteq> None \<and> scope \<noteq> Some st then Some (Http_exception 404 None) else None)"

text \<open>The HTTP exceptions the service throws, by class; any other error is unhandled.\<close>

definition as_thrown :: "exn \<Rightarrow> thrown" where
  "as_thrown e =
     (if e = bad_request \<or> e = cross_unit_error then Http_exception 400 None
      else if e = not_found_exception then Http_exception 404 None
      else Unhandled e)"

section \<open>Routes\<close>

definition getOnHand_route ::
    "request_context \<Rightarrow> uuid option \<Rightarrow> uuid option \<Rightarrow> inv_db \<Rightarrow> on_hand_body response" where
  "getOnHand_route req store product s =
     respond 200
       (case (store, product) of
          (Some st, Some p) \<Rightarrow>
            (case requireContext req of
               Inl e \<Rightarrow> Inl e
             | Inr (t, u, scope) \<Rightarrow>
                 (case authorizeStore scope st of
                    Some e \<Rightarrow> Inl e
                  | None \<Rightarrow> (case getOnHand t st p s of Inl e \<Rightarrow> Inl (as_thrown e) | Inr b \<Rightarrow> Inr b)))
        | _ \<Rightarrow> Inl Zod_error)"

text \<open>The limit is absent, or what the coercion makes of the text: \<^const>\<open>None\<close> when it rejects it.\<close>

definition listStockMovements_route ::
    "request_context \<Rightarrow> uuid option \<Rightarrow> uuid option option \<Rightarrow> int option option \<Rightarrow> inv_db \<Rightarrow>
     movement_body list response" where
  "listStockMovements_route req store product limit s =
     respond 200
       (case (store, product, limit) of
          (Some st, Some p, Some n) \<Rightarrow>
            if (case n of None \<Rightarrow> False | Some k \<Rightarrow> k < 1 \<or> 200 < k) then Inl Zod_error
            else (case requireContext req of
               Inl e \<Rightarrow> Inl e
             | Inr (t, u, scope) \<Rightarrow>
                 (case authorizeStore scope st of
                    Some e \<Rightarrow> Inl e
                  | None \<Rightarrow> Inr (listStockMovements t st p n s)))
        | _ \<Rightarrow> Inl Zod_error)"

text \<open>A write route: its result is 201 with the body, or the exception the filter maps.\<close>

definition created :: "(exn + 'a) \<times> inv_svc \<Rightarrow> 'a response \<times> inv_svc" where
  "created r = (respond 201 (case fst r of Inl e \<Rightarrow> Inl (as_thrown e) | Inr a \<Rightarrow> Inr a), snd r)"

definition createStockMovement_route ::
    "request_context \<Rightarrow> uuid option \<Rightarrow> movement_request \<Rightarrow> id_source \<Rightarrow> timestamptz \<Rightarrow> inv_svc \<Rightarrow>
     movement_body response \<times> inv_svc" where
  "createStockMovement_route req store b ids now s =
     (case store of
        None \<Rightarrow> (respond 201 (Inl Zod_error), s)
      | Some st \<Rightarrow>
          if \<not> CreateStockMovementSchema b then (respond 201 (Inl Zod_error), s)
          else (case requireContext req of
             Inl e \<Rightarrow> (respond 201 (Inl e), s)
           | Inr (t, u, scope) \<Rightarrow>
               (case authorizeStore scope st of
                  Some e \<Rightarrow> (respond 201 (Inl e), s)
                | None \<Rightarrow> created (createStockMovement
                    \<lparr>cmTenant = t, cmStore = st, cmUser = u, cmType = mrType b, cmQuantity = mrQuantity b,
                     cmUnit = mrUnit b, cmProduct = mrProduct b, cmReason = mrReason b,
                     cmOccurred = mrOccurred b, cmSale = mrSale b, cmSaleLine = mrSaleLine b,
                     cmTerminal = mrTerminal b\<rparr> ids now s))))"

definition createStockTransfer_route ::
    "request_context \<Rightarrow> transfer_request \<Rightarrow> id_source \<Rightarrow> timestamptz \<Rightarrow> inv_svc \<Rightarrow>
     transfer_body response \<times> inv_svc" where
  "createStockTransfer_route req b ids now s =
     (if \<not> CreateStockTransferSchema b then (respond 201 (Inl Zod_error), s)
      else case requireContext req of
             Inl e \<Rightarrow> (respond 201 (Inl e), s)
           | Inr (t, u, scope) \<Rightarrow>
               (case authorizeStore scope (trSource b) of
                  Some e \<Rightarrow> (respond 201 (Inl e), s)
                | None \<Rightarrow> created (createStockTransfer
                    \<lparr>xfTenant = t, xfUser = u, xfSource = trSource b, xfDestination = trDestination b,
                     xfProduct = trProduct b, xfQuantity = trQuantity b, xfUnit = trUnit b,
                     xfReason = trReason b\<rparr> ids now s)))"

definition recordStockCount_route ::
    "request_context \<Rightarrow> uuid option \<Rightarrow> count_request \<Rightarrow> id_source \<Rightarrow> timestamptz \<Rightarrow> inv_svc \<Rightarrow>
     count_body response \<times> inv_svc" where
  "recordStockCount_route req store b ids now s =
     (case store of
        None \<Rightarrow> (respond 201 (Inl Zod_error), s)
      | Some st \<Rightarrow>
          if \<not> RecordStockCountSchema b then (respond 201 (Inl Zod_error), s)
          else (case requireContext req of
             Inl e \<Rightarrow> (respond 201 (Inl e), s)
           | Inr (t, u, scope) \<Rightarrow>
               (case authorizeStore scope st of
                  Some e \<Rightarrow> (respond 201 (Inl e), s)
                | None \<Rightarrow> created (recordStockCount
                    \<lparr>rkTenant = t, rkStore = st, rkUser = u, rkProduct = krProduct b, rkCounted = krCounted b,
                     rkUnit = krUnit b, rkAt = krAt b\<rparr> ids now s))))"

section \<open>The off-request backfill\<close>

record backfill_job =
  bjSale :: uuid
  bjTenant :: uuid
  bjStore :: uuid
  bjActor :: uuid
  bjSource :: string
  bjCorrelation :: "string option"

record backfill_result =
  brSale :: uuid
  brAppended :: nat
  brDeduped :: nat
  brApplied :: bool

definition MAX_BACKFILL_MOVEMENTS :: nat where
  "MAX_BACKFILL_MOVEMENTS = 500"

text \<open>\<open>(-1) * $3::numeric(19,4)\<close> of a quantity in millionths: the cast rounds half away from zero.\<close>

definition outbound_quantity :: "int \<Rightarrow> money" where
  "outbound_quantity q = - (sgn q * ((\<bar>q\<bar> + 50) div 100))"

definition line_row :: "backfill_job \<Rightarrow> uuid \<Rightarrow> timestamptz \<Rightarrow> sale_line \<Rightarrow> movement" where
  "line_row job i now line =
     \<lparr>mvId = i, mvTenant = bjTenant job, mvStore = bjStore job, mvType = Outbound,
      mvQty = outbound_quantity (slQuantity line), mvUnit = slUnit line, mvProduct = slProduct line,
      mvReason = None, mvOccurred = now, mvReceived = now, mvSource = Some (bjSource job),
      mvExternal = Some (uuid_text (slId line)), mvSale = Some (bjSale job), mvSaleLine = Some (slId line),
      mvTerminal = None, mvGroup = None, mvCount = None, mvCreatedBy = bjActor job\<rparr>"

abbreviation "backfill_cross_unit \<equiv> Js_error ''InventoryBackfillCrossUnitError''"

definition backfill_line ::
    "backfill_job \<Rightarrow> id_source \<Rightarrow> nat \<Rightarrow> timestamptz \<Rightarrow> tenant_context \<Rightarrow> sale_line \<Rightarrow> (bool, inv_db) action" where
  "backfill_line job ids k now c line =
     act_bind
       (case slProduct line of
          None \<Rightarrow> act_return None
        | Some p \<Rightarrow> act_select (established_unit c (bjStore job) p)) (\<lambda>established.
     if established \<noteq> None \<and> established \<noteq> Some (slUnit line) then act_throw backfill_cross_unit
     else act_bind
       (act_catch
          (act_query (\<lambda>s.
             if numeric_19_4_fits (outbound_quantity (slQuantity line))
             then insert_movement c True (line_row job (ids (3 * k)) now line) s else Inl numeric_overflow))
          (\<lambda>e. act_throw (if isUnitExclusionViolation e then backfill_cross_unit else e))) (\<lambda>inserted.
       case inserted of
         None \<Rightarrow> act_return False
       | Some row \<Rightarrow>
           act_then (act_query (insert_audit c (audit_row (ids (3 * k + 1)) (bjActor job) (bjTenant job)
                       ''inventory.movement.backfill'' ''stock_movement'' (mvId row)
                       (J_object [(''sourceSystem'', J_string (bjSource job)),
                                  (''externalId'', J_string (uuid_text (slId line))),
                                  (''saleId'', J_uuid (bjSale job)),
                                  (''correlationId'', J_option J_string (bjCorrelation job))]))))
          (act_then (emitMovementCreated c (ids (3 * k + 2)) now
                       \<lparr>mcTenant = bjTenant job, mcStore = bjStore job, mcIds = [mvId row],
                        mcType = ''outbound'', mcProduct = slProduct line, mcCorrelation = bjCorrelation job,
                        mcProvenance = [(''sourceSystem'', J_string (bjSource job)),
                                        (''externalId'', J_string (uuid_text (slId line))),
                                        (''saleId'', J_uuid (bjSale job))]\<rparr>)
          (act_return True))))"

fun backfill_lines ::
    "backfill_job \<Rightarrow> id_source \<Rightarrow> nat \<Rightarrow> timestamptz \<Rightarrow> tenant_context \<Rightarrow> sale_line list \<Rightarrow> nat \<times> nat \<Rightarrow>
     (nat \<times> nat, inv_db) action" where
  "backfill_lines job ids k now c [] n = act_return n"
| "backfill_lines job ids k now c (line # ls) (appended, deduped) =
     act_bind (backfill_line job ids k now c line) (\<lambda>fresh.
       backfill_lines job ids (Suc k) now c ls
         (if fresh then (appended + 1, deduped) else (appended, deduped + 1)))"

definition captured_lines :: "tenant_context \<Rightarrow> backfill_job \<Rightarrow> inv_db \<Rightarrow> sale_line list" where
  "captured_lines c job s =
     sort_key slId (filter (\<lambda>l. rls_tenant c (slTenant l) \<and> slSale l = bjSale job \<and> slStore l = bjStore job)
       (saleLines s))"

definition sale_captured :: "tenant_context \<Rightarrow> backfill_job \<Rightarrow> inv_db \<Rightarrow> bool" where
  "sale_captured c job s \<longleftrightarrow>
     list_ex (\<lambda>x. rls_tenant c (csTenant x) \<and> csId x = bjSale job \<and> csStore x = bjStore job \<and> \<not> csProcessed x)
       (capturedSales s)"

definition backfill_process_work ::
    "backfill_job \<Rightarrow> id_source \<Rightarrow> timestamptz \<Rightarrow> tenant_context \<Rightarrow> (backfill_result \<times> bool, inv_db) action" where
  "backfill_process_work job ids now c =
     act_bind (act_select (sale_captured c job)) (\<lambda>found.
       if \<not> found then act_throw (Js_error ''InventoryBackfillSaleNotFoundError'')
       else act_bind (act_select (captured_lines c job)) (\<lambda>lines.
         if length lines > MAX_BACKFILL_MOVEMENTS then act_throw (Js_error ''InventoryBackfillTooManyLinesError'')
         else act_bind (backfill_lines job ids 0 now c lines (0, 0)) (\<lambda>(appended, deduped).
           act_return (\<lparr>brSale = bjSale job, brAppended = appended, brDeduped = deduped,
                        brApplied = appended > 0\<rparr>, False))))"

definition backfill_process ::
    "backfill_job \<Rightarrow> id_source \<Rightarrow> timestamptz \<Rightarrow> inv_svc \<Rightarrow> (exn + backfill_result) \<times> inv_svc" where
  "backfill_process job ids now =
     run_write (bjTenant job) (if js_trim (bjSource job) = [] then Some (Js_error ''Error'') else None)
       (backfill_process_work job ids now)"

section \<open>The machine of the ledger\<close>

datatype inv_op =
    Post_movement request_context "uuid option" movement_request id_source timestamptz
  | Post_transfer request_context transfer_request id_source timestamptz
  | Post_count request_context "uuid option" count_request id_source timestamptz
  | Backfill_sale backfill_input id_source timestamptz
  | Backfill_restock backfill_input id_source timestamptz
  | Backfill_job backfill_job id_source timestamptz

fun inv_step :: "inv_op \<Rightarrow> inv_svc \<Rightarrow> inv_svc" where
  "inv_step (Post_movement req st b ids now) s = snd (createStockMovement_route req st b ids now s)"
| "inv_step (Post_transfer req b ids now) s = snd (createStockTransfer_route req b ids now s)"
| "inv_step (Post_count req st b ids now) s = snd (recordStockCount_route req st b ids now s)"
| "inv_step (Backfill_sale inp ids now) s = snd (backfillSaleLinkedOutbound inp ids now s)"
| "inv_step (Backfill_restock inp ids now) s = snd (backfillRestockInbound inp ids now s)"
| "inv_step (Backfill_job job ids now) s = snd (backfill_process job ids now s)"

fun inv_run :: "inv_op list \<Rightarrow> inv_svc \<Rightarrow> inv_svc" where
  "inv_run [] s = s"
| "inv_run (op # ops) s = inv_run ops (inv_step op s)"

definition context_tenant :: "request_context \<Rightarrow> uuid option" where
  "context_tenant req = (case req of None \<Rightarrow> None | Some c \<Rightarrow> rcTenant c)"

fun inv_op_tenant :: "inv_op \<Rightarrow> uuid option" where
  "inv_op_tenant (Post_movement req st b ids now) = context_tenant req"
| "inv_op_tenant (Post_transfer req b ids now) = context_tenant req"
| "inv_op_tenant (Post_count req st b ids now) = context_tenant req"
| "inv_op_tenant (Backfill_sale inp ids now) = Some (bfTenant inp)"
| "inv_op_tenant (Backfill_restock inp ids now) = Some (bfTenant inp)"
| "inv_op_tenant (Backfill_job job ids now) = Some (bjTenant job)"

end
