(* ===== verification/InventoryFacts.thy ===== *)
theory InventoryFacts
  imports InventoryHttp
begin

text \<open>
  What the operations of the stock ledger do when their transaction commits: which rows they append,
  and why. The statements come first, then the shared steps, then one effect lemma per operation.
\<close>

section \<open>Appending\<close>

definition inv_append ::
    "inv_db \<Rightarrow> movement list \<Rightarrow> stock_count list \<Rightarrow> audit_event list \<Rightarrow> outbox_event list \<Rightarrow> inv_db" where
  "inv_append s ms ks as es =
     s\<lparr>movements := movements s @ ms, counts := counts s @ ks, audits := audits s @ as, outbox := outbox s @ es\<rparr>"

lemma inv_append_sel [simp]:
  "movements (inv_append s ms ks as es) = movements s @ ms" "counts (inv_append s ms ks as es) = counts s @ ks"
  "audits (inv_append s ms ks as es) = audits s @ as" "outbox (inv_append s ms ks as es) = outbox s @ es"
  "storeRows (inv_append s ms ks as es) = storeRows s" "products (inv_append s ms ks as es) = products s"
  "users (inv_append s ms ks as es) = users s" "capturedSales (inv_append s ms ks as es) = capturedSales s"
  "saleLines (inv_append s ms ks as es) = saleLines s"
  by (simp_all add: inv_append_def)

lemma inv_append_Nil [simp]: "inv_append s [] [] [] [] = s"
  by (simp add: inv_append_def)

lemma inv_append_append [simp]:
  "inv_append (inv_append s ms ks as es) ms' ks' as' es' = inv_append s (ms @ ms') (ks @ ks') (as @ as') (es @ es')"
  by (simp add: inv_append_def)

lemma update_as_append:
  "s\<lparr>movements := movements s @ ms\<rparr> = inv_append s ms [] [] []"
  "s\<lparr>counts := counts s @ ks\<rparr> = inv_append s [] ks [] []"
  "s\<lparr>audits := audits s @ as\<rparr> = inv_append s [] [] as []"
  "s\<lparr>outbox := outbox s @ es\<rparr> = inv_append s [] [] [] es"
  by (simp_all add: inv_append_def)

section \<open>Statements\<close>

text \<open>A row the insert accepts as new.\<close>

definition movement_new :: "tenant_context \<Rightarrow> movement \<Rightarrow> inv_db \<Rightarrow> bool" where
  "movement_new c m s \<longleftrightarrow> movement_row_checks c m = None \<and> movement_key_checks m s = None"

lemma key_checks_provenance: "movement_key_checks m s = None \<Longrightarrow> \<not> provenance_taken m s"
  by (simp add: movement_key_checks_def)

lemma insert_movement_Some [run_simps]:
  "insert_movement c oc m s = Inr (Some m', s') \<longleftrightarrow> m' = m \<and> movement_new c m s \<and> s' = inv_append s [m] [] [] []"
  by (cases "movement_row_checks c m"; cases "movement_key_checks m s")
     (auto simp: insert_movement_def movement_new_def update_as_append dest: key_checks_provenance)

lemma insert_movement_None [run_simps]:
  "insert_movement c oc m s = Inr (None, s') \<longleftrightarrow>
     oc \<and> movement_row_checks c m = None \<and> provenance_taken m s \<and> s' = s"
  by (auto simp: insert_movement_def split: option.splits)

lemma insert_count_Inr [run_simps]:
  "insert_count c k s = Inr (u, s') \<longleftrightarrow>
     rls_tenant c (ctTenant k) \<and> ctId k \<notin> ctId ` set (counts s) \<and> ctStore k \<in> fst ` set (storeRows s) \<and>
     (\<forall>p. ctProduct k = Some p \<longrightarrow> p \<in> set (products s)) \<and> s' = inv_append s [] [k] [] []"
  unfolding insert_count_def by (simp only: sql_check_then) (auto simp: update_as_append split: option.splits)

definition audit_new :: "tenant_context \<Rightarrow> audit_event \<Rightarrow> inv_db \<Rightarrow> bool" where
  "audit_new c a s \<longleftrightarrow> ((\<exists>t. auTenant a = Some t \<and> rls_tenant c t) \<or> ctxPlatformAdmin c) \<and>
     auId a \<notin> auId ` set (audits s) \<and> (\<forall>u. auActor a = Some u \<longrightarrow> u \<in> set (users s))"

lemma insert_audit_Inr [run_simps]: "insert_audit c a s = Inr (u, s') \<longleftrightarrow> audit_new c a s \<and> s' = inv_append s [] [] [a] []"
  unfolding insert_audit_def audit_new_def
  by (simp only: sql_check_then) (auto simp: update_as_append split: option.splits)

lemma audit_new_append [simp]: "audit_new c a (inv_append s ms ks [] es) \<longleftrightarrow> audit_new c a s"
  by (simp add: audit_new_def)

section \<open>Shared steps\<close>

definition unit_agrees :: "tenant_context \<Rightarrow> uuid \<Rightarrow> uuid option \<Rightarrow> string \<Rightarrow> inv_db \<Rightarrow> bool" where
  "unit_agrees c st product u s \<longleftrightarrow>
     (\<forall>p. product = Some p \<longrightarrow> established_unit c st p s = None \<or> established_unit c st p s = Some u)"

lemma stays_aborted_assert [simp]: "stays_aborted (assertUnitMatchesEstablished c st p u)"
  by (simp add: assertUnitMatchesEstablished_def)

lemma succeeds_assert [run_simps]:
  "succeeds (assertUnitMatchesEstablished c st p u) s x s' \<longleftrightarrow> s' = s \<and> unit_agrees c st (Some p) u s"
  by (auto simp: assertUnitMatchesEstablished_def unit_agrees_def run_simps succeeds_bind split: option.splits if_splits)

lemma stays_aborted_assert_of [simp]: "stays_aborted (assert_unit_of c st product u)"
  by (simp add: assert_unit_of_def)

lemma succeeds_assert_of [run_simps]:
  "succeeds (assert_unit_of c st product u) s x s' \<longleftrightarrow> s' = s \<and> unit_agrees c st product u s"
  by (auto simp: assert_unit_of_def run_simps unit_agrees_def split: option.splits)

lemma stays_aborted_insertMovementRow [simp]: "stays_aborted (insertMovementRow c oc q mk)"
  by (simp add: insertMovementRow_def split: option.splits)

lemma succeeds_insertMovementRow [run_simps]:
  "succeeds (insertMovementRow c oc q mk) s r s' \<longleftrightarrow>
     (\<exists>v. pg_numeric_in q = Inr v \<and> insert_movement c oc (mk v) s = Inr (r, s'))"
proof -
  have "succeeds (insertMovementRow c oc q mk) s r s' \<longleftrightarrow>
    succeeds (act_query (\<lambda>s. case pg_numeric_in q of Inl e \<Rightarrow> Inl e | Inr v \<Rightarrow> insert_movement c oc (mk v) s)) s r s'"
    unfolding insertMovementRow_def
    by (rule succeeds_catch) (auto simp: act_query_error_aborts split: option.splits)
  then show ?thesis by (auto simp: run_simps split: sum.splits)
qed

lemma js_less_0_numeric: "numeric_19_4_fits v \<Longrightarrow> js_less_0 (js_Number (pg_numeric_text v)) \<longleftrightarrow> v < 0"
proof -
  assume "numeric_19_4_fits v"
  then have b: "\<bar>v\<bar> < 10 ^ 19" by (simp add: numeric_19_4_fits_def)
  show ?thesis
  proof (cases "v = 0")
    case True
    then show ?thesis by (simp add: js_Number_numeric_text js_num_def)
  next
    case False
    then have "1 \<le> \<bar>of_int v :: rat\<bar>" by linarith
    then have "1 / 2 ^ 58 < \<bar>of_int v / 10000 :: rat\<bar>" by (simp add: abs_divide)
    note to_double_sign(2) [OF this]
    moreover have "\<bar>of_int v / 10000 :: rat\<bar> \<le> 2 ^ 70"
    proof -
      have "\<bar>of_int v :: rat\<bar> < 10 ^ 19" using b by (metis of_int_abs of_int_less_iff of_int_numeral of_int_power)
      then show ?thesis by (simp add: abs_divide)
    qed
    ultimately show ?thesis by (simp add: js_Number_numeric_text js_num_Finite divide_less_0_iff)
  qed
qed

lemma stays_aborted_flag [simp]: "stays_aborted (flagIfNegativeOnHand c st product)"
  by (simp add: flagIfNegativeOnHand_def)

lemma select_on_hand_Inr [run_simps]:
  "select_on_hand c st p s = Inr (v, s') \<longleftrightarrow> numeric_19_4_fits (on_hand c st p s) \<and> v = on_hand c st p s \<and> s' = s"
  by (auto simp: select_on_hand_def)

definition flag_says :: "tenant_context \<Rightarrow> uuid \<Rightarrow> uuid option \<Rightarrow> inv_db \<Rightarrow> bool \<Rightarrow> bool" where
  "flag_says c st product s f \<longleftrightarrow>
     (case product of None \<Rightarrow> \<not> f
      | Some p \<Rightarrow> numeric_19_4_fits (on_hand c st p s) \<and> (f \<longleftrightarrow> on_hand c st p s < 0))"

lemma succeeds_flag [run_simps]:
  "succeeds (flagIfNegativeOnHand c st product) s f s' \<longleftrightarrow> s' = s \<and> flag_says c st product s f"
proof (cases product)
  case (Some p)
  let ?m = "act_bind (act_query (select_on_hand c st p)) (\<lambda>v. act_return (js_less_0 (js_Number (pg_numeric_text v))))"
  have "?m (Tx_open s) \<noteq> (Inl e, Tx_open s')" for e s'
    by (auto simp: act_open_simps select_on_hand_def)
  then have "succeeds (act_catch ?m (\<lambda>_. act_return False)) s f s' \<longleftrightarrow> succeeds ?m s f s'"
    by (auto simp: succeeds_def act_catch_def act_open_simps select_on_hand_def)
  then show ?thesis
    by (auto simp: flagIfNegativeOnHand_def Some run_simps succeeds_bind js_less_0_numeric flag_says_def)
qed (auto simp: flagIfNegativeOnHand_def run_simps flag_says_def)

text \<open>The event of a movement, as the outbox gets it.\<close>

definition movement_event :: "uuid \<Rightarrow> timestamptz \<Rightarrow> movement_created \<Rightarrow> outbox_event" where
  "movement_event i now inp = pending_event i now
     \<lparr>emType = ''inventory.movement.created'', emTenant = mcTenant inp, emStore = Some (mcStore inp),
      emPayload = json_text (movement_payload inp),
      emCorrelation = (case mcCorrelation inp of None \<Rightarrow> None | Some x \<Rightarrow> parse_uuid x), emOccurred = None\<rparr>"

lemma stays_aborted_emit [simp]: "stays_aborted (emitMovementCreated c i now inp)"
  by (simp add: emitMovementCreated_def)

lemma succeeds_emit [run_simps]:
  "succeeds (emitMovementCreated c i now inp) s j s' \<longleftrightarrow>
     j = i \<and> rls_tenant_or_admin c (mcTenant inp) \<and> i \<notin> evId ` set (outbox s) \<and>
     s' = inv_append s [] [] [] [movement_event i now inp]"
  by (auto simp: emitMovementCreated_def run_simps emit_def movement_event_def update_as_append split: sum.splits if_splits)

section \<open>Steps in sequence\<close>

text \<open>The rules that compute an operation: one per step, each continuing in the state after it.\<close>

lemma succeeds_then_assert [seq_simps]:
  assumes "stays_aborted n"
  shows "succeeds (act_then (assertUnitMatchesEstablished c st p u) n) s b s'' \<longleftrightarrow>
    unit_agrees c st (Some p) u s \<and> succeeds n s b s''"
  using assms by (auto simp: succeeds_then run_simps)

lemma succeeds_then_assert_of [seq_simps]:
  assumes "stays_aborted n"
  shows "succeeds (act_then (assert_unit_of c st product u) n) s b s'' \<longleftrightarrow>
    unit_agrees c st product u s \<and> succeeds n s b s''"
  using assms by (auto simp: succeeds_then run_simps)

lemma succeeds_bind_insert [seq_simps]:
  assumes "\<And>r. stays_aborted (f r)"
  shows "succeeds (act_bind (insertMovementRow c oc q mk) f) s b s'' \<longleftrightarrow>
    (\<exists>v. pg_numeric_in q = Inr v \<and>
      (movement_new c (mk v) s \<and> succeeds (f (Some (mk v))) (inv_append s [mk v] [] [] []) b s'' \<or>
       oc \<and> movement_row_checks c (mk v) = None \<and> provenance_taken (mk v) s \<and> succeeds (f None) s b s''))"
proof -
  have "succeeds (act_bind (insertMovementRow c oc q mk) f) s b s'' \<longleftrightarrow>
    (\<exists>r s'. (\<exists>v. pg_numeric_in q = Inr v \<and> insert_movement c oc (mk v) s = Inr (r, s')) \<and> succeeds (f r) s' b s'')"
    by (simp add: succeeds_bind [OF assms] succeeds_insertMovementRow)
  also have "\<dots> \<longleftrightarrow> (\<exists>v. pg_numeric_in q = Inr v \<and>
    (\<exists>s'. insert_movement c oc (mk v) s = Inr (None, s') \<and> succeeds (f None) s' b s'' \<or>
          (\<exists>m. insert_movement c oc (mk v) s = Inr (Some m, s') \<and> succeeds (f (Some m)) s' b s'')))"
    by (subst split_option_ex) blast
  finally show ?thesis unfolding insert_movement_Some insert_movement_None by blast
qed

lemma succeeds_then_audit [seq_simps]:
  assumes "stays_aborted n"
  shows "succeeds (act_then (act_query (insert_audit c a)) n) s b s'' \<longleftrightarrow>
    audit_new c a s \<and> succeeds n (inv_append s [] [] [a] []) b s''"
  using assms by (auto simp: succeeds_then run_simps)

lemma succeeds_then_emit [seq_simps]:
  assumes "stays_aborted n"
  shows "succeeds (act_then (emitMovementCreated c i now inp) n) s b s'' \<longleftrightarrow>
    rls_tenant_or_admin c (mcTenant inp) \<and> i \<notin> evId ` set (outbox s) \<and>
    succeeds n (inv_append s [] [] [] [movement_event i now inp]) b s''"
  using assms by (auto simp: succeeds_then run_simps)

lemma succeeds_bind_flag [seq_simps]:
  assumes "\<And>f. stays_aborted (g f)"
  shows "succeeds (act_bind (flagIfNegativeOnHand c st product) g) s b s'' \<longleftrightarrow>
    (\<exists>f. flag_says c st product s f \<and> succeeds (g f) s b s'')"
  using assms by (auto simp: succeeds_bind run_simps)

definition count_new :: "tenant_context \<Rightarrow> stock_count \<Rightarrow> inv_db \<Rightarrow> bool" where
  "count_new c k s \<longleftrightarrow> rls_tenant c (ctTenant k) \<and> ctId k \<notin> ctId ` set (counts s) \<and>
     ctStore k \<in> fst ` set (storeRows s) \<and> (\<forall>p. ctProduct k = Some p \<longrightarrow> p \<in> set (products s))"

lemma succeeds_then_count [seq_simps]:
  assumes "stays_aborted n"
  shows "succeeds (act_then (act_query (\<lambda>s. case pg_numeric_in a of Inl e \<Rightarrow> Inl e
        | Inr k \<Rightarrow> (case pg_numeric_in b of Inl e \<Rightarrow> Inl e | Inr d \<Rightarrow> insert_count c (mk k d) s))) n) s r s'' \<longleftrightarrow>
    (\<exists>k d. pg_numeric_in a = Inr k \<and> pg_numeric_in b = Inr d \<and> count_new c (mk k d) s \<and>
      succeeds n (inv_append s [] [mk k d] [] []) r s'')"
  by (cases "pg_numeric_in a"; cases "pg_numeric_in b")
     (auto simp: succeeds_then [OF assms] succeeds_query insert_count_Inr count_new_def)

lemma succeeds_bind_on_hand [seq_simps]:
  assumes "\<And>v. stays_aborted (f v)"
  shows "succeeds (act_bind (act_query (select_on_hand c st p)) f) s b s'' \<longleftrightarrow>
    numeric_19_4_fits (on_hand c st p s) \<and> succeeds (f (on_hand c st p s)) s b s''"
  by (auto simp: succeeds_bind [OF assms] succeeds_query select_on_hand_Inr)

lemma act_bind_assoc: "act_bind (act_bind m f) g = act_bind m (\<lambda>a. act_bind (f a) g)"
  by (rule ext) (auto simp: act_bind_def split: prod.splits sum.splits)

lemma act_then_then_return: "act_then (act_then m (act_return x)) n = act_then m n"
  by (rule ext) (auto simp: act_then_def act_bind_def act_return_def split: prod.splits sum.splits)

lemma act_bind_option:
  "act_bind (case x of None \<Rightarrow> m | Some y \<Rightarrow> g y) f = (case x of None \<Rightarrow> act_bind m f | Some y \<Rightarrow> act_bind (g y) f)"
  by (simp split: option.split)

lemma act_bind_throw: "act_bind (act_throw e) f = act_throw e"
  by (rule ext) (simp add: act_bind_def act_throw_def)

lemmas ledger_simps = seq_simps succeeds_return succeeds_throw succeeds_guard succeeds_option
  act_bind_assoc act_then_then_return act_bind_option act_bind_throw

section \<open>What the operations append\<close>

lemma manual_row_sel [simp]:
  "mvId (manual_row inp ids now v) = ids 0" "mvTenant (manual_row inp ids now v) = cmTenant inp"
  "mvStore (manual_row inp ids now v) = cmStore inp" "mvType (manual_row inp ids now v) = cmType inp"
  "mvQty (manual_row inp ids now v) = v" "mvUnit (manual_row inp ids now v) = js_trim (cmUnit inp)"
  "mvProduct (manual_row inp ids now v) = cmProduct inp" "mvSource (manual_row inp ids now v) = None"
  "mvExternal (manual_row inp ids now v) = None" "mvGroup (manual_row inp ids now v) = None"
  "mvCount (manual_row inp ids now v) = None"
  by (simp_all add: manual_row_def)

definition manual_event :: "create_movement_input \<Rightarrow> id_source \<Rightarrow> timestamptz \<Rightarrow> outbox_event" where
  "manual_event inp ids now = movement_event (ids 2) now
     \<lparr>mcTenant = cmTenant inp, mcStore = cmStore inp, mcIds = [ids 0],
      mcType = movement_type_text (cmType inp), mcProduct = cmProduct inp, mcCorrelation = None, mcProvenance = []\<rparr>"

definition manual_audit :: "create_movement_input \<Rightarrow> id_source \<Rightarrow> audit_event" where
  "manual_audit inp ids = audit_row (ids 1) (cmUser inp) (cmTenant inp)
     ''inventory.movement.create'' ''stock_movement'' (ids 0) (J_object [])"

lemma createStockMovement_succeeds:
  "succeeds (createStockMovement_work inp ids now c) s r s' \<longleftrightarrow>
    (\<exists>v. pg_numeric_in (cmQuantity inp) = Inr v \<and> movement_new c (manual_row inp ids now v) s \<and>
      unit_agrees c (cmStore inp) (cmProduct inp) (js_trim (cmUnit inp)) s \<and>
      audit_new c (manual_audit inp ids) s \<and> ids 2 \<notin> evId ` set (outbox s) \<and>
      rls_tenant_or_admin c (cmTenant inp) \<and>
      fst r = toMovementBody (manual_row inp ids now v) \<and>
      s' = inv_append s [manual_row inp ids now v] [] [manual_audit inp ids] [manual_event inp ids now] \<and>
      (if cmType inp = Outbound then flag_says c (cmStore inp) (cmProduct inp) s' (snd r) else \<not> snd r))"
  unfolding createStockMovement_work_def
  by (cases r) (auto simp: ledger_simps manual_event_def manual_audit_def)

lemma transfer_row_sel [simp]:
  "mvId (transfer_row inp ids now i st ty v) = i" "mvTenant (transfer_row inp ids now i st ty v) = xfTenant inp"
  "mvStore (transfer_row inp ids now i st ty v) = st" "mvType (transfer_row inp ids now i st ty v) = ty"
  "mvQty (transfer_row inp ids now i st ty v) = v" "mvUnit (transfer_row inp ids now i st ty v) = js_trim (xfUnit inp)"
  "mvProduct (transfer_row inp ids now i st ty v) = Some (xfProduct inp)"
  "mvSource (transfer_row inp ids now i st ty v) = None" "mvExternal (transfer_row inp ids now i st ty v) = None"
  "mvGroup (transfer_row inp ids now i st ty v) = Some (ids 0)" "mvCount (transfer_row inp ids now i st ty v) = None"
  by (simp_all add: transfer_row_def)

definition transfer_out :: "create_transfer_input \<Rightarrow> id_source \<Rightarrow> timestamptz \<Rightarrow> money \<Rightarrow> movement" where
  "transfer_out inp ids now v = transfer_row inp ids now (ids 1) (xfSource inp) Transfer_out v"

definition transfer_in :: "create_transfer_input \<Rightarrow> id_source \<Rightarrow> timestamptz \<Rightarrow> money \<Rightarrow> movement" where
  "transfer_in inp ids now v = transfer_row inp ids now (ids 2) (xfDestination inp) Transfer_in v"

definition transfer_event :: "create_transfer_input \<Rightarrow> id_source \<Rightarrow> timestamptz \<Rightarrow> outbox_event" where
  "transfer_event inp ids now = movement_event (ids 4) now
     \<lparr>mcTenant = xfTenant inp, mcStore = xfSource inp, mcIds = [ids 1, ids 2],
      mcType = ''transfer'', mcProduct = Some (xfProduct inp), mcCorrelation = None,
      mcProvenance = [(''transferGroupId'', J_uuid (ids 0)), (''sourceStoreId'', J_uuid (xfSource inp)),
                      (''destinationStoreId'', J_uuid (xfDestination inp))]\<rparr>"

definition transfer_audit :: "create_transfer_input \<Rightarrow> id_source \<Rightarrow> audit_event" where
  "transfer_audit inp ids = audit_row (ids 3) (xfUser inp) (xfTenant inp)
     ''inventory.transfer.create'' ''stock_transfer'' (ids 0)
     (J_object [(''sourceStoreId'', J_uuid (xfSource inp)), (''destinationStoreId'', J_uuid (xfDestination inp))])"

lemma createStockTransfer_succeeds:
  "succeeds (createStockTransfer_work inp ids now c) s r s' \<longleftrightarrow>
    (\<exists>v w. pg_numeric_in (''-'' @ fixed4_text (transfer_quantity inp)) = Inr v \<and>
      pg_numeric_in (fixed4_text (transfer_quantity inp)) = Inr w \<and>
      list_ex (\<lambda>(i, t). i = xfDestination inp \<and> rls_tenant_or_admin c t) (storeRows s) \<and>
      unit_agrees c (xfSource inp) (Some (xfProduct inp)) (js_trim (xfUnit inp)) s \<and>
      unit_agrees c (xfDestination inp) (Some (xfProduct inp)) (js_trim (xfUnit inp)) s \<and>
      movement_new c (transfer_out inp ids now v) s \<and>
      movement_new c (transfer_in inp ids now w) (inv_append s [transfer_out inp ids now v] [] [] []) \<and>
      audit_new c (transfer_audit inp ids) s \<and> ids 4 \<notin> evId ` set (outbox s) \<and>
      rls_tenant_or_admin c (xfTenant inp) \<and>
      fst r = \<lparr>tbGroup = ids 0, tbOutbound = toMovementBody (transfer_out inp ids now v),
               tbInbound = toMovementBody (transfer_in inp ids now w)\<rparr> \<and>
      s' = inv_append s [transfer_out inp ids now v, transfer_in inp ids now w] []
             [transfer_audit inp ids] [transfer_event inp ids now] \<and>
      flag_says c (xfSource inp) (Some (xfProduct inp)) s' (snd r))"
  unfolding createStockTransfer_work_def
  by (cases r) (auto simp: ledger_simps transfer_event_def transfer_audit_def transfer_out_def transfer_in_def)

lemma count_row_sel [simp]:
  "ctId (count_row inp ids now k d) = ids 0" "ctTenant (count_row inp ids now k d) = rkTenant inp"
  "ctStore (count_row inp ids now k d) = rkStore inp" "ctProduct (count_row inp ids now k d) = Some (rkProduct inp)"
  "ctCounted (count_row inp ids now k d) = k" "ctDerived (count_row inp ids now k d) = d"
  by (simp_all add: count_row_def)

lemma correction_row_sel [simp]:
  "mvId (correction_row inp ids now v) = ids 2" "mvTenant (correction_row inp ids now v) = rkTenant inp"
  "mvStore (correction_row inp ids now v) = rkStore inp" "mvType (correction_row inp ids now v) = Count_correction"
  "mvQty (correction_row inp ids now v) = v" "mvUnit (correction_row inp ids now v) = js_trim (rkUnit inp)"
  "mvProduct (correction_row inp ids now v) = Some (rkProduct inp)"
  "mvSource (correction_row inp ids now v) = None" "mvExternal (correction_row inp ids now v) = None"
  "mvGroup (correction_row inp ids now v) = None" "mvCount (correction_row inp ids now v) = Some (ids 0)"
  by (simp_all add: correction_row_def)

text \<open>The audit row and the event of a count, by whether it has a correction.\<close>

definition count_audit :: "record_count_input \<Rightarrow> id_source \<Rightarrow> js_number \<Rightarrow> audit_event" where
  "count_audit inp ids variance = audit_row (ids 1) (rkUser inp) (rkTenant inp)
     ''inventory.count.record'' ''stock_count'' (ids 0)
     (J_object [(''variance'', J_string (fixed4_text variance)), (''hasCorrection'', J_bool (variance \<noteq> Finite 0))])"

definition count_event :: "record_count_input \<Rightarrow> id_source \<Rightarrow> timestamptz \<Rightarrow> outbox_event" where
  "count_event inp ids now = movement_event (ids 3) now
     \<lparr>mcTenant = rkTenant inp, mcStore = rkStore inp, mcIds = [ids 2], mcType = ''count_correction'',
      mcProduct = Some (rkProduct inp), mcCorrelation = None,
      mcProvenance = [(''stockCountId'', J_uuid (ids 0))]\<rparr>"

lemma toMovementBody_sel [simp]:
  "mbId (toMovementBody m) = mvId m" "mbType (toMovementBody m) = movement_type_text (mvType m)"
  "mbQuantity (toMovementBody m) = pg_numeric_text (mvQty m)"
  by (simp_all add: toMovementBody_def)

text \<open>A count appends the count row; the correction only when the variance is not zero.\<close>

lemma recordStockCount_succeeds:
  assumes "variance = count_variance inp (on_hand c (rkStore inp) (rkProduct inp) s)"
  shows "succeeds (recordStockCount_work inp ids now c) s r s' \<longleftrightarrow>
    unit_agrees c (rkStore inp) (Some (rkProduct inp)) (js_trim (rkUnit inp)) s \<and>
    numeric_19_4_fits (on_hand c (rkStore inp) (rkProduct inp) s) \<and>
    (\<exists>k d. pg_numeric_in (fixed4_text (counted_number inp)) = Inr k \<and>
      pg_numeric_in (fixed4_text (js_Number (pg_numeric_text (on_hand c (rkStore inp) (rkProduct inp) s)))) = Inr d \<and>
      count_new c (count_row inp ids now k d) s \<and> audit_new c (count_audit inp ids variance) s \<and> \<not> snd r \<and>
      (if variance = Finite 0
       then fst r = \<lparr>kbCount = ids 0, kbCounted = fixed4_text (counted_number inp),
                kbVariance = fixed4_text variance, kbCorrection = None\<rparr> \<and>
         s' = inv_append s [] [count_row inp ids now k d] [count_audit inp ids variance] []
       else \<exists>v. pg_numeric_in (fixed4_text variance) = Inr v \<and>
         movement_new c (correction_row inp ids now v) (inv_append s [] [count_row inp ids now k d] [] []) \<and>
         rls_tenant_or_admin c (rkTenant inp) \<and> ids 3 \<notin> evId ` set (outbox s) \<and>
         fst r = \<lparr>kbCount = ids 0, kbCounted = fixed4_text (counted_number inp), kbVariance = fixed4_text variance,
           kbCorrection = Some (toMovementBody (correction_row inp ids now v))\<rparr> \<and>
         s' = inv_append s [correction_row inp ids now v] [count_row inp ids now k d] [count_audit inp ids variance]
                [count_event inp ids now]))"
  unfolding recordStockCount_work_def Let_def
  by (cases r) (auto simp: assms ledger_simps count_event_def count_audit_def)

lemma backfill_row_sel [simp]:
  "mvId (backfill_row ty inp ids now v) = ids 0" "mvTenant (backfill_row ty inp ids now v) = bfTenant inp"
  "mvStore (backfill_row ty inp ids now v) = bfStore inp" "mvType (backfill_row ty inp ids now v) = ty"
  "mvQty (backfill_row ty inp ids now v) = v" "mvUnit (backfill_row ty inp ids now v) = js_trim (bfUnit inp)"
  "mvProduct (backfill_row ty inp ids now v) = bfProduct inp"
  "mvSource (backfill_row ty inp ids now v) = Some (js_trim (bfSource inp))"
  "mvExternal (backfill_row ty inp ids now v) = Some (js_trim (bfExternal inp))"
  "mvGroup (backfill_row ty inp ids now v) = None" "mvCount (backfill_row ty inp ids now v) = None"
  by (simp_all add: backfill_row_def)

definition backfill_pair :: "backfill_input \<Rightarrow> (string \<times> json) list" where
  "backfill_pair inp = [(''sourceSystem'', J_string (js_trim (bfSource inp))),
                        (''externalId'', J_string (js_trim (bfExternal inp)))]"

definition backfill_audit :: "movement_type \<Rightarrow> backfill_input \<Rightarrow> id_source \<Rightarrow> audit_event" where
  "backfill_audit ty inp ids = audit_row (ids 1) (bfUser inp) (bfTenant inp)
     ''inventory.movement.backfill'' ''stock_movement'' (ids 0)
     (J_object (backfill_pair inp
        @ (if ty = Outbound then [] else [(''terminalEventRef'', J_option J_uuid (bfTerminal inp))])
        @ [(''correlationId'', J_option J_string (bfCorrelation inp))]))"

definition backfill_event :: "movement_type \<Rightarrow> backfill_input \<Rightarrow> id_source \<Rightarrow> timestamptz \<Rightarrow> outbox_event" where
  "backfill_event ty inp ids now = movement_event (ids 2) now
     \<lparr>mcTenant = bfTenant inp, mcStore = bfStore inp, mcIds = [ids 0], mcType = movement_type_text ty,
      mcProduct = bfProduct inp, mcCorrelation = bfCorrelation inp,
      mcProvenance = backfill_pair inp @
        (if ty = Outbound then [(''saleId'', J_option J_uuid (bfSale inp))]
         else [(''terminalEventRef'', J_option J_uuid (bfTerminal inp))])\<rparr>"

lemma backfill_succeeds:
  "succeeds (backfill_work ty inp ids now c) s r s' \<longleftrightarrow>
    unit_agrees c (bfStore inp) (bfProduct inp) (js_trim (bfUnit inp)) s \<and>
    (\<exists>v. pg_numeric_in (bfQuantity inp) = Inr v \<and>
      (movement_new c (backfill_row ty inp ids now v) s \<and>
         audit_new c (backfill_audit ty inp ids) s \<and> ids 2 \<notin> evId ` set (outbox s) \<and>
         rls_tenant_or_admin c (bfTenant inp) \<and>
         fst r = toMovementBody (backfill_row ty inp ids now v) \<and>
         s' = inv_append s [backfill_row ty inp ids now v] [] [backfill_audit ty inp ids] [backfill_event ty inp ids now] \<and>
         (if ty = Outbound then flag_says c (bfStore inp) (bfProduct inp) s' (snd r) else \<not> snd r) \<or>
       movement_row_checks c (backfill_row ty inp ids now v) = None \<and>
         provenance_taken (backfill_row ty inp ids now v) s \<and> \<not> snd r \<and> s' = s \<and>
         (\<exists>m. find_provenance c (bfTenant inp) (js_trim (bfSource inp)) (js_trim (bfExternal inp)) s = Some m \<and>
              fst r = toMovementBody m)))"
  unfolding backfill_work_def Let_def
  by (cases r) (auto simp: ledger_simps backfill_event_def backfill_audit_def backfill_pair_def)

section \<open>The job of a sale\<close>

lemma line_row_sel [simp]:
  "mvId (line_row job i now line) = i" "mvTenant (line_row job i now line) = bjTenant job"
  "mvStore (line_row job i now line) = bjStore job" "mvType (line_row job i now line) = Outbound"
  "mvQty (line_row job i now line) = outbound_quantity (slQuantity line)"
  "mvUnit (line_row job i now line) = slUnit line" "mvProduct (line_row job i now line) = slProduct line"
  "mvSource (line_row job i now line) = Some (bjSource job)"
  "mvExternal (line_row job i now line) = Some (uuid_text (slId line))"
  "mvGroup (line_row job i now line) = None" "mvCount (line_row job i now line) = None"
  by (simp_all add: line_row_def)

definition line_audit :: "backfill_job \<Rightarrow> uuid \<Rightarrow> uuid \<Rightarrow> sale_line \<Rightarrow> audit_event" where
  "line_audit job i m line = audit_row i (bjActor job) (bjTenant job)
     ''inventory.movement.backfill'' ''stock_movement'' m
     (J_object [(''sourceSystem'', J_string (bjSource job)), (''externalId'', J_string (uuid_text (slId line))),
                (''saleId'', J_uuid (bjSale job)), (''correlationId'', J_option J_string (bjCorrelation job))])"

definition line_event :: "backfill_job \<Rightarrow> uuid \<Rightarrow> uuid \<Rightarrow> timestamptz \<Rightarrow> sale_line \<Rightarrow> outbox_event" where
  "line_event job i m now line = movement_event i now
     \<lparr>mcTenant = bjTenant job, mcStore = bjStore job, mcIds = [m], mcType = ''outbound'',
      mcProduct = slProduct line, mcCorrelation = bjCorrelation job,
      mcProvenance = [(''sourceSystem'', J_string (bjSource job)),
                      (''externalId'', J_string (uuid_text (slId line))), (''saleId'', J_uuid (bjSale job))]\<rparr>"

lemma stays_aborted_backfill_line [simp]: "stays_aborted (backfill_line job ids k now c line)"
  by (simp add: backfill_line_def split: option.splits)

lemma succeeds_line_insert:
  assumes "\<And>r. stays_aborted (f r)"
  shows "succeeds (act_bind
      (act_catch (act_query (\<lambda>s. if b then insert_movement c True m s else Inl e)) (\<lambda>e'. act_throw (g e'))) f) s r s'' \<longleftrightarrow>
    b \<and> (movement_new c m s \<and> succeeds (f (Some m)) (inv_append s [m] [] [] []) r s'' \<or>
       movement_row_checks c m = None \<and> provenance_taken m s \<and> succeeds (f None) s r s'')"
proof -
  let ?q = "act_query (\<lambda>s. if b then insert_movement c True m s else Inl e)"
  have "succeeds (act_catch ?q (\<lambda>e'. act_throw (g e'))) s x s1 \<longleftrightarrow> b \<and> insert_movement c True m s = Inr (x, s1)" for x s1
    by (subst succeeds_catch) (auto simp: act_query_error_aborts succeeds_query)
  then have "succeeds (act_bind (act_catch ?q (\<lambda>e'. act_throw (g e'))) f) s r s'' \<longleftrightarrow>
      (\<exists>s'. b \<and> insert_movement c True m s = Inr (None, s') \<and> succeeds (f None) s' r s'' \<or>
            (\<exists>x. b \<and> insert_movement c True m s = Inr (Some x, s') \<and> succeeds (f (Some x)) s' r s''))"
    by (simp add: succeeds_bind [OF assms]) (subst split_option_ex, blast)
  then show ?thesis unfolding insert_movement_Some insert_movement_None by blast
qed

lemma backfill_line_succeeds:
  "succeeds (backfill_line job ids k now c line) s r s' \<longleftrightarrow>
    unit_agrees c (bjStore job) (slProduct line) (slUnit line) s \<and>
    numeric_19_4_fits (outbound_quantity (slQuantity line)) \<and>
    (movement_new c (line_row job (ids (3 * k)) now line) s \<and>
       audit_new c (line_audit job (ids (3 * k + 1)) (ids (3 * k)) line) s \<and>
       ids (3 * k + 2) \<notin> evId ` set (outbox s) \<and> rls_tenant_or_admin c (bjTenant job) \<and> r \<and>
       s' = inv_append s [line_row job (ids (3 * k)) now line] []
              [line_audit job (ids (3 * k + 1)) (ids (3 * k)) line]
              [line_event job (ids (3 * k + 2)) (ids (3 * k)) now line] \<or>
     movement_row_checks c (line_row job (ids (3 * k)) now line) = None \<and>
       provenance_taken (line_row job (ids (3 * k)) now line) s \<and> \<not> r \<and> s' = s)"
  unfolding backfill_line_def
  by (cases "slProduct line")
     (auto simp: ledger_simps succeeds_line_insert unit_agrees_def line_audit_def line_event_def split: option.splits)

end
