(* ===== verification/StockNumbers.thy ===== *)
theory StockNumbers
  imports Inventory
begin

text \<open>
  How a quantity travels from a request through JavaScript numbers and \<open>toFixed(4)\<close> into a
  \<open>numeric(19,4)\<close> column: with which value, and with which sign.
\<close>

section \<open>Numbers that reach the column\<close>

lemma pg_numeric_in_text: "pg_numeric_in (pg_numeric_text v) = (if numeric_19_4_fits v then Inr v else Inl numeric_overflow)"
  by (simp add: pg_numeric_text_eq pg_numeric_in_render)

lemma pg_numeric_in_minus:
  assumes "0 \<le> v" shows "pg_numeric_in (CHR ''-'' # pg_numeric_text v) = (if numeric_19_4_fits v then Inr (- v) else Inl numeric_overflow)"
proof (cases "v = 0")
  case True
  have "show_nat 0 = ''0''" by code_simp
  then have "pg_numeric_text 0 = ''0.0000''"
    by (simp add: pg_numeric_text_def js_padStart_def numeral_3_eq_3)
  moreover have "pg_numeric_in (CHR ''-'' # ''0.0000'') = Inr 0"
    by (simp add: pg_numeric_in_def pg_decimal_in_def is_digit_def decimal_value_def digit_value_def numeric_19_4_fits_def)
  moreover have "numeric_19_4_fits 0" by (simp add: numeric_19_4_fits_def)
  ultimately show ?thesis using True by simp
next
  case False
  with assms have "CHR ''-'' # pg_numeric_text v = pg_numeric_text (- v)" by (simp add: pg_numeric_text_def)
  moreover have "numeric_19_4_fits (- v) \<longleftrightarrow> numeric_19_4_fits v" by (simp add: numeric_19_4_fits_def)
  ultimately show ?thesis by (simp add: pg_numeric_in_text)
qed

lemma toFixed4_scaled_sign: "0 \<le> x \<Longrightarrow> 0 \<le> toFixed4_scaled x" "x < 0 \<Longrightarrow> toFixed4_scaled x \<le> 0"
  by (simp_all add: toFixed4_scaled_def)

lemma pg_numeric_in_fixed4:
  "pg_numeric_in (js_toFixed4 x) = (if numeric_19_4_fits (toFixed4_scaled x) then Inr (toFixed4_scaled x) else Inl numeric_overflow)"
proof (cases "x < 0")
  case True
  then have "numeric_19_4_fits \<bar>toFixed4_scaled x\<bar> \<longleftrightarrow> numeric_19_4_fits (toFixed4_scaled x)"
    by (simp add: numeric_19_4_fits_def)
  with True toFixed4_scaled_sign(2) [OF True] show ?thesis
    by (simp add: js_toFixed4_def pg_numeric_in_minus)
next
  case False
  with toFixed4_scaled_sign(1) [of x] show ?thesis by (simp add: js_toFixed4_def pg_numeric_in_text)
qed

lemma fixed4_Inr:
  assumes "pg_numeric_in (fixed4_text q) = Inr v"
  obtains x where "q = Finite x" "v = toFixed4_scaled x" "numeric_19_4_fits v"
proof (cases q)
  case (Finite x)
  with assms that show thesis by (auto simp: pg_numeric_in_fixed4 split: if_splits)
qed (use assms in \<open>auto simp: pg_numeric_in_def pg_decimal_in_def Let_def is_digit_def split: if_splits\<close>)

lemma fixed4_minus:
  assumes "0 \<le> x"
  shows "pg_numeric_in (CHR ''-'' # js_toFixed4 x) =
    (if numeric_19_4_fits (toFixed4_scaled x) then Inr (- toFixed4_scaled x) else Inl numeric_overflow)"
  using assms toFixed4_scaled_sign(1) [OF assms] by (simp add: js_toFixed4_def pg_numeric_in_minus)

text \<open>A number the idiom produced is printed with its sign: it is the double of ten-thousandths.\<close>

lemma at_scale_4_form: "at_scale_4 y = Finite x \<Longrightarrow> \<exists>r. x = to_double (of_int r / 10000)"
  by (cases y; cases "Math_round (js_times_1e4 y)")
     (auto simp: at_scale_4_def js_num_def split: if_splits)

lemma scaled_double_near: "\<bar>to_double (of_int r / 10000) * 10000 - of_int r\<bar> \<le> \<bar>of_int r\<bar> / 4 + 1 / 4"
proof -
  have "\<bar>to_double (of_int r / 10000) * 10000 - of_int r\<bar> \<le> \<bar>of_int r\<bar> / 2 ^ 53 + 10000 / 2 ^ 60"
    by (rule amount_times_error)
  moreover have "\<bar>of_int r :: rat\<bar> / 2 ^ 53 \<le> \<bar>of_int r\<bar> / 4" by (intro divide_left_mono) auto
  ultimately show ?thesis by simp
qed

lemma toFixed4_at_scale_sign:
  assumes "at_scale_4 y = Finite x"
  shows "0 < x \<Longrightarrow> 0 < toFixed4_scaled x" and "x < 0 \<Longrightarrow> toFixed4_scaled x < 0"
proof -
  obtain r where r: "x = to_double (of_int r / 10000)" using at_scale_4_form [OF assms] by blast
  have near: "\<bar>x * 10000 - of_int r\<bar> \<le> \<bar>of_int r\<bar> / 4 + 1 / 4" unfolding r by (rule scaled_double_near)
  have "r = 0 \<or> 1 / 2 ^ 58 < \<bar>of_int r / 10000 :: rat\<bar>"
  proof (cases "r = 0")
    case False
    then have "1 \<le> \<bar>of_int r :: rat\<bar>" by linarith
    then show ?thesis by (simp add: abs_divide)
  qed simp
  then have sgn: "0 < x \<longleftrightarrow> 0 < r" "x < 0 \<longleftrightarrow> r < 0"
    using to_double_sign [of "of_int r / 10000"] by (auto simp: r zero_less_divide_iff divide_less_0_iff)
  show "0 < toFixed4_scaled x" if "0 < x"
  proof -
    have "1 \<le> (of_int r :: rat)" using sgn that by simp
    with near have "1 \<le> x * 10000 + 1 / 2" by linarith
    then have "1 \<le> \<lfloor>x * 10000 + 1 / 2\<rfloor>" by linarith
    with that show ?thesis by (simp add: toFixed4_scaled_def)
  qed
  show "toFixed4_scaled x < 0" if "x < 0"
  proof -
    have "(of_int r :: rat) \<le> - 1" using sgn that by linarith
    with near have "1 \<le> - x * 10000 + 1 / 2" by linarith
    then have "1 \<le> \<lfloor>- x * 10000 + 1 / 2\<rfloor>" by linarith
    with that show ?thesis by (simp add: toFixed4_scaled_def)
  qed
qed

text \<open>A quantity at the scale, read from a text of the wire shape: its sign is that of the column's value.\<close>

lemma quantity_sign:
  assumes "signed_amount q" and "quantity_at_scale q = Some y" and "y \<noteq> Finite 0" and "pg_numeric_in q = Inr v"
  shows "v \<noteq> 0" and "js_less_0 y \<longleftrightarrow> v < 0" and "js_greater_0 y \<longleftrightarrow> 0 < v"
proof -
  obtain w where w: "pg_numeric_in q = Inr w" "js_Number q = js_num (of_int w / 10000)" "\<bar>w\<bar> < 10 ^ 19"
    using assms(1) by (rule signed_amount_value)
  with assms(4) have v: "w = v" by simp
  have y: "y = at_scale_4 (js_num (of_int v / 10000))"
    using assms(2) w v by (auto simp: quantity_at_scale_def Let_def split: if_splits)
  show v0: "v \<noteq> 0"
  proof
    assume "v = 0"
    moreover have "js_num 0 = Finite 0" by (simp add: js_num_def)
    ultimately have "y = Finite 0" using at_scale_4_amount [of 0] by (simp add: y)
    with assms(3) show False by simp
  qed
  have b: "\<bar>v\<bar> < 10 ^ 19" using w(3) v by simp
  obtain x where "at_scale_4 (js_num (of_int v / 10000)) = Finite x" "x > 0 \<longleftrightarrow> v > 0" "x < 0 \<longleftrightarrow> v < 0"
    using at_scale_4_sign [OF v0 b] by blast
  then show "js_less_0 y \<longleftrightarrow> v < 0" "js_greater_0 y \<longleftrightarrow> 0 < v" by (simp_all add: y)
qed

end
