(* ===== verification/InventoryLedger.thy ===== *)
theory InventoryLedger
  imports InventoryFacts StockNumbers Lifecycle
begin

text \<open>
  What the stock ledger promises: its tables are the projection of a journal of entries, each an
  atomic fact (a movement, a transfer, a count) with its audit row and its outbox event. Every
  operation posts entries of its tenant and changes nothing else. The table invariants (keys, one
  unit per product and store, provenance, count links) are kept beside it.
\<close>

section \<open>The journal\<close>

datatype entry =
    Movement_entry movement audit_event outbox_event
  | Transfer_entry movement movement audit_event outbox_event
  | Count_entry stock_count "(movement \<times> outbox_event) option" audit_event

fun entry_movements :: "entry \<Rightarrow> movement list" where
  "entry_movements (Movement_entry m a e) = [m]"
| "entry_movements (Transfer_entry m n a e) = [m, n]"
| "entry_movements (Count_entry k x a) = (case x of None \<Rightarrow> [] | Some (m, e) \<Rightarrow> [m])"

fun entry_counts :: "entry \<Rightarrow> stock_count list" where
  "entry_counts (Count_entry k x a) = [k]"
| "entry_counts _ = []"

fun entry_audit :: "entry \<Rightarrow> audit_event" where
  "entry_audit (Movement_entry m a e) = a"
| "entry_audit (Transfer_entry m n a e) = a"
| "entry_audit (Count_entry k x a) = a"

fun entry_events :: "entry \<Rightarrow> outbox_event list" where
  "entry_events (Movement_entry m a e) = [e]"
| "entry_events (Transfer_entry m n a e) = [e]"
| "entry_events (Count_entry k x a) = (case x of None \<Rightarrow> [] | Some (m, e) \<Rightarrow> [e])"

text \<open>The tables as the projection of a journal.\<close>

definition post :: "entry list \<Rightarrow> inv_db \<Rightarrow> inv_db" where
  "post es s = inv_append s (concat (map entry_movements es)) (concat (map entry_counts es))
     (map entry_audit es) (concat (map entry_events es))"

text \<open>An event that announces exactly these movements to the consumers of the tenant.\<close>

definition announces :: "outbox_event \<Rightarrow> uuid \<Rightarrow> uuid list \<Rightarrow> bool" where
  "announces e t ids \<longleftrightarrow> evType e = ''inventory.movement.created'' \<and> evTenant e = t \<and> evState e = Ev_pending \<and>
     prefix (''{'' @ json_quote ''movementIds'' @ '':'' @ json_text (J_array (map J_uuid ids)) @ '','') (evPayload e)"

text \<open>The sign of a quantity, by the type of its movement.\<close>

fun sign_ok :: "movement_type \<Rightarrow> money \<Rightarrow> bool" where
  "sign_ok Inbound v = (v > 0)"
| "sign_ok Outbound v = (v \<le> 0)"
| "sign_ok Adjustment v = (v \<noteq> 0)"
| "sign_ok Transfer_out v = (v < 0)"
| "sign_ok Transfer_in v = (v > 0)"
| "sign_ok Count_correction v = (v \<noteq> 0)"

definition movement_ok :: "uuid \<Rightarrow> movement \<Rightarrow> bool" where
  "movement_ok t m \<longleftrightarrow> mvTenant m = t \<and> sign_ok (mvType m) (mvQty m) \<and>
     (mvGroup m \<noteq> None \<longleftrightarrow> mvType m \<in> {Transfer_out, Transfer_in}) \<and>
     (mvCount m \<noteq> None \<longleftrightarrow> mvType m = Count_correction)"

fun entry_ok :: "uuid \<Rightarrow> entry \<Rightarrow> bool" where
  "entry_ok t (Movement_entry m a e) \<longleftrightarrow>
     movement_ok t m \<and> mvGroup m = None \<and> mvCount m = None \<and>
     auTenant a = Some t \<and> auTarget a = Some (mvId m) \<and> announces e t [mvId m]"
| "entry_ok t (Transfer_entry m n a e) \<longleftrightarrow>
     movement_ok t m \<and> movement_ok t n \<and> mvType m = Transfer_out \<and> mvType n = Transfer_in \<and>
     mvQty m = - mvQty n \<and> mvProduct m = mvProduct n \<and> mvUnit m = mvUnit n \<and> mvStore m \<noteq> mvStore n \<and>
     mvGroup m = mvGroup n \<and> mvGroup m = auTarget a \<and> auTenant a = Some t \<and> announces e t [mvId m, mvId n]"
| "entry_ok t (Count_entry k x a) \<longleftrightarrow>
     ctTenant k = t \<and> auTenant a = Some t \<and> auTarget a = Some (ctId k) \<and>
     (case x of None \<Rightarrow> True
      | Some (m, e) \<Rightarrow> movement_ok t m \<and> mvCount m = Some (ctId k) \<and> mvStore m = ctStore k \<and>
          mvProduct m = ctProduct k \<and> announces e t [mvId m])"

definition posts :: "uuid \<Rightarrow> nat \<Rightarrow> inv_db \<Rightarrow> inv_db \<Rightarrow> bool" where
  "posts t n db db' \<longleftrightarrow> (\<exists>es. list_all (entry_ok t) es \<and> length es \<le> n \<and> db' = post es db)"

lemma post_Nil [simp]: "post [] s = s"
  by (simp add: post_def)

lemma post_post [simp]: "post fs (post es s) = post (es @ fs) s"
  by (simp add: post_def)

lemma posts_refl [simp]: "posts t n s s"
  unfolding posts_def by (intro exI [of _ "[]"]) simp

lemma posts_one: "entry_ok t e \<Longrightarrow> posts t (Suc n) s (post [e] s)"
  unfolding posts_def by (intro exI [of _ "[e]"]) simp

lemma posts_trans: "posts t n s s' \<Longrightarrow> posts t m s' s'' \<Longrightarrow> posts t (n + m) s s''"
  unfolding posts_def by (metis add_mono length_append list_all_append post_post)

lemma posts_mono: "posts t n s s' \<Longrightarrow> n \<le> m \<Longrightarrow> posts t m s s'"
  unfolding posts_def using order_trans by blast

lemma post_single:
  "post [Movement_entry m a e] s = inv_append s [m] [] [a] [e]"
  "post [Transfer_entry m n a e] s = inv_append s [m, n] [] [a] [e]"
  "post [Count_entry k None a] s = inv_append s [] [k] [a] []"
  "post [Count_entry k (Some (m, e)) a] s = inv_append s [m] [k] [a] [e]"
  by (simp_all add: post_def)

lemma movement_event_announces [simp]:
  "mcTenant inp = t \<Longrightarrow> mcIds inp = ids \<Longrightarrow> announces (movement_event i now inp) t ids"
  by (auto simp: announces_def movement_event_def pending_event_def movement_payload_def)

lemma audit_row_sel [simp]:
  "auTenant (audit_row i u t ac tt x meta) = Some t" "auTarget (audit_row i u t ac tt x meta) = Some x"
  "auId (audit_row i u t ac tt x meta) = i" "auActor (audit_row i u t ac tt x meta) = Some u"
  by (simp_all add: audit_row_def)

text \<open>A write posts what its unit of work posts.\<close>

lemma run_write_posts:
  assumes "\<And>r db'. rejected = None \<Longrightarrow> succeeds (work (tenant_ctx t)) (invDb s) r db' \<Longrightarrow> P (invDb s) db'"
    and "P (invDb s) (invDb s)"
  shows "P (invDb s) (invDb (snd (run_write t rejected work s)))"
proof (cases rejected)
  case None
  show ?thesis
  proof (cases "as_work (work (tenant_ctx t)) (invDb s)")
    case (Returns r db')
    then have "P (invDb s) db'" using assms(1) [OF None] by (simp add: as_work_Returns)
    with Returns None show ?thesis by (simp add: run_write_def runWithTenantContext_def split: prod.splits)
  qed (use None assms(2) in \<open>auto simp: run_write_def runWithTenantContext_def split: prod.splits\<close>)
qed (simp add: run_write_def assms(2))

section \<open>What the operations post\<close>

lemma movement_input_sign:
  assumes "movement_input_error inp = None" and "signed_amount (cmQuantity inp)"
    and "pg_numeric_in (cmQuantity inp) = Inr v"
  shows "sign_ok (cmType inp) v" and "cmType inp \<in> {Inbound, Outbound, Adjustment}" and "v \<noteq> 0"
proof -
  obtain y where y: "quantity_at_scale (cmQuantity inp) = Some y" "y \<noteq> Finite 0"
      "cmType inp = Inbound \<longrightarrow> \<not> js_less_0 y" "cmType inp = Outbound \<longrightarrow> \<not> js_greater_0 y"
    using assms(1) by (auto simp: movement_input_error_def split: if_splits option.splits)
  show t: "cmType inp \<in> {Inbound, Outbound, Adjustment}"
    using assms(1) by (auto simp: movement_input_error_def MANUAL_MOVEMENT_TYPES_def split: if_splits)
  note q = quantity_sign [OF assms(2) y(1,2) assms(3)]
  show "v \<noteq> 0" by (rule q(1))
  show "sign_ok (cmType inp) v" using t y(3,4) q by auto
qed

lemma createStockMovement_posts:
  assumes "signed_amount (cmQuantity inp)"
  shows "posts (cmTenant inp) 1 (invDb s) (invDb (snd (createStockMovement inp ids now s)))"
  unfolding createStockMovement_def
proof (rule run_write_posts)
  fix r db'
  assume ok: "movement_input_error inp = None"
    and run: "succeeds (createStockMovement_work inp ids now (tenant_ctx (cmTenant inp))) (invDb s) r db'"
  from run obtain v where v: "pg_numeric_in (cmQuantity inp) = Inr v"
    and db': "db' = inv_append (invDb s) [manual_row inp ids now v] [] [manual_audit inp ids] [manual_event inp ids now]"
    unfolding createStockMovement_succeeds by blast
  have "entry_ok (cmTenant inp) (Movement_entry (manual_row inp ids now v) (manual_audit inp ids) (manual_event inp ids now))"
    using movement_input_sign [OF ok assms v]
    by (auto simp: movement_ok_def manual_audit_def manual_event_def)
  from posts_one [OF this] show "posts (cmTenant inp) 1 (invDb s) db'" by (simp add: db' post_single)
qed simp

text \<open>The two quantities of a transfer: opposite, and the destination's positive.\<close>

lemma transfer_quantities:
  assumes "transfer_input_error inp = None"
    and "pg_numeric_in (''-'' @ fixed4_text (transfer_quantity inp)) = Inr v"
    and "pg_numeric_in (fixed4_text (transfer_quantity inp)) = Inr w"
  shows "v = - w" and "0 < w" and "xfSource inp \<noteq> xfDestination inp"
proof -
  obtain y where y: "quantity_at_scale (xfQuantity inp) = Some y" "y \<noteq> Finite 0" "\<not> js_less_0 y"
    using assms(1) by (auto simp: transfer_input_error_def split: if_splits option.splits)
  then have q: "transfer_quantity inp = y" by (simp add: transfer_quantity_def)
  obtain x where x: "y = Finite x" "w = toFixed4_scaled x" using fixed4_Inr [OF assms(3)] q by metis
  with y have pos: "0 < x" by auto
  have "at_scale_4 (js_Number (xfQuantity inp)) = Finite x"
    using y(1) x by (auto simp: quantity_at_scale_def Let_def split: if_splits)
  from toFixed4_at_scale_sign(1) [OF this pos] x show "0 < w" by simp
  show "v = - w" using assms(2) fixed4_minus [of x] pos q x by (auto split: if_splits)
  show "xfSource inp \<noteq> xfDestination inp" using assms(1) by (auto simp: transfer_input_error_def split: if_splits)
qed

lemma createStockTransfer_posts:
  "posts (xfTenant inp) 1 (invDb s) (invDb (snd (createStockTransfer inp ids now s)))"
  unfolding createStockTransfer_def
proof (rule run_write_posts)
  fix r db'
  assume ok: "transfer_input_error inp = None"
    and run: "succeeds (createStockTransfer_work inp ids now (tenant_ctx (xfTenant inp))) (invDb s) r db'"
  from run obtain v w where v: "pg_numeric_in (''-'' @ fixed4_text (transfer_quantity inp)) = Inr v"
      "pg_numeric_in (fixed4_text (transfer_quantity inp)) = Inr w"
    and db': "db' = inv_append (invDb s) [transfer_out inp ids now v, transfer_in inp ids now w] []
      [transfer_audit inp ids] [transfer_event inp ids now]"
    unfolding createStockTransfer_succeeds by blast
  have "entry_ok (xfTenant inp) (Transfer_entry (transfer_out inp ids now v) (transfer_in inp ids now w)
      (transfer_audit inp ids) (transfer_event inp ids now))"
    using transfer_quantities [OF ok v]
    by (auto simp: movement_ok_def transfer_out_def transfer_in_def transfer_audit_def transfer_event_def)
  from posts_one [OF this] show "posts (xfTenant inp) 1 (invDb s) db'" by (simp add: db' post_single)
qed simp

lemma at_scale_4_nonzero:
  assumes "pg_numeric_in (fixed4_text (at_scale_4 y)) = Inr v" and "at_scale_4 y \<noteq> Finite 0"
  shows "v \<noteq> 0"
proof -
  obtain x where x: "at_scale_4 y = Finite x" "v = toFixed4_scaled x" using fixed4_Inr [OF assms(1)] by metis
  with assms(2) have "0 < x \<or> x < 0" by auto
  with toFixed4_at_scale_sign [OF x(1)] x(2) show ?thesis by auto
qed

lemma recordStockCount_posts:
  "posts (rkTenant inp) 1 (invDb s) (invDb (snd (recordStockCount inp ids now s)))"
  unfolding recordStockCount_def
proof (rule run_write_posts)
  fix r db'
  assume run: "succeeds (recordStockCount_work inp ids now (tenant_ctx (rkTenant inp))) (invDb s) r db'"
  define var where "var = count_variance inp (on_hand (tenant_ctx (rkTenant inp)) (rkStore inp) (rkProduct inp) (invDb s))"
  show "posts (rkTenant inp) 1 (invDb s) db'"
  proof (cases "var = Finite 0")
    case True
    with run obtain k d where
      db': "db' = inv_append (invDb s) [] [count_row inp ids now k d] [count_audit inp ids var] []"
      unfolding recordStockCount_succeeds [OF var_def] by auto
    have "entry_ok (rkTenant inp) (Count_entry (count_row inp ids now k d) None (count_audit inp ids var))"
      by (simp add: count_audit_def)
    from posts_one [OF this] show ?thesis by (simp add: db' post_single)
  next
    case False
    with run obtain k d v where v: "pg_numeric_in (fixed4_text var) = Inr v"
      and db': "db' = inv_append (invDb s) [correction_row inp ids now v] [count_row inp ids now k d]
        [count_audit inp ids var] [count_event inp ids now]"
      unfolding recordStockCount_succeeds [OF var_def] by auto
    have "v \<noteq> 0" using at_scale_4_nonzero v False by (simp add: var_def count_variance_def)
    then have "entry_ok (rkTenant inp) (Count_entry (count_row inp ids now k d)
        (Some (correction_row inp ids now v, count_event inp ids now)) (count_audit inp ids var))"
      by (simp add: count_audit_def count_event_def movement_ok_def)
    from posts_one [OF this] show ?thesis by (simp add: db' post_single)
  qed
qed simp

lemma backfill_input_sign:
  assumes "backfill_input_error ty inp = None" and "ty \<in> {Inbound, Outbound}" and "signed_amount (bfQuantity inp)"
    and "pg_numeric_in (bfQuantity inp) = Inr v"
  shows "sign_ok ty v"
proof -
  obtain y where y: "quantity_at_scale (bfQuantity inp) = Some y" "y \<noteq> Finite 0"
      "if ty = Outbound then \<not> js_greater_0 y else \<not> js_less_0 y"
    using assms(1) by (auto simp: backfill_input_error_def split: if_splits option.splits)
  from quantity_sign [OF assms(3) y(1,2) assms(4)] y(3) assms(2) show ?thesis by auto
qed

lemma backfill_posts:
  assumes "ty \<in> {Inbound, Outbound}" and "signed_amount (bfQuantity inp)"
  shows "posts (bfTenant inp) 1 (invDb s)
    (invDb (snd (run_write (bfTenant inp) (backfill_input_error ty inp) (backfill_work ty inp ids now) s)))"
proof (rule run_write_posts)
  fix r db'
  assume ok: "backfill_input_error ty inp = None"
    and run: "succeeds (backfill_work ty inp ids now (tenant_ctx (bfTenant inp))) (invDb s) r db'"
  from run consider "db' = invDb s" | v where "pg_numeric_in (bfQuantity inp) = Inr v"
      "db' = inv_append (invDb s) [backfill_row ty inp ids now v] [] [backfill_audit ty inp ids] [backfill_event ty inp ids now]"
    unfolding backfill_succeeds by blast
  then show "posts (bfTenant inp) 1 (invDb s) db'"
  proof cases
    case 2
    have "entry_ok (bfTenant inp) (Movement_entry (backfill_row ty inp ids now v) (backfill_audit ty inp ids)
        (backfill_event ty inp ids now))"
      using backfill_input_sign [OF ok assms 2(1)] assms(1)
      by (auto simp: movement_ok_def backfill_audit_def backfill_event_def)
    from posts_one [OF this] show ?thesis by (simp add: 2 post_single)
  qed simp
qed simp

text \<open>The check constraint of the sale lines: no negative quantity.\<close>

definition sale_lines_ok :: "inv_db \<Rightarrow> bool" where
  "sale_lines_ok s \<longleftrightarrow> list_all (\<lambda>l. 0 \<le> slQuantity l) (saleLines s)"

lemma saleLines_post [simp]: "saleLines (post es s) = saleLines s"
  by (simp add: post_def)

lemma outbound_quantity_sign: "0 \<le> q \<Longrightarrow> outbound_quantity q \<le> 0"
  by (auto simp: outbound_quantity_def sgn_if)

lemma stays_aborted_backfill_lines [simp]: "stays_aborted (backfill_lines job ids k now c ls n)"
  by (induction job ids k now c ls n rule: backfill_lines.induct) auto

text \<open>The loop over the lines: it counts each line once, as appended or as already there.\<close>

lemma backfill_lines_posts:
  assumes "succeeds (backfill_lines job ids k now c ls (a, d)) s r s'" and "c = tenant_ctx (bjTenant job)"
    and "\<forall>l \<in> set ls. 0 \<le> slQuantity l"
  shows "\<exists>es. list_all (entry_ok (bjTenant job)) es \<and> s' = post es s \<and> fst r = a + length es \<and>
    fst r + snd r = a + d + length ls"
  using assms(1,3)
proof (induction ls arbitrary: k a d s)
  case Nil
  then show ?case by (intro exI [of _ "[]"]) (simp add: succeeds_return)
next
  case (Cons line ls)
  from Cons.prems(1) obtain fresh s1 where one: "succeeds (backfill_line job ids k now c line) s fresh s1"
    and rest: "succeeds (backfill_lines job ids (Suc k) now c ls (if fresh then (a + 1, d) else (a, d + 1))) s1 r s'"
    by (auto simp: succeeds_bind)
  show ?case
  proof (cases fresh)
    case False
    with one have "s1 = s" by (simp add: backfill_line_succeeds)
    with Cons.IH [of "Suc k" a "d + 1" s] rest False Cons.prems(2) show ?thesis by simp
  next
    case True
    let ?m = "line_row job (ids (3 * k)) now line" and ?a = "line_audit job (ids (3 * k + 1)) (ids (3 * k)) line"
    let ?e = "line_event job (ids (3 * k + 2)) (ids (3 * k)) now line"
    have s1: "s1 = post [Movement_entry ?m ?a ?e] s" using one True by (simp add: backfill_line_succeeds post_single)
    have ok: "entry_ok (bjTenant job) (Movement_entry ?m ?a ?e)"
      using Cons.prems(2) by (simp add: movement_ok_def line_audit_def line_event_def outbound_quantity_sign)
    from Cons.IH [of "Suc k" "a + 1" d s1] rest True Cons.prems(2) obtain es where
      es: "list_all (entry_ok (bjTenant job)) es" "s' = post es s1" "fst r = a + 1 + length es"
        "fst r + snd r = a + 1 + d + length ls" by auto
    show ?thesis using es ok s1 by (intro exI [of _ "Movement_entry ?m ?a ?e # es"]) simp
  qed
qed

lemma captured_lines_subset: "set (captured_lines c job s) \<subseteq> set (saleLines s)"
  by (auto simp: captured_lines_def)

lemma backfill_process_work_succeeds:
  "succeeds (backfill_process_work job ids now c) s r s' \<longleftrightarrow>
    sale_captured c job s \<and> length (captured_lines c job s) \<le> MAX_BACKFILL_MOVEMENTS \<and>
    (\<exists>n. succeeds (backfill_lines job ids 0 now c (captured_lines c job s) (0, 0)) s n s' \<and>
      r = (\<lparr>brSale = bjSale job, brAppended = fst n, brDeduped = snd n, brApplied = fst n > 0\<rparr>, False))"
  unfolding backfill_process_work_def
  by (cases r) (auto simp: succeeds_bind_select succeeds_guard succeeds_bind succeeds_return not_less split: prod.splits)

lemma backfill_process_posts:
  assumes "sale_lines_ok (invDb s)"
  shows "posts (bjTenant job) MAX_BACKFILL_MOVEMENTS (invDb s) (invDb (snd (backfill_process job ids now s)))"
  unfolding backfill_process_def
proof (rule run_write_posts)
  fix r db'
  let ?c = "tenant_ctx (bjTenant job)"
  assume "succeeds (backfill_process_work job ids now ?c) (invDb s) r db'"
  then obtain n where n: "length (captured_lines ?c job (invDb s)) \<le> MAX_BACKFILL_MOVEMENTS"
      "succeeds (backfill_lines job ids 0 now ?c (captured_lines ?c job (invDb s)) (0, 0)) (invDb s) n db'"
    unfolding backfill_process_work_succeeds by blast
  have "\<forall>l \<in> set (captured_lines ?c job (invDb s)). 0 \<le> slQuantity l"
    using assms captured_lines_subset by (fastforce simp: sale_lines_ok_def list_all_iff)
  from backfill_lines_posts [OF n(2) refl this] n(1)
  show "posts (bjTenant job) MAX_BACKFILL_MOVEMENTS (invDb s) db'" unfolding posts_def by (metis le_add1 order_trans add_0)
qed simp

section \<open>One step of the machine\<close>

text \<open>The documented shape of the quantity of an off-request command: a plain signed decimal.\<close>

fun op_decimal :: "inv_op \<Rightarrow> bool" where
  "op_decimal (Backfill_sale inp ids now) = signed_amount (bfQuantity inp)"
| "op_decimal (Backfill_restock inp ids now) = signed_amount (bfQuantity inp)"
| "op_decimal _ = True"

lemma requireContext_tenant: "requireContext req = Inr (t, u, scope) \<Longrightarrow> context_tenant req = Some t"
  by (auto simp: requireContext_def context_tenant_def split: option.splits)

lemma requireContext_none: "context_tenant req = None \<Longrightarrow> \<exists>e. requireContext req = Inl e"
  by (auto simp: requireContext_def context_tenant_def split: option.splits)

lemma inv_step_posts:
  assumes "sale_lines_ok (invDb s)" and "op_decimal op" and "inv_op_tenant op = Some t"
  shows "posts t MAX_BACKFILL_MOVEMENTS (invDb s) (invDb (inv_step op s))"
proof -
  have le: "posts u 1 x y \<Longrightarrow> posts u MAX_BACKFILL_MOVEMENTS x y" for u x y
    by (erule posts_mono) (simp add: MAX_BACKFILL_MOVEMENTS_def)
  show ?thesis
  proof (cases op)
    case (Post_movement req st b ids now)
    then show ?thesis using assms(3)
      by (auto simp: createStockMovement_route_def created_def CreateStockMovementSchema_def dest!: requireContext_tenant
          intro!: le createStockMovement_posts [of "\<lparr>cmTenant = t, cmStore = _, cmUser = _, cmType = _, cmQuantity = _,
            cmUnit = _, cmProduct = _, cmReason = _, cmOccurred = _, cmSale = _, cmSaleLine = _, cmTerminal = _\<rparr>", simplified]
          split: option.splits sum.splits)
  next
    case (Post_transfer req b ids now)
    then show ?thesis using assms(3)
      by (auto simp: createStockTransfer_route_def created_def dest!: requireContext_tenant
          intro!: le createStockTransfer_posts [of "\<lparr>xfTenant = t, xfUser = _, xfSource = _, xfDestination = _,
            xfProduct = _, xfQuantity = _, xfUnit = _, xfReason = _\<rparr>", simplified]
          split: option.splits sum.splits)
  next
    case (Post_count req st b ids now)
    then show ?thesis using assms(3)
      by (auto simp: recordStockCount_route_def created_def dest!: requireContext_tenant
          intro!: le recordStockCount_posts [of "\<lparr>rkTenant = t, rkStore = _, rkUser = _, rkProduct = _, rkCounted = _,
            rkUnit = _, rkAt = _\<rparr>", simplified]
          split: option.splits sum.splits)
  next
    case (Backfill_sale inp ids now)
    then show ?thesis
      using assms(2,3) le [OF backfill_posts [of Outbound inp s ids now]] by (auto simp: backfillSaleLinkedOutbound_def)
  next
    case (Backfill_restock inp ids now)
    then show ?thesis
      using assms(2,3) le [OF backfill_posts [of Inbound inp s ids now]] by (auto simp: backfillRestockInbound_def)
  next
    case (Backfill_job job ids now)
    then show ?thesis using assms(1,3) backfill_process_posts by auto
  qed
qed

lemma inv_step_no_tenant:
  assumes "inv_op_tenant op = None"
  shows "inv_step op s = s"
  using assms
  by (cases op)
     (auto simp: createStockMovement_route_def createStockTransfer_route_def recordStockCount_route_def
       dest!: requireContext_none split: option.splits)

section \<open>The invariant of the tables\<close>

text \<open>
  Keys are unique, a product has one unit at a store, a provenance pair occurs once in a tenant,
  and every reference of a movement leads to a row.
\<close>

definition provenance_key :: "movement \<Rightarrow> uuid \<times> string option \<times> string option" where
  "provenance_key m = (mvTenant m, mvSource m, mvExternal m)"

definition movements_ok :: "inv_db \<Rightarrow> bool" where
  "movements_ok s \<longleftrightarrow>
     distinct (map mvId (movements s)) \<and>
     distinct (map provenance_key (filter (\<lambda>m. mvSource m \<noteq> None) (movements s))) \<and>
     (\<forall>m \<in> set (movements s). \<not> unit_excluded m s \<and> mvStore m \<in> fst ` set (storeRows s) \<and>
        (mvSource m = None \<longleftrightarrow> mvExternal m = None) \<and>
        (\<forall>k. mvCount m = Some k \<longrightarrow> (\<exists>x \<in> set (counts s). ctId x = k \<and> ctTenant x = mvTenant m \<and> ctStore x = mvStore m)))"

definition tables_ok :: "inv_db \<Rightarrow> bool" where
  "tables_ok s \<longleftrightarrow> movements_ok s \<and> distinct (map ctId (counts s)) \<and> distinct (map auId (audits s)) \<and>
     distinct (map evId (outbox s))"

lemma unit_excluded_append [simp]:
  "unit_excluded m (inv_append s ms ks as es) \<longleftrightarrow>
     unit_excluded m s \<or> mvProduct m \<noteq> None \<and>
       list_ex (\<lambda>x. mvStore x = mvStore m \<and> mvProduct x = mvProduct m \<and> mvUnit x \<noteq> mvUnit m) ms"
  by (auto simp: unit_excluded_def)

lemma movement_new_facts:
  assumes "movement_new c m s"
  shows "mvId m \<notin> mvId ` set (movements s)" "\<not> provenance_taken m s" "\<not> unit_excluded m s"
    "mvStore m \<in> fst ` set (storeRows s)" "mvSource m = None \<longleftrightarrow> mvExternal m = None" "rls_tenant c (mvTenant m)"
    "\<And>k. mvCount m = Some k \<Longrightarrow> \<exists>x \<in> set (counts s). ctId x = k \<and> ctTenant x = mvTenant m \<and> ctStore x = mvStore m"
proof -
  note new = assms [unfolded movement_new_def movement_row_checks_def movement_key_checks_def sql_check_None]
  then show "mvId m \<notin> mvId ` set (movements s)" "\<not> provenance_taken m s" "\<not> unit_excluded m s"
    "mvStore m \<in> fst ` set (storeRows s)" "mvSource m = None \<longleftrightarrow> mvExternal m = None" "rls_tenant c (mvTenant m)"
    by - (elim conjE, assumption)+
  from new have "case mvCount m of None \<Rightarrow> True
      | Some k \<Rightarrow> (k, mvTenant m, mvStore m) \<in> (\<lambda>x. (ctId x, ctTenant x, ctStore x)) ` set (counts s)"
    by - (elim conjE, assumption)
  then show "\<exists>x \<in> set (counts s). ctId x = k \<and> ctTenant x = mvTenant m \<and> ctStore x = mvStore m"
    if "mvCount m = Some k" for k using that by auto
qed

lemma provenance_fresh:
  "\<not> provenance_taken m s \<Longrightarrow> mvSource m \<noteq> None \<Longrightarrow> mvExternal m \<noteq> None \<Longrightarrow>
   provenance_key m \<notin> provenance_key ` set (movements s)"
  by (auto simp: provenance_taken_def provenance_key_def)

lemma movements_ok_append:
  assumes "movements_ok s" and "movement_new c m s"
  shows "movements_ok (inv_append s [m] [] [] [])"
proof -
  note new = movement_new_facts [OF assms(2)]
  have keys: "distinct (map mvId (movements s @ [m]))" using assms(1) new(1) by (auto simp: movements_ok_def)
  have prov: "distinct (map provenance_key (filter (\<lambda>m. mvSource m \<noteq> None) (movements s @ [m])))"
    using assms(1) provenance_fresh [OF new(2)] new(5) by (auto simp: movements_ok_def)
  have unit: "\<not> unit_excluded x (inv_append s [m] [] [] [])" if "x \<in> set (movements s @ [m])" for x
  proof (cases "x = m")
    case False
    with that have x: "x \<in> set (movements s)" "\<not> unit_excluded x s" using assms(1) by (simp_all add: movements_ok_def)
    have "\<not> (mvProduct x \<noteq> None \<and> mvStore m = mvStore x \<and> mvProduct m = mvProduct x \<and> mvUnit m \<noteq> mvUnit x)"
    proof
      assume clash: "mvProduct x \<noteq> None \<and> mvStore m = mvStore x \<and> mvProduct m = mvProduct x \<and> mvUnit m \<noteq> mvUnit x"
      then have "unit_excluded m s"
        unfolding unit_excluded_def list_ex_iff by (intro conjI bexI [OF _ x(1)]) auto
      with new(3) show False ..
    qed
    with x(2) show ?thesis by simp
  qed (use new(3) in simp)
  show ?thesis
    using assms(1) keys prov unit new(4,5,7) unfolding movements_ok_def by (simp del: unit_excluded_append)
qed

lemma tables_ok_movement: "tables_ok s \<Longrightarrow> movement_new c m s \<Longrightarrow> tables_ok (inv_append s [m] [] [] [])"
  by (simp add: tables_ok_def movements_ok_append)

lemma movements_ok_others: "movements_ok s \<Longrightarrow> movements_ok (inv_append s [] ks as es)"
  by (auto simp: movements_ok_def)

lemma tables_ok_count: "tables_ok s \<Longrightarrow> count_new c k s \<Longrightarrow> tables_ok (inv_append s [] [k] [] [])"
  by (simp add: tables_ok_def movements_ok_others count_new_def)

lemma tables_ok_records:
  "tables_ok s \<Longrightarrow> audit_new c a s \<Longrightarrow> evId e \<notin> evId ` set (outbox s) \<Longrightarrow> tables_ok (inv_append s [] [] [a] [e])"
  "tables_ok s \<Longrightarrow> audit_new c a s \<Longrightarrow> tables_ok (inv_append s [] [] [a] [])"
  by (simp_all add: tables_ok_def movements_ok_others audit_new_def)

text \<open>What a statement sees of the rows the transaction appended before it.\<close>

lemma audit_new_after [simp]: "audit_new c a (inv_append s ms ks [] es) \<longleftrightarrow> audit_new c a s"
  by (simp add: audit_new_def)

lemma evId_movement_event [simp]: "evId (movement_event i now inp) = i"
  by (simp add: movement_event_def pending_event_def)

lemma event_ids [simp]:
  "evId (manual_event cm ids now) = ids 2" "evId (transfer_event xf ids now) = ids 4"
  "evId (count_event rk ids now) = ids 3" "evId (backfill_event ty bf ids now) = ids 2"
  "evId (line_event job i m now line) = i"
  by (simp_all add: manual_event_def transfer_event_def count_event_def backfill_event_def line_event_def)

text \<open>The four shapes of what a transaction appends.\<close>

lemma tables_ok_entry:
  assumes "tables_ok s" and "audit_new c a s" and "evId e \<notin> evId ` set (outbox s)"
  shows "movement_new c m s \<Longrightarrow> tables_ok (inv_append s [m] [] [a] [e])"
    and "movement_new c m s \<Longrightarrow> movement_new c n (inv_append s [m] [] [] []) \<Longrightarrow> tables_ok (inv_append s [m, n] [] [a] [e])"
    and "count_new c k s \<Longrightarrow> movement_new c m (inv_append s [] [k] [] []) \<Longrightarrow> tables_ok (inv_append s [m] [k] [a] [e])"
proof -
  show "tables_ok (inv_append s [m] [] [a] [e])" if "movement_new c m s"
    using tables_ok_records(1) [OF tables_ok_movement [OF assms(1) that], of c a e] assms by simp
  show "tables_ok (inv_append s [m, n] [] [a] [e])"
    if "movement_new c m s" "movement_new c n (inv_append s [m] [] [] [])"
    using tables_ok_records(1) [OF tables_ok_movement [OF tables_ok_movement [OF assms(1) that(1)] that(2)], of c a e] assms
    by simp
  show "tables_ok (inv_append s [m] [k] [a] [e])"
    if "count_new c k s" "movement_new c m (inv_append s [] [k] [] [])"
    using tables_ok_records(1) [OF tables_ok_movement [OF tables_ok_count [OF assms(1) that(1)] that(2)], of c a e] assms
    by simp
qed

lemma tables_ok_count_only:
  "tables_ok s \<Longrightarrow> audit_new c a s \<Longrightarrow> count_new c k s \<Longrightarrow> tables_ok (inv_append s [] [k] [a] [])"
  using tables_ok_records(2) [OF tables_ok_count, of s c k c a] by simp

lemma createStockMovement_tables:
  assumes "succeeds (createStockMovement_work inp ids now c) s r s'" and "tables_ok s"
  shows "tables_ok s'"
  using assms(1) unfolding createStockMovement_succeeds
  by (elim exE conjE) (simp only: tables_ok_entry(1) [OF assms(2)] event_ids not_False_eq_True)

lemma createStockTransfer_tables:
  assumes "succeeds (createStockTransfer_work inp ids now c) s r s'" and "tables_ok s"
  shows "tables_ok s'"
  using assms(1) unfolding createStockTransfer_succeeds
  by (elim exE conjE) (simp only: tables_ok_entry(2) [OF assms(2)] event_ids not_False_eq_True)

lemma recordStockCount_tables:
  assumes "succeeds (recordStockCount_work inp ids now c) s r s'" and "tables_ok s"
  shows "tables_ok s'"
proof -
  define var where "var = count_variance inp (on_hand c (rkStore inp) (rkProduct inp) s)"
  note run = assms(1) [unfolded recordStockCount_succeeds [OF var_def]]
  show ?thesis
  proof (cases "var = Finite 0")
    case True
    with run obtain k d where "count_new c (count_row inp ids now k d) s" "audit_new c (count_audit inp ids var) s"
      "s' = inv_append s [] [count_row inp ids now k d] [count_audit inp ids var] []" by auto
    with assms(2) show ?thesis using tables_ok_count_only by blast
  next
    case False
    with run obtain k d v where "count_new c (count_row inp ids now k d) s" "audit_new c (count_audit inp ids var) s"
      "movement_new c (correction_row inp ids now v) (inv_append s [] [count_row inp ids now k d] [] [])"
      "ids 3 \<notin> evId ` set (outbox s)"
      "s' = inv_append s [correction_row inp ids now v] [count_row inp ids now k d] [count_audit inp ids var]
        [count_event inp ids now]" by auto
    then show ?thesis using tables_ok_entry(3) [OF assms(2)] event_ids by metis
  qed
qed

lemma backfill_tables:
  assumes "succeeds (backfill_work ty inp ids now c) s r s'" and "tables_ok s"
  shows "tables_ok s'"
  using assms(1) unfolding backfill_succeeds
  by (elim exE conjE disjE) (simp_all only: tables_ok_entry(1) [OF assms(2)] event_ids not_False_eq_True assms(2))

lemma backfill_line_tables:
  assumes "succeeds (backfill_line job ids k now c line) s r s'" and "tables_ok s"
  shows "tables_ok s'"
  using assms(1) unfolding backfill_line_succeeds
  by (elim exE conjE disjE) (simp_all only: tables_ok_entry(1) [OF assms(2)] event_ids not_False_eq_True assms(2))

lemma backfill_lines_tables:
  "succeeds (backfill_lines job ids k now c ls n) s r s' \<Longrightarrow> tables_ok s \<Longrightarrow> tables_ok s'"
proof (induction job ids k now c ls n arbitrary: s rule: backfill_lines.induct)
  case (1 job ids k now c n)
  then show ?case by (simp add: succeeds_return)
next
  case (2 job ids k now c line ls a d)
  then show ?case using backfill_line_tables by (simp add: succeeds_bind) blast
qed

lemma backfill_process_tables:
  "succeeds (backfill_process_work job ids now c) s r s' \<Longrightarrow> tables_ok s \<Longrightarrow> tables_ok s'"
  unfolding backfill_process_work_succeeds using backfill_lines_tables by blast

text \<open>So every service operation keeps the invariant.\<close>

lemma run_write_tables:
  assumes "\<And>s r s'. succeeds (work (tenant_ctx t)) s r s' \<Longrightarrow> tables_ok s \<Longrightarrow> tables_ok s'" and "tables_ok (invDb s)"
  shows "tables_ok (invDb (snd (run_write t rejected work s)))"
  using run_write_posts [of rejected work t s "\<lambda>x y. tables_ok x \<longrightarrow> tables_ok y"] assms by blast

lemma service_tables:
  assumes "tables_ok (invDb s)"
  shows "tables_ok (invDb (snd (createStockMovement cm ids now s)))"
    and "tables_ok (invDb (snd (createStockTransfer xf ids now s)))"
    and "tables_ok (invDb (snd (recordStockCount rk ids now s)))"
    and "tables_ok (invDb (snd (backfillSaleLinkedOutbound bf ids now s)))"
    and "tables_ok (invDb (snd (backfillRestockInbound bf ids now s)))"
    and "tables_ok (invDb (snd (backfill_process job ids now s)))"
  unfolding createStockMovement_def createStockTransfer_def recordStockCount_def backfillSaleLinkedOutbound_def
    backfillRestockInbound_def backfill_process_def
  by (rule run_write_tables; (erule (1) createStockMovement_tables createStockTransfer_tables recordStockCount_tables
        backfill_tables backfill_process_tables | rule assms))+

lemma inv_step_tables: "tables_ok (invDb s) \<Longrightarrow> tables_ok (invDb (inv_step op s))"
  by (cases op)
     (auto simp: createStockMovement_route_def createStockTransfer_route_def recordStockCount_route_def created_def
       service_tables split: option.split sum.split)

end
