(* ===== verification/InventoryMachine.thy ===== *)
theory InventoryMachine
  imports InventoryLedger
begin

text \<open>
  The machine of the stock ledger over runs: its four tables are append-only (interface
  \<open>append_table\<close>), and what the on-hand sum of a product is after an operation.
\<close>

section \<open>The tables as append-only tables\<close>

definition ledger_ok :: "inv_svc \<Rightarrow> bool" where
  "ledger_ok s \<longleftrightarrow> tables_ok (invDb s) \<and> sale_lines_ok (invDb s)"

lemma inv_run_fold: "inv_run ops s = fold inv_step ops s"
  by (induction ops s rule: inv_run.induct) auto

lemma inv_step_entries:
  assumes "ledger_ok s" and "op_decimal op"
  obtains es where "invDb (inv_step op s) = post es (invDb s)" "length es \<le> MAX_BACKFILL_MOVEMENTS"
    "\<And>e. e \<in> set es \<Longrightarrow> \<exists>t. inv_op_tenant op = Some t \<and> entry_ok t e"
proof (cases "inv_op_tenant op")
  case None
  then show thesis using that [of "[]"] inv_step_no_tenant by simp
next
  case (Some t)
  from inv_step_posts [OF _ assms(2) Some, of s] assms(1) that show thesis
    by (auto simp: posts_def ledger_ok_def list_all_iff Some)
qed

lemma ledger_ok_step: "ledger_ok s \<Longrightarrow> op_decimal op \<Longrightarrow> ledger_ok (inv_step op s)"
proof -
  assume "ledger_ok s" "op_decimal op"
  moreover from this obtain es where "invDb (inv_step op s) = post es (invDb s)" by (rule inv_step_entries)
  then have "saleLines (invDb (inv_step op s)) = saleLines (invDb s)" by simp
  ultimately show ?thesis by (simp add: ledger_ok_def inv_step_tables sale_lines_ok_def)
qed

lemma post_sel:
  "movements (post es s) = movements s @ concat (map entry_movements es)"
  "counts (post es s) = counts s @ concat (map entry_counts es)"
  "audits (post es s) = audits s @ map entry_audit es"
  "outbox (post es s) = outbox s @ concat (map entry_events es)"
  "capturedSales (post es s) = capturedSales s" "storeRows (post es s) = storeRows s"
  by (simp_all add: post_def)

lemma entry_owner:
  assumes "entry_ok t e"
  shows "m \<in> set (entry_movements e) \<Longrightarrow> mvTenant m = t" "k \<in> set (entry_counts e) \<Longrightarrow> ctTenant k = t"
    "auTenant (entry_audit e) = Some t" "x \<in> set (entry_events e) \<Longrightarrow> evTenant x = t"
  using assms by (cases e; auto simp: movement_ok_def announces_def split: option.splits prod.splits)+

interpretation stock_moves: append_table inv_step inv_op_tenant op_decimal ledger_ok "\<lambda>s. movements (invDb s)" "\<lambda>m. Some (mvTenant m)"
proof
  show "ledger_ok s \<Longrightarrow> op_decimal op \<Longrightarrow> ledger_ok (inv_step op s)" for s op by (rule ledger_ok_step)
  show "\<exists>rs. movements (invDb (inv_step op s)) = movements (invDb s) @ rs \<and> (\<forall>r\<in>set rs. inv_op_tenant op = Some (mvTenant r))"
    if "ledger_ok s" "op_decimal op" for s op
    using that by (rule inv_step_entries) (fastforce simp: post_sel dest: entry_owner(1))
qed

interpretation stock_counts: append_table inv_step inv_op_tenant op_decimal ledger_ok "\<lambda>s. counts (invDb s)" "\<lambda>k. Some (ctTenant k)"
proof
  show "ledger_ok s \<Longrightarrow> op_decimal op \<Longrightarrow> ledger_ok (inv_step op s)" for s op by (rule ledger_ok_step)
  show "\<exists>rs. counts (invDb (inv_step op s)) = counts (invDb s) @ rs \<and> (\<forall>r\<in>set rs. inv_op_tenant op = Some (ctTenant r))"
    if "ledger_ok s" "op_decimal op" for s op
    using that by (rule inv_step_entries) (fastforce simp: post_sel dest: entry_owner(2))
qed

interpretation stock_audits: append_table inv_step inv_op_tenant op_decimal ledger_ok "\<lambda>s. audits (invDb s)" auTenant
proof
  show "ledger_ok s \<Longrightarrow> op_decimal op \<Longrightarrow> ledger_ok (inv_step op s)" for s op by (rule ledger_ok_step)
  show "\<exists>rs. audits (invDb (inv_step op s)) = audits (invDb s) @ rs \<and> (\<forall>r\<in>set rs. inv_op_tenant op = auTenant r)"
    if "ledger_ok s" "op_decimal op" for s op
    using that by (rule inv_step_entries) (fastforce simp: post_sel dest: entry_owner(3))
qed

interpretation stock_events: append_table inv_step inv_op_tenant op_decimal ledger_ok "\<lambda>s. outbox (invDb s)" "\<lambda>e. Some (evTenant e)"
proof
  show "ledger_ok s \<Longrightarrow> op_decimal op \<Longrightarrow> ledger_ok (inv_step op s)" for s op by (rule ledger_ok_step)
  show "\<exists>rs. outbox (invDb (inv_step op s)) = outbox (invDb s) @ rs \<and> (\<forall>r\<in>set rs. inv_op_tenant op = Some (evTenant r))"
    if "ledger_ok s" "op_decimal op" for s op
    using that by (rule inv_step_entries) (fastforce simp: post_sel dest: entry_owner(4))
qed

section \<open>Runs as journals\<close>

lemma inv_run_entries:
  assumes "ledger_ok s" and "list_all op_decimal ops"
  shows "\<exists>es. invDb (inv_run ops s) = post es (invDb s) \<and> length es \<le> length ops * MAX_BACKFILL_MOVEMENTS \<and>
    list_all (\<lambda>e. \<exists>op \<in> set ops. \<exists>t. inv_op_tenant op = Some t \<and> entry_ok t e) es"
  using assms
proof (induction ops arbitrary: s)
  case Nil
  then show ?case by (intro exI [of _ "[]"]) simp
next
  case (Cons op ops)
  then have op: "op_decimal op" and ops: "list_all op_decimal ops" by simp_all
  obtain es where es: "invDb (inv_step op s) = post es (invDb s)" "length es \<le> MAX_BACKFILL_MOVEMENTS"
    "\<And>e. e \<in> set es \<Longrightarrow> \<exists>t. inv_op_tenant op = Some t \<and> entry_ok t e"
    by (rule inv_step_entries [OF Cons.prems(1) op]) blast
  from Cons.IH [OF ledger_ok_step [OF Cons.prems(1) op] ops] obtain fs where
    fs: "invDb (inv_run ops (inv_step op s)) = post fs (invDb (inv_step op s))"
      "length fs \<le> length ops * MAX_BACKFILL_MOVEMENTS"
      "list_all (\<lambda>e. \<exists>op \<in> set ops. \<exists>t. inv_op_tenant op = Some t \<and> entry_ok t e) fs" by blast
  show ?case
    using es fs by (intro exI [of _ "es @ fs"]) (auto simp: list_all_iff)
qed

section \<open>The on-hand sum\<close>

lemma on_hand_append:
  "on_hand c st p (inv_append s ms ks as es) = on_hand c st p s +
     sum_list (map mvQty (filter (\<lambda>m. rls_tenant c (mvTenant m) \<and> mvStore m = st \<and> mvProduct m = Some p) ms))"
  by (simp add: on_hand_def visible_movements_def)

lemma honest_assert [simp]: "honest (assertUnitMatchesEstablished c st p u)" "honest (assert_unit_of c st product u)"
  by (simp_all add: assertUnitMatchesEstablished_def assert_unit_of_def split: option.split)

lemma honest_insertMovementRow [simp]: "honest (insertMovementRow c oc q mk)"
  unfolding insertMovementRow_def
  by (rule honest_catch) (auto simp: act_throw_def act_then_def act_bind_def split: option.splits sum.splits prod.splits)

lemma honest_emit [simp]: "honest (emitMovementCreated c i now inp)"
  by (simp add: emitMovementCreated_def)

lemma honest_recordStockCount: "honest (recordStockCount_work inp ids now c)"
  by (simp add: recordStockCount_work_def Let_def)

lemma honest_backfill_line [simp]: "honest (backfill_line job ids k now c line)"
  unfolding backfill_line_def
  by (intro honest_bind honest_option honest_simps honest_if honest_catch honest_then honest_emit)
     (auto simp: act_throw_def)

lemma honest_backfill_lines [simp]: "honest (backfill_lines job ids k now c ls n)"
  by (induction job ids k now c ls n rule: backfill_lines.induct) auto

lemma honest_backfill_process: "honest (backfill_process_work job ids now c)"
  by (simp add: backfill_process_work_def)

text \<open>A write that answered with a value: its input was accepted, and it committed unless an error was swallowed.\<close>

lemma run_write_Inr:
  assumes "run_write t rejected work s = (Inr a, s')"
  shows "rejected = None" and "invDb s' = invDb s \<or> (\<exists>f. succeeds (work (tenant_ctx t)) (invDb s) (a, f) (invDb s'))"
    and "honest (work (tenant_ctx t)) \<Longrightarrow> \<exists>f. succeeds (work (tenant_ctx t)) (invDb s) (a, f) (invDb s')"
proof -
  show r: "rejected = None" using assms by (auto simp: run_write_def split: option.splits)
  then obtain f db where run: "runWithTenantContext (tenant_ctx t) (\<lambda>c. as_work (work c)) (invDb s) = (Inr (a, f), db)"
    and s': "invDb s' = db" using assms by (auto simp: run_write_def split: prod.splits sum.splits)
  from run show "invDb s' = invDb s \<or> (\<exists>f. succeeds (work (tenant_ctx t)) (invDb s) (a, f) (invDb s'))"
    unfolding s' by (rule runWithTenantContext_cases) (auto simp: as_work_Returns)
  show "honest (work (tenant_ctx t)) \<Longrightarrow> \<exists>f. succeeds (work (tenant_ctx t)) (invDb s) (a, f) (invDb s')"
    using honest_run [OF _ run] s' by auto
qed

lemma run_write_commits:
  assumes "rejected = None" and "succeeds (work (tenant_ctx t)) (invDb s) (a, f) db'"
  shows "run_write t rejected work s =
    (Inr a, s\<lparr>invDb := db', negativeSignals := negativeSignals s + (if f then 1 else 0)\<rparr>)"
  using assms by (simp add: run_write_def runWithTenantContext_def as_work_Returns [symmetric])

section \<open>Transfers\<close>

lemma transfer_on_hand:
  assumes "createStockTransfer inp ids now s = (Inr b, s')" and "invDb s' \<noteq> invDb s"
  obtains w where "0 < w" "pg_numeric_in (fixed4_text (transfer_quantity inp)) = Inr w"
    "\<And>st p. on_hand (tenant_ctx (xfTenant inp)) st p (invDb s') = on_hand (tenant_ctx (xfTenant inp)) st p (invDb s) +
       (if p = xfProduct inp then (if st = xfSource inp then - w else if st = xfDestination inp then w else 0) else 0)"
proof -
  from run_write_Inr [OF assms(1) [unfolded createStockTransfer_def]] assms(2) obtain f where
    ok: "transfer_input_error inp = None"
    and run: "succeeds (createStockTransfer_work inp ids now (tenant_ctx (xfTenant inp))) (invDb s) (b, f) (invDb s')" by blast
  from run obtain v w where v: "pg_numeric_in (''-'' @ fixed4_text (transfer_quantity inp)) = Inr v"
      "pg_numeric_in (fixed4_text (transfer_quantity inp)) = Inr w"
    and db': "invDb s' = inv_append (invDb s) [transfer_out inp ids now v, transfer_in inp ids now w] []
      [transfer_audit inp ids] [transfer_event inp ids now]"
    unfolding createStockTransfer_succeeds by blast
  from transfer_quantities [OF ok v] v(2) show thesis
    by (intro that [of w]) (auto simp: db' on_hand_append transfer_out_def transfer_in_def)
qed

text \<open>Up to \<open>2 ^ 50\<close> ten-thousandths the quantity that moves is the one that was asked for.\<close>

lemma amount_number: "\<bar>v\<bar> \<le> 2 ^ 50 \<Longrightarrow> js_num (of_int v / 10000) = Finite (to_double (of_int v / 10000))"
proof -
  assume "\<bar>v\<bar> \<le> 2 ^ 50"
  from amount_le [OF this] show ?thesis by (intro js_num_Finite) (simp add: abs_divide)
qed

lemma quantity_exact:
  assumes "signed_amount q" and "pg_numeric_in q = Inr v" and "\<bar>v\<bar> \<le> 2 ^ 50"
  shows "quantity_at_scale q = Some (Finite (to_double (of_int v / 10000)))"
    and "fixed4_text (Finite (to_double (of_int v / 10000))) = js_toFixed4 (to_double (of_int v / 10000))"
    and "pg_numeric_in (js_toFixed4 (to_double (of_int v / 10000))) = Inr v"
proof -
  obtain w where "pg_numeric_in q = Inr w" "js_Number q = js_num (of_int w / 10000)" "\<bar>w\<bar> < 10 ^ 19"
    using assms(1) by (rule signed_amount_value)
  with assms(2) have n: "js_Number q = js_num (of_int v / 10000)" by simp
  show "quantity_at_scale q = Some (Finite (to_double (of_int v / 10000)))"
    using amount_number [OF assms(3)] at_scale_4_amount [OF assms(3)] by (simp add: quantity_at_scale_def Let_def n)
  have "numeric_19_4_fits v" using assms(3) by (simp add: numeric_19_4_fits_def)
  then show "pg_numeric_in (js_toFixed4 (to_double (of_int v / 10000))) = Inr v"
    using toFixed4_amount [OF assms(3)] by (simp add: pg_numeric_in_fixed4)
qed simp

lemma transfer_input_ok:
  assumes "signed_amount (xfQuantity inp)" and "pg_numeric_in (xfQuantity inp) = Inr v" and "\<bar>v\<bar> \<le> 2 ^ 50" and "0 < v"
    and "xfSource inp \<noteq> xfDestination inp" and "js_trim (xfUnit inp) \<noteq> []"
  shows "transfer_input_error inp = None" and "transfer_quantity inp = Finite (to_double (of_int v / 10000))"
    and "pg_numeric_in (fixed4_text (transfer_quantity inp)) = Inr v"
    and "pg_numeric_in (''-'' @ fixed4_text (transfer_quantity inp)) = Inr (- v)"
proof -
  let ?x = "to_double (of_int v / 10000)"
  have "1 / 2 ^ 58 < \<bar>of_int v / 10000 :: rat\<bar>" using assms(4) by simp
  from to_double_sign(1) [OF this] assms(4) have pos: "0 < ?x" by simp
  note q = quantity_exact [OF assms(1-3)]
  show "transfer_input_error inp = None" using assms(5,6) q(1) pos by (simp add: transfer_input_error_def)
  show t: "transfer_quantity inp = Finite ?x" using q(1) by (simp add: transfer_quantity_def)
  show "pg_numeric_in (fixed4_text (transfer_quantity inp)) = Inr v" using q(3) by (simp add: t)
  have "numeric_19_4_fits v" using assms(3) by (simp add: numeric_19_4_fits_def)
  then show "pg_numeric_in (''-'' @ fixed4_text (transfer_quantity inp)) = Inr (- v)"
    using fixed4_minus [of ?x] pos toFixed4_amount [OF assms(3)] by (simp add: t)
qed

section \<open>Counts\<close>

lemma to_double_zero_iff: "\<bar>m\<bar> \<le> 2 ^ 50 \<Longrightarrow> to_double (of_int m / 10000) = 0 \<longleftrightarrow> m = 0"
proof
  assume "\<bar>m\<bar> \<le> 2 ^ 50" "to_double (of_int m / 10000) = 0"
  with toFixed4_amount [of m] have "\<lfloor>1 / 2 :: rat\<rfloor> = m" by (simp add: toFixed4_scaled_def)
  then show "m = 0" by linarith
qed simp

lemma count_variance_exact:
  assumes "signed_amount (rkCounted inp)" and "pg_numeric_in (rkCounted inp) = Inr k" and "\<bar>k\<bar> \<le> 2 ^ 48" and "\<bar>d\<bar> \<le> 2 ^ 48"
  shows "count_variance inp d = Finite (to_double (of_int (k - d) / 10000))"
    and "count_variance inp d = Finite 0 \<longleftrightarrow> k = d"
    and "pg_numeric_in (fixed4_text (count_variance inp d)) = Inr (k - d)"
proof -
  have big: "\<bar>x\<bar> \<le> 2 ^ 48 \<Longrightarrow> \<bar>x\<bar> \<le> 2 ^ 50" for x :: int by (rule order_trans) auto
  have "(2::int) ^ 50 = 4 * 2 ^ 48" by simp
  then have kd: "\<bar>k - d\<bar> \<le> 2 ^ 50" using assms(3,4) by linarith
  have c: "counted_number inp = Finite (to_double (of_int k / 10000))"
    using quantity_exact(1) [OF assms(1,2) big [OF assms(3)]] by (simp add: counted_number_def)
  show v: "count_variance inp d = Finite (to_double (of_int (k - d) / 10000))"
    unfolding count_variance_def c js_Number_numeric_text amount_number [OF big [OF assms(4)]]
    by (rule at_scale_4_difference [OF assms(3,4)])
  show "count_variance inp d = Finite 0 \<longleftrightarrow> k = d" using to_double_zero_iff [OF kd] by (simp add: v del: of_int_diff)
  have "numeric_19_4_fits (k - d)" using kd by (simp add: numeric_19_4_fits_def)
  then show "pg_numeric_in (fixed4_text (count_variance inp d)) = Inr (k - d)"
    using toFixed4_amount [OF kd] by (simp add: v pg_numeric_in_fixed4 del: of_int_diff)
qed

lemma count_input_ok:
  assumes "signed_amount (rkCounted inp)" and "pg_numeric_in (rkCounted inp) = Inr k" and "\<bar>k\<bar> \<le> 2 ^ 50" and "0 \<le> k"
    and "js_trim (rkUnit inp) \<noteq> []"
  shows "count_input_error inp = None" and "pg_numeric_in (fixed4_text (counted_number inp)) = Inr k"
proof -
  let ?x = "to_double (of_int k / 10000)"
  have "\<not> ?x < 0"
  proof (cases "k = 0")
    case False
    with assms(4) have "1 / 2 ^ 58 < \<bar>of_int k / 10000 :: rat\<bar>" by simp
    from to_double_sign(2) [OF this] assms(4) show ?thesis by simp
  qed simp
  then show "count_input_error inp = None" "pg_numeric_in (fixed4_text (counted_number inp)) = Inr k"
    using assms(5) quantity_exact [OF assms(1-3)] by (simp_all add: count_input_error_def counted_number_def)
qed

lemma on_hand_text_exact:
  "\<bar>d\<bar> \<le> 2 ^ 50 \<Longrightarrow> pg_numeric_in (fixed4_text (js_Number (pg_numeric_text d))) = Inr d"
  by (simp add: js_Number_numeric_text amount_number pg_numeric_in_fixed4 toFixed4_amount numeric_19_4_fits_def)

lemma count_on_hand:
  assumes "recordStockCount inp ids now s = (Inr b, s')" and "signed_amount (rkCounted inp)"
    and "pg_numeric_in (rkCounted inp) = Inr k" and "\<bar>k\<bar> \<le> 2 ^ 48"
    and "\<bar>on_hand (tenant_ctx (rkTenant inp)) (rkStore inp) (rkProduct inp) (invDb s)\<bar> \<le> 2 ^ 48"
  shows "on_hand (tenant_ctx (rkTenant inp)) (rkStore inp) (rkProduct inp) (invDb s') = k"
    and "kbCorrection b = None \<longleftrightarrow> on_hand (tenant_ctx (rkTenant inp)) (rkStore inp) (rkProduct inp) (invDb s) = k"
proof -
  let ?c = "tenant_ctx (rkTenant inp)"
  define d where "d = on_hand ?c (rkStore inp) (rkProduct inp) (invDb s)"
  note run = run_write_Inr [OF assms(1) [unfolded recordStockCount_def]]
  from run(3) [OF honest_recordStockCount] obtain f where
    r: "succeeds (recordStockCount_work inp ids now ?c) (invDb s) (b, f) (invDb s')" by blast
  note var = count_variance_exact [OF assms(2-4), of d, unfolded d_def, OF assms(5), folded d_def]
  have "on_hand ?c (rkStore inp) (rkProduct inp) (invDb s') = k \<and> (kbCorrection b = None \<longleftrightarrow> d = k)"
  proof (cases "k = d")
    case True
    with r var(2) obtain x y where "invDb s' = inv_append (invDb s) [] [x] [y] []" "kbCorrection b = None"
      unfolding recordStockCount_succeeds [OF refl] d_def by auto
    with True show ?thesis by (simp add: on_hand_append d_def)
  next
    case False
    with r var(2,3) obtain x y e where
      "invDb s' = inv_append (invDb s) [correction_row inp ids now (k - d)] [x] [y] [e]" "kbCorrection b \<noteq> None"
      unfolding recordStockCount_succeeds [OF refl] d_def by auto
    with False show ?thesis by (auto simp: on_hand_append d_def)
  qed
  then show "on_hand ?c (rkStore inp) (rkProduct inp) (invDb s') = k" "kbCorrection b = None \<longleftrightarrow> on_hand ?c (rkStore inp) (rkProduct inp) (invDb s) = k"
    by (simp_all add: d_def)
qed

section \<open>Redelivery of a backfill job\<close>

text \<open>A movement of the ledger that stands for a line of a job.\<close>

definition line_applied :: "backfill_job \<Rightarrow> inv_db \<Rightarrow> sale_line \<Rightarrow> bool" where
  "line_applied job s l \<longleftrightarrow> numeric_19_4_fits (outbound_quantity (slQuantity l)) \<and>
     (\<exists>m \<in> set (movements s). mvTenant m = bjTenant job \<and> mvStore m = bjStore job \<and> mvProduct m = slProduct l \<and>
        mvUnit m = slUnit l \<and> mvSource m = Some (bjSource job) \<and> mvExternal m = Some (uuid_text (slId l)))"

lemma line_applied_mono: "line_applied job s l \<Longrightarrow> set (movements s) \<subseteq> set (movements s') \<Longrightarrow> line_applied job s' l"
  unfolding line_applied_def by blast

lemma established_unit_of_row:
  assumes "movements_ok s" and "m \<in> set (movements s)" and "rls_tenant c (mvTenant m)" and "mvStore m = st"
    and "mvProduct m = Some p"
  shows "established_unit c st p s = Some (mvUnit m)"
proof -
  let ?rows = "sort_key (\<lambda>m. (mvReceived m, mvId m)) (visible_movements c st p s)"
  have "m \<in> set ?rows" using assms(2-5) by (simp add: visible_movements_def)
  then obtain x xs where x: "?rows = x # xs" by (cases ?rows) auto
  then have "x \<in> set ?rows" by simp
  then have x': "x \<in> set (movements s)" "mvStore x = st" "mvProduct x = Some p" by (simp_all add: visible_movements_def)
  have "\<not> unit_excluded m s" using assms(1,2) by (simp add: movements_ok_def)
  then have "mvUnit x = mvUnit m" using x' assms(4,5) by (auto simp: unit_excluded_def list_ex_iff)
  with x show ?thesis by (simp add: established_unit_def)
qed

lemma backfill_line_applied:
  assumes "movements_ok s" and "line_applied job s l"
  shows "succeeds (backfill_line job ids k now (tenant_ctx (bjTenant job)) l) s False s"
proof -
  from assms(2) obtain m where m: "m \<in> set (movements s)" "mvTenant m = bjTenant job" "mvStore m = bjStore job"
    "mvProduct m = slProduct l" "mvUnit m = slUnit l" "mvSource m = Some (bjSource job)"
    "mvExternal m = Some (uuid_text (slId l))" and fits: "numeric_19_4_fits (outbound_quantity (slQuantity l))"
    by (auto simp: line_applied_def)
  have agrees: "unit_agrees (tenant_ctx (bjTenant job)) (bjStore job) (slProduct l) (slUnit l) s"
    using established_unit_of_row [OF assms(1) m(1)] m by (simp add: unit_agrees_def)
  have taken: "provenance_taken (line_row job (ids (3 * k)) now l) s"
    using m by (auto simp: provenance_taken_def image_iff intro!: bexI [OF _ m(1)])
  have checks: "movement_row_checks (tenant_ctx (bjTenant job)) (line_row job (ids (3 * k)) now l) = None"
    by (simp add: movement_row_checks_def) (simp add: line_row_def)
  show ?thesis using agrees taken checks fits by (simp add: backfill_line_succeeds)
qed

lemma backfill_lines_applied:
  assumes "movements_ok s" and "\<forall>l \<in> set ls. line_applied job s l"
  shows "succeeds (backfill_lines job ids k now (tenant_ctx (bjTenant job)) ls (a, d)) s (a, d + length ls) s"
  using assms(2)
proof (induction ls arbitrary: k a d)
  case (Cons l ls)
  then show ?case using backfill_line_applied [OF assms(1), of job l ids k now]
    by (simp add: succeeds_bind) (metis (no_types, lifting) add_Suc_right add_Suc add.commute plus_1_eq_Suc)
qed (simp add: succeeds_return)

text \<open>A run of the loop that deduplicated nothing has applied every line.\<close>

lemma backfill_lines_apply:
  assumes "succeeds (backfill_lines job ids k now (tenant_ctx (bjTenant job)) ls (a, d)) s (a', d) s'"
  shows "(\<forall>l \<in> set ls. line_applied job s' l) \<and> set (movements s) \<subseteq> set (movements s') \<and> a' = a + length ls"
  using assms
proof (induction ls arbitrary: k a s)
  case (Cons line ls)
  let ?c = "tenant_ctx (bjTenant job)"
  have dedup: "d0 \<le> snd r" if "succeeds (backfill_lines job ids j now ?c ks (a0, d0)) t r t'" for j ks a0 d0 t r t'
    using that
  proof (induction ks arbitrary: j a0 d0 t)
    case (Cons x xs)
    then show ?case by (auto simp: succeeds_bind split: if_splits) fastforce+
  qed (simp add: succeeds_return)
  from Cons.prems obtain fresh s1 where one: "succeeds (backfill_line job ids k now ?c line) s fresh s1"
    and rest: "succeeds (backfill_lines job ids (Suc k) now ?c ls (if fresh then (a + 1, d) else (a, d + 1))) s1 (a', d) s'"
    by (auto simp: succeeds_bind)
  have fresh
  proof (rule ccontr)
    assume "\<not> fresh"
    with rest have "succeeds (backfill_lines job ids (Suc k) now ?c ls (a, d + 1)) s1 (a', d) s'" by simp
    from dedup [OF this] show False by simp
  qed
  with one have s1: "movements s1 = movements s @ [line_row job (ids (3 * k)) now line]"
    and fits: "numeric_19_4_fits (outbound_quantity (slQuantity line))" by (simp_all add: backfill_line_succeeds)
  then have "line_applied job s1 line" by (simp add: line_applied_def)
  with Cons.IH [of "Suc k" "a + 1" s1] rest \<open>fresh\<close> s1 line_applied_mono [of job s1 line s'] show ?case by auto
qed (simp add: succeeds_return)

lemma backfill_redelivered:
  assumes first: "backfill_process job ids now s = (Inr r, s1)" and fresh: "brDeduped r = 0" and ok: "ledger_ok s1"
    and later: "prefix (movements (invDb s1)) (movements (invDb s2))" "tables_ok (invDb s2)"
      "capturedSales (invDb s2) = capturedSales (invDb s)" "saleLines (invDb s2) = saleLines (invDb s)"
  shows "backfill_process job ids' now' s2 =
    (Inr \<lparr>brSale = bjSale job, brAppended = 0, brDeduped = brAppended r, brApplied = False\<rparr>, s2)"
proof -
  let ?c = "tenant_ctx (bjTenant job)"
  note w = run_write_Inr [OF first [unfolded backfill_process_def]]
  from w(1) have src: "js_trim (bjSource job) \<noteq> []" by (auto split: if_splits)
  from w(3) [OF honest_backfill_process] obtain n where
    sale: "sale_captured ?c job (invDb s)" "length (captured_lines ?c job (invDb s)) \<le> MAX_BACKFILL_MOVEMENTS"
    and run: "succeeds (backfill_lines job ids 0 now ?c (captured_lines ?c job (invDb s)) (0, 0)) (invDb s) n (invDb s1)"
    and r: "r = \<lparr>brSale = bjSale job, brAppended = fst n, brDeduped = snd n, brApplied = fst n > 0\<rparr>"
    unfolding backfill_process_work_succeeds by blast
  let ?ls = "captured_lines ?c job (invDb s)"
  have n: "n = (fst n, 0)" using fresh r by (cases n) simp
  have applied: "\<forall>l \<in> set ?ls. line_applied job (invDb s1) l" "fst n = length ?ls"
    using backfill_lines_apply [of job ids 0 now ?ls 0 0 "invDb s" "fst n" "invDb s1"] run n by auto
  have "set (movements (invDb s1)) \<subseteq> set (movements (invDb s2))" using later(1) by (auto simp: prefix_def)
  with applied(1) have applied2: "\<forall>l \<in> set ?ls. line_applied job (invDb s2) l" using line_applied_mono by blast
  have same: "captured_lines ?c job (invDb s2) = ?ls" "sale_captured ?c job (invDb s2)"
    using sale(1) later(3,4) by (simp_all add: captured_lines_def sale_captured_def)
  have "succeeds (backfill_process_work job ids' now' ?c) (invDb s2)
      (\<lparr>brSale = bjSale job, brAppended = 0, brDeduped = fst n, brApplied = False\<rparr>, False) (invDb s2)"
    using backfill_lines_applied [of "invDb s2" ?ls job ids' 0 now' 0 0] applied2 later(2) same sale(2) applied(2)
    unfolding backfill_process_work_succeeds same by (auto simp: tables_ok_def)
  then show ?thesis
    using src r by (simp add: backfill_process_def run_write_def runWithTenantContext_def as_work_Returns [symmetric])
qed

section \<open>Accepted manual movements\<close>

lemma movement_input_ok:
  assumes "signed_amount (cmQuantity inp)" and "pg_numeric_in (cmQuantity inp) = Inr v" and "v \<noteq> 0"
    and "cmType inp \<in> {Inbound, Outbound, Adjustment}" and "sign_ok (cmType inp) v" and "js_trim (cmUnit inp) \<noteq> []"
    and "cmType inp = Adjustment \<Longrightarrow> trimmed_reason (cmReason inp) \<noteq> None"
  shows "movement_input_error inp = None"
proof -
  obtain w where w: "pg_numeric_in (cmQuantity inp) = Inr w" "js_Number (cmQuantity inp) = js_num (of_int w / 10000)"
    "\<bar>w\<bar> < 10 ^ 19" using assms(1) by (rule signed_amount_value)
  with assms(2) have n: "js_Number (cmQuantity inp) = js_num (of_int v / 10000)" and v: "\<bar>v\<bar> < 10 ^ 19" by simp_all
  obtain x where x: "at_scale_4 (js_num (of_int v / 10000)) = Finite x" "x > 0 \<longleftrightarrow> v > 0" "x < 0 \<longleftrightarrow> v < 0"
    using at_scale_4_sign [OF assms(3) v] by blast
  have "\<bar>of_int v :: rat\<bar> < 10 ^ 19" using v by (metis of_int_abs of_int_less_iff of_int_numeral of_int_power)
  then have "\<bar>of_int v / 10000 :: rat\<bar> \<le> 2 ^ 70" by (simp add: abs_divide)
  then have "js_isFinite (js_num (of_int v / 10000))" by (simp add: js_num_Finite)
  with x(1) have q: "quantity_at_scale (cmQuantity inp) = Some (Finite x)" by (simp add: quantity_at_scale_def n Let_def)
  have "x \<noteq> 0" using x assms(3) by auto
  with assms(4-7) x q show ?thesis
    by (auto simp: movement_input_error_def MANUAL_MOVEMENT_TYPES_def)
qed

end
