(* ===== verification/InventoryHazards.thy ===== *)
theory InventoryHazards
  imports InventoryMachine
begin

text \<open>
  Two ends of a manual movement other than its success: the negative-balance probe fails, which
  aborts the transaction after the answer is decided; and a row of another tenant holds the unit
  constraint, which the transaction only meets at its insert.
\<close>

lemma runs_succeeds:
  "assert_unit_of c st product u (Tx_open s) = (Inr (), Tx_open s) \<longleftrightarrow> unit_agrees c st product u s"
  "insertMovementRow c oc q mk (Tx_open s) = (Inr r, Tx_open s') \<longleftrightarrow>
     (\<exists>v. pg_numeric_in q = Inr v \<and> insert_movement c oc (mk v) s = Inr (r, s'))"
  "emitMovementCreated c i now inp (Tx_open s) = (Inr j, Tx_open s') \<longleftrightarrow>
     j = i \<and> rls_tenant_or_admin c (mcTenant inp) \<and> i \<notin> evId ` set (outbox s) \<and>
     s' = inv_append s [] [] [] [movement_event i now inp]"
  using succeeds_assert_of [of c st product u s "()" s] succeeds_insertMovementRow [of c oc q mk s r s']
    succeeds_emit [of c i now inp s j s']
  by (simp_all add: succeeds_def)

lemma audit_runs: "audit_new c a s \<Longrightarrow> act_query (insert_audit c a) (Tx_open s) = (Inr (), Tx_open (inv_append s [] [] [a] []))"
  using insert_audit_Inr [of c a s "()" "inv_append s [] [] [a] []"] by (simp add: act_query_def)

section \<open>The probe aborts the write\<close>

lemma flag_swallows:
  "\<not> numeric_19_4_fits (on_hand c st p s) \<Longrightarrow> flagIfNegativeOnHand c st (Some p) (Tx_open s) = (Inr False, Tx_aborted)"
  by (simp add: flagIfNegativeOnHand_def act_catch_def act_bind_def act_query_def select_on_hand_def act_return_def)

lemma createStockMovement_lost:
  assumes "movement_input_error inp = None" and "cmType inp = Outbound" and "cmProduct inp = Some p"
    and "pg_numeric_in (cmQuantity inp) = Inr v"
    and "movement_new (tenant_ctx (cmTenant inp)) (manual_row inp ids now v) (invDb s)"
    and "unit_agrees (tenant_ctx (cmTenant inp)) (cmStore inp) (Some p) (js_trim (cmUnit inp)) (invDb s)"
    and "audit_new (tenant_ctx (cmTenant inp)) (manual_audit inp ids) (invDb s)" and "ids 2 \<notin> evId ` set (outbox (invDb s))"
    and "\<not> numeric_19_4_fits (on_hand (tenant_ctx (cmTenant inp)) (cmStore inp) p (invDb s) + v)"
  shows "createStockMovement inp ids now s = (Inr (toMovementBody (manual_row inp ids now v)), s)"
proof -
  let ?c = "tenant_ctx (cmTenant inp)" and ?row = "manual_row inp ids now v" and ?db = "invDb s"
  let ?db1 = "inv_append ?db [?row] [] [] []"
  let ?e = "\<lparr>mcTenant = cmTenant inp, mcStore = cmStore inp, mcIds = [ids 0], mcType = movement_type_text (cmType inp),
    mcProduct = cmProduct inp, mcCorrelation = None, mcProvenance = []\<rparr>"
  have a: "assert_unit_of ?c (cmStore inp) (Some p) (js_trim (cmUnit inp)) (Tx_open ?db) = (Inr (), Tx_open ?db)"
    using assms(6) by (simp add: runs_succeeds)
  have i: "insertMovementRow ?c False (cmQuantity inp) (manual_row inp ids now) (Tx_open ?db) = (Inr (Some ?row), Tx_open ?db1)"
    using assms(4,5) by (simp add: runs_succeeds insert_movement_Some)
  have q: "act_query (insert_audit ?c (manual_audit inp ids)) (Tx_open ?db1)
      = (Inr (), Tx_open (inv_append ?db [?row] [] [manual_audit inp ids] []))"
    using audit_runs [of ?c "manual_audit inp ids" ?db1] assms(7) by simp
  have e: "emitMovementCreated ?c (ids 2) now ?e (Tx_open (inv_append ?db [?row] [] [manual_audit inp ids] []))
      = (Inr (ids 2), Tx_open (inv_append ?db [?row] [] [manual_audit inp ids] [movement_event (ids 2) now ?e]))"
    using assms(8) by (simp add: runs_succeeds)
  have f: "flagIfNegativeOnHand ?c (cmStore inp) (Some p)
      (Tx_open (inv_append ?db [?row] [] [manual_audit inp ids] [movement_event (ids 2) now ?e])) = (Inr False, Tx_aborted)"
    using assms(3,9) by (intro flag_swallows) (simp add: on_hand_append)
  have "createStockMovement_work inp ids now ?c (Tx_open ?db) = (Inr (toMovementBody ?row, False), Tx_aborted)"
    using a i q e f assms(2,3)
    by (simp add: createStockMovement_work_def act_then_def act_bind_def act_return_def manual_audit_def)
  then show ?thesis
    using assms(1) by (simp add: createStockMovement_def run_write_def runWithTenantContext_def as_work_def)
qed

section \<open>The unit constraint of another tenant\<close>

lemma js_trim_length: "length (js_trim s) \<le> length s"
  using length_dropWhile_le [of is_space "rev (dropWhile is_space s)"] length_dropWhile_le [of is_space s]
  by (simp add: js_trim_def)

lemma manual_row_checks:
  assumes "reason_ok (cmReason inp)" and "cmType inp \<in> {Inbound, Outbound, Adjustment}"
  shows "movement_row_checks (tenant_ctx (cmTenant inp)) (manual_row inp ids now v) = None"
proof -
  have "case trimmed_reason (cmReason inp) of None \<Rightarrow> True | Some r \<Rightarrow> length r \<le> 500"
    using assms(1) js_trim_length order_trans
    by (auto simp: trimmed_reason_def reason_ok_def split: option.splits)
  moreover have "mvReason (manual_row inp ids now v) = trimmed_reason (cmReason inp)" by (simp add: manual_row_def)
  ultimately show ?thesis using assms(2) by (auto simp: movement_row_checks_def)
qed

lemma createStockMovement_blocked:
  assumes "movement_input_error inp = None" and "reason_ok (cmReason inp)" and "cmProduct inp = Some p"
    and "pg_numeric_in (cmQuantity inp) = Inr v" and "ids 0 \<notin> mvId ` set (movements (invDb s))"
    and "visible_movements (tenant_ctx (cmTenant inp)) (cmStore inp) p (invDb s) = []"
    and "x \<in> set (movements (invDb s))" and "mvStore x = cmStore inp" and "mvProduct x = Some p"
    and "mvUnit x \<noteq> js_trim (cmUnit inp)"
  shows "createStockMovement inp ids now s = (Inl in_failed_transaction, s)"
proof -
  let ?c = "tenant_ctx (cmTenant inp)" and ?row = "manual_row inp ids now v" and ?db = "invDb s"
  have ty: "cmType inp \<in> {Inbound, Outbound, Adjustment}"
    using assms(1) by (auto simp: movement_input_error_def MANUAL_MOVEMENT_TYPES_def split: if_splits)
  have "unit_excluded ?row ?db"
    using assms(3,7-10) by (auto simp: unit_excluded_def list_ex_iff intro!: bexI [of _ x])
  then have keys: "movement_key_checks ?row ?db = Some exclusion_violation"
    using assms(5) by (simp add: movement_key_checks_def sql_check_def provenance_taken_def)
  then have ins: "insert_movement ?c False ?row ?db = Inl exclusion_violation"
    using manual_row_checks [OF assms(2) ty] by (simp add: insert_movement_def)
  have a: "assert_unit_of ?c (cmStore inp) (Some p) (js_trim (cmUnit inp)) (Tx_open ?db) = (Inr (), Tx_open ?db)"
    using assms(6) by (simp add: runs_succeeds unit_agrees_def established_unit_def)
  have i: "insertMovementRow ?c False (cmQuantity inp) (manual_row inp ids now) (Tx_open ?db) = (Inl in_failed_transaction, Tx_aborted)"
    using assms(3,4) ins
    by (simp add: insertMovementRow_def act_catch_def act_query_def isUnitExclusionViolation_def act_then_def
        act_bind_def act_select_def)
  have "createStockMovement_work inp ids now ?c (Tx_open ?db) = (Inl in_failed_transaction, Tx_aborted)"
    using a i assms(3) by (simp add: createStockMovement_work_def act_then_def act_bind_def)
  then show ?thesis
    using assms(1) by (simp add: createStockMovement_def run_write_def runWithTenantContext_def as_work_def)
qed

end
