(* ===== verification/InventoryTheorems.thy ===== *)
theory InventoryTheorems
  imports InventoryHazards "HOL-Library.Code_Target_Nat" "HOL-Library.Code_Target_Int"
begin

text \<open>
  The properties of the stock ledger: its tables are a journal of complete entries, tenants do not
  reach each other's rows, transfers conserve stock, counts set it, a redelivered backfill changes
  nothing; and three places where the code does not do what it says.
\<close>

section \<open>A small ledger\<close>

text \<open>Tenant 1 has the stores 10 and 11 and ten pieces of product 5 in store 10; store 20 is tenant 2's.\<close>

definition demo_movement :: movement where
  "demo_movement = \<lparr>mvId = 100, mvTenant = 1, mvStore = 10, mvType = Inbound, mvQty = 100000, mvUnit = ''ea'',
     mvProduct = Some 5, mvReason = None, mvOccurred = 1, mvReceived = 1, mvSource = None, mvExternal = None,
     mvSale = None, mvSaleLine = None, mvTerminal = None, mvGroup = None, mvCount = None, mvCreatedBy = 7\<rparr>"

definition demo_db :: inv_db where
  "demo_db = \<lparr>movements = [demo_movement], counts = [], audits = [], outbox = [],
     storeRows = [(10, 1), (11, 1), (20, 2)], products = [5, 6], users = [7],
     capturedSales = [\<lparr>csId = 40, csTenant = 1, csStore = 10, csProcessed = False\<rparr>],
     saleLines = [\<lparr>slId = 41, slTenant = 1, slStore = 10, slSale = 40, slQuantity = 2000000, slUnit = ''ea'', slProduct = Some 5\<rparr>]\<rparr>"

definition demo_svc :: inv_svc where
  "demo_svc = \<lparr>invDb = demo_db, negativeSignals = 0\<rparr>"

definition demo_ids :: id_source where
  "demo_ids n = 1000 + n"

definition demo_job :: backfill_job where
  "demo_job = \<lparr>bjSale = 40, bjTenant = 1, bjStore = 10, bjActor = 7, bjSource = ''pos'', bjCorrelation = None\<rparr>"

lemma demo_job_sel [simp]:
  "bjSale demo_job = 40" "bjTenant demo_job = 1" "bjStore demo_job = 10" "bjActor demo_job = 7" "bjSource demo_job = ''pos''"
  by (simp_all add: demo_job_def)

lemma demo_ok: "ledger_ok demo_svc"
  by (simp add: ledger_ok_def tables_ok_def movements_ok_def unit_excluded_def sale_lines_ok_def demo_svc_def
      demo_db_def demo_movement_def)

abbreviation "demo_line \<equiv> \<lparr>slId = 41, slTenant = 1, slStore = 10, slSale = 40, slQuantity = 2000000, slUnit = ''ea'', slProduct = Some 5\<rparr>"

definition demo_sold :: inv_db where
  "demo_sold = inv_append demo_db [line_row demo_job 1000 2 demo_line] []
     [line_audit demo_job 1001 1000 demo_line] [line_event demo_job 1002 1000 2 demo_line]"

lemmas statement_simps = movement_new_def movement_row_checks_def movement_key_checks_def audit_new_def count_new_def
  provenance_taken_def unit_excluded_def unit_agrees_def established_unit_def visible_movements_def

lemma demo_backfill:
  "backfill_process demo_job demo_ids 2 demo_svc =
    (Inr \<lparr>brSale = 40, brAppended = 1, brDeduped = 0, brApplied = True\<rparr>, \<lparr>invDb = demo_sold, negativeSignals = 0\<rparr>)"
proof -
  let ?c = "tenant_ctx (bjTenant demo_job)"
  have lines: "captured_lines ?c demo_job demo_db = [demo_line]" "sale_captured ?c demo_job demo_db"
    by (simp_all add: captured_lines_def sale_captured_def demo_db_def)
  have "succeeds (backfill_line demo_job demo_ids 0 2 ?c demo_line) demo_db True demo_sold"
    unfolding backfill_line_succeeds
    by (simp add: statement_simps demo_sold_def demo_ids_def outbound_quantity_def numeric_19_4_fits_def
        demo_db_def demo_movement_def line_audit_def) (simp add: line_row_def demo_job_def)
  then have "succeeds (backfill_process_work demo_job demo_ids 2 ?c) demo_db
      (\<lparr>brSale = 40, brAppended = 1, brDeduped = 0, brApplied = True\<rparr>, False) demo_sold"
    using lines(2) unfolding backfill_process_work_succeeds lines(1)
    by (auto simp: MAX_BACKFILL_MOVEMENTS_def succeeds_bind succeeds_return intro!: exI [of _ "(1, 0)"])
  moreover have "js_trim (bjSource demo_job) \<noteq> []" by (simp add: js_trim_def is_space_def)
  ultimately show ?thesis
    by (simp add: backfill_process_def run_write_def runWithTenantContext_def as_work_Returns [symmetric] demo_svc_def)
qed


section \<open>The journal\<close>

text \<open>C12: The ledger refines an append-only journal. Whatever requests and jobs run, the tables are
  the old tables followed by the projection of a list of entries, at most 500 per operation. Each
  entry is complete and belongs to the tenant of an operation that ran: a movement with the sign of
  its type, one audit row that targets it and one pending event that announces exactly it; or the
  two opposite movements of a transfer with their audit row and event; or a count with its audit row
  and, when it has a correction, that movement and its event. Nothing is ever changed or removed.\<close>

theorem ledger_refines_journal:
  assumes "ledger_ok s" and "list_all op_decimal ops"
  shows "\<exists>es. invDb (inv_run ops s) = post es (invDb s) \<and> length es \<le> length ops * MAX_BACKFILL_MOVEMENTS \<and>
    list_all (\<lambda>e. \<exists>op \<in> set ops. \<exists>t. inv_op_tenant op = Some t \<and> entry_ok t e) es"
  using assms by (rule inv_run_entries)

theorem ledger_refines_journal_witness:
  "\<exists>es. invDb (inv_run [Backfill_job demo_job demo_ids 2] demo_svc) = post es demo_db \<and> length es \<le> 500 \<and>
    list_all (\<lambda>e. entry_ok 1 e) es"
  using ledger_refines_journal [OF demo_ok, of "[Backfill_job demo_job demo_ids 2]"]
  by (auto simp: demo_svc_def MAX_BACKFILL_MOVEMENTS_def list_all_iff)

text \<open>C13: The tables keep their invariant under every operation: identifiers are unique, a product
  has one stocking unit at a store, a provenance pair occurs once in a tenant, every movement is in
  a store that exists, and a count correction refers to a count of its tenant and store.\<close>

theorem ledger_invariant_kept:
  assumes "ledger_ok s" and "list_all op_decimal ops"
  shows "ledger_ok (inv_run ops s)"
  unfolding inv_run_fold using assms by (rule stock_moves.run_inv)

theorem ledger_invariant_kept_witness:
  "ledger_ok (inv_run [Backfill_job demo_job demo_ids 2, Backfill_job demo_job (\<lambda>n. 2000 + n) 3] demo_svc)"
  using demo_ok by (rule ledger_invariant_kept) simp

text \<open>Tenants are isolated. Operations of other tenants change nothing a tenant can read of its
  stock: neither the on-hand quantity of any product at any store, with its unit and its
  negative-balance flag, nor any page of its movements; and none of its counts, audit rows or
  events.\<close>

lemma stock_tenants_isolated:
  assumes "ledger_ok s" and "list_all op_decimal ops" and "\<forall>op \<in> set ops. inv_op_tenant op \<noteq> Some t"
  shows "getOnHand t st p (invDb (inv_run ops s)) = getOnHand t st p (invDb s) \<and>
    listStockMovements t st product limit (invDb (inv_run ops s)) = listStockMovements t st product limit (invDb s) \<and>
    filter (\<lambda>k. ctTenant k = t) (counts (invDb (inv_run ops s))) = filter (\<lambda>k. ctTenant k = t) (counts (invDb s)) \<and>
    filter (\<lambda>a. auTenant a = Some t) (audits (invDb (inv_run ops s))) = filter (\<lambda>a. auTenant a = Some t) (audits (invDb s)) \<and>
    filter (\<lambda>e. evTenant e = t) (outbox (invDb (inv_run ops s))) = filter (\<lambda>e. evTenant e = t) (outbox (invDb s))"
proof -
  have t: "Some t \<notin> inv_op_tenant ` set ops" using assms(3) by force
  note moves = stock_moves.run_isolated [OF assms(1,2) t]
  have "visible_movements (tenant_ctx t) st p (invDb (inv_run ops s)) = visible_movements (tenant_ctx t) st p (invDb s)"
    unfolding visible_movements_def inv_run_fold by (rule moves) simp
  moreover have "filter (\<lambda>m. rls_tenant (tenant_ctx t) (mvTenant m) \<and> mvStore m = st \<and> mvProduct m = product)
      (movements (invDb (inv_run ops s)))
    = filter (\<lambda>m. rls_tenant (tenant_ctx t) (mvTenant m) \<and> mvStore m = st \<and> mvProduct m = product) (movements (invDb s))"
    unfolding inv_run_fold by (rule moves) simp
  ultimately show ?thesis
    using stock_counts.run_isolated [OF assms(1,2) t] stock_audits.run_isolated [OF assms(1,2) t]
      stock_events.run_isolated [OF assms(1,2) t]
    unfolding getOnHand_def listStockMovements_def select_on_hand_def on_hand_def by (simp add: inv_run_fold)
qed

theorem stock_tenants_isolated_witness:
  "getOnHand 2 10 5 (invDb (inv_run [Backfill_job demo_job demo_ids 2] demo_svc)) = getOnHand 2 10 5 demo_db"
  using stock_tenants_isolated [OF demo_ok, of "[Backfill_job demo_job demo_ids 2]" 2 10 5] by (simp add: demo_svc_def)

section \<open>At-least-once delivery\<close>

text \<open>C14: A redelivered backfill job is applied once. When a job was delivered and appended a
  movement for every line of its sale, then after any further requests and jobs, of this tenant or
  of others, the same job with the same sale returns that it appended nothing and leaves the whole
  database unchanged: no movement, no audit row, no event.\<close>

theorem backfill_redelivery_changes_nothing:
  assumes "ledger_ok s" and "backfill_process job ids now s = (Inr r, s1)" and "brDeduped r = 0"
    and "list_all op_decimal ops" and "s2 = inv_run ops s1"
  shows "backfill_process job ids' now' s2 =
    (Inr \<lparr>brSale = bjSale job, brAppended = 0, brDeduped = brAppended r, brApplied = False\<rparr>, s2)"
proof -
  have s1: "s1 = inv_step (Backfill_job job ids now) s" using assms(2) by simp
  have ok1: "ledger_ok s1" unfolding s1 by (rule ledger_ok_step [OF assms(1)]) simp
  obtain es where es: "invDb s1 = post es (invDb s)" unfolding s1
    by (rule inv_step_entries [OF assms(1), of "Backfill_job job ids now"]) auto
  obtain fs where fs: "invDb s2 = post fs (invDb s1)" using inv_run_entries [OF ok1 assms(4)] assms(5) by blast
  have "ledger_ok s2" unfolding assms(5) inv_run_fold using ok1 assms(4) by (rule stock_moves.run_inv)
  then show ?thesis
    by (intro backfill_redelivered [OF assms(2,3) ok1]) (simp_all add: fs es post_sel ledger_ok_def)
qed

theorem backfill_redelivery_changes_nothing_witness:
  "backfill_process demo_job (\<lambda>n. 5000 + n) 9 \<lparr>invDb = demo_sold, negativeSignals = 0\<rparr> =
    (Inr \<lparr>brSale = 40, brAppended = 0, brDeduped = 1, brApplied = False\<rparr>, \<lparr>invDb = demo_sold, negativeSignals = 0\<rparr>)"
  using backfill_redelivery_changes_nothing [OF demo_ok demo_backfill, of "[]"] by simp

section \<open>Transfers and counts\<close>


definition demo_transfer :: create_transfer_input where
  "demo_transfer = \<lparr>xfTenant = 1, xfUser = 7, xfSource = 10, xfDestination = 11, xfProduct = 5, xfQuantity = ''2.5'',
     xfUnit = ''ea'', xfReason = None\<rparr>"

lemma demo_transfer_sel [simp]:
  "xfTenant demo_transfer = 1" "xfUser demo_transfer = 7" "xfSource demo_transfer = 10" "xfDestination demo_transfer = 11"
  "xfProduct demo_transfer = 5" "xfQuantity demo_transfer = ''2.5''" "xfUnit demo_transfer = ''ea''"
  by (simp_all add: demo_transfer_def)

lemma ea_trim [simp]: "js_trim ''ea'' = ''ea''"
  by (simp add: js_trim_def is_space_def)

lemma demo_amount: "signed_amount ''2.5''" "pg_numeric_in ''2.5'' = Inr 25000"
  by code_simp+



text \<open>C16: A count sets the stock. When a count is answered, the on-hand quantity of the product at
  the store is the counted quantity; a correction was appended exactly when it was another before.
  This holds for counted and on-hand quantities of up to \<open>2 ^ 48\<close> ten-thousandths (over twenty
  milliard units), where the subtraction in JavaScript numbers is exact at the scale of the
  column.\<close>

theorem count_sets_on_hand:
  assumes "recordStockCount inp ids now s = (Inr b, s')" and "signed_amount (rkCounted inp)"
    and "pg_numeric_in (rkCounted inp) = Inr k" and "\<bar>k\<bar> \<le> 2 ^ 48"
    and "\<bar>on_hand (tenant_ctx (rkTenant inp)) (rkStore inp) (rkProduct inp) (invDb s)\<bar> \<le> 2 ^ 48"
  shows "on_hand (tenant_ctx (rkTenant inp)) (rkStore inp) (rkProduct inp) (invDb s') = k \<and>
    (kbCorrection b = None \<longleftrightarrow> on_hand (tenant_ctx (rkTenant inp)) (rkStore inp) (rkProduct inp) (invDb s) = k)"
  using count_on_hand [OF assms] by blast

definition demo_count :: record_count_input where
  "demo_count = \<lparr>rkTenant = 1, rkStore = 10, rkUser = 7, rkProduct = 5, rkCounted = ''2.5'', rkUnit = ''ea'', rkAt = None\<rparr>"

lemma demo_count_sel [simp]:
  "rkTenant demo_count = 1" "rkStore demo_count = 10" "rkUser demo_count = 7" "rkProduct demo_count = 5"
  "rkCounted demo_count = ''2.5''" "rkUnit demo_count = ''ea''"
  by (simp_all add: demo_count_def)

lemma demo_on_hand: "on_hand (tenant_ctx 1) 10 5 demo_db = 100000"
  by (simp add: on_hand_def visible_movements_def demo_db_def demo_movement_def)

lemma demo_count_runs: "\<exists>b s'. recordStockCount demo_count demo_ids 2 demo_svc = (Inr b, s')"
proof -
  let ?c = "tenant_ctx (rkTenant demo_count)" and ?v = "count_variance demo_count 100000"
  let ?k = "count_row demo_count demo_ids 2 25000 100000" and ?m = "correction_row demo_count demo_ids 2 (- 75000)"
  let ?a = "count_audit demo_count demo_ids ?v" and ?e = "count_event demo_count demo_ids 2"
  let ?db = "inv_append demo_db [?m] [?k] [?a] [?e]"
  let ?r = "(\<lparr>kbCount = demo_ids 0, kbCounted = fixed4_text (counted_number demo_count), kbVariance = fixed4_text ?v,
    kbCorrection = Some (toMovementBody ?m)\<rparr>, False)"
  note in_ok = count_input_ok [of demo_count 25000, simplified, OF demo_amount, simplified]
  note var = count_variance_exact [of demo_count 25000 100000, simplified, OF demo_amount, simplified]
  have d: "count_variance demo_count (on_hand ?c (rkStore demo_count) (rkProduct demo_count) demo_db) = ?v"
    using demo_on_hand by simp
  have "mvReason ?m = Some ''count variance''" by (simp add: correction_row_def)
  then have new: "count_new ?c ?k demo_db" "movement_new ?c ?m (inv_append demo_db [] [?k] [] [])" "audit_new ?c ?a demo_db"
    "unit_agrees ?c 10 (Some 5) ''ea'' demo_db"
    by (simp_all add: statement_simps demo_db_def demo_movement_def demo_ids_def count_audit_def)
  have "succeeds (recordStockCount_work demo_count demo_ids 2 ?c) demo_db ?r ?db"
    unfolding recordStockCount_succeeds [OF d [symmetric]]
    using var in_ok new demo_on_hand on_hand_text_exact [of 100000]
    by (simp add: numeric_19_4_fits_def demo_db_def)
  from run_write_commits [of "count_input_error demo_count", OF in_ok(1), of "recordStockCount_work demo_count demo_ids 2"
      "rkTenant demo_count" demo_svc] this
  show ?thesis by (simp add: recordStockCount_def demo_svc_def)
qed

theorem count_sets_on_hand_witness:
  "\<exists>b s'. recordStockCount demo_count demo_ids 2 demo_svc = (Inr b, s') \<and>
    on_hand (tenant_ctx 1) 10 5 (invDb s') = 25000 \<and> kbCorrection b \<noteq> None"
proof -
  obtain b s' where run: "recordStockCount demo_count demo_ids 2 demo_svc = (Inr b, s')" using demo_count_runs by blast
  from count_sets_on_hand [OF run, of 25000] demo_amount demo_on_hand run show ?thesis
    by (simp add: demo_svc_def)
qed

text \<open>
  Beyond the bound it fails: nine hundred billion units and a ten-thousandth, counted on an empty
  shelf, become an on-hand quantity without the ten-thousandth.
\<close>

lemma doubles_of_large_count:
  "to_double (9000000000000000001 / 10000) = 900000000000000" "to_double 9000000000000000000 = 9000000000000000000"
  "to_double 900000000000000 = 900000000000000"
  using to_double_nearest [of 49 "9000000000000000001 / 10000" 7200000000000000]
    to_double_nearest [of 62 "9000000000000000000" 8789062500000000]
    to_double_nearest [of 49 "900000000000000" 7200000000000000]
  by (simp_all add: power_int_def power_one_over)

lemma count_inexact_beyond_bound:
  assumes "rkCounted inp = ''900000000000000.0001''"
  shows "pg_numeric_in (rkCounted inp) = Inr 9000000000000000001"
    and "pg_numeric_in (fixed4_text (count_variance inp 0)) = Inr 9000000000000000000"
proof -
  have q: "signed_amount ''900000000000000.0001''" "pg_numeric_in ''900000000000000.0001'' = Inr 9000000000000000001"
    by code_simp+
  then show "pg_numeric_in (rkCounted inp) = Inr 9000000000000000001" by (simp add: assms)
  obtain w where "pg_numeric_in ''900000000000000.0001'' = Inr w"
    "js_Number ''900000000000000.0001'' = js_num (of_int w / 10000)" using q(1) by (rule signed_amount_value)
  with q(2) have "js_Number (rkCounted inp) = js_num (9000000000000000001 / 10000)" by (simp add: assms)
  moreover have fin: "js_num (9000000000000000001 / 10000) = Finite 900000000000000"
    "js_num 9000000000000000000 = Finite 9000000000000000000" "js_num 900000000000000 = Finite 900000000000000"
    "js_num 0 = Finite 0"
    using doubles_of_large_count by (simp_all add: js_num_def)
  have round: "\<lfloor>9000000000000000000 + 1 / 2 :: rat\<rfloor> = 9000000000000000000" by (simp add: floor_unique)
  have at: "at_scale_4 (Finite 900000000000000) = Finite 900000000000000"
    using fin round by (simp add: at_scale_4_def)
  ultimately have "counted_number inp = Finite 900000000000000"
    using fin(1) by (simp add: counted_number_def quantity_at_scale_def Let_def)
  then have "count_variance inp 0 = Finite 900000000000000"
    using fin at by (simp add: count_variance_def js_Number_numeric_text)
  moreover have "toFixed4_scaled 900000000000000 = 9000000000000000000" using round by (simp add: toFixed4_scaled_def)
  ultimately show "pg_numeric_in (fixed4_text (count_variance inp 0)) = Inr 9000000000000000000"
    by (simp add: pg_numeric_in_fixed4 numeric_19_4_fits_def)
qed

section \<open>Answers that promise too much, and too little\<close>

text \<open>An acknowledged movement can be lost. The probe for a negative balance is documented
  never to affect the write. When the new sum of a product no longer fits its column, the probe's
  query fails and the error is swallowed; the transaction is aborted by then, so its commit rolls
  back. The caller still gets the body of the new movement as if it were stored, but nothing has
  changed: no movement, no audit row, no event, no signal.\<close>

lemma acknowledged_movement_lost:
  assumes "signed_amount (cmQuantity inp)" and "pg_numeric_in (cmQuantity inp) = Inr v" and "v < 0"
    and "cmType inp = Outbound" and "cmProduct inp = Some p" and "js_trim (cmUnit inp) \<noteq> []"
    and "c = tenant_ctx (cmTenant inp)" and "movement_new c (manual_row inp ids now v) (invDb s)"
    and "unit_agrees c (cmStore inp) (Some p) (js_trim (cmUnit inp)) (invDb s)"
    and "audit_new c (manual_audit inp ids) (invDb s)" and "ids 2 \<notin> evId ` set (outbox (invDb s))"
    and "\<not> numeric_19_4_fits (on_hand c (cmStore inp) p (invDb s) + v)"
  shows "createStockMovement inp ids now s = (Inr (toMovementBody (manual_row inp ids now v)), s)"
proof -
  have "movement_input_error inp = None"
    using assms(1-6) by (intro movement_input_ok [of inp v]) simp_all
  then show ?thesis using assms by (intro createStockMovement_lost) simp_all
qed

text \<open>A store that is already down by nearly all the column holds.\<close>

definition deep_svc :: inv_svc where
  "deep_svc = demo_svc\<lparr>invDb := demo_db\<lparr>movements :=
     [demo_movement\<lparr>mvType := Outbound, mvQty := - 9999999999999999999\<rparr>]\<rparr>\<rparr>"

definition demo_sale :: create_movement_input where
  "demo_sale = \<lparr>cmTenant = 1, cmStore = 10, cmUser = 7, cmType = Outbound, cmQuantity = ''-2.5'', cmUnit = ''ea'',
     cmProduct = Some 5, cmReason = None, cmOccurred = None, cmSale = None, cmSaleLine = None, cmTerminal = None\<rparr>"

lemma demo_sale_sel [simp]:
  "cmTenant demo_sale = 1" "cmStore demo_sale = 10" "cmUser demo_sale = 7" "cmType demo_sale = Outbound"
  "cmQuantity demo_sale = ''-2.5''" "cmUnit demo_sale = ''ea''" "cmProduct demo_sale = Some 5" "cmReason demo_sale = None"
  by (simp_all add: demo_sale_def)

lemma demo_negative_amount: "signed_amount ''-2.5''" "pg_numeric_in ''-2.5'' = Inr (- 25000)"
  by code_simp+

theorem acknowledged_movement_lost_witness:
  "createStockMovement demo_sale demo_ids 2 deep_svc =
    (Inr (toMovementBody (manual_row demo_sale demo_ids 2 (- 25000))), deep_svc)"
proof -
  have "mvReason (manual_row demo_sale demo_ids 2 (- 25000)) = None" by (simp add: manual_row_def trimmed_reason_def)
  then show ?thesis
    using demo_negative_amount
    by (intro acknowledged_movement_lost [of demo_sale "- 25000" 5 "tenant_ctx 1"])
       (simp_all add: statement_simps deep_svc_def demo_svc_def demo_db_def demo_movement_def demo_ids_def manual_audit_def
          on_hand_def numeric_19_4_fits_def)
qed

text \<open>Another tenant's row blocks a product. The constraint on the stocking unit covers the rows
  of all tenants, while a transaction sees its own tenant's only. When some row of another tenant
  names the same store and product with another unit, this tenant's first movement of the product,
  valid in every respect, is answered with an internal error, not with the clean 400 the code
  documents: the query that should explain the conflict runs in the aborted transaction. Nothing is
  stored.\<close>

lemma foreign_unit_blocks_product:
  assumes "CreateStockMovementSchema b" and "requireContext req = Inr (t, u, scope)" and "authorizeStore scope st = None"
    and "pg_numeric_in (mrQuantity b) = Inr v" and "v \<noteq> 0" and "sign_ok (mrType b) v"
    and "js_trim (mrUnit b) \<noteq> []" and "mrType b = Adjustment \<Longrightarrow> trimmed_reason (mrReason b) \<noteq> None"
    and "mrProduct b = Some p" and "ids 0 \<notin> mvId ` set (movements (invDb s))"
    and "\<forall>m \<in> set (movements (invDb s)). mvStore m = st \<and> mvProduct m = Some p \<longrightarrow> mvTenant m \<noteq> t"
    and "x \<in> set (movements (invDb s))" and "mvStore x = st" and "mvProduct x = Some p" and "mvUnit x \<noteq> js_trim (mrUnit b)"
  shows "createStockMovement_route req (Some st) b ids now s = (Response_error 500 ''internal_error'', s)"
proof -
  let ?inp = "\<lparr>cmTenant = t, cmStore = st, cmUser = u, cmType = mrType b, cmQuantity = mrQuantity b, cmUnit = mrUnit b,
    cmProduct = mrProduct b, cmReason = mrReason b, cmOccurred = mrOccurred b, cmSale = mrSale b,
    cmSaleLine = mrSaleLine b, cmTerminal = mrTerminal b\<rparr>"
  have schema: "mrType b \<in> {Inbound, Outbound, Adjustment}" "signed_amount (mrQuantity b)" "reason_ok (mrReason b)"
    using assms(1) by (auto simp: CreateStockMovementSchema_def)
  have "movement_input_error ?inp = None"
    using schema assms(4-8) by (intro movement_input_ok [of ?inp v]) simp_all
  then have "createStockMovement ?inp ids now s = (Inl in_failed_transaction, s)"
    using schema assms(4,9-15)
    by (intro createStockMovement_blocked [of ?inp p v ids s x]) (auto simp: visible_movements_def filter_empty_conv)
  then show ?thesis
    using assms(1-3) by (simp add: createStockMovement_route_def created_def as_thrown_def)
qed

definition demo_request :: movement_request where
  "demo_request = \<lparr>mrType = Outbound, mrQuantity = ''-2.5'', mrUnit = ''kg'', mrProduct = Some 5, mrReason = None,
     mrOccurred = None, mrSale = None, mrSaleLine = None, mrTerminal = None\<rparr>"

theorem foreign_unit_blocks_product_witness:
  "createStockMovement_route (Some \<lparr>rcUser = Some 7, rcTenant = Some 2, rcStore = None, rcPlatformAdmin = False\<rparr>)
     (Some 10) demo_request demo_ids 2 demo_svc = (Response_error 500 ''internal_error'', demo_svc)"
proof -
  have "CreateStockMovementSchema demo_request"
    using demo_negative_amount(1) by (simp add: CreateStockMovementSchema_def demo_request_def unit_ok_def reason_ok_def)
  then show ?thesis
    using demo_negative_amount(2)
    by (intro foreign_unit_blocks_product [where v = "- 25000" and p = 5 and x = demo_movement and t = 2 and u = 7 and scope = None])
       (simp_all add: requireContext_def authorizeStore_def demo_request_def demo_svc_def demo_db_def demo_movement_def
          demo_ids_def js_trim_def is_space_def)
qed

end
