(* ===== verification/SaleSync.thy ===== *)
theory SaleSync
  imports Tenancy
begin

text \<open>
  The server-owned sync status of a sale: its values and transition table
  (apps/api/src/catalog/sales/sale-sync-status.ts) and the classification of sync failures
  (apps/worker/src/sales/sale-sync-failure-classifier.ts), two copies of one vocabulary.
\<close>

section \<open>Statuses and transitions\<close>

datatype sale_sync_status = Captured | Synced | Failed_retryable | Failed_needs_repair

fun status_text :: "sale_sync_status \<Rightarrow> string" where
  "status_text Captured = ''captured''"
| "status_text Synced = ''synced''"
| "status_text Failed_retryable = ''failed-retryable''"
| "status_text Failed_needs_repair = ''failed-needs-repair''"

definition SALE_SYNC_STATUS_VALUES :: "sale_sync_status list" where
  "SALE_SYNC_STATUS_VALUES = [Captured, Synced, Failed_retryable, Failed_needs_repair]"

fun SALE_SYNC_STATUS_TRANSITIONS :: "sale_sync_status \<Rightarrow> sale_sync_status list" where
  "SALE_SYNC_STATUS_TRANSITIONS Captured = [Synced, Failed_retryable, Failed_needs_repair]"
| "SALE_SYNC_STATUS_TRANSITIONS Failed_retryable = [Synced, Failed_needs_repair]"
| "SALE_SYNC_STATUS_TRANSITIONS Failed_needs_repair = [Failed_retryable]"
| "SALE_SYNC_STATUS_TRANSITIONS Synced = []"

definition isAllowedSaleSyncTransition :: "sale_sync_status \<Rightarrow> sale_sync_status \<Rightarrow> bool" where
  "isAllowedSaleSyncTransition a b \<longleftrightarrow> b \<in> set (SALE_SYNC_STATUS_TRANSITIONS a)"

datatype dead_letter_class = Retryable | Needs_repair

definition classificationForStatus :: "sale_sync_status \<Rightarrow> dead_letter_class option" where
  "classificationForStatus st =
     (case st of Failed_retryable \<Rightarrow> Some Retryable | Failed_needs_repair \<Rightarrow> Some Needs_repair | _ \<Rightarrow> None)"

section \<open>The failure classifier\<close>

datatype sync_failure_condition =
  Auth_invalid | Forbidden | Reconnect_auth_failure | Validation_failure | Transient

record sync_classification =
  scClass :: dead_letter_class
  scStatus :: sale_sync_status
  scReason :: string
  scAuthOwned :: bool
  scEscalation :: bool

definition classificationForFailureStatus :: "sale_sync_status \<Rightarrow> dead_letter_class" where
  "classificationForFailureStatus st = (if st = Failed_needs_repair then Needs_repair else Retryable)"

text \<open>The table's columns: status, reason code, owned by 028, flagged OQ-5.\<close>

fun classifier_entry :: "sync_failure_condition \<Rightarrow> sale_sync_status \<times> string \<times> bool \<times> bool" where
  "classifier_entry Auth_invalid = (Failed_retryable, ''auth_invalid'', True, False)"
| "classifier_entry Forbidden = (Failed_retryable, ''forbidden'', True, True)"
| "classifier_entry Reconnect_auth_failure = (Failed_retryable, ''reconnect_auth_failure'', True, True)"
| "classifier_entry Validation_failure = (Failed_needs_repair, ''validation_failure'', False, False)"
| "classifier_entry Transient = (Failed_retryable, ''transient_5xx'', False, False)"

definition classifySyncFailure :: "sync_failure_condition \<Rightarrow> sync_classification" where
  "classifySyncFailure k =
     (case classifier_entry k of (st, reason, owned, esc) \<Rightarrow>
        \<lparr>scClass = classificationForFailureStatus st, scStatus = st, scReason = reason,
         scAuthOwned = owned, scEscalation = esc\<rparr>)"

text \<open>The worker's copy agrees with the API's mapping, and the class and the status never drift apart.\<close>

lemma classifier_agrees: "Some (scClass (classifySyncFailure k)) = classificationForStatus (scStatus (classifySyncFailure k))"
  by (cases k) (simp_all add: classifySyncFailure_def classificationForStatus_def classificationForFailureStatus_def)

lemma classified_status:
  "scStatus (classifySyncFailure k) = (case scClass (classifySyncFailure k) of
     Retryable \<Rightarrow> Failed_retryable | Needs_repair \<Rightarrow> Failed_needs_repair)"
  by (cases k) (simp_all add: classifySyncFailure_def classificationForFailureStatus_def)

lemma classified_reason: "list_ex (\<lambda>c. c \<noteq> CHR '' '') (scReason (classifySyncFailure k))"
  by (cases k) (simp_all add: classifySyncFailure_def)

end
