(* ===== verification/Sales.thy ===== *)
theory Sales
  imports SaleSync Json Money Outbox Transaction Http "HOL-Library.List_Lexorder" "HOL-Library.Char_ord"
begin

text \<open>
  The sale facts: apps/api/src/catalog/sales/sales.service.ts over the tables of
  packages/db/src/schema/sales and migrations 0012 and 0026. A capture writes an immutable header
  with its lines, a void or a refund is a row of its own; only the processing state of a header
  changes later.

  Money columns are \<^typ>\<open>money\<close>, quantities \<open>numeric(19,6)\<close> an \<^typ>\<open>int\<close> of millionths, dates
  their text. The text of a request's timestamp comes with the instant it denotes. What the code
  takes from Node and PostgreSQL without defining it is the argument \<open>env\<close>: SHA-256, the calendar
  date of an instant in a named zone, and the collation order of texts.
\<close>

section \<open>Tables\<close>

record sale =
  saId :: uuid
  saTenant :: uuid
  saStore :: uuid
  saCurrency :: string
  saTotal :: money
  saOccurred :: timestamptz
  saReceived :: timestamptz
  saDate :: string
  saProcessed :: "timestamptz option"
  saStatus :: sale_sync_status
  saClock :: "timestamptz option"
  saSource :: string
  saExternal :: string
  saHash :: string
  saMismatch :: "bool option"
  saCreatedBy :: uuid

record sold_line =
  lnId :: uuid
  lnSale :: uuid
  lnTenant :: uuid
  lnStore :: uuid
  lnName :: string
  lnPrice :: money
  lnCurrency :: string
  lnQuantity :: int
  lnAmount :: money
  lnTax :: "money option"
  lnUnit :: string
  lnProduct :: "uuid option"

record sale_void =
  vdId :: uuid
  vdSale :: uuid
  vdTenant :: uuid
  vdStore :: uuid
  vdAt :: timestamptz
  vdSource :: string
  vdExternal :: string
  vdHash :: string
  vdCreatedBy :: uuid

record sale_refund =
  rfId :: uuid
  rfSale :: uuid
  rfTenant :: uuid
  rfStore :: uuid
  rfAt :: timestamptz
  rfAmount :: money
  rfCurrency :: string
  rfSource :: string
  rfExternal :: string
  rfHash :: string
  rfCreatedBy :: uuid

record deadletter =
  dlId :: uuid
  dlSale :: uuid
  dlTenant :: uuid
  dlStore :: uuid
  dlClass :: dead_letter_class
  dlReason :: string
  dlSource :: string
  dlExternal :: string
  dlCorrelation :: "uuid option"
  dlRetries :: nat
  dlAt :: timestamptz
  dlResolved :: "timestamptz option"

text \<open>A store is (id, tenant, time zone).\<close>

record sales_db =
  saleRows :: "sale list"
  soldLines :: "sold_line list"
  saleVoids :: "sale_void list"
  saleRefunds :: "sale_refund list"
  deadletters :: "deadletter list"
  saleEvents :: "outbox_event list"
  storeZones :: "(uuid \<times> uuid \<times> string) list"

record sales_env =
  sha256_hex :: "string \<Rightarrow> string"
  zone_date :: "string \<Rightarrow> timestamptz \<Rightarrow> string option"
  collation :: "string \<Rightarrow> nat"

section \<open>Statements\<close>

definition sql_bind :: "exn + 'a \<Rightarrow> ('a \<Rightarrow> exn + 'b) \<Rightarrow> exn + 'b" where
  "sql_bind r f = (case r of Inl e \<Rightarrow> Inl e | Inr a \<Rightarrow> f a)"

text \<open>\<open>currency_code ~ '^[A-Z]{3}$'\<close>\<close>

definition currency_ok :: "string \<Rightarrow> bool" where
  "currency_ok s \<longleftrightarrow> length s = 3 \<and> list_all (\<lambda>c. CHR ''A'' \<le> c \<and> c \<le> CHR ''Z'') s"

definition sale_key :: "sale \<Rightarrow> uuid \<times> string \<times> string" where
  "sale_key x = (saTenant x, saSource x, saExternal x)"

definition sale_scope :: "sale \<Rightarrow> uuid \<times> uuid \<times> uuid" where
  "sale_scope x = (saId x, saTenant x, saStore x)"

definition store_exists :: "uuid \<Rightarrow> sales_db \<Rightarrow> bool" where
  "store_exists st s \<longleftrightarrow> st \<in> fst ` set (storeZones s)"

text \<open>
  \<open>INSERT ... ON CONFLICT (tenant_id, source_system, external_id) DO NOTHING RETURNING\<close>: the policy
  and the CHECK constraints, then the provenance key (no row), then the primary and foreign keys.
\<close>

definition insert_sale :: "tenant_context \<Rightarrow> sale \<Rightarrow> sales_db \<Rightarrow> exn + (uuid option \<times> sales_db)" where
  "insert_sale c x s =
     (case sql_check (rls_tenant c (saTenant x)) (Pg_error ''42501'')
          (sql_check (currency_ok (saCurrency x)) check_violation
          (sql_check (0 \<le> saTotal x) check_violation None)) of
        Some e \<Rightarrow> Inl e
      | None \<Rightarrow>
          if sale_key x \<in> sale_key ` set (saleRows s) then Inr (None, s)
          else case sql_check (saId x \<notin> saId ` set (saleRows s)) unique_violation
                   (sql_check (store_exists (saStore x) s) fk_violation None) of
                 Some e \<Rightarrow> Inl e
               | None \<Rightarrow> Inr (Some (saId x), s\<lparr>saleRows := saleRows s @ [x]\<rparr>))"

definition insert_line :: "tenant_context \<Rightarrow> sold_line \<Rightarrow> sales_db \<Rightarrow> exn + (unit \<times> sales_db)" where
  "insert_line c l s =
     (case sql_check (rls_tenant c (lnTenant l)) (Pg_error ''42501'')
          (sql_check (currency_ok (lnCurrency l)) check_violation
          (sql_check (0 \<le> lnPrice l \<and> 0 \<le> lnAmount l \<and> 0 \<le> lnQuantity l) check_violation
          (sql_check (case lnTax l of None \<Rightarrow> True | Some v \<Rightarrow> 0 \<le> v) check_violation
          (sql_check (lnId l \<notin> lnId ` set (soldLines s)) unique_violation
          (sql_check (store_exists (lnStore l) s) fk_violation
          (sql_check ((lnSale l, lnTenant l, lnStore l) \<in> sale_scope ` set (saleRows s)) fk_violation None)))))) of
        Some e \<Rightarrow> Inl e
      | None \<Rightarrow> Inr ((), s\<lparr>soldLines := soldLines s @ [l]\<rparr>))"

definition insert_void :: "tenant_context \<Rightarrow> sale_void \<Rightarrow> sales_db \<Rightarrow> exn + (sale_void option \<times> sales_db)" where
  "insert_void c v s =
     (if \<not> rls_tenant c (vdTenant v) then Inl (Pg_error ''42501'')
      else if (vdTenant v, vdSource v, vdExternal v) \<in> (\<lambda>y. (vdTenant y, vdSource y, vdExternal y)) ` set (saleVoids s)
      then Inr (None, s)
      else case sql_check (vdId v \<notin> vdId ` set (saleVoids s)) unique_violation
               (sql_check (store_exists (vdStore v) s) fk_violation
               (sql_check ((vdSale v, vdTenant v, vdStore v) \<in> sale_scope ` set (saleRows s)) fk_violation None)) of
             Some e \<Rightarrow> Inl e
           | None \<Rightarrow> Inr (Some v, s\<lparr>saleVoids := saleVoids s @ [v]\<rparr>))"

definition insert_refund :: "tenant_context \<Rightarrow> sale_refund \<Rightarrow> sales_db \<Rightarrow> exn + (sale_refund option \<times> sales_db)" where
  "insert_refund c v s =
     (case sql_check (rls_tenant c (rfTenant v)) (Pg_error ''42501'')
          (sql_check (currency_ok (rfCurrency v)) check_violation
          (sql_check (0 \<le> rfAmount v) check_violation None)) of
        Some e \<Rightarrow> Inl e
      | None \<Rightarrow>
          if (rfTenant v, rfSource v, rfExternal v) \<in> (\<lambda>y. (rfTenant y, rfSource y, rfExternal y)) ` set (saleRefunds s)
          then Inr (None, s)
          else case sql_check (rfId v \<notin> rfId ` set (saleRefunds s)) unique_violation
                   (sql_check (store_exists (rfStore v) s) fk_violation
                   (sql_check ((rfSale v, rfTenant v, rfStore v) \<in> sale_scope ` set (saleRows s)) fk_violation None)) of
                 Some e \<Rightarrow> Inl e
               | None \<Rightarrow> Inr (Some v, s\<lparr>saleRefunds := saleRefunds s @ [v]\<rparr>))"

text \<open>\<open>SELECT ... FROM sales WHERE id = $1 AND store_id = $2\<close> under the tenant policy.\<close>

definition find_sale :: "tenant_context \<Rightarrow> uuid \<Rightarrow> uuid \<Rightarrow> sales_db \<Rightarrow> sale option" where
  "find_sale c i st s = find (\<lambda>x. rls_tenant c (saTenant x) \<and> saId x = i \<and> saStore x = st) (saleRows s)"

definition sale_emit :: "tenant_context \<Rightarrow> uuid \<Rightarrow> timestamptz \<Rightarrow> emit_input \<Rightarrow> (uuid, sales_db) action" where
  "sale_emit c i now inp =
     act_query (\<lambda>s. case emit i now inp c (saleEvents s) of
         Inl e \<Rightarrow> Inl e
       | Inr (j, rows) \<Rightarrow> Inr (j, s\<lparr>saleEvents := rows\<rparr>))"

text \<open>A \<open>uuid\<close> parameter.\<close>

definition pg_uuid_in :: "string \<Rightarrow> exn + uuid" where
  "pg_uuid_in s = (case parse_uuid s of None \<Rightarrow> Inl invalid_text | Some u \<Rightarrow> Inr u)"

text \<open>
  \<open>numeric(19,6)\<close>: thirteen integral digits. The input is a text of at most fifteen digits with at
  most six decimals (the request schema), so nothing is rounded.
\<close>

definition QUANTITY_RE :: "string \<Rightarrow> bool" where
  "QUANTITY_RE s =
     (let w = takeWhile is_digit s; rest = dropWhile is_digit s
      in 1 \<le> length w \<and> length w \<le> 15 \<and>
         (rest = [] \<or>
          (hd rest = CHR ''.'' \<and> 1 \<le> length (tl rest) \<and> length (tl rest) \<le> 6 \<and>
           list_all is_digit (tl rest))))"

definition pg_quantity_in :: "string \<Rightarrow> exn + int" where
  "pg_quantity_in s =
     (if QUANTITY_RE s
      then let w = takeWhile is_digit s; f = drop 1 (dropWhile is_digit s);
               v = decimal_value w * 10 ^ 6 + decimal_value (f @ replicate (6 - length f) CHR ''0'')
           in if v < 10 ^ 19 then Inr (int v) else Inl numeric_overflow
      else Inl invalid_text)"

definition pg_quantity_text :: "int \<Rightarrow> string" where
  "pg_quantity_text v =
     (if v < 0 then ''-'' else []) @ show_nat (nat \<bar>v\<bar> div 1000000) @ ''.'' @
     js_padStart 6 CHR ''0'' (show_nat (nat \<bar>v\<bar> mod 1000000))"

end
