(* ===== verification/SalesService.thy ===== *)
theory SalesService
  imports Sales
begin

text \<open>
  The operations of \<open>SalesService\<close> (apps/api/src/catalog/sales/sales.service.ts): capture with its
  provenance dedup, the read projection, and the two terminal events. The sale reference of a route
  is the text of the URL; it reaches the tables through \<^const>\<open>pg_uuid_in\<close>.
\<close>

section \<open>The payload hash\<close>

text \<open>\<open>canonicalJson\<close>: keys sorted, no white space. A body never holds a number.\<close>

fun canonicalJson :: "json \<Rightarrow> string" where
  "canonicalJson J_null = ''null''"
| "canonicalJson (J_bool b) = (if b then ''true'' else ''false'')"
| "canonicalJson (J_string s) = json_quote s"
| "canonicalJson (J_array xs) = ''['' @ sep_by CHR '','' (map canonicalJson xs) @ '']''"
| "canonicalJson (J_object fs) =
     ''{'' @ sep_by CHR '','' (map (\<lambda>(k, v). json_quote k @ '':'' @ v)
       (sort_key fst (map (\<lambda>(k, v). (k, canonicalJson v)) fs))) @ ''}''"

definition sha256CanonicalHex :: "sales_env \<Rightarrow> json \<Rightarrow> string" where
  "sha256CanonicalHex env v = sha256_hex env (canonicalJson v)"

section \<open>Requests\<close>

type_synonym iso_time = "string \<times> timestamptz"

record line_request =
  lqName :: string
  lqPrice :: string
  lqCurrency :: string
  lqQuantity :: string
  lqAmount :: string
  lqTax :: "string option"
  lqUnit :: string
  lqProduct :: "string option"

record capture_request =
  cqSource :: string
  cqExternal :: string
  cqCurrency :: string
  cqTotal :: string
  cqOccurred :: iso_time
  cqClock :: "iso_time option"
  cqLines :: "line_request list"

text \<open>The body as the schema hands it on: an optional key that was not sent is absent.\<close>

definition optional_key :: "string \<Rightarrow> string option \<Rightarrow> (string \<times> json) list" where
  "optional_key k v = (case v of None \<Rightarrow> [] | Some x \<Rightarrow> [(k, J_string x)])"

definition line_json :: "line_request \<Rightarrow> json" where
  "line_json l = J_object
     ([(''lineName'', J_string (lqName l)), (''unitPrice'', J_string (lqPrice l)),
       (''currencyCode'', J_string (lqCurrency l)), (''quantity'', J_string (lqQuantity l)),
       (''lineAmount'', J_string (lqAmount l))] @ optional_key ''taxAmount'' (lqTax l)
      @ [(''unit'', J_string (lqUnit l))] @ optional_key ''tenantProductRef'' (lqProduct l))"

definition capture_json :: "capture_request \<Rightarrow> json" where
  "capture_json b = J_object
     ([(''sourceSystem'', J_string (cqSource b)), (''externalId'', J_string (cqExternal b)),
       (''currencyCode'', J_string (cqCurrency b)), (''posTotal'', J_string (cqTotal b)),
       (''occurredAt'', J_string (fst (cqOccurred b)))]
      @ optional_key ''sourceClockAt'' (map_option fst (cqClock b))
      @ [(''lines'', J_array (map line_json (cqLines b)))])"

record capture_sale_input =
  ciTenant :: uuid
  ciStore :: uuid
  ciUser :: uuid
  ciBody :: capture_request

section \<open>Capture\<close>

text \<open>
  \<open>round(SUM(amt)::numeric, 4) <> $1::numeric\<close> over amounts of at most four decimals, where the sum
  is exact; no row to sum gives NULL.
\<close>

fun numerics_in :: "string list \<Rightarrow> exn + money list" where
  "numerics_in [] = Inr []"
| "numerics_in (s # ss) =
     (case pg_decimal_in s of
        None \<Rightarrow> Inl invalid_text
      | Some v \<Rightarrow> sql_bind (numerics_in ss) (\<lambda>vs. Inr (v # vs)))"

definition compare_totals :: "string \<Rightarrow> string list \<Rightarrow> exn + bool" where
  "compare_totals tot amounts =
     (case pg_decimal_in tot of
        None \<Rightarrow> Inl invalid_text
      | Some t \<Rightarrow> sql_bind (numerics_in amounts) (\<lambda>vs. Inr (vs \<noteq> [] \<and> sum_list vs \<noteq> t)))"

definition store_timezone :: "tenant_context \<Rightarrow> uuid \<Rightarrow> sales_db \<Rightarrow> string option" where
  "store_timezone c st s =
     map_option (\<lambda>(i, t, tz). tz) (find (\<lambda>(i, t, tz). i = st \<and> rls_tenant_or_admin c t) (storeZones s))"

definition sale_row ::
    "capture_sale_input \<Rightarrow> uuid \<Rightarrow> string \<Rightarrow> bool \<Rightarrow> timestamptz \<Rightarrow> string \<Rightarrow> money \<Rightarrow> sale" where
  "sale_row inp i hash mismatch now d tot =
     (let b = ciBody inp
      in \<lparr>saId = i, saTenant = ciTenant inp, saStore = ciStore inp, saCurrency = cqCurrency b,
          saTotal = tot, saOccurred = snd (cqOccurred b), saReceived = now, saDate = d,
          saProcessed = None, saStatus = Captured, saClock = map_option snd (cqClock b),
          saSource = cqSource b, saExternal = cqExternal b, saHash = hash, saMismatch = Some mismatch,
          saCreatedBy = ciUser inp\<rparr>)"

definition capture_insert ::
    "sales_env \<Rightarrow> capture_sale_input \<Rightarrow> uuid \<Rightarrow> bool \<Rightarrow> timestamptz \<Rightarrow> string \<Rightarrow> tenant_context \<Rightarrow> sales_db \<Rightarrow>
     exn + (uuid option \<times> sales_db)" where
  "capture_insert env inp i mismatch now tz c s =
     sql_bind (pg_numeric_in (cqTotal (ciBody inp))) (\<lambda>tot.
       case zone_date env tz (snd (cqOccurred (ciBody inp))) of
         None \<Rightarrow> Inl (Pg_error ''22023'')
       | Some d \<Rightarrow>
           insert_sale c (sale_row inp i (sha256CanonicalHex env (capture_json (ciBody inp))) mismatch now d tot) s)"

definition line_of :: "capture_sale_input \<Rightarrow> uuid \<Rightarrow> uuid \<Rightarrow> line_request \<Rightarrow> exn + sold_line" where
  "line_of inp sale i l =
     sql_bind (pg_numeric_in (lqPrice l)) (\<lambda>price.
     sql_bind (pg_quantity_in (lqQuantity l)) (\<lambda>quantity.
     sql_bind (pg_numeric_in (lqAmount l)) (\<lambda>amount.
     sql_bind (case lqTax l of None \<Rightarrow> Inr None | Some x \<Rightarrow> map_sum id Some (pg_numeric_in x)) (\<lambda>tax.
     sql_bind (case lqProduct l of None \<Rightarrow> Inr None | Some x \<Rightarrow> map_sum id Some (pg_uuid_in x)) (\<lambda>product.
       Inr \<lparr>lnId = i, lnSale = sale, lnTenant = ciTenant inp, lnStore = ciStore inp, lnName = lqName l,
            lnPrice = price, lnCurrency = lqCurrency l, lnQuantity = quantity, lnAmount = amount,
            lnTax = tax, lnUnit = lqUnit l, lnProduct = product\<rparr>)))))"

text \<open>The ids are drawn in order: the sale, its lines, the event.\<close>

fun insert_lines ::
    "capture_sale_input \<Rightarrow> uuid \<Rightarrow> id_source \<Rightarrow> nat \<Rightarrow> tenant_context \<Rightarrow> line_request list \<Rightarrow> (unit, sales_db) action" where
  "insert_lines inp sale ids k c [] = act_return ()"
| "insert_lines inp sale ids k c (l # ls) =
     act_then (act_query (\<lambda>s. sql_bind (line_of inp sale (ids k) l) (\<lambda>r. insert_line c r s)))
       (insert_lines inp sale ids (Suc k) c ls)"

definition captured_payload :: "uuid \<Rightarrow> uuid \<Rightarrow> json" where
  "captured_payload sale st = J_object [(''sale_id'', J_uuid sale), (''store_id'', J_uuid st)]"

definition sale_captured_input :: "uuid \<Rightarrow> uuid \<Rightarrow> uuid \<Rightarrow> emit_input" where
  "sale_captured_input t st sale =
     \<lparr>emType = ''sale.captured'', emTenant = t, emStore = Some st,
      emPayload = json_text (captured_payload sale st), emCorrelation = None, emOccurred = None\<rparr>"

definition find_provenance_sale :: "tenant_context \<Rightarrow> uuid \<times> string \<times> string \<Rightarrow> sales_db \<Rightarrow> sale option" where
  "find_provenance_sale c k s = find (\<lambda>x. rls_tenant c (saTenant x) \<and> sale_key x = k) (saleRows s)"

definition captureSale_work ::
    "sales_env \<Rightarrow> capture_sale_input \<Rightarrow> id_source \<Rightarrow> timestamptz \<Rightarrow> tenant_context \<Rightarrow> (uuid \<times> bool, sales_db) action" where
  "captureSale_work env inp ids now c =
     (let b = ciBody inp
      in act_bind (act_query (\<lambda>s. sql_bind (compare_totals (cqTotal b) (map lqAmount (cqLines b))) (\<lambda>m. Inr (m, s))))
           (\<lambda>mismatch.
         act_bind (act_select (store_timezone c (ciStore inp))) (\<lambda>tz.
           if tz = None \<or> tz = Some [] then act_throw (Js_error ''Error'')
           else act_bind (act_query (capture_insert env inp (ids 0) mismatch now (the tz) c)) (\<lambda>inserted.
             case inserted of
               None \<Rightarrow>
                 act_bind (act_select (find_provenance_sale c (ciTenant inp, cqSource b, cqExternal b))) (\<lambda>winner.
                   case winner of
                     None \<Rightarrow> act_throw (Js_error ''Error'')
                   | Some x \<Rightarrow> act_return (saId x, False))
             | Some i \<Rightarrow>
                 act_then (insert_lines inp i ids 1 c (cqLines b))
                (act_then (sale_emit c (ids (1 + length (cqLines b))) now
                             (sale_captured_input (ciTenant inp) (ciStore inp) i))
                (act_return (i, True)))))))"

section \<open>The projection\<close>

record line_body =
  lbName :: string
  lbPrice :: string
  lbCurrency :: string
  lbQuantity :: string
  lbAmount :: string
  lbTax :: "string option"
  lbUnit :: string
  lbProduct :: "uuid option"

record sale_body =
  sbRef :: uuid
  sbStore :: uuid
  sbCurrency :: string
  sbTotal :: string
  sbOccurred :: timestamptz
  sbReceived :: timestamptz
  sbDate :: string
  sbProcessed :: "timestamptz option"
  sbClock :: "timestamptz option"
  sbSource :: string
  sbExternal :: string
  sbMismatch :: bool
  sbStatus :: sale_sync_status
  sbLines :: "line_body list"

definition line_projection :: "sold_line \<Rightarrow> line_body" where
  "line_projection l =
     \<lparr>lbName = lnName l, lbPrice = pg_numeric_text (lnPrice l), lbCurrency = lnCurrency l,
      lbQuantity = pg_quantity_text (lnQuantity l), lbAmount = pg_numeric_text (lnAmount l),
      lbTax = map_option pg_numeric_text (lnTax l), lbUnit = lnUnit l, lbProduct = lnProduct l\<rparr>"

definition toBody :: "sale \<Rightarrow> sold_line list \<Rightarrow> sale_body" where
  "toBody x ls =
     \<lparr>sbRef = saId x, sbStore = saStore x, sbCurrency = saCurrency x, sbTotal = pg_numeric_text (saTotal x),
      sbOccurred = saOccurred x, sbReceived = saReceived x, sbDate = saDate x, sbProcessed = saProcessed x,
      sbClock = saClock x, sbSource = saSource x, sbExternal = saExternal x,
      sbMismatch = (case saMismatch x of None \<Rightarrow> False | Some m \<Rightarrow> m), sbStatus = saStatus x,
      sbLines = map line_projection ls\<rparr>"

definition lines_of_sale :: "tenant_context \<Rightarrow> uuid \<Rightarrow> sales_db \<Rightarrow> sold_line list" where
  "lines_of_sale c i s = filter (\<lambda>l. rls_tenant c (lnTenant l) \<and> lnSale l = i) (soldLines s)"

abbreviation "sale_not_found \<equiv> Js_error ''SaleNotFoundError''"

definition readSaleProjection :: "sales_env \<Rightarrow> uuid \<Rightarrow> uuid \<Rightarrow> uuid \<Rightarrow> sales_db \<Rightarrow> exn + sale_body" where
  "readSaleProjection env t st i s =
     (case find_sale (tenant_ctx t) i st s of
        None \<Rightarrow> Inl sale_not_found
      | Some x \<Rightarrow> Inr (toBody x (sort_key (\<lambda>l. collation env (lnName l)) (lines_of_sale (tenant_ctx t) i s))))"

text \<open>The projection is read in a transaction of its own, after the commit of the capture.\<close>

definition captureSale ::
    "sales_env \<Rightarrow> capture_sale_input \<Rightarrow> id_source \<Rightarrow> timestamptz \<Rightarrow> sales_db \<Rightarrow> (exn + (sale_body \<times> bool)) \<times> sales_db" where
  "captureSale env inp ids now s =
     (case runWithTenantContext (tenant_ctx (ciTenant inp)) (\<lambda>c. as_work (captureSale_work env inp ids now c)) s of
        (Inl e, s') \<Rightarrow> (Inl e, s')
      | (Inr (i, fresh), s') \<Rightarrow>
          (map_sum id (\<lambda>b. (b, fresh)) (readSaleProjection env (ciTenant inp) (ciStore inp) i s'), s'))"

section \<open>Terminal events\<close>

datatype terminal_kind = Kind_void | Kind_refund

record terminal_body =
  teRef :: uuid
  teSale :: string
  teKind :: terminal_kind
  teAt :: timestamptz
  teAmount :: "string option"
  teCurrency :: "string option"

definition toTerminalEvent ::
    "terminal_kind \<Rightarrow> uuid \<Rightarrow> string \<Rightarrow> timestamptz \<Rightarrow> string option \<Rightarrow> string option \<Rightarrow> terminal_body" where
  "toTerminalEvent kind i ref recorded amount currency =
     \<lparr>teRef = i, teSale = ref, teKind = kind, teAt = recorded, teAmount = amount, teCurrency = currency\<rparr>"

record void_request =
  vqSource :: string
  vqExternal :: string

record record_void_input =
  viTenant :: uuid
  viStore :: uuid
  viUser :: uuid
  viSale :: string
  viBody :: void_request

record refund_request =
  fqSource :: string
  fqExternal :: string
  fqAmount :: string
  fqCurrency :: string

record record_refund_input =
  fiTenant :: uuid
  fiStore :: uuid
  fiUser :: uuid
  fiSale :: string
  fiBody :: refund_request

definition void_json :: "void_request \<Rightarrow> json" where
  "void_json b = J_object [(''sourceSystem'', J_string (vqSource b)), (''externalId'', J_string (vqExternal b))]"

definition refund_json :: "refund_request \<Rightarrow> json" where
  "refund_json b = J_object
     [(''sourceSystem'', J_string (fqSource b)), (''externalId'', J_string (fqExternal b)),
      (''posRefundAmount'', J_string (fqAmount b)), (''currencyCode'', J_string (fqCurrency b))]"

abbreviation "provenance_conflict \<equiv> Js_error ''TerminalEventProvenanceConflictError''"

text \<open>The posting request of a terminal event: its anchor is the event's own row.\<close>

definition posting_payload :: "string \<Rightarrow> uuid \<Rightarrow> string \<Rightarrow> json \<Rightarrow> json" where
  "posting_payload sale st kind anchor = J_object
     [(''sale_id'', J_string sale), (''store_id'', J_uuid st), (''kind'', J_string kind), (''source_ref_id'', anchor)]"

definition posting_input :: "uuid \<Rightarrow> uuid \<Rightarrow> json \<Rightarrow> emit_input" where
  "posting_input t st payload =
     \<lparr>emType = ''erpnext.posting.requested'', emTenant = t, emStore = Some st, emPayload = json_text payload,
      emCorrelation = None, emOccurred = None\<rparr>"

definition sale_in_scope :: "tenant_context \<Rightarrow> string \<Rightarrow> uuid \<Rightarrow> sales_db \<Rightarrow> exn + (bool \<times> sales_db)" where
  "sale_in_scope c ref st s = sql_bind (pg_uuid_in ref) (\<lambda>i. Inr (find_sale c i st s \<noteq> None, s))"

definition void_row :: "sales_env \<Rightarrow> record_void_input \<Rightarrow> uuid \<Rightarrow> timestamptz \<Rightarrow> uuid \<Rightarrow> sale_void" where
  "void_row env inp i now sale =
     \<lparr>vdId = i, vdSale = sale, vdTenant = viTenant inp, vdStore = viStore inp, vdAt = now,
      vdSource = vqSource (viBody inp), vdExternal = vqExternal (viBody inp),
      vdHash = sha256CanonicalHex env (void_json (viBody inp)), vdCreatedBy = viUser inp\<rparr>"

definition find_void :: "tenant_context \<Rightarrow> uuid \<times> string \<times> string \<Rightarrow> sales_db \<Rightarrow> sale_void option" where
  "find_void c k s = find (\<lambda>v. rls_tenant c (vdTenant v) \<and> (vdTenant v, vdSource v, vdExternal v) = k) (saleVoids s)"

definition recordVoid_work ::
    "sales_env \<Rightarrow> record_void_input \<Rightarrow> id_source \<Rightarrow> timestamptz \<Rightarrow> tenant_context \<Rightarrow> (terminal_body \<times> bool, sales_db) action" where
  "recordVoid_work env inp ids now c =
     (let b = viBody inp
      in act_bind (act_query (sale_in_scope c (viSale inp) (viStore inp))) (\<lambda>found.
           if \<not> found then act_throw sale_not_found
           else act_bind (act_query (\<lambda>s. sql_bind (pg_uuid_in (viSale inp))
                  (\<lambda>sale. insert_void c (void_row env inp (ids 0) now sale) s))) (\<lambda>inserted.
             case inserted of
               None \<Rightarrow>
                 act_bind (act_select (find_void c (viTenant inp, vqSource b, vqExternal b))) (\<lambda>existing.
                   case existing of
                     None \<Rightarrow> act_throw (Js_error ''Error'')
                   | Some v \<Rightarrow>
                       if uuid_text (vdSale v) \<noteq> viSale inp then act_throw provenance_conflict
                       else act_return (toTerminalEvent Kind_void (vdId v) (uuid_text (vdSale v)) (vdAt v) None None, False))
             | Some v \<Rightarrow>
                 act_then (sale_emit c (ids 1) now (posting_input (viTenant inp) (viStore inp)
                             (posting_payload (viSale inp) (viStore inp) ''reversal'' (J_uuid (vdId v)))))
                (act_return (toTerminalEvent Kind_void (vdId v) (viSale inp) (vdAt v) None None, True)))))"

definition recordVoid ::
    "sales_env \<Rightarrow> record_void_input \<Rightarrow> id_source \<Rightarrow> timestamptz \<Rightarrow> sales_db \<Rightarrow> (exn + (terminal_body \<times> bool)) \<times> sales_db" where
  "recordVoid env inp ids now =
     runWithTenantContext (tenant_ctx (viTenant inp)) (\<lambda>c. as_work (recordVoid_work env inp ids now c))"

definition refund_row :: "sales_env \<Rightarrow> record_refund_input \<Rightarrow> uuid \<Rightarrow> timestamptz \<Rightarrow> uuid \<Rightarrow> money \<Rightarrow> sale_refund" where
  "refund_row env inp i now sale amount =
     \<lparr>rfId = i, rfSale = sale, rfTenant = fiTenant inp, rfStore = fiStore inp, rfAt = now, rfAmount = amount,
      rfCurrency = fqCurrency (fiBody inp), rfSource = fqSource (fiBody inp), rfExternal = fqExternal (fiBody inp),
      rfHash = sha256CanonicalHex env (refund_json (fiBody inp)), rfCreatedBy = fiUser inp\<rparr>"

definition find_refund :: "tenant_context \<Rightarrow> uuid \<times> string \<times> string \<Rightarrow> sales_db \<Rightarrow> sale_refund option" where
  "find_refund c k s = find (\<lambda>v. rls_tenant c (rfTenant v) \<and> (rfTenant v, rfSource v, rfExternal v) = k) (saleRefunds s)"

definition recordRefund_work ::
    "sales_env \<Rightarrow> record_refund_input \<Rightarrow> id_source \<Rightarrow> timestamptz \<Rightarrow> tenant_context \<Rightarrow> (terminal_body \<times> bool, sales_db) action" where
  "recordRefund_work env inp ids now c =
     (let b = fiBody inp
      in act_bind (act_query (sale_in_scope c (fiSale inp) (fiStore inp))) (\<lambda>found.
           if \<not> found then act_throw sale_not_found
           else act_bind (act_query (\<lambda>s. sql_bind (pg_uuid_in (fiSale inp)) (\<lambda>sale.
                  sql_bind (pg_numeric_in (fqAmount b))
                    (\<lambda>amount. insert_refund c (refund_row env inp (ids 0) now sale amount) s)))) (\<lambda>inserted.
             case inserted of
               None \<Rightarrow>
                 act_bind (act_select (find_refund c (fiTenant inp, fqSource b, fqExternal b))) (\<lambda>existing.
                   case existing of
                     None \<Rightarrow> act_throw (Js_error ''Error'')
                   | Some v \<Rightarrow>
                       if uuid_text (rfSale v) \<noteq> fiSale inp then act_throw provenance_conflict
                       else act_return
                         (toTerminalEvent Kind_refund (rfId v) (uuid_text (rfSale v)) (rfAt v)
                            (Some (pg_numeric_text (rfAmount v))) (Some (rfCurrency v)), False))
             | Some v \<Rightarrow>
                 act_then (sale_emit c (ids 1) now (posting_input (fiTenant inp) (fiStore inp)
                             (posting_payload (fiSale inp) (fiStore inp) ''reversal'' (J_uuid (rfId v)))))
                (act_return
                   (toTerminalEvent Kind_refund (rfId v) (fiSale inp) (rfAt v)
                      (Some (pg_numeric_text (rfAmount v))) (Some (rfCurrency v)), True)))))"

definition recordRefund ::
    "sales_env \<Rightarrow> record_refund_input \<Rightarrow> id_source \<Rightarrow> timestamptz \<Rightarrow> sales_db \<Rightarrow> (exn + (terminal_body \<times> bool)) \<times> sales_db" where
  "recordRefund env inp ids now =
     runWithTenantContext (tenant_ctx (fiTenant inp)) (\<lambda>c. as_work (recordRefund_work env inp ids now c))"

end
