(* ===== verification/SalesWorker.thy ===== *)
theory SalesWorker
  imports SalesService
begin

text \<open>
  What happens to a sale off the request path: the outbox consumer that turns its event into a job
  (apps/worker/src/outbox/consumers/sale-captured.consumer.ts), the processing of the job
  (apps/worker/src/sales/sale-processing.processor.ts) and the quarantine of a failed sync
  (apps/worker/src/sales/sale-sync-deadletter.producer.ts). The error log lines are left out.
\<close>

section \<open>From the event to the job\<close>

record processing_job =
  pjSale :: string
  pjTenant :: string
  pjStore :: string
  pjCorrelation :: "string option"

record queued_job =
  qjName :: string
  qjData :: processing_job
  qjId :: string

definition SALE_CAPTURED_CONSUMER_ID :: string where
  "SALE_CAPTURED_CONSUMER_ID = ''worker.sale.captured''"

text \<open>A field of a parsed payload that is the text of a UUID.\<close>

definition uuid_field :: "string \<Rightarrow> json \<Rightarrow> string option" where
  "uuid_field k j =
     (case j of
        J_object fs \<Rightarrow>
          (case map_of fs k of
             Some (J_string x) \<Rightarrow> if parse_uuid x = None then None else Some x
           | _ \<Rightarrow> None)
      | _ \<Rightarrow> None)"

text \<open>The payload column is \<open>jsonb\<close>; the driver parses it, \<open>parse\<close>.\<close>

definition saleCaptured_handle :: "(string \<Rightarrow> json option) \<Rightarrow> claimed_event \<Rightarrow> exn + queued_job" where
  "saleCaptured_handle parse e =
     (case parse (cePayload e) of
        None \<Rightarrow> Inl (Js_error ''Error'')
      | Some j \<Rightarrow>
          (case (uuid_field ''sale_id'' j, uuid_field ''store_id'' j) of
             (Some sale, Some st) \<Rightarrow>
               Inr \<lparr>qjName = ''sale-processing'',
                    qjData = \<lparr>pjSale = sale, pjTenant = uuid_text (ceTenant e), pjStore = st,
                              pjCorrelation = map_option uuid_text (ceCorrelation e)\<rparr>,
                    qjId = SALE_CAPTURED_CONSUMER_ID @ '':'' @ uuid_text (ceId e)\<rparr>
           | _ \<Rightarrow> Inl (Js_error ''Error'')))"

section \<open>Processing\<close>

record processing_result =
  prSale :: string
  prMismatch :: "bool option"
  prAt :: timestamptz
  prApplied :: bool

abbreviation "processing_not_found \<equiv> Js_error ''SaleProcessingNotFoundError''"

text \<open>
  \<open>UPDATE sales ... WHERE id AND store_id AND processed_at IS NULL RETURNING\<close>: the mismatch of the
  stored lines, the time and the status in one statement.
\<close>

definition processed_row :: "tenant_context \<Rightarrow> sales_db \<Rightarrow> timestamptz \<Rightarrow> sale \<Rightarrow> sale" where
  "processed_row c s now x =
     x\<lparr>saMismatch := Some (sum_list (map lnAmount (lines_of_sale c (saId x) s)) \<noteq> saTotal x),
       saProcessed := Some now, saStatus := Synced\<rparr>"

definition unprocessed :: "tenant_context \<Rightarrow> uuid \<Rightarrow> uuid \<Rightarrow> sale \<Rightarrow> bool" where
  "unprocessed c i st x \<longleftrightarrow> rls_tenant c (saTenant x) \<and> saId x = i \<and> saStore x = st \<and> saProcessed x = None"

definition update_processed ::
    "tenant_context \<Rightarrow> uuid \<Rightarrow> uuid \<Rightarrow> timestamptz \<Rightarrow> sales_db \<Rightarrow> exn + (sale option \<times> sales_db)" where
  "update_processed c i st now s =
     Inr (map_option (processed_row c s now) (find (unprocessed c i st) (saleRows s)),
          s\<lparr>saleRows := update_where (unprocessed c i st) (processed_row c s now) (saleRows s)\<rparr>)"

definition process_work ::
    "processing_job \<Rightarrow> uuid \<Rightarrow> uuid \<Rightarrow> uuid \<Rightarrow> uuid \<Rightarrow> timestamptz \<Rightarrow> tenant_context \<Rightarrow> (processing_result, sales_db) action" where
  "process_work job i t st ev now c =
     act_bind (act_select (find_sale c i st)) (\<lambda>found.
       if found = None then act_throw processing_not_found
       else act_bind (act_query (update_processed c i st now)) (\<lambda>updated.
         case updated of
           Some x \<Rightarrow>
             act_then (sale_emit c ev now (posting_input t st
                         (posting_payload (pjSale job) st ''sale_post'' (J_string (pjSale job)))))
            (act_return \<lparr>prSale = pjSale job, prMismatch = saMismatch x, prAt = now, prApplied = True\<rparr>)
         | None \<Rightarrow>
             act_bind (act_select (find_sale c i st)) (\<lambda>existing.
               case existing of
                 None \<Rightarrow> act_throw processing_not_found
               | Some x \<Rightarrow>
                   (case saProcessed x of
                      None \<Rightarrow> act_throw processing_not_found
                    | Some at \<Rightarrow>
                        act_return \<lparr>prSale = pjSale job, prMismatch = saMismatch x, prAt = at, prApplied = False\<rparr>))))"

definition processing_job_ids :: "processing_job \<Rightarrow> (uuid \<times> uuid \<times> uuid) option" where
  "processing_job_ids job =
     (case (parse_uuid (pjSale job), parse_uuid (pjTenant job), parse_uuid (pjStore job)) of
        (Some i, Some t, Some st) \<Rightarrow> Some (i, t, st)
      | _ \<Rightarrow> None)"

definition process :: "processing_job \<Rightarrow> uuid \<Rightarrow> timestamptz \<Rightarrow> sales_db \<Rightarrow> (exn + processing_result) \<times> sales_db" where
  "process job ev now s =
     (case processing_job_ids job of
        None \<Rightarrow> (Inl (Js_error ''Error''), s)
      | Some (i, t, st) \<Rightarrow> runWithTenantContext (tenant_ctx t) (\<lambda>c. as_work (process_work job i t st ev now c)) s)"

section \<open>Quarantine\<close>

record quarantine_input =
  qiSale :: string
  qiTenant :: string
  qiStore :: string
  qiCondition :: sync_failure_condition
  qiSource :: string
  qiExternal :: string
  qiCorrelation :: "string option"

record quarantine_result =
  qrSale :: string
  qrClass :: sync_classification
  qrQuarantined :: bool
  qrAdvanced :: bool

text \<open>\<open>INSERT ... ON CONFLICT (sale_id) WHERE resolved_at IS NULL DO NOTHING\<close>: one open row per sale.\<close>

definition open_deadletter :: "uuid \<Rightarrow> deadletter \<Rightarrow> bool" where
  "open_deadletter i d \<longleftrightarrow> dlSale d = i \<and> dlResolved d = None"

definition insert_deadletter :: "tenant_context \<Rightarrow> deadletter \<Rightarrow> sales_db \<Rightarrow> exn + (bool \<times> sales_db)" where
  "insert_deadletter c d s =
     (case sql_check (rls_tenant c (dlTenant d)) (Pg_error ''42501'')
          (sql_check (list_ex (\<lambda>x. x \<noteq> CHR '' '') (dlReason d)) check_violation None) of
        Some e \<Rightarrow> Inl e
      | None \<Rightarrow>
          if list_ex (open_deadletter (dlSale d)) (deadletters s) then Inr (False, s)
          else case sql_check (dlId d \<notin> dlId ` set (deadletters s)) unique_violation
                   (sql_check (store_exists (dlStore d) s) fk_violation
                   (sql_check ((dlSale d, dlTenant d, dlStore d) \<in> sale_scope ` set (saleRows s)) fk_violation None)) of
                 Some e \<Rightarrow> Inl e
               | None \<Rightarrow> Inr (True, s\<lparr>deadletters := deadletters s @ [d]\<rparr>))"

definition advance_status :: "tenant_context \<Rightarrow> uuid \<Rightarrow> uuid \<Rightarrow> sale_sync_status \<Rightarrow> sales_db \<Rightarrow> exn + (bool \<times> sales_db)" where
  "advance_status c i st to s =
     (let p = (\<lambda>x. rls_tenant c (saTenant x) \<and> saId x = i \<and> saStore x = st \<and> saStatus x \<noteq> Synced)
      in Inr (list_ex p (saleRows s), s\<lparr>saleRows := update_where p (\<lambda>x. x\<lparr>saStatus := to\<rparr>) (saleRows s)\<rparr>))"

definition deadletter_row ::
    "quarantine_input \<Rightarrow> uuid \<Rightarrow> uuid \<Rightarrow> uuid \<Rightarrow> uuid option \<Rightarrow> uuid \<Rightarrow> timestamptz \<Rightarrow> deadletter" where
  "deadletter_row inp i t st corr new now =
     \<lparr>dlId = new, dlSale = i, dlTenant = t, dlStore = st, dlClass = scClass (classifySyncFailure (qiCondition inp)),
      dlReason = scReason (classifySyncFailure (qiCondition inp)), dlSource = qiSource inp,
      dlExternal = qiExternal inp, dlCorrelation = corr, dlRetries = 0, dlAt = now, dlResolved = None\<rparr>"

definition quarantine_work ::
    "quarantine_input \<Rightarrow> uuid \<Rightarrow> uuid \<Rightarrow> uuid \<Rightarrow> uuid option \<Rightarrow> uuid \<Rightarrow> timestamptz \<Rightarrow> tenant_context \<Rightarrow>
     (quarantine_result, sales_db) action" where
  "quarantine_work inp i t st corr new now c =
     act_bind (act_select (find_sale c i st)) (\<lambda>found.
       if found = None then act_throw (Js_error ''QuarantineSaleNotFoundError'')
       else act_bind (act_query (insert_deadletter c (deadletter_row inp i t st corr new now))) (\<lambda>quarantined.
         act_bind (if quarantined
                   then act_query (advance_status c i st (scStatus (classifySyncFailure (qiCondition inp))))
                   else act_return False) (\<lambda>advanced.
           act_return \<lparr>qrSale = qiSale inp, qrClass = classifySyncFailure (qiCondition inp),
                       qrQuarantined = quarantined, qrAdvanced = advanced\<rparr>)))"

text \<open>\<open>assertInput\<close>: the ids of an input it accepts, with the correlation id.\<close>

definition quarantine_ids :: "quarantine_input \<Rightarrow> (uuid \<times> uuid \<times> uuid \<times> uuid option) option" where
  "quarantine_ids inp =
     (case (parse_uuid (qiSale inp), parse_uuid (qiTenant inp), parse_uuid (qiStore inp)) of
        (Some i, Some t, Some st) \<Rightarrow>
          if qiSource inp = [] \<or> qiExternal inp = [] then None
          else (case qiCorrelation inp of
                  None \<Rightarrow> Some (i, t, st, None)
                | Some x \<Rightarrow> (case parse_uuid x of None \<Rightarrow> None | Some u \<Rightarrow> Some (i, t, st, Some u)))
      | _ \<Rightarrow> None)"

definition quarantine :: "quarantine_input \<Rightarrow> uuid \<Rightarrow> timestamptz \<Rightarrow> sales_db \<Rightarrow> (exn + quarantine_result) \<times> sales_db" where
  "quarantine inp new now s =
     (case quarantine_ids inp of
        None \<Rightarrow> (Inl (Js_error ''Error''), s)
      | Some (i, t, st, corr) \<Rightarrow>
          runWithTenantContext (tenant_ctx t) (\<lambda>c. as_work (quarantine_work inp i t st corr new now c)) s)"

end
