(* ===== verification/SalesOps.thy ===== *)
theory SalesOps
  imports SalesWorker
begin

text \<open>
  The console's read and repair surface over the sync status of sales:
  apps/api/src/catalog/sale-sync-ops (read-model service, query schema and controller). The only
  write is the repair, which resolves an open needs-repair dead letter and re-queues its sale.
\<close>

section \<open>Reads\<close>

record dead_letter_detail =
  ddClass :: dead_letter_class
  ddReason :: string
  ddRetries :: nat
  ddAt :: timestamptz
  ddResolved :: "timestamptz option"

record sync_status_body =
  ssSale :: uuid
  ssStore :: uuid
  ssStatus :: sale_sync_status
  ssSource :: string
  ssExternal :: string
  ssProcessed :: "timestamptz option"
  ssDead :: "dead_letter_detail option"

abbreviation "sync_not_found \<equiv> Js_error ''SaleSyncNotFoundError''"
abbreviation "repair_conflict \<equiv> Js_error ''RepairConflictError''"

definition assertStoreInScope :: "uuid \<Rightarrow> uuid option \<Rightarrow> sales_db \<Rightarrow> exn + unit" where
  "assertStoreInScope t store s =
     (case store of
        None \<Rightarrow> Inr ()
      | Some st \<Rightarrow>
          if list_ex (\<lambda>(i, owner, tz). i = st \<and> rls_tenant_or_admin (tenant_ctx t) owner) (storeZones s)
          then Inr () else Inl (Js_error ''StoreNotInScopeError''))"

definition readSaleStatusRow :: "tenant_context \<Rightarrow> uuid \<Rightarrow> sales_db \<Rightarrow> sale option" where
  "readSaleStatusRow c i s = find (\<lambda>x. rls_tenant c (saTenant x) \<and> saId x = i) (saleRows s)"

text \<open>\<open>ORDER BY quarantined_at DESC LIMIT 1\<close> over the open rows.\<close>

definition readOpenDeadLetter :: "tenant_context \<Rightarrow> uuid \<Rightarrow> sales_db \<Rightarrow> deadletter option" where
  "readOpenDeadLetter c i s =
     (case order_desc dlAt (filter (\<lambda>d. rls_tenant c (dlTenant d) \<and> open_deadletter i d) (deadletters s)) of
        [] \<Rightarrow> None | d # _ \<Rightarrow> Some d)"

definition toStatusBody :: "sale \<Rightarrow> deadletter option \<Rightarrow> sync_status_body" where
  "toStatusBody x d =
     \<lparr>ssSale = saId x, ssStore = saStore x, ssStatus = saStatus x, ssSource = saSource x,
      ssExternal = saExternal x, ssProcessed = saProcessed x,
      ssDead = map_option (\<lambda>r. \<lparr>ddClass = dlClass r, ddReason = dlReason r, ddRetries = dlRetries r,
                                 ddAt = dlAt r, ddResolved = dlResolved r\<rparr>) d\<rparr>"

definition getSaleSyncStatus :: "uuid \<Rightarrow> uuid \<Rightarrow> sales_db \<Rightarrow> exn + sync_status_body" where
  "getSaleSyncStatus t i s =
     (case readSaleStatusRow (tenant_ctx t) i s of
        None \<Rightarrow> Inl sync_not_found
      | Some x \<Rightarrow> Inr (toStatusBody x (readOpenDeadLetter (tenant_ctx t) i s)))"

record needs_repair_item =
  niSale :: uuid
  niStore :: uuid
  niStatus :: sale_sync_status
  niSource :: string
  niExternal :: string
  niReason :: string
  niRetries :: nat
  niAt :: timestamptz

definition OPS_LIST_MAX_PAGE :: int where
  "OPS_LIST_MAX_PAGE = 200"

text \<open>The join of the open needs-repair rows with their sale.\<close>

definition repair_rows :: "tenant_context \<Rightarrow> uuid option \<Rightarrow> sales_db \<Rightarrow> (deadletter \<times> sale) list" where
  "repair_rows c store s =
     [(d, x). d \<leftarrow> deadletters s, x \<leftarrow> saleRows s,
        rls_tenant c (dlTenant d) \<and> rls_tenant c (saTenant x) \<and> saId x = dlSale d \<and>
        dlClass d = Needs_repair \<and> dlResolved d = None \<and> (store = None \<or> store = Some (saStore x))]"

definition listNeedsRepair ::
    "uuid \<Rightarrow> uuid option \<Rightarrow> uuid option \<Rightarrow> int \<Rightarrow> sales_db \<Rightarrow> needs_repair_item list \<times> uuid option" where
  "listNeedsRepair t store cursor limit s =
     (let n = nat (min (max 1 limit) OPS_LIST_MAX_PAGE);
          page = keyset_page (\<lambda>(d, x). dlSale d) (\<lambda>_. True) cursor n (repair_rows (tenant_ctx t) store s)
      in (map (\<lambda>(d, x). \<lparr>niSale = dlSale d, niStore = saStore x, niStatus = saStatus x, niSource = dlSource d,
                 niExternal = dlExternal d, niReason = dlReason d, niRetries = dlRetries d, niAt = dlAt d\<rparr>) page,
          keyset_next (\<lambda>(d, x). dlSale d) n page))"

record timeline_entry =
  tlAt :: timestamptz
  tlEvent :: string
  tlCorrelation :: "uuid option"

definition deadletter_entries :: "deadletter \<Rightarrow> timeline_entry list" where
  "deadletter_entries d =
     \<lparr>tlAt = dlAt d,
      tlEvent = (if dlClass d = Needs_repair then ''sync.needs_repair'' else ''sync.retryable''),
      tlCorrelation = dlCorrelation d\<rparr>
     # (case dlResolved d of
          None \<Rightarrow> []
        | Some at \<Rightarrow> [\<lparr>tlAt = at, tlEvent = ''repair.resolved'', tlCorrelation = dlCorrelation d\<rparr>])"

text \<open>The texts sort as the milliseconds they show; the sort is stable.\<close>

definition getSaleAuditTimeline :: "uuid \<Rightarrow> uuid \<Rightarrow> sales_db \<Rightarrow> exn + (uuid \<times> timeline_entry list)" where
  "getSaleAuditTimeline t i s =
     (case readSaleStatusRow (tenant_ctx t) i s of
        None \<Rightarrow> Inl sync_not_found
      | Some x \<Rightarrow>
          Inr (saId x, sort_key (\<lambda>e. tlAt e div 1000)
            ([\<lparr>tlAt = saReceived x, tlEvent = ''sale.captured'', tlCorrelation = None\<rparr>]
             @ (case saProcessed x of
                  None \<Rightarrow> []
                | Some at \<Rightarrow> [\<lparr>tlAt = at, tlEvent = ''sync.synced'', tlCorrelation = None\<rparr>])
             @ concat (map deadletter_entries
                 (sort_key dlAt (filter (\<lambda>d. rls_tenant (tenant_ctx t) (dlTenant d) \<and> dlSale d = i) (deadletters s)))))))"

section \<open>Repair\<close>

definition resolve_deadletter :: "tenant_context \<Rightarrow> uuid \<Rightarrow> timestamptz \<Rightarrow> sales_db \<Rightarrow> exn + (bool \<times> sales_db)" where
  "resolve_deadletter c i now s =
     (let p = (\<lambda>d. rls_tenant c (dlTenant d) \<and> dlClass d = Needs_repair \<and> open_deadletter i d)
      in Inr (list_ex p (deadletters s),
              s\<lparr>deadletters := update_where p (\<lambda>d. d\<lparr>dlResolved := Some now, dlRetries := dlRetries d + 1\<rparr>) (deadletters s)\<rparr>))"

definition requeue_sale :: "tenant_context \<Rightarrow> uuid \<Rightarrow> sales_db \<Rightarrow> exn + (unit \<times> sales_db)" where
  "requeue_sale c i s =
     Inr ((), s\<lparr>saleRows := update_where (\<lambda>x. rls_tenant c (saTenant x) \<and> saId x = i)
                  (\<lambda>x. x\<lparr>saStatus := Failed_retryable\<rparr>) (saleRows s)\<rparr>)"

definition repairSaleSync_work :: "uuid \<Rightarrow> timestamptz \<Rightarrow> tenant_context \<Rightarrow> (sync_status_body, sales_db) action" where
  "repairSaleSync_work i now c =
     act_bind (act_select (readSaleStatusRow c i)) (\<lambda>row. case row of
         None \<Rightarrow> act_throw sync_not_found
       | Some x \<Rightarrow>
           if saStatus x \<noteq> Failed_needs_repair then act_throw repair_conflict
           else act_bind (act_query (resolve_deadletter c i now)) (\<lambda>resolved.
             if \<not> resolved then act_throw repair_conflict
             else act_then (act_query (requeue_sale c i))
                 (act_bind (act_select (readSaleStatusRow c i)) (\<lambda>after. case after of
                      None \<Rightarrow> act_throw sync_not_found
                    | Some y \<Rightarrow>
                        act_bind (act_select (readOpenDeadLetter c i)) (\<lambda>d. act_return (toStatusBody y d))))))"

definition repairSaleSync :: "uuid \<Rightarrow> uuid \<Rightarrow> timestamptz \<Rightarrow> sales_db \<Rightarrow> (exn + sync_status_body) \<times> sales_db" where
  "repairSaleSync t i now =
     runWithTenantContext (tenant_ctx t) (\<lambda>c. as_work (repairSaleSync_work i now c))"

section \<open>Routes\<close>

definition ops_requireTenant :: "request_context \<Rightarrow> thrown + uuid" where
  "ops_requireTenant req =
     (case req of
        None \<Rightarrow> Inl (Http_exception 401 None)
      | Some c \<Rightarrow> (case rcTenant c of None \<Rightarrow> Inl (Http_exception 401 None) | Some t \<Rightarrow> Inr t))"

definition assertSaleRef :: "string \<Rightarrow> thrown + uuid" where
  "assertSaleRef ref =
     (case parse_uuid ref of None \<Rightarrow> Inl (Http_exception 400 (Some ''validation_failure'')) | Some i \<Rightarrow> Inr i)"

definition tenant_and_sale :: "request_context \<Rightarrow> string \<Rightarrow> thrown + (uuid \<times> uuid)" where
  "tenant_and_sale req ref =
     (case ops_requireTenant req of
        Inl e \<Rightarrow> Inl e
      | Inr t \<Rightarrow> (case assertSaleRef ref of Inl e \<Rightarrow> Inl e | Inr i \<Rightarrow> Inr (t, i)))"

definition withNotFound :: "exn + 'a \<Rightarrow> thrown + 'a" where
  "withNotFound r =
     (case r of
        Inr a \<Rightarrow> Inr a
      | Inl e \<Rightarrow> if e = sync_not_found then Inl (Http_exception 404 (Some ''not_found'')) else Inl (Unhandled e))"

definition getStatus_route :: "request_context \<Rightarrow> string \<Rightarrow> sales_db \<Rightarrow> sync_status_body response" where
  "getStatus_route req ref s =
     respond 200
       (case tenant_and_sale req ref of
          Inl e \<Rightarrow> Inl e
        | Inr (t, i) \<Rightarrow> withNotFound (getSaleSyncStatus t i s))"

definition getAuditTimeline_route :: "request_context \<Rightarrow> string \<Rightarrow> sales_db \<Rightarrow> (uuid \<times> timeline_entry list) response" where
  "getAuditTimeline_route req ref s =
     respond 200
       (case tenant_and_sale req ref of
          Inl e \<Rightarrow> Inl e
        | Inr (t, i) \<Rightarrow> withNotFound (getSaleAuditTimeline t i s))"

text \<open>The cursor must have the version and variant nibbles of a UUIDv7.\<close>

definition uuid_v7 :: "uuid \<Rightarrow> bool" where
  "uuid_v7 u \<longleftrightarrow> u div 16 ^ 19 mod 16 = 7 \<and> 8 \<le> u div 16 ^ 15 mod 16 \<and> u div 16 ^ 15 mod 16 \<le> 11"

record repair_query =
  rqStore :: "uuid option"
  rqCursor :: "uuid option"
  rqSize :: "int option"

definition NeedsRepairListQuerySchema :: "repair_query \<Rightarrow> bool" where
  "NeedsRepairListQuerySchema q \<longleftrightarrow>
     (case rqCursor q of None \<Rightarrow> True | Some u \<Rightarrow> uuid_v7 u) \<and>
     (case rqSize q of None \<Rightarrow> True | Some n \<Rightarrow> 1 \<le> n \<and> n \<le> 200)"

definition listNeedsRepair_route ::
    "request_context \<Rightarrow> repair_query \<Rightarrow> sales_db \<Rightarrow> (needs_repair_item list \<times> uuid option) response" where
  "listNeedsRepair_route req q s =
     respond 200
       (if \<not> NeedsRepairListQuerySchema q then Inl Zod_error
        else case ops_requireTenant req of
          Inl e \<Rightarrow> Inl e
        | Inr t \<Rightarrow>
            (case assertStoreInScope t (rqStore q) s of
               Inl e \<Rightarrow> Inl (Http_exception 404 (Some ''not_found''))
             | Inr _ \<Rightarrow> Inr (listNeedsRepair t (rqStore q) (rqCursor q)
                          (case rqSize q of None \<Rightarrow> 50 | Some n \<Rightarrow> n) s)))"

definition repair_route :: "request_context \<Rightarrow> string \<Rightarrow> timestamptz \<Rightarrow> sales_db \<Rightarrow> sync_status_body response \<times> sales_db" where
  "repair_route req ref now s =
     (case tenant_and_sale req ref of
        Inl e \<Rightarrow> (respond 201 (Inl e), s)
      | Inr (t, i) \<Rightarrow>
          (case repairSaleSync t i now s of
             (Inr b, s') \<Rightarrow> (respond 201 (Inr b), s')
           | (Inl e, s') \<Rightarrow>
               (respond 201 (Inl (if e = sync_not_found then Http_exception 404 (Some ''not_found'')
                                  else if e = repair_conflict then Http_exception 409 (Some ''repair_conflict'')
                                  else Unhandled e)), s')))"

end
