(* ===== verification/SalesHttp.thy ===== *)
theory SalesHttp
  imports SalesOps
begin

text \<open>
  The routes of apps/api/src/catalog/sales/sales.controller.ts with their request schemas, and the
  machine of all operations that write sale tables: the three write routes, the processing and
  quarantine jobs, and the repair. The header \<open>Idempotent-Replayed\<close> is set exactly on the 200
  responses of the write routes. The guards run before the handlers and are not modelled.
\<close>

section \<open>Request schemas\<close>

definition text_ok :: "nat \<Rightarrow> string \<Rightarrow> bool" where
  "text_ok n x \<longleftrightarrow> 1 \<le> length x \<and> length x \<le> n"

definition CaptureSaleLineSchema :: "line_request \<Rightarrow> bool" where
  "CaptureSaleLineSchema l \<longleftrightarrow>
     text_ok 500 (lqName l) \<and> MONEY_RE (lqPrice l) \<and> currency_ok (lqCurrency l) \<and> QUANTITY_RE (lqQuantity l) \<and>
     MONEY_RE (lqAmount l) \<and> (case lqTax l of None \<Rightarrow> True | Some x \<Rightarrow> MONEY_RE x) \<and> text_ok 50 (lqUnit l) \<and>
     (case lqProduct l of None \<Rightarrow> True | Some x \<Rightarrow> parse_uuid x \<noteq> None)"

definition CaptureSaleRequestSchema :: "capture_request \<Rightarrow> bool" where
  "CaptureSaleRequestSchema b \<longleftrightarrow>
     text_ok 100 (cqSource b) \<and> text_ok 200 (cqExternal b) \<and> currency_ok (cqCurrency b) \<and> MONEY_RE (cqTotal b) \<and>
     cqLines b \<noteq> [] \<and> list_all CaptureSaleLineSchema (cqLines b)"

definition RecordVoidRequestSchema :: "void_request \<Rightarrow> bool" where
  "RecordVoidRequestSchema b \<longleftrightarrow> text_ok 100 (vqSource b) \<and> text_ok 200 (vqExternal b)"

definition RecordRefundRequestSchema :: "refund_request \<Rightarrow> bool" where
  "RecordRefundRequestSchema b \<longleftrightarrow>
     text_ok 100 (fqSource b) \<and> text_ok 200 (fqExternal b) \<and> MONEY_RE (fqAmount b) \<and> currency_ok (fqCurrency b)"

section \<open>Context\<close>

text \<open>A write needs a tenant, a user and a store; a read no user.\<close>

definition write_context :: "request_context \<Rightarrow> thrown + (uuid \<times> uuid \<times> uuid)" where
  "write_context req =
     (case req of
        None \<Rightarrow> Inl (Http_exception 401 None)
      | Some c \<Rightarrow>
          (case (rcTenant c, rcUser c, rcStore c) of
             (Some t, Some u, Some st) \<Rightarrow> Inr (t, u, st)
           | _ \<Rightarrow> Inl (Http_exception 401 None)))"

definition read_context :: "request_context \<Rightarrow> thrown + (uuid \<times> uuid)" where
  "read_context req =
     (case req of
        None \<Rightarrow> Inl (Http_exception 401 None)
      | Some c \<Rightarrow>
          (case (rcTenant c, rcStore c) of
             (Some t, Some st) \<Rightarrow> Inr (t, st)
           | _ \<Rightarrow> Inl (Http_exception 401 None)))"

section \<open>Routes\<close>

text \<open>201 for a fresh row, 200 for a replay.\<close>

definition created_or_replayed :: "(exn \<Rightarrow> thrown) \<Rightarrow> (exn + ('a \<times> bool)) \<times> 's \<Rightarrow> 'a response \<times> 's" where
  "created_or_replayed f r =
     (case r of
        (Inr (b, fresh), s) \<Rightarrow> (respond (if fresh then 201 else 200) (Inr b), s)
      | (Inl e, s) \<Rightarrow> (respond 201 (Inl (f e)), s))"

definition terminal_thrown :: "exn \<Rightarrow> thrown" where
  "terminal_thrown e =
     (if e = sale_not_found then Http_exception 404 None
      else if e = provenance_conflict then Http_exception 409 None
      else Unhandled e)"

definition captureSale_route ::
    "sales_env \<Rightarrow> request_context \<Rightarrow> capture_request \<Rightarrow> id_source \<Rightarrow> timestamptz \<Rightarrow> sales_db \<Rightarrow> sale_body response \<times> sales_db" where
  "captureSale_route env req b ids now s =
     (if \<not> CaptureSaleRequestSchema b then (respond 201 (Inl Zod_error), s)
      else case write_context req of
        Inl e \<Rightarrow> (respond 201 (Inl e), s)
      | Inr (t, u, st) \<Rightarrow>
          created_or_replayed Unhandled
            (captureSale env \<lparr>ciTenant = t, ciStore = st, ciUser = u, ciBody = b\<rparr> ids now s))"

definition readSale_route :: "sales_env \<Rightarrow> request_context \<Rightarrow> string \<Rightarrow> sales_db \<Rightarrow> sale_body response" where
  "readSale_route env req ref s =
     respond 200
       (case read_context req of
          Inl e \<Rightarrow> Inl e
        | Inr (t, st) \<Rightarrow>
            (case parse_uuid ref of
               None \<Rightarrow> Inl (Http_exception 404 None)
             | Some i \<Rightarrow>
                 (case readSaleProjection env t st i s of
                    Inr b \<Rightarrow> Inr b
                  | Inl e \<Rightarrow> Inl (if e = sale_not_found then Http_exception 404 None else Unhandled e))))"

definition recordVoid_route ::
    "sales_env \<Rightarrow> request_context \<Rightarrow> string \<Rightarrow> void_request \<Rightarrow> id_source \<Rightarrow> timestamptz \<Rightarrow> sales_db \<Rightarrow>
     terminal_body response \<times> sales_db" where
  "recordVoid_route env req ref b ids now s =
     (if \<not> RecordVoidRequestSchema b then (respond 201 (Inl Zod_error), s)
      else case write_context req of
        Inl e \<Rightarrow> (respond 201 (Inl e), s)
      | Inr (t, u, st) \<Rightarrow>
          if parse_uuid ref = None then (respond 201 (Inl (Http_exception 404 None)), s)
          else created_or_replayed terminal_thrown
            (recordVoid env \<lparr>viTenant = t, viStore = st, viUser = u, viSale = ref, viBody = b\<rparr> ids now s))"

definition recordRefund_route ::
    "sales_env \<Rightarrow> request_context \<Rightarrow> string \<Rightarrow> refund_request \<Rightarrow> id_source \<Rightarrow> timestamptz \<Rightarrow> sales_db \<Rightarrow>
     terminal_body response \<times> sales_db" where
  "recordRefund_route env req ref b ids now s =
     (if \<not> RecordRefundRequestSchema b then (respond 201 (Inl Zod_error), s)
      else case write_context req of
        Inl e \<Rightarrow> (respond 201 (Inl e), s)
      | Inr (t, u, st) \<Rightarrow>
          if parse_uuid ref = None then (respond 201 (Inl (Http_exception 404 None)), s)
          else created_or_replayed terminal_thrown
            (recordRefund env \<lparr>fiTenant = t, fiStore = st, fiUser = u, fiSale = ref, fiBody = b\<rparr> ids now s))"

section \<open>The machine of the sale tables\<close>

datatype sales_op =
    Post_capture request_context capture_request id_source timestamptz
  | Post_void request_context string void_request id_source timestamptz
  | Post_refund request_context string refund_request id_source timestamptz
  | Process_sale processing_job uuid timestamptz
  | Quarantine_sale quarantine_input uuid timestamptz
  | Post_repair request_context string timestamptz

fun sales_step :: "sales_env \<Rightarrow> sales_op \<Rightarrow> sales_db \<Rightarrow> sales_db" where
  "sales_step env (Post_capture req b ids now) s = snd (captureSale_route env req b ids now s)"
| "sales_step env (Post_void req ref b ids now) s = snd (recordVoid_route env req ref b ids now s)"
| "sales_step env (Post_refund req ref b ids now) s = snd (recordRefund_route env req ref b ids now s)"
| "sales_step env (Process_sale job ev now) s = snd (process job ev now s)"
| "sales_step env (Quarantine_sale inp new now) s = snd (quarantine inp new now s)"
| "sales_step env (Post_repair req ref now) s = snd (repair_route req ref now s)"

fun sales_run :: "sales_env \<Rightarrow> sales_op list \<Rightarrow> sales_db \<Rightarrow> sales_db" where
  "sales_run env [] s = s"
| "sales_run env (op # ops) s = sales_run env ops (sales_step env op s)"

end
