(* ===== verification/SalesFacts.thy ===== *)
theory SalesFacts
  imports SalesHttp
begin

text \<open>
  What the operations on sale tables do when their transaction commits: the statements, the shared
  steps, then one effect lemma per operation. An operation that returns has committed what its
  statements built, because no one of them catches the error of a statement.
\<close>

section \<open>Statements\<close>

lemma sql_bind_Inr [run_simps]: "sql_bind r f = Inr b \<longleftrightarrow> (\<exists>a. r = Inr a \<and> f a = Inr b)"
  by (auto simp: sql_bind_def split: sum.splits)

definition sale_new :: "tenant_context \<Rightarrow> sale \<Rightarrow> sales_db \<Rightarrow> bool" where
  "sale_new c x s \<longleftrightarrow> rls_tenant c (saTenant x) \<and> currency_ok (saCurrency x) \<and> 0 \<le> saTotal x \<and>
     sale_key x \<notin> sale_key ` set (saleRows s) \<and> saId x \<notin> saId ` set (saleRows s) \<and> store_exists (saStore x) s"

lemma insert_sale_Some [run_simps]:
  "insert_sale c x s = Inr (Some i, s') \<longleftrightarrow> i = saId x \<and> sale_new c x s \<and> s' = s\<lparr>saleRows := saleRows s @ [x]\<rparr>"
  unfolding insert_sale_def by (simp only: sql_check_then) (auto simp: sale_new_def sql_check_def)

lemma insert_sale_None [run_simps]:
  "insert_sale c x s = Inr (None, s') \<longleftrightarrow> rls_tenant c (saTenant x) \<and> currency_ok (saCurrency x) \<and> 0 \<le> saTotal x \<and>
     sale_key x \<in> sale_key ` set (saleRows s) \<and> s' = s"
  unfolding insert_sale_def by (simp only: sql_check_then) (auto simp: sql_check_def)

definition line_new :: "tenant_context \<Rightarrow> sold_line \<Rightarrow> sales_db \<Rightarrow> bool" where
  "line_new c l s \<longleftrightarrow> rls_tenant c (lnTenant l) \<and> currency_ok (lnCurrency l) \<and> 0 \<le> lnPrice l \<and> 0 \<le> lnAmount l \<and>
     0 \<le> lnQuantity l \<and> (\<forall>v. lnTax l = Some v \<longrightarrow> 0 \<le> v) \<and> lnId l \<notin> lnId ` set (soldLines s) \<and>
     store_exists (lnStore l) s \<and> (lnSale l, lnTenant l, lnStore l) \<in> sale_scope ` set (saleRows s)"

lemma insert_line_Inr [run_simps]:
  "insert_line c l s = Inr (u, s') \<longleftrightarrow> line_new c l s \<and> s' = s\<lparr>soldLines := soldLines s @ [l]\<rparr>"
  unfolding insert_line_def line_new_def
  by (simp only: sql_check_then) (auto split: option.splits)

definition void_new :: "tenant_context \<Rightarrow> sale_void \<Rightarrow> sales_db \<Rightarrow> bool" where
  "void_new c v s \<longleftrightarrow> rls_tenant c (vdTenant v) \<and>
     (vdTenant v, vdSource v, vdExternal v) \<notin> (\<lambda>y. (vdTenant y, vdSource y, vdExternal y)) ` set (saleVoids s) \<and>
     vdId v \<notin> vdId ` set (saleVoids s) \<and> store_exists (vdStore v) s \<and>
     (vdSale v, vdTenant v, vdStore v) \<in> sale_scope ` set (saleRows s)"

lemma insert_void_Some [run_simps]:
  "insert_void c v s = Inr (Some v', s') \<longleftrightarrow> v' = v \<and> void_new c v s \<and> s' = s\<lparr>saleVoids := saleVoids s @ [v]\<rparr>"
  unfolding insert_void_def by (simp only: sql_check_then) (auto simp: void_new_def sql_check_def)

lemma insert_void_None [run_simps]:
  "insert_void c v s = Inr (None, s') \<longleftrightarrow> rls_tenant c (vdTenant v) \<and>
     (vdTenant v, vdSource v, vdExternal v) \<in> (\<lambda>y. (vdTenant y, vdSource y, vdExternal y)) ` set (saleVoids s) \<and> s' = s"
  unfolding insert_void_def by (simp only: sql_check_then) (auto simp: sql_check_def)

definition refund_new :: "tenant_context \<Rightarrow> sale_refund \<Rightarrow> sales_db \<Rightarrow> bool" where
  "refund_new c v s \<longleftrightarrow> rls_tenant c (rfTenant v) \<and> currency_ok (rfCurrency v) \<and> 0 \<le> rfAmount v \<and>
     (rfTenant v, rfSource v, rfExternal v) \<notin> (\<lambda>y. (rfTenant y, rfSource y, rfExternal y)) ` set (saleRefunds s) \<and>
     rfId v \<notin> rfId ` set (saleRefunds s) \<and> store_exists (rfStore v) s \<and>
     (rfSale v, rfTenant v, rfStore v) \<in> sale_scope ` set (saleRows s)"

lemma insert_refund_Some [run_simps]:
  "insert_refund c v s = Inr (Some v', s') \<longleftrightarrow> v' = v \<and> refund_new c v s \<and> s' = s\<lparr>saleRefunds := saleRefunds s @ [v]\<rparr>"
  unfolding insert_refund_def by (simp only: sql_check_then) (auto simp: refund_new_def sql_check_def)

lemma insert_refund_None [run_simps]:
  "insert_refund c v s = Inr (None, s') \<longleftrightarrow> rls_tenant c (rfTenant v) \<and> currency_ok (rfCurrency v) \<and> 0 \<le> rfAmount v \<and>
     (rfTenant v, rfSource v, rfExternal v) \<in> (\<lambda>y. (rfTenant y, rfSource y, rfExternal y)) ` set (saleRefunds s) \<and> s' = s"
  unfolding insert_refund_def by (simp only: sql_check_then) (auto simp: sql_check_def)

definition deadletter_new :: "tenant_context \<Rightarrow> deadletter \<Rightarrow> sales_db \<Rightarrow> bool" where
  "deadletter_new c d s \<longleftrightarrow> rls_tenant c (dlTenant d) \<and> list_ex (\<lambda>x. x \<noteq> CHR '' '') (dlReason d) \<and>
     \<not> list_ex (open_deadletter (dlSale d)) (deadletters s) \<and> dlId d \<notin> dlId ` set (deadletters s) \<and>
     store_exists (dlStore d) s \<and> (dlSale d, dlTenant d, dlStore d) \<in> sale_scope ` set (saleRows s)"

lemma insert_deadletter_True [run_simps]:
  "insert_deadletter c d s = Inr (True, s') \<longleftrightarrow> deadletter_new c d s \<and> s' = s\<lparr>deadletters := deadletters s @ [d]\<rparr>"
  unfolding insert_deadletter_def by (simp only: sql_check_then) (auto simp: deadletter_new_def sql_check_def)

lemma insert_deadletter_False [run_simps]:
  "insert_deadletter c d s = Inr (False, s') \<longleftrightarrow> rls_tenant c (dlTenant d) \<and>
     list_ex (\<lambda>x. x \<noteq> CHR '' '') (dlReason d) \<and> list_ex (open_deadletter (dlSale d)) (deadletters s) \<and> s' = s"
  unfolding insert_deadletter_def by (simp only: sql_check_then) (auto simp: sql_check_def)

section \<open>Shared steps\<close>

lemma stays_aborted_sale_emit [simp]: "stays_aborted (sale_emit c i now inp)"
  by (simp add: sale_emit_def)

lemma honest_sale_emit [simp]: "honest (sale_emit c i now inp)"
  by (simp add: sale_emit_def)

lemma succeeds_sale_emit [run_simps]:
  "succeeds (sale_emit c i now inp) s j s' \<longleftrightarrow>
     j = i \<and> rls_tenant_or_admin c (emTenant inp) \<and> i \<notin> evId ` set (saleEvents s) \<and>
     s' = s\<lparr>saleEvents := saleEvents s @ [pending_event i now inp]\<rparr>"
  by (auto simp: sale_emit_def run_simps emit_def split: sum.splits if_splits)

lemma stays_aborted_insert_lines [simp]: "stays_aborted (insert_lines inp sale ids k c ls)"
  by (induction inp sale ids k c ls rule: insert_lines.induct) auto

lemma honest_insert_lines [simp]: "honest (insert_lines inp sale ids k c ls)"
  by (induction inp sale ids k c ls rule: insert_lines.induct) auto

text \<open>The rows of the lines, and that the inserts accept them one after the other.\<close>

fun line_rows :: "capture_sale_input \<Rightarrow> uuid \<Rightarrow> id_source \<Rightarrow> nat \<Rightarrow> line_request list \<Rightarrow> exn + sold_line list" where
  "line_rows inp sale ids k [] = Inr []"
| "line_rows inp sale ids k (l # ls) =
     sql_bind (line_of inp sale (ids k) l) (\<lambda>r. sql_bind (line_rows inp sale ids (Suc k) ls) (\<lambda>rs. Inr (r # rs)))"

fun lines_new :: "tenant_context \<Rightarrow> sold_line list \<Rightarrow> sales_db \<Rightarrow> bool" where
  "lines_new c [] s = True"
| "lines_new c (r # rs) s = (line_new c r s \<and> lines_new c rs (s\<lparr>soldLines := soldLines s @ [r]\<rparr>))"

lemma succeeds_insert_lines [run_simps]:
  "succeeds (insert_lines inp sale ids k c ls) s () s' \<longleftrightarrow>
     (\<exists>rs. line_rows inp sale ids k ls = Inr rs \<and> lines_new c rs s \<and> s' = s\<lparr>soldLines := soldLines s @ rs\<rparr>)"
proof (induction ls arbitrary: k s)
  case Nil
  then show ?case by (simp add: run_simps)
next
  case (Cons l ls)
  show ?case by (auto simp: succeeds_then Cons run_simps)
qed

lemma stays_aborted_sum [simp]:
  "(\<And>x. stays_aborted (f x)) \<Longrightarrow> stays_aborted (case z of None \<Rightarrow> act_throw e | Some x \<Rightarrow> f x)"
  by simp

section \<open>Capture\<close>

definition captured_event :: "capture_sale_input \<Rightarrow> uuid \<Rightarrow> id_source \<Rightarrow> timestamptz \<Rightarrow> outbox_event" where
  "captured_event inp i ids now =
     pending_event (ids (1 + length (cqLines (ciBody inp)))) now (sale_captured_input (ciTenant inp) (ciStore inp) i)"

definition captured_row ::
    "sales_env \<Rightarrow> capture_sale_input \<Rightarrow> id_source \<Rightarrow> timestamptz \<Rightarrow> bool \<Rightarrow> string \<Rightarrow> money \<Rightarrow> sale" where
  "captured_row env inp ids now m d tot =
     sale_row inp (ids 0) (sha256CanonicalHex env (capture_json (ciBody inp))) m now d tot"

definition capture_key :: "capture_sale_input \<Rightarrow> uuid \<times> string \<times> string" where
  "capture_key inp = (ciTenant inp, cqSource (ciBody inp), cqExternal (ciBody inp))"

lemma captured_row_sel [simp]:
  "saId (captured_row env inp ids now m d tot) = ids 0" "sale_key (captured_row env inp ids now m d tot) = capture_key inp"
  "saTenant (captured_row env inp ids now m d tot) = ciTenant inp" "saStore (captured_row env inp ids now m d tot) = ciStore inp"
  "saTotal (captured_row env inp ids now m d tot) = tot" "saMismatch (captured_row env inp ids now m d tot) = Some m"
  "saProcessed (captured_row env inp ids now m d tot) = None" "saStatus (captured_row env inp ids now m d tot) = Captured"
  "sale_scope (captured_row env inp ids now m d tot) = (ids 0, ciTenant inp, ciStore inp)"
  by (simp_all add: captured_row_def sale_row_def sale_key_def capture_key_def sale_scope_def Let_def)

text \<open>What the checks of a capture find before the insert: the two totals, the zone, the date.\<close>

definition capture_checked ::
    "sales_env \<Rightarrow> capture_sale_input \<Rightarrow> tenant_context \<Rightarrow> sales_db \<Rightarrow> bool \<Rightarrow> string \<Rightarrow> money \<Rightarrow> bool" where
  "capture_checked env inp c s m d tot \<longleftrightarrow>
     compare_totals (cqTotal (ciBody inp)) (map lqAmount (cqLines (ciBody inp))) = Inr m \<and>
     pg_numeric_in (cqTotal (ciBody inp)) = Inr tot \<and>
     (\<exists>tz. store_timezone c (ciStore inp) s = Some tz \<and> tz \<noteq> [] \<and> zone_date env tz (snd (cqOccurred (ciBody inp))) = Some d)"

lemma capture_insert_Inr:
  "capture_insert env inp (ids 0) m now tz c s = Inr (r, s') \<longleftrightarrow>
     (\<exists>tot d. pg_numeric_in (cqTotal (ciBody inp)) = Inr tot \<and> zone_date env tz (snd (cqOccurred (ciBody inp))) = Some d \<and>
       insert_sale c (captured_row env inp ids now m d tot) s = Inr (r, s'))"
  by (auto simp: capture_insert_def run_simps captured_row_def split: option.splits)

lemma captureSale_fresh:
  "succeeds (captureSale_work env inp ids now c) s (i, True) s' \<longleftrightarrow>
     i = ids 0 \<and>
     (\<exists>m d tot rs. capture_checked env inp c s m d tot \<and> sale_new c (captured_row env inp ids now m d tot) s \<and>
       line_rows inp (ids 0) ids 1 (cqLines (ciBody inp)) = Inr rs \<and>
       lines_new c rs (s\<lparr>saleRows := saleRows s @ [captured_row env inp ids now m d tot]\<rparr>) \<and>
       rls_tenant_or_admin c (ciTenant inp) \<and> evId (captured_event inp (ids 0) ids now) \<notin> evId ` set (saleEvents s) \<and>
       s' = s\<lparr>saleRows := saleRows s @ [captured_row env inp ids now m d tot], soldLines := soldLines s @ rs,
              saleEvents := saleEvents s @ [captured_event inp (ids 0) ids now]\<rparr>)" (is "?L \<longleftrightarrow> ?R")
proof
  assume ?L
  then obtain m tz r s1 where m: "compare_totals (cqTotal (ciBody inp)) (map lqAmount (cqLines (ciBody inp))) = Inr m"
    and tz: "store_timezone c (ciStore inp) s = Some tz" "tz \<noteq> []"
    and ins: "capture_insert env inp (ids 0) m now tz c s = Inr (r, s1)"
    and rest: "succeeds (case r of
        None \<Rightarrow> act_bind (act_select (find_provenance_sale c (ciTenant inp, cqSource (ciBody inp), cqExternal (ciBody inp))))
            (\<lambda>winner. case winner of None \<Rightarrow> act_throw (Js_error ''Error'') | Some x \<Rightarrow> act_return (saId x, False))
      | Some i \<Rightarrow> act_then (insert_lines inp i ids 1 c (cqLines (ciBody inp)))
          (act_then (sale_emit c (ids (1 + length (cqLines (ciBody inp)))) now (sale_captured_input (ciTenant inp) (ciStore inp) i))
            (act_return (i, True)))) s1 (i, True) s'"
    unfolding captureSale_work_def Let_def
    by (auto simp: succeeds_bind run_simps split: option.splits)
  from rest obtain j where r: "r = Some j"
    by (auto simp: succeeds_bind run_simps split: option.splits)
  from ins obtain d tot where d: "pg_numeric_in (cqTotal (ciBody inp)) = Inr tot"
      "zone_date env tz (snd (cqOccurred (ciBody inp))) = Some d"
    and new: "j = ids 0" "sale_new c (captured_row env inp ids now m d tot) s"
      "s1 = s\<lparr>saleRows := saleRows s @ [captured_row env inp ids now m d tot]\<rparr>"
    by (auto simp: capture_insert_Inr r run_simps)
  from rest show ?R
    using m tz d new(2)
    by (auto simp: r new succeeds_then run_simps capture_checked_def captured_event_def sale_captured_input_def pending_event_def)
next
  assume ?R
  then obtain m d tot rs where checked: "capture_checked env inp c s m d tot" and i: "i = ids 0"
    and new: "sale_new c (captured_row env inp ids now m d tot) s"
      "line_rows inp (ids 0) ids 1 (cqLines (ciBody inp)) = Inr rs"
      "lines_new c rs (s\<lparr>saleRows := saleRows s @ [captured_row env inp ids now m d tot]\<rparr>)"
      "rls_tenant_or_admin c (ciTenant inp)" "evId (captured_event inp (ids 0) ids now) \<notin> evId ` set (saleEvents s)"
    and s': "s' = s\<lparr>saleRows := saleRows s @ [captured_row env inp ids now m d tot], soldLines := soldLines s @ rs,
              saleEvents := saleEvents s @ [captured_event inp (ids 0) ids now]\<rparr>" by blast
  from checked obtain tz where "compare_totals (cqTotal (ciBody inp)) (map lqAmount (cqLines (ciBody inp))) = Inr m"
    "pg_numeric_in (cqTotal (ciBody inp)) = Inr tot" "store_timezone c (ciStore inp) s = Some tz" "tz \<noteq> []"
    "zone_date env tz (snd (cqOccurred (ciBody inp))) = Some d" by (auto simp: capture_checked_def)
  moreover from this new have
    "capture_insert env inp (ids 0) m now tz c s = Inr (Some (ids 0), s\<lparr>saleRows := saleRows s @ [captured_row env inp ids now m d tot]\<rparr>)"
    by (auto simp: capture_insert_Inr run_simps)
  ultimately show ?L
    using new(2-) unfolding captureSale_work_def Let_def
    by (simp add: succeeds_bind succeeds_then run_simps i s' captured_event_def sale_captured_input_def pending_event_def)
qed

lemma captured_row_currency [simp]: "saCurrency (captured_row env inp ids now m d tot) = cqCurrency (ciBody inp)"
  by (simp add: captured_row_def sale_row_def Let_def)

lemma captureSale_replay:
  "succeeds (captureSale_work env inp ids now c) s (i, False) s' \<longleftrightarrow>
     s' = s \<and> (\<exists>m d tot. capture_checked env inp c s m d tot \<and> 0 \<le> tot) \<and> rls_tenant c (ciTenant inp) \<and>
     currency_ok (cqCurrency (ciBody inp)) \<and> capture_key inp \<in> sale_key ` set (saleRows s) \<and>
     map_option saId (find_provenance_sale c (capture_key inp) s) = Some i" (is "?L \<longleftrightarrow> ?R")
proof
  assume ?L
  then obtain m tz r s1 where m: "compare_totals (cqTotal (ciBody inp)) (map lqAmount (cqLines (ciBody inp))) = Inr m"
    and tz: "store_timezone c (ciStore inp) s = Some tz" "tz \<noteq> []"
    and ins: "capture_insert env inp (ids 0) m now tz c s = Inr (r, s1)"
    and rest: "succeeds (case r of
        None \<Rightarrow> act_bind (act_select (find_provenance_sale c (capture_key inp)))
            (\<lambda>winner. case winner of None \<Rightarrow> act_throw (Js_error ''Error'') | Some x \<Rightarrow> act_return (saId x, False))
      | Some i \<Rightarrow> act_then (insert_lines inp i ids 1 c (cqLines (ciBody inp)))
          (act_then (sale_emit c (ids (1 + length (cqLines (ciBody inp)))) now (sale_captured_input (ciTenant inp) (ciStore inp) i))
            (act_return (i, True)))) s1 (i, False) s'"
    unfolding captureSale_work_def Let_def capture_key_def
    by (auto simp: succeeds_bind run_simps split: option.splits)
  from rest have r: "r = None"
    by (auto simp: succeeds_then run_simps split: option.splits)
  with ins rest m tz show ?R
    by (auto simp: capture_insert_Inr run_simps succeeds_bind capture_checked_def split: option.splits)
next
  assume ?R
  then obtain m d tot tz z where "compare_totals (cqTotal (ciBody inp)) (map lqAmount (cqLines (ciBody inp))) = Inr m"
    "store_timezone c (ciStore inp) s = Some tz" "tz \<noteq> []" "find_provenance_sale c (capture_key inp) s = Some z" "i = saId z" "s' = s"
    and ins: "pg_numeric_in (cqTotal (ciBody inp)) = Inr tot" "zone_date env tz (snd (cqOccurred (ciBody inp))) = Some d"
      "0 \<le> tot" "rls_tenant c (ciTenant inp)" "currency_ok (cqCurrency (ciBody inp))" "capture_key inp \<in> sale_key ` set (saleRows s)"
    by (auto simp: capture_checked_def)
  moreover from ins have "capture_insert env inp (ids 0) m now tz c s = Inr (None, s)"
    by (simp add: capture_insert_Inr run_simps)
  ultimately show ?L
    unfolding captureSale_work_def Let_def
    by (simp add: succeeds_bind run_simps capture_key_def del: insert_sale_None)
qed

lemma honest_captureSale: "honest (captureSale_work env inp ids now c)"
  by (auto simp: captureSale_work_def Let_def split: option.split)

section \<open>Terminal events\<close>

lemma sale_in_scope_Inr [run_simps]:
  "sale_in_scope c ref st s = Inr (found, s') \<longleftrightarrow>
     (\<exists>i. pg_uuid_in ref = Inr i \<and> found = (find_sale c i st s \<noteq> None) \<and> s' = s)"
  by (auto simp: sale_in_scope_def run_simps)

definition reversal_event :: "uuid \<Rightarrow> timestamptz \<Rightarrow> uuid \<Rightarrow> uuid \<Rightarrow> string \<Rightarrow> uuid \<Rightarrow> outbox_event" where
  "reversal_event ev now t st ref anchor =
     pending_event ev now (posting_input t st (posting_payload ref st ''reversal'' (J_uuid anchor)))"

lemma void_row_sel [simp]:
  "vdId (void_row env inp i now sale) = i" "vdSale (void_row env inp i now sale) = sale" "vdAt (void_row env inp i now sale) = now"
  "vdTenant (void_row env inp i now sale) = viTenant inp" "vdStore (void_row env inp i now sale) = viStore inp"
  "vdSource (void_row env inp i now sale) = vqSource (viBody inp)" "vdExternal (void_row env inp i now sale) = vqExternal (viBody inp)"
  by (simp_all add: void_row_def)

lemma posting_input_tenant [simp]: "emTenant (posting_input t st p) = t"
  by (simp add: posting_input_def)

lemma insert_void_cases:
  obtains (fresh) "void_new c v s" "insert_void c v s = Inr (Some v, s\<lparr>saleVoids := saleVoids s @ [v]\<rparr>)"
  | (taken) "\<not> void_new c v s" "rls_tenant c (vdTenant v)"
      "(vdTenant v, vdSource v, vdExternal v) \<in> (\<lambda>y. (vdTenant y, vdSource y, vdExternal y)) ` set (saleVoids s)"
      "insert_void c v s = Inr (None, s)"
  | (error) e where "\<not> void_new c v s" "insert_void c v s = Inl e"
      "\<not> (rls_tenant c (vdTenant v) \<and> (vdTenant v, vdSource v, vdExternal v) \<in> (\<lambda>y. (vdTenant y, vdSource y, vdExternal y)) ` set (saleVoids s))"
proof (cases "void_new c v s")
  case True
  then show thesis using fresh insert_void_Some [of c v s v] by blast
next
  case not_new: False
  show thesis
  proof (cases "insert_void c v s")
    case (Inl e)
    with not_new insert_void_None [of c v s s] show thesis by (intro error) auto
  next
    case (Inr r)
    with not_new insert_void_None [of c v s "snd r"] insert_void_Some [of c v s _ "snd r"] show thesis
      by (cases r; cases "fst r") (auto intro: taken)
  qed
qed

lemma recordVoid_fresh:
  "succeeds (recordVoid_work env inp ids now c) s (b, True) s' \<longleftrightarrow>
     (\<exists>i. pg_uuid_in (viSale inp) = Inr i \<and> find_sale c i (viStore inp) s \<noteq> None \<and>
       void_new c (void_row env inp (ids 0) now i) s \<and> rls_tenant_or_admin c (viTenant inp) \<and>
       ids 1 \<notin> evId ` set (saleEvents s) \<and>
       b = toTerminalEvent Kind_void (ids 0) (viSale inp) now None None \<and>
       s' = s\<lparr>saleVoids := saleVoids s @ [void_row env inp (ids 0) now i],
              saleEvents := saleEvents s @ [reversal_event (ids 1) now (viTenant inp) (viStore inp) (viSale inp) (ids 0)]\<rparr>)"
proof (cases "pg_uuid_in (viSale inp)")
  case (Inr i)
  then show ?thesis
    unfolding recordVoid_work_def Let_def reversal_event_def
    by (cases rule: insert_void_cases [of c "void_row env inp (ids 0) now i" s])
       (auto simp: succeeds_bind succeeds_then run_simps simp del: insert_void_Some insert_void_None split: option.splits if_splits)
qed (simp add: recordVoid_work_def Let_def succeeds_bind run_simps)

lemma recordVoid_replay:
  "succeeds (recordVoid_work env inp ids now c) s (b, False) s' \<longleftrightarrow>
     s' = s \<and> rls_tenant c (viTenant inp) \<and>
     (viTenant inp, vqSource (viBody inp), vqExternal (viBody inp)) \<in> (\<lambda>y. (vdTenant y, vdSource y, vdExternal y)) ` set (saleVoids s) \<and>
     (\<exists>i v. pg_uuid_in (viSale inp) = Inr i \<and> find_sale c i (viStore inp) s \<noteq> None \<and>
       find_void c (viTenant inp, vqSource (viBody inp), vqExternal (viBody inp)) s = Some v \<and>
       uuid_text (vdSale v) = viSale inp \<and>
       b = toTerminalEvent Kind_void (vdId v) (uuid_text (vdSale v)) (vdAt v) None None)"
proof (cases "pg_uuid_in (viSale inp)")
  case (Inr i)
  show ?thesis
    by (cases rule: insert_void_cases [of c "void_row env inp (ids 0) now i" s])
       (auto simp: Inr recordVoid_work_def Let_def succeeds_bind succeeds_then run_simps void_new_def
         simp del: insert_void_Some insert_void_None split: option.splits if_splits)
qed (simp add: recordVoid_work_def Let_def succeeds_bind run_simps)

lemma honest_recordVoid: "honest (recordVoid_work env inp ids now c)"
  by (auto simp: recordVoid_work_def Let_def split: option.split)

lemma refund_row_sel [simp]:
  "rfId (refund_row env inp i now sale a) = i" "rfSale (refund_row env inp i now sale a) = sale"
  "rfTenant (refund_row env inp i now sale a) = fiTenant inp" "rfStore (refund_row env inp i now sale a) = fiStore inp"
  "rfSource (refund_row env inp i now sale a) = fqSource (fiBody inp)" "rfAmount (refund_row env inp i now sale a) = a"
  "rfExternal (refund_row env inp i now sale a) = fqExternal (fiBody inp)" "rfAt (refund_row env inp i now sale a) = now"
  "rfCurrency (refund_row env inp i now sale a) = fqCurrency (fiBody inp)"
  by (simp_all add: refund_row_def)

lemma recordRefund_fresh:
  "succeeds (recordRefund_work env inp ids now c) s (b, True) s' \<Longrightarrow>
     \<exists>i a. pg_uuid_in (fiSale inp) = Inr i \<and> pg_numeric_in (fqAmount (fiBody inp)) = Inr a \<and>
       find_sale c i (fiStore inp) s \<noteq> None \<and> refund_new c (refund_row env inp (ids 0) now i a) s \<and>
       ids 1 \<notin> evId ` set (saleEvents s) \<and>
       b = toTerminalEvent Kind_refund (ids 0) (fiSale inp) now (Some (pg_numeric_text a)) (Some (fqCurrency (fiBody inp))) \<and>
       s' = s\<lparr>saleRefunds := saleRefunds s @ [refund_row env inp (ids 0) now i a],
              saleEvents := saleEvents s @ [reversal_event (ids 1) now (fiTenant inp) (fiStore inp) (fiSale inp) (ids 0)]\<rparr>"
  unfolding recordRefund_work_def Let_def reversal_event_def
  by (auto simp: succeeds_bind succeeds_then run_simps split: option.splits if_splits)

lemma recordRefund_replay:
  "succeeds (recordRefund_work env inp ids now c) s (b, False) s' \<Longrightarrow>
     s' = s \<and> (\<exists>v. find_refund c (fiTenant inp, fqSource (fiBody inp), fqExternal (fiBody inp)) s = Some v \<and>
       uuid_text (rfSale v) = fiSale inp \<and>
       b = toTerminalEvent Kind_refund (rfId v) (uuid_text (rfSale v)) (rfAt v) (Some (pg_numeric_text (rfAmount v))) (Some (rfCurrency v)))"
  unfolding recordRefund_work_def Let_def reversal_event_def
  by (auto simp: succeeds_bind succeeds_then run_simps split: option.splits if_splits)

lemma honest_recordRefund: "honest (recordRefund_work env inp ids now c)"
  by (auto simp: recordRefund_work_def Let_def split: option.split)

section \<open>Processing\<close>

definition sale_post_event :: "processing_job \<Rightarrow> uuid \<Rightarrow> uuid \<Rightarrow> uuid \<Rightarrow> timestamptz \<Rightarrow> outbox_event" where
  "sale_post_event job t st ev now =
     pending_event ev now (posting_input t st (posting_payload (pjSale job) st ''sale_post'' (J_string (pjSale job))))"

lemma process_work_succeeds:
  "succeeds (process_work job i t st ev now c) s r s' \<longleftrightarrow>
     find_sale c i st s \<noteq> None \<and>
     (case find (unprocessed c i st) (saleRows s) of
        Some x \<Rightarrow> rls_tenant_or_admin c t \<and> ev \<notin> evId ` set (saleEvents s) \<and>
          s' = s\<lparr>saleRows := update_where (unprocessed c i st) (processed_row c s now) (saleRows s),
                 saleEvents := saleEvents s @ [sale_post_event job t st ev now]\<rparr> \<and>
          r = \<lparr>prSale = pjSale job, prMismatch = saMismatch (processed_row c s now x), prAt = now, prApplied = True\<rparr>
      | None \<Rightarrow> s' = s \<and> (\<exists>x at. find_sale c i st s = Some x \<and> saProcessed x = Some at \<and>
          r = \<lparr>prSale = pjSale job, prMismatch = saMismatch x, prAt = at, prApplied = False\<rparr>))"
  unfolding process_work_def update_processed_def sale_post_event_def
  by (auto simp: succeeds_bind succeeds_then run_simps update_where_no_match split: option.splits)

lemma honest_process: "honest (process_work job i t st ev now c)"
  by (auto simp: process_work_def split: option.split)

section \<open>Quarantine and repair\<close>

lemma quarantine_work_succeeds:
  "succeeds (quarantine_work inp i t st corr new now c) s r s' \<Longrightarrow>
     find_sale c i st s \<noteq> None \<and>
     (if qrQuarantined r
      then deadletter_new c (deadletter_row inp i t st corr new now) s \<and>
        s' = s\<lparr>deadletters := deadletters s @ [deadletter_row inp i t st corr new now],
               saleRows := update_where (\<lambda>x. rls_tenant c (saTenant x) \<and> saId x = i \<and> saStore x = st \<and> saStatus x \<noteq> Synced)
                 (\<lambda>x. x\<lparr>saStatus := scStatus (classifySyncFailure (qiCondition inp))\<rparr>) (saleRows s)\<rparr>
      else s' = s \<and> list_ex (open_deadletter i) (deadletters s))"
  unfolding quarantine_work_def advance_status_def
  by (auto simp: succeeds_bind run_simps Let_def deadletter_row_def split: if_splits)

lemma honest_quarantine: "honest (quarantine_work inp i t st corr new now c)"
  by (auto simp: quarantine_work_def)

lemma repairSaleSync_work_succeeds:
  "succeeds (repairSaleSync_work i now c) s b s' \<longleftrightarrow>
     (\<exists>x. readSaleStatusRow c i s = Some x \<and> saStatus x = Failed_needs_repair) \<and>
     list_ex (\<lambda>d. rls_tenant c (dlTenant d) \<and> dlClass d = Needs_repair \<and> open_deadletter i d) (deadletters s) \<and>
     s' = s\<lparr>deadletters := update_where (\<lambda>d. rls_tenant c (dlTenant d) \<and> dlClass d = Needs_repair \<and> open_deadletter i d)
              (\<lambda>d. d\<lparr>dlResolved := Some now, dlRetries := dlRetries d + 1\<rparr>) (deadletters s),
            saleRows := update_where (\<lambda>x. rls_tenant c (saTenant x) \<and> saId x = i) (\<lambda>x. x\<lparr>saStatus := Failed_retryable\<rparr>) (saleRows s)\<rparr> \<and>
     (\<exists>y. readSaleStatusRow c i s' = Some y \<and> b = toStatusBody y (readOpenDeadLetter c i s'))"
  unfolding repairSaleSync_work_def resolve_deadletter_def requeue_sale_def Let_def
  by (auto simp: succeeds_bind succeeds_then run_simps split: option.splits if_splits)

lemma honest_repair: "honest (repairSaleSync_work i now c)"
  by (auto simp: repairSaleSync_work_def split: option.split)

end
