(* ===== verification/SalesMachine.thy ===== *)
theory SalesMachine
  imports SalesFacts
begin

text \<open>
  The machine of the sale tables as a step relation over rows: what a committed operation appended
  and which sale it moved, without the request it came from. Every operation is such a move of its
  tenant or changes nothing. The invariant of the tables and of their events is proved by cases on
  the moves.
\<close>

section \<open>Moves\<close>

text \<open>A text that names an id: its canonical text, or one the code parsed to it.\<close>

definition names :: "string \<Rightarrow> uuid \<Rightarrow> bool" where
  "names x i \<longleftrightarrow> x = uuid_text i \<or> parse_uuid x = Some i"

definition posting :: "outbox_event \<Rightarrow> string \<Rightarrow> uuid \<Rightarrow> uuid \<Rightarrow> uuid \<Rightarrow> uuid \<Rightarrow> bool" where
  "posting e kind t st sale anchor \<longleftrightarrow>
     evType e = ''erpnext.posting.requested'' \<and> evTenant e = t \<and> evStore e = Some st \<and>
     (\<exists>ref aref. names ref sale \<and> names aref anchor \<and> evPayload e = json_text (posting_payload ref st kind (J_string aref)))"

definition announcing :: "outbox_event \<Rightarrow> uuid \<times> uuid \<times> uuid \<Rightarrow> bool" where
  "announcing e k \<longleftrightarrow> (case k of (i, t, st) \<Rightarrow> evType e = ''sale.captured'' \<and> evTenant e = t \<and>
     evStore e = Some st \<and> evPayload e = json_text (captured_payload i st))"

definition class_status :: "dead_letter_class \<Rightarrow> sale_sync_status" where
  "class_status k = (case k of Retryable \<Rightarrow> Failed_retryable | Needs_repair \<Rightarrow> Failed_needs_repair)"

abbreviation line_scope :: "sold_line \<Rightarrow> uuid \<times> uuid \<times> uuid" where
  "line_scope l \<equiv> (lnSale l, lnTenant l, lnStore l)"

inductive sales_move :: "uuid \<Rightarrow> sales_db \<Rightarrow> sales_db \<Rightarrow> bool" for t where
  mv_capture: "sale_new (tenant_ctx t) x s \<Longrightarrow> saStatus x = Captured \<Longrightarrow> saProcessed x = None \<Longrightarrow>
     lines_new (tenant_ctx t) rs (s\<lparr>saleRows := saleRows s @ [x]\<rparr>) \<Longrightarrow> (\<And>r. r \<in> set rs \<Longrightarrow> line_scope r = sale_scope x) \<Longrightarrow>
     saMismatch x = Some (sum_list (map lnAmount rs) \<noteq> saTotal x) \<Longrightarrow>
     announcing e (sale_scope x) \<Longrightarrow> evId e \<notin> evId ` set (saleEvents s) \<Longrightarrow>
     sales_move t s (s\<lparr>saleRows := saleRows s @ [x], soldLines := soldLines s @ rs, saleEvents := saleEvents s @ [e]\<rparr>)"
| mv_void: "void_new (tenant_ctx t) v s \<Longrightarrow> posting e ''reversal'' (vdTenant v) (vdStore v) (vdSale v) (vdId v) \<Longrightarrow>
     evId e \<notin> evId ` set (saleEvents s) \<Longrightarrow>
     sales_move t s (s\<lparr>saleVoids := saleVoids s @ [v], saleEvents := saleEvents s @ [e]\<rparr>)"
| mv_refund: "refund_new (tenant_ctx t) v s \<Longrightarrow> posting e ''reversal'' (rfTenant v) (rfStore v) (rfSale v) (rfId v) \<Longrightarrow>
     evId e \<notin> evId ` set (saleEvents s) \<Longrightarrow>
     sales_move t s (s\<lparr>saleRefunds := saleRefunds s @ [v], saleEvents := saleEvents s @ [e]\<rparr>)"
| mv_process: "find (unprocessed (tenant_ctx t) i st) (saleRows s) = Some x \<Longrightarrow> posting e ''sale_post'' t st i i \<Longrightarrow>
     evId e \<notin> evId ` set (saleEvents s) \<Longrightarrow>
     sales_move t s (s\<lparr>saleRows := update_where (unprocessed (tenant_ctx t) i st) (processed_row (tenant_ctx t) s now) (saleRows s),
                       saleEvents := saleEvents s @ [e]\<rparr>)"
| mv_quarantine: "deadletter_new (tenant_ctx t) d s \<Longrightarrow> dlResolved d = None \<Longrightarrow>
     sales_move t s (s\<lparr>deadletters := deadletters s @ [d],
       saleRows := update_where (\<lambda>x. saTenant x = t \<and> saId x = dlSale d \<and> saStore x = dlStore d \<and> saStatus x \<noteq> Synced)
         (\<lambda>x. x\<lparr>saStatus := class_status (dlClass d)\<rparr>) (saleRows s)\<rparr>)"
| mv_repair: "readSaleStatusRow (tenant_ctx t) i s = Some x \<Longrightarrow> saStatus x = Failed_needs_repair \<Longrightarrow>
     sales_move t s (s\<lparr>
       deadletters := update_where (\<lambda>d. dlTenant d = t \<and> dlClass d = Needs_repair \<and> open_deadletter i d)
         (\<lambda>d. d\<lparr>dlResolved := Some now, dlRetries := dlRetries d + 1\<rparr>) (deadletters s),
       saleRows := update_where (\<lambda>x. saTenant x = t \<and> saId x = i) (\<lambda>x. x\<lparr>saStatus := Failed_retryable\<rparr>) (saleRows s)\<rparr>)"

fun sales_op_tenant :: "sales_op \<Rightarrow> uuid option" where
  "sales_op_tenant (Post_capture req b ids now) = (case req of None \<Rightarrow> None | Some c \<Rightarrow> rcTenant c)"
| "sales_op_tenant (Post_void req ref b ids now) = (case req of None \<Rightarrow> None | Some c \<Rightarrow> rcTenant c)"
| "sales_op_tenant (Post_refund req ref b ids now) = (case req of None \<Rightarrow> None | Some c \<Rightarrow> rcTenant c)"
| "sales_op_tenant (Process_sale job ev now) = parse_uuid (pjTenant job)"
| "sales_op_tenant (Quarantine_sale inp new now) = parse_uuid (qiTenant inp)"
| "sales_op_tenant (Post_repair req ref now) = (case req of None \<Rightarrow> None | Some c \<Rightarrow> rcTenant c)"

section \<open>Every operation is a move\<close>

lemma numerics_of_lines: "line_rows inp sale ids k ls = Inr rs \<Longrightarrow> numerics_in (map lqAmount ls) = Inr (map lnAmount rs)"
proof (induction ls arbitrary: k rs)
  case (Cons l ls)
  then obtain r rs' where r: "line_of inp sale (ids k) l = Inr r" and rs': "line_rows inp sale ids (Suc k) ls = Inr rs'" "rs = r # rs'"
    by (auto simp: run_simps)
  from r have "pg_numeric_in (lqAmount l) = Inr (lnAmount r)" by (auto simp: line_of_def run_simps)
  then have "pg_decimal_in (lqAmount l) = Some (lnAmount r)" by (auto simp: pg_numeric_in_def split: option.splits if_splits)
  with Cons.IH rs' show ?case by (simp add: run_simps)
qed simp

lemma lines_scope: "line_rows inp sale ids k ls = Inr rs \<Longrightarrow> r \<in> set rs \<Longrightarrow> line_scope r = (sale, ciTenant inp, ciStore inp)"
proof (induction ls arbitrary: k rs)
  case (Cons l ls)
  then obtain r' rs' where r': "line_of inp sale (ids k) l = Inr r'" and rs': "line_rows inp sale ids (Suc k) ls = Inr rs'" "rs = r' # rs'"
    by (auto simp: run_simps)
  from r' have "line_scope r' = (sale, ciTenant inp, ciStore inp)" by (auto simp: line_of_def run_simps)
  with Cons rs' show ?case by auto
qed simp

lemma line_rows_length: "line_rows inp sale ids k ls = Inr rs \<Longrightarrow> length rs = length ls"
  by (induction ls arbitrary: k rs) (auto simp: run_simps)

text \<open>The advisory flag of a capture says whether the stored lines sum to the stored total.\<close>

lemma capture_mismatch:
  assumes "capture_checked env inp c s m d tot" and "line_rows inp i ids 1 (cqLines (ciBody inp)) = Inr rs"
    and "cqLines (ciBody inp) \<noteq> []"
  shows "m \<longleftrightarrow> sum_list (map lnAmount rs) \<noteq> tot"
proof -
  from assms(1) have "compare_totals (cqTotal (ciBody inp)) (map lqAmount (cqLines (ciBody inp))) = Inr m"
    and "pg_decimal_in (cqTotal (ciBody inp)) = Some tot"
    by (auto simp: capture_checked_def pg_numeric_in_def split: option.splits if_splits)
  moreover have "rs \<noteq> []" using assms(2,3) line_rows_length by fastforce
  ultimately show ?thesis using numerics_of_lines [OF assms(2)] by (auto simp: compare_totals_def run_simps)
qed

lemma captured_event_announces:
  "announcing (captured_event inp (ids 0) ids now) (sale_scope (captured_row env inp ids now m d tot))"
  by (simp add: announcing_def captured_event_def pending_event_def sale_captured_input_def)

lemma capture_moves:
  assumes "succeeds (captureSale_work env inp ids now (tenant_ctx (ciTenant inp))) s (i, f) s'"
    and "cqLines (ciBody inp) \<noteq> []"
  shows "s' = s \<or> sales_move (ciTenant inp) s s'"
proof (cases f)
  case True
  with assms(1) obtain m d tot rs where checked: "capture_checked env inp (tenant_ctx (ciTenant inp)) s m d tot"
    and new: "sale_new (tenant_ctx (ciTenant inp)) (captured_row env inp ids now m d tot) s"
    and rs: "line_rows inp (ids 0) ids 1 (cqLines (ciBody inp)) = Inr rs"
    and lines: "lines_new (tenant_ctx (ciTenant inp)) rs (s\<lparr>saleRows := saleRows s @ [captured_row env inp ids now m d tot]\<rparr>)"
    and ev: "evId (captured_event inp (ids 0) ids now) \<notin> evId ` set (saleEvents s)"
    and s': "s' = s\<lparr>saleRows := saleRows s @ [captured_row env inp ids now m d tot], soldLines := soldLines s @ rs,
              saleEvents := saleEvents s @ [captured_event inp (ids 0) ids now]\<rparr>"
    by (auto simp: captureSale_fresh)
  have "sales_move (ciTenant inp) s s'"
    unfolding s' using capture_mismatch [OF checked rs assms(2)] lines_scope [OF rs]
    by (intro mv_capture new lines ev captured_event_announces) auto
  then show ?thesis by simp
next
  case False
  with assms(1) show ?thesis by (simp add: captureSale_replay)
qed

lemma pg_uuid_in_Inr [simp]: "pg_uuid_in x = Inr i \<longleftrightarrow> parse_uuid x = Some i"
  by (auto simp: pg_uuid_in_def split: option.splits)

lemma reversal_posting: "parse_uuid ref = Some i \<Longrightarrow> posting (reversal_event ev now t st ref a) ''reversal'' t st i a"
  by (auto simp: posting_def reversal_event_def pending_event_def posting_input_def names_def J_uuid_def)

lemma void_moves:
  assumes "succeeds (recordVoid_work env inp ids now (tenant_ctx (viTenant inp))) s (b, f) s'"
  shows "s' = s \<or> sales_move (viTenant inp) s s'"
proof (cases f)
  case True
  with assms obtain i where i: "parse_uuid (viSale inp) = Some i"
    and new: "void_new (tenant_ctx (viTenant inp)) (void_row env inp (ids 0) now i) s" "ids 1 \<notin> evId ` set (saleEvents s)"
    and s': "s' = s\<lparr>saleVoids := saleVoids s @ [void_row env inp (ids 0) now i],
              saleEvents := saleEvents s @ [reversal_event (ids 1) now (viTenant inp) (viStore inp) (viSale inp) (ids 0)]\<rparr>"
    by (auto simp: recordVoid_fresh)
  have "sales_move (viTenant inp) s s'"
    unfolding s' using new reversal_posting [OF i, of "ids 1" now "viTenant inp" "viStore inp" "ids 0"]
    by (intro mv_void new) (auto simp: reversal_event_def pending_event_def)
  then show ?thesis by simp
next
  case False
  with assms show ?thesis by (simp add: recordVoid_replay)
qed

lemma refund_moves:
  assumes "succeeds (recordRefund_work env inp ids now (tenant_ctx (fiTenant inp))) s (b, f) s'"
  shows "s' = s \<or> sales_move (fiTenant inp) s s'"
proof (cases f)
  case True
  with assms recordRefund_fresh obtain i a where i: "parse_uuid (fiSale inp) = Some i"
    and new: "refund_new (tenant_ctx (fiTenant inp)) (refund_row env inp (ids 0) now i a) s" "ids 1 \<notin> evId ` set (saleEvents s)"
    and s': "s' = s\<lparr>saleRefunds := saleRefunds s @ [refund_row env inp (ids 0) now i a],
              saleEvents := saleEvents s @ [reversal_event (ids 1) now (fiTenant inp) (fiStore inp) (fiSale inp) (ids 0)]\<rparr>"
    by fastforce
  have "sales_move (fiTenant inp) s s'"
    unfolding s' using new reversal_posting [OF i, of "ids 1" now "fiTenant inp" "fiStore inp" "ids 0"]
    by (intro mv_refund new) (auto simp: reversal_event_def pending_event_def)
  then show ?thesis by simp
next
  case False
  with assms recordRefund_replay show ?thesis by fastforce
qed

lemma process_moves:
  assumes "succeeds (process_work job i t st ev now (tenant_ctx t)) s r s'" and "parse_uuid (pjSale job) = Some i"
  shows "s' = s \<or> sales_move t s s'"
proof (cases "find (unprocessed (tenant_ctx t) i st) (saleRows s)")
  case None
  with assms(1) show ?thesis by (simp add: process_work_succeeds)
next
  case (Some x)
  with assms(1) have new: "ev \<notin> evId ` set (saleEvents s)"
    and s': "s' = s\<lparr>saleRows := update_where (unprocessed (tenant_ctx t) i st) (processed_row (tenant_ctx t) s now) (saleRows s),
                 saleEvents := saleEvents s @ [sale_post_event job t st ev now]\<rparr>"
    by (auto simp: process_work_succeeds)
  have "posting (sale_post_event job t st ev now) ''sale_post'' t st i i"
    using assms(2) by (auto simp: posting_def sale_post_event_def pending_event_def posting_input_def names_def)
  then have "sales_move t s s'"
    unfolding s' using new Some by (intro mv_process) (auto simp: sale_post_event_def pending_event_def)
  then show ?thesis by simp
qed

lemma quarantine_moves:
  assumes "succeeds (quarantine_work inp i t st corr new now (tenant_ctx t)) s r s'"
  shows "s' = s \<or> sales_move t s s'"
proof (cases "qrQuarantined r")
  case True
  let ?d = "deadletter_row inp i t st corr new now"
  from True quarantine_work_succeeds [OF assms] have d: "deadletter_new (tenant_ctx t) ?d s"
    and s': "s' = s\<lparr>deadletters := deadletters s @ [?d],
               saleRows := update_where (\<lambda>x. rls_tenant (tenant_ctx t) (saTenant x) \<and> saId x = i \<and> saStore x = st \<and> saStatus x \<noteq> Synced)
                 (\<lambda>x. x\<lparr>saStatus := scStatus (classifySyncFailure (qiCondition inp))\<rparr>) (saleRows s)\<rparr>"
    by simp_all
  have "dlResolved ?d = None" "dlSale ?d = i" "dlStore ?d = st"
    "class_status (dlClass ?d) = scStatus (classifySyncFailure (qiCondition inp))"
    by (simp_all add: deadletter_row_def classified_status class_status_def)
  with mv_quarantine [OF d] s' show ?thesis by simp
qed (use quarantine_work_succeeds [OF assms] in simp)

lemma repair_moves:
  assumes "succeeds (repairSaleSync_work i now (tenant_ctx t)) s b s'"
  shows "sales_move t s s'"
  using assms unfolding repairSaleSync_work_succeeds by (auto intro: mv_repair [simplified])

lemma run_state_cases:
  assumes "runWithTenantContext c (\<lambda>c. as_work (m c)) s = (r, s')"
  shows "s' = s \<or> (\<exists>a. r = Inr a \<and> succeeds (m c) s a s')"
  using assms by (rule runWithTenantContext_cases) (auto simp: as_work_Returns)

lemma run_moves:
  assumes "\<And>a s'. succeeds (m c) s a s' \<Longrightarrow> s' = s \<or> sales_move t s s'"
  shows "snd (runWithTenantContext c (\<lambda>c. as_work (m c)) s) = s \<or> sales_move t s (snd (runWithTenantContext c (\<lambda>c. as_work (m c)) s))"
proof -
  obtain r s' where "runWithTenantContext c (\<lambda>c. as_work (m c)) s = (r, s')"
    by (cases "runWithTenantContext c (\<lambda>c. as_work (m c)) s")
  with run_state_cases [OF this] assms show ?thesis by auto
qed

lemma write_context_tenant: "write_context req = Inr (t, u, st) \<Longrightarrow> \<exists>c. req = Some c \<and> rcTenant c = Some t"
  by (auto simp: write_context_def split: option.splits)

lemma created_or_replayed_state [simp]: "snd (created_or_replayed f r) = snd r"
  by (simp add: created_or_replayed_def split: prod.split sum.split)

lemma sales_step_moves:
  "sales_step env op s = s \<or> (\<exists>t. sales_op_tenant op = Some t \<and> sales_move t s (sales_step env op s))"
proof (cases op)
  case (Post_capture req b ids now)
  show ?thesis
  proof (cases "CaptureSaleRequestSchema b \<and> (\<exists>t u st. write_context req = Inr (t, u, st))")
    case True
    then obtain t u st where req: "write_context req = Inr (t, u, st)" by auto
    let ?inp = "\<lparr>ciTenant = t, ciStore = st, ciUser = u, ciBody = b\<rparr>"
    obtain r s' where run: "runWithTenantContext (tenant_ctx t) (\<lambda>c. as_work (captureSale_work env ?inp ids now c)) s = (r, s')"
      by (cases "runWithTenantContext (tenant_ctx t) (\<lambda>c. as_work (captureSale_work env ?inp ids now c)) s")
    have "sales_step env op s = s'" using True req run
      by (auto simp: Post_capture captureSale_route_def captureSale_def split: sum.splits prod.splits)
    moreover have "sales_op_tenant op = Some t" using req
      by (auto simp: Post_capture write_context_def split: option.splits)
    moreover have "cqLines b \<noteq> []" using True by (simp add: CaptureSaleRequestSchema_def)
    ultimately show ?thesis
      using run_state_cases [OF run] capture_moves [of env ?inp ids now s _ _ s'] by auto
  qed (auto simp: Post_capture captureSale_route_def split: sum.splits prod.splits)
next
  case (Post_void req ref b ids now)
  show ?thesis
  proof (cases "write_context req")
    case (Inr r)
    then obtain t u st where req: "write_context req = Inr (t, u, st)" by (cases r) auto
    let ?inp = "\<lparr>viTenant = t, viStore = st, viUser = u, viSale = ref, viBody = b\<rparr>"
    from run_moves [of "recordVoid_work env ?inp ids now" "tenant_ctx t" s t] void_moves [of env ?inp ids now s]
      write_context_tenant [OF req] req
    show ?thesis by (auto simp: Post_void recordVoid_route_def recordVoid_def)
  qed (simp add: Post_void recordVoid_route_def)
next
  case (Post_refund req ref b ids now)
  show ?thesis
  proof (cases "write_context req")
    case (Inr r)
    then obtain t u st where req: "write_context req = Inr (t, u, st)" by (cases r) auto
    let ?inp = "\<lparr>fiTenant = t, fiStore = st, fiUser = u, fiSale = ref, fiBody = b\<rparr>"
    from run_moves [of "recordRefund_work env ?inp ids now" "tenant_ctx t" s t] refund_moves [of env ?inp ids now s]
      write_context_tenant [OF req] req
    show ?thesis by (auto simp: Post_refund recordRefund_route_def recordRefund_def)
  qed (simp add: Post_refund recordRefund_route_def)
next
  case (Process_sale job ev now)
  show ?thesis
  proof (cases "processing_job_ids job")
    case (Some r)
    then obtain i t st where r: "r = (i, t, st)" "parse_uuid (pjSale job) = Some i" "parse_uuid (pjTenant job) = Some t"
      by (auto simp: processing_job_ids_def split: option.splits)
    from run_moves [of "process_work job i t st ev now" "tenant_ctx t" s t] process_moves [OF _ r(2)]
    show ?thesis using r Some by (auto simp: Process_sale process_def)
  qed (simp add: Process_sale process_def)
next
  case (Quarantine_sale inp new now)
  show ?thesis
  proof (cases "quarantine_ids inp")
    case (Some r)
    then obtain i t st corr where r: "r = (i, t, st, corr)" "parse_uuid (qiTenant inp) = Some t"
      by (auto simp: quarantine_ids_def split: option.splits if_splits)
    from run_moves [of "quarantine_work inp i t st corr new now" "tenant_ctx t" s t] quarantine_moves
    show ?thesis using r Some by (auto simp: Quarantine_sale quarantine_def)
  qed (simp add: Quarantine_sale quarantine_def)
next
  case (Post_repair req ref now)
  show ?thesis
  proof (cases "tenant_and_sale req ref")
    case (Inr r)
    then obtain t i c where r: "r = (t, i)" "req = Some c" "rcTenant c = Some t"
      by (auto simp: tenant_and_sale_def ops_requireTenant_def split: option.splits sum.splits)
    have "snd (repair_route req ref now s) = snd (repairSaleSync t i now s)"
      by (simp add: repair_route_def Inr r(1) split: prod.split sum.split)
    with run_moves [of "repairSaleSync_work i now" "tenant_ctx t" s t] repair_moves [of i now t s]
    show ?thesis using r by (auto simp: Post_repair repairSaleSync_def)
  qed (simp add: Post_repair repair_route_def)
qed

section \<open>What a move does to a sale\<close>

definition sync_move :: "sale_sync_status \<Rightarrow> sale_sync_status \<Rightarrow> bool" where
  "sync_move a b \<longleftrightarrow> isAllowedSaleSyncTransition a b \<or> a = Failed_needs_repair \<and> b = Synced"

text \<open>A sale keeps every recorded column; once processed it does not change at all.\<close>

definition sale_writes :: "sale \<Rightarrow> sale \<Rightarrow> bool" where
  "sale_writes x y \<longleftrightarrow> y = x\<lparr>saProcessed := saProcessed y, saStatus := saStatus y\<rparr> \<and>
     (saProcessed x \<noteq> None \<longrightarrow> y = x) \<and> (saStatus y = saStatus x \<or> sync_move (saStatus x) (saStatus y))"

definition sale_fresh :: "sale \<Rightarrow> bool" where
  "sale_fresh x \<longleftrightarrow> saStatus x = Captured \<and> saProcessed x = None"

lemma sale_writes_refl [simp]: "sale_writes x x"
  by (simp add: sale_writes_def)

lemma sale_writes_sel:
  assumes "sale_writes x y"
  shows "sale_scope y = sale_scope x" "sale_key y = sale_key x" "saTotal y = saTotal x" "saMismatch y = saMismatch x" "saId y = saId x"
    "saTenant y = saTenant x" "saStore y = saStore x"
proof -
  obtain p st where "y = x\<lparr>saProcessed := p, saStatus := st\<rparr>" using assms by (auto simp: sale_writes_def)
  then show "sale_scope y = sale_scope x" "sale_key y = sale_key x" "saTotal y = saTotal x" "saMismatch y = saMismatch x" "saId y = saId x"
    "saTenant y = saTenant x" "saStore y = saStore x"
    by (simp_all add: sale_scope_def sale_key_def)
qed

interpretation sync_life: lifecycle sync_move "(=) Synced" saStatus sale_writes
  by unfold_locales (auto simp: sync_move_def isAllowedSaleSyncTransition_def sale_writes_def)

section \<open>The invariant\<close>

abbreviation void_key :: "sale_void \<Rightarrow> uuid \<times> string \<times> string" where
  "void_key v \<equiv> (vdTenant v, vdSource v, vdExternal v)"

abbreviation refund_key :: "sale_refund \<Rightarrow> uuid \<times> string \<times> string" where
  "refund_key v \<equiv> (rfTenant v, rfSource v, rfExternal v)"

definition scopes :: "sales_db \<Rightarrow> (uuid \<times> uuid \<times> uuid) set" where
  "scopes s = sale_scope ` set (saleRows s)"

definition children_ok :: "sales_db \<Rightarrow> bool" where
  "children_ok s \<longleftrightarrow>
     (\<forall>l \<in> set (soldLines s). line_scope l \<in> scopes s) \<and>
     (\<forall>v \<in> set (saleVoids s). (vdSale v, vdTenant v, vdStore v) \<in> scopes s) \<and>
     (\<forall>v \<in> set (saleRefunds s). (rfSale v, rfTenant v, rfStore v) \<in> scopes s) \<and>
     (\<forall>d \<in> set (deadletters s). (dlSale d, dlTenant d, dlStore d) \<in> scopes s)"

definition keys_ok :: "sales_db \<Rightarrow> bool" where
  "keys_ok s \<longleftrightarrow> distinct (map saId (saleRows s)) \<and> distinct (map sale_key (saleRows s)) \<and>
     distinct (map void_key (saleVoids s)) \<and> distinct (map refund_key (saleRefunds s)) \<and>
     distinct (map dlSale (filter (\<lambda>d. dlResolved d = None) (deadletters s)))"

definition line_sum :: "sales_db \<Rightarrow> uuid \<Rightarrow> money" where
  "line_sum s i = sum_list (map lnAmount (filter (\<lambda>l. lnSale l = i) (soldLines s)))"

definition sale_ok :: "sales_db \<Rightarrow> sale \<Rightarrow> bool" where
  "sale_ok s x \<longleftrightarrow> saMismatch x = Some (line_sum s (saId x) \<noteq> saTotal x) \<and>
     (saProcessed x \<noteq> None \<longleftrightarrow> saStatus x = Synced) \<and>
     (saStatus x = Failed_needs_repair \<longrightarrow>
        (\<exists>d \<in> set (deadletters s). open_deadletter (saId x) d \<and> dlClass d = Needs_repair))"

definition sales_ok :: "sales_db \<Rightarrow> bool" where
  "sales_ok s \<longleftrightarrow> keys_ok s \<and> children_ok s \<and> (\<forall>x \<in> set (saleRows s). sale_ok s x)"

lemma sale_by_id: "sales_ok s \<Longrightarrow> x \<in> set (saleRows s) \<Longrightarrow> y \<in> set (saleRows s) \<Longrightarrow> saId x = saId y \<Longrightarrow> x = y"
  unfolding sales_ok_def keys_ok_def by (metis distinct_key_unique)

text \<open>The lines of a sale are those its tenant sees.\<close>

lemma lines_of_sale_all:
  assumes "sales_ok s" and "x \<in> set (saleRows s)"
  shows "lines_of_sale (tenant_ctx (saTenant x)) (saId x) s = filter (\<lambda>l. lnSale l = saId x) (soldLines s)"
  unfolding lines_of_sale_def
proof (rule filter_cong [OF refl])
  fix l assume l: "l \<in> set (soldLines s)"
  with assms(1) obtain y where y: "y \<in> set (saleRows s)" "line_scope l = sale_scope y"
    by (auto simp: sales_ok_def children_ok_def scopes_def)
  then show "(rls_tenant (tenant_ctx (saTenant x)) (lnTenant l) \<and> lnSale l = saId x) = (lnSale l = saId x)"
    using sale_by_id [OF assms(1) y(1) assms(2)] by (auto simp: sale_scope_def)
qed

lemma processed_row_writes:
  assumes "sales_ok s" and "x \<in> set (saleRows s)" and "unprocessed (tenant_ctx t) i st x"
  shows "sale_writes x (processed_row (tenant_ctx t) s now x)"
proof -
  have t: "t = saTenant x" "saProcessed x = None" using assms(3) by (simp_all add: unprocessed_def)
  have ok: "sale_ok s x" using assms(1,2) by (simp add: sales_ok_def)
  then have "saStatus x \<noteq> Synced" using t(2) by (auto simp: sale_ok_def)
  then have "saStatus x = Captured \<or> saStatus x = Failed_retryable \<or> saStatus x = Failed_needs_repair"
    by (cases "saStatus x") auto
  then show ?thesis
    using ok t lines_of_sale_all [OF assms(1,2)]
    by (auto simp: sale_writes_def processed_row_def sync_move_def isAllowedSaleSyncTransition_def sale_ok_def line_sum_def)
qed

lemma move_sales:
  assumes "sales_move t s s'" and "sales_ok s"
  shows "table_extends sale_writes sale_fresh (saleRows s) (saleRows s')"
  using assms(1)
proof cases
  case (mv_capture x rs e)
  then show ?thesis by (simp add: table_extends_snoc sale_fresh_def)
next
  case (mv_process i st x e now)
  then show ?thesis by (simp add: table_extends_update_where processed_row_writes [OF assms(2)])
next
  case (mv_quarantine d)
  have "sale_writes x (x\<lparr>saStatus := class_status (dlClass d)\<rparr>)"
    if x: "x \<in> set (saleRows s)" "saId x = dlSale d" "saStatus x \<noteq> Synced" for x
  proof -
    have none: "\<not> list_ex (open_deadletter (dlSale d)) (deadletters s)" using mv_quarantine(2) by (simp add: deadletter_new_def)
    have "sale_ok s x" using assms(2) x by (simp add: sales_ok_def)
    with x none have "saStatus x = Captured \<or> saStatus x = Failed_retryable" and p: "saProcessed x = None"
      by (cases "saStatus x"; force simp: sale_ok_def list_ex_iff)+
    then have "saStatus x = class_status (dlClass d) \<or> sync_move (saStatus x) (class_status (dlClass d))"
      by (cases "dlClass d") (auto simp: sync_move_def isAllowedSaleSyncTransition_def class_status_def)
    with p show ?thesis by (auto simp: sale_writes_def)
  qed
  then show ?thesis unfolding mv_quarantine(1) by (auto intro: table_extends_update_where)
next
  case (mv_repair i x now)
  have x: "x \<in> set (saleRows s)" "saId x = i"
    using find_SomeD [OF mv_repair(2) [unfolded readSaleStatusRow_def]] by auto
  have "sale_writes y (y\<lparr>saStatus := Failed_retryable\<rparr>)" if "y \<in> set (saleRows s)" "saId y = i" for y
  proof -
    have y: "y = x" using sale_by_id [OF assms(2) that(1) x(1)] that(2) x(2) by simp
    moreover have "sale_ok s x" using assms(2) x by (simp add: sales_ok_def)
    ultimately show ?thesis using mv_repair(3)
      by (auto simp: sale_writes_def sale_ok_def sync_move_def isAllowedSaleSyncTransition_def)
  qed
  then show ?thesis unfolding mv_repair(1) by (auto intro: table_extends_update_where)
qed (simp_all add: table_extends_refl)

end
