(* ===== verification/SalesInvariant.thy ===== *)
theory SalesInvariant
  imports SalesMachine
begin

text \<open>
  The invariant of the sale tables and of their events under every move, and what follows for runs:
  each sale has its one event, each processed sale, void and refund its one posting request.
\<close>

section \<open>Keys and children\<close>

lemma move_keys: "sales_move t s s' \<Longrightarrow> keys_ok s \<Longrightarrow> keys_ok s'"
proof (induction rule: sales_move.induct)
  case (mv_capture x s rs e)
  then show ?case by (auto simp: keys_ok_def sale_new_def)
next
  case (mv_void v s e)
  then show ?case by (auto simp: keys_ok_def void_new_def)
next
  case (mv_refund v s e)
  then show ?case by (auto simp: keys_ok_def refund_new_def)
next
  case (mv_process i st s x e now)
  then show ?case by (simp add: keys_ok_def map_update_where processed_row_def sale_key_def)
next
  case (mv_quarantine d s)
  then show ?case by (auto simp: keys_ok_def map_update_where sale_key_def deadletter_new_def list_ex_iff open_deadletter_def)
next
  case (mv_repair i s x now)
  then show ?case
    by (simp add: keys_ok_def map_update_where sale_key_def filter_update_where_leave) (simp add: distinct_map_filter flip: filter_filter)
qed

lemma move_scopes: "sales_move t s s' \<Longrightarrow> sales_ok s \<Longrightarrow> scopes s \<subseteq> scopes s'"
proof -
  assume "sales_move t s s'" "sales_ok s"
  then have "table_extends sale_writes sale_fresh (saleRows s) (saleRows s')" by (rule move_sales)
  then obtain add where "map sale_scope (saleRows s') = map sale_scope (saleRows s) @ map sale_scope add"
    by (rule table_extends_map [where g = sale_scope]) (auto dest: sale_writes_sel(1))
  from arg_cong [OF this, of set] show ?thesis by (auto simp: scopes_def)
qed

lemma move_children:
  assumes "sales_move t s s'" and "sales_ok s"
  shows "children_ok s'"
proof -
  have ok: "children_ok s" and sub: "scopes s \<subseteq> scopes s'"
    using assms move_scopes by (auto simp: sales_ok_def)
  show ?thesis
    using assms(1)
  proof cases
    case (mv_capture x rs e)
    have "sale_scope x \<in> scopes s'" by (simp add: mv_capture(1) scopes_def)
    with ok sub mv_capture(1,6) show ?thesis by (auto simp: children_ok_def)
  next
    case (mv_void v e)
    with ok sub show ?thesis by (auto simp: children_ok_def void_new_def scopes_def)
  next
    case (mv_refund v e)
    with ok sub show ?thesis by (auto simp: children_ok_def refund_new_def scopes_def)
  next
    case (mv_process i st x e now)
    with ok sub show ?thesis by (auto simp: children_ok_def)
  next
    case (mv_quarantine d)
    have "(dlSale d, dlTenant d, dlStore d) \<in> scopes s" using mv_quarantine(2) by (auto simp: deadletter_new_def scopes_def)
    with ok sub mv_quarantine(1) show ?thesis by (auto simp: children_ok_def)
  next
    case (mv_repair i x now)
    with ok sub show ?thesis by (auto simp: children_ok_def set_update_where)
  qed
qed

section \<open>Sales\<close>

lemma line_sum_append: "line_sum (s\<lparr>saleRows := xs, soldLines := soldLines s @ rs, saleEvents := es\<rparr>) i =
    line_sum s i + sum_list (map lnAmount (filter (\<lambda>l. lnSale l = i) rs))"
  by (simp add: line_sum_def)

text \<open>A sale that is not in the table has no lines.\<close>

lemma no_lines_before:
  assumes "sales_ok s" and "i \<notin> saId ` set (saleRows s)"
  shows "filter (\<lambda>l. lnSale l = i) (soldLines s) = []"
proof -
  have "lnSale l \<noteq> i" if "l \<in> set (soldLines s)" for l
  proof -
    from assms(1) that have "line_scope l \<in> scopes s" by (simp add: sales_ok_def children_ok_def)
    then obtain z where "z \<in> set (saleRows s)" "lnSale l = saId z" by (auto simp: scopes_def sale_scope_def)
    with assms(2) show ?thesis by (metis imageI)
  qed
  then show ?thesis by (simp add: filter_empty_conv)
qed

lemma move_sale_ok:
  assumes "sales_move t s s'" and ok: "sales_ok s" and y: "y \<in> set (saleRows s')"
  shows "sale_ok s' y"
  using assms(1)
proof cases
  case (mv_capture x rs e)
  have new: "filter (\<lambda>l. lnSale l = saId x) rs = rs"
    using mv_capture(6) by (intro filter_True) (auto simp: sale_scope_def)
  have other: "filter (\<lambda>l. lnSale l = i) rs = []" if "i \<noteq> saId x" for i
    using mv_capture(6) that by (auto simp: sale_scope_def filter_empty_conv)
  have fresh: "saId x \<notin> saId ` set (saleRows s)" using mv_capture(2) by (simp add: sale_new_def)
  have none: "line_sum s (saId x) = 0" using no_lines_before [OF ok fresh] by (simp add: line_sum_def)
  show ?thesis
  proof (cases "y = x")
    case True
    with mv_capture new none show ?thesis by (simp add: sale_ok_def line_sum_append)
  next
    case False
    with y mv_capture(1) have y: "y \<in> set (saleRows s)" by simp
    with fresh have "saId y \<noteq> saId x" by (metis imageI)
    with ok y mv_capture(1) other show ?thesis by (simp add: sales_ok_def sale_ok_def line_sum_append)
  qed
next
  case (mv_process i st x e now)
  from y mv_process(1) obtain z where z: "z \<in> set (saleRows s)"
    "y = (if unprocessed (tenant_ctx t) i st z then processed_row (tenant_ctx t) s now z else z)"
    by (auto simp: set_update_where)
  have zok: "sale_ok s z" using ok z(1) by (simp add: sales_ok_def)
  show ?thesis
  proof (cases "unprocessed (tenant_ctx t) i st z")
    case True
    then have y': "y = processed_row (tenant_ctx t) s now z" using z(2) by simp
    then have "saProcessed y = Some now" "saStatus y = Synced" by (simp_all add: processed_row_def)
    moreover have "saMismatch y = saMismatch z" "saTotal y = saTotal z" "saId y = saId z"
      unfolding y' by (rule sale_writes_sel [OF processed_row_writes [OF ok z(1) True]])+
    ultimately show ?thesis using zok mv_process(1) by (simp add: sale_ok_def line_sum_def)
  next
    case False
    with z(2) zok mv_process(1) show ?thesis by (simp add: sale_ok_def line_sum_def)
  qed
next
  case (mv_quarantine d)
  from y mv_quarantine(1) obtain z where z: "z \<in> set (saleRows s)"
    "y = (if saTenant z = t \<and> saId z = dlSale d \<and> saStore z = dlStore d \<and> saStatus z \<noteq> Synced
          then z\<lparr>saStatus := class_status (dlClass d)\<rparr> else z)"
    by (auto simp: set_update_where)
  have zok: "sale_ok s z" using ok z(1) by (simp add: sales_ok_def)
  show ?thesis
  proof (cases "saTenant z = t \<and> saId z = dlSale d \<and> saStore z = dlStore d \<and> saStatus z \<noteq> Synced")
    case True
    with z(2) zok mv_quarantine(1,3) show ?thesis
      by (cases "dlClass d") (auto simp: sale_ok_def line_sum_def class_status_def open_deadletter_def)
  next
    case False
    then have "y = z" using z(2) by auto
    with zok mv_quarantine(1) show ?thesis by (auto simp: sale_ok_def line_sum_def)
  qed
next
  case (mv_repair i x now)
  have x: "x \<in> set (saleRows s)" "saId x = i" "saTenant x = t"
    using find_SomeD [OF mv_repair(2) [unfolded readSaleStatusRow_def]] by auto
  from y mv_repair(1) obtain z where z: "z \<in> set (saleRows s)"
    "y = (if saTenant z = t \<and> saId z = i then z\<lparr>saStatus := Failed_retryable\<rparr> else z)"
    by (auto simp: set_update_where)
  have zok: "sale_ok s z" using ok z(1) by (simp add: sales_ok_def)
  show ?thesis
  proof (cases "saId z = i")
    case True
    with sale_by_id [OF ok z(1) x(1)] x have "z = x" by simp
    with zok z(2) x mv_repair(1,3) show ?thesis by (simp add: sale_ok_def line_sum_def)
  next
    case False
    then have "y = z" using z(2) by simp
    with zok False mv_repair(1) show ?thesis
      by (fastforce simp: sale_ok_def line_sum_def set_update_where open_deadletter_def image_iff)
  qed
qed (use ok y in \<open>auto simp: sales_ok_def sale_ok_def line_sum_def\<close>)

lemma move_sales_ok: "sales_move t s s' \<Longrightarrow> sales_ok s \<Longrightarrow> sales_ok s'"
  using move_keys move_children move_sale_ok by (simp add: sales_ok_def)

lemma step_sales_ok: "sales_ok s \<Longrightarrow> sales_ok (sales_step env op s)"
  using sales_step_moves [of env op s] move_sales_ok by metis

section \<open>Events\<close>

text \<open>
  The captured events are, in order, those of the sales; the posting requests are, up to their order,
  one per processed sale, void and refund.
\<close>

definition announced :: "sales_db \<Rightarrow> bool" where
  "announced s \<longleftrightarrow>
     list_all2 announcing (filter (\<lambda>e. evType e = ''sale.captured'') (saleEvents s)) (map sale_scope (saleRows s))"

type_synonym anchor = "string \<times> uuid \<times> uuid \<times> uuid \<times> uuid"

definition sale_anchor :: "sale \<Rightarrow> anchor" where
  "sale_anchor x = (''sale_post'', saTenant x, saStore x, saId x, saId x)"

definition void_anchor :: "sale_void \<Rightarrow> anchor" where
  "void_anchor v = (''reversal'', vdTenant v, vdStore v, vdSale v, vdId v)"

definition refund_anchor :: "sale_refund \<Rightarrow> anchor" where
  "refund_anchor v = (''reversal'', rfTenant v, rfStore v, rfSale v, rfId v)"

definition anchors :: "sales_db \<Rightarrow> anchor multiset" where
  "anchors s = mset (map sale_anchor (filter (\<lambda>x. saProcessed x \<noteq> None) (saleRows s)))
     + mset (map void_anchor (saleVoids s)) + mset (map refund_anchor (saleRefunds s))"

definition posting_of :: "outbox_event \<Rightarrow> anchor \<Rightarrow> bool" where
  "posting_of e a = (case a of (kind, t, st, sale, i) \<Rightarrow> posting e kind t st sale i)"

definition posted :: "sales_db \<Rightarrow> bool" where
  "posted s \<longleftrightarrow>
     (\<exists>as. list_all2 posting_of (filter (\<lambda>e. evType e = ''erpnext.posting.requested'') (saleEvents s)) as \<and> mset as = anchors s)"

lemma move_announced:
  assumes "sales_move t s s'" and "announced s"
  shows "announced s'"
  using assms
proof (induction rule: sales_move.induct)
  case (mv_capture x s rs e)
  then show ?case by (auto simp: announced_def announcing_def split: prod.splits intro!: list_all2_appendI)
next
  case (mv_process i st s x e now)
  then show ?case by (simp add: announced_def posting_def map_update_where processed_row_def sale_scope_def)
qed (simp_all add: announced_def posting_def map_update_where sale_scope_def)

lemma posted_snoc:
  assumes "posted s" and "saleEvents s' = saleEvents s @ [e]" and "posting_of e a" and "anchors s' = add_mset a (anchors s)"
  shows "posted s'"
proof -
  from assms(1) obtain as where as: "list_all2 posting_of (filter (\<lambda>e. evType e = ''erpnext.posting.requested'') (saleEvents s)) as"
    "mset as = anchors s" by (auto simp: posted_def)
  have "evType e = ''erpnext.posting.requested''" using assms(3) by (auto simp: posting_of_def posting_def split: prod.splits)
  then have "filter (\<lambda>e. evType e = ''erpnext.posting.requested'') (saleEvents s') =
    filter (\<lambda>e. evType e = ''erpnext.posting.requested'') (saleEvents s) @ [e]" by (simp add: assms(2))
  moreover have "list_all2 posting_of (filter (\<lambda>e. evType e = ''erpnext.posting.requested'') (saleEvents s) @ [e]) (as @ [a])"
    using as(1) assms(3) by (intro list_all2_appendI) simp_all
  moreover have "mset (as @ [a]) = anchors s'" by (simp add: as(2) assms(4))
  ultimately show ?thesis unfolding posted_def by metis
qed

lemma move_posted:
  assumes "sales_move t s s'" and "sales_ok s" and "posted s"
  shows "posted s'"
  using assms(1)
proof cases
  case (mv_capture x rs e)
  then have "evType e \<noteq> ''erpnext.posting.requested''" by (auto simp: announcing_def split: prod.splits)
  with mv_capture(1,4) assms(3) show ?thesis by (simp add: posted_def anchors_def)
next
  case (mv_void v e)
  have "posting_of e (void_anchor v)" using mv_void(3) by (simp add: posting_of_def void_anchor_def)
  then show ?thesis by (rule posted_snoc [OF assms(3), rotated]) (simp_all add: mv_void(1) anchors_def)
next
  case (mv_refund v e)
  have "posting_of e (refund_anchor v)" using mv_refund(3) by (simp add: posting_of_def refund_anchor_def)
  then show ?thesis by (rule posted_snoc [OF assms(3), rotated]) (simp_all add: mv_refund(1) anchors_def)
next
  case (mv_process i st x e now)
  have x: "x \<in> set (saleRows s)" "saTenant x = t" "saStore x = st" "saId x = i" "saProcessed x = None"
    using find_SomeD [OF mv_process(2)] by (auto simp: unprocessed_def)
  have rows: "saleRows s' = update_where (unprocessed (tenant_ctx t) i st) (processed_row (tenant_ctx t) s now) (saleRows s)"
    by (simp add: mv_process(1))
  have "mset (map sale_anchor (filter (\<lambda>x. saProcessed x \<noteq> None) (saleRows s'))) =
    add_mset (sale_anchor (processed_row (tenant_ctx t) s now x)) (mset (map sale_anchor (filter (\<lambda>x. saProcessed x \<noteq> None) (saleRows s))))"
    unfolding rows
  proof (rule mset_filter_update_where [where k = saId])
    show "distinct (map saId (saleRows s))" using assms(2) by (simp add: sales_ok_def keys_ok_def)
  qed (use x in \<open>auto simp: unprocessed_def processed_row_def\<close>)
  moreover have "sale_anchor (processed_row (tenant_ctx t) s now x) = (''sale_post'', t, st, i, i)"
    using x by (simp add: sale_anchor_def processed_row_def)
  moreover have "posting_of e (''sale_post'', t, st, i, i)" using mv_process(3) by (simp add: posting_of_def)
  ultimately show ?thesis
    by (intro posted_snoc [OF assms(3), where e = e and a = "(''sale_post'', t, st, i, i)"])
       (simp_all add: anchors_def, simp_all add: mv_process(1))
next
  case (mv_quarantine d)
  then show ?thesis using assms(3) by (simp add: posted_def anchors_def map_filter_update_where sale_anchor_def)
next
  case (mv_repair i x now)
  then show ?thesis using assms(3) by (simp add: posted_def anchors_def map_filter_update_where sale_anchor_def)
qed

section \<open>Runs\<close>

definition books_ok :: "sales_db \<Rightarrow> bool" where
  "books_ok s \<longleftrightarrow> sales_ok s \<and> announced s \<and> posted s"

lemma move_books_ok: "sales_move t s s' \<Longrightarrow> books_ok s \<Longrightarrow> books_ok s'"
  using move_sales_ok move_announced move_posted by (simp add: books_ok_def)

lemma step_books_ok: "books_ok s \<Longrightarrow> books_ok (sales_step env op s)"
  using sales_step_moves [of env op s] move_books_ok by metis

lemma run_books_ok: "books_ok s \<Longrightarrow> books_ok (sales_run env ops s)"
  by (induction ops arbitrary: s) (simp_all add: step_books_ok)

lemma run_sales_ok: "sales_ok s \<Longrightarrow> sales_ok (sales_run env ops s)"
  by (induction ops arbitrary: s) (simp_all add: step_sales_ok)

end
