(* ===== verification/SalesLife.thy ===== *)
theory SalesLife
  imports SalesInvariant
begin

text \<open>
  What a run leaves of a row that was there before it: sales keep their facts and their lines, lines
  and terminal events are only appended, a dead letter changes only by its one repair.
\<close>

section \<open>Dead letters\<close>

definition dl_writes :: "deadletter \<Rightarrow> deadletter \<Rightarrow> bool" where
  "dl_writes d d' \<longleftrightarrow> d' = d \<or> dlClass d = Needs_repair \<and> dlResolved d = None \<and>
     (\<exists>now. d' = d\<lparr>dlResolved := Some now, dlRetries := dlRetries d + 1\<rparr>)"

lemma dl_writes_refl [simp]: "dl_writes d d"
  by (simp add: dl_writes_def)

text \<open>
  A dead letter nothing resolves: open, and retryable or of a synced sale.
\<close>

definition stuck :: "deadletter \<Rightarrow> sales_db \<Rightarrow> bool" where
  "stuck d s \<longleftrightarrow> d \<in> set (deadletters s) \<and> dlResolved d = None \<and>
     (dlClass d = Retryable \<or> (\<exists>x \<in> set (saleRows s). saId x = dlSale d \<and> saStatus x = Synced))"

lemma open_unique:
  assumes "sales_ok s" and "d \<in> set (deadletters s)" and "d' \<in> set (deadletters s)"
    and "dlResolved d = None" and "dlResolved d' = None" and "dlSale d = dlSale d'"
  shows "d = d'"
proof -
  have "distinct (map dlSale (filter (\<lambda>d. dlResolved d = None) (deadletters s)))"
    using assms(1) by (simp add: sales_ok_def keys_ok_def)
  then show ?thesis by (rule distinct_key_unique) (use assms in auto)
qed

lemma stuck_not_repairable:
  assumes "sales_ok s" and "stuck d s" and "x \<in> set (saleRows s)" and "saId x = dlSale d"
  shows "saStatus x \<noteq> Failed_needs_repair"
proof
  assume bad: "saStatus x = Failed_needs_repair"
  then obtain d' where d': "d' \<in> set (deadletters s)" "open_deadletter (saId x) d'" "dlClass d' = Needs_repair"
    using assms(1,3) by (auto simp: sales_ok_def sale_ok_def)
  have d: "d \<in> set (deadletters s)" "dlResolved d = None"
    "dlClass d = Retryable \<or> (\<exists>y \<in> set (saleRows s). saId y = dlSale d \<and> saStatus y = Synced)"
    using assms(2) by (simp_all add: stuck_def)
  have "d' = d" using open_unique [OF assms(1) d'(1) d(1)] d'(2) d(2) assms(4) by (simp add: open_deadletter_def)
  with d(3) d'(3) obtain y where "y \<in> set (saleRows s)" "saId y = dlSale d" "saStatus y = Synced" by auto
  with sale_by_id [OF assms(1) this(1) assms(3)] assms(4) bad show False by simp
qed

section \<open>One move\<close>

definition sales_extends :: "sales_db \<Rightarrow> sales_db \<Rightarrow> bool" where
  "sales_extends s s' \<longleftrightarrow>
     table_extends sale_writes\<^sup>*\<^sup>* (\<lambda>_. True) (saleRows s) (saleRows s') \<and>
     table_extends dl_writes\<^sup>*\<^sup>* (\<lambda>_. True) (deadletters s) (deadletters s') \<and>
     prefix (soldLines s) (soldLines s') \<and> prefix (saleVoids s) (saleVoids s') \<and>
     prefix (saleRefunds s) (saleRefunds s') \<and> prefix (saleEvents s) (saleEvents s') \<and>
     storeZones s' = storeZones s"

lemma sales_extends_refl [simp]: "sales_extends s s"
  by (simp add: sales_extends_def table_extends_refl)

lemma sales_extends_trans: "sales_extends s s' \<Longrightarrow> sales_extends s' s'' \<Longrightarrow> sales_extends s s''"
  unfolding sales_extends_def
  by (elim conjE, intro conjI)
     (blast intro: table_extends_trans [where rel = "sale_writes\<^sup>*\<^sup>*"] rtranclp_trans,
      blast intro: table_extends_trans [where rel = "dl_writes\<^sup>*\<^sup>*"] rtranclp_trans,
      auto intro: prefix_order.trans)

lemma move_deadletters: "sales_move t s s' \<Longrightarrow> table_extends dl_writes\<^sup>*\<^sup>* (\<lambda>_. True) (deadletters s) (deadletters s')"
proof (induction rule: sales_move.induct)
  case (mv_quarantine d s)
  then show ?case by (simp add: table_extends_snoc)
next
  case (mv_repair i s x now)
  have "dl_writes\<^sup>*\<^sup>* d (d\<lparr>dlResolved := Some now, dlRetries := dlRetries d + 1\<rparr>)"
    if "dlClass d = Needs_repair" "open_deadletter i d" for d
    using that by (intro r_into_rtranclp) (auto simp: dl_writes_def open_deadletter_def)
  then show ?case by (simp, intro table_extends_update_where) simp_all
qed (simp_all add: table_extends_refl)

lemma move_extends:
  assumes "sales_move t s s'" and "sales_ok s"
  shows "sales_extends s s'"
proof -
  have "table_extends sale_writes\<^sup>*\<^sup>* (\<lambda>_. True) (saleRows s) (saleRows s')"
    by (rule table_extends_weaken [OF move_sales [OF assms]]) auto
  moreover have "prefix (soldLines s) (soldLines s') \<and> prefix (saleVoids s) (saleVoids s') \<and>
     prefix (saleRefunds s) (saleRefunds s') \<and> prefix (saleEvents s) (saleEvents s') \<and> storeZones s' = storeZones s"
    using assms(1) by cases simp_all
  ultimately show ?thesis using move_deadletters [OF assms(1)] by (simp add: sales_extends_def)
qed

text \<open>A sale's lines come with it; no later move adds one.\<close>

definition own_lines :: "uuid \<Rightarrow> sales_db \<Rightarrow> sold_line list" where
  "own_lines i s = filter (\<lambda>l. lnSale l = i) (soldLines s)"

lemma move_lines:
  assumes "sales_move t s s'" and "x \<in> set (saleRows s)"
  shows "own_lines (saId x) s' = own_lines (saId x) s"
  using assms(1)
proof cases
  case (mv_capture y rs e)
  have "saId y \<noteq> saId x" using mv_capture(2) assms(2) by (auto simp: sale_new_def)
  then have "filter (\<lambda>l. lnSale l = saId x) rs = []" using mv_capture(6) by (auto simp: sale_scope_def filter_empty_conv)
  then show ?thesis by (simp add: own_lines_def mv_capture(1))
qed (simp_all add: own_lines_def)

lemma move_stuck:
  assumes "sales_move t s s'" and "sales_ok s" and "stuck d s"
  shows "stuck d s'"
proof -
  have d: "d \<in> set (deadletters s)" "dlResolved d = None"
    "dlClass d = Retryable \<or> (\<exists>x \<in> set (saleRows s). saId x = dlSale d \<and> saStatus x = Synced)"
    using assms(3) by (simp_all add: stuck_def)
  have "dlClass d = Retryable \<or> (\<exists>x \<in> set (saleRows s'). saId x = dlSale d \<and> saStatus x = Synced)"
  proof (cases "dlClass d = Retryable")
    case False
    with d(3) obtain x where x: "x \<in> set (saleRows s)" "saId x = dlSale d" "saStatus x = Synced" by auto
    from table_extends_rowD [OF move_sales [OF assms(1,2)] x(1)] obtain y where y: "y \<in> set (saleRows s')" "sale_writes x y" .
    have "saProcessed x \<noteq> None" using assms(2) x by (simp add: sales_ok_def sale_ok_def)
    with y(2) have "y = x" by (simp add: sale_writes_def)
    with x y show ?thesis by auto
  qed simp
  moreover have "d \<in> set (deadletters s')"
    using assms(1)
  proof cases
    case (mv_repair i x now)
    have x: "x \<in> set (saleRows s)" "saId x = i"
      using find_SomeD [OF mv_repair(2) [unfolded readSaleStatusRow_def]] by auto
    have "i \<noteq> dlSale d" using stuck_not_repairable [OF assms(2,3) x(1)] x(2) mv_repair(3) by auto
    with d(1) show ?thesis unfolding mv_repair(1) by (force simp: set_update_where open_deadletter_def)
  qed (use d in simp_all)
  ultimately show ?thesis using d(2) by (simp add: stuck_def)
qed

section \<open>Runs\<close>

lemma run_induct:
  assumes "sales_ok s" and "P s"
    and "\<And>t s s'. sales_move t s s' \<Longrightarrow> sales_ok s \<Longrightarrow> P s \<Longrightarrow> P s'"
  shows "P (sales_run env ops s)"
  using assms(1,2)
proof (induction ops arbitrary: s)
  case (Cons op ops)
  have "P (sales_step env op s)"
    using sales_step_moves [of env op s] assms(3) [of _ s "sales_step env op s"] Cons.prems by metis
  with Cons.IH Cons.prems step_sales_ok show ?case by simp
qed simp

lemma run_extends:
  assumes "sales_ok s"
  shows "sales_extends s (sales_run env ops s)"
proof -
  have "sales_ok (sales_run env ops s) \<and> sales_extends s (sales_run env ops s)"
    by (rule run_induct [where P = "\<lambda>s'. sales_ok s' \<and> sales_extends s s'"])
       (use assms in \<open>auto intro: move_sales_ok sales_extends_trans move_extends\<close>)
  then show ?thesis ..
qed

lemma run_stuck:
  assumes "sales_ok s" and "stuck d s"
  shows "stuck d (sales_run env ops s)"
  by (rule run_induct [where P = "stuck d", OF assms]) (rule move_stuck)

text \<open>Where a sale of the start is at the end.\<close>

lemma sale_later:
  assumes "sale_writes\<^sup>*\<^sup>* x y"
  obtains p st where "y = x\<lparr>saProcessed := p, saStatus := st\<rparr>" "saProcessed x \<noteq> None \<longrightarrow> y = x"
proof -
  from assms have "(\<exists>p st. y = x\<lparr>saProcessed := p, saStatus := st\<rparr>) \<and> (saProcessed x \<noteq> None \<longrightarrow> y = x)"
  proof (induction rule: rtranclp_induct)
    case base
    have "x = x\<lparr>saProcessed := saProcessed x, saStatus := saStatus x\<rparr>" by simp
    then show ?case by blast
  next
    case (step y z)
    then obtain p st where y: "y = x\<lparr>saProcessed := p, saStatus := st\<rparr>" "saProcessed x \<noteq> None \<longrightarrow> y = x" by auto
    from step.hyps(2) obtain p' st' where z: "z = y\<lparr>saProcessed := p', saStatus := st'\<rparr>" "saProcessed y \<noteq> None \<longrightarrow> z = y"
      unfolding sale_writes_def by metis
    from y(1) z(1) have "z = x\<lparr>saProcessed := p', saStatus := st'\<rparr>" by simp
    with y(2) z(2) show ?case by auto
  qed
  then show thesis using that by auto
qed

lemma sale_later_id: "sale_writes\<^sup>*\<^sup>* x y \<Longrightarrow> saId y = saId x"
  by (erule sale_later) simp

lemma run_sale:
  assumes "sales_ok s" and "x \<in> set (saleRows s)"
  obtains y where "y \<in> set (saleRows (sales_run env ops s))" "sale_writes\<^sup>*\<^sup>* x y"
    "own_lines (saId x) (sales_run env ops s) = own_lines (saId x) s"
proof -
  let ?P = "\<lambda>s'. (\<exists>y \<in> set (saleRows s'). sale_writes\<^sup>*\<^sup>* x y) \<and> own_lines (saId x) s' = own_lines (saId x) s"
  have "?P (sales_run env ops s)"
  proof (rule run_induct [where P = ?P, OF assms(1)])
    fix t s1 s2 assume m: "sales_move t s1 s2" "sales_ok s1" and P: "?P s1"
    then obtain y where y: "y \<in> set (saleRows s1)" "sale_writes\<^sup>*\<^sup>* x y" by auto
    from table_extends_rowD [OF move_sales [OF m] y(1)] obtain z where z: "z \<in> set (saleRows s2)" "sale_writes y z" .
    have "saId y = saId x" using y(2) by (rule sale_later_id)
    with move_lines [OF m(1) y(1)] P y z show "?P s2" by (metis rtranclp.rtrancl_into_rtrancl)
  qed (use assms(2) in auto)
  then show thesis using that by auto
qed

end
