(* ===== verification/SalesTheorems.thy ===== *)
theory SalesTheorems
  imports SalesLife "HOL-Library.Code_Target_Nat" "HOL-Library.Code_Target_Int"
begin

text \<open>
  The properties of the sale facts: what a capture records and that a re-delivery records nothing,
  the books that every run keeps, the processing of a captured sale, and the dead letters that no
  operation resolves.
\<close>

section \<open>A concrete shop\<close>

definition shop_env :: sales_env where
  "shop_env = \<lparr>sha256_hex = id, zone_date = (\<lambda>tz t. Some ''2026-05-01''), collation = length\<rparr>"

definition shop_context :: request_context where
  "shop_context = Some \<lparr>rcUser = Some 3, rcTenant = Some 1, rcStore = Some 2, rcPlatformAdmin = False\<rparr>"

definition shop_body :: capture_request where
  "shop_body = \<lparr>cqSource = ''pos'', cqExternal = ''r-1'', cqCurrency = ''EGP'', cqTotal = ''25.50'',
     cqOccurred = (''2026-05-01T10:00:00Z'', 100), cqClock = None,
     cqLines = [\<lparr>lqName = ''Tea'', lqPrice = ''12.75'', lqCurrency = ''EGP'', lqQuantity = ''2'', lqAmount = ''25.50'',
                 lqTax = None, lqUnit = ''box'', lqProduct = None\<rparr>]\<rparr>"

definition shop_db :: sales_db where
  "shop_db = \<lparr>saleRows = [], soldLines = [], saleVoids = [], saleRefunds = [], deadletters = [], saleEvents = [],
     storeZones = [(2, 1, ''Africa/Cairo'')]\<rparr>"

definition shop_input :: capture_sale_input where
  "shop_input = \<lparr>ciTenant = 1, ciStore = 2, ciUser = 3, ciBody = shop_body\<rparr>"

definition shop_ids :: id_source where
  "shop_ids k = 50 + k"

lemma shop_schema: "CaptureSaleRequestSchema shop_body"
  by code_simp

lemma shop_write_context: "write_context shop_context = Inr (1, 3, 2)"
  by code_simp

lemma shop_books: "books_ok shop_db"
  by (simp add: books_ok_def sales_ok_def keys_ok_def children_ok_def announced_def posted_def anchors_def shop_db_def)

section \<open>Capture\<close>

lemma map_sum_Inr_iff: "map_sum id f r = Inr y \<longleftrightarrow> (\<exists>x. r = Inr x \<and> f x = y)"
  by (cases r) auto

lemma capture_route_ok:
  assumes "captureSale_route env req b ids now s = (Response_ok n body, s')"
  obtains t u st i f where "CaptureSaleRequestSchema b" "write_context req = Inr (t, u, st)"
    "succeeds (captureSale_work env \<lparr>ciTenant = t, ciStore = st, ciUser = u, ciBody = b\<rparr> ids now (tenant_ctx t)) s (i, f) s'"
    "n = (if f then 201 else 200)" "readSaleProjection env t st i s' = Inr body"
proof -
  obtain t u st where req: "CaptureSaleRequestSchema b" "write_context req = Inr (t, u, st)"
    and run: "created_or_replayed Unhandled (captureSale env \<lparr>ciTenant = t, ciStore = st, ciUser = u, ciBody = b\<rparr> ids now s)
      = (Response_ok n body, s')"
    using assms by (auto simp: captureSale_route_def split: if_splits sum.splits)
  let ?inp = "\<lparr>ciTenant = t, ciStore = st, ciUser = u, ciBody = b\<rparr>"
  from run obtain i f where "runWithTenantContext (tenant_ctx t) (\<lambda>c. as_work (captureSale_work env ?inp ids now c)) s = (Inr (i, f), s')"
    and "n = (if f then 201 else 200)" "readSaleProjection env t st i s' = Inr body"
    by (auto simp: created_or_replayed_def captureSale_def map_sum_Inr_iff split: prod.splits sum.splits if_splits)
  with req honest_run [where m = "captureSale_work env ?inp ids now", OF honest_captureSale] show thesis
    by (intro that) simp_all
qed

lemma capture_route_succeeds:
  assumes "CaptureSaleRequestSchema b" and "write_context req = Inr (t, u, st)"
    and "succeeds (captureSale_work env \<lparr>ciTenant = t, ciStore = st, ciUser = u, ciBody = b\<rparr> ids now (tenant_ctx t)) s (i, f) s'"
    and "readSaleProjection env t st i s' = Inr body"
  shows "captureSale_route env req b ids now s = (Response_ok (if f then 201 else 200) body, s')"
  using assms
  by (simp add: captureSale_route_def captureSale_def created_or_replayed_def runWithTenantContext_def flip: as_work_Returns)

lemma line_rows_amounts:
  "line_rows inp sale ids k ls = Inr rs \<Longrightarrow> map (\<lambda>l. pg_numeric_in (lqAmount l)) ls = map (\<lambda>r. Inr (lnAmount r)) rs"
proof (induction ls arbitrary: k rs)
  case (Cons l ls)
  then obtain r rs' where r: "line_of inp sale (ids k) l = Inr r" and rs': "line_rows inp sale ids (Suc k) ls = Inr rs'" "rs = r # rs'"
    by (auto simp: run_simps)
  from r have "pg_numeric_in (lqAmount l) = Inr (lnAmount r)" by (auto simp: line_of_def run_simps)
  with Cons.IH rs' show ?case by simp
qed simp

text \<open>The projection of a sale that is in the table.\<close>

lemma projection_of_row:
  assumes "sales_ok s" and "x \<in> set (saleRows s)"
  shows "readSaleProjection env (saTenant x) (saStore x) (saId x) s =
    Inr (toBody x (sort_key (\<lambda>l. collation env (lnName l)) (own_lines (saId x) s)))"
proof -
  have "find (\<lambda>y. rls_tenant (tenant_ctx (saTenant x)) (saTenant y) \<and> saId y = saId x \<and> saStore y = saStore x) (saleRows s) = Some x"
  proof (rule ccontr)
    assume *: "\<not> ?thesis"
    then show False
    proof (cases "find (\<lambda>y. rls_tenant (tenant_ctx (saTenant x)) (saTenant y) \<and> saId y = saId x \<and> saStore y = saStore x) (saleRows s)")
      case None
      with assms(2) show False by (auto dest: find_NoneD)
    next
      case (Some y)
      with sale_by_id [OF assms(1) _ assms(2), of y] * show False by (auto dest: find_SomeD)
    qed
  qed
  then show ?thesis
    by (simp add: readSaleProjection_def find_sale_def lines_of_sale_all [OF assms] own_lines_def)
qed

text \<open>C17: A capture records the sale once and whole. A 201 answer means: under a provenance key that
  was not taken, exactly one header with the request's facts was added, with one line per line of the
  request (each amount as the column reads the text), one pending event that names the sale, and
  nothing else changed; the flag of the header says whether the stored lines differ from the stored
  total; and the answer shows that header and those lines.\<close>

theorem capture_records:
  assumes "captureSale_route env req b ids now s = (Response_ok 201 body, s')" and "sales_ok s"
  shows "\<exists>t u st x rs e. write_context req = Inr (t, u, st) \<and>
    s' = s\<lparr>saleRows := saleRows s @ [x], soldLines := soldLines s @ rs, saleEvents := saleEvents s @ [e]\<rparr> \<and>
    sale_scope x = (ids 0, t, st) \<and> sale_key x = (t, cqSource b, cqExternal b) \<and> sale_key x \<notin> sale_key ` set (saleRows s) \<and>
    pg_numeric_in (cqTotal b) = Inr (saTotal x) \<and> saStatus x = Captured \<and> saProcessed x = None \<and>
    saMismatch x = Some (sum_list (map lnAmount rs) \<noteq> saTotal x) \<and>
    map (\<lambda>l. pg_numeric_in (lqAmount l)) (cqLines b) = map (\<lambda>r. Inr (lnAmount r)) rs \<and>
    list_all (\<lambda>r. line_scope r = sale_scope x) rs \<and> announcing e (sale_scope x) \<and> evState e = Ev_pending \<and>
    body = toBody x (sort_key (\<lambda>l. collation env (lnName l)) rs)"
proof -
  from assms(1) obtain t u st i f where b: "CaptureSaleRequestSchema b" and req: "write_context req = Inr (t, u, st)"
    and run: "succeeds (captureSale_work env \<lparr>ciTenant = t, ciStore = st, ciUser = u, ciBody = b\<rparr> ids now (tenant_ctx t)) s (i, f) s'"
    and n: "201 = (if f then 201 else 200 :: nat)" and body: "readSaleProjection env t st i s' = Inr body"
    by (rule capture_route_ok)
  let ?inp = "\<lparr>ciTenant = t, ciStore = st, ciUser = u, ciBody = b\<rparr>"
  from n have f: "f = True" by (simp split: if_splits)
  from run [unfolded f captureSale_fresh] obtain m d tot rs where i: "i = ids 0"
    and checked: "capture_checked env ?inp (tenant_ctx t) s m d tot"
    and new: "sale_new (tenant_ctx t) (captured_row env ?inp ids now m d tot) s"
    and rs: "line_rows ?inp (ids 0) ids 1 (cqLines b) = Inr rs"
    and s': "s' = s\<lparr>saleRows := saleRows s @ [captured_row env ?inp ids now m d tot], soldLines := soldLines s @ rs,
              saleEvents := saleEvents s @ [captured_event ?inp (ids 0) ids now]\<rparr>" by auto
  let ?x = "captured_row env ?inp ids now m d tot"
  have lines: "cqLines b \<noteq> []" using b by (simp add: CaptureSaleRequestSchema_def)
  have mismatch: "m \<longleftrightarrow> sum_list (map lnAmount rs) \<noteq> tot"
    using capture_mismatch [OF checked, of "ids 0" ids rs] rs lines by simp
  have scope: "line_scope r = (ids 0, t, st)" if "r \<in> set rs" for r using lines_scope [OF rs that] by simp
  have ok': "sales_ok s'" using step_sales_ok [OF assms(2), of env "Post_capture req b ids now"] assms(1) by simp
  have x: "?x \<in> set (saleRows s')" by (simp add: s')
  have "own_lines (ids 0) s = []" using no_lines_before [OF assms(2), of "ids 0"] new by (simp add: sale_new_def own_lines_def)
  then have "own_lines (ids 0) s' = rs"
    using scope by (simp add: own_lines_def s')
  with projection_of_row [OF ok' x, of env] body i have proj: "body = toBody ?x (sort_key (\<lambda>l. collation env (lnName l)) rs)" by simp
  let ?e = "captured_event ?inp (ids 0) ids now"
  have ev: "announcing ?e (ids 0, t, st)" "evState ?e = Ev_pending"
    using captured_event_announces [of ?inp ids now env m d tot] by (simp_all add: captured_event_def pending_event_def)
  show ?thesis
    by (rule exI [of _ t], rule exI [of _ u], rule exI [of _ st], rule exI [of _ ?x], rule exI [of _ rs], rule exI [of _ ?e])
       (use new req checked mismatch line_rows_amounts [OF rs] scope proj ev
        in \<open>simp add: s' sale_new_def capture_key_def capture_checked_def list_all_iff\<close>)
qed

definition shop_line :: sold_line where
  "shop_line = \<lparr>lnId = 51, lnSale = 50, lnTenant = 1, lnStore = 2, lnName = ''Tea'', lnPrice = 127500, lnCurrency = ''EGP'',
     lnQuantity = 2000000, lnAmount = 255000, lnTax = None, lnUnit = ''box'', lnProduct = None\<rparr>"

definition shop_sale :: sale where
  "shop_sale = captured_row shop_env shop_input shop_ids 1000 False ''2026-05-01'' 255000"

definition shop_sold :: sales_db where
  "shop_sold = shop_db\<lparr>saleRows := [shop_sale], soldLines := [shop_line], saleEvents := [captured_event shop_input 50 shop_ids 1000]\<rparr>"

lemma shop_line_rows: "line_rows shop_input 50 shop_ids 1 (cqLines shop_body) = Inr [shop_line]"
  by code_simp

lemma shop_totals: "compare_totals (cqTotal shop_body) (map lqAmount (cqLines shop_body)) = Inr False"
  "pg_numeric_in (cqTotal shop_body) = Inr 255000" "currency_ok (cqCurrency shop_body)"
  by code_simp+

lemma shop_input_sel [simp]: "ciTenant shop_input = 1" "ciStore shop_input = 2" "ciUser shop_input = 3" "ciBody shop_input = shop_body"
  by (simp_all add: shop_input_def)

lemma shop_sale_sel [simp]: "saId shop_sale = 50" "saTenant shop_sale = 1" "saStore shop_sale = 2" "saProcessed shop_sale = None"
  "saStatus shop_sale = Captured" "saMismatch shop_sale = Some False" "sale_scope shop_sale = (50, 1, 2)"
  by (simp_all add: shop_sale_def shop_ids_def)

lemma shop_capture: "succeeds (captureSale_work shop_env shop_input shop_ids 1000 (tenant_ctx 1)) shop_db (50, True) shop_sold"
proof -
  have "capture_checked shop_env shop_input (tenant_ctx 1) shop_db False ''2026-05-01'' 255000"
    by (simp add: capture_checked_def shop_totals store_timezone_def shop_db_def shop_env_def)
  moreover have "sale_new (tenant_ctx 1) shop_sale shop_db"
    using shop_totals(3) by (simp add: sale_new_def shop_sale_def store_exists_def shop_db_def)
  moreover have "lines_new (tenant_ctx 1) [shop_line] (shop_db\<lparr>saleRows := saleRows shop_db @ [shop_sale]\<rparr>)"
    using shop_totals(3) by (simp add: line_new_def shop_line_def store_exists_def shop_db_def shop_body_def)
  ultimately show ?thesis
    using shop_line_rows unfolding captureSale_fresh shop_sold_def shop_sale_def
    by (intro conjI exI [of _ False] exI [of _ "''2026-05-01''"] exI [of _ 255000] exI [of _ "[shop_line]"])
       (simp_all add: shop_ids_def, simp_all add: shop_db_def)
qed

lemma shop_sold_books: "books_ok shop_sold"
proof -
  have "shop_sold = shop_db \<or> sales_move 1 shop_db shop_sold"
    using capture_moves [of shop_env shop_input shop_ids 1000 shop_db 50 True shop_sold] shop_capture by (simp add: shop_body_def)
  with shop_books move_books_ok show ?thesis by auto
qed

lemma shop_projection: "readSaleProjection shop_env 1 2 50 shop_sold = Inr (toBody shop_sale [shop_line])"
proof -
  have "sales_ok shop_sold" using shop_sold_books by (simp add: books_ok_def)
  moreover have "shop_sale \<in> set (saleRows shop_sold)" by (simp add: shop_sold_def)
  moreover have "own_lines 50 shop_sold = [shop_line]" by (simp add: own_lines_def shop_sold_def shop_line_def)
  ultimately show ?thesis using projection_of_row [of shop_sold shop_sale shop_env] by simp
qed

lemma shop_route: "captureSale_route shop_env shop_context shop_body shop_ids 1000 shop_db = (Response_ok 201 (toBody shop_sale [shop_line]), shop_sold)"
  using capture_route_succeeds [OF shop_schema shop_write_context shop_capture [unfolded shop_input_def] shop_projection] by simp

lemma capture_records_witness:
  "\<exists>x rs e. shop_sold = shop_db\<lparr>saleRows := [x], soldLines := rs, saleEvents := [e]\<rparr> \<and> saMismatch x = Some (sum_list (map lnAmount rs) \<noteq> saTotal x)"
  using capture_records [OF shop_route] shop_books by (auto simp: books_ok_def shop_db_def)

section \<open>Re-delivery\<close>

lemma find_provenance_of_row:
  assumes "sales_ok s" and "x \<in> set (saleRows s)" and "sale_key x = k" and "saTenant x = t"
  shows "find_provenance_sale (tenant_ctx t) k s = Some x"
proof -
  have "distinct (map sale_key (saleRows s))" using assms(1) by (simp add: sales_ok_def keys_ok_def)
  from distinct_find [OF this assms(2,3)] have "find (\<lambda>r. sale_key r = k) (saleRows s) = Some x" .
  from find_stronger [OF this, of "\<lambda>r. saTenant r = t"] assms(4)
  show ?thesis by (simp add: find_provenance_sale_def conj_commute)
qed

text \<open>A capture under a taken key changes nothing, and answers with the sale that has the key or an error.\<close>

lemma capture_taken:
  assumes ok: "sales_ok s" and x: "x \<in> set (saleRows s)" "sale_key x = (t, cqSource b, cqExternal b)"
    and req: "write_context req = Inr (t, u, st)"
  obtains r where "captureSale_route env req b ids now s = (r, s)"
    "\<forall>n body. r = Response_ok n body \<longrightarrow> n = 200 \<and> st = saStore x \<and> readSaleProjection env t st (saId x) s = Inr body"
proof -
  let ?inp = "\<lparr>ciTenant = t, ciStore = st, ciUser = u, ciBody = b\<rparr>"
  obtain r s' where r: "captureSale_route env req b ids now s = (r, s')" by (cases "captureSale_route env req b ids now s")
  have t: "saTenant x = t" using x(2) by (simp add: sale_key_def)
  have win: "find_provenance_sale (tenant_ctx t) (capture_key ?inp) s = Some x"
    by (rule find_provenance_of_row [OF ok x(1) _ t]) (simp add: x(2) capture_key_def)
  have replay: "s' = s \<and> i = saId x \<and> \<not> f" if "succeeds (captureSale_work env ?inp ids now (tenant_ctx t)) s (i, f) s'" for i f s'
  proof (cases f)
    case True
    have "succeeds (captureSale_work env ?inp ids now (tenant_ctx t)) s (i, True) s'" using that True by simp
    then have "capture_key ?inp \<notin> sale_key ` set (saleRows s)"
      unfolding captureSale_fresh sale_new_def by (elim conjE exE) simp
    with x have False by (metis capture_key_def capture_sale_input.select_convs(1,4) imageI)
    then show ?thesis ..
  next
    case False
    with that have "succeeds (captureSale_work env ?inp ids now (tenant_ctx t)) s (i, False) s'" by simp
    with win show ?thesis unfolding captureSale_replay by (auto simp: False)
  qed
  have s': "s' = s"
  proof (cases "runWithTenantContext (tenant_ctx t) (\<lambda>c. as_work (captureSale_work env ?inp ids now c)) s")
    case (Pair q s'')
    from run_state_cases [OF Pair] replay have "s'' = s" by auto
    with Pair req have "snd (captureSale_route env req b ids now s) = s"
      by (simp add: captureSale_route_def captureSale_def split: sum.split prod.split)
    with r show ?thesis by simp
  qed
  have "n = 200 \<and> st = saStore x \<and> readSaleProjection env t st (saId x) s = Inr body" if "r = Response_ok n body" for n body
  proof -
    from r that s' have "captureSale_route env req b ids now s = (Response_ok n body, s)" by simp
    then obtain i f where run: "succeeds (captureSale_work env ?inp ids now (tenant_ctx t)) s (i, f) s" "n = (if f then 201 else 200)"
      and proj: "readSaleProjection env t st i s = Inr body"
      using req by (elim capture_route_ok) simp
    from replay [OF run(1)] run(2) have "i = saId x" "n = 200" by auto
    moreover have "st = saStore x"
    proof -
      from proj obtain y where y: "find_sale (tenant_ctx t) i st s = Some y" by (auto simp: readSaleProjection_def split: option.splits)
      then have "y \<in> set (saleRows s)" "saId y = saId x" "saStore y = st"
        using find_SomeD [OF y [unfolded find_sale_def]] \<open>i = saId x\<close> by auto
      with sale_by_id [OF ok this(1) x(1)] show ?thesis by simp
    qed
    ultimately show ?thesis using proj by simp
  qed
  then have "\<forall>n body. r = Response_ok n body \<longrightarrow> n = 200 \<and> st = saStore x \<and> readSaleProjection env t st (saId x) s = Inr body"
    by blast
  with r show thesis unfolding s' by (rule that)
qed

text \<open>While the time zones stay, what was captured once can be replayed.\<close>

lemma capture_replayable:
  assumes "capture_checked env inp (tenant_ctx (ciTenant inp)) s m d tot" and "0 \<le> tot" and "currency_ok (cqCurrency (ciBody inp))"
    and "sales_ok s'" and "y \<in> set (saleRows s')" and "sale_key y = capture_key inp" and "storeZones s' = storeZones s"
  shows "succeeds (captureSale_work env inp ids now (tenant_ctx (ciTenant inp))) s' (saId y, False) s'"
proof -
  have "saTenant y = ciTenant inp" using assms(6) by (simp add: sale_key_def capture_key_def)
  from find_provenance_of_row [OF assms(4,5,6) this]
  have "map_option saId (find_provenance_sale (tenant_ctx (ciTenant inp)) (capture_key inp) s') = Some (saId y)" by simp
  moreover have "capture_checked env inp (tenant_ctx (ciTenant inp)) s' m d tot"
    using assms(1,7) by (simp add: capture_checked_def store_timezone_def)
  moreover have "capture_key inp \<in> sale_key ` set (saleRows s')" using assms(5,6) by (metis imageI)
  ultimately show ?thesis unfolding captureSale_replay using assms(2,3) by auto
qed

text \<open>What a later read of a sale shows.\<close>

lemma later_projection:
  assumes "sales_ok s" and "x \<in> set (saleRows s)"
  obtains y body' where "y \<in> set (saleRows (sales_run env ops s))" "sale_scope y = sale_scope x" "sale_key y = sale_key x"
    "readSaleProjection env (saTenant x) (saStore x) (saId x) (sales_run env ops s) = Inr body'"
    "\<forall>body. readSaleProjection env (saTenant x) (saStore x) (saId x) s = Inr body \<longrightarrow>
       body' = body\<lparr>sbProcessed := sbProcessed body', sbStatus := sbStatus body'\<rparr>"
proof -
  let ?s = "sales_run env ops s"
  obtain y where y: "y \<in> set (saleRows ?s)" "sale_writes\<^sup>*\<^sup>* x y" and lines: "own_lines (saId x) ?s = own_lines (saId x) s"
    by (rule run_sale [OF assms])
  from y(2) obtain p q where yx: "y = x\<lparr>saProcessed := p, saStatus := q\<rparr>" by (rule sale_later)
  let ?body = "toBody y (sort_key (\<lambda>l. collation env (lnName l)) (own_lines (saId x) ?s))"
  have "readSaleProjection env (saTenant x) (saStore x) (saId x) ?s = Inr ?body"
    using projection_of_row [OF run_sales_ok [OF assms(1)] y(1), of env] by (simp add: yx)
  moreover have "\<forall>body. readSaleProjection env (saTenant x) (saStore x) (saId x) s = Inr body \<longrightarrow>
       ?body = body\<lparr>sbProcessed := sbProcessed ?body, sbStatus := sbStatus ?body\<rparr>"
    by (simp add: projection_of_row [OF assms] toBody_def yx lines)
  ultimately show thesis by (intro that [OF y(1)]) (simp_all add: yx sale_scope_def sale_key_def)
qed

text \<open>C18: A re-delivery records nothing. After a capture answered 201, whatever operations ran since,
  the same request answers 200 with the same sale, its facts and lines unchanged, and writes nothing.
  Moreover any capture of the tenant under the same source and external id, whatever its payload,
  writes nothing, and answers with that sale or with an error; with an error, when it comes from
  another store.\<close>

theorem redelivery_replays:
  assumes "captureSale_route env req b ids now s = (Response_ok 201 body, s')" and "sales_ok s"
  shows "\<exists>t u st body'. write_context req = Inr (t, u, st) \<and>
    captureSale_route env req b ids' now' (sales_run env ops s') = (Response_ok 200 body', sales_run env ops s') \<and>
    body' = body\<lparr>sbProcessed := sbProcessed body', sbStatus := sbStatus body'\<rparr> \<and>
    (\<forall>req2 b2 ids2 now2 u2 st2. write_context req2 = Inr (t, u2, st2) \<and> cqSource b2 = cqSource b \<and> cqExternal b2 = cqExternal b \<longrightarrow>
      (\<exists>r. captureSale_route env req2 b2 ids2 now2 (sales_run env ops s') = (r, sales_run env ops s') \<and>
        (\<forall>n body2. r = Response_ok n body2 \<longrightarrow> n = 200 \<and> body2 = body' \<and> st2 = st)))"
proof -
  from assms(1) obtain t u st i f where b: "CaptureSaleRequestSchema b" and req: "write_context req = Inr (t, u, st)"
    and run: "succeeds (captureSale_work env \<lparr>ciTenant = t, ciStore = st, ciUser = u, ciBody = b\<rparr> ids now (tenant_ctx t)) s (i, f) s'"
    and n: "201 = (if f then 201 else 200 :: nat)" and body: "readSaleProjection env t st i s' = Inr body"
    by (rule capture_route_ok)
  let ?inp = "\<lparr>ciTenant = t, ciStore = st, ciUser = u, ciBody = b\<rparr>" and ?s = "sales_run env ops s'"
  from n have f: "f = True" by (simp split: if_splits)
  from run [unfolded f captureSale_fresh] obtain m d tot rs where i: "i = ids 0"
    and checked: "capture_checked env ?inp (tenant_ctx t) s m d tot"
    and new: "sale_new (tenant_ctx t) (captured_row env ?inp ids now m d tot) s"
    and s': "s' = s\<lparr>saleRows := saleRows s @ [captured_row env ?inp ids now m d tot], soldLines := soldLines s @ rs,
              saleEvents := saleEvents s @ [captured_event ?inp (ids 0) ids now]\<rparr>" by auto
  let ?x = "captured_row env ?inp ids now m d tot"
  have ok': "sales_ok s'" using step_sales_ok [OF assms(2), of env "Post_capture req b ids now"] assms(1) by simp
  have ok: "sales_ok ?s" by (rule run_sales_ok [OF ok'])
  have x: "?x \<in> set (saleRows s')" by (simp add: s')
  obtain y body' where y: "y \<in> set (saleRows ?s)" "sale_scope y = sale_scope ?x" "sale_key y = sale_key ?x"
    and later: "readSaleProjection env (saTenant ?x) (saStore ?x) (saId ?x) ?s = Inr body'"
      "\<forall>body. readSaleProjection env (saTenant ?x) (saStore ?x) (saId ?x) s' = Inr body \<longrightarrow>
         body' = body\<lparr>sbProcessed := sbProcessed body', sbStatus := sbStatus body'\<rparr>"
    by (rule later_projection [OF ok' x, where env = env and ops = ops])
  have facts: "saId y = ids 0" "saStore y = st" "sale_key y = (t, cqSource b, cqExternal b)"
    using y by (simp_all add: sale_scope_def capture_key_def)
  have zones: "storeZones ?s = storeZones s" using run_extends [OF ok', of env ops] by (simp add: sales_extends_def s')
  have "succeeds (captureSale_work env ?inp ids' now' (tenant_ctx t)) ?s (ids 0, False) ?s"
    using capture_replayable [of env ?inp s m d tot ?s y] checked new ok y zones facts(1) by (simp add: sale_new_def)
  from capture_route_succeeds [OF b req this] later(1)
  have again: "captureSale_route env req b ids' now' ?s = (Response_ok 200 body', ?s)" by simp
  have other: "\<exists>r. captureSale_route env req2 b2 ids2 now2 ?s = (r, ?s) \<and> (\<forall>n body2. r = Response_ok n body2 \<longrightarrow> n = 200 \<and> body2 = body' \<and> st2 = st)"
    if req2: "write_context req2 = Inr (t, u2, st2)" and same: "cqSource b2 = cqSource b" "cqExternal b2 = cqExternal b" for req2 b2 ids2 now2 u2 st2
  proof -
    have key: "sale_key y = (t, cqSource b2, cqExternal b2)" using same facts(3) by simp
    obtain r where "captureSale_route env req2 b2 ids2 now2 ?s = (r, ?s)"
      "\<forall>n body2. r = Response_ok n body2 \<longrightarrow> n = 200 \<and> st2 = saStore y \<and> readSaleProjection env t st2 (saId y) ?s = Inr body2"
      by (rule capture_taken [OF ok y(1) key req2, where env = env and ids = ids2 and now = now2])
    with facts later(1) show ?thesis by (intro exI [of _ r]) auto
  qed
  have kept: "body' = body\<lparr>sbProcessed := sbProcessed body', sbStatus := sbStatus body'\<rparr>" using later(2) body i by simp
  show ?thesis
    by (rule exI [of _ t], rule exI [of _ u], rule exI [of _ st], rule exI [of _ body']) (use req again kept other in blast)
qed

lemma redelivery_replays_witness:
  "\<exists>body'. captureSale_route shop_env shop_context shop_body shop_ids 2000 shop_sold = (Response_ok 200 body', shop_sold)"
  using redelivery_replays [OF shop_route, of shop_ids 2000 "[]"] shop_books by (auto simp: books_ok_def)

section \<open>The books\<close>

text \<open>C19: The books of the sales stay right under any sequence of captures, voids, refunds, processing
  and quarantine jobs and repairs, whatever their outcomes: keys are unique, every child row belongs to
  a sale of its own tenant and store, each flag says whether the lines differ from the total, processed
  means synced, a sale needing repair has an open dead letter that says so, each sale has its one
  captured event and each processed sale, void and refund its one posting request. A sale keeps its
  facts and its lines, a processed one does not change again, and its status moves along the transition
  table or from needing repair to synced.\<close>

theorem sales_books_kept:
  assumes "books_ok s"
  shows "books_ok (sales_run env ops s) \<and>
    (\<forall>x \<in> set (saleRows s). \<exists>y \<in> set (saleRows (sales_run env ops s)).
       (\<exists>p q. y = x\<lparr>saProcessed := p, saStatus := q\<rparr>) \<and> (saProcessed x \<noteq> None \<longrightarrow> y = x) \<and>
       (\<lambda>a b. isAllowedSaleSyncTransition a b \<or> a = Failed_needs_repair \<and> b = Synced)\<^sup>*\<^sup>* (saStatus x) (saStatus y) \<and>
       own_lines (saId x) (sales_run env ops s) = own_lines (saId x) s) \<and>
    prefix (saleVoids s) (saleVoids (sales_run env ops s)) \<and> prefix (saleRefunds s) (saleRefunds (sales_run env ops s))"
proof -
  have ok: "sales_ok s" using assms by (simp add: books_ok_def)
  have "\<exists>y \<in> set (saleRows (sales_run env ops s)). (\<exists>p q. y = x\<lparr>saProcessed := p, saStatus := q\<rparr>) \<and> (saProcessed x \<noteq> None \<longrightarrow> y = x) \<and>
       sync_move\<^sup>*\<^sup>* (saStatus x) (saStatus y) \<and> own_lines (saId x) (sales_run env ops s) = own_lines (saId x) s"
    if x: "x \<in> set (saleRows s)" for x
  proof -
    obtain y where y: "y \<in> set (saleRows (sales_run env ops s))" "sale_writes\<^sup>*\<^sup>* x y"
      "own_lines (saId x) (sales_run env ops s) = own_lines (saId x) s" by (rule run_sale [OF ok x])
    from y(2) obtain p q where "y = x\<lparr>saProcessed := p, saStatus := q\<rparr>" "saProcessed x \<noteq> None \<longrightarrow> y = x" by (rule sale_later)
    with y sync_life.history_moves [OF y(2)] show ?thesis by (intro bexI [of _ y]) blast+
  qed
  with run_books_ok [OF assms] run_extends [OF ok] show ?thesis
    by (simp add: sales_extends_def sync_move_def [abs_def])
qed

lemma sales_books_kept_witness: "books_ok (sales_run shop_env [Post_capture shop_context shop_body shop_ids 1000] shop_db)"
  using sales_books_kept [OF shop_books] by blast

section \<open>Processing\<close>









section \<open>Dead letters\<close>

lemma quarantine_state: "succeeds (quarantine_work inp i t st corr new now c) s r s' \<Longrightarrow> list_ex (open_deadletter i) (deadletters s) \<Longrightarrow> s' = s \<and> \<not> qrQuarantined r"
  using quarantine_work_succeeds [of inp i t st corr new now c s r s'] by (auto simp: deadletter_new_def deadletter_row_def split: if_splits)

lemma stuck_has_open_row: "stuck d s \<Longrightarrow> list_ex (open_deadletter (dlSale d)) (deadletters s)"
  by (auto simp: stuck_def list_ex_iff open_deadletter_def)

lemma stuck_quarantine:
  assumes "stuck d s" and "parse_uuid (qiSale inp) = Some (dlSale d)" and "quarantine inp new now s = (r, s')"
  shows "s' = s \<and> (\<forall>b. r = Inr b \<longrightarrow> \<not> qrQuarantined b)"
proof (cases "quarantine_ids inp")
  case None
  with assms(3) show ?thesis by (auto simp: quarantine_def)
next
  case (Some k)
  then obtain t st corr where k: "k = (dlSale d, t, st, corr)" using assms(2)
    by (auto simp: quarantine_ids_def split: option.splits if_splits)
  have run: "runWithTenantContext (tenant_ctx t) (\<lambda>c. as_work (quarantine_work inp (dlSale d) t st corr new now c)) s = (r, s')"
    using assms(3) Some k by (simp add: quarantine_def)
  show ?thesis
  proof (cases r)
    case (Inl e)
    with run runWithTenantContext_throws show ?thesis by fastforce
  next
    case (Inr b)
    with honest_run [where m = "quarantine_work inp (dlSale d) t st corr new now", OF honest_quarantine] run
    have "succeeds (quarantine_work inp (dlSale d) t st corr new now (tenant_ctx t)) s b s'" by blast
    with quarantine_state stuck_has_open_row [OF assms(1)] Inr show ?thesis by blast
  qed
qed

lemma stuck_repair:
  assumes "sales_ok s" and "stuck d s" and "parse_uuid ref = Some (dlSale d)"
  shows "snd (repair_route req ref now s) = s \<and>
    (ops_requireTenant req = Inr (dlTenant d) \<longrightarrow> fst (repair_route req ref now s) = Response_error 409 ''repair_conflict'')"
proof (cases "tenant_and_sale req ref")
  case (Inl e)
  with assms(3) show ?thesis
    by (auto simp: repair_route_def tenant_and_sale_def assertSaleRef_def split: sum.splits option.splits)
next
  case (Inr k)
  then obtain t where k: "k = (t, dlSale d)" and t: "ops_requireTenant req = Inr t"
    using assms(3) by (auto simp: tenant_and_sale_def assertSaleRef_def split: sum.splits)
  have refused: "repairSaleSync t (dlSale d) now s = (Inl (if readSaleStatusRow (tenant_ctx t) (dlSale d) s = None then sync_not_found else repair_conflict), s)"
  proof (cases "readSaleStatusRow (tenant_ctx t) (dlSale d) s")
    case None
    then show ?thesis
      by (simp add: repairSaleSync_def runWithTenantContext_def as_work_def repairSaleSync_work_def act_open_simps)
  next
    case (Some x)
    then have "x \<in> set (saleRows s)" "saId x = dlSale d" by (auto simp: readSaleStatusRow_def dest: find_SomeD)
    with stuck_not_repairable [OF assms(1,2)] have "saStatus x \<noteq> Failed_needs_repair" by blast
    with Some show ?thesis
      by (simp add: repairSaleSync_def runWithTenantContext_def as_work_def repairSaleSync_work_def act_open_simps)
  qed
  have "readSaleStatusRow (tenant_ctx t) (dlSale d) s \<noteq> None" if "t = dlTenant d"
  proof -
    have "(dlSale d, dlTenant d, dlStore d) \<in> scopes s"
      using assms(1,2) by (auto simp: sales_ok_def children_ok_def stuck_def)
    then obtain x where "x \<in> set (saleRows s)" "saId x = dlSale d" "saTenant x = dlTenant d"
      by (auto simp: scopes_def sale_scope_def)
    with that show ?thesis by (auto simp: readSaleStatusRow_def find_None_iff)
  qed
  with Inr k t refused show ?thesis by (auto simp: repair_route_def)
qed

text \<open>Some dead letters are stuck. An open dead letter of class retryable, or of a sale that is
  synced, is never resolved: whatever runs, it stays as it is, every quarantine of its sale is
  swallowed without a row or a change of status, every repair of its sale changes nothing and is
  answered 409 for its tenant, and the sale never comes to need repair. An open needs-repair row of
  a synced sale stays in the repair queue all the same.\<close>

lemma stuck_dead_letter:
  assumes "sales_ok s" and "d \<in> set (deadletters s)" and "dlResolved d = None"
    and "dlClass d = Retryable \<or> (\<exists>x \<in> set (saleRows s). saId x = dlSale d \<and> saStatus x = Synced)"
  shows "d \<in> set (deadletters (sales_run env ops s)) \<and>
    (\<forall>inp new now. parse_uuid (qiSale inp) = Some (dlSale d) \<longrightarrow>
       (\<exists>r. quarantine inp new now (sales_run env ops s) = (r, sales_run env ops s) \<and> (\<forall>b. r = Inr b \<longrightarrow> \<not> qrQuarantined b))) \<and>
    (\<forall>req ref now. parse_uuid ref = Some (dlSale d) \<longrightarrow>
       snd (repair_route req ref now (sales_run env ops s)) = sales_run env ops s \<and>
       (ops_requireTenant req = Inr (dlTenant d) \<longrightarrow>
          fst (repair_route req ref now (sales_run env ops s)) = Response_error 409 ''repair_conflict'')) \<and>
    (\<forall>x \<in> set (saleRows (sales_run env ops s)). saId x = dlSale d \<longrightarrow> saStatus x \<noteq> Failed_needs_repair \<and>
       (dlClass d = Needs_repair \<longrightarrow> (d, x) \<in> set (repair_rows (tenant_ctx (dlTenant d)) None (sales_run env ops s))))"
proof -
  let ?s = "sales_run env ops s"
  have stuck: "stuck d ?s" using run_stuck [OF assms(1)] assms(2-4) by (simp add: stuck_def)
  have ok: "sales_ok ?s" by (rule run_sales_ok [OF assms(1)])
  have d: "d \<in> set (deadletters ?s)" using stuck by (simp add: stuck_def)
  have quarantine: "\<exists>r. quarantine inp new now ?s = (r, ?s) \<and> (\<forall>b. r = Inr b \<longrightarrow> \<not> qrQuarantined b)"
    if "parse_uuid (qiSale inp) = Some (dlSale d)" for inp new now
    using stuck_quarantine [OF stuck that] by (cases "quarantine inp new now ?s") auto
  have listed: "(d, x) \<in> set (repair_rows (tenant_ctx (dlTenant d)) None ?s)"
    if x: "x \<in> set (saleRows ?s)" "saId x = dlSale d" and k: "dlClass d = Needs_repair" for x
  proof -
    from ok d obtain y where y: "y \<in> set (saleRows ?s)" "saId y = dlSale d" "saTenant y = dlTenant d"
      by (auto simp: sales_ok_def children_ok_def scopes_def sale_scope_def)
    with sale_by_id [OF ok y(1) x(1)] x(2) have "saTenant x = dlTenant d" by simp
    with x k d assms(3) show ?thesis by (auto simp: repair_rows_def)
  qed
  show ?thesis
    using d quarantine stuck_repair [OF ok stuck] stuck_not_repairable [OF ok stuck] listed by blast
qed

text \<open>A refused connector login, quarantined before the sale was processed.\<close>

definition shop_failure :: quarantine_input where
  "shop_failure = \<lparr>qiSale = uuid_text 50, qiTenant = uuid_text 1, qiStore = uuid_text 2, qiCondition = Transient,
     qiSource = ''pos'', qiExternal = ''r-1'', qiCorrelation = None\<rparr>"

definition shop_dead :: deadletter where
  "shop_dead = deadletter_row shop_failure 50 1 2 None 70 1500"

definition shop_failed :: sales_db where
  "shop_failed = shop_sold\<lparr>deadletters := [shop_dead], saleRows := [shop_sale\<lparr>saStatus := Failed_retryable\<rparr>]\<rparr>"

lemma shop_dead_sel: "dlSale shop_dead = 50" "dlStore shop_dead = 2" "dlResolved shop_dead = None" "dlClass shop_dead = Retryable"
  by (simp_all add: shop_dead_def deadletter_row_def shop_failure_def classifySyncFailure_def classificationForFailureStatus_def)

lemma shop_failed_ok: "sales_ok shop_failed"
proof -
  have "deadletter_new (tenant_ctx 1) shop_dead shop_sold"
    by (simp add: deadletter_new_def shop_dead_def deadletter_row_def shop_failure_def classified_reason store_exists_def shop_sold_def shop_db_def)
  from mv_quarantine [OF this shop_dead_sel(3)] have "sales_move 1 shop_sold shop_failed"
    by (simp add: shop_dead_sel shop_failed_def class_status_def, simp add: shop_sold_def shop_db_def)
  with shop_sold_books show ?thesis using move_sales_ok by (auto simp: books_ok_def)
qed

lemma stuck_dead_letter_witness:
  "shop_dead \<in> set (deadletters (sales_run shop_env [Quarantine_sale (shop_failure\<lparr>qiCondition := Validation_failure\<rparr>) 71 1600] shop_failed))"
  by (rule stuck_dead_letter [THEN conjunct1, OF shop_failed_ok]) (simp_all add: shop_dead_sel, simp add: shop_failed_def)

end
