(* ===== verification/Catalog.thy ===== *)
theory Catalog
  imports Json Money Outbox Transaction Http
begin

text \<open>
  The catalog tables the reconciliation of unknown items works on: unknown items, product aliases
  and tenant products (packages/db/src/schema/catalog and migrations 0007 to 0011), and the statements
  on them. The setting \<open>app.current_store\<close> is the argument \<open>store\<close>: no store is the value \<open>'*'\<close> of
  a principal of the whole tenant.
\<close>

section \<open>Tables\<close>

datatype identifier_type = Barcode | Sku | Plu | Supplier_code | External_pos_id

datatype resolution_status = Item_pending | Item_resolved | Item_dismissed

datatype resolution_action = Act_linked | Act_created | Act_dismissed

text \<open>The life of an item only goes up: pending, then one of two final states.\<close>

instantiation resolution_status :: order
begin

definition less_eq_resolution_status :: "resolution_status \<Rightarrow> resolution_status \<Rightarrow> bool" where
  "less_eq_resolution_status a b \<longleftrightarrow> a = b \<or> a = Item_pending"

definition less_resolution_status :: "resolution_status \<Rightarrow> resolution_status \<Rightarrow> bool" where
  "less_resolution_status a b \<longleftrightarrow> a = Item_pending \<and> b \<noteq> Item_pending"

instance
  by standard (auto simp: less_eq_resolution_status_def less_resolution_status_def)

end

record unknown_item =
  uiId :: uuid
  uiTenant :: uuid
  uiStore :: uuid
  uiType :: identifier_type
  uiValue :: string
  uiSource :: "string option"
  uiEncountered :: timestamptz
  uiContext :: "json option"
  uiStatus :: resolution_status
  uiResolvedAt :: "timestamptz option"
  uiResolvedBy :: "uuid option"
  uiAction :: "resolution_action option"
  uiProduct :: "uuid option"
  uiCorrelation :: uuid

record product_alias =
  paId :: uuid
  paTenant :: uuid
  paProduct :: uuid
  paType :: identifier_type
  paValue :: string
  paSource :: "string option"
  paStore :: "uuid option"
  paRetired :: "timestamptz option"
  paCreated :: timestamptz
  paCreatedBy :: uuid

record tenant_product =
  tpId :: uuid
  tpTenant :: uuid
  tpName :: string
  tpCategory :: "uuid option"
  tpTax :: string
  tpRetired :: "timestamptz option"
  tpCreatedBy :: uuid

record catalog_db =
  unknownItems :: "unknown_item list"
  productAliases :: "product_alias list"
  tenantProducts :: "tenant_product list"
  productCategories :: "uuid list"
  catalogStores :: "uuid list"

section \<open>Constraints\<close>

definition length_between :: "nat \<Rightarrow> nat \<Rightarrow> string \<Rightarrow> bool" where
  "length_between a b s \<longleftrightarrow> a \<le> length s \<and> length s \<le> b"

text \<open>A source system exactly for an identifier of an external POS.\<close>

definition source_required :: "identifier_type \<Rightarrow> string option \<Rightarrow> bool" where
  "source_required ty src \<longleftrightarrow> (ty = External_pos_id \<longleftrightarrow> src \<noteq> None)"

definition item_checks :: "unknown_item \<Rightarrow> bool" where
  "item_checks x \<longleftrightarrow> length_between 1 200 (uiValue x) \<and> source_required (uiType x) (uiSource x) \<and>
     (if uiStatus x = Item_pending then uiResolvedAt x = None \<and> uiResolvedBy x = None \<and> uiAction x = None
      else uiResolvedAt x \<noteq> None \<and> uiResolvedBy x \<noteq> None \<and> uiAction x \<noteq> None) \<and>
     (case uiAction x of None \<Rightarrow> True | Some Act_dismissed \<Rightarrow> uiProduct x = None | Some _ \<Rightarrow> uiProduct x \<noteq> None)"

definition alias_checks :: "product_alias \<Rightarrow> bool" where
  "alias_checks a \<longleftrightarrow> length_between 1 200 (paValue a) \<and> source_required (paType a) (paSource a) \<and>
     (paStore a = None \<or> paType a \<noteq> External_pos_id)"

text \<open>The three partial unique indexes: two active aliases that one of them does not admit.\<close>

definition alias_clash :: "product_alias \<Rightarrow> product_alias \<Rightarrow> bool" where
  "alias_clash a b \<longleftrightarrow> paRetired a = None \<and> paRetired b = None \<and> paTenant a = paTenant b \<and> paValue a = paValue b \<and>
     (paStore a = None \<and> paStore b = None \<and> paType a \<noteq> External_pos_id \<and> paType a = paType b \<or>
      paType a = External_pos_id \<and> paType b = External_pos_id \<and> paSource a = paSource b \<or>
      paStore a \<noteq> None \<and> paStore a = paStore b \<and> paType a = paType b)"

definition product_checks :: "tenant_product \<Rightarrow> bool" where
  "product_checks p \<longleftrightarrow> length_between 1 500 (tpName p) \<and> length_between 1 50 (tpTax p)"

section \<open>Statements\<close>

text \<open>\<open>unknown_items_select\<close>: the tenant, and the store unless the setting is \<open>'*'\<close>.\<close>

definition item_visible :: "tenant_context \<Rightarrow> uuid option \<Rightarrow> unknown_item \<Rightarrow> bool" where
  "item_visible c store x \<longleftrightarrow> rls_tenant c (uiTenant x) \<and> (case store of None \<Rightarrow> True | Some st \<Rightarrow> uiStore x = st)"

definition find_item :: "tenant_context \<Rightarrow> uuid option \<Rightarrow> uuid \<Rightarrow> catalog_db \<Rightarrow> unknown_item option" where
  "find_item c store i s = find (\<lambda>x. item_visible c store x \<and> uiId x = i) (unknownItems s)"

text \<open>\<open>INSERT ... RETURNING\<close>: both policies, the constraints, the key and the store.\<close>

definition insert_item :: "tenant_context \<Rightarrow> uuid option \<Rightarrow> unknown_item \<Rightarrow> catalog_db \<Rightarrow> exn + (unknown_item \<times> catalog_db)" where
  "insert_item c store x s =
     (case sql_check (item_visible c store x) (Pg_error ''42501'')
          (sql_check (item_checks x) check_violation
          (sql_check (uiId x \<notin> uiId ` set (unknownItems s)) unique_violation
          (sql_check (uiStore x \<in> set (catalogStores s)) fk_violation None))) of
        Some e \<Rightarrow> Inl e
      | None \<Rightarrow> Inr (x, s\<lparr>unknownItems := unknownItems s @ [x]\<rparr>))"

text \<open>\<open>UPDATE ... WHERE id AND resolution_status = 'pending' RETURNING\<close>.\<close>

definition pending_item :: "tenant_context \<Rightarrow> uuid option \<Rightarrow> uuid \<Rightarrow> unknown_item \<Rightarrow> bool" where
  "pending_item c store i x \<longleftrightarrow> item_visible c store x \<and> uiId x = i \<and> uiStatus x = Item_pending"

definition close_item :: "resolution_action \<Rightarrow> uuid option \<Rightarrow> uuid \<Rightarrow> timestamptz \<Rightarrow> unknown_item \<Rightarrow> unknown_item" where
  "close_item act product actor now x =
     x\<lparr>uiStatus := (if act = Act_dismissed then Item_dismissed else Item_resolved), uiAction := Some act,
       uiResolvedAt := Some now, uiResolvedBy := Some actor, uiProduct := product\<rparr>"

definition update_pending ::
    "tenant_context \<Rightarrow> uuid option \<Rightarrow> uuid \<Rightarrow> (unknown_item \<Rightarrow> unknown_item) \<Rightarrow> catalog_db \<Rightarrow>
     exn + (unknown_item option \<times> catalog_db)" where
  "update_pending c store i f s =
     Inr (map_option f (find (pending_item c store i) (unknownItems s)),
          s\<lparr>unknownItems := update_where (pending_item c store i) f (unknownItems s)\<rparr>)"

definition insert_alias :: "tenant_context \<Rightarrow> product_alias \<Rightarrow> catalog_db \<Rightarrow> exn + (unit \<times> catalog_db)" where
  "insert_alias c a s =
     (case sql_check (rls_tenant c (paTenant a)) (Pg_error ''42501'')
          (sql_check (alias_checks a) check_violation
          (sql_check (paId a \<notin> paId ` set (productAliases s) \<and> \<not> list_ex (alias_clash a) (productAliases s)) unique_violation
          (sql_check (paProduct a \<in> tpId ` set (tenantProducts s)) fk_violation
          (sql_check (case paStore a of None \<Rightarrow> True | Some st \<Rightarrow> st \<in> set (catalogStores s)) fk_violation None)))) of
        Some e \<Rightarrow> Inl e
      | None \<Rightarrow> Inr ((), s\<lparr>productAliases := productAliases s @ [a]\<rparr>))"

definition insert_product :: "tenant_context \<Rightarrow> tenant_product \<Rightarrow> catalog_db \<Rightarrow> exn + (unit \<times> catalog_db)" where
  "insert_product c p s =
     (case sql_check (rls_tenant c (tpTenant p)) (Pg_error ''42501'')
          (sql_check (product_checks p) check_violation
          (sql_check (tpId p \<notin> tpId ` set (tenantProducts s)) unique_violation
          (sql_check (case tpCategory p of None \<Rightarrow> True | Some k \<Rightarrow> k \<in> set (productCategories s)) fk_violation None))) of
        Some e \<Rightarrow> Inl e
      | None \<Rightarrow> Inr ((), s\<lparr>tenantProducts := tenantProducts s @ [p]\<rparr>))"

section \<open>Side effects\<close>

text \<open>
  What an operation does outside the database: the counters it bumps and the audit jobs it enqueues
  itself, in order. An enqueue that fails is logged and otherwise ignored.
\<close>

record audit_job =
  ajActor :: uuid
  ajTenant :: uuid
  ajStore :: "uuid option"
  ajAction :: string
  ajTarget :: "uuid option"
  ajRequest :: "uuid option"
  ajMetadata :: "(string \<times> string) list"

datatype catalog_effect =
    Count_captured
  | Count_resolved resolution_action
  | Count_alias_conflict
  | Enqueue_audit audit_job

end
