(* ===== verification/UnknownItems.thy ===== *)
theory UnknownItems
  imports Catalog
begin

text \<open>
  The operations of \<open>UnknownItemsService\<close> (apps/api/src/catalog/unknown-items): the capture of an item
  reference a point of sale does not know, the review queue, and the dismissal of one item or of a
  selection, with the routes of their controller. Guards, the idempotency of the routes and the audit
  jobs of the route decorators are outside; the audit jobs the service enqueues itself are effects.
  The ids and the timestamps of a request arrive parsed.
\<close>

section \<open>Capture\<close>

record capture_item_input =
  kiTenant :: uuid
  kiStore :: uuid
  kiActor :: uuid
  kiCorrelation :: uuid
  kiType :: identifier_type
  kiValue :: string
  kiSource :: "string option"
  kiContext :: "json option"

text \<open>
  The active aliases of the identifier, tenant-wide or of the submitting store; the store's own come
  first, then the newest.
\<close>

definition alias_matches :: "tenant_context \<Rightarrow> capture_item_input \<Rightarrow> product_alias \<Rightarrow> bool" where
  "alias_matches c inp a \<longleftrightarrow>
     rls_tenant c (paTenant a) \<and> paTenant a = kiTenant inp \<and> paType a = kiType inp \<and> paValue a = kiValue inp \<and>
     paRetired a = None \<and> (paStore a = None \<or> paStore a = Some (kiStore inp))"

definition alias_hit :: "tenant_context \<Rightarrow> capture_item_input \<Rightarrow> catalog_db \<Rightarrow> product_alias option" where
  "alias_hit c inp s =
     (case sort_key (\<lambda>a. paStore a = None) (order_desc paCreated (filter (alias_matches c inp) (productAliases s))) of
        [] \<Rightarrow> None | a # _ \<Rightarrow> Some a)"

definition same_identifier :: "unknown_item \<Rightarrow> uuid \<Rightarrow> uuid \<Rightarrow> identifier_type \<Rightarrow> string \<Rightarrow> string option \<Rightarrow> bool" where
  "same_identifier x t st ty v src \<longleftrightarrow>
     uiTenant x = t \<and> uiStore x = st \<and> uiType x = ty \<and> uiValue x = v \<and> uiSource x = src"

text \<open>\<open>... AND resolution_status = 'pending' ORDER BY encountered_at ASC LIMIT 1\<close>\<close>

definition pending_sibling ::
    "tenant_context \<Rightarrow> uuid option \<Rightarrow> uuid \<Rightarrow> uuid \<Rightarrow> identifier_type \<Rightarrow> string \<Rightarrow> string option \<Rightarrow> catalog_db \<Rightarrow>
     unknown_item option" where
  "pending_sibling c store t st ty v src s =
     (case sort_key uiEncountered (filter (\<lambda>x. item_visible c store x \<and> same_identifier x t st ty v src \<and>
        uiStatus x = Item_pending) (unknownItems s)) of
        [] \<Rightarrow> None | x # _ \<Rightarrow> Some x)"

definition fresh_item ::
    "uuid \<Rightarrow> uuid \<Rightarrow> uuid \<Rightarrow> identifier_type \<Rightarrow> string \<Rightarrow> string option \<Rightarrow> json option \<Rightarrow> uuid \<Rightarrow> timestamptz \<Rightarrow> unknown_item" where
  "fresh_item i t st ty v src ctx corr now =
     \<lparr>uiId = i, uiTenant = t, uiStore = st, uiType = ty, uiValue = v, uiSource = src, uiEncountered = now, uiContext = ctx,
      uiStatus = Item_pending, uiResolvedAt = None, uiResolvedBy = None, uiAction = None, uiProduct = None,
      uiCorrelation = corr\<rparr>"

definition captured_item :: "capture_item_input \<Rightarrow> uuid \<Rightarrow> timestamptz \<Rightarrow> unknown_item" where
  "captured_item inp i now =
     fresh_item i (kiTenant inp) (kiStore inp) (kiType inp) (kiValue inp) (kiSource inp) (kiContext inp) (kiCorrelation inp) now"

text \<open>What the two reads of a capture find: an alias, a pending item, or nothing.\<close>

datatype capture_finding = Found_alias product_alias | Found_pending unknown_item | Found_nothing

definition capture_lookup :: "tenant_context \<Rightarrow> capture_item_input \<Rightarrow> catalog_db \<Rightarrow> capture_finding" where
  "capture_lookup c inp s =
     (case alias_hit c inp s of
        Some a \<Rightarrow> Found_alias a
      | None \<Rightarrow>
          (case pending_sibling c (Some (kiStore inp)) (kiTenant inp) (kiStore inp) (kiType inp) (kiValue inp) (kiSource inp) s of
             Some x \<Rightarrow> Found_pending x
           | None \<Rightarrow> Found_nothing))"

datatype capture_result = Captured_resolved uuid uuid | Captured_unknown unknown_item bool

text \<open>What follows the reads; the flag says whether a row was inserted.\<close>

definition capture_outcome ::
    "capture_item_input \<Rightarrow> uuid \<Rightarrow> timestamptz \<Rightarrow> tenant_context \<Rightarrow> capture_finding \<Rightarrow> (capture_result, catalog_db) action" where
  "capture_outcome inp i now c found =
     (case found of
        Found_alias a \<Rightarrow> act_return (Captured_resolved (paProduct a) (paId a))
      | Found_pending x \<Rightarrow> act_return (Captured_unknown x False)
      | Found_nothing \<Rightarrow>
          act_bind (act_query (insert_item c (Some (kiStore inp)) (captured_item inp i now)))
            (\<lambda>x. act_return (Captured_unknown x True)))"

definition captureItem_work ::
    "capture_item_input \<Rightarrow> uuid \<Rightarrow> timestamptz \<Rightarrow> tenant_context \<Rightarrow> (capture_result, catalog_db) action" where
  "captureItem_work inp i now c = act_bind (act_select (capture_lookup c inp)) (capture_outcome inp i now c)"

definition capture_effects :: "capture_result \<Rightarrow> catalog_effect list" where
  "capture_effects r = (case r of Captured_unknown x True \<Rightarrow> [Count_captured] | _ \<Rightarrow> [])"

definition captureItem ::
    "capture_item_input \<Rightarrow> uuid \<Rightarrow> timestamptz \<Rightarrow> catalog_db \<Rightarrow> (exn + capture_result) \<times> catalog_effect list \<times> catalog_db" where
  "captureItem inp i now s =
     (case runWithTenantContext (tenant_ctx (kiTenant inp)) (\<lambda>c. as_work (captureItem_work inp i now c)) s of
        (Inl e, s') \<Rightarrow> (Inl e, [], s')
      | (Inr r, s') \<Rightarrow> (Inr r, capture_effects r, s'))"

section \<open>The review queue\<close>

definition not_found_404 :: thrown where
  "not_found_404 = Http_exception 404 None"

definition findByIdForTenant :: "uuid \<Rightarrow> uuid option \<Rightarrow> uuid \<Rightarrow> catalog_db \<Rightarrow> thrown + unknown_item" where
  "findByIdForTenant t store i s =
     (case find_item (tenant_ctx t) store i s of None \<Rightarrow> Inl not_found_404 | Some x \<Rightarrow> Inr x)"

datatype list_sort = Age_asc | Age_desc | By_store

datatype list_group = Group_store | Group_source

record list_items_input =
  liStatus :: resolution_status
  liStoreFilter :: "uuid option"
  liSource :: "string option"
  liSort :: list_sort
  liGroup :: "list_group option"
  liLimit :: nat

text \<open>
  \<open>ORDER BY <group>, <sort>, id DESC\<close>: stable sorts from the last key to the first. Texts sort by the
  collation, given as a rank.
\<close>

definition list_order :: "(string \<Rightarrow> nat) \<Rightarrow> list_items_input \<Rightarrow> unknown_item list \<Rightarrow> unknown_item list" where
  "list_order rank inp xs =
     (let by_id = order_desc uiId xs;
          sorted = (case liSort inp of
              Age_asc \<Rightarrow> sort_key uiEncountered by_id
            | Age_desc \<Rightarrow> sort_key (\<lambda>x. - uiEncountered x) by_id
            | By_store \<Rightarrow> sort_key uiStore by_id)
      in (case liGroup inp of
            None \<Rightarrow> sorted
          | Some Group_store \<Rightarrow> sort_key uiStore sorted
          | Some Group_source \<Rightarrow> sort_key (\<lambda>x. (uiSource x = None, case uiSource x of None \<Rightarrow> 0 | Some v \<Rightarrow> rank v)) sorted))"

definition list_matches :: "tenant_context \<Rightarrow> uuid option \<Rightarrow> list_items_input \<Rightarrow> unknown_item \<Rightarrow> bool" where
  "list_matches c store inp x \<longleftrightarrow>
     item_visible c store x \<and> uiStatus x = liStatus inp \<and>
     (case liStoreFilter inp of None \<Rightarrow> True | Some st \<Rightarrow> uiStore x = st) \<and>
     (case liSource inp of None \<Rightarrow> True | Some v \<Rightarrow> uiSource x = Some v)"

definition listForTenant :: "(string \<Rightarrow> nat) \<Rightarrow> uuid \<Rightarrow> uuid option \<Rightarrow> list_items_input \<Rightarrow> catalog_db \<Rightarrow> unknown_item list" where
  "listForTenant rank t store inp s =
     take (liLimit inp) (list_order rank inp (filter (list_matches (tenant_ctx t) store inp) (unknownItems s)))"

section \<open>Dismissal\<close>

datatype dismiss_result = Dismiss_ok unknown_item | Dismiss_already | Dismiss_not_found

definition dismiss_work ::
    "uuid option \<Rightarrow> uuid \<Rightarrow> uuid \<Rightarrow> timestamptz \<Rightarrow> tenant_context \<Rightarrow> (dismiss_result, catalog_db) action" where
  "dismiss_work store i actor now c =
     act_bind (act_query (update_pending c store i (close_item Act_dismissed None actor now))) (\<lambda>updated.
       case updated of
         Some x \<Rightarrow> act_return (Dismiss_ok x)
       | None \<Rightarrow>
           act_bind (act_select (find_item c store i)) (\<lambda>existing.
             act_return (if existing = None then Dismiss_not_found else Dismiss_already)))"

definition already_reconciled_409 :: thrown where
  "already_reconciled_409 = Http_exception 409 (Some ''already_reconciled'')"

definition dismissUnknownItem ::
    "uuid \<Rightarrow> uuid option \<Rightarrow> uuid \<Rightarrow> uuid \<Rightarrow> timestamptz \<Rightarrow> catalog_db \<Rightarrow>
     (thrown + unknown_item) \<times> catalog_effect list \<times> catalog_db" where
  "dismissUnknownItem t store i actor now s =
     (case runWithTenantContext (tenant_ctx t) (\<lambda>c. as_work (dismiss_work store i actor now c)) s of
        (Inl e, s') \<Rightarrow> (Inl (Unhandled e), [], s')
      | (Inr (Dismiss_ok x), s') \<Rightarrow> (Inr x, [Count_resolved Act_dismissed], s')
      | (Inr Dismiss_already, s') \<Rightarrow> (Inl already_reconciled_409, [], s')
      | (Inr Dismiss_not_found, s') \<Rightarrow> (Inl not_found_404, [], s'))"

datatype dismiss_outcome = Out_dismissed | Out_already "resolution_status option" | Out_not_found

definition bulk_audit :: "uuid \<Rightarrow> uuid option \<Rightarrow> uuid \<Rightarrow> uuid \<Rightarrow> uuid \<Rightarrow> catalog_effect" where
  "bulk_audit t store actor corr i = Enqueue_audit
     \<lparr>ajActor = actor, ajTenant = t, ajStore = store, ajAction = ''unknown_item.dismissed'', ajTarget = Some i,
      ajRequest = Some corr, ajMetadata = [(''via'', ''bulk_dismiss'')]\<rparr>"

text \<open>The error handling of an item: a conflict reports the state read back, anything unknown is thrown on.\<close>

definition bulk_outcome :: "uuid \<Rightarrow> uuid option \<Rightarrow> uuid \<Rightarrow> catalog_db \<Rightarrow> thrown + unknown_item \<Rightarrow> thrown + dismiss_outcome" where
  "bulk_outcome t store i s r =
     (case r of
        Inr x \<Rightarrow> Inr Out_dismissed
      | Inl (Http_exception status code) \<Rightarrow>
          if status = 409
          then Inr (Out_already (case findByIdForTenant t store i s of Inl _ \<Rightarrow> None | Inr x \<Rightarrow> Some (uiStatus x)))
          else if status = 404 then Inr Out_not_found
          else Inl (Http_exception status code)
      | Inl e \<Rightarrow> Inl e)"

text \<open>One item after the other; an error that is neither a conflict nor a missing item ends the batch.\<close>

fun bulkDismissUnknownItems ::
    "uuid \<Rightarrow> uuid option \<Rightarrow> uuid \<Rightarrow> uuid \<Rightarrow> timestamptz \<Rightarrow> uuid list \<Rightarrow> catalog_db \<Rightarrow>
     (thrown + (uuid \<times> dismiss_outcome) list) \<times> catalog_effect list \<times> catalog_db" where
  "bulkDismissUnknownItems t store actor corr now [] s = (Inr [], [], s)"
| "bulkDismissUnknownItems t store actor corr now (i # is) s =
     (case dismissUnknownItem t store i actor now s of
        (r, effs, s') \<Rightarrow>
          (case bulk_outcome t store i s' r of
             Inl e \<Rightarrow> (Inl e, effs, s')
           | Inr out \<Rightarrow>
               (case bulkDismissUnknownItems t store actor corr now is s' of
                  (rest, effs', s'') \<Rightarrow>
                    (map_sum id (\<lambda>outs. (i, out) # outs) rest,
                     effs @ (if out = Out_dismissed then [bulk_audit t store actor corr i] else []) @ effs', s''))))"

section \<open>Routes\<close>

definition PosCaptureItemRequestSchema :: "capture_item_input \<Rightarrow> bool" where
  "PosCaptureItemRequestSchema b \<longleftrightarrow>
     length_between 1 200 (kiValue b) \<and> (case kiSource b of None \<Rightarrow> True | Some v \<Rightarrow> length_between 1 64 v) \<and>
     source_required (kiType b) (kiSource b)"

text \<open>The principal of a capture has a tenant, a store and a user; that of the console may have no store.\<close>

definition pos_context :: "request_context \<Rightarrow> thrown + (uuid \<times> uuid \<times> uuid)" where
  "pos_context req =
     (case req of
        None \<Rightarrow> Inl (Http_exception 401 None)
      | Some c \<Rightarrow>
          (case (rcTenant c, rcStore c, rcUser c) of
             (Some t, Some st, Some u) \<Rightarrow> Inr (t, st, u)
           | _ \<Rightarrow> Inl (Http_exception 401 None)))"

definition admin_context :: "request_context \<Rightarrow> thrown + (uuid \<times> uuid option \<times> uuid)" where
  "admin_context req =
     (case req of
        None \<Rightarrow> Inl (Http_exception 401 None)
      | Some c \<Rightarrow>
          (case (rcTenant c, rcUser c) of
             (Some t, Some u) \<Rightarrow> Inr (t, rcStore c, u)
           | _ \<Rightarrow> Inl (Http_exception 401 None)))"

definition reader_context :: "request_context \<Rightarrow> thrown + (uuid \<times> uuid option)" where
  "reader_context req =
     (case req of
        None \<Rightarrow> Inl (Http_exception 401 None)
      | Some c \<Rightarrow> (case rcTenant c of None \<Rightarrow> Inl (Http_exception 401 None) | Some t \<Rightarrow> Inr (t, rcStore c)))"

text \<open>The body carries the identifier; tenant, store and actor come from the context.\<close>

definition posCaptureItem ::
    "request_context \<Rightarrow> capture_item_input \<Rightarrow> uuid \<Rightarrow> timestamptz \<Rightarrow> catalog_db \<Rightarrow>
     capture_result response \<times> catalog_effect list \<times> catalog_db" where
  "posCaptureItem req b i now s =
     (if \<not> PosCaptureItemRequestSchema b then (respond 201 (Inl Zod_error), [], s)
      else case pos_context req of
        Inl e \<Rightarrow> (respond 201 (Inl e), [], s)
      | Inr (t, st, u) \<Rightarrow>
          (case captureItem (b\<lparr>kiTenant := t, kiStore := st, kiActor := u\<rparr>) i now s of
             (Inl e, effs, s') \<Rightarrow> (respond 201 (Inl (Unhandled e)), effs, s')
           | (Inr r, effs, s') \<Rightarrow>
               (respond (case r of Captured_resolved p a \<Rightarrow> 200 | Captured_unknown x f \<Rightarrow> 201) (Inr r), effs, s')))"

text \<open>\<open>ReviewQueueItem\<close>: no sale context, and no product for a principal of one store.\<close>

record review_item =
  rvId :: uuid
  rvTenant :: uuid
  rvStore :: uuid
  rvType :: identifier_type
  rvValue :: string
  rvSource :: "string option"
  rvStatus :: resolution_status
  rvAction :: "resolution_action option"
  rvResolvedAt :: "timestamptz option"
  rvResolvedBy :: "uuid option"
  rvProduct :: "uuid option option"
  rvEncountered :: timestamptz

definition toReviewQueueItem :: "unknown_item \<Rightarrow> bool \<Rightarrow> review_item" where
  "toReviewQueueItem x canSeeProduct =
     \<lparr>rvId = uiId x, rvTenant = uiTenant x, rvStore = uiStore x, rvType = uiType x, rvValue = uiValue x, rvSource = uiSource x,
      rvStatus = uiStatus x, rvAction = uiAction x, rvResolvedAt = uiResolvedAt x, rvResolvedBy = uiResolvedBy x,
      rvProduct = (if canSeeProduct then Some (uiProduct x) else None), rvEncountered = uiEncountered x\<rparr>"

definition ListUnknownItemsQuerySchema :: "list_items_input \<Rightarrow> bool" where
  "ListUnknownItemsQuerySchema q \<longleftrightarrow>
     1 \<le> liLimit q \<and> liLimit q \<le> 200 \<and> (case liSource q of None \<Rightarrow> True | Some v \<Rightarrow> length_between 1 64 v)"

definition tenantAdminListUnknownItems ::
    "(string \<Rightarrow> nat) \<Rightarrow> request_context \<Rightarrow> list_items_input \<Rightarrow> catalog_db \<Rightarrow> (review_item list) response" where
  "tenantAdminListUnknownItems rank req q s =
     respond 200
       (if \<not> ListUnknownItemsQuerySchema q then Inl Zod_error
        else case reader_context req of
          Inl e \<Rightarrow> Inl e
        | Inr (t, store) \<Rightarrow> Inr (map (\<lambda>x. toReviewQueueItem x (store = None)) (listForTenant rank t store q s)))"

definition tenantAdminInspectUnknownItem :: "request_context \<Rightarrow> uuid \<Rightarrow> catalog_db \<Rightarrow> review_item response" where
  "tenantAdminInspectUnknownItem req i s =
     respond 200
       (case reader_context req of
          Inl e \<Rightarrow> Inl e
        | Inr (t, store) \<Rightarrow> map_sum id (\<lambda>x. toReviewQueueItem x (store = None)) (findByIdForTenant t store i s))"

definition tenantAdminDismissUnknownItem ::
    "request_context \<Rightarrow> uuid \<Rightarrow> timestamptz \<Rightarrow> catalog_db \<Rightarrow> review_item response \<times> catalog_effect list \<times> catalog_db" where
  "tenantAdminDismissUnknownItem req i now s =
     (case admin_context req of
        Inl e \<Rightarrow> (respond 200 (Inl e), [], s)
      | Inr (t, store, u) \<Rightarrow>
          (case dismissUnknownItem t store i u now s of
             (r, effs, s') \<Rightarrow> (respond 200 (map_sum id (\<lambda>x. toReviewQueueItem x True) r), effs, s')))"

definition BulkDismissUnknownItemsRequestSchema :: "uuid list \<Rightarrow> bool" where
  "BulkDismissUnknownItemsRequestSchema ids \<longleftrightarrow> ids \<noteq> [] \<and> length ids \<le> 200 \<and> distinct ids"

definition tenantAdminBulkDismissUnknownItems ::
    "request_context \<Rightarrow> uuid list \<Rightarrow> uuid \<Rightarrow> timestamptz \<Rightarrow> catalog_db \<Rightarrow>
     (uuid \<times> dismiss_outcome) list response \<times> catalog_effect list \<times> catalog_db" where
  "tenantAdminBulkDismissUnknownItems req ids corr now s =
     (if \<not> BulkDismissUnknownItemsRequestSchema ids then (respond 200 (Inl Zod_error), [], s)
      else case admin_context req of
        Inl e \<Rightarrow> (respond 200 (Inl e), [], s)
      | Inr (t, store, u) \<Rightarrow>
          (case bulkDismissUnknownItems t store u corr now ids s of
             (r, effs, s') \<Rightarrow> (respond 200 r, effs, s')))"

end
