(* ===== verification/Reconciliation.thy ===== *)
theory Reconciliation
  imports UnknownItems
begin

text \<open>
  The operations of \<open>ReconciliationService\<close> (apps/api/src/catalog/reconciliation) with the routes of
  their controller: linking an unknown item to a product, creating a product from it, and reopening a
  dismissed one; and the machine of all operations that write the unknown items.
\<close>

section \<open>Audit jobs\<close>

definition conflict_rejection :: "string \<Rightarrow> uuid \<Rightarrow> uuid option \<Rightarrow> uuid \<Rightarrow> catalog_effect" where
  "conflict_rejection reason t store actor = Enqueue_audit
     \<lparr>ajActor = actor, ajTenant = t, ajStore = store, ajAction = ''unknown_item.reconciliation_conflict_rejected'',
      ajTarget = None, ajRequest = None, ajMetadata = [(''reason'', reason)]\<rparr>"

definition reopen_audit :: "string \<Rightarrow> uuid \<Rightarrow> uuid option \<Rightarrow> uuid \<Rightarrow> uuid \<Rightarrow> uuid \<Rightarrow> (string \<times> string) list \<Rightarrow> catalog_effect" where
  "reopen_audit action t store actor target corr metadata = Enqueue_audit
     \<lparr>ajActor = actor, ajTenant = t, ajStore = store, ajAction = action, ajTarget = Some target, ajRequest = Some corr,
      ajMetadata = metadata\<rparr>"

section \<open>Link\<close>

datatype link_result = Link_ok unknown_item | Link_not_found | Link_already | Link_alias_conflict | Link_target_unavailable

record link_input =
  lkTenant :: uuid
  lkStore :: "uuid option"
  lkItem :: uuid
  lkProduct :: uuid
  lkActor :: uuid

definition find_product :: "tenant_context \<Rightarrow> uuid \<Rightarrow> uuid \<Rightarrow> catalog_db \<Rightarrow> tenant_product option" where
  "find_product c i t s = find (\<lambda>p. rls_tenant c (tpTenant p) \<and> tpId p = i \<and> tpTenant p = t) (tenantProducts s)"

text \<open>The alias of an item: its identifier, bound to the item's store.\<close>

definition item_alias :: "uuid \<Rightarrow> uuid \<Rightarrow> uuid \<Rightarrow> uuid \<Rightarrow> timestamptz \<Rightarrow> unknown_item \<Rightarrow> product_alias" where
  "item_alias i t product actor now x =
     \<lparr>paId = i, paTenant = t, paProduct = product, paType = uiType x, paValue = uiValue x, paSource = uiSource x,
      paStore = Some (uiStore x), paRetired = None, paCreated = now, paCreatedBy = actor\<rparr>"

text \<open>A unique violation of the alias is caught; any other error is thrown on.\<close>

definition link_work :: "link_input \<Rightarrow> uuid \<Rightarrow> timestamptz \<Rightarrow> tenant_context \<Rightarrow> (link_result, catalog_db) action" where
  "link_work inp new now c =
     act_bind (act_select (find_item c (lkStore inp) (lkItem inp))) (\<lambda>existing. case existing of
         None \<Rightarrow> act_return Link_not_found
       | Some x \<Rightarrow>
           if uiStatus x \<noteq> Item_pending then act_return Link_already
           else act_bind (act_select (find_product c (lkProduct inp) (lkTenant inp))) (\<lambda>product. case product of
               None \<Rightarrow> act_return Link_not_found
             | Some p \<Rightarrow>
                 if tpRetired p \<noteq> None then act_return Link_target_unavailable
                 else act_bind
                   (act_catch
                     (act_then (act_query (insert_alias c (item_alias new (lkTenant inp) (lkProduct inp) (lkActor inp) now x)))
                       (act_return True))
                     (\<lambda>e. if e = unique_violation then act_return False else act_throw e)) (\<lambda>inserted.
                   if \<not> inserted then act_return Link_alias_conflict
                   else act_bind (act_query (update_pending c (lkStore inp) (lkItem inp)
                            (close_item Act_linked (Some (lkProduct inp)) (lkActor inp) now))) (\<lambda>updated. case updated of
                        None \<Rightarrow> act_throw (Js_error ''Error'')
                      | Some y \<Rightarrow> act_return (Link_ok y)))))"

definition link_effects :: "link_input \<Rightarrow> link_result \<Rightarrow> catalog_effect list" where
  "link_effects inp r =
     (let reject = (\<lambda>reason. conflict_rejection reason (lkTenant inp) (lkStore inp) (lkActor inp))
      in case r of
           Link_ok x \<Rightarrow> [Count_resolved Act_linked]
         | Link_alias_conflict \<Rightarrow> [Count_alias_conflict, reject ''alias_conflict'']
         | Link_target_unavailable \<Rightarrow> [reject ''target_unavailable'']
         | Link_already \<Rightarrow> [reject ''already_reconciled'']
         | Link_not_found \<Rightarrow> [])"

definition linkUnknownItem ::
    "link_input \<Rightarrow> uuid \<Rightarrow> timestamptz \<Rightarrow> catalog_db \<Rightarrow> (exn + link_result) \<times> catalog_effect list \<times> catalog_db" where
  "linkUnknownItem inp new now s =
     (case runWithTenantContext (tenant_ctx (lkTenant inp)) (\<lambda>c. as_work (link_work inp new now c)) s of
        (Inl e, s') \<Rightarrow> (Inl e, [], s')
      | (Inr r, s') \<Rightarrow> (Inr r, link_effects inp r, s'))"

section \<open>Create\<close>

datatype create_result = Create_ok unknown_item uuid | Create_not_found | Create_already | Create_alias_conflict

record create_input =
  cnTenant :: uuid
  cnStore :: "uuid option"
  cnItem :: uuid
  cnActor :: uuid
  cnName :: string
  cnTax :: string
  cnCategory :: "uuid option"

abbreviation "alias_conflict_sentinel \<equiv> Js_error ''AliasConflictSentinel''"

definition created_product :: "create_input \<Rightarrow> uuid \<Rightarrow> tenant_product" where
  "created_product inp i =
     \<lparr>tpId = i, tpTenant = cnTenant inp, tpName = cnName inp, tpCategory = cnCategory inp, tpTax = cnTax inp,
      tpRetired = None, tpCreatedBy = cnActor inp\<rparr>"

text \<open>The ids: the product, the alias. The sentinel rolls the product back.\<close>

definition create_work :: "create_input \<Rightarrow> id_source \<Rightarrow> timestamptz \<Rightarrow> tenant_context \<Rightarrow> (create_result, catalog_db) action" where
  "create_work inp ids now c =
     act_bind (act_select (find_item c (cnStore inp) (cnItem inp))) (\<lambda>existing. case existing of
         None \<Rightarrow> act_return Create_not_found
       | Some x \<Rightarrow>
           if uiStatus x \<noteq> Item_pending then act_return Create_already
           else act_then (act_query (insert_product c (created_product inp (ids 0))))
               (act_then
                 (act_catch
                   (act_query (insert_alias c (item_alias (ids 1) (cnTenant inp) (ids 0) (cnActor inp) now x)))
                   (\<lambda>e. if e = unique_violation then act_throw alias_conflict_sentinel else act_throw e))
                 (act_bind (act_query (update_pending c (cnStore inp) (cnItem inp)
                        (close_item Act_created (Some (ids 0)) (cnActor inp) now))) (\<lambda>updated. case updated of
                    None \<Rightarrow> act_throw (Js_error ''Error'')
                  | Some y \<Rightarrow> act_return (Create_ok y (ids 0))))))"

definition create_effects :: "create_input \<Rightarrow> create_result \<Rightarrow> catalog_effect list" where
  "create_effects inp r =
     (let reject = (\<lambda>reason. conflict_rejection reason (cnTenant inp) (cnStore inp) (cnActor inp))
      in case r of
           Create_ok x p \<Rightarrow> [Count_resolved Act_created]
         | Create_alias_conflict \<Rightarrow> [Count_alias_conflict, reject ''alias_conflict'']
         | Create_already \<Rightarrow> [reject ''already_reconciled'']
         | Create_not_found \<Rightarrow> [])"

definition createProductFromUnknownItem ::
    "create_input \<Rightarrow> id_source \<Rightarrow> timestamptz \<Rightarrow> catalog_db \<Rightarrow> (exn + create_result) \<times> catalog_effect list \<times> catalog_db" where
  "createProductFromUnknownItem inp ids now s =
     (case runWithTenantContext (tenant_ctx (cnTenant inp)) (\<lambda>c. as_work (create_work inp ids now c)) s of
        (Inl e, s') \<Rightarrow>
          if e = alias_conflict_sentinel then (Inr Create_alias_conflict, create_effects inp Create_alias_conflict, s')
          else (Inl e, [], s')
      | (Inr r, s') \<Rightarrow> (Inr r, create_effects inp r, s'))"

section \<open>Reopen\<close>

datatype reopen_result = Reopen_ok unknown_item bool | Reopen_forbidden | Reopen_already resolution_status | Reopen_not_found

record reopen_input =
  roTenant :: uuid
  roStore :: "uuid option"
  roItem :: uuid
  roActor :: uuid
  roTenantWide :: bool
  roCorrelation :: uuid

definition reopened_item :: "reopen_input \<Rightarrow> uuid \<Rightarrow> timestamptz \<Rightarrow> unknown_item \<Rightarrow> unknown_item" where
  "reopened_item inp i now x =
     fresh_item i (uiTenant x) (uiStore x) (uiType x) (uiValue x) (uiSource x) None (roCorrelation inp) now"

definition reopen_work :: "reopen_input \<Rightarrow> uuid \<Rightarrow> timestamptz \<Rightarrow> tenant_context \<Rightarrow> (reopen_result, catalog_db) action" where
  "reopen_work inp new now c =
     act_bind (act_select (find_item c (roStore inp) (roItem inp))) (\<lambda>existing. case existing of
         None \<Rightarrow> act_return Reopen_not_found
       | Some x \<Rightarrow>
           if \<not> roTenantWide inp then act_return Reopen_forbidden
           else if uiStatus x = Item_resolved then act_return (Reopen_already Item_resolved)
           else if uiStatus x = Item_pending then act_return (Reopen_ok x False)
           else act_bind (act_select (pending_sibling c (roStore inp) (uiTenant x) (uiStore x) (uiType x) (uiValue x) (uiSource x)))
             (\<lambda>sibling. case sibling of
                Some y \<Rightarrow> act_return (Reopen_ok y False)
              | None \<Rightarrow>
                  act_bind (act_query (insert_item c (roStore inp) (reopened_item inp new now x)))
                    (\<lambda>y. act_return (Reopen_ok y True))))"

definition reopen_effects :: "reopen_input \<Rightarrow> reopen_result \<Rightarrow> catalog_effect list" where
  "reopen_effects inp r =
     (let audit = (\<lambda>action target metadata.
            reopen_audit action (roTenant inp) (roStore inp) (roActor inp) target (roCorrelation inp) metadata)
      in case r of
           Reopen_ok x True \<Rightarrow>
             [audit ''unknown_item.reopened'' (roItem inp) [(''action'', ''reopen''), (''fresh_item_id'', uuid_text (uiId x))],
              audit ''unknown_item.captured'' (uiId x) [(''action'', ''reopen_fresh_capture'')]]
         | Reopen_ok x False \<Rightarrow> []
         | Reopen_forbidden \<Rightarrow> [audit ''unknown_item.reopen_rejected'' (roItem inp) [(''reason'', ''forbidden'')]]
         | Reopen_already st \<Rightarrow>
             [audit ''unknown_item.reopen_rejected'' (roItem inp)
                [(''reason'', ''already_reconciled''), (''prior_state'', if st = Item_resolved then ''resolved'' else ''dismissed'')]]
         | Reopen_not_found \<Rightarrow> [])"

definition reopenUnknownItem ::
    "reopen_input \<Rightarrow> uuid \<Rightarrow> timestamptz \<Rightarrow> catalog_db \<Rightarrow> (exn + reopen_result) \<times> catalog_effect list \<times> catalog_db" where
  "reopenUnknownItem inp new now s =
     (case runWithTenantContext (tenant_ctx (roTenant inp)) (\<lambda>c. as_work (reopen_work inp new now c)) s of
        (Inl e, s') \<Rightarrow> (Inl e, [], s')
      | (Inr r, s') \<Rightarrow> (Inr r, reopen_effects inp r, s'))"

section \<open>Routes\<close>

definition tenantAdminLinkUnknownItem ::
    "request_context \<Rightarrow> uuid \<Rightarrow> uuid \<Rightarrow> uuid \<Rightarrow> timestamptz \<Rightarrow> catalog_db \<Rightarrow>
     review_item response \<times> catalog_effect list \<times> catalog_db" where
  "tenantAdminLinkUnknownItem req i product new now s =
     (case admin_context req of
        Inl e \<Rightarrow> (respond 200 (Inl e), [], s)
      | Inr (t, store, u) \<Rightarrow>
          (case linkUnknownItem \<lparr>lkTenant = t, lkStore = store, lkItem = i, lkProduct = product, lkActor = u\<rparr> new now s of
             (r, effs, s') \<Rightarrow>
               (respond 200 (case r of
                   Inl e \<Rightarrow> Inl (Unhandled e)
                 | Inr (Link_ok x) \<Rightarrow> Inr (toReviewQueueItem x True)
                 | Inr Link_alias_conflict \<Rightarrow> Inl (Http_exception 409 (Some ''alias_conflict''))
                 | Inr Link_already \<Rightarrow> Inl already_reconciled_409
                 | Inr Link_target_unavailable \<Rightarrow> Inl (Http_exception 409 (Some ''target_unavailable''))
                 | Inr Link_not_found \<Rightarrow> Inl not_found_404), effs, s')))"

record create_product_body =
  cpName :: string
  cpTax :: string
  cpCategory :: "uuid option"

definition CreateProductFromUnknownItemRequestSchema :: "create_product_body \<Rightarrow> bool" where
  "CreateProductFromUnknownItemRequestSchema b \<longleftrightarrow>
     length_between 1 200 (js_trim (cpName b)) \<and> length_between 1 64 (js_trim (cpTax b))"

definition tenantAdminCreateProductFromUnknownItem ::
    "request_context \<Rightarrow> uuid \<Rightarrow> create_product_body \<Rightarrow> id_source \<Rightarrow> timestamptz \<Rightarrow> catalog_db \<Rightarrow>
     review_item response \<times> catalog_effect list \<times> catalog_db" where
  "tenantAdminCreateProductFromUnknownItem req i b ids now s =
     (if \<not> CreateProductFromUnknownItemRequestSchema b then (respond 201 (Inl Zod_error), [], s)
      else case admin_context req of
        Inl e \<Rightarrow> (respond 201 (Inl e), [], s)
      | Inr (t, store, u) \<Rightarrow>
          (case createProductFromUnknownItem
                  \<lparr>cnTenant = t, cnStore = store, cnItem = i, cnActor = u, cnName = js_trim (cpName b), cnTax = js_trim (cpTax b),
                   cnCategory = cpCategory b\<rparr> ids now s of
             (r, effs, s') \<Rightarrow>
               (respond 201 (case r of
                   Inl e \<Rightarrow> Inl (Unhandled e)
                 | Inr (Create_ok x p) \<Rightarrow> Inr (toReviewQueueItem x True)
                 | Inr Create_alias_conflict \<Rightarrow> Inl (Http_exception 409 (Some ''alias_conflict''))
                 | Inr Create_already \<Rightarrow> Inl already_reconciled_409
                 | Inr Create_not_found \<Rightarrow> Inl not_found_404), effs, s')))"

text \<open>The principal is tenant-wide when its context has no store.\<close>

definition tenantAdminReopenUnknownItem ::
    "request_context \<Rightarrow> uuid \<Rightarrow> uuid \<Rightarrow> uuid \<Rightarrow> timestamptz \<Rightarrow> catalog_db \<Rightarrow>
     review_item response \<times> catalog_effect list \<times> catalog_db" where
  "tenantAdminReopenUnknownItem req i corr new now s =
     (case admin_context req of
        Inl e \<Rightarrow> (respond 201 (Inl e), [], s)
      | Inr (t, store, u) \<Rightarrow>
          (case reopenUnknownItem
                  \<lparr>roTenant = t, roStore = store, roItem = i, roActor = u, roTenantWide = (store = None), roCorrelation = corr\<rparr>
                  new now s of
             (r, effs, s') \<Rightarrow>
               (case r of
                  Inl e \<Rightarrow> respond 201 (Inl (Unhandled e))
                | Inr (Reopen_ok x fresh) \<Rightarrow> respond (if fresh then 201 else 200) (Inr (toReviewQueueItem x True))
                | Inr Reopen_forbidden \<Rightarrow> respond 201 (Inl (Http_exception 403 (Some ''forbidden'')))
                | Inr (Reopen_already st) \<Rightarrow> respond 201 (Inl already_reconciled_409)
                | Inr Reopen_not_found \<Rightarrow> respond 201 (Inl not_found_404), effs, s')))"

section \<open>The machine of the unknown items\<close>

datatype catalog_op =
    Pos_capture_item request_context capture_item_input uuid timestamptz
  | Post_dismiss request_context uuid timestamptz
  | Post_bulk_dismiss request_context "uuid list" uuid timestamptz
  | Post_link request_context uuid uuid uuid timestamptz
  | Post_create_product request_context uuid create_product_body id_source timestamptz
  | Post_reopen request_context uuid uuid uuid timestamptz

fun catalog_step :: "catalog_op \<Rightarrow> catalog_db \<Rightarrow> catalog_db" where
  "catalog_step (Pos_capture_item req b i now) s = snd (snd (posCaptureItem req b i now s))"
| "catalog_step (Post_dismiss req i now) s = snd (snd (tenantAdminDismissUnknownItem req i now s))"
| "catalog_step (Post_bulk_dismiss req ids corr now) s = snd (snd (tenantAdminBulkDismissUnknownItems req ids corr now s))"
| "catalog_step (Post_link req i p new now) s = snd (snd (tenantAdminLinkUnknownItem req i p new now s))"
| "catalog_step (Post_create_product req i b ids now) s = snd (snd (tenantAdminCreateProductFromUnknownItem req i b ids now s))"
| "catalog_step (Post_reopen req i corr new now) s = snd (snd (tenantAdminReopenUnknownItem req i corr new now s))"

definition catalog_run :: "catalog_op list \<Rightarrow> catalog_db \<Rightarrow> catalog_db" where
  "catalog_run ops s = fold catalog_step ops s"

end
