(* ===== verification/CatalogFacts.thy ===== *)
theory CatalogFacts
  imports Reconciliation
begin

text \<open>
  What the operations on unknown items commit: the statements, one lemma per operation on when its
  transaction succeeds and with what, and the reduction of every operation to moves of rows.
\<close>

section \<open>Statements\<close>

definition item_new :: "tenant_context \<Rightarrow> uuid option \<Rightarrow> unknown_item \<Rightarrow> catalog_db \<Rightarrow> bool" where
  "item_new c store x s \<longleftrightarrow> item_visible c store x \<and> item_checks x \<and> uiId x \<notin> uiId ` set (unknownItems s) \<and>
     uiStore x \<in> set (catalogStores s)"

lemma insert_item_Inr [run_simps]:
  "insert_item c store x s = Inr (y, s') \<longleftrightarrow> y = x \<and> item_new c store x s \<and> s' = s\<lparr>unknownItems := unknownItems s @ [x]\<rparr>"
  unfolding insert_item_def by (simp only: sql_check_then) (auto simp: item_new_def)

definition alias_new :: "tenant_context \<Rightarrow> product_alias \<Rightarrow> catalog_db \<Rightarrow> bool" where
  "alias_new c a s \<longleftrightarrow> rls_tenant c (paTenant a) \<and> alias_checks a \<and> paId a \<notin> paId ` set (productAliases s) \<and>
     \<not> list_ex (alias_clash a) (productAliases s) \<and> paProduct a \<in> tpId ` set (tenantProducts s) \<and>
     (case paStore a of None \<Rightarrow> True | Some st \<Rightarrow> st \<in> set (catalogStores s))"

lemma insert_alias_Inr [run_simps]:
  "insert_alias c a s = Inr (u, s') \<longleftrightarrow> alias_new c a s \<and> s' = s\<lparr>productAliases := productAliases s @ [a]\<rparr>"
  unfolding insert_alias_def alias_new_def by (simp only: sql_check_then) (auto split: option.splits)

definition product_new :: "tenant_context \<Rightarrow> tenant_product \<Rightarrow> catalog_db \<Rightarrow> bool" where
  "product_new c p s \<longleftrightarrow> rls_tenant c (tpTenant p) \<and> product_checks p \<and> tpId p \<notin> tpId ` set (tenantProducts s) \<and>
     (case tpCategory p of None \<Rightarrow> True | Some k \<Rightarrow> k \<in> set (productCategories s))"

lemma insert_product_Inr [run_simps]:
  "insert_product c p s = Inr (u, s') \<longleftrightarrow> product_new c p s \<and> s' = s\<lparr>tenantProducts := tenantProducts s @ [p]\<rparr>"
  unfolding insert_product_def product_new_def by (simp only: sql_check_then) (auto split: option.splits)

lemma update_pending_Inr [run_simps]:
  "update_pending c store i f s = Inr (r, s') \<longleftrightarrow>
     r = map_option f (find (pending_item c store i) (unknownItems s)) \<and>
     s' = s\<lparr>unknownItems := update_where (pending_item c store i) f (unknownItems s)\<rparr>"
  by (auto simp: update_pending_def)

section \<open>Operations\<close>

lemma captureItem_succeeds:
  "succeeds (captureItem_work inp i now c) s r s' \<longleftrightarrow>
     (case capture_lookup c inp s of
        Found_alias a \<Rightarrow> r = Captured_resolved (paProduct a) (paId a) \<and> s' = s
      | Found_pending x \<Rightarrow> r = Captured_unknown x False \<and> s' = s
      | Found_nothing \<Rightarrow> item_new c (Some (kiStore inp)) (captured_item inp i now) s \<and>
          r = Captured_unknown (captured_item inp i now) True \<and>
          s' = s\<lparr>unknownItems := unknownItems s @ [captured_item inp i now]\<rparr>)"
  unfolding captureItem_work_def capture_outcome_def
  by (cases "capture_lookup c inp s") (auto simp: seq_simps succeeds_bind run_simps)

lemma dismiss_succeeds:
  "succeeds (dismiss_work store i actor now c) s r s' \<longleftrightarrow>
     (case find (pending_item c store i) (unknownItems s) of
        Some x \<Rightarrow> r = Dismiss_ok (close_item Act_dismissed None actor now x) \<and>
          s' = s\<lparr>unknownItems := update_where (pending_item c store i) (close_item Act_dismissed None actor now) (unknownItems s)\<rparr>
      | None \<Rightarrow> s' = s \<and> r = (if find_item c store i s = None then Dismiss_not_found else Dismiss_already))"
  unfolding dismiss_work_def
  by (auto simp: succeeds_bind run_simps update_where_no_match split: option.splits)

text \<open>An error of the insert is caught on an aborted transaction, so a caught insert succeeds as one that is not.\<close>

lemma query_then_error_aborts: "act_then (act_query q) (act_return b) (Tx_open s) \<noteq> (Inl e, Tx_open s')"
  by (auto simp: act_open_simps split: sum.splits prod.splits)

lemma succeeds_caught_insert:
  "succeeds (act_catch (act_then (act_query q) (act_return True)) (\<lambda>e. if e = e0 then act_return False else act_throw e)) s b s' \<longleftrightarrow>
     b \<and> (\<exists>u. q s = Inr (u, s'))"
  by (subst succeeds_catch) (auto simp: query_then_error_aborts succeeds_then run_simps)

lemma succeeds_rethrown_insert:
  "succeeds (act_catch (act_query q) (\<lambda>e. if e = e0 then act_throw e1 else act_throw e)) s b s' \<longleftrightarrow> q s = Inr (b, s')"
  by (subst succeeds_catch) (auto simp: act_query_error_aborts run_simps)

lemma link_succeeds:
  "succeeds (link_work inp new now c) s r s' \<longleftrightarrow>
     (case find_item c (lkStore inp) (lkItem inp) s of
        None \<Rightarrow> r = Link_not_found \<and> s' = s
      | Some x \<Rightarrow>
          if uiStatus x \<noteq> Item_pending then r = Link_already \<and> s' = s
          else (case find_product c (lkProduct inp) (lkTenant inp) s of
              None \<Rightarrow> r = Link_not_found \<and> s' = s
            | Some p \<Rightarrow>
                if tpRetired p \<noteq> None then r = Link_target_unavailable \<and> s' = s
                else alias_new c (item_alias new (lkTenant inp) (lkProduct inp) (lkActor inp) now x) s \<and>
                  (\<exists>y. find (pending_item c (lkStore inp) (lkItem inp)) (unknownItems s) = Some y \<and>
                    r = Link_ok (close_item Act_linked (Some (lkProduct inp)) (lkActor inp) now y) \<and>
                    s' = s\<lparr>productAliases := productAliases s @ [item_alias new (lkTenant inp) (lkProduct inp) (lkActor inp) now x],
                      unknownItems := update_where (pending_item c (lkStore inp) (lkItem inp))
                        (close_item Act_linked (Some (lkProduct inp)) (lkActor inp) now) (unknownItems s)\<rparr>)))"
  unfolding link_work_def
  by (auto simp: seq_simps succeeds_bind succeeds_caught_insert run_simps split: option.splits if_splits)

lemma create_succeeds:
  "succeeds (create_work inp ids now c) s r s' \<longleftrightarrow>
     (case find_item c (cnStore inp) (cnItem inp) s of
        None \<Rightarrow> r = Create_not_found \<and> s' = s
      | Some x \<Rightarrow>
          if uiStatus x \<noteq> Item_pending then r = Create_already \<and> s' = s
          else product_new c (created_product inp (ids 0)) s \<and>
            alias_new c (item_alias (ids 1) (cnTenant inp) (ids 0) (cnActor inp) now x)
              (s\<lparr>tenantProducts := tenantProducts s @ [created_product inp (ids 0)]\<rparr>) \<and>
            (\<exists>y. find (pending_item c (cnStore inp) (cnItem inp)) (unknownItems s) = Some y \<and>
              r = Create_ok (close_item Act_created (Some (ids 0)) (cnActor inp) now y) (ids 0) \<and>
              s' = s\<lparr>tenantProducts := tenantProducts s @ [created_product inp (ids 0)],
                productAliases := productAliases s @ [item_alias (ids 1) (cnTenant inp) (ids 0) (cnActor inp) now x],
                unknownItems := update_where (pending_item c (cnStore inp) (cnItem inp))
                  (close_item Act_created (Some (ids 0)) (cnActor inp) now) (unknownItems s)\<rparr>))"
  unfolding create_work_def
  by (auto simp: seq_simps succeeds_bind succeeds_then succeeds_rethrown_insert run_simps split: option.splits if_splits)

lemma reopen_succeeds:
  "succeeds (reopen_work inp new now c) s r s' \<longleftrightarrow>
     (case find_item c (roStore inp) (roItem inp) s of
        None \<Rightarrow> r = Reopen_not_found \<and> s' = s
      | Some x \<Rightarrow>
          if \<not> roTenantWide inp then r = Reopen_forbidden \<and> s' = s
          else if uiStatus x = Item_resolved then r = Reopen_already Item_resolved \<and> s' = s
          else if uiStatus x = Item_pending then r = Reopen_ok x False \<and> s' = s
          else (case pending_sibling c (roStore inp) (uiTenant x) (uiStore x) (uiType x) (uiValue x) (uiSource x) s of
              Some y \<Rightarrow> r = Reopen_ok y False \<and> s' = s
            | None \<Rightarrow> item_new c (roStore inp) (reopened_item inp new now x) s \<and> r = Reopen_ok (reopened_item inp new now x) True \<and>
                s' = s\<lparr>unknownItems := unknownItems s @ [reopened_item inp new now x]\<rparr>))"
  unfolding reopen_work_def
  by (auto simp: seq_simps succeeds_bind run_simps split: option.splits if_splits)

end
