(* ===== verification/CatalogMachine.thy ===== *)
theory CatalogMachine
  imports CatalogFacts
begin

text \<open>
  The machine of the unknown items as moves of rows: every operation on the unknown items, whatever
  it answers, changes nothing or makes moves of the tenant of its request.
\<close>

section \<open>Moves\<close>

abbreviation item_key :: "unknown_item \<Rightarrow> uuid \<times> uuid \<times> identifier_type \<times> string \<times> string option" where
  "item_key x \<equiv> (uiTenant x, uiStore x, uiType x, uiValue x, uiSource x)"

abbreviation pending_keys :: "catalog_db \<Rightarrow> (uuid \<times> uuid \<times> identifier_type \<times> string \<times> string option) list" where
  "pending_keys s \<equiv> map item_key (filter (\<lambda>x. uiStatus x = Item_pending) (unknownItems s))"

inductive catalog_move :: "uuid \<Rightarrow> catalog_db \<Rightarrow> catalog_db \<Rightarrow> bool" for t where
  mv_fresh: "item_new (tenant_ctx t) store x s \<Longrightarrow> uiStatus x = Item_pending \<Longrightarrow> item_key x \<notin> set (pending_keys s) \<Longrightarrow>
     catalog_move t s (s\<lparr>unknownItems := unknownItems s @ [x]\<rparr>)"
| mv_dismiss: "find (pending_item (tenant_ctx t) store i) (unknownItems s) = Some x \<Longrightarrow>
     catalog_move t s (s\<lparr>unknownItems :=
       update_where (pending_item (tenant_ctx t) store i) (close_item Act_dismissed None actor now) (unknownItems s)\<rparr>)"
| mv_link: "find (pending_item (tenant_ctx t) store i) (unknownItems s) = Some x \<Longrightarrow> find_product (tenant_ctx t) p t s = Some q \<Longrightarrow>
     tpRetired q = None \<Longrightarrow> alias_new (tenant_ctx t) (item_alias new t p actor now x) s \<Longrightarrow>
     catalog_move t s (s\<lparr>productAliases := productAliases s @ [item_alias new t p actor now x],
       unknownItems := update_where (pending_item (tenant_ctx t) store i) (close_item Act_linked (Some p) actor now) (unknownItems s)\<rparr>)"
| mv_create: "find (pending_item (tenant_ctx t) store i) (unknownItems s) = Some x \<Longrightarrow> product_new (tenant_ctx t) q s \<Longrightarrow>
     alias_new (tenant_ctx t) (item_alias new t (tpId q) actor now x) (s\<lparr>tenantProducts := tenantProducts s @ [q]\<rparr>) \<Longrightarrow>
     catalog_move t s (s\<lparr>tenantProducts := tenantProducts s @ [q],
       productAliases := productAliases s @ [item_alias new t (tpId q) actor now x],
       unknownItems := update_where (pending_item (tenant_ctx t) store i) (close_item Act_created (Some (tpId q)) actor now) (unknownItems s)\<rparr>)"

fun catalog_op_tenant :: "catalog_op \<Rightarrow> uuid option" where
  "catalog_op_tenant (Pos_capture_item req b i now) = (case req of None \<Rightarrow> None | Some c \<Rightarrow> rcTenant c)"
| "catalog_op_tenant (Post_dismiss req i now) = (case req of None \<Rightarrow> None | Some c \<Rightarrow> rcTenant c)"
| "catalog_op_tenant (Post_bulk_dismiss req ids corr now) = (case req of None \<Rightarrow> None | Some c \<Rightarrow> rcTenant c)"
| "catalog_op_tenant (Post_link req i p new now) = (case req of None \<Rightarrow> None | Some c \<Rightarrow> rcTenant c)"
| "catalog_op_tenant (Post_create_product req i b ids now) = (case req of None \<Rightarrow> None | Some c \<Rightarrow> rcTenant c)"
| "catalog_op_tenant (Post_reopen req i corr new now) = (case req of None \<Rightarrow> None | Some c \<Rightarrow> rcTenant c)"

section \<open>Every operation is a sequence of moves\<close>

lemma find_item_Some: "find_item c store i s = Some x \<Longrightarrow> x \<in> set (unknownItems s) \<and> item_visible c store x \<and> uiId x = i"
  unfolding find_item_def by (drule find_SomeD) auto

lemma find_pending_of_item:
  assumes "find_item c store i s = Some x" and "uiStatus x = Item_pending"
  shows "find (pending_item c store i) (unknownItems s) = Some x"
proof -
  have "pending_item c store i = (\<lambda>x. (item_visible c store x \<and> uiId x = i) \<and> uiStatus x = Item_pending)"
    by (rule ext) (auto simp: pending_item_def)
  with find_stronger [OF assms(1) [unfolded find_item_def], where q = "\<lambda>x. uiStatus x = Item_pending", OF assms(2)]
  show ?thesis by simp
qed

lemma item_visible_tenant: "item_visible (tenant_ctx t) store x \<Longrightarrow> uiTenant x = t"
  by (simp add: item_visible_def)

lemma sorted_head: "(case sort_key k xs of [] \<Rightarrow> None | x # _ \<Rightarrow> Some x) = None \<longleftrightarrow> xs = []"
  by (metis (no_types, lifting) list.case_eq_if option.distinct(1) set_empty set_sort)

lemma no_pending_sibling:
  "pending_sibling c store t st ty v src s = None \<longleftrightarrow>
     (\<forall>x \<in> set (unknownItems s). item_visible c store x \<longrightarrow> uiStatus x = Item_pending \<longrightarrow> \<not> same_identifier x t st ty v src)"
  unfolding pending_sibling_def sorted_head by (auto simp: filter_empty_conv)

lemma fresh_item_sel [simp]:
  "uiId (fresh_item i t st ty v src ctx corr now) = i" "uiTenant (fresh_item i t st ty v src ctx corr now) = t"
  "uiStore (fresh_item i t st ty v src ctx corr now) = st" "uiType (fresh_item i t st ty v src ctx corr now) = ty"
  "uiValue (fresh_item i t st ty v src ctx corr now) = v" "uiSource (fresh_item i t st ty v src ctx corr now) = src"
  "uiStatus (fresh_item i t st ty v src ctx corr now) = Item_pending"
  by (simp_all add: fresh_item_def)

lemma item_capture_moves:
  assumes "succeeds (captureItem_work inp i now (tenant_ctx (kiTenant inp))) s r s'"
  shows "s' = s \<or> catalog_move (kiTenant inp) s s'"
proof (cases "capture_lookup (tenant_ctx (kiTenant inp)) inp s")
  case Found_nothing
  then have none: "pending_sibling (tenant_ctx (kiTenant inp)) (Some (kiStore inp)) (kiTenant inp) (kiStore inp) (kiType inp) (kiValue inp)
      (kiSource inp) s = None"
    by (auto simp: capture_lookup_def split: option.splits)
  have "item_key (captured_item inp i now) \<notin> set (pending_keys s)"
    using none unfolding no_pending_sibling by (auto simp: captured_item_def item_visible_def same_identifier_def)
  with assms Found_nothing show ?thesis
    by (auto simp: captureItem_succeeds captured_item_def intro!: mv_fresh)
qed (use assms in \<open>simp_all add: captureItem_succeeds\<close>)

lemma dismiss_moves: "succeeds (dismiss_work store i actor now (tenant_ctx t)) s r s' \<Longrightarrow> s' = s \<or> catalog_move t s s'"
  by (auto simp: dismiss_succeeds intro: mv_dismiss split: option.splits)

lemma link_moves:
  assumes "succeeds (link_work inp new now (tenant_ctx (lkTenant inp))) s r s'"
  shows "s' = s \<or> catalog_move (lkTenant inp) s s'"
proof (cases "find_item (tenant_ctx (lkTenant inp)) (lkStore inp) (lkItem inp) s")
  case (Some x)
  show ?thesis
  proof (cases "uiStatus x = Item_pending")
    case True
    from find_pending_of_item [OF Some True] assms Some True show ?thesis
      by (auto simp: link_succeeds intro: mv_link split: option.splits if_splits)
  qed (use assms Some in \<open>simp add: link_succeeds\<close>)
qed (use assms in \<open>simp add: link_succeeds\<close>)

lemma create_moves:
  assumes "succeeds (create_work inp ids now (tenant_ctx (cnTenant inp))) s r s'"
  shows "s' = s \<or> catalog_move (cnTenant inp) s s'"
proof (cases "find_item (tenant_ctx (cnTenant inp)) (cnStore inp) (cnItem inp) s")
  case (Some x)
  show ?thesis
  proof (cases "uiStatus x = Item_pending")
    case True
    have "tpId (created_product inp (ids 0)) = ids 0" by (simp add: created_product_def)
    with mv_create [OF find_pending_of_item [OF Some True], of "created_product inp (ids 0)" "ids 1" "cnActor inp" now]
      assms Some True find_pending_of_item [OF Some True] show ?thesis
      by (auto simp: create_succeeds)
  qed (use assms Some in \<open>simp add: create_succeeds\<close>)
qed (use assms in \<open>simp add: create_succeeds\<close>)

lemma reopen_moves:
  assumes "succeeds (reopen_work inp new now (tenant_ctx (roTenant inp))) s r s'" and "roTenantWide inp \<longleftrightarrow> roStore inp = None"
  shows "s' = s \<or> catalog_move (roTenant inp) s s'"
proof (cases "find_item (tenant_ctx (roTenant inp)) (roStore inp) (roItem inp) s")
  case (Some x)
  let ?sib = "pending_sibling (tenant_ctx (roTenant inp)) (roStore inp) (uiTenant x) (uiStore x) (uiType x) (uiValue x) (uiSource x) s"
  show ?thesis
  proof (cases "?sib = None \<and> roTenantWide inp")
    case True
    then have "item_key (reopened_item inp new now x) \<notin> set (pending_keys s)"
      using assms(2) find_item_Some [OF Some] unfolding no_pending_sibling
      by (auto simp: reopened_item_def item_visible_def same_identifier_def)
    with assms(1) Some show ?thesis
      by (auto simp: reopen_succeeds reopened_item_def intro!: mv_fresh split: if_splits option.splits)
  qed (use assms Some in \<open>auto simp: reopen_succeeds split: if_splits option.splits\<close>)
qed (use assms in \<open>simp add: reopen_succeeds\<close>)

lemma committed_moves:
  assumes "\<And>a s'. succeeds (m c) s a s' \<Longrightarrow> s' = s \<or> catalog_move t s s'"
  shows "(catalog_move t)\<^sup>*\<^sup>* s (snd (runWithTenantContext c (\<lambda>c. as_work (m c)) s))"
  using run_commits_or_nothing [of c m s]
proof (elim disjE exE)
  fix a assume "succeeds (m c) s a (snd (runWithTenantContext c (\<lambda>c. as_work (m c)) s))"
  from assms [OF this] show ?thesis by auto
qed simp

lemma captureItem_moves: "(catalog_move (kiTenant inp))\<^sup>*\<^sup>* s (snd (snd (captureItem inp i now s)))"
proof -
  have "snd (snd (captureItem inp i now s)) =
      snd (runWithTenantContext (tenant_ctx (kiTenant inp)) (\<lambda>c. as_work (captureItem_work inp i now c)) s)"
    by (simp add: captureItem_def split: prod.split sum.split)
  then show ?thesis by (simp add: committed_moves item_capture_moves)
qed

lemma dismissUnknownItem_moves: "(catalog_move t)\<^sup>*\<^sup>* s (snd (snd (dismissUnknownItem t store i actor now s)))"
proof -
  have "snd (snd (dismissUnknownItem t store i actor now s)) =
      snd (runWithTenantContext (tenant_ctx t) (\<lambda>c. as_work (dismiss_work store i actor now c)) s)"
    by (simp add: dismissUnknownItem_def split: prod.split sum.split dismiss_result.split)
  then show ?thesis by (simp add: committed_moves dismiss_moves)
qed

lemma linkUnknownItem_moves: "(catalog_move (lkTenant inp))\<^sup>*\<^sup>* s (snd (snd (linkUnknownItem inp new now s)))"
proof -
  have "snd (snd (linkUnknownItem inp new now s)) =
      snd (runWithTenantContext (tenant_ctx (lkTenant inp)) (\<lambda>c. as_work (link_work inp new now c)) s)"
    by (simp add: linkUnknownItem_def split: prod.split sum.split)
  then show ?thesis by (simp add: committed_moves link_moves)
qed

lemma createProduct_moves: "(catalog_move (cnTenant inp))\<^sup>*\<^sup>* s (snd (snd (createProductFromUnknownItem inp ids now s)))"
proof -
  have "snd (snd (createProductFromUnknownItem inp ids now s)) =
      snd (runWithTenantContext (tenant_ctx (cnTenant inp)) (\<lambda>c. as_work (create_work inp ids now c)) s)"
    by (simp add: createProductFromUnknownItem_def split: prod.split sum.split)
  then show ?thesis by (simp add: committed_moves create_moves)
qed

lemma reopenUnknownItem_moves:
  assumes "roTenantWide inp \<longleftrightarrow> roStore inp = None"
  shows "(catalog_move (roTenant inp))\<^sup>*\<^sup>* s (snd (snd (reopenUnknownItem inp new now s)))"
proof -
  have "snd (snd (reopenUnknownItem inp new now s)) =
      snd (runWithTenantContext (tenant_ctx (roTenant inp)) (\<lambda>c. as_work (reopen_work inp new now c)) s)"
    by (simp add: reopenUnknownItem_def split: prod.split sum.split)
  then show ?thesis by (simp add: committed_moves reopen_moves assms)
qed

lemma bulk_moves: "(catalog_move t)\<^sup>*\<^sup>* s (snd (snd (bulkDismissUnknownItems t store actor corr now is s)))"
proof (induction "is" arbitrary: s)
  case (Cons i "is")
  have "(catalog_move t)\<^sup>*\<^sup>* s (snd (snd (dismissUnknownItem t store i actor now s)))" by (rule dismissUnknownItem_moves)
  with Cons.IH [of "snd (snd (dismissUnknownItem t store i actor now s))"] show ?case
    by (auto split: prod.splits sum.splits)
qed simp

lemma pos_context_tenant: "pos_context req = Inr (t, st, u) \<Longrightarrow> \<exists>c. req = Some c \<and> rcTenant c = Some t"
  by (auto simp: pos_context_def split: option.splits)

lemma admin_context_tenant: "admin_context req = Inr (t, st, u) \<Longrightarrow> \<exists>c. req = Some c \<and> rcTenant c = Some t"
  by (auto simp: admin_context_def split: option.splits)

lemmas operation_moves = captureItem_moves dismissUnknownItem_moves linkUnknownItem_moves createProduct_moves
  reopenUnknownItem_moves bulk_moves

text \<open>Hence an operation of the machine changes nothing or makes moves of the tenant of its request.\<close>

lemma capture_step_moves:
  "snd (snd (posCaptureItem req b i now s)) = s \<or>
   (\<exists>t st u. pos_context req = Inr (t, st, u) \<and> (catalog_move t)\<^sup>*\<^sup>* s (snd (snd (posCaptureItem req b i now s))))"
proof (cases "pos_context req")
  case (Inr k)
  then obtain t st u where k: "pos_context req = Inr (t, st, u)" by (cases k) auto
  have "(catalog_move t)\<^sup>*\<^sup>* s (snd (snd (captureItem (b\<lparr>kiTenant := t, kiStore := st, kiActor := u\<rparr>) i now s)))"
    using captureItem_moves [of "b\<lparr>kiTenant := t, kiStore := st, kiActor := u\<rparr>"] by simp
  then show ?thesis by (auto simp: posCaptureItem_def k split: prod.splits sum.splits)
qed (simp add: posCaptureItem_def)

lemma admin_step_moves:
  assumes "\<And>e. admin_context req = Inl e \<Longrightarrow> s' = s"
    and "\<And>t st u. admin_context req = Inr (t, st, u) \<Longrightarrow> s' = s \<or> (catalog_move t)\<^sup>*\<^sup>* s s'"
  shows "s' = s \<or> (\<exists>t. (case req of None \<Rightarrow> None | Some c \<Rightarrow> rcTenant c) = Some t \<and> (catalog_move t)\<^sup>*\<^sup>* s s')"
proof (cases "admin_context req")
  case (Inr k)
  then obtain t st u where k: "admin_context req = Inr (t, st, u)" by (cases k) auto
  from admin_context_tenant [OF k] assms(2) [OF k] show ?thesis by auto
qed (use assms(1) in simp)

lemma catalog_step_moves:
  "catalog_step op s = s \<or> (\<exists>t. catalog_op_tenant op = Some t \<and> (catalog_move t)\<^sup>*\<^sup>* s (catalog_step op s))"
proof (cases op)
  case (Pos_capture_item req b i now)
  with capture_step_moves [of req b i now s] pos_context_tenant [of req] show ?thesis by fastforce
next
  case (Post_dismiss req i now)
  show ?thesis unfolding Post_dismiss catalog_op_tenant.simps
    by (rule admin_step_moves) (auto simp: tenantAdminDismissUnknownItem_def case_prod_unfold operation_moves)
next
  case (Post_bulk_dismiss req ids corr now)
  show ?thesis unfolding Post_bulk_dismiss catalog_op_tenant.simps
    by (rule admin_step_moves) (auto simp: tenantAdminBulkDismissUnknownItems_def case_prod_unfold operation_moves)
next
  case (Post_link req i p new now)
  show ?thesis unfolding Post_link catalog_op_tenant.simps
  proof (rule admin_step_moves)
    fix t st u assume "admin_context req = Inr (t, st, u)"
    with operation_moves(3) [of "\<lparr>lkTenant = t, lkStore = st, lkItem = i, lkProduct = p, lkActor = u\<rparr>" s new now]
    show "catalog_step (Post_link req i p new now) s = s \<or> (catalog_move t)\<^sup>*\<^sup>* s (catalog_step (Post_link req i p new now) s)"
      by (simp add: tenantAdminLinkUnknownItem_def case_prod_unfold)
  qed (simp add: tenantAdminLinkUnknownItem_def)
next
  case (Post_create_product req i b ids now)
  show ?thesis unfolding Post_create_product catalog_op_tenant.simps
  proof (rule admin_step_moves)
    fix t st u assume "admin_context req = Inr (t, st, u)"
    with operation_moves(4) [of "\<lparr>cnTenant = t, cnStore = st, cnItem = i, cnActor = u, cnName = js_trim (cpName b),
      cnTax = js_trim (cpTax b), cnCategory = cpCategory b\<rparr>" s ids now]
    show "catalog_step (Post_create_product req i b ids now) s = s \<or>
        (catalog_move t)\<^sup>*\<^sup>* s (catalog_step (Post_create_product req i b ids now) s)"
      by (simp add: tenantAdminCreateProductFromUnknownItem_def case_prod_unfold)
  qed (simp add: tenantAdminCreateProductFromUnknownItem_def)
next
  case (Post_reopen req i corr new now)
  show ?thesis unfolding Post_reopen catalog_op_tenant.simps
  proof (rule admin_step_moves)
    fix t st u assume "admin_context req = Inr (t, st, u)"
    with operation_moves(5) [of "\<lparr>roTenant = t, roStore = st, roItem = i, roActor = u, roTenantWide = (st = None),
      roCorrelation = corr\<rparr>" s new now]
    show "catalog_step (Post_reopen req i corr new now) s = s \<or> (catalog_move t)\<^sup>*\<^sup>* s (catalog_step (Post_reopen req i corr new now) s)"
      by (simp add: tenantAdminReopenUnknownItem_def case_prod_unfold)
  qed (simp add: tenantAdminReopenUnknownItem_def)
qed

end
