(* ===== verification/CatalogInvariant.thy ===== *)
theory CatalogInvariant
  imports CatalogMachine
begin

text \<open>
  The invariant of the catalog tables under the moves of the unknown items, what a run keeps of a row,
  and the alias that a resolved item leaves for later captures.
\<close>

section \<open>The invariant\<close>

text \<open>An alias that a capture of the item's identifier at the item's store finds.\<close>

definition resolves_item :: "product_alias \<Rightarrow> unknown_item \<Rightarrow> bool" where
  "resolves_item a x \<longleftrightarrow> paTenant a = uiTenant x \<and> paStore a = Some (uiStore x) \<and> paType a = uiType x \<and> paValue a = uiValue x \<and>
     paRetired a = None \<and> uiProduct x = Some (paProduct a)"

definition item_ok :: "catalog_db \<Rightarrow> unknown_item \<Rightarrow> bool" where
  "item_ok s x \<longleftrightarrow> item_checks x \<and> uiStore x \<in> set (catalogStores s) \<and>
     (uiAction x = Some Act_dismissed \<longleftrightarrow> uiStatus x = Item_dismissed) \<and>
     (uiStatus x = Item_resolved \<longrightarrow> uiType x \<noteq> External_pos_id \<and> (\<exists>a \<in> set (productAliases s). resolves_item a x))"

definition alias_ok :: "catalog_db \<Rightarrow> product_alias \<Rightarrow> bool" where
  "alias_ok s a \<longleftrightarrow> alias_checks a \<and> paProduct a \<in> tpId ` set (tenantProducts s)"

definition catalog_ok :: "catalog_db \<Rightarrow> bool" where
  "catalog_ok s \<longleftrightarrow> distinct (map uiId (unknownItems s)) \<and> distinct (map paId (productAliases s)) \<and>
     distinct (map tpId (tenantProducts s)) \<and> distinct (pending_keys s) \<and>
     sorted_wrt (\<lambda>a b. \<not> alias_clash b a) (productAliases s) \<and>
     (\<forall>x \<in> set (unknownItems s). item_ok s x) \<and> (\<forall>a \<in> set (productAliases s). alias_ok s a)"

section \<open>Rows\<close>

lemma close_item_sel [simp]:
  "uiId (close_item act p u now x) = uiId x" "uiTenant (close_item act p u now x) = uiTenant x"
  "uiStore (close_item act p u now x) = uiStore x" "uiType (close_item act p u now x) = uiType x"
  "uiValue (close_item act p u now x) = uiValue x" "uiSource (close_item act p u now x) = uiSource x"
  "uiStatus (close_item act p u now x) = (if act = Act_dismissed then Item_dismissed else Item_resolved)"
  "uiAction (close_item act p u now x) = Some act" "uiProduct (close_item act p u now x) = p"
  by (simp_all add: close_item_def)

lemma close_item_checks:
  "item_checks x \<Longrightarrow> (act = Act_dismissed \<longleftrightarrow> p = None) \<Longrightarrow> item_checks (close_item act p u now x)"
  by (cases act) (auto simp: item_checks_def close_item_def)

lemma item_alias_sel [simp]:
  "paId (item_alias i t p u now x) = i" "paTenant (item_alias i t p u now x) = t" "paProduct (item_alias i t p u now x) = p"
  "paType (item_alias i t p u now x) = uiType x" "paStore (item_alias i t p u now x) = Some (uiStore x)"
  "paValue (item_alias i t p u now x) = uiValue x" "paSource (item_alias i t p u now x) = uiSource x"
  "paRetired (item_alias i t p u now x) = None"
  by (simp_all add: item_alias_def)

lemma pending_itemD: "pending_item (tenant_ctx t) store i x \<Longrightarrow> uiTenant x = t \<and> uiId x = i \<and> uiStatus x = Item_pending"
  by (simp add: pending_item_def item_visible_def)

lemma find_pendingD:
  "find (pending_item (tenant_ctx t) store i) xs = Some x \<Longrightarrow>
     x \<in> set xs \<and> uiTenant x = t \<and> uiId x = i \<and> uiStatus x = Item_pending"
  by (drule find_SomeD) (auto dest: pending_itemD)

text \<open>Ids are distinct, so an update by id closes the row it found.\<close>

lemma closes_one:
  assumes "distinct (map uiId xs)" and "find (pending_item (tenant_ctx t) store i) xs = Some x"
    and "y \<in> set xs" and "pending_item (tenant_ctx t) store i y"
  shows "y = x"
  using assms pending_itemD [OF assms(4)] find_pendingD [OF assms(2)] by (metis distinct_map inj_onD)

lemma set_close:
  assumes "distinct (map uiId xs)" and "find (pending_item (tenant_ctx t) store i) xs = Some x"
    and "y \<in> set (update_where (pending_item (tenant_ctx t) store i) f xs)"
  shows "y \<in> set xs \<or> y = f x"
  using assms(3) closes_one [OF assms(1,2)] by (auto simp: set_update_where split: if_splits)

lemma pending_keys_close:
  assumes "distinct (map item_key (filter (\<lambda>x. uiStatus x = Item_pending) xs))"
  shows "distinct (map item_key (filter (\<lambda>x. uiStatus x = Item_pending)
    (update_where (pending_item c store i) (close_item act p u now) xs)))"
proof -
  have "filter (\<lambda>x. uiStatus x = Item_pending) (update_where (pending_item c store i) (close_item act p u now) xs) =
      filter (\<lambda>x. \<not> pending_item c store i x) (filter (\<lambda>x. uiStatus x = Item_pending) xs)"
    by (subst filter_update_where_leave) (auto simp: conj_commute)
  then show ?thesis using assms by (simp add: distinct_map_filter del: filter_filter)
qed

lemma row_ok_update [simp]:
  "item_ok (s\<lparr>unknownItems := xs\<rparr>) x = item_ok s x" "item_ok (s\<lparr>tenantProducts := ps\<rparr>) x = item_ok s x"
  "alias_ok (s\<lparr>unknownItems := xs\<rparr>) a = alias_ok s a" "alias_ok (s\<lparr>productAliases := as\<rparr>) a = alias_ok s a"
  by (simp_all add: item_ok_def alias_ok_def)

lemma item_ok_mono:
  "item_ok s x \<Longrightarrow> set (productAliases s) \<subseteq> set (productAliases s') \<Longrightarrow> catalogStores s' = catalogStores s \<Longrightarrow> item_ok s' x"
  by (auto simp: item_ok_def)

lemma alias_ok_mono:
  "alias_ok s a \<Longrightarrow> set (tenantProducts s) \<subseteq> set (tenantProducts s') \<Longrightarrow> alias_ok s' a"
  by (auto simp: alias_ok_def)

lemma dismissed_ok: "item_ok s x \<Longrightarrow> item_ok s (close_item Act_dismissed None u now x)"
  by (simp add: item_ok_def close_item_checks)

text \<open>A resolution with the alias of the item in the table: the alias is what makes it well-formed.\<close>

lemma resolved_ok:
  assumes "item_ok s x" and "act \<noteq> Act_dismissed" and "alias_checks (item_alias new (uiTenant x) p u now x)"
    and "item_alias new (uiTenant x) p u now x \<in> set (productAliases s)"
  shows "item_ok s (close_item act (Some p) u now x)"
proof -
  have "resolves_item (item_alias new (uiTenant x) p u now x) (close_item act (Some p) u now x)"
    by (simp add: resolves_item_def)
  moreover have "uiType x \<noteq> External_pos_id" using assms(3) by (simp add: alias_checks_def)
  ultimately show ?thesis using assms by (auto simp: item_ok_def close_item_checks)
qed

section \<open>Moves keep the invariant\<close>

lemma append_no_clash:
  "sorted_wrt (\<lambda>a b. \<not> alias_clash b a) as \<Longrightarrow> \<not> list_ex (alias_clash a) as \<Longrightarrow> sorted_wrt (\<lambda>a b. \<not> alias_clash b a) (as @ [a])"
  by (auto simp: sorted_wrt_append list_ex_iff)

text \<open>Closing a row with what its action needs keeps every row well-formed and the pending keys distinct.\<close>

lemma close_rows:
  assumes "catalog_ok s" and "find (pending_item (tenant_ctx t) store i) (unknownItems s) = Some x"
    and "\<And>y. y \<in> set (unknownItems s) \<Longrightarrow> item_ok s' y" and "item_ok s' (close_item act p u now x)"
  defines "xs \<equiv> update_where (pending_item (tenant_ctx t) store i) (close_item act p u now) (unknownItems s)"
  shows "distinct (map uiId xs) \<and> distinct (map item_key (filter (\<lambda>x. uiStatus x = Item_pending) xs)) \<and>
    (\<forall>y \<in> set xs. item_ok s' y)"
proof (intro conjI ballI)
  show "distinct (map uiId xs)" using assms(1) by (simp add: xs_def catalog_ok_def map_update_where)
  show "distinct (map item_key (filter (\<lambda>x. uiStatus x = Item_pending) xs))"
    using assms(1) unfolding xs_def by (intro pending_keys_close) (simp add: catalog_ok_def)
next
  fix y assume "y \<in> set xs"
  from set_close [OF _ assms(2) this [unfolded xs_def]] assms(1,3,4) show "item_ok s' y" by (auto simp: catalog_ok_def)
qed

lemma append_alias:
  assumes "catalog_ok s" and "alias_new c a s'" and "productAliases s' = productAliases s"
    and "set (tenantProducts s) \<subseteq> set (tenantProducts s')"
  shows "distinct (map paId (productAliases s @ [a])) \<and> sorted_wrt (\<lambda>a b. \<not> alias_clash b a) (productAliases s @ [a]) \<and>
    (\<forall>b \<in> set (productAliases s @ [a]). alias_ok s' b)"
proof (intro conjI ballI)
  show "distinct (map paId (productAliases s @ [a]))" using assms by (simp add: catalog_ok_def alias_new_def)
  show "sorted_wrt (\<lambda>a b. \<not> alias_clash b a) (productAliases s @ [a])"
    using assms by (intro append_no_clash) (simp_all add: catalog_ok_def alias_new_def)
next
  fix b assume "b \<in> set (productAliases s @ [a])"
  then consider "b \<in> set (productAliases s)" | "b = a" by auto
  then show "alias_ok s' b"
  proof cases
    case 1
    with assms(1,4) show ?thesis by (auto simp: catalog_ok_def intro: alias_ok_mono)
  qed (use assms(2) in \<open>auto simp: alias_new_def alias_ok_def\<close>)
qed

lemma fresh_catalog_ok:
  assumes "catalog_ok s" and "item_new c store x s" and "uiStatus x = Item_pending" and "item_key x \<notin> set (pending_keys s)"
  shows "catalog_ok (s\<lparr>unknownItems := unknownItems s @ [x]\<rparr>)"
proof -
  have "item_ok s x" using assms(2,3) by (auto simp: item_new_def item_ok_def item_checks_def)
  with assms show ?thesis by (simp add: catalog_ok_def item_new_def)
qed

lemma dismissed_catalog_ok:
  assumes "catalog_ok s" and "find (pending_item (tenant_ctx t) store i) (unknownItems s) = Some x"
  shows "catalog_ok (s\<lparr>unknownItems :=
    update_where (pending_item (tenant_ctx t) store i) (close_item Act_dismissed None u now) (unknownItems s)\<rparr>)"
proof -
  have "item_ok s x" using assms find_pendingD [OF assms(2)] by (simp add: catalog_ok_def)
  from close_rows [OF assms _ dismissed_ok [OF this]] assms(1) show ?thesis by (simp add: catalog_ok_def)
qed

text \<open>A link, and a creation with the product as the only new row: the alias goes with the resolution.\<close>

lemma resolved_catalog_ok:
  assumes ok: "catalog_ok s" and pending: "find (pending_item (tenant_ctx t) store i) (unknownItems s) = Some x"
    and act: "act \<noteq> Act_dismissed" and new: "alias_new (tenant_ctx t) (item_alias new t p u now x) (s\<lparr>tenantProducts := ps\<rparr>)"
    and ps: "set (tenantProducts s) \<subseteq> set ps" "distinct (map tpId ps)"
  shows "catalog_ok (s\<lparr>tenantProducts := ps, productAliases := productAliases s @ [item_alias new t p u now x],
    unknownItems := update_where (pending_item (tenant_ctx t) store i) (close_item act (Some p) u now) (unknownItems s)\<rparr>)"
proof -
  let ?s = "s\<lparr>productAliases := productAliases s @ [item_alias new t p u now x]\<rparr>"
  have x: "x \<in> set (unknownItems s)" "uiTenant x = t" using find_pendingD [OF pending] by auto
  have old: "item_ok ?s y" if "y \<in> set (unknownItems s)" for y
    by (rule item_ok_mono [of s]) (use that ok in \<open>auto simp: catalog_ok_def\<close>)
  have closed: "item_ok ?s (close_item act (Some p) u now x)"
    by (rule resolved_ok [where new = new]) (use act new x old in \<open>auto simp: alias_new_def\<close>)
  have stores: "item_ok (s\<lparr>tenantProducts := ps, productAliases := as\<rparr>) y = item_ok (s\<lparr>productAliases := as\<rparr>) y" for as y
    by (simp add: item_ok_def)
  from close_rows [OF ok pending old closed] append_alias [OF ok new] ps show ?thesis
    by (simp add: catalog_ok_def stores)
qed

lemma move_catalog_ok: "catalog_move t s s' \<Longrightarrow> catalog_ok s \<Longrightarrow> catalog_ok s'"
proof (induction rule: catalog_move.induct)
  case (mv_link store i s x p q new actor now)
  have "s\<lparr>tenantProducts := tenantProducts s\<rparr> = s" by simp
  with mv_link resolved_catalog_ok [OF mv_link(5,1), of Act_linked new p actor now "tenantProducts s"] show ?case
    by (simp add: catalog_ok_def)
next
  case (mv_create store i s x q new actor now)
  then show ?case
    by (intro resolved_catalog_ok) (auto simp: product_new_def catalog_ok_def)
qed (auto intro: fresh_catalog_ok dismissed_catalog_ok)

lemma moves_catalog_ok: "(catalog_move t)\<^sup>*\<^sup>* s s' \<Longrightarrow> catalog_ok s \<Longrightarrow> catalog_ok s'"
  by (induction rule: rtranclp_induct) (auto intro: move_catalog_ok)

lemma step_catalog_ok: "catalog_ok s \<Longrightarrow> catalog_ok (catalog_step op s)"
  using catalog_step_moves [of op s] by (auto intro: moves_catalog_ok)

lemma run_catalog_ok: "catalog_ok s \<Longrightarrow> catalog_ok (catalog_run ops s)"
  by (induction ops arbitrary: s) (auto simp: catalog_run_def step_catalog_ok)

end
