(* ===== verification/CatalogLife.thy ===== *)
theory CatalogLife
  imports CatalogInvariant
begin

text \<open>
  What a run leaves of the rows of the unknown items: an item keeps what was captured and closes at
  most once, aliases and products are only appended, and nothing of another tenant is touched. Hence
  the alias of a resolved item is the one every later capture of its identifier finds.
\<close>

section \<open>The history of a row\<close>

definition item_life :: "uuid set \<Rightarrow> unknown_item \<Rightarrow> unknown_item \<Rightarrow> bool" where
  "item_life T x y \<longleftrightarrow> y = x \<or> uiTenant x \<in> T \<and> uiStatus x = Item_pending \<and>
     (\<exists>act p u now. y = close_item act p u now x)"

definition catalog_extends :: "uuid set \<Rightarrow> catalog_db \<Rightarrow> catalog_db \<Rightarrow> bool" where
  "catalog_extends T s s' \<longleftrightarrow>
     table_extends (item_life T) (\<lambda>x. uiTenant x \<in> T) (unknownItems s) (unknownItems s') \<and>
     table_extends (=) (\<lambda>a. paTenant a \<in> T) (productAliases s) (productAliases s') \<and>
     table_extends (=) (\<lambda>p. tpTenant p \<in> T) (tenantProducts s) (tenantProducts s') \<and>
     productCategories s' = productCategories s \<and> catalogStores s' = catalogStores s"

lemma item_life_refl [simp]: "item_life T x x"
  by (simp add: item_life_def)

lemma item_life_trans: "item_life T x y \<Longrightarrow> item_life T y z \<Longrightarrow> item_life T x z"
  by (auto simp: item_life_def split: if_splits)

lemma item_life_sel:
  "item_life T x y \<Longrightarrow> uiId y = uiId x \<and> item_key y = item_key x \<and> uiEncountered y = uiEncountered x \<and>
     uiContext y = uiContext x \<and> uiCorrelation y = uiCorrelation x \<and> uiStatus x \<le> uiStatus y"
  by (auto simp: item_life_def close_item_def less_eq_resolution_status_def)

lemma catalog_extends_refl [simp]: "catalog_extends T s s"
  by (simp add: catalog_extends_def table_extends_refl)

lemma catalog_extends_trans: "catalog_extends T s s' \<Longrightarrow> catalog_extends T s' s'' \<Longrightarrow> catalog_extends T s s''"
  unfolding catalog_extends_def
  by (elim conjE, intro conjI)
     (rule table_extends_trans [where rel = "item_life T"], auto intro: item_life_trans dest: item_life_sel,
      (rule table_extends_trans [where rel = "(=)"], auto)+)

lemma catalog_extends_mono:
  assumes "catalog_extends T s s'" and "T \<subseteq> U"
  shows "catalog_extends U s s'"
proof -
  have "item_life T x y \<Longrightarrow> item_life U x y" for x y using assms(2) by (auto simp: item_life_def)
  with assms show ?thesis
    unfolding catalog_extends_def by (elim conjE, intro conjI) (auto elim!: table_extends_weaken)
qed

lemma close_life:
  "find (pending_item (tenant_ctx t) store i) xs = Some x \<Longrightarrow> t \<in> T \<Longrightarrow>
     table_extends (item_life T) new xs (update_where (pending_item (tenant_ctx t) store i) (close_item act p u now) xs)"
  by (rule table_extends_update_where) (auto simp: item_life_def dest: pending_itemD)

lemma move_extends_catalog: "catalog_move t s s' \<Longrightarrow> catalog_extends {t} s s'"
proof (induction rule: catalog_move.induct)
  case (mv_fresh store x s)
  then show ?case
    by (auto simp: catalog_extends_def item_new_def item_visible_def table_extends_refl intro!: table_extends_snoc)
next
  case (mv_create store i s x q new actor now)
  then show ?case
    by (auto simp: catalog_extends_def product_new_def table_extends_refl intro!: table_extends_snoc close_life)
qed (auto simp: catalog_extends_def table_extends_refl intro!: table_extends_snoc close_life)

lemma moves_extend: "(catalog_move t)\<^sup>*\<^sup>* s s' \<Longrightarrow> catalog_extends {t} s s'"
  by (induction rule: rtranclp_induct) (auto intro: catalog_extends_trans move_extends_catalog)

definition run_tenants :: "catalog_op list \<Rightarrow> uuid set" where
  "run_tenants ops = {t. Some t \<in> catalog_op_tenant ` set ops}"

lemma step_extends: "catalog_extends {t. catalog_op_tenant op = Some t} s (catalog_step op s)"
  using catalog_step_moves [of op s] by (auto dest: moves_extend intro: catalog_extends_mono)

lemma run_extends_catalog: "catalog_extends (run_tenants ops) s (catalog_run ops s)"
proof (induction ops arbitrary: s)
  case (Cons op ops)
  have "catalog_extends (run_tenants (op # ops)) s (catalog_step op s)"
    using step_extends by (rule catalog_extends_mono) (auto simp: run_tenants_def image_iff)
  moreover have "catalog_extends (run_tenants (op # ops)) (catalog_step op s) (catalog_run ops (catalog_step op s))"
    using Cons.IH by (rule catalog_extends_mono) (auto simp: run_tenants_def)
  ultimately show ?case by (simp add: catalog_run_def catalog_extends_trans)
qed (simp add: catalog_run_def)

section \<open>The alias of a resolved item\<close>

lemma no_clash_unique:
  assumes "sorted_wrt (\<lambda>a b. \<not> alias_clash b a) as" and "a \<in> set as" and "b \<in> set as" and "alias_clash a b"
  shows "a = b"
proof -
  have sym: "alias_clash b a" using assms(4) unfolding alias_clash_def by metis
  from assms(1-3) show ?thesis
    by (induction as) (use assms(4) sym in auto)
qed

text \<open>The store's own alias sorts first, and a store has one active alias of a type and value.\<close>

lemma first_own:
  assumes "a \<in> set xs" and "\<not> k a" and "\<And>b. b \<in> set xs \<Longrightarrow> \<not> k b \<Longrightarrow> b = a"
  shows "\<exists>rest. sort_key k xs = a # rest"
proof (cases "sort_key k xs")
  case Nil
  with assms(1) show ?thesis by (metis set_sort empty_iff set_empty)
next
  case (Cons b rest)
  have members: "set (b # rest) = set xs" using arg_cong [OF Cons, of set] by simp
  have "sorted (map k (b # rest))" using sorted_sort_key [of k xs] by (simp only: Cons)
  moreover from members assms(1) have "a \<in> set (b # rest)" by simp
  ultimately have "k b \<le> k a" by auto
  with assms(2) have "\<not> k b" by simp
  moreover from members have "b \<in> set xs" by auto
  ultimately have "b = a" using assms(3) by simp
  with Cons show ?thesis by simp
qed

lemma alias_hit_own:
  assumes "sorted_wrt (\<lambda>a b. \<not> alias_clash b a) (productAliases s)"
    and "a \<in> set (productAliases s)" and "alias_matches c inp a" and "paStore a = Some (kiStore inp)"
  shows "alias_hit c inp s = Some a"
proof -
  let ?xs = "order_desc paCreated (filter (alias_matches c inp) (productAliases s))"
  have set: "set ?xs = {b \<in> set (productAliases s). alias_matches c inp b}" by (auto simp: order_desc_def)
  have "\<exists>rest. sort_key (\<lambda>a. paStore a = None) ?xs = a # rest"
  proof (rule first_own)
    fix b assume "b \<in> set ?xs" and "\<not> paStore b = None"
    then have "b \<in> set (productAliases s)" "alias_clash b a"
      unfolding set using assms(3,4) by (auto simp: alias_matches_def alias_clash_def)
    with assms(1,2) no_clash_unique show "b = a" by blast
  qed (use assms set in auto)
  then show ?thesis by (auto simp: alias_hit_def)
qed

text \<open>A capture that finds an alias answers with its product and writes nothing.\<close>

lemma capture_hit:
  assumes "alias_hit (tenant_ctx (kiTenant inp)) inp s = Some a"
  shows "captureItem inp i now s = (Inr (Captured_resolved (paProduct a) (paId a)), [], s)"
proof -
  have "succeeds (captureItem_work inp i now (tenant_ctx (kiTenant inp))) s (Captured_resolved (paProduct a) (paId a)) s"
    using assms by (simp add: captureItem_succeeds capture_lookup_def)
  then have "runWithTenantContext (tenant_ctx (kiTenant inp)) (\<lambda>c. as_work (captureItem_work inp i now c)) s =
      (Inr (Captured_resolved (paProduct a) (paId a)), s)"
    by (intro runWithTenantContext_commits) (simp_all add: as_work_Returns)
  then show ?thesis by (simp add: captureItem_def capture_effects_def)
qed

lemma resolved_item_captured:
  assumes "catalog_ok s" and "x \<in> set (unknownItems s)" and "uiStatus x = Item_resolved"
    and "kiTenant inp = uiTenant x" and "kiStore inp = uiStore x" and "kiType inp = uiType x" and "kiValue inp = uiValue x"
  shows "\<exists>a. resolves_item a x \<and> captureItem inp i now s = (Inr (Captured_resolved (paProduct a) (paId a)), [], s)"
proof -
  from assms(1-3) obtain a where a: "a \<in> set (productAliases s)" "resolves_item a x"
    by (auto simp: catalog_ok_def item_ok_def)
  have "alias_hit (tenant_ctx (kiTenant inp)) inp s = Some a"
    using assms a by (intro alias_hit_own) (auto simp: catalog_ok_def alias_matches_def resolves_item_def)
  with a(2) capture_hit show ?thesis by blast
qed

end
