(* ===== verification/CatalogTheorems.thy ===== *)
theory CatalogTheorems
  imports CatalogLife "HOL-Library.Code_Target_Nat" "HOL-Library.Code_Target_Int"
begin

text \<open>
  The properties of the unknown items and their reconciliation: the operations evaluated on each
  branch, then the properties, each with a run of a small shop that meets its hypotheses.
\<close>

section \<open>The operations, branch by branch\<close>

lemma dismiss_run:
  "dismissUnknownItem t store i u now s =
     (case find (pending_item (tenant_ctx t) store i) (unknownItems s) of
        Some x \<Rightarrow> (Inr (close_item Act_dismissed None u now x), [Count_resolved Act_dismissed],
          s\<lparr>unknownItems := update_where (pending_item (tenant_ctx t) store i) (close_item Act_dismissed None u now) (unknownItems s)\<rparr>)
      | None \<Rightarrow> (Inl (if find_item (tenant_ctx t) store i s = None then not_found_404 else already_reconciled_409), [], s))"
  by (simp add: dismissUnknownItem_def runWithTenantContext_def as_work_def dismiss_work_def act_open_simps update_pending_def
      update_where_no_match split: option.split)

lemma link_run:
  "linkUnknownItem inp new now s =
     (let c = tenant_ctx (lkTenant inp); found = (\<lambda>r. (Inr r, link_effects inp r, s))
      in case find_item c (lkStore inp) (lkItem inp) s of
           None \<Rightarrow> found Link_not_found
         | Some x \<Rightarrow>
             if uiStatus x \<noteq> Item_pending then found Link_already
             else (case find_product c (lkProduct inp) (lkTenant inp) s of
                 None \<Rightarrow> found Link_not_found
               | Some q \<Rightarrow>
                   if tpRetired q \<noteq> None then found Link_target_unavailable
                   else (case insert_alias c (item_alias new (lkTenant inp) (lkProduct inp) (lkActor inp) now x) s of
                       Inl e \<Rightarrow> if e = unique_violation then found Link_alias_conflict else (Inl e, [], s)
                     | Inr (u, s1) \<Rightarrow>
                         (Inr (Link_ok (close_item Act_linked (Some (lkProduct inp)) (lkActor inp) now x)), [Count_resolved Act_linked],
                          s1\<lparr>unknownItems := update_where (pending_item c (lkStore inp) (lkItem inp))
                            (close_item Act_linked (Some (lkProduct inp)) (lkActor inp) now) (unknownItems s)\<rparr>))))"
proof (cases "find_item (tenant_ctx (lkTenant inp)) (lkStore inp) (lkItem inp) s")
  case (Some x)
  then show ?thesis
    using find_pending_of_item [OF Some]
    by (auto simp: linkUnknownItem_def runWithTenantContext_def as_work_def link_work_def act_open_simps act_catch_def
        update_pending_def insert_alias_Inr link_effects_def Let_def split: option.split sum.split)
qed (simp add: linkUnknownItem_def runWithTenantContext_def as_work_def link_work_def act_open_simps)

lemma insert_errors:
  "insert_product c q s \<noteq> Inl alias_conflict_sentinel" "insert_alias c a s \<noteq> Inl alias_conflict_sentinel"
  by (auto simp: insert_product_def insert_alias_def sql_check_def split: option.splits if_splits)

lemma create_run:
  "createProductFromUnknownItem inp ids now s =
     (let c = tenant_ctx (cnTenant inp); found = (\<lambda>r. (Inr r, create_effects inp r, s))
      in case find_item c (cnStore inp) (cnItem inp) s of
           None \<Rightarrow> found Create_not_found
         | Some x \<Rightarrow>
             if uiStatus x \<noteq> Item_pending then found Create_already
             else (case insert_product c (created_product inp (ids 0)) s of
                 Inl e \<Rightarrow> (Inl e, [], s)
               | Inr (u, s1) \<Rightarrow>
                   (case insert_alias c (item_alias (ids 1) (cnTenant inp) (ids 0) (cnActor inp) now x) s1 of
                      Inl e \<Rightarrow> if e = unique_violation then found Create_alias_conflict else (Inl e, [], s)
                    | Inr (u, s2) \<Rightarrow>
                        (Inr (Create_ok (close_item Act_created (Some (ids 0)) (cnActor inp) now x) (ids 0)), [Count_resolved Act_created],
                         s2\<lparr>unknownItems := update_where (pending_item c (cnStore inp) (cnItem inp))
                           (close_item Act_created (Some (ids 0)) (cnActor inp) now) (unknownItems s)\<rparr>))))"
proof (cases "find_item (tenant_ctx (cnTenant inp)) (cnStore inp) (cnItem inp) s")
  case (Some x)
  then show ?thesis
    using find_pending_of_item [OF Some] insert_errors
    by (auto simp: createProductFromUnknownItem_def runWithTenantContext_def as_work_def create_work_def act_open_simps act_catch_def
        update_pending_def insert_alias_Inr insert_product_Inr create_effects_def Let_def split: option.split sum.split)
qed (simp add: createProductFromUnknownItem_def runWithTenantContext_def as_work_def create_work_def act_open_simps)

lemma closed_in_table:
  "find (pending_item c store i) xs = Some x \<Longrightarrow> f x \<in> set (update_where (pending_item c store i) f xs)"
  by (drule find_SomeD) (auto simp: set_update_where)

text \<open>A confirmed reconciliation leaves the item it answers with in the table, resolved.\<close>

lemma link_confirmed:
  assumes "tenantAdminLinkUnknownItem req i p new now s = (Response_ok n v, effs, s')"
  shows "\<exists>y \<in> set (unknownItems s'). v = toReviewQueueItem y True \<and> uiStatus y = Item_resolved \<and> uiProduct y = Some p"
proof -
  from assms obtain t store u where req: "admin_context req = Inr (t, store, u)"
    by (auto simp: tenantAdminLinkUnknownItem_def split: sum.splits)
  let ?inp = "\<lparr>lkTenant = t, lkStore = store, lkItem = i, lkProduct = p, lkActor = u\<rparr>"
  have run: "linkUnknownItem ?inp new now s = (r, effs', s'') \<Longrightarrow> r = Inr (Link_ok y) \<Longrightarrow>
      y \<in> set (unknownItems s'') \<and> uiStatus y = Item_resolved \<and> uiProduct y = Some p" for r effs' s'' y
    by (auto simp: link_run Let_def closed_in_table find_pending_of_item split: option.splits if_splits sum.splits)
  from assms req show ?thesis
    by (auto simp: tenantAdminLinkUnknownItem_def already_reconciled_409_def not_found_404_def dest!: run
        split: prod.splits sum.splits link_result.splits)
qed

lemma create_confirmed:
  assumes "tenantAdminCreateProductFromUnknownItem req i b ids now s = (Response_ok n v, effs, s')"
  shows "\<exists>y \<in> set (unknownItems s'). v = toReviewQueueItem y True \<and> uiStatus y = Item_resolved \<and> uiProduct y = Some (ids 0)"
proof -
  from assms obtain t store u where req: "admin_context req = Inr (t, store, u)" and b: "CreateProductFromUnknownItemRequestSchema b"
    by (auto simp: tenantAdminCreateProductFromUnknownItem_def split: sum.splits if_splits)
  let ?inp = "\<lparr>cnTenant = t, cnStore = store, cnItem = i, cnActor = u, cnName = js_trim (cpName b), cnTax = js_trim (cpTax b),
    cnCategory = cpCategory b\<rparr>"
  have run: "createProductFromUnknownItem ?inp ids now s = (r, effs', s'') \<Longrightarrow> r = Inr (Create_ok y p) \<Longrightarrow>
      y \<in> set (unknownItems s'') \<and> uiStatus y = Item_resolved \<and> uiProduct y = Some (ids 0)" for r effs' s'' y p
    by (auto simp: create_run Let_def closed_in_table find_pending_of_item split: option.splits if_splits sum.splits)
  from assms req b show ?thesis
    by (auto simp: tenantAdminCreateProductFromUnknownItem_def already_reconciled_409_def not_found_404_def dest!: run
        split: prod.splits sum.splits create_result.splits)
qed

text \<open>A resolved item is final.\<close>

lemma resolved_stays:
  assumes "x \<in> set (unknownItems s)" and "uiStatus x = Item_resolved"
  shows "x \<in> set (unknownItems (catalog_run ops s))"
proof -
  have "table_extends (item_life (run_tenants ops)) (\<lambda>x. uiTenant x \<in> run_tenants ops) (unknownItems s) (unknownItems (catalog_run ops s))"
    using run_extends_catalog [of ops s] by (simp add: catalog_extends_def)
  from table_extends_rowD [OF this assms(1)] assms(2) show ?thesis by (auto simp: item_life_def)
qed

lemma confirmed_ok:
  assumes "catalog_ok s" and "tenantAdminLinkUnknownItem req item p new now s = (Response_ok n v, effs, s') \<or>
    tenantAdminCreateProductFromUnknownItem req item b ids now s = (Response_ok n v, effs, s')"
  shows "catalog_ok s'"
  using assms(2)
proof
  assume "tenantAdminLinkUnknownItem req item p new now s = (Response_ok n v, effs, s')"
  with step_catalog_ok [OF assms(1), of "Post_link req item p new now"] show ?thesis by simp
next
  assume "tenantAdminCreateProductFromUnknownItem req item b ids now s = (Response_ok n v, effs, s')"
  with step_catalog_ok [OF assms(1), of "Post_create_product req item b ids now"] show ?thesis by simp
qed

section \<open>A small shop\<close>

text \<open>Tenant 1 has the stores 2 and 3 and one product; a till of store 2 scans a barcode it does not know.\<close>

definition tea :: tenant_product where
  "tea = \<lparr>tpId = 40, tpTenant = 1, tpName = ''Tea'', tpCategory = None, tpTax = ''standard'', tpRetired = None, tpCreatedBy = 9\<rparr>"

definition shelf :: catalog_db where
  "shelf = \<lparr>unknownItems = [], productAliases = [], tenantProducts = [tea], productCategories = [], catalogStores = [2, 3]\<rparr>"

definition till :: request_context where
  "till = Some \<lparr>rcUser = Some 9, rcTenant = Some 1, rcStore = Some 2, rcPlatformAdmin = False\<rparr>"

definition back_office :: request_context where
  "back_office = Some \<lparr>rcUser = Some 8, rcTenant = Some 1, rcStore = None, rcPlatformAdmin = False\<rparr>"

definition scan :: capture_item_input where
  "scan = \<lparr>kiTenant = 1, kiStore = 2, kiActor = 9, kiCorrelation = 7, kiType = Barcode, kiValue = ''777'', kiSource = None,
     kiContext = None\<rparr>"

definition scan_external :: capture_item_input where
  "scan_external = scan\<lparr>kiType := External_pos_id, kiSource := Some ''pos''\<rparr>"

definition new_tea :: create_product_body where
  "new_tea = \<lparr>cpName = ''Mint tea'', cpTax = ''standard'', cpCategory = None\<rparr>"

definition seen :: catalog_db where
  "seen = shelf\<lparr>unknownItems := [captured_item scan 60 100, captured_item scan_external 61 110]\<rparr>"

definition linked :: catalog_db where
  "linked = seen\<lparr>unknownItems := [close_item Act_linked (Some 40) 8 200 (captured_item scan 60 100), captured_item scan_external 61 110],
     productAliases := [item_alias 70 1 40 8 200 (captured_item scan 60 100)]\<rparr>"

lemma shelf_ok: "catalog_ok shelf"
  by (simp add: catalog_ok_def shelf_def)

lemma seen_run: "catalog_run [Pos_capture_item till scan 60 100, Pos_capture_item till scan_external 61 110] shelf = seen"
  by code_simp

lemma seen_ok: "catalog_ok seen"
  using run_catalog_ok [OF shelf_ok] seen_run by metis

lemma seen_link: "tenantAdminLinkUnknownItem back_office 60 40 70 200 seen =
    (Response_ok 200 (toReviewQueueItem (close_item Act_linked (Some 40) 8 200 (captured_item scan 60 100)) True),
     [Count_resolved Act_linked], linked)"
  by code_simp

section \<open>Properties\<close>

text \<open>C21: The catalog tables stay well-formed, and no run rewrites history. Whatever captures,
  dismissals, links, creations and reopenings run, in any order: keys stay distinct, a store has at most one
  pending item of an identifier and one active alias that answers for it, a resolved item has the
  alias that resolves it. Every row of before is there afterwards, in place: an item is as it was or
  was pending and is closed, for tenants of the run only; aliases and products are unchanged and only
  appended.\<close>

theorem catalog_books_kept:
  assumes "catalog_ok s"
  shows "catalog_ok (catalog_run ops s) \<and> catalog_extends (run_tenants ops) s (catalog_run ops s)"
  using assms by (simp add: run_catalog_ok run_extends_catalog)

lemma catalog_books_kept_witness:
  "catalog_ok (catalog_run [Post_dismiss back_office 61 300, Post_reopen back_office 61 5 62 400] linked) \<and>
   map uiStatus (unknownItems (catalog_run [Post_dismiss back_office 61 300, Post_reopen back_office 61 5 62 400] linked)) =
     [Item_resolved, Item_dismissed, Item_pending]"
proof
  have "catalog_run [Post_link back_office 60 40 70 200] seen = linked" by (simp add: catalog_run_def seen_link)
  with run_catalog_ok [OF seen_ok] have "catalog_ok linked" by metis
  from catalog_books_kept [OF this] show "catalog_ok (catalog_run [Post_dismiss back_office 61 300, Post_reopen back_office 61 5 62 400] linked)"
    by blast
  show "map uiStatus (unknownItems (catalog_run [Post_dismiss back_office 61 300, Post_reopen back_office 61 5 62 400] linked)) =
     [Item_resolved, Item_dismissed, Item_pending]" by code_simp
qed

text \<open>C22: A reconciled identifier answers. Once a link or a creation of a product was confirmed for
  an item, every later capture of its identifier at its store, whatever ran in between, is answered
  200 with that product, writes no row and counts nothing.\<close>

theorem resolution_answers_captures:
  assumes "catalog_ok s"
    and "tenantAdminLinkUnknownItem req item p new now s = (Response_ok n v, effs, s') \<or>
      tenantAdminCreateProductFromUnknownItem req item b ids now s = (Response_ok n v, effs, s')"
    and "PosCaptureItemRequestSchema k" and "kiType k = rvType v" and "kiValue k = rvValue v"
    and "pos_context pos = Inr (rvTenant v, rvStore v, u)"
  shows "\<exists>q a. rvProduct v = Some (Some q) \<and>
    posCaptureItem pos k i later (catalog_run ops s') = (Response_ok 200 (Captured_resolved q a), [], catalog_run ops s')"
proof -
  obtain y q where y: "y \<in> set (unknownItems s')" "v = toReviewQueueItem y True" "uiStatus y = Item_resolved" "uiProduct y = Some q"
    using assms(2) link_confirmed create_confirmed by metis
  let ?k = "k\<lparr>kiTenant := rvTenant v, kiStore := rvStore v, kiActor := u\<rparr>"
  have ok: "catalog_ok (catalog_run ops s')" using run_catalog_ok [OF confirmed_ok [OF assms(1,2)]] .
  obtain a where "resolves_item a y"
    "captureItem ?k i later (catalog_run ops s') = (Inr (Captured_resolved (paProduct a) (paId a)), [], catalog_run ops s')"
    using resolved_item_captured [OF ok resolved_stays [OF y(1,3)] y(3), of ?k i later] assms(4,5) y(2)
    by (auto simp: toReviewQueueItem_def)
  with y assms(3,6) show ?thesis
    by (auto simp: posCaptureItem_def resolves_item_def toReviewQueueItem_def)
qed

lemma resolution_answers_captures_witness:
  "\<exists>q a. posCaptureItem till scan 63 500 (catalog_run [Post_dismiss back_office 61 300] linked) =
    (Response_ok 200 (Captured_resolved q a), [], catalog_run [Post_dismiss back_office 61 300] linked)"
proof -
  have link: "tenantAdminLinkUnknownItem back_office 60 40 70 200 seen =
      (Response_ok 200 (toReviewQueueItem (close_item Act_linked (Some 40) 8 200 (captured_item scan 60 100)) True),
       [Count_resolved Act_linked], linked) \<or>
    tenantAdminCreateProductFromUnknownItem back_office 60 new_tea (\<lambda>k. 80 + k) 200 seen =
      (Response_ok 200 (toReviewQueueItem (close_item Act_linked (Some 40) 8 200 (captured_item scan 60 100)) True),
       [Count_resolved Act_linked], linked)"
    using seen_link by simp
  have "PosCaptureItemRequestSchema scan" by code_simp
  from resolution_answers_captures [OF seen_ok link this, of till 9 63 500 "[Post_dismiss back_office 61 300]"] show ?thesis
    by (auto simp: toReviewQueueItem_def captured_item_def scan_def pos_context_def till_def)
qed

text \<open>An item of an external POS cannot be reconciled. Its alias would carry a store, which the
  table forbids for such identifiers, so linking it to any product that is offered, and creating a
  product from it, always ends in a 500 that leaves every table as it was.\<close>

lemma external_item_unreconcilable:
  assumes "admin_context req = Inr (t, store, u)" and "find_item (tenant_ctx t) store item s = Some x"
    and "uiStatus x = Item_pending" and "uiType x = External_pos_id"
    and "find_product (tenant_ctx t) p t s = Some q" and "tpRetired q = None"
    and "CreateProductFromUnknownItemRequestSchema b"
  shows "tenantAdminLinkUnknownItem req item p new now s = (Response_error 500 ''internal_error'', [], s) \<and>
    tenantAdminCreateProductFromUnknownItem req item b ids now s = (Response_error 500 ''internal_error'', [], s)"
proof -
  have refused: "insert_alias (tenant_ctx t) (item_alias i t r actor now x) s1 = Inl check_violation" for i r actor s1
    using assms(4) by (simp add: insert_alias_def sql_check_def alias_checks_def)
  then show ?thesis
    using assms
    by (simp add: tenantAdminLinkUnknownItem_def link_run tenantAdminCreateProductFromUnknownItem_def create_run Let_def
        split: sum.split)
qed

lemma external_item_unreconcilable_witness:
  "tenantAdminLinkUnknownItem back_office 61 40 70 200 seen = (Response_error 500 ''internal_error'', [], seen) \<and>
   tenantAdminCreateProductFromUnknownItem back_office 61 new_tea (\<lambda>k. 80 + k) 200 seen = (Response_error 500 ''internal_error'', [], seen)"
  by (rule external_item_unreconcilable [where t = 1 and store = None and u = 8 and x = "captured_item scan_external 61 110" and q = tea])
     code_simp+

text \<open>Two captures at once duplicate an item. The lookup and the insert of a capture are two
  statements with no unique index behind them: when both of two captures of one identifier looked
  before either inserted, both are answered that a new item was captured, and the store has two
  pending items of the identifier.\<close>

lemma concurrent_captures_duplicate:
  assumes "capture_lookup (tenant_ctx (kiTenant inp)) inp s = Found_nothing" and "i \<noteq> j"
    and "item_new (tenant_ctx (kiTenant inp)) (Some (kiStore inp)) (captured_item inp i now) s"
    and "item_new (tenant_ctx (kiTenant inp)) (Some (kiStore inp)) (captured_item inp j later) s"
  shows "\<exists>s1 s2. succeeds (capture_outcome inp i now (tenant_ctx (kiTenant inp)) (capture_lookup (tenant_ctx (kiTenant inp)) inp s)) s
      (Captured_unknown (captured_item inp i now) True) s1 \<and>
    succeeds (capture_outcome inp j later (tenant_ctx (kiTenant inp)) (capture_lookup (tenant_ctx (kiTenant inp)) inp s)) s1
      (Captured_unknown (captured_item inp j later) True) s2 \<and>
    \<not> distinct (pending_keys s2) \<and>
    length (filter (\<lambda>x. uiStatus x = Item_pending \<and> same_identifier x (kiTenant inp) (kiStore inp) (kiType inp) (kiValue inp) (kiSource inp))
      (unknownItems s2)) = 2"
proof -
  let ?c = "tenant_ctx (kiTenant inp)"
  let ?s1 = "s\<lparr>unknownItems := unknownItems s @ [captured_item inp i now]\<rparr>"
  let ?s2 = "s\<lparr>unknownItems := unknownItems s @ [captured_item inp i now, captured_item inp j later]\<rparr>"
  have "pending_sibling ?c (Some (kiStore inp)) (kiTenant inp) (kiStore inp) (kiType inp) (kiValue inp) (kiSource inp) s = None"
    using assms(1) by (auto simp: capture_lookup_def split: option.splits)
  then have none: "filter (\<lambda>x. uiStatus x = Item_pending \<and>
      same_identifier x (kiTenant inp) (kiStore inp) (kiType inp) (kiValue inp) (kiSource inp)) (unknownItems s) = []"
    unfolding no_pending_sibling by (auto simp: filter_empty_conv item_visible_def same_identifier_def)
  have second: "item_new ?c (Some (kiStore inp)) (captured_item inp j later) ?s1"
    using assms(2,4) by (simp add: item_new_def captured_item_def)
  have "succeeds (capture_outcome inp i now ?c Found_nothing) s (Captured_unknown (captured_item inp i now) True) ?s1"
    using assms(3) by (simp add: capture_outcome_def succeeds_bind run_simps)
  moreover have "succeeds (capture_outcome inp j later ?c Found_nothing) ?s1 (Captured_unknown (captured_item inp j later) True) ?s2"
    using second by (simp add: capture_outcome_def succeeds_bind run_simps)
  moreover have "\<not> distinct (pending_keys ?s2)" by (simp add: captured_item_def)
  moreover have "length (filter (\<lambda>x. uiStatus x = Item_pending \<and>
      same_identifier x (kiTenant inp) (kiStore inp) (kiType inp) (kiValue inp) (kiSource inp)) (unknownItems ?s2)) = 2"
    using none by (simp add: captured_item_def same_identifier_def)
  ultimately show ?thesis unfolding assms(1) by blast
qed

lemma concurrent_captures_duplicate_witness:
  "\<exists>s1 s2. succeeds (capture_outcome scan 60 100 (tenant_ctx 1) (capture_lookup (tenant_ctx 1) scan shelf)) shelf
      (Captured_unknown (captured_item scan 60 100) True) s1 \<and>
    succeeds (capture_outcome scan 61 101 (tenant_ctx 1) (capture_lookup (tenant_ctx 1) scan shelf)) s1
      (Captured_unknown (captured_item scan 61 101) True) s2 \<and> \<not> distinct (pending_keys s2)"
proof -
  have "kiTenant scan = 1" by (simp add: scan_def)
  moreover have "capture_lookup (tenant_ctx 1) scan shelf = Found_nothing" by code_simp
  moreover have "item_new (tenant_ctx 1) (Some (kiStore scan)) (captured_item scan 60 100) shelf" by code_simp
  moreover have "item_new (tenant_ctx 1) (Some (kiStore scan)) (captured_item scan 61 101) shelf" by code_simp
  ultimately show ?thesis using concurrent_captures_duplicate [of scan shelf 60 61 100 101] by auto
qed

text \<open>C23: An item out of scope does not exist. For a principal of a tenant, or of one of its stores, an
  id whose item belongs to another tenant or store is answered exactly as an id that no item has:
  inspect, dismiss, link, create and reopen say 404, write nothing, count nothing and audit nothing,
  and a bulk dismissal reports it as not found and dismisses the others as if it were not there.\<close>

theorem out_of_scope_is_absent:
  assumes "admin_context req = Inr (t, store, u)"
    and "\<And>x. x \<in> set (unknownItems s) \<Longrightarrow> uiId x = item \<Longrightarrow> \<not> item_visible (tenant_ctx t) store x"
  shows "tenantAdminInspectUnknownItem req item s = Response_error 404 ''not_found'' \<and>
    tenantAdminDismissUnknownItem req item now s = (Response_error 404 ''not_found'', [], s) \<and>
    tenantAdminLinkUnknownItem req item p new now s = (Response_error 404 ''not_found'', [], s) \<and>
    (CreateProductFromUnknownItemRequestSchema b \<longrightarrow>
      tenantAdminCreateProductFromUnknownItem req item b ids now s = (Response_error 404 ''not_found'', [], s)) \<and>
    tenantAdminReopenUnknownItem req item corr new now s = (Response_error 404 ''not_found'', [], s) \<and>
    bulkDismissUnknownItems t store u corr now (item # is) s =
      (case bulkDismissUnknownItems t store u corr now is s of
         (rest, effs, s') \<Rightarrow> (map_sum id (\<lambda>outs. (item, Out_not_found) # outs) rest, effs, s'))"
proof -
  have none: "find_item (tenant_ctx t) store item s = None"
    using assms(2) by (auto simp: find_item_def find_None_iff)
  have idle: "find (pending_item (tenant_ctx t) store item) (unknownItems s) = None"
    using assms(2) by (auto simp: pending_item_def find_None_iff)
  have dismissed: "dismissUnknownItem t store item u now s = (Inl not_found_404, [], s)"
    using none idle by (simp add: dismiss_run)
  show ?thesis
  proof (intro conjI impI)
    show "tenantAdminInspectUnknownItem req item s = Response_error 404 ''not_found''"
      using assms(1) none
      by (auto simp: tenantAdminInspectUnknownItem_def reader_context_def admin_context_def findByIdForTenant_def not_found_404_def
          statusToCode_def split: option.splits)
    show "tenantAdminDismissUnknownItem req item now s = (Response_error 404 ''not_found'', [], s)"
      using assms(1) dismissed by (simp add: tenantAdminDismissUnknownItem_def not_found_404_def statusToCode_def)
    show "tenantAdminLinkUnknownItem req item p new now s = (Response_error 404 ''not_found'', [], s)"
      using assms(1) none
      by (simp add: tenantAdminLinkUnknownItem_def link_run Let_def link_effects_def not_found_404_def statusToCode_def)
    show "tenantAdminCreateProductFromUnknownItem req item b ids now s = (Response_error 404 ''not_found'', [], s)"
      if "CreateProductFromUnknownItemRequestSchema b"
      using assms(1) none that
      by (simp add: tenantAdminCreateProductFromUnknownItem_def create_run Let_def create_effects_def not_found_404_def statusToCode_def)
    show "tenantAdminReopenUnknownItem req item corr new now s = (Response_error 404 ''not_found'', [], s)"
      using assms(1) none
      by (simp add: tenantAdminReopenUnknownItem_def reopenUnknownItem_def runWithTenantContext_def as_work_def reopen_work_def
          act_open_simps reopen_effects_def Let_def not_found_404_def statusToCode_def)
    show "bulkDismissUnknownItems t store u corr now (item # is) s =
        (case bulkDismissUnknownItems t store u corr now is s of
           (rest, effs, s') \<Rightarrow> (map_sum id (\<lambda>outs. (item, Out_not_found) # outs) rest, effs, s'))"
      using dismissed by (simp add: bulk_outcome_def not_found_404_def split: prod.split)
  qed
qed

text \<open>The item of store 2, seen from store 3.\<close>

lemma out_of_scope_is_absent_witness:
  "tenantAdminDismissUnknownItem (Some \<lparr>rcUser = Some 8, rcTenant = Some 1, rcStore = Some 3, rcPlatformAdmin = False\<rparr>) 60 300 seen =
    (Response_error 404 ''not_found'', [], seen)"
proof -
  let ?req = "Some \<lparr>rcUser = Some 8, rcTenant = Some 1, rcStore = Some 3, rcPlatformAdmin = False\<rparr>"
  have "admin_context ?req = Inr (1, Some 3, 8)" by (simp add: admin_context_def)
  moreover have "\<not> item_visible (tenant_ctx 1) (Some 3) x" if "x \<in> set (unknownItems seen)" for x
    using that by (auto simp: seen_def captured_item_def scan_def scan_external_def item_visible_def)
  ultimately show ?thesis using out_of_scope_is_absent [of ?req 1 "Some 3" 8 seen 60] by blast
qed

text \<open>The outcome of an item of a selection, read off the tables before the batch.\<close>

definition bulk_expected :: "tenant_context \<Rightarrow> uuid option \<Rightarrow> catalog_db \<Rightarrow> uuid \<Rightarrow> dismiss_outcome" where
  "bulk_expected c store s i =
     (if find (pending_item c store i) (unknownItems s) \<noteq> None then Out_dismissed
      else (case find_item c store i s of None \<Rightarrow> Out_not_found | Some x \<Rightarrow> Out_already (Some (uiStatus x))))"

abbreviation selected_item :: "tenant_context \<Rightarrow> uuid option \<Rightarrow> uuid list \<Rightarrow> unknown_item \<Rightarrow> bool" where
  "selected_item c store is x \<equiv> item_visible c store x \<and> uiId x \<in> set is \<and> uiStatus x = Item_pending"

lemma dismiss_outcome_expected:
  assumes "dismissUnknownItem t store i u now s = (r, effs, s')"
  shows "bulk_outcome t store i s' r = Inr (bulk_expected (tenant_ctx t) store s i)"
    and "effs = (if bulk_expected (tenant_ctx t) store s i = Out_dismissed then [Count_resolved Act_dismissed] else [])"
    and "s' = s\<lparr>unknownItems :=
      update_where (pending_item (tenant_ctx t) store i) (close_item Act_dismissed None u now) (unknownItems s)\<rparr>"
  using assms
  by (auto simp: dismiss_run bulk_outcome_def bulk_expected_def not_found_404_def already_reconciled_409_def findByIdForTenant_def
      update_where_no_match split: option.splits if_splits)

lemma expected_after_other:
  assumes "i \<noteq> j"
  shows "bulk_expected c store (s\<lparr>unknownItems :=
      update_where (pending_item c store i) (close_item Act_dismissed None u now) (unknownItems s)\<rparr>) j = bulk_expected c store s j"
proof -
  have "find q (update_where (pending_item c store i) (close_item Act_dismissed None u now) xs) = find q xs"
    if "\<And>x. q x \<Longrightarrow> uiId x = j" for q xs
    using assms that by (intro find_update_where_other) (metis pending_item_def close_item_sel(1))
  from this [of "pending_item c store j"] this [of "\<lambda>x. item_visible c store x \<and> uiId x = j"] show ?thesis
    by (simp add: bulk_expected_def find_item_def pending_item_def)
qed

text \<open>A bulk dismissal is one update of the selection. For distinct ids, dismissing the items one
  after the other is one statement on all of them: exactly the pending ones in scope are closed, each
  id is answered, in order, by what the tables said before the batch, and the batch counts and audits each dismissed item
  once, and no other.\<close>

lemma bulk_is_one_update:
  assumes "distinct is"
  shows "bulkDismissUnknownItems t store u corr now is s =
    (Inr (map (\<lambda>i. (i, bulk_expected (tenant_ctx t) store s i)) is),
     concat (map (\<lambda>i. if bulk_expected (tenant_ctx t) store s i = Out_dismissed
       then [Count_resolved Act_dismissed, bulk_audit t store u corr i] else []) is),
     s\<lparr>unknownItems := update_where (selected_item (tenant_ctx t) store is) (close_item Act_dismissed None u now) (unknownItems s)\<rparr>)"
  using assms
proof (induction "is" arbitrary: s)
  case Nil
  show ?case by (simp add: update_where_none)
next
  case (Cons i "is")
  let ?f = "close_item Act_dismissed None u now"
  let ?s = "s\<lparr>unknownItems := update_where (pending_item (tenant_ctx t) store i) ?f (unknownItems s)\<rparr>"
  obtain r effs s' where run: "dismissUnknownItem t store i u now s = (r, effs, s')"
    by (cases "dismissUnknownItem t store i u now s")
  note d = dismiss_outcome_expected [OF run]
  note answer = d(1) [unfolded d(3)]
  have same: "bulk_expected (tenant_ctx t) store ?s j = bulk_expected (tenant_ctx t) store s j" if "j \<in> set is" for j
    using that Cons.prems by (intro expected_after_other) auto
  have "(\<lambda>x. pending_item (tenant_ctx t) store i x \<or> selected_item (tenant_ctx t) store is x) =
      selected_item (tenant_ctx t) store (i # is)"
    by (rule ext) (auto simp: pending_item_def)
  then have table: "update_where (selected_item (tenant_ctx t) store is) ?f (update_where (pending_item (tenant_ctx t) store i) ?f xs) =
      update_where (selected_item (tenant_ctx t) store (i # is)) ?f xs" for xs
    by (subst update_where_twice) auto
  from Cons.IH [of ?s] Cons.prems show ?case
    by (simp add: run answer d(2,3) same table cong: map_cong)
qed

lemma bulk_is_one_update_witness:
  "bulkDismissUnknownItems 1 None 8 5 300 [61, 99, 60] linked =
    (Inr [(61, Out_dismissed), (99, Out_not_found), (60, Out_already (Some Item_resolved))],
     [Count_resolved Act_dismissed, bulk_audit 1 None 8 5 61],
     linked\<lparr>unknownItems := update_where (selected_item (tenant_ctx 1) None [61, 99, 60]) (close_item Act_dismissed None 8 300)
       (unknownItems linked)\<rparr>)"
proof -
  have "bulk_expected (tenant_ctx 1) None linked 61 = Out_dismissed" "bulk_expected (tenant_ctx 1) None linked 99 = Out_not_found"
    "bulk_expected (tenant_ctx 1) None linked 60 = Out_already (Some Item_resolved)"
    by code_simp+
  then show ?thesis using bulk_is_one_update [of "[61, 99, 60]" 1 None 8 5 300 linked] by simp
qed

end
