(* ===== verification/ErpTables.thy ===== *)
theory ErpTables
  imports SalesHttp Catalog
begin

text \<open>
  The tables of the posting of sales to the ERP: the posting status of a sale or of one of its
  terminal events, and the mappings of products and stores to their counterparts
  (packages/db/src/schema/catalog and migrations 0017 to 0019), beside the sale facts. Identity values
  are drawn from \<open>nextSequence\<close>; a rolled back transaction leaves no gap here.
\<close>

section \<open>Tables\<close>

datatype posting_kind = Sale_post | Reversal

definition kind_text :: "posting_kind \<Rightarrow> string" where
  "kind_text k = (case k of Sale_post \<Rightarrow> ''sale_post'' | Reversal \<Rightarrow> ''reversal'')"

datatype posting_state = Ps_pending | Ps_posted | Ps_transient | Ps_rejected

record erp_posting =
  epId :: uuid
  epTenant :: uuid
  epStore :: uuid
  epSale :: uuid
  epKind :: posting_kind
  epRef :: uuid
  epSource :: string
  epExternal :: string
  epHash :: string
  epStatus :: posting_state
  epDocument :: "string option"
  epCategory :: "string option"
  epRetries :: nat
  epSequence :: nat
  epUpdated :: timestamptz
  epCorrelation :: "uuid option"

datatype map_state = Map_suggested | Map_confirmed

datatype suggestion_source = From_barcode | From_item_code | From_manual

record item_mapping =
  imId :: uuid
  imTenant :: uuid
  imProduct :: uuid
  imRef :: string
  imState :: map_state
  imSource :: suggestion_source
  imSuggestedBy :: "uuid option"
  imSuggestedAt :: timestamptz
  imConfirmedBy :: "uuid option"
  imConfirmedAt :: "timestamptz option"
  imVersion :: nat
  imRetired :: "timestamptz option"

datatype map_purpose = For_stock | For_returns

record warehouse_mapping =
  wmId :: uuid
  wmTenant :: uuid
  wmStore :: uuid
  wmPurpose :: map_purpose
  wmRef :: string
  wmSetBy :: "uuid option"
  wmSetAt :: timestamptz
  wmVersion :: nat
  wmRetired :: "timestamptz option"

record erp_db =
  erpSales :: sales_db
  erpProducts :: "tenant_product list"
  postings :: "erp_posting list"
  itemMaps :: "item_mapping list"
  warehouseMaps :: "warehouse_mapping list"
  nextSequence :: nat

section \<open>Constraints\<close>

text \<open>\<open>payload_hash ~ '^[a-f0-9]{64}$'\<close>\<close>

definition hash_ok :: "string \<Rightarrow> bool" where
  "hash_ok h \<longleftrightarrow> length h = 64 \<and> list_all (\<lambda>c. is_digit c \<or> CHR ''a'' \<le> c \<and> c \<le> CHR ''f'') h"

definition erp_checks :: "erp_posting \<Rightarrow> bool" where
  "erp_checks x \<longleftrightarrow> hash_ok (epHash x) \<and> (epStatus x = Ps_posted \<longleftrightarrow> epDocument x \<noteq> None)"

definition item_map_checks :: "item_mapping \<Rightarrow> bool" where
  "item_map_checks x \<longleftrightarrow> length_between 1 140 (imRef x) \<and> 1 \<le> imVersion x \<and>
     (if imState x = Map_confirmed then imConfirmedBy x \<noteq> None \<and> imConfirmedAt x \<noteq> None
      else imConfirmedBy x = None \<and> imConfirmedAt x = None)"

definition warehouse_map_checks :: "warehouse_mapping \<Rightarrow> bool" where
  "warehouse_map_checks x \<longleftrightarrow> length_between 1 180 (wmRef x) \<and> 1 \<le> wmVersion x"

text \<open>A column or parameter of type \<open>integer\<close>.\<close>

definition int4_in :: "nat \<Rightarrow> exn + nat" where
  "int4_in n = (if n < 2 ^ 31 then Inr n else Inl numeric_overflow)"

section \<open>Statements\<close>

text \<open>
  \<open>INSERT ... ON CONFLICT (tenant_id, source_ref_id) DO NOTHING RETURNING id\<close>: the row has drawn its
  sequence before the conflict is seen.
\<close>

definition store_posting :: "tenant_context \<Rightarrow> erp_posting \<Rightarrow> erp_db \<Rightarrow> exn + (bool \<times> erp_db)" where
  "store_posting c row s =
     (case sql_check (rls_tenant c (epTenant row)) (Pg_error ''42501'') (sql_check (erp_checks row) check_violation None) of
        Some e \<Rightarrow> Inl e
      | None \<Rightarrow>
          if (epTenant row, epRef row) \<in> (\<lambda>y. (epTenant y, epRef y)) ` set (postings s) then Inr (False, s)
          else case sql_check (epId row \<notin> epId ` set (postings s)) unique_violation
                   (sql_check (store_exists (epStore row) (erpSales s)) fk_violation
                   (sql_check ((epSale row, epTenant row, epStore row) \<in> sale_scope ` set (saleRows (erpSales s))) fk_violation None)) of
                 Some e \<Rightarrow> Inl e
               | None \<Rightarrow> Inr (True, s\<lparr>postings := postings s @ [row]\<rparr>))"

text \<open>\<open>nextval\<close> of the identity column.\<close>

definition draw_sequence :: "erp_db \<Rightarrow> exn + (nat \<times> erp_db)" where
  "draw_sequence s = Inr (nextSequence s, s\<lparr>nextSequence := nextSequence s + 1\<rparr>)"

definition insert_posting :: "tenant_context \<Rightarrow> erp_posting \<Rightarrow> erp_db \<Rightarrow> exn + (bool \<times> erp_db)" where
  "insert_posting c x s = sql_bind (draw_sequence s) (\<lambda>(n, s'). store_posting c (x\<lparr>epSequence := n\<rparr>) s')"

definition find_posting :: "tenant_context \<Rightarrow> uuid \<Rightarrow> erp_db \<Rightarrow> erp_posting option" where
  "find_posting c i s = find (\<lambda>x. rls_tenant c (epTenant x) \<and> epId x = i) (postings s)"

text \<open>\<open>UPDATE erpnext_posting_status SET ... WHERE id = $1\<close>\<close>

definition update_posting ::
    "tenant_context \<Rightarrow> uuid \<Rightarrow> (erp_posting \<Rightarrow> erp_posting) \<Rightarrow> erp_db \<Rightarrow> exn + (unit \<times> erp_db)" where
  "update_posting c i f s =
     (let p = (\<lambda>x. rls_tenant c (epTenant x) \<and> epId x = i)
      in if list_all (\<lambda>x. p x \<longrightarrow> erp_checks (f x)) (postings s)
         then Inr ((), s\<lparr>postings := update_where p f (postings s)\<rparr>)
         else Inl check_violation)"

definition item_map_active :: "item_mapping \<Rightarrow> item_mapping \<Rightarrow> bool" where
  "item_map_active x y \<longleftrightarrow> imRetired x = None \<and> imRetired y = None \<and> imTenant x = imTenant y \<and> imProduct x = imProduct y"

definition insert_item_map :: "tenant_context \<Rightarrow> item_mapping \<Rightarrow> erp_db \<Rightarrow> exn + (unit \<times> erp_db)" where
  "insert_item_map c x s =
     (case sql_check (rls_tenant c (imTenant x)) (Pg_error ''42501'')
          (sql_check (item_map_checks x) check_violation
          (sql_check (imId x \<notin> imId ` set (itemMaps s) \<and> \<not> list_ex (item_map_active x) (itemMaps s)) unique_violation
          (sql_check (imProduct x \<in> tpId ` set (erpProducts s)) fk_violation None))) of
        Some e \<Rightarrow> Inl e
      | None \<Rightarrow> Inr ((), s\<lparr>itemMaps := itemMaps s @ [x]\<rparr>))"

definition warehouse_map_active :: "warehouse_mapping \<Rightarrow> warehouse_mapping \<Rightarrow> bool" where
  "warehouse_map_active x y \<longleftrightarrow> wmRetired x = None \<and> wmRetired y = None \<and> wmTenant x = wmTenant y \<and>
     wmStore x = wmStore y \<and> wmPurpose x = wmPurpose y"

definition insert_warehouse_map :: "tenant_context \<Rightarrow> warehouse_mapping \<Rightarrow> erp_db \<Rightarrow> exn + (unit \<times> erp_db)" where
  "insert_warehouse_map c x s =
     (case sql_check (rls_tenant c (wmTenant x)) (Pg_error ''42501'')
          (sql_check (warehouse_map_checks x) check_violation
          (sql_check (wmId x \<notin> wmId ` set (warehouseMaps s) \<and> \<not> list_ex (warehouse_map_active x) (warehouseMaps s)) unique_violation
          (sql_check (store_exists (wmStore x) (erpSales s)) fk_violation None))) of
        Some e \<Rightarrow> Inl e
      | None \<Rightarrow> Inr ((), s\<lparr>warehouseMaps := warehouseMaps s @ [x]\<rparr>))"

section \<open>Savepoints\<close>

text \<open>
  \<open>SAVEPOINT; m; RELEASE\<close> with \<open>ROLLBACK TO SAVEPOINT\<close> before the error is handled: the transaction is
  as it was before \<open>m\<close>, and stays usable.
\<close>

definition act_savepoint :: "('a, 's) action \<Rightarrow> (exn \<Rightarrow> ('a, 's) action) \<Rightarrow> ('a, 's) action" where
  "act_savepoint m h t =
     (case t of
        Tx_aborted \<Rightarrow> (Inl in_failed_transaction, Tx_aborted)
      | Tx_open s \<Rightarrow> (case m (Tx_open s) of (Inl e, t') \<Rightarrow> h e (Tx_open s) | (Inr a, t') \<Rightarrow> (Inr a, t')))"

lemma stays_aborted_savepoint [simp]: "stays_aborted (act_savepoint m h)"
  by (simp add: stays_aborted_def act_savepoint_def)

lemma succeeds_savepoint:
  "succeeds (act_savepoint m h) s a s' \<longleftrightarrow>
     succeeds m s a s' \<or> (\<exists>e t. m (Tx_open s) = (Inl e, t) \<and> succeeds (h e) s a s')"
  by (auto simp: succeeds_def act_savepoint_def split: prod.splits sum.splits)

lemma honest_savepoint [simp]: "honest m \<Longrightarrow> (\<And>e. honest (h e)) \<Longrightarrow> honest (act_savepoint m h)"
  unfolding honest_def act_savepoint_def by (auto split: prod.splits sum.splits)

end
