(* ===== verification/ErpMaps.thy ===== *)
theory ErpMaps
  imports ErpTables
begin

text \<open>
  The mappings that the posting of a sale needs: products to ERP items
  (apps/api/src/catalog/erpnext-item-map) and stores to ERP warehouses
  (apps/api/src/catalog/erpnext-warehouse-map), with their routes. A change names the version it was
  read at; a re-point is a retirement and a new row. Ids of a request arrive parsed; the log lines are
  left out.
\<close>

datatype 'r map_result = Map_ok 'r | Map_not_found | Map_conflict

section \<open>Item mappings\<close>

record suggest_input =
  siTenant :: uuid
  siProduct :: uuid
  siRef :: string
  siActor :: uuid

definition suggested_map :: "suggest_input \<Rightarrow> uuid \<Rightarrow> timestamptz \<Rightarrow> item_mapping" where
  "suggested_map inp i now =
     \<lparr>imId = i, imTenant = siTenant inp, imProduct = siProduct inp, imRef = siRef inp, imState = Map_suggested,
      imSource = From_manual, imSuggestedBy = Some (siActor inp), imSuggestedAt = now, imConfirmedBy = None,
      imConfirmedAt = None, imVersion = 1, imRetired = None\<rparr>"

definition product_visible :: "tenant_context \<Rightarrow> uuid \<Rightarrow> erp_db \<Rightarrow> bool" where
  "product_visible c p s \<longleftrightarrow> list_ex (\<lambda>x. rls_tenant c (tpTenant x) \<and> tpId x = p) (erpProducts s)"

definition suggestOnClient ::
    "suggest_input \<Rightarrow> uuid \<Rightarrow> timestamptz \<Rightarrow> tenant_context \<Rightarrow> (item_mapping map_result, erp_db) action" where
  "suggestOnClient inp i now c =
     act_bind (act_select (product_visible c (siProduct inp))) (\<lambda>visible.
       if \<not> visible then act_return Map_not_found
       else act_savepoint
         (act_then (act_query (insert_item_map c (suggested_map inp i now))) (act_return (Map_ok (suggested_map inp i now))))
         (\<lambda>e. if e = unique_violation then act_return Map_conflict
              else if e = fk_violation then act_return Map_not_found
              else act_throw e))"

definition item_map_suggest :: "suggest_input \<Rightarrow> uuid \<Rightarrow> timestamptz \<Rightarrow> erp_db \<Rightarrow> (exn + item_mapping map_result) \<times> erp_db" where
  "item_map_suggest inp i now =
     runWithTenantContext (tenant_ctx (siTenant inp)) (\<lambda>c. as_work (suggestOnClient inp i now c))"

text \<open>
  \<open>UPDATE ... SET ..., version = version + 1 WHERE id AND version AND <state> RETURNING\<close>. The
  assignments of the service keep the CHECK constraints of the row.
\<close>

definition update_item_map ::
    "tenant_context \<Rightarrow> uuid \<Rightarrow> nat \<Rightarrow> (item_mapping \<Rightarrow> bool) \<Rightarrow> (item_mapping \<Rightarrow> item_mapping) \<Rightarrow> erp_db \<Rightarrow>
     exn + (item_mapping option \<times> erp_db)" where
  "update_item_map c i v p f s =
     sql_bind (int4_in v) (\<lambda>v.
       let q = (\<lambda>x. rls_tenant c (imTenant x) \<and> imId x = i \<and> imVersion x = v \<and> p x)
       in case find q (itemMaps s) of
            None \<Rightarrow> Inr (None, s)
          | Some x \<Rightarrow> sql_bind (int4_in (v + 1)) (\<lambda>_.
              Inr (Some (f x), s\<lparr>itemMaps := update_where q f (itemMaps s)\<rparr>)))"

definition item_map_exists :: "tenant_context \<Rightarrow> uuid \<Rightarrow> erp_db \<Rightarrow> bool" where
  "item_map_exists c i s \<longleftrightarrow> list_ex (\<lambda>x. rls_tenant c (imTenant x) \<and> imId x = i) (itemMaps s)"

definition confirm_map :: "uuid \<Rightarrow> timestamptz \<Rightarrow> item_mapping \<Rightarrow> item_mapping" where
  "confirm_map actor now x =
     x\<lparr>imState := Map_confirmed, imConfirmedBy := Some actor, imConfirmedAt := Some now, imVersion := imVersion x + 1\<rparr>"

definition retire_map :: "timestamptz \<Rightarrow> item_mapping \<Rightarrow> item_mapping" where
  "retire_map now x = x\<lparr>imRetired := Some now, imVersion := imVersion x + 1\<rparr>"

text \<open>A row the guarded update did not find: there, or not.\<close>

definition map_outcome :: "('s \<Rightarrow> bool) \<Rightarrow> 'r option \<Rightarrow> ('r map_result, 's) action" where
  "map_outcome there updated =
     (case updated of
        Some x \<Rightarrow> act_return (Map_ok x)
      | None \<Rightarrow> act_bind (act_select there) (\<lambda>b. act_return (if b then Map_conflict else Map_not_found)))"

definition confirmOnClient ::
    "uuid \<Rightarrow> nat \<Rightarrow> uuid \<Rightarrow> timestamptz \<Rightarrow> tenant_context \<Rightarrow> (item_mapping map_result, erp_db) action" where
  "confirmOnClient i v actor now c =
     act_bind (act_query (update_item_map c i v (\<lambda>x. imState x = Map_suggested \<and> imRetired x = None) (confirm_map actor now)))
       (map_outcome (item_map_exists c i))"

definition item_map_confirm ::
    "uuid \<Rightarrow> uuid \<Rightarrow> nat \<Rightarrow> uuid \<Rightarrow> timestamptz \<Rightarrow> erp_db \<Rightarrow> (exn + item_mapping map_result) \<times> erp_db" where
  "item_map_confirm t i v actor now = runWithTenantContext (tenant_ctx t) (\<lambda>c. as_work (confirmOnClient i v actor now c))"

definition retireOnClient :: "uuid \<Rightarrow> nat \<Rightarrow> timestamptz \<Rightarrow> tenant_context \<Rightarrow> (item_mapping map_result, erp_db) action" where
  "retireOnClient i v now c =
     act_bind (act_query (update_item_map c i v (\<lambda>x. imRetired x = None) (retire_map now))) (map_outcome (item_map_exists c i))"

definition item_map_retire :: "uuid \<Rightarrow> uuid \<Rightarrow> nat \<Rightarrow> timestamptz \<Rightarrow> erp_db \<Rightarrow> (exn + item_mapping map_result) \<times> erp_db" where
  "item_map_retire t i v now = runWithTenantContext (tenant_ctx t) (\<lambda>c. as_work (retireOnClient i v now c))"

definition item_map_list :: "uuid \<Rightarrow> map_state option \<Rightarrow> erp_db \<Rightarrow> item_mapping list" where
  "item_map_list t st s =
     sort_key (\<lambda>x. (- imSuggestedAt x, imId x))
       (filter (\<lambda>x. rls_tenant (tenant_ctx t) (imTenant x) \<and> imRetired x = None \<and>
          (case st of None \<Rightarrow> True | Some k \<Rightarrow> imState x = k)) (itemMaps s))"

section \<open>Warehouse mappings\<close>

record set_warehouse_input =
  swTenant :: uuid
  swStore :: uuid
  swRef :: string
  swActor :: uuid

definition set_map :: "set_warehouse_input \<Rightarrow> uuid \<Rightarrow> timestamptz \<Rightarrow> warehouse_mapping" where
  "set_map inp i now =
     \<lparr>wmId = i, wmTenant = swTenant inp, wmStore = swStore inp, wmPurpose = For_stock, wmRef = swRef inp,
      wmSetBy = Some (swActor inp), wmSetAt = now, wmVersion = 1, wmRetired = None\<rparr>"

definition store_visible :: "tenant_context \<Rightarrow> uuid \<Rightarrow> erp_db \<Rightarrow> bool" where
  "store_visible c st s \<longleftrightarrow> list_ex (\<lambda>(i, t, z). rls_tenant c t \<and> i = st) (storeZones (erpSales s))"

text \<open>No savepoint here: a conflict is answered on an aborted transaction.\<close>

definition set_work ::
    "set_warehouse_input \<Rightarrow> uuid \<Rightarrow> timestamptz \<Rightarrow> tenant_context \<Rightarrow> (warehouse_mapping map_result, erp_db) action" where
  "set_work inp i now c =
     act_bind (act_select (store_visible c (swStore inp))) (\<lambda>visible.
       if \<not> visible then act_return Map_not_found
       else act_catch
         (act_then (act_query (insert_warehouse_map c (set_map inp i now))) (act_return (Map_ok (set_map inp i now))))
         (\<lambda>e. if e = unique_violation then act_return Map_conflict
              else if e = fk_violation then act_return Map_not_found
              else act_throw e))"

definition warehouse_map_set ::
    "set_warehouse_input \<Rightarrow> uuid \<Rightarrow> timestamptz \<Rightarrow> erp_db \<Rightarrow> (exn + warehouse_mapping map_result) \<times> erp_db" where
  "warehouse_map_set inp i now = runWithTenantContext (tenant_ctx (swTenant inp)) (\<lambda>c. as_work (set_work inp i now c))"

definition update_warehouse_map ::
    "tenant_context \<Rightarrow> uuid \<Rightarrow> nat \<Rightarrow> (warehouse_mapping \<Rightarrow> bool) \<Rightarrow> (warehouse_mapping \<Rightarrow> warehouse_mapping) \<Rightarrow> erp_db \<Rightarrow>
     exn + (warehouse_mapping option \<times> erp_db)" where
  "update_warehouse_map c i v p f s =
     sql_bind (int4_in v) (\<lambda>v.
       let q = (\<lambda>x. rls_tenant c (wmTenant x) \<and> wmId x = i \<and> wmVersion x = v \<and> p x)
       in case find q (warehouseMaps s) of
            None \<Rightarrow> Inr (None, s)
          | Some x \<Rightarrow> sql_bind (int4_in (v + 1)) (\<lambda>_.
              Inr (Some (f x), s\<lparr>warehouseMaps := update_where q f (warehouseMaps s)\<rparr>)))"

definition warehouse_map_exists :: "tenant_context \<Rightarrow> uuid \<Rightarrow> erp_db \<Rightarrow> bool" where
  "warehouse_map_exists c i s \<longleftrightarrow> list_ex (\<lambda>x. rls_tenant c (wmTenant x) \<and> wmId x = i) (warehouseMaps s)"

definition retire_warehouse :: "timestamptz \<Rightarrow> warehouse_mapping \<Rightarrow> warehouse_mapping" where
  "retire_warehouse now x = x\<lparr>wmRetired := Some now, wmVersion := wmVersion x + 1\<rparr>"

definition retire_warehouse_work ::
    "uuid \<Rightarrow> nat \<Rightarrow> timestamptz \<Rightarrow> tenant_context \<Rightarrow> (warehouse_mapping map_result, erp_db) action" where
  "retire_warehouse_work i v now c =
     act_bind (act_query (update_warehouse_map c i v (\<lambda>x. wmRetired x = None) (retire_warehouse now)))
       (map_outcome (warehouse_map_exists c i))"

definition warehouse_map_retire ::
    "uuid \<Rightarrow> uuid \<Rightarrow> nat \<Rightarrow> timestamptz \<Rightarrow> erp_db \<Rightarrow> (exn + warehouse_mapping map_result) \<times> erp_db" where
  "warehouse_map_retire t i v now = runWithTenantContext (tenant_ctx t) (\<lambda>c. as_work (retire_warehouse_work i v now c))"

definition warehouse_map_list :: "uuid \<Rightarrow> erp_db \<Rightarrow> warehouse_mapping list" where
  "warehouse_map_list t s =
     sort_key (\<lambda>x. (- wmSetAt x, wmId x))
       (filter (\<lambda>x. rls_tenant (tenant_ctx t) (wmTenant x) \<and> wmRetired x = None) (warehouseMaps s))"

section \<open>Routes\<close>

definition requireMapContext :: "request_context \<Rightarrow> thrown + (uuid \<times> uuid)" where
  "requireMapContext req =
     (case req of
        None \<Rightarrow> Inl (Http_exception 401 None)
      | Some c \<Rightarrow>
          (case (rcTenant c, rcUser c) of
             (Some t, Some u) \<Rightarrow> Inr (t, u)
           | _ \<Rightarrow> Inl (Http_exception 401 None)))"

text \<open>The wire bodies leave out the tenant; \<open>created_at\<close> and \<open>updated_at\<close> are not modelled.\<close>

record item_mapping_body =
  mbId :: uuid
  mbProduct :: uuid
  mbRef :: string
  mbState :: map_state
  mbSource :: suggestion_source
  mbVersion :: nat
  mbSuggestedBy :: "uuid option"
  mbSuggestedAt :: timestamptz
  mbConfirmedBy :: "uuid option"
  mbConfirmedAt :: "timestamptz option"
  mbRetired :: "timestamptz option"

definition toErpnextItemMapping :: "item_mapping \<Rightarrow> item_mapping_body" where
  "toErpnextItemMapping x =
     \<lparr>mbId = imId x, mbProduct = imProduct x, mbRef = imRef x, mbState = imState x, mbSource = imSource x,
      mbVersion = imVersion x, mbSuggestedBy = imSuggestedBy x, mbSuggestedAt = imSuggestedAt x,
      mbConfirmedBy = imConfirmedBy x, mbConfirmedAt = imConfirmedAt x, mbRetired = imRetired x\<rparr>"

record warehouse_mapping_body =
  wbId :: uuid
  wbStore :: uuid
  wbPurpose :: map_purpose
  wbRef :: string
  wbVersion :: nat
  wbSetBy :: "uuid option"
  wbSetAt :: timestamptz
  wbRetired :: "timestamptz option"

definition toErpnextWarehouseMapping :: "warehouse_mapping \<Rightarrow> warehouse_mapping_body" where
  "toErpnextWarehouseMapping x =
     \<lparr>wbId = wmId x, wbStore = wmStore x, wbPurpose = wmPurpose x, wbRef = wmRef x, wbVersion = wmVersion x,
      wbSetBy = wmSetBy x, wbSetAt = wmSetAt x, wbRetired = wmRetired x\<rparr>"

definition map_answer :: "nat \<Rightarrow> ('r \<Rightarrow> 'b) \<Rightarrow> exn + 'r map_result \<Rightarrow> 'b response" where
  "map_answer status body r =
     respond status (case r of
         Inl e \<Rightarrow> Inl (Unhandled e)
       | Inr (Map_ok x) \<Rightarrow> Inr (body x)
       | Inr Map_conflict \<Rightarrow> Inl (Http_exception 409 (Some ''conflict''))
       | Inr Map_not_found \<Rightarrow> Inl (Http_exception 404 None))"

definition VersionedMutationRequestSchema :: "nat \<Rightarrow> bool" where
  "VersionedMutationRequestSchema v \<longleftrightarrow> 1 \<le> v"

definition SuggestErpnextItemMappingRequestSchema :: "string \<Rightarrow> bool" where
  "SuggestErpnextItemMappingRequestSchema ref \<longleftrightarrow> length_between 1 140 ref"

definition SetErpnextWarehouseMappingRequestSchema :: "string \<Rightarrow> bool" where
  "SetErpnextWarehouseMappingRequestSchema ref \<longleftrightarrow> length_between 1 180 ref"

definition item_map_list_route :: "request_context \<Rightarrow> map_state option \<Rightarrow> erp_db \<Rightarrow> item_mapping_body list response" where
  "item_map_list_route req st s =
     respond 200 (case requireMapContext req of
         Inl e \<Rightarrow> Inl e
       | Inr (t, u) \<Rightarrow> Inr (map toErpnextItemMapping (item_map_list t st s)))"

definition item_map_suggest_route ::
    "request_context \<Rightarrow> uuid \<Rightarrow> string \<Rightarrow> uuid \<Rightarrow> timestamptz \<Rightarrow> erp_db \<Rightarrow> item_mapping_body response \<times> erp_db" where
  "item_map_suggest_route req p ref i now s =
     (if \<not> SuggestErpnextItemMappingRequestSchema ref then (respond 201 (Inl Zod_error), s)
      else case requireMapContext req of
        Inl e \<Rightarrow> (respond 201 (Inl e), s)
      | Inr (t, u) \<Rightarrow>
          (case item_map_suggest \<lparr>siTenant = t, siProduct = p, siRef = ref, siActor = u\<rparr> i now s of
             (r, s') \<Rightarrow> (map_answer 201 toErpnextItemMapping r, s')))"

definition item_map_confirm_route ::
    "request_context \<Rightarrow> uuid \<Rightarrow> nat \<Rightarrow> timestamptz \<Rightarrow> erp_db \<Rightarrow> item_mapping_body response \<times> erp_db" where
  "item_map_confirm_route req i v now s =
     (if \<not> VersionedMutationRequestSchema v then (respond 200 (Inl Zod_error), s)
      else case requireMapContext req of
        Inl e \<Rightarrow> (respond 200 (Inl e), s)
      | Inr (t, u) \<Rightarrow> (case item_map_confirm t i v u now s of (r, s') \<Rightarrow> (map_answer 200 toErpnextItemMapping r, s')))"

definition item_map_retire_route ::
    "request_context \<Rightarrow> uuid \<Rightarrow> nat \<Rightarrow> timestamptz \<Rightarrow> erp_db \<Rightarrow> item_mapping_body response \<times> erp_db" where
  "item_map_retire_route req i v now s =
     (if \<not> VersionedMutationRequestSchema v then (respond 200 (Inl Zod_error), s)
      else case requireMapContext req of
        Inl e \<Rightarrow> (respond 200 (Inl e), s)
      | Inr (t, u) \<Rightarrow> (case item_map_retire t i v now s of (r, s') \<Rightarrow> (map_answer 200 toErpnextItemMapping r, s')))"

definition warehouse_map_list_route :: "request_context \<Rightarrow> erp_db \<Rightarrow> warehouse_mapping_body list response" where
  "warehouse_map_list_route req s =
     respond 200 (case requireMapContext req of
         Inl e \<Rightarrow> Inl e
       | Inr (t, u) \<Rightarrow> Inr (map toErpnextWarehouseMapping (warehouse_map_list t s)))"

definition warehouse_map_set_route ::
    "request_context \<Rightarrow> uuid \<Rightarrow> string \<Rightarrow> uuid \<Rightarrow> timestamptz \<Rightarrow> erp_db \<Rightarrow> warehouse_mapping_body response \<times> erp_db" where
  "warehouse_map_set_route req st ref i now s =
     (if \<not> SetErpnextWarehouseMappingRequestSchema ref then (respond 201 (Inl Zod_error), s)
      else case requireMapContext req of
        Inl e \<Rightarrow> (respond 201 (Inl e), s)
      | Inr (t, u) \<Rightarrow>
          (case warehouse_map_set \<lparr>swTenant = t, swStore = st, swRef = ref, swActor = u\<rparr> i now s of
             (r, s') \<Rightarrow> (map_answer 201 toErpnextWarehouseMapping r, s')))"

definition warehouse_map_retire_route ::
    "request_context \<Rightarrow> uuid \<Rightarrow> nat \<Rightarrow> timestamptz \<Rightarrow> erp_db \<Rightarrow> warehouse_mapping_body response \<times> erp_db" where
  "warehouse_map_retire_route req i v now s =
     (if \<not> VersionedMutationRequestSchema v then (respond 200 (Inl Zod_error), s)
      else case requireMapContext req of
        Inl e \<Rightarrow> (respond 200 (Inl e), s)
      | Inr (t, u) \<Rightarrow> (case warehouse_map_retire t i v now s of (r, s') \<Rightarrow> (map_answer 200 toErpnextWarehouseMapping r, s')))"

end
