(* ===== verification/ErpPosting.thy ===== *)
theory ErpPosting
  imports ErpMaps
begin

text \<open>
  The posting of sales to the ERP. The consumer of a posting request
  (apps/worker/src/erpnext-posting/posting-requested.consumer.ts) decides once whether the sale can be
  posted and stores the verdict; the connector pulls the pending rows in the order of their sequence
  and acknowledges what became of them (apps/api/src/catalog/erpnext-posting). \<open>JSON.parse\<close> is the
  argument \<open>parse\<close>.
\<close>

section \<open>The consumer\<close>

definition kind_of_text :: "string \<Rightarrow> posting_kind option" where
  "kind_of_text k = (if k = ''sale_post'' then Some Sale_post else if k = ''reversal'' then Some Reversal else None)"

definition text_field :: "string \<Rightarrow> json \<Rightarrow> string option" where
  "text_field k j =
     (case j of
        J_object fs \<Rightarrow> (case map_of fs k of Some (J_string x) \<Rightarrow> Some x | _ \<Rightarrow> None)
      | _ \<Rightarrow> None)"

text \<open>\<open>PostingRequestedPayloadSchema\<close>: sale, store, kind and originating row of a payload it accepts.\<close>

definition posting_request :: "json \<Rightarrow> (uuid \<times> uuid \<times> posting_kind \<times> uuid) option" where
  "posting_request j =
     (case (uuid_field ''sale_id'' j, uuid_field ''store_id'' j, text_field ''kind'' j, uuid_field ''source_ref_id'' j) of
        (Some sale, Some st, Some k, Some anchor) \<Rightarrow>
          (case (parse_uuid sale, parse_uuid st, kind_of_text k, parse_uuid anchor) of
             (Some i, Some u, Some kind, Some a) \<Rightarrow> Some (i, u, kind, a)
           | _ \<Rightarrow> None)
      | _ \<Rightarrow> None)"

definition store_mapped :: "tenant_context \<Rightarrow> uuid \<Rightarrow> erp_db \<Rightarrow> bool" where
  "store_mapped c st s \<longleftrightarrow> list_ex (\<lambda>w. rls_tenant c (wmTenant w) \<and> wmStore w = st \<and> wmRetired w = None) (warehouseMaps s)"

definition confirmed_for :: "tenant_context \<Rightarrow> uuid option \<Rightarrow> item_mapping \<Rightarrow> bool" where
  "confirmed_for c p m \<longleftrightarrow> rls_tenant c (imTenant m) \<and> Some (imProduct m) = p \<and> imState m = Map_confirmed \<and> imRetired m = None"

definition line_unmapped :: "tenant_context \<Rightarrow> erp_db \<Rightarrow> sold_line \<Rightarrow> bool" where
  "line_unmapped c s l \<longleftrightarrow> lnProduct l = None \<or> \<not> list_ex (confirmed_for c (lnProduct l)) (itemMaps s)"

definition sale_line_rows :: "tenant_context \<Rightarrow> uuid \<Rightarrow> erp_db \<Rightarrow> sold_line list" where
  "sale_line_rows c sale s = filter (\<lambda>l. rls_tenant c (lnTenant l) \<and> lnSale l = sale) (soldLines (erpSales s))"

text \<open>The category of a rejection, or nothing when the sale can be posted.\<close>

definition resolveEligibility :: "tenant_context \<Rightarrow> uuid \<Rightarrow> uuid \<Rightarrow> erp_db \<Rightarrow> string option" where
  "resolveEligibility c sale st s =
     (if \<not> store_mapped c st s then Some ''unmapped_store''
      else if list_ex (line_unmapped c s) (sale_line_rows c sale s) then Some ''unmapped_item''
      else None)"

definition posting_row ::
    "uuid \<Rightarrow> uuid \<Rightarrow> posting_kind \<Rightarrow> uuid \<Rightarrow> sale \<Rightarrow> string option \<Rightarrow> uuid option \<Rightarrow> timestamptz \<Rightarrow> erp_posting" where
  "posting_row i t kind anchor x verdict corr now =
     \<lparr>epId = i, epTenant = t, epStore = saStore x, epSale = saId x, epKind = kind, epRef = anchor, epSource = saSource x,
      epExternal = saExternal x, epHash = saHash x,
      epStatus = (if verdict = None then Ps_pending else Ps_rejected), epDocument = None, epCategory = verdict,
      epRetries = 0, epSequence = 0, epUpdated = now, epCorrelation = corr\<rparr>"

text \<open>\<open>INSERT ... SELECT ... FROM sales\<close>: no row when the sale is not at the store.\<close>

definition posting_work ::
    "uuid \<Rightarrow> uuid \<Rightarrow> uuid \<Rightarrow> posting_kind \<Rightarrow> uuid \<Rightarrow> uuid option \<Rightarrow> uuid \<Rightarrow> timestamptz \<Rightarrow> tenant_context \<Rightarrow>
     (bool, erp_db) action" where
  "posting_work t sale st kind anchor corr i now c =
     act_bind (act_select (resolveEligibility c sale st)) (\<lambda>verdict.
     act_bind (act_query (\<lambda>s. case find_sale c sale st (erpSales s) of
          None \<Rightarrow> Inr (False, s)
        | Some x \<Rightarrow> insert_posting c (posting_row i t kind anchor x verdict corr now) s)) (\<lambda>inserted.
     act_return (inserted \<and> verdict \<noteq> None)))"

text \<open>The result says whether the reconciliation counter was bumped.\<close>

definition posting_handle ::
    "(string \<Rightarrow> json option) \<Rightarrow> claimed_event \<Rightarrow> uuid \<Rightarrow> timestamptz \<Rightarrow> erp_db \<Rightarrow> (exn + bool) \<times> erp_db" where
  "posting_handle parse e i now s =
     (case Option.bind (parse (cePayload e)) posting_request of
        None \<Rightarrow> (Inl (Js_error ''Error''), s)
      | Some (sale, st, kind, anchor) \<Rightarrow>
          runWithTenantContext (tenant_ctx (ceTenant e))
            (\<lambda>c. as_work (posting_work (ceTenant e) sale st kind anchor (ceCorrelation e) i now c)) s)"

section \<open>The feed\<close>

record wire_line =
  wlName :: string
  wlPrice :: string
  wlCurrency :: string
  wlQuantity :: string
  wlAmount :: string
  wlTax :: "string option"
  wlUnit :: string
  wlItem :: string
  wlProduct :: "uuid option"

datatype reversal_kind = By_void | By_refund

record work_item =
  wiRef :: uuid
  wiKind :: posting_kind
  wiSource :: string
  wiExternal :: string
  wiHash :: string
  wiReversal :: "(string \<times> string \<times> reversal_kind) option"
  wiSale :: uuid
  wiStore :: uuid
  wiCurrency :: string
  wiTotal :: string
  wiOccurred :: timestamptz
  wiDate :: string
  wiSaleSource :: string
  wiSaleExternal :: string
  wiLines :: "wire_line list"
  wiCursor :: nat

text \<open>The confirmed mapping of a line's product; a product has at most one that is active.\<close>

definition wireLine :: "tenant_context \<Rightarrow> erp_db \<Rightarrow> sold_line \<Rightarrow> wire_line option" where
  "wireLine c s l =
     (case find (confirmed_for c (lnProduct l)) (itemMaps s) of
        None \<Rightarrow> None
      | Some m \<Rightarrow>
          if imRef m = [] then None
          else Some \<lparr>wlName = lnName l, wlPrice = pg_numeric_text (lnPrice l), wlCurrency = lnCurrency l,
                     wlQuantity = pg_quantity_text (lnQuantity l), wlAmount = pg_numeric_text (lnAmount l),
                     wlTax = map_option pg_numeric_text (lnTax l), wlUnit = lnUnit l, wlItem = imRef m, wlProduct = lnProduct l\<rparr>)"

definition all_or_none :: "'a option list \<Rightarrow> 'a list option" where
  "all_or_none xs = (if list_all (\<lambda>x. x \<noteq> None) xs then Some (map the xs) else None)"

definition reversal_of :: "tenant_context \<Rightarrow> uuid \<Rightarrow> erp_db \<Rightarrow> reversal_kind option" where
  "reversal_of c anchor s =
     (if list_ex (\<lambda>v. rls_tenant c (vdTenant v) \<and> vdId v = anchor) (saleVoids (erpSales s)) then Some By_void
      else if list_ex (\<lambda>v. rls_tenant c (rfTenant v) \<and> rfId v = anchor) (saleRefunds (erpSales s)) then Some By_refund
      else None)"

definition buildWorkItem :: "tenant_context \<Rightarrow> erp_db \<Rightarrow> erp_posting \<Rightarrow> work_item option" where
  "buildWorkItem c s r =
     (case find (\<lambda>x. rls_tenant c (saTenant x) \<and> saId x = epSale r) (saleRows (erpSales s)) of
        None \<Rightarrow> None
      | Some x \<Rightarrow>
          (case all_or_none (map (wireLine c s) (sort_key lnId (sale_line_rows c (epSale r) s))) of
             None \<Rightarrow> None
           | Some lines \<Rightarrow>
               let item = \<lparr>wiRef = epId r, wiKind = epKind r, wiSource = epSource r, wiExternal = epExternal r, wiHash = epHash r,
                 wiReversal = None, wiSale = saId x, wiStore = saStore x, wiCurrency = saCurrency x,
                 wiTotal = pg_numeric_text (saTotal x), wiOccurred = saOccurred x, wiDate = saDate x, wiSaleSource = saSource x,
                 wiSaleExternal = saExternal x, wiLines = lines, wiCursor = epSequence r\<rparr>
               in (case epKind r of
                     Sale_post \<Rightarrow> Some item
                   | Reversal \<Rightarrow>
                       map_option (\<lambda>k. item\<lparr>wiReversal := Some (saSource x, saExternal x, k)\<rparr>) (reversal_of c (epRef r) s))))"

definition POSTING_FEED_MAX_PAGE :: nat where
  "POSTING_FEED_MAX_PAGE = 500"

definition pending_rows :: "tenant_context \<Rightarrow> nat option \<Rightarrow> erp_db \<Rightarrow> erp_posting list" where
  "pending_rows c since s =
     sort_key epSequence (filter (\<lambda>x. rls_tenant c (epTenant x) \<and> epStatus x = Ps_pending \<and>
       (case since of None \<Rightarrow> True | Some n \<Rightarrow> n < epSequence x)) (postings s))"

record pull_result =
  plItems :: "work_item list"
  plCursor :: "nat option"
  plNext :: "nat option"

definition pullPostings :: "uuid \<Rightarrow> nat option \<Rightarrow> nat \<Rightarrow> erp_db \<Rightarrow> pull_result" where
  "pullPostings t since lim s =
     (let limit = min (max 1 lim) POSTING_FEED_MAX_PAGE;
          rows = take limit (pending_rows (tenant_ctx t) since s);
          advanced = (if rows = [] then None else Some (epSequence (last rows)))
      in \<lparr>plItems = List.map_filter (buildWorkItem (tenant_ctx t) s) rows, plCursor = advanced,
          plNext = (if length rows = limit then advanced else None)\<rparr>)"

section \<open>The acknowledgement\<close>

datatype ack_outcome = Ack_posted | Ack_transient | Ack_rejected

definition POSTING_RETRY_BUDGET :: nat where
  "POSTING_RETRY_BUDGET = 5"

record document_ref =
  drDoctype :: string
  drName :: string

record ack_input =
  akTenant :: uuid
  akRef :: uuid
  akOutcome :: ack_outcome
  akDocument :: "document_ref option"
  akCategory :: "string option"

record recorded_outcome =
  rdRef :: uuid
  rdOutcome :: ack_outcome
  rdDocument :: "document_ref option"
  rdAt :: timestamptz
  rdDlq :: bool

definition serializeDocRef :: "document_ref \<Rightarrow> string" where
  "serializeDocRef d = json_text (J_object [(''doctype'', J_string (drDoctype d)), (''name'', J_string (drName d))])"

text \<open>Anything that is not such an object is wrapped as the name of an invoice.\<close>

definition parseDocRef :: "(string \<Rightarrow> json option) \<Rightarrow> string option \<Rightarrow> document_ref option" where
  "parseDocRef parse stored =
     map_option (\<lambda>x.
       case parse x of
         None \<Rightarrow> \<lparr>drDoctype = ''Sales Invoice'', drName = x\<rparr>
       | Some j \<Rightarrow>
           (case (text_field ''doctype'' j, text_field ''name'' j) of
              (Some d, Some n) \<Rightarrow> \<lparr>drDoctype = d, drName = n\<rparr>
            | _ \<Rightarrow> \<lparr>drDoctype = ''Sales Invoice'', drName = x\<rparr>)) stored"

definition outcome_of_state :: "posting_state \<Rightarrow> ack_outcome option" where
  "outcome_of_state st =
     (case st of Ps_posted \<Rightarrow> Some Ack_posted | Ps_transient \<Rightarrow> Some Ack_transient | Ps_rejected \<Rightarrow> Some Ack_rejected | Ps_pending \<Rightarrow> None)"

definition sameLogicalOutcome :: "(string \<Rightarrow> json option) \<Rightarrow> erp_posting \<Rightarrow> ack_input \<Rightarrow> bool" where
  "sameLogicalOutcome parse x inp \<longleftrightarrow>
     outcome_of_state (epStatus x) = Some (akOutcome inp) \<and>
     (epStatus x = Ps_posted \<longrightarrow> akDocument inp \<noteq> None \<and> parseDocRef parse (epDocument x) = akDocument inp)"

definition project_outcome :: "(string \<Rightarrow> json option) \<Rightarrow> erp_posting \<Rightarrow> recorded_outcome" where
  "project_outcome parse x =
     \<lparr>rdRef = epId x, rdOutcome = (if epStatus x = Ps_posted then Ack_posted else Ack_rejected),
      rdDocument = parseDocRef parse (epDocument x), rdAt = epUpdated x, rdDlq = (epStatus x = Ps_rejected)\<rparr>"

definition applyPosted :: "ack_input \<Rightarrow> timestamptz \<Rightarrow> tenant_context \<Rightarrow> (recorded_outcome \<times> bool, erp_db) action" where
  "applyPosted inp now c =
     (case akDocument inp of
        None \<Rightarrow> act_throw (Js_error ''AckValidationError'')
      | Some d \<Rightarrow>
          act_then (act_query (update_posting c (akRef inp)
              (\<lambda>x. x\<lparr>epStatus := Ps_posted, epDocument := Some (serializeDocRef d), epUpdated := now\<rparr>)))
            (act_return (\<lparr>rdRef = akRef inp, rdOutcome = Ack_posted, rdDocument = Some d, rdAt = now, rdDlq = False\<rparr>, False)))"

text \<open>The flag: the reconciliation counter is bumped.\<close>

definition applyRejected ::
    "uuid \<Rightarrow> string \<Rightarrow> timestamptz \<Rightarrow> tenant_context \<Rightarrow> (recorded_outcome \<times> bool, erp_db) action" where
  "applyRejected i category now c =
     act_then (act_query (update_posting c i
         (\<lambda>x. x\<lparr>epStatus := Ps_rejected, epCategory := Some category, epUpdated := now\<rparr>)))
       (act_return (\<lparr>rdRef = i, rdOutcome = Ack_rejected, rdDocument = None, rdAt = now, rdDlq = True\<rparr>, True))"

text \<open>\<open>SET sequence = DEFAULT\<close> puts the row behind every cursor.\<close>

definition applyTransient ::
    "uuid \<Rightarrow> nat \<Rightarrow> timestamptz \<Rightarrow> tenant_context \<Rightarrow> (recorded_outcome \<times> bool, erp_db) action" where
  "applyTransient i retries now c =
     (if POSTING_RETRY_BUDGET \<le> retries then applyRejected i ''retry_budget_exhausted'' now c
      else act_bind (act_query draw_sequence) (\<lambda>n.
        act_then (act_query (update_posting c i
            (\<lambda>x. x\<lparr>epStatus := Ps_pending, epRetries := epRetries x + 1, epSequence := n, epUpdated := now\<rparr>)))
          (act_return (\<lparr>rdRef = i, rdOutcome = Ack_transient, rdDocument = None, rdAt = now, rdDlq = False\<rparr>, False))))"

abbreviation "ack_not_found \<equiv> Js_error ''AckNotFoundError''"

abbreviation "ack_conflict \<equiv> Js_error ''AckConflictError''"

text \<open>The result: the outcome, whether it is an echo, and whether the counter was bumped.\<close>

definition ack_work ::
    "(string \<Rightarrow> json option) \<Rightarrow> ack_input \<Rightarrow> timestamptz \<Rightarrow> tenant_context \<Rightarrow>
     (recorded_outcome \<times> bool \<times> bool, erp_db) action" where
  "ack_work parse inp now c =
     act_bind (act_select (find_posting c (akRef inp))) (\<lambda>found. case found of
         None \<Rightarrow> act_throw ack_not_found
       | Some x \<Rightarrow>
           if epStatus x = Ps_posted \<or> epStatus x = Ps_rejected
           then (if sameLogicalOutcome parse x inp then act_return (project_outcome parse x, True, False)
                 else act_throw ack_conflict)
           else act_bind
             (case akOutcome inp of
                Ack_posted \<Rightarrow> applyPosted inp now c
              | Ack_rejected \<Rightarrow> applyRejected (akRef inp) (case akCategory inp of None \<Rightarrow> ''other'' | Some k \<Rightarrow> k) now c
              | Ack_transient \<Rightarrow> applyTransient (akRef inp) (epRetries x) now c)
             (\<lambda>(r, counted). act_return (r, False, counted)))"

definition ackOutcome ::
    "(string \<Rightarrow> json option) \<Rightarrow> ack_input \<Rightarrow> timestamptz \<Rightarrow> erp_db \<Rightarrow> (exn + (recorded_outcome \<times> bool \<times> bool)) \<times> erp_db" where
  "ackOutcome parse inp now = runWithTenantContext (tenant_ctx (akTenant inp)) (\<lambda>c. as_work (ack_work parse inp now c))"

section \<open>Routes\<close>

datatype connector_principal = Token_principal "uuid option" | Other_principal

definition connector_tenant :: "connector_principal option \<Rightarrow> thrown + uuid" where
  "connector_tenant p =
     (case p of Some (Token_principal (Some t)) \<Rightarrow> Inr t | _ \<Rightarrow> Inl (Http_exception 401 None))"

definition PullPostingsQuerySchema :: "string option \<Rightarrow> nat option \<Rightarrow> bool" where
  "PullPostingsQuerySchema since lim \<longleftrightarrow>
     (case since of None \<Rightarrow> True | Some x \<Rightarrow> length_between 1 18 x \<and> list_all is_digit x) \<and>
     (case lim of None \<Rightarrow> True | Some n \<Rightarrow> 1 \<le> n \<and> n \<le> 500)"

record feed_page =
  fpItems :: "work_item list"
  fpCursor :: string
  fpNext :: "string option"

definition pullPostings_route ::
    "connector_principal option \<Rightarrow> string option \<Rightarrow> nat option \<Rightarrow> erp_db \<Rightarrow> feed_page response" where
  "pullPostings_route p since lim s =
     respond 200
       (if \<not> PullPostingsQuerySchema since lim then Inl Zod_error
        else case connector_tenant p of
          Inl e \<Rightarrow> Inl e
        | Inr t \<Rightarrow>
            let r = pullPostings t (map_option decimal_value since) (case lim of None \<Rightarrow> 100 | Some n \<Rightarrow> n) s
            in Inr \<lparr>fpItems = plItems r,
                    fpCursor = (case plCursor r of Some n \<Rightarrow> show_nat n
                      | None \<Rightarrow> (case since of Some x \<Rightarrow> x | None \<Rightarrow> ''0'')),
                    fpNext = map_option show_nat (plNext r)\<rparr>)"

record ack_body =
  abOutcome :: ack_outcome
  abDocument :: "document_ref option"
  abReason :: "(string \<times> string) option"

definition OutcomeAckBodySchema :: "ack_body \<Rightarrow> bool" where
  "OutcomeAckBodySchema b \<longleftrightarrow>
     (case abDocument b of None \<Rightarrow> True
        | Some d \<Rightarrow> length_between 1 100 (drDoctype d) \<and> length_between 1 200 (drName d)) \<and>
     (case abReason b of None \<Rightarrow> True
        | Some (k, m) \<Rightarrow> k \<in> {''validation'', ''closed_period'', ''unmapped_item'', ''unmapped_account'', ''other''} \<and>
            length_between 1 1000 m) \<and>
     (abOutcome b = Ack_posted \<longleftrightarrow> abDocument b \<noteq> None) \<and> (abOutcome b = Ack_rejected \<longleftrightarrow> abReason b \<noteq> None)"

text \<open>The second component is the header \<open>Idempotent-Replayed\<close>, the third the counter.\<close>

definition ackOutcome_route ::
    "(string \<Rightarrow> json option) \<Rightarrow> connector_principal option \<Rightarrow> uuid \<Rightarrow> ack_body \<Rightarrow> timestamptz \<Rightarrow> erp_db \<Rightarrow>
     (recorded_outcome response \<times> bool \<times> bool) \<times> erp_db" where
  "ackOutcome_route parse p i b now s =
     (if \<not> OutcomeAckBodySchema b then ((respond 201 (Inl Zod_error), False, False), s)
      else case connector_tenant p of
        Inl e \<Rightarrow> ((respond 201 (Inl e), False, False), s)
      | Inr t \<Rightarrow>
          (case ackOutcome parse \<lparr>akTenant = t, akRef = i, akOutcome = abOutcome b, akDocument = abDocument b,
                  akCategory = map_option fst (abReason b)\<rparr> now s of
             (Inl e, s') \<Rightarrow>
               ((respond 201 (Inl (if e = ack_not_found then Http_exception 404 (Some ''not_found'')
                  else if e = ack_conflict then Http_exception 409 (Some ''idempotency_key_conflict'')
                  else Unhandled e)), False, False), s')
           | (Inr (r, replayed, counted), s') \<Rightarrow>
               ((respond (if replayed then 200 else 201) (Inr r), replayed, counted), s')))"

section \<open>The machine of the postings\<close>

datatype erp_op =
    Erp_sales sales_op
  | Erp_consume claimed_event uuid timestamptz
  | Erp_ack "connector_principal option" uuid ack_body timestamptz
  | Erp_suggest request_context uuid string uuid timestamptz
  | Erp_confirm request_context uuid nat timestamptz
  | Erp_retire request_context uuid nat timestamptz
  | Erp_set_warehouse request_context uuid string uuid timestamptz
  | Erp_retire_warehouse request_context uuid nat timestamptz

fun erp_step :: "sales_env \<Rightarrow> (string \<Rightarrow> json option) \<Rightarrow> erp_op \<Rightarrow> erp_db \<Rightarrow> erp_db" where
  "erp_step env parse (Erp_sales op) s = s\<lparr>erpSales := sales_step env op (erpSales s)\<rparr>"
| "erp_step env parse (Erp_consume e i now) s = snd (posting_handle parse e i now s)"
| "erp_step env parse (Erp_ack p i b now) s = snd (ackOutcome_route parse p i b now s)"
| "erp_step env parse (Erp_suggest req p ref i now) s = snd (item_map_suggest_route req p ref i now s)"
| "erp_step env parse (Erp_confirm req i v now) s = snd (item_map_confirm_route req i v now s)"
| "erp_step env parse (Erp_retire req i v now) s = snd (item_map_retire_route req i v now s)"
| "erp_step env parse (Erp_set_warehouse req st ref i now) s = snd (warehouse_map_set_route req st ref i now s)"
| "erp_step env parse (Erp_retire_warehouse req i v now) s = snd (warehouse_map_retire_route req i v now s)"

definition erp_run :: "sales_env \<Rightarrow> (string \<Rightarrow> json option) \<Rightarrow> erp_op list \<Rightarrow> erp_db \<Rightarrow> erp_db" where
  "erp_run env parse ops s = fold (erp_step env parse) ops s"

end
