(* ===== verification/ErpFacts.thy ===== *)
theory ErpFacts
  imports ErpPosting SalesLife
begin

text \<open>
  What the operations on postings and mappings commit: the statements, then one lemma per operation on
  when its transaction succeeds and with what.
\<close>

section \<open>Statements\<close>

definition posting_new :: "tenant_context \<Rightarrow> erp_posting \<Rightarrow> erp_db \<Rightarrow> bool" where
  "posting_new c x s \<longleftrightarrow> rls_tenant c (epTenant x) \<and> erp_checks x \<and>
     (epTenant x, epRef x) \<notin> (\<lambda>y. (epTenant y, epRef y)) ` set (postings s) \<and> epId x \<notin> epId ` set (postings s) \<and>
     store_exists (epStore x) (erpSales s) \<and> (epSale x, epTenant x, epStore x) \<in> scopes (erpSales s)"

abbreviation posting_taken :: "erp_posting \<Rightarrow> erp_db \<Rightarrow> bool" where
  "posting_taken x s \<equiv> (epTenant x, epRef x) \<in> (\<lambda>y. (epTenant y, epRef y)) ` set (postings s)"

lemma erp_checks_sequence [simp]: "erp_checks (x\<lparr>epSequence := n\<rparr>) = erp_checks x"
  by (simp add: erp_checks_def)

lemma store_posting_Inr [run_simps]:
  "store_posting c x s = Inr (b, s') \<longleftrightarrow>
     rls_tenant c (epTenant x) \<and> erp_checks x \<and>
     (if posting_taken x s then \<not> b \<and> s' = s
      else b \<and> posting_new c x s \<and> s' = s\<lparr>postings := postings s @ [x]\<rparr>)"
  unfolding store_posting_def posting_new_def scopes_def
  by (simp only: sql_check_then) auto

lemma draw_sequence_Inr [run_simps]:
  "draw_sequence s = Inr (n, s') \<longleftrightarrow> n = nextSequence s \<and> s' = s\<lparr>nextSequence := nextSequence s + 1\<rparr>"
  by (auto simp: draw_sequence_def)

lemma posting_new_sequence [simp]:
  "posting_new c (x\<lparr>epSequence := n\<rparr>) (s\<lparr>nextSequence := m\<rparr>) = posting_new c x s"
  by (simp add: posting_new_def)

lemma insert_posting_Inr [run_simps]:
  "insert_posting c x s = Inr (b, s') \<longleftrightarrow>
     rls_tenant c (epTenant x) \<and> erp_checks x \<and>
     (if posting_taken x s then \<not> b \<and> s' = s\<lparr>nextSequence := nextSequence s + 1\<rparr>
      else b \<and> posting_new c x s \<and>
        s' = s\<lparr>nextSequence := nextSequence s + 1, postings := postings s @ [x\<lparr>epSequence := nextSequence s\<rparr>]\<rparr>)"
  by (auto simp: insert_posting_def sql_bind_Inr draw_sequence_Inr store_posting_Inr)

lemma update_posting_Inr [run_simps]:
  "update_posting c i f s = Inr (u, s') \<longleftrightarrow>
     (\<forall>x \<in> set (postings s). rls_tenant c (epTenant x) \<and> epId x = i \<longrightarrow> erp_checks (f x)) \<and>
     s' = s\<lparr>postings := update_where (\<lambda>x. rls_tenant c (epTenant x) \<and> epId x = i) f (postings s)\<rparr>"
  by (auto simp: update_posting_def Let_def list_all_iff)

definition item_map_new :: "tenant_context \<Rightarrow> item_mapping \<Rightarrow> erp_db \<Rightarrow> bool" where
  "item_map_new c x s \<longleftrightarrow> rls_tenant c (imTenant x) \<and> item_map_checks x \<and> imId x \<notin> imId ` set (itemMaps s) \<and>
     \<not> list_ex (item_map_active x) (itemMaps s) \<and> imProduct x \<in> tpId ` set (erpProducts s)"

lemma insert_item_map_Inr [run_simps]:
  "insert_item_map c x s = Inr (u, s') \<longleftrightarrow> item_map_new c x s \<and> s' = s\<lparr>itemMaps := itemMaps s @ [x]\<rparr>"
  unfolding insert_item_map_def item_map_new_def by (simp only: sql_check_then) auto

definition warehouse_map_new :: "tenant_context \<Rightarrow> warehouse_mapping \<Rightarrow> erp_db \<Rightarrow> bool" where
  "warehouse_map_new c x s \<longleftrightarrow> rls_tenant c (wmTenant x) \<and> warehouse_map_checks x \<and> wmId x \<notin> wmId ` set (warehouseMaps s) \<and>
     \<not> list_ex (warehouse_map_active x) (warehouseMaps s) \<and> store_exists (wmStore x) (erpSales s)"

lemma insert_warehouse_map_Inr [run_simps]:
  "insert_warehouse_map c x s = Inr (u, s') \<longleftrightarrow> warehouse_map_new c x s \<and> s' = s\<lparr>warehouseMaps := warehouseMaps s @ [x]\<rparr>"
  unfolding insert_warehouse_map_def warehouse_map_new_def by (simp only: sql_check_then) auto

lemma int4_in_Inr [run_simps]: "int4_in n = Inr m \<longleftrightarrow> m = n \<and> n < 2 ^ 31"
  by (auto simp: int4_in_def)

text \<open>The rows a versioned update takes.\<close>

definition item_row_at :: "tenant_context \<Rightarrow> uuid \<Rightarrow> nat \<Rightarrow> (item_mapping \<Rightarrow> bool) \<Rightarrow> item_mapping \<Rightarrow> bool" where
  "item_row_at c i v p x \<longleftrightarrow> rls_tenant c (imTenant x) \<and> imId x = i \<and> imVersion x = v \<and> p x"

lemma update_item_map_Inr [run_simps]:
  "update_item_map c i v p f s = Inr (r, s') \<longleftrightarrow> v < 2 ^ 31 \<and>
     (case find (item_row_at c i v p) (itemMaps s) of
        None \<Rightarrow> r = None \<and> s' = s
      | Some x \<Rightarrow> v + 1 < 2 ^ 31 \<and> r = Some (f x) \<and> s' = s\<lparr>itemMaps := update_where (item_row_at c i v p) f (itemMaps s)\<rparr>)"
proof -
  have "item_row_at c i v p = (\<lambda>x. rls_tenant c (imTenant x) \<and> imId x = i \<and> imVersion x = v \<and> p x)"
    by (rule ext) (simp add: item_row_at_def)
  then show ?thesis
    by (auto simp: update_item_map_def sql_bind_def int4_in_def Let_def split: option.splits)
qed

definition warehouse_row_at :: "tenant_context \<Rightarrow> uuid \<Rightarrow> nat \<Rightarrow> (warehouse_mapping \<Rightarrow> bool) \<Rightarrow> warehouse_mapping \<Rightarrow> bool" where
  "warehouse_row_at c i v p x \<longleftrightarrow> rls_tenant c (wmTenant x) \<and> wmId x = i \<and> wmVersion x = v \<and> p x"

lemma update_warehouse_map_Inr [run_simps]:
  "update_warehouse_map c i v p f s = Inr (r, s') \<longleftrightarrow> v < 2 ^ 31 \<and>
     (case find (warehouse_row_at c i v p) (warehouseMaps s) of
        None \<Rightarrow> r = None \<and> s' = s
      | Some x \<Rightarrow> v + 1 < 2 ^ 31 \<and> r = Some (f x) \<and> s' = s\<lparr>warehouseMaps := update_where (warehouse_row_at c i v p) f (warehouseMaps s)\<rparr>)"
proof -
  have "warehouse_row_at c i v p = (\<lambda>x. rls_tenant c (wmTenant x) \<and> wmId x = i \<and> wmVersion x = v \<and> p x)"
    by (rule ext) (simp add: warehouse_row_at_def)
  then show ?thesis
    by (auto simp: update_warehouse_map_def sql_bind_def int4_in_def Let_def split: option.splits)
qed

section \<open>Mappings\<close>

lemma succeeds_map_outcome:
  "succeeds (map_outcome there r) s m s' \<longleftrightarrow>
     s' = s \<and> m = (case r of Some x \<Rightarrow> Map_ok x | None \<Rightarrow> if there s then Map_conflict else Map_not_found)"
  by (auto simp: map_outcome_def seq_simps run_simps split: option.splits)

lemma stays_aborted_map_outcome [simp]: "stays_aborted (map_outcome there r)"
  by (simp add: map_outcome_def)

lemma suggest_succeeds:
  assumes "succeeds (suggestOnClient inp i now c) s r s'"
  shows "s' = s \<and> (\<forall>x. r \<noteq> Map_ok x) \<or>
    r = Map_ok (suggested_map inp i now) \<and> item_map_new c (suggested_map inp i now) s \<and>
    s' = s\<lparr>itemMaps := itemMaps s @ [suggested_map inp i now]\<rparr>"
  using assms unfolding suggestOnClient_def
  by (auto simp: seq_simps succeeds_savepoint succeeds_then run_simps split: if_splits)

lemma confirm_succeeds:
  assumes "succeeds (confirmOnClient i v actor now c) s r s'"
  defines "p \<equiv> item_row_at c i v (\<lambda>x. imState x = Map_suggested \<and> imRetired x = None)"
  shows "(case find p (itemMaps s) of
      None \<Rightarrow> s' = s \<and> r = (if item_map_exists c i s then Map_conflict else Map_not_found)
    | Some x \<Rightarrow> r = Map_ok (confirm_map actor now x) \<and> s' = s\<lparr>itemMaps := update_where p (confirm_map actor now) (itemMaps s)\<rparr>)"
  using assms(1) unfolding confirmOnClient_def p_def
  by (auto simp: succeeds_bind succeeds_map_outcome run_simps split: option.splits)

lemma retire_succeeds:
  assumes "succeeds (retireOnClient i v now c) s r s'"
  defines "p \<equiv> item_row_at c i v (\<lambda>x. imRetired x = None)"
  shows "(case find p (itemMaps s) of
      None \<Rightarrow> s' = s \<and> r = (if item_map_exists c i s then Map_conflict else Map_not_found)
    | Some x \<Rightarrow> r = Map_ok (retire_map now x) \<and> s' = s\<lparr>itemMaps := update_where p (retire_map now) (itemMaps s)\<rparr>)"
  using assms(1) unfolding retireOnClient_def p_def
  by (auto simp: succeeds_bind succeeds_map_outcome run_simps split: option.splits)

lemma set_succeeds:
  assumes "succeeds (set_work inp i now c) s r s'"
  shows "s' = s \<and> (\<forall>x. r \<noteq> Map_ok x) \<or>
    r = Map_ok (set_map inp i now) \<and> warehouse_map_new c (set_map inp i now) s \<and>
    s' = s\<lparr>warehouseMaps := warehouseMaps s @ [set_map inp i now]\<rparr>"
proof -
  have "act_then (act_query q) (act_return a) (Tx_open s) \<noteq> (Inl e, Tx_open s')" for q :: "erp_db \<Rightarrow> exn + unit \<times> erp_db"
      and a :: "warehouse_mapping map_result" and e s'
    by (auto simp: act_open_simps split: sum.splits prod.splits)
  with assms show ?thesis
    unfolding set_work_def
    by (auto simp: seq_simps succeeds_catch succeeds_then run_simps split: if_splits)
qed

lemma retire_warehouse_succeeds:
  assumes "succeeds (retire_warehouse_work i v now c) s r s'"
  defines "p \<equiv> warehouse_row_at c i v (\<lambda>x. wmRetired x = None)"
  shows "(case find p (warehouseMaps s) of
      None \<Rightarrow> s' = s \<and> r = (if warehouse_map_exists c i s then Map_conflict else Map_not_found)
    | Some x \<Rightarrow> r = Map_ok (retire_warehouse now x) \<and>
        s' = s\<lparr>warehouseMaps := update_where p (retire_warehouse now) (warehouseMaps s)\<rparr>)"
  using assms(1) unfolding retire_warehouse_work_def p_def
  by (auto simp: succeeds_bind succeeds_map_outcome run_simps split: option.splits)

section \<open>Postings\<close>

lemma posting_succeeds:
  "succeeds (posting_work t sale st kind anchor corr i now c) s r s' \<longleftrightarrow>
     (case find_sale c sale st (erpSales s) of
        None \<Rightarrow> \<not> r \<and> s' = s
      | Some x \<Rightarrow>
          let row = posting_row i t kind anchor x (resolveEligibility c sale st s) corr now
          in \<exists>b. insert_posting c row s = Inr (b, s') \<and> r = (b \<and> resolveEligibility c sale st s \<noteq> None))"
  unfolding posting_work_def
  by (auto simp: seq_simps succeeds_bind run_simps Let_def split: option.splits)

lemma stays_aborted_apply [simp]:
  "stays_aborted (applyPosted inp now c)" "stays_aborted (applyRejected i k now c)" "stays_aborted (applyTransient i n now c)"
  by (auto simp: applyPosted_def applyRejected_def applyTransient_def split: option.split)

lemma posted_succeeds [run_simps]:
  "succeeds (applyPosted inp now c) s r s' \<longleftrightarrow>
     (\<exists>d. akDocument inp = Some d \<and>
        update_posting c (akRef inp) (\<lambda>x. x\<lparr>epStatus := Ps_posted, epDocument := Some (serializeDocRef d), epUpdated := now\<rparr>) s = Inr ((), s') \<and>
        r = (\<lparr>rdRef = akRef inp, rdOutcome = Ack_posted, rdDocument = Some d, rdAt = now, rdDlq = False\<rparr>, False))"
  by (auto simp: applyPosted_def succeeds_then run_simps split: option.splits)

lemma rejected_succeeds [run_simps]:
  "succeeds (applyRejected i k now c) s r s' \<longleftrightarrow>
     update_posting c i (\<lambda>x. x\<lparr>epStatus := Ps_rejected, epCategory := Some k, epUpdated := now\<rparr>) s = Inr ((), s') \<and>
     r = (\<lparr>rdRef = i, rdOutcome = Ack_rejected, rdDocument = None, rdAt = now, rdDlq = True\<rparr>, True)"
  by (auto simp: applyRejected_def succeeds_then run_simps)

lemma transient_succeeds [run_simps]:
  "succeeds (applyTransient i n now c) s r s' \<longleftrightarrow>
     (if POSTING_RETRY_BUDGET \<le> n then succeeds (applyRejected i ''retry_budget_exhausted'' now c) s r s'
      else update_posting c i (\<lambda>x. x\<lparr>epStatus := Ps_pending, epRetries := epRetries x + 1, epSequence := nextSequence s, epUpdated := now\<rparr>)
          (s\<lparr>nextSequence := nextSequence s + 1\<rparr>) = Inr ((), s') \<and>
        r = (\<lparr>rdRef = i, rdOutcome = Ack_transient, rdDocument = None, rdAt = now, rdDlq = False\<rparr>, False))"
  by (auto simp: applyTransient_def succeeds_bind succeeds_then run_simps)

lemma ack_succeeds:
  "succeeds (ack_work parse inp now c) s (r, replayed, counted) s' \<longleftrightarrow>
     (\<exists>x. find_posting c (akRef inp) s = Some x \<and>
       (if epStatus x = Ps_posted \<or> epStatus x = Ps_rejected
        then sameLogicalOutcome parse x inp \<and> r = project_outcome parse x \<and> replayed \<and> \<not> counted \<and> s' = s
        else \<not> replayed \<and>
          succeeds (case akOutcome inp of
              Ack_posted \<Rightarrow> applyPosted inp now c
            | Ack_rejected \<Rightarrow> applyRejected (akRef inp) (case akCategory inp of None \<Rightarrow> ''other'' | Some k \<Rightarrow> k) now c
            | Ack_transient \<Rightarrow> applyTransient (akRef inp) (epRetries x) now c) s (r, counted) s'))"
proof (cases "find_posting c (akRef inp) s")
  case (Some x)
  have first: "succeeds (act_bind m (\<lambda>(r, counted). act_return (r, False, counted))) s (r, replayed, counted) s' \<longleftrightarrow>
      \<not> replayed \<and> succeeds m s (r, counted) s'" for m :: "(recorded_outcome \<times> bool, erp_db) action"
    by (subst succeeds_bind) (auto simp: run_simps)
  show ?thesis
  proof (cases "epStatus x = Ps_posted \<or> epStatus x = Ps_rejected")
    case True
    with Some show ?thesis by (auto simp: ack_work_def seq_simps run_simps)
  next
    case False
    then show ?thesis by (simp only: ack_work_def succeeds_bind_select Some option.case if_False first) auto
  qed
qed (simp add: ack_work_def seq_simps run_simps)

end
