(* ===== verification/ErpMachine.thy ===== *)
theory ErpMachine
  imports ErpFacts
begin

text \<open>
  The machine of the postings as moves of rows: every operation changes nothing, makes one move of the
  tenant of its request, or is an operation on the sale facts.
\<close>

section \<open>Moves\<close>

definition open_posting :: "uuid \<Rightarrow> uuid \<Rightarrow> erp_posting \<Rightarrow> erp_db \<Rightarrow> bool" where
  "open_posting t i x s \<longleftrightarrow> find_posting (tenant_ctx t) i s = Some x \<and> epStatus x \<noteq> Ps_posted \<and> epStatus x \<noteq> Ps_rejected"

abbreviation update_row :: "uuid \<Rightarrow> uuid \<Rightarrow> (erp_posting \<Rightarrow> erp_posting) \<Rightarrow> erp_posting list \<Rightarrow> erp_posting list" where
  "update_row t i f rows \<equiv> update_where (\<lambda>x. rls_tenant (tenant_ctx t) (epTenant x) \<and> epId x = i) f rows"

definition mark_posted :: "string \<Rightarrow> timestamptz \<Rightarrow> erp_posting \<Rightarrow> erp_posting" where
  "mark_posted d now x = x\<lparr>epStatus := Ps_posted, epDocument := Some d, epUpdated := now\<rparr>"

definition mark_rejected :: "string \<Rightarrow> timestamptz \<Rightarrow> erp_posting \<Rightarrow> erp_posting" where
  "mark_rejected k now x = x\<lparr>epStatus := Ps_rejected, epCategory := Some k, epUpdated := now\<rparr>"

definition mark_transient :: "nat \<Rightarrow> timestamptz \<Rightarrow> erp_posting \<Rightarrow> erp_posting" where
  "mark_transient n now x = x\<lparr>epStatus := Ps_pending, epRetries := Suc (epRetries x), epSequence := n, epUpdated := now\<rparr>"

text \<open>The index of a move: the posting it acknowledges, if it is an acknowledgement.\<close>

inductive erp_move :: "uuid \<Rightarrow> uuid option \<Rightarrow> erp_db \<Rightarrow> erp_db \<Rightarrow> bool" for t where
  em_draw: "erp_move t None s (s\<lparr>nextSequence := Suc (nextSequence s)\<rparr>)"
| em_request: "posting_new (tenant_ctx t) x s \<Longrightarrow> epStatus x = (if epCategory x = None then Ps_pending else Ps_rejected) \<Longrightarrow>
     epRetries x = 0 \<Longrightarrow>
     erp_move t None s (s\<lparr>nextSequence := Suc (nextSequence s), postings := postings s @ [x\<lparr>epSequence := nextSequence s\<rparr>]\<rparr>)"
| em_posted: "open_posting t i x s \<Longrightarrow> erp_move t (Some i) s (s\<lparr>postings := update_row t i (mark_posted d now) (postings s)\<rparr>)"
| em_rejected: "open_posting t i x s \<Longrightarrow> (\<forall>y \<in> set (postings s). epTenant y = t \<and> epId y = i \<longrightarrow> erp_checks (mark_rejected k now y)) \<Longrightarrow>
     erp_move t (Some i) s (s\<lparr>postings := update_row t i (mark_rejected k now) (postings s)\<rparr>)"
| em_transient: "open_posting t i x s \<Longrightarrow> epRetries x < POSTING_RETRY_BUDGET \<Longrightarrow>
     erp_move t (Some i) s (s\<lparr>nextSequence := Suc (nextSequence s), postings := update_row t i (mark_transient (nextSequence s) now) (postings s)\<rparr>)"
| em_suggest: "item_map_new (tenant_ctx t) x s \<Longrightarrow> imRetired x = None \<Longrightarrow> erp_move t None s (s\<lparr>itemMaps := itemMaps s @ [x]\<rparr>)"
| em_confirm: "find (item_row_at (tenant_ctx t) i v (\<lambda>x. imState x = Map_suggested \<and> imRetired x = None)) (itemMaps s) = Some x \<Longrightarrow>
     erp_move t None s (s\<lparr>itemMaps := update_where (item_row_at (tenant_ctx t) i v (\<lambda>x. imState x = Map_suggested \<and> imRetired x = None))
       (confirm_map actor now) (itemMaps s)\<rparr>)"
| em_retire: "find (item_row_at (tenant_ctx t) i v (\<lambda>x. imRetired x = None)) (itemMaps s) = Some x \<Longrightarrow>
     erp_move t None s (s\<lparr>itemMaps := update_where (item_row_at (tenant_ctx t) i v (\<lambda>x. imRetired x = None)) (retire_map now) (itemMaps s)\<rparr>)"
| em_set: "warehouse_map_new (tenant_ctx t) x s \<Longrightarrow> wmRetired x = None \<Longrightarrow> erp_move t None s (s\<lparr>warehouseMaps := warehouseMaps s @ [x]\<rparr>)"
| em_drop: "find (warehouse_row_at (tenant_ctx t) i v (\<lambda>x. wmRetired x = None)) (warehouseMaps s) = Some x \<Longrightarrow>
     erp_move t None s (s\<lparr>warehouseMaps := update_where (warehouse_row_at (tenant_ctx t) i v (\<lambda>x. wmRetired x = None))
       (retire_warehouse now) (warehouseMaps s)\<rparr>)"

fun request_tenant :: "request_context \<Rightarrow> uuid option" where
  "request_tenant None = None"
| "request_tenant (Some c) = rcTenant c"

fun erp_op_ack :: "erp_op \<Rightarrow> uuid option" where
  "erp_op_ack (Erp_ack p i b now) = Some i"
| "erp_op_ack op = None"

fun erp_op_tenant :: "erp_op \<Rightarrow> uuid option" where
  "erp_op_tenant (Erp_sales op) = sales_op_tenant op"
| "erp_op_tenant (Erp_consume e i now) = Some (ceTenant e)"
| "erp_op_tenant (Erp_ack p i b now) = (case connector_tenant p of Inl e \<Rightarrow> None | Inr t \<Rightarrow> Some t)"
| "erp_op_tenant (Erp_suggest req p ref i now) = request_tenant req"
| "erp_op_tenant (Erp_confirm req i v now) = request_tenant req"
| "erp_op_tenant (Erp_retire req i v now) = request_tenant req"
| "erp_op_tenant (Erp_set_warehouse req st ref i now) = request_tenant req"
| "erp_op_tenant (Erp_retire_warehouse req i v now) = request_tenant req"

section \<open>Every operation is a move\<close>

lemma posting_work_moves:
  assumes "succeeds (posting_work t sale st kind anchor corr i now (tenant_ctx t)) s r s'"
  shows "s' = s \<or> erp_move t None s s'"
proof (cases "find_sale (tenant_ctx t) sale st (erpSales s)")
  case (Some x)
  let ?row = "posting_row i t kind anchor x (resolveEligibility (tenant_ctx t) sale st s) corr now"
  from assms Some obtain b where ins: "insert_posting (tenant_ctx t) ?row s = Inr (b, s')"
    by (auto simp: posting_succeeds Let_def)
  have "epStatus ?row = (if epCategory ?row = None then Ps_pending else Ps_rejected)" "epRetries ?row = 0"
    by (simp_all add: posting_row_def)
  with ins em_request [of t ?row s] em_draw [of t s] show ?thesis by (simp add: insert_posting_Inr split: if_splits)
qed (use assms in \<open>simp add: posting_succeeds\<close>)

lemma applied_moves:
  assumes "open_posting t i x s"
  shows "succeeds (applyRejected i k now (tenant_ctx t)) s r s' \<Longrightarrow> erp_move t (Some i) s s'"
    and "succeeds (applyTransient i (epRetries x) now (tenant_ctx t)) s r s' \<Longrightarrow> erp_move t (Some i) s s'"
    and "succeeds (applyPosted inp now (tenant_ctx t)) s r s' \<Longrightarrow> akRef inp = i \<Longrightarrow> erp_move t (Some i) s s'"
proof -
  have f: "(\<lambda>x. x\<lparr>epStatus := Ps_rejected, epCategory := Some k, epUpdated := now\<rparr>) = mark_rejected k now" for k
    by (rule ext) (simp add: mark_rejected_def)
  have g: "(\<lambda>x. x\<lparr>epStatus := Ps_pending, epRetries := Suc (epRetries x), epSequence := n, epUpdated := now\<rparr>) = mark_transient n now" for n
    by (rule ext) (simp add: mark_transient_def)
  have h: "(\<lambda>x. x\<lparr>epStatus := Ps_posted, epDocument := Some d, epUpdated := now\<rparr>) = mark_posted d now" for d
    by (rule ext) (simp add: mark_posted_def)
  show rejected: "succeeds (applyRejected i k now (tenant_ctx t)) s r s' \<Longrightarrow> erp_move t (Some i) s s'" for k r s'
    using em_rejected [OF assms] by (auto simp: run_simps f)
  show "succeeds (applyTransient i (epRetries x) now (tenant_ctx t)) s r s' \<Longrightarrow> erp_move t (Some i) s s'"
    using em_transient [OF assms] rejected by (auto simp: transient_succeeds run_simps g split: if_splits)
  show "succeeds (applyPosted inp now (tenant_ctx t)) s r s' \<Longrightarrow> akRef inp = i \<Longrightarrow> erp_move t (Some i) s s'"
    using em_posted [OF assms] by (auto simp: posted_succeeds run_simps h)
qed

lemma ack_moves:
  assumes "succeeds (ack_work parse inp now (tenant_ctx (akTenant inp))) s r s'"
  shows "s' = s \<or> erp_move (akTenant inp) (Some (akRef inp)) s s'"
proof -
  obtain o' e k where r: "r = (o', e, k)" by (cases r)
  from assms obtain x where x: "find_posting (tenant_ctx (akTenant inp)) (akRef inp) s = Some x"
    by (auto simp: r ack_succeeds)
  show ?thesis
  proof (cases "epStatus x = Ps_posted \<or> epStatus x = Ps_rejected")
    case False
    then have "open_posting (akTenant inp) (akRef inp) x s" using x by (simp add: open_posting_def)
    from applied_moves [OF this] assms False x show ?thesis
      by (auto simp: r ack_succeeds split: ack_outcome.splits)
  qed (use assms x in \<open>auto simp: r ack_succeeds\<close>)
qed

lemma suggest_moves: "succeeds (suggestOnClient inp i now (tenant_ctx t)) s r s' \<Longrightarrow> s' = s \<or> erp_move t None s s'"
  by (drule suggest_succeeds) (auto intro!: em_suggest simp: suggested_map_def)

lemma confirm_moves: "succeeds (confirmOnClient i v actor now (tenant_ctx t)) s r s' \<Longrightarrow> s' = s \<or> erp_move t None s s'"
  by (drule confirm_succeeds) (auto intro: em_confirm split: option.splits)

lemma retire_moves: "succeeds (retireOnClient i v now (tenant_ctx t)) s r s' \<Longrightarrow> s' = s \<or> erp_move t None s s'"
  by (drule retire_succeeds) (auto intro: em_retire split: option.splits)

lemma set_moves: "succeeds (set_work inp i now (tenant_ctx t)) s r s' \<Longrightarrow> s' = s \<or> erp_move t None s s'"
  by (drule set_succeeds) (auto intro!: em_set simp: set_map_def)

lemma drop_moves: "succeeds (retire_warehouse_work i v now (tenant_ctx t)) s r s' \<Longrightarrow> s' = s \<or> erp_move t None s s'"
  by (drule retire_warehouse_succeeds) (auto intro: em_drop split: option.splits)

lemma committed_erp_move:
  assumes "\<And>a s'. succeeds (m c) s a s' \<Longrightarrow> s' = s \<or> erp_move t k s s'"
  shows "snd (runWithTenantContext c (\<lambda>c. as_work (m c)) s) = s \<or> erp_move t k s (snd (runWithTenantContext c (\<lambda>c. as_work (m c)) s))"
  using run_commits_or_nothing [of c m s] assms by auto

lemma requireMapContext_tenant: "requireMapContext req = Inr (t, u) \<Longrightarrow> request_tenant req = Some t"
  by (auto simp: requireMapContext_def split: option.splits)

lemma service_moves:
  "snd (item_map_suggest inp i now s) = s \<or> erp_move (siTenant inp) None s (snd (item_map_suggest inp i now s))"
  "snd (item_map_confirm t i v actor now s) = s \<or> erp_move t None s (snd (item_map_confirm t i v actor now s))"
  "snd (item_map_retire t i v now s) = s \<or> erp_move t None s (snd (item_map_retire t i v now s))"
  "snd (warehouse_map_set winp i now s) = s \<or> erp_move (swTenant winp) None s (snd (warehouse_map_set winp i now s))"
  "snd (warehouse_map_retire t i v now s) = s \<or> erp_move t None s (snd (warehouse_map_retire t i v now s))"
  "snd (ackOutcome parse ainp now s) = s \<or> erp_move (akTenant ainp) (Some (akRef ainp)) s (snd (ackOutcome parse ainp now s))"
  unfolding item_map_suggest_def item_map_confirm_def item_map_retire_def warehouse_map_set_def warehouse_map_retire_def ackOutcome_def
  by (intro committed_erp_move; erule suggest_moves confirm_moves retire_moves set_moves drop_moves ack_moves)+

lemma consume_moves: "snd (posting_handle parse e i now s) = s \<or> erp_move (ceTenant e) None s (snd (posting_handle parse e i now s))"
proof (cases "Option.bind (parse (cePayload e)) posting_request")
  case (Some k)
  then obtain sale st kind anchor where k: "k = (sale, st, kind, anchor)" by (cases k)
  have "snd (posting_handle parse e i now s) = snd (runWithTenantContext (tenant_ctx (ceTenant e))
      (\<lambda>c. as_work (posting_work (ceTenant e) sale st kind anchor (ceCorrelation e) i now c)) s)"
    by (simp add: posting_handle_def Some k)
  with committed_erp_move [where m = "posting_work (ceTenant e) sale st kind anchor (ceCorrelation e) i now", OF posting_work_moves]
  show ?thesis by simp
qed (simp add: posting_handle_def)

text \<open>The routes reject a request or run their service for the tenant of the request.\<close>

lemma route_moves:
  assumes "\<And>e. requireMapContext req = Inl e \<Longrightarrow> s' = s"
    and "\<And>t u. requireMapContext req = Inr (t, u) \<Longrightarrow> s' = s \<or> erp_move t None s s'"
  shows "s' = s \<or> (\<exists>t. request_tenant req = Some t \<and> erp_move t None s s')"
proof (cases "requireMapContext req")
  case (Inr k)
  then obtain t u where k: "requireMapContext req = Inr (t, u)" by (cases k) auto
  from requireMapContext_tenant [OF k] assms(2) [OF k] show ?thesis by auto
qed (use assms(1) in simp)

lemmas route_defs = item_map_suggest_route_def item_map_confirm_route_def item_map_retire_route_def
  warehouse_map_set_route_def warehouse_map_retire_route_def

lemma erp_step_moves:
  "erp_step env parse op s = s \<or> (\<exists>t. erp_op_tenant op = Some t \<and> erp_move t (erp_op_ack op) s (erp_step env parse op s)) \<or>
   (\<exists>sop. op = Erp_sales sop)"
proof (cases op)
  case (Erp_consume e i now)
  with consume_moves [of parse e i now s] show ?thesis by auto
next
  case (Erp_ack p i b now)
  show ?thesis
  proof (cases "connector_tenant p")
    case (Inr t)
    with service_moves(6) [of parse "\<lparr>akTenant = t, akRef = i, akOutcome = abOutcome b, akDocument = abDocument b,
      akCategory = map_option fst (abReason b)\<rparr>" now s] show ?thesis
      by (auto simp: Erp_ack ackOutcome_route_def split: prod.splits sum.splits)
  qed (simp add: Erp_ack ackOutcome_route_def)
next
  case (Erp_suggest req p ref i now)
  have "erp_step env parse op s = s \<or> (\<exists>t. request_tenant req = Some t \<and> erp_move t None s (erp_step env parse op s))"
    unfolding Erp_suggest
  proof (rule route_moves)
    fix t u assume "requireMapContext req = Inr (t, u)"
    with service_moves(1) [of "\<lparr>siTenant = t, siProduct = p, siRef = ref, siActor = u\<rparr>" i now s]
    show "erp_step env parse (Erp_suggest req p ref i now) s = s \<or> erp_move t None s (erp_step env parse (Erp_suggest req p ref i now) s)"
      by (simp add: route_defs case_prod_unfold)
  qed (simp add: route_defs)
  then show ?thesis by (auto simp: Erp_suggest)
next
  case (Erp_set_warehouse req st ref i now)
  have "erp_step env parse op s = s \<or> (\<exists>t. request_tenant req = Some t \<and> erp_move t None s (erp_step env parse op s))"
    unfolding Erp_set_warehouse
  proof (rule route_moves)
    fix t u assume "requireMapContext req = Inr (t, u)"
    with service_moves(4) [of "\<lparr>swTenant = t, swStore = st, swRef = ref, swActor = u\<rparr>" i now s]
    show "erp_step env parse (Erp_set_warehouse req st ref i now) s = s \<or>
        erp_move t None s (erp_step env parse (Erp_set_warehouse req st ref i now) s)"
      by (simp add: route_defs case_prod_unfold)
  qed (simp add: route_defs)
  then show ?thesis by (auto simp: Erp_set_warehouse)
next
  case (Erp_confirm req i v now)
  have "erp_step env parse op s = s \<or> (\<exists>t. request_tenant req = Some t \<and> erp_move t None s (erp_step env parse op s))"
    unfolding Erp_confirm by (rule route_moves) (use service_moves(2) in \<open>auto simp: route_defs case_prod_unfold\<close>)
  then show ?thesis by (auto simp: Erp_confirm)
next
  case (Erp_retire req i v now)
  have "erp_step env parse op s = s \<or> (\<exists>t. request_tenant req = Some t \<and> erp_move t None s (erp_step env parse op s))"
    unfolding Erp_retire by (rule route_moves) (use service_moves(3) in \<open>auto simp: route_defs case_prod_unfold\<close>)
  then show ?thesis by (auto simp: Erp_retire)
next
  case (Erp_retire_warehouse req i v now)
  have "erp_step env parse op s = s \<or> (\<exists>t. request_tenant req = Some t \<and> erp_move t None s (erp_step env parse op s))"
    unfolding Erp_retire_warehouse by (rule route_moves) (use service_moves(5) in \<open>auto simp: route_defs case_prod_unfold\<close>)
  then show ?thesis by (auto simp: Erp_retire_warehouse)
qed simp

end
