(* ===== verification/ErpInvariant.thy ===== *)
theory ErpInvariant
  imports ErpMachine
begin

text \<open>
  The invariant of the postings and of the mappings, and what a run keeps of their rows: a posting
  keeps what it was requested for and ends once, a mapping is confirmed and retired at most once, and
  its version only grows.
\<close>

section \<open>The invariant\<close>

definition posting_row_ok :: "erp_db \<Rightarrow> erp_posting \<Rightarrow> bool" where
  "posting_row_ok s x \<longleftrightarrow> erp_checks x \<and> epSequence x < nextSequence s \<and> epRetries x \<le> POSTING_RETRY_BUDGET \<and>
     epStatus x \<noteq> Ps_transient \<and> (epStatus x = Ps_rejected \<longleftrightarrow> epCategory x \<noteq> None) \<and>
     (epSale x, epTenant x, epStore x) \<in> scopes (erpSales s)"

abbreviation origin :: "erp_posting \<Rightarrow> uuid \<times> uuid" where
  "origin x \<equiv> (epTenant x, epRef x)"

definition postings_ok :: "erp_db \<Rightarrow> bool" where
  "postings_ok s \<longleftrightarrow> distinct (map epId (postings s)) \<and> distinct (map origin (postings s)) \<and>
     distinct (map epSequence (postings s)) \<and> (\<forall>x \<in> set (postings s). posting_row_ok s x)"

definition item_maps_ok :: "erp_db \<Rightarrow> bool" where
  "item_maps_ok s \<longleftrightarrow> distinct (map imId (itemMaps s)) \<and> (\<forall>x \<in> set (itemMaps s). item_map_checks x) \<and>
     distinct (map (\<lambda>x. (imTenant x, imProduct x)) (filter (\<lambda>x. imRetired x = None) (itemMaps s)))"

definition warehouse_maps_ok :: "erp_db \<Rightarrow> bool" where
  "warehouse_maps_ok s \<longleftrightarrow> distinct (map wmId (warehouseMaps s)) \<and> (\<forall>x \<in> set (warehouseMaps s). warehouse_map_checks x) \<and>
     distinct (map (\<lambda>x. (wmTenant x, wmStore x, wmPurpose x)) (filter (\<lambda>x. wmRetired x = None) (warehouseMaps s)))"

definition erp_ok :: "erp_db \<Rightarrow> bool" where
  "erp_ok s \<longleftrightarrow> sales_ok (erpSales s) \<and> postings_ok s \<and> item_maps_ok s \<and> warehouse_maps_ok s"

section \<open>Postings\<close>

lemma mark_sel [simp]:
  "epId (mark_posted d now x) = epId x" "origin (mark_posted d now x) = origin x" "epSequence (mark_posted d now x) = epSequence x"
  "epId (mark_rejected k now x) = epId x" "origin (mark_rejected k now x) = origin x" "epSequence (mark_rejected k now x) = epSequence x"
  "epId (mark_transient n now x) = epId x" "origin (mark_transient n now x) = origin x" "epSequence (mark_transient n now x) = n"
  by (simp_all add: mark_posted_def mark_rejected_def mark_transient_def)

lemma open_postingD:
  "open_posting t i x s \<Longrightarrow> x \<in> set (postings s) \<and> epTenant x = t \<and> epId x = i \<and> epStatus x \<noteq> Ps_posted \<and> epStatus x \<noteq> Ps_rejected"
  unfolding open_posting_def find_posting_def by (auto dest: find_SomeD)

lemma marked_row:
  assumes "postings_ok s" and "open_posting t i x s" and "y \<in> set (update_row t i f (postings s))"
  shows "y \<in> set (postings s) \<and> (epTenant y, epId y) \<noteq> (t, i) \<or> y = f x"
proof -
  have "y \<in> set (postings s) \<and> \<not> (rls_tenant (tenant_ctx t) (epTenant y) \<and> epId y = i) \<or> y = f x"
    by (rule update_one_row [of epId "postings s" _ i]) (use assms open_postingD [OF assms(2)] in \<open>auto simp: postings_ok_def\<close>)
  then show ?thesis by auto
qed

text \<open>A mark that keeps id and origin, draws a fresh sequence or none, and leaves its row well-formed.\<close>

lemma mark_postings_ok:
  assumes ok: "postings_ok s" and row: "open_posting t i x s"
    and f: "\<And>y. epId (f y) = epId y" "\<And>y. origin (f y) = origin y"
    and n: "nextSequence s' \<ge> nextSequence s" "(\<forall>y. epSequence (f y) = epSequence y) \<or> (\<forall>y. epSequence (f y) = nextSequence s)"
    and new: "posting_row_ok s' (f x)"
    and s': "postings s' = update_row t i f (postings s)" "erpSales s' = erpSales s"
  shows "postings_ok s'"
proof -
  have "distinct (map epSequence (update_row t i f (postings s)))"
    using n(2)
  proof
    assume "\<forall>y. epSequence (f y) = epSequence y"
    with ok show ?thesis by (simp add: map_update_where postings_ok_def)
  next
    assume "\<forall>y. epSequence (f y) = nextSequence s"
    moreover have "epSequence y < nextSequence s" if "y \<in> set (postings s)" for y
      using ok that by (simp add: postings_ok_def posting_row_ok_def)
    then have "nextSequence s \<notin> epSequence ` set (postings s)" by fastforce
    ultimately show ?thesis
      using ok by (intro distinct_update_one [of epId _ _ i]) (auto simp: postings_ok_def)
  qed
  moreover have "posting_row_ok s' y" if "y \<in> set (update_row t i f (postings s))" for y
    using marked_row [OF ok row that] new ok n(1) s'(2) by (auto simp: postings_ok_def posting_row_ok_def)
  ultimately show ?thesis
    using ok f by (simp add: s' postings_ok_def map_update_where)
qed

lemma move_postings_ok: "erp_move t k s s' \<Longrightarrow> postings_ok s \<Longrightarrow> postings_ok s'"
proof (induction rule: erp_move.induct)
  case (em_draw s)
  then show ?case by (auto simp: postings_ok_def posting_row_ok_def)
next
  case (em_request x s)
  have "epSequence y < nextSequence s" if "y \<in> set (postings s)" for y
    using em_request(4) that by (simp add: postings_ok_def posting_row_ok_def)
  then have fresh: "nextSequence s \<notin> epSequence ` set (postings s)" by fastforce
  from em_request fresh show ?case
    by (auto simp: postings_ok_def posting_new_def posting_row_ok_def)
next
  case (em_posted i x s d now)
  then have x: "posting_row_ok s x" "x \<in> set (postings s)" by (auto simp: postings_ok_def dest: open_postingD)
  show ?case
    by (rule mark_postings_ok [OF em_posted(2,1)])
       (use x open_postingD [OF em_posted(1)] in \<open>auto simp: posting_row_ok_def erp_checks_def mark_posted_def\<close>)
next
  case (em_rejected i x s k now)
  then have x: "posting_row_ok s x" "x \<in> set (postings s)" "erp_checks (mark_rejected k now x)"
    by (auto simp: postings_ok_def dest: open_postingD)
  show ?case
    by (rule mark_postings_ok [OF em_rejected(3,1)])
       (use x open_postingD [OF em_rejected(1)] in \<open>auto simp: posting_row_ok_def mark_rejected_def\<close>)
next
  case (em_transient i x s now)
  then have x: "posting_row_ok s x" "x \<in> set (postings s)" by (auto simp: postings_ok_def dest: open_postingD)
  show ?case
    by (rule mark_postings_ok [OF em_transient(3,1)])
       (use x em_transient(2) open_postingD [OF em_transient(1)] in \<open>auto simp: posting_row_ok_def erp_checks_def mark_transient_def\<close>)
qed (auto simp: postings_ok_def posting_row_ok_def)

section \<open>Mappings\<close>

lemma active_distinct_snoc:
  "distinct (map g (filter p xs)) \<Longrightarrow> (\<forall>y \<in> set xs. p y \<longrightarrow> g y \<noteq> g x) \<Longrightarrow> distinct (map g (filter p (xs @ [x])))"
  by auto

lemma retired_distinct:
  assumes "distinct (map g (filter p xs))" and "\<And>y. q y \<Longrightarrow> \<not> p (f y)"
  shows "distinct (map g (filter p (update_where q f xs)))"
proof -
  have "filter p (update_where q f xs) = filter (\<lambda>x. \<not> q x) (filter p xs)"
    using filter_update_where_leave [of q p f xs] assms(2) by (simp add: conj_commute)
  with assms(1) show ?thesis by (simp add: distinct_map_filter del: filter_filter)
qed

lemma confirmed_distinct:
  assumes "distinct (map g (filter p xs))" and "\<And>y. p (f y) = p y" and "\<And>y. g (f y) = g y"
  shows "distinct (map g (filter p (update_where q f xs)))"
proof -
  have "map g (filter p (update_where q f xs)) = map g (filter p xs)" using assms(2,3) by (intro map_filter_update_where) auto
  with assms(1) show ?thesis by simp
qed

lemma move_item_maps_ok: "erp_move t k s s' \<Longrightarrow> item_maps_ok s \<Longrightarrow> item_maps_ok s'"
proof (induction rule: erp_move.induct)
  case (em_suggest x s)
  then have "\<forall>y \<in> set (itemMaps s). imRetired y = None \<longrightarrow> (imTenant y, imProduct y) \<noteq> (imTenant x, imProduct x)"
    by (auto simp: item_map_new_def list_ex_iff item_map_active_def)
  with em_suggest show ?case by (auto simp: item_maps_ok_def item_map_new_def)
next
  case (em_confirm i v s x actor now)
  have "item_map_checks y" if "y \<in> set (update_where (item_row_at (tenant_ctx t) i v (\<lambda>x. imState x = Map_suggested \<and> imRetired x = None))
      (confirm_map actor now) (itemMaps s))" for y
    using that em_confirm(2) by (auto simp: set_update_where item_maps_ok_def item_map_checks_def confirm_map_def)
  with em_confirm(2) show ?case
    by (simp add: item_maps_ok_def map_update_where confirm_map_def confirmed_distinct)
next
  case (em_retire i v s x now)
  have "item_map_checks y" if "y \<in> set (update_where (item_row_at (tenant_ctx t) i v (\<lambda>x. imRetired x = None))
      (retire_map now) (itemMaps s))" for y
    using that em_retire(2) by (auto simp: set_update_where item_maps_ok_def item_map_checks_def retire_map_def)
  with em_retire(2) show ?case
    by (simp add: item_maps_ok_def map_update_where retire_map_def retired_distinct)
qed (auto simp: item_maps_ok_def)

lemma move_warehouse_maps_ok: "erp_move t k s s' \<Longrightarrow> warehouse_maps_ok s \<Longrightarrow> warehouse_maps_ok s'"
proof (induction rule: erp_move.induct)
  case (em_set x s)
  then have "\<forall>y \<in> set (warehouseMaps s). wmRetired y = None \<longrightarrow>
      (wmTenant y, wmStore y, wmPurpose y) \<noteq> (wmTenant x, wmStore x, wmPurpose x)"
    by (auto simp: warehouse_map_new_def list_ex_iff warehouse_map_active_def)
  with em_set show ?case by (auto simp: warehouse_maps_ok_def warehouse_map_new_def)
next
  case (em_drop i v s x now)
  have "warehouse_map_checks y" if "y \<in> set (update_where (warehouse_row_at (tenant_ctx t) i v (\<lambda>x. wmRetired x = None))
      (retire_warehouse now) (warehouseMaps s))" for y
    using that em_drop(2) by (auto simp: set_update_where warehouse_maps_ok_def warehouse_map_checks_def retire_warehouse_def)
  with em_drop(2) show ?case
    by (simp add: warehouse_maps_ok_def map_update_where retire_warehouse_def retired_distinct)
qed (auto simp: warehouse_maps_ok_def)

section \<open>Runs\<close>

lemma move_keeps_sales: "erp_move t k s s' \<Longrightarrow> erpSales s' = erpSales s"
  by (induction rule: erp_move.induct) simp_all

lemma move_erp_ok: "erp_move t k s s' \<Longrightarrow> erp_ok s \<Longrightarrow> erp_ok s'"
  using move_postings_ok move_item_maps_ok move_warehouse_maps_ok move_keeps_sales by (simp add: erp_ok_def)

lemma step_scopes: "sales_ok s \<Longrightarrow> scopes s \<subseteq> scopes (sales_step env op s)"
  using sales_step_moves [of env op s] move_scopes by fastforce

lemma sales_erp_ok: "erp_ok s \<Longrightarrow> erp_ok (s\<lparr>erpSales := sales_step env op (erpSales s)\<rparr>)"
  using step_scopes [of "erpSales s" env op]
  by (auto simp: erp_ok_def step_sales_ok postings_ok_def posting_row_ok_def item_maps_ok_def warehouse_maps_ok_def)

lemma step_erp_ok: "erp_ok s \<Longrightarrow> erp_ok (erp_step env parse op s)"
  using erp_step_moves [of env parse op s] sales_erp_ok by (auto dest: move_erp_ok)

lemma run_erp_ok: "erp_ok s \<Longrightarrow> erp_ok (erp_run env parse ops s)"
  by (induction ops arbitrary: s) (simp_all add: erp_run_def step_erp_ok)

end
