(* ===== verification/ErpLife.thy ===== *)
theory ErpLife
  imports ErpInvariant
begin

text \<open>
  What a run leaves of the rows of postings and mappings, and what the cursor of the feed means: a row
  keeps its sequence unless it is acknowledged, so a pull that starts behind a row and ends after it
  has offered it.
\<close>

section \<open>The history of a row\<close>

definition posting_facts :: "erp_posting \<Rightarrow> (uuid \<times> uuid \<times> uuid \<times> uuid) \<times> posting_kind \<times> uuid \<times> string \<times> string \<times> string \<times> uuid option" where
  "posting_facts x = ((epId x, epTenant x, epStore x, epSale x), epKind x, epRef x, epSource x, epExternal x, epHash x, epCorrelation x)"

definition posting_life :: "uuid set \<Rightarrow> erp_posting \<Rightarrow> erp_posting \<Rightarrow> bool" where
  "posting_life T x y \<longleftrightarrow> y = x \<or> epTenant x \<in> T \<and> epStatus x \<noteq> Ps_posted \<and> epStatus x \<noteq> Ps_rejected \<and>
     posting_facts y = posting_facts x \<and> epRetries x \<le> epRetries y \<and> epSequence x \<le> epSequence y"

definition map_facts :: "item_mapping \<Rightarrow> (uuid \<times> uuid \<times> uuid) \<times> string \<times> suggestion_source \<times> uuid option \<times> timestamptz" where
  "map_facts x = ((imId x, imTenant x, imProduct x), imRef x, imSource x, imSuggestedBy x, imSuggestedAt x)"

abbreviation "confirmation x \<equiv> (imState x, imConfirmedBy x, imConfirmedAt x)"

definition map_life :: "uuid set \<Rightarrow> item_mapping \<Rightarrow> item_mapping \<Rightarrow> bool" where
  "map_life T x y \<longleftrightarrow> y = x \<or> imTenant x \<in> T \<and> imRetired x = None \<and> map_facts y = map_facts x \<and> imVersion x < imVersion y \<and>
     (imState x = Map_confirmed \<longrightarrow> confirmation y = confirmation x)"

definition warehouse_life :: "uuid set \<Rightarrow> warehouse_mapping \<Rightarrow> warehouse_mapping \<Rightarrow> bool" where
  "warehouse_life T x y \<longleftrightarrow> y = x \<or> wmTenant x \<in> T \<and> wmRetired x = None \<and> (\<exists>now. y = retire_warehouse now x)"

definition erp_extends :: "uuid set \<Rightarrow> erp_db \<Rightarrow> erp_db \<Rightarrow> bool" where
  "erp_extends T s s' \<longleftrightarrow>
     table_extends (posting_life T) (\<lambda>x. epTenant x \<in> T) (postings s) (postings s') \<and>
     table_extends (map_life T) (\<lambda>x. imTenant x \<in> T) (itemMaps s) (itemMaps s') \<and>
     table_extends (warehouse_life T) (\<lambda>x. wmTenant x \<in> T) (warehouseMaps s) (warehouseMaps s') \<and>
     sales_extends (erpSales s) (erpSales s') \<and> nextSequence s \<le> nextSequence s'"

lemma life_refl [simp]: "posting_life T x x" "map_life T k k" "warehouse_life T u u"
  by (simp_all add: posting_life_def map_life_def warehouse_life_def)

lemma facts_tenant:
  "posting_facts y = posting_facts x \<Longrightarrow> epTenant y = epTenant x" "map_facts l = map_facts k \<Longrightarrow> imTenant l = imTenant k"
  by (simp_all add: posting_facts_def map_facts_def)

lemma posting_life_trans: "posting_life T x y \<Longrightarrow> posting_life T y z \<Longrightarrow> posting_life T x z"
  using facts_tenant(1) [of y x] unfolding posting_life_def by (elim disjE conjE) auto

lemma map_life_trans: "map_life T k l \<Longrightarrow> map_life T l m \<Longrightarrow> map_life T k m"
  using facts_tenant(2) [of l k] unfolding map_life_def by (elim disjE conjE) auto

lemma warehouse_life_trans: "warehouse_life T u v \<Longrightarrow> warehouse_life T v w \<Longrightarrow> warehouse_life T u w"
  unfolding warehouse_life_def by (elim disjE conjE exE) (auto simp: retire_warehouse_def)

lemma life_tenant:
  "posting_life T x y \<Longrightarrow> epTenant y = epTenant x" "map_life T k l \<Longrightarrow> imTenant l = imTenant k"
  "warehouse_life T u v \<Longrightarrow> wmTenant v = wmTenant u"
  using facts_tenant(1) [of y x] facts_tenant(2) [of l k] unfolding posting_life_def map_life_def warehouse_life_def
  by (auto simp: retire_warehouse_def)

lemma erp_extends_refl [simp]: "erp_extends T s s"
  by (simp add: erp_extends_def table_extends_refl)

lemma erp_extends_trans: "erp_extends T s s' \<Longrightarrow> erp_extends T s' s'' \<Longrightarrow> erp_extends T s s''"
  unfolding erp_extends_def
  by (elim conjE, intro conjI)
     (rule table_extends_trans [where rel = "posting_life T"], auto intro: posting_life_trans dest: life_tenant,
      rule table_extends_trans [where rel = "map_life T"], auto intro: map_life_trans dest: life_tenant,
      rule table_extends_trans [where rel = "warehouse_life T"], auto intro: warehouse_life_trans dest: life_tenant,
      erule (1) sales_extends_trans)

lemma erp_extends_mono:
  assumes "erp_extends T s s'" and "T \<subseteq> U"
  shows "erp_extends U s s'"
proof -
  have "posting_life T x y \<Longrightarrow> posting_life U x y" "map_life T k l \<Longrightarrow> map_life U k l" "warehouse_life T u v \<Longrightarrow> warehouse_life U u v"
    for x y k l u v
    using assms(2) by (auto simp: posting_life_def map_life_def warehouse_life_def)
  with assms show ?thesis unfolding erp_extends_def by (elim conjE, intro conjI) (auto elim!: table_extends_weaken)
qed

lemma open_posting_only:
  assumes "postings_ok s" and "open_posting t i x s" and "y \<in> set (postings s)" and "epId y = i"
  shows "y = x"
  using assms open_postingD [OF assms(2)] distinct_key_unique [of epId "postings s" y x] by (auto simp: postings_ok_def)

lemma mark_extends:
  assumes "erp_ok s" and "open_posting t i x s" and "posting_facts (f x) = posting_facts x" and "epRetries x \<le> epRetries (f x)"
    and "epSequence x \<le> epSequence (f x)"
  shows "table_extends (posting_life {t}) new (postings s) (update_row t i f (postings s))"
proof (rule table_extends_update_where)
  fix y assume "y \<in> set (postings s)" "rls_tenant (tenant_ctx t) (epTenant y) \<and> epId y = i"
  with open_posting_only [OF _ assms(2)] assms(1) have "y = x" by (simp add: erp_ok_def)
  with assms(3-5) open_postingD [OF assms(2)] show "posting_life {t} y (f y)" by (simp add: posting_life_def)
qed simp

lemma move_extends_erp: "erp_move t k s s' \<Longrightarrow> erp_ok s \<Longrightarrow> erp_extends {t} s s'"
proof (induction rule: erp_move.induct)
  case (em_posted i x s d now)
  have "table_extends (posting_life {t}) (\<lambda>x. epTenant x \<in> {t}) (postings s) (update_row t i (mark_posted d now) (postings s))"
    by (rule mark_extends [OF em_posted(2,1)]) (simp_all add: mark_posted_def posting_facts_def)
  then show ?case by (simp add: erp_extends_def table_extends_refl)
next
  case (em_rejected i x s c now)
  have "table_extends (posting_life {t}) (\<lambda>x. epTenant x \<in> {t}) (postings s) (update_row t i (mark_rejected c now) (postings s))"
    by (rule mark_extends [OF em_rejected(3,1)]) (simp_all add: mark_rejected_def posting_facts_def)
  then show ?case by (simp add: erp_extends_def table_extends_refl)
next
  case (em_transient i x s now)
  have "epSequence x < nextSequence s"
    using em_transient(3) open_postingD [OF em_transient(1)] by (auto simp: erp_ok_def postings_ok_def posting_row_ok_def)
  then have "table_extends (posting_life {t}) (\<lambda>x. epTenant x \<in> {t}) (postings s)
      (update_row t i (mark_transient (nextSequence s) now) (postings s))"
    by (intro mark_extends [OF em_transient(3,1)]) (simp_all add: mark_transient_def posting_facts_def)
  then show ?case by (simp add: erp_extends_def table_extends_refl)
next
  case (em_confirm i v s x actor now)
  show ?case
    by (auto simp: erp_extends_def table_extends_refl item_row_at_def map_life_def map_facts_def confirm_map_def
        intro!: table_extends_update_where)
next
  case (em_retire i v s x now)
  show ?case
    by (auto simp: erp_extends_def table_extends_refl item_row_at_def map_life_def map_facts_def retire_map_def
        intro!: table_extends_update_where)
next
  case (em_drop i v s x now)
  show ?case
    by (auto simp: erp_extends_def table_extends_refl warehouse_row_at_def warehouse_life_def intro!: table_extends_update_where)
qed (auto simp: erp_extends_def table_extends_refl posting_new_def item_map_new_def warehouse_map_new_def intro!: table_extends_snoc)

definition erp_run_tenants :: "erp_op list \<Rightarrow> uuid set" where
  "erp_run_tenants ops = {t. Some t \<in> erp_op_tenant ` set ops}"

lemma step_extends_erp:
  assumes "erp_ok s"
  shows "erp_extends {t. erp_op_tenant op = Some t} s (erp_step env parse op s)"
  using erp_step_moves [of env parse op s]
proof (elim disjE exE conjE)
  fix t assume "erp_op_tenant op = Some t" "erp_move t (erp_op_ack op) s (erp_step env parse op s)"
  with move_extends_erp assms show ?thesis by (auto intro: erp_extends_mono)
next
  fix sop assume "op = Erp_sales sop"
  with assms run_extends [of "erpSales s" env "[sop]"] show ?thesis
    by (simp add: erp_extends_def table_extends_refl erp_ok_def)
qed simp

lemma erp_run_Cons [simp]: "erp_run env parse (op # ops) s = erp_run env parse ops (erp_step env parse op s)"
  and erp_run_Nil [simp]: "erp_run env parse [] s = s"
  and erp_run_append [simp]: "erp_run env parse (ops @ ops') s = erp_run env parse ops' (erp_run env parse ops s)"
  by (simp_all add: erp_run_def)

lemma run_extends_erp: "erp_ok s \<Longrightarrow> erp_extends (erp_run_tenants ops) s (erp_run env parse ops s)"
proof (induction ops arbitrary: s)
  case (Cons op ops)
  have "erp_extends (erp_run_tenants (op # ops)) s (erp_step env parse op s)"
    using step_extends_erp [OF Cons.prems] by (rule erp_extends_mono) (auto simp: erp_run_tenants_def image_iff)
  moreover have "erp_extends (erp_run_tenants (op # ops)) (erp_step env parse op s) (erp_run env parse ops (erp_step env parse op s))"
    using Cons.IH [OF step_erp_ok [OF Cons.prems]] by (rule erp_extends_mono) (auto simp: erp_run_tenants_def)
  ultimately show ?case by (simp add: erp_extends_trans)
qed simp

section \<open>Sequences and acknowledgements\<close>

definition acked_by :: "erp_op \<Rightarrow> erp_posting \<Rightarrow> bool" where
  "acked_by op x \<longleftrightarrow> erp_op_tenant op = Some (epTenant x) \<and> erp_op_ack op = Some (epId x)"

lemma update_row_other:
  assumes "y \<in> set xs" and "epTenant y = t \<longrightarrow> epId y \<noteq> i"
  shows "y \<in> set (update_where (\<lambda>x. epTenant x = t \<and> epId x = i) f xs)"
  unfolding set_update_where by (rule image_eqI [OF _ assms(1)]) (use assms(2) in auto)

lemma move_keeps_unacked:
  "erp_move t k s s' \<Longrightarrow> x \<in> set (postings s) \<Longrightarrow> t \<noteq> epTenant x \<or> k \<noteq> Some (epId x) \<Longrightarrow> x \<in> set (postings s')"
  by (induction rule: erp_move.induct) (auto intro!: update_row_other)

lemma run_keeps_unacked:
  "x \<in> set (postings s) \<Longrightarrow> \<forall>op \<in> set ops. \<not> acked_by op x \<Longrightarrow> x \<in> set (postings (erp_run env parse ops s))"
proof (induction ops arbitrary: s)
  case (Cons op ops)
  have "x \<in> set (postings (erp_step env parse op s))"
    using erp_step_moves [of env parse op s] Cons.prems
    by (auto simp: acked_by_def dest: move_keeps_unacked)
  with Cons show ?case by simp
qed simp

text \<open>A pending row whose sequence was drawn before a run was there when the run began.\<close>

lemma move_old_sequence:
  assumes "erp_move t k s s'" and "postings_ok s" and "y \<in> set (postings s')" and "epStatus y = Ps_pending"
    and "epSequence y < nextSequence s"
  shows "y \<in> set (postings s)"
  using assms
proof (induction rule: erp_move.induct)
  case (em_posted i x s d now)
  then show ?case using marked_row [OF em_posted(2,1), of y "mark_posted d now"] by (auto simp: mark_posted_def)
next
  case (em_rejected i x s c now)
  then show ?case using marked_row [OF em_rejected(3,1), of y "mark_rejected c now"] by (auto simp: mark_rejected_def)
next
  case (em_transient i x s now)
  then show ?case using marked_row [OF em_transient(3,1), of y "mark_transient (nextSequence s) now"] by auto
qed auto

lemma run_old_sequence:
  "erp_ok s \<Longrightarrow> y \<in> set (postings (erp_run env parse ops s)) \<Longrightarrow> epStatus y = Ps_pending \<Longrightarrow> epSequence y < nextSequence s \<Longrightarrow>
     y \<in> set (postings s)"
proof (induction ops arbitrary: s)
  case (Cons op ops)
  let ?s = "erp_step env parse op s"
  have "nextSequence s \<le> nextSequence ?s" using step_extends_erp [OF Cons.prems(1)] by (simp add: erp_extends_def)
  with Cons.IH [OF step_erp_ok [OF Cons.prems(1)]] Cons.prems have y: "y \<in> set (postings ?s)" by auto
  from erp_step_moves [of env parse op s] show ?case
    using move_old_sequence [OF _ _ y Cons.prems(3,4)] Cons.prems(1) y by (auto simp: erp_ok_def)
qed simp

section \<open>The feed\<close>

definition pulled :: "uuid \<Rightarrow> nat option \<Rightarrow> nat \<Rightarrow> erp_db \<Rightarrow> erp_posting list" where
  "pulled t since lim s = take (min (max 1 lim) POSTING_FEED_MAX_PAGE) (pending_rows (tenant_ctx t) since s)"

lemma pull_sel:
  "plItems (pullPostings t since lim s) = List.map_filter (buildWorkItem (tenant_ctx t) s) (pulled t since lim s)"
  "plCursor (pullPostings t since lim s) = (if pulled t since lim s = [] then None else Some (epSequence (last (pulled t since lim s))))"
  unfolding pullPostings_def pulled_def Let_def by simp_all

lemma set_pending_rows:
  "set (pending_rows (tenant_ctx t) since s) =
     {x \<in> set (postings s). epTenant x = t \<and> epStatus x = Ps_pending \<and> (\<forall>n. since = Some n \<longrightarrow> n < epSequence x)}"
  by (auto simp: pending_rows_def split: option.splits)

lemma pending_rows_strict:
  assumes "postings_ok s"
  shows "sorted_wrt (\<lambda>x y. epSequence x < epSequence y) (pending_rows c since s)"
proof -
  have "distinct (map epSequence (pending_rows c since s))"
    using assms by (simp add: pending_rows_def postings_ok_def distinct_map inj_on_def)
  moreover have "sorted (map epSequence (pending_rows c since s))" by (simp add: pending_rows_def)
  ultimately show ?thesis using strict_sorted_iff [of "map epSequence (pending_rows c since s)"] by (simp add: sorted_wrt_map)
qed

lemma take_covers:
  assumes "sorted_wrt (\<lambda>x y. f x < (f y :: nat)) xs" and "x \<in> set xs" and "take n xs \<noteq> []" and "f x \<le> f (last (take n xs))"
  shows "x \<in> set (take n xs)"
proof (rule ccontr)
  assume "x \<notin> set (take n xs)"
  with assms(2) have "x \<in> set (drop n xs)" by (metis append_take_drop_id Un_iff set_append)
  moreover have "sorted_wrt (\<lambda>x y. f x < f y) (take n xs @ drop n xs)" using assms(1) by simp
  ultimately have "f (last (take n xs)) < f x"
    using last_in_set [OF assms(3)] unfolding sorted_wrt_append by blast
  with assms(4) show False by simp
qed

text \<open>A pull offers every pending row between the cursor it was given and the one it returns.\<close>

lemma pull_covers:
  assumes "postings_ok s" and "plCursor (pullPostings t since lim s) = Some m"
    and "x \<in> set (postings s)" and "epTenant x = t" and "epStatus x = Ps_pending" and "epSequence x \<le> m"
    and "\<And>n. since = Some n \<Longrightarrow> n < epSequence x"
  shows "x \<in> set (pulled t since lim s)"
proof -
  have "x \<in> set (pending_rows (tenant_ctx t) since s)" using assms(3-5,7) by (simp add: set_pending_rows)
  moreover have "pulled t since lim s \<noteq> []" "epSequence x \<le> epSequence (last (pulled t since lim s))"
    using assms(2,6) by (auto simp: pull_sel split: if_splits)
  ultimately show ?thesis
    unfolding pulled_def using pending_rows_strict [OF assms(1)] by (intro take_covers) auto
qed

lemma pull_cursor:
  assumes "postings_ok s" and "plCursor (pullPostings t since lim s) = Some m"
  shows "m < nextSequence s" and "\<And>n. since = Some n \<Longrightarrow> n < m"
proof -
  from assms(2) have some: "pulled t since lim s \<noteq> []" "m = epSequence (last (pulled t since lim s))"
    by (auto simp: pull_sel split: if_splits)
  have "last (pulled t since lim s) \<in> set (pending_rows (tenant_ctx t) since s)"
    using last_in_set [OF some(1)] unfolding pulled_def by (rule in_set_takeD)
  with some assms(1) show "m < nextSequence s" "\<And>n. since = Some n \<Longrightarrow> n < m"
    by (auto simp: set_pending_rows postings_ok_def posting_row_ok_def)
qed

lemma built_in_items: "x \<in> set xs \<Longrightarrow> f x = Some w \<Longrightarrow> w \<in> set (List.map_filter f xs)"
  by (force simp: List.map_filter_def)

lemma items_built: "w \<in> set (List.map_filter f xs) \<Longrightarrow> \<exists>x \<in> set xs. f x = Some w"
  by (auto simp: List.map_filter_def)

lemma buildWorkItem_ref: "buildWorkItem c s x = Some w \<Longrightarrow> wiRef w = epId x \<and> wiCursor w = epSequence x \<and> wiKind w = epKind x"
  by (auto simp: buildWorkItem_def Let_def split: option.splits posting_kind.splits)

section \<open>Rows by id\<close>

lemma find_update_where_same: "(\<And>r. p (f r) = p r) \<Longrightarrow> find p (update_where p f rs) = map_option f (find p rs)"
  by (induction rs) auto

lemma find_posting_row: "postings_ok s \<Longrightarrow> x \<in> set (postings s) \<Longrightarrow> find_posting (tenant_ctx (epTenant x)) (epId x) s = Some x"
  unfolding find_posting_def postings_ok_def
  by (subst conj_commute, rule find_stronger) (auto intro: distinct_find)

lemma posting_stays:
  assumes "erp_ok s" and "x \<in> set (postings s)" and "epStatus x = Ps_posted \<or> epStatus x = Ps_rejected"
  shows "x \<in> set (postings (erp_run env parse ops s))"
proof -
  have "table_extends (posting_life (erp_run_tenants ops)) (\<lambda>x. epTenant x \<in> erp_run_tenants ops) (postings s) (postings (erp_run env parse ops s))"
    using run_extends_erp [OF assms(1)] by (simp add: erp_extends_def)
  from table_extends_rowD [OF this assms(2)] assms(3) show ?thesis by (auto simp: posting_life_def)
qed

lemma posting_later:
  assumes "erp_ok s" and "x \<in> set (postings s)"
  obtains y where "y \<in> set (postings (erp_run env parse ops s))" "posting_facts y = posting_facts x"
proof -
  have "table_extends (posting_life (erp_run_tenants ops)) (\<lambda>x. epTenant x \<in> erp_run_tenants ops) (postings s) (postings (erp_run env parse ops s))"
    using run_extends_erp [OF assms(1)] by (simp add: erp_extends_def)
  from table_extends_rowD [OF this assms(2)] show thesis by (auto simp: posting_life_def intro: that)
qed

section \<open>The acknowledgement of a posting\<close>

lemma ack_closed:
  assumes "find_posting (tenant_ctx (akTenant inp)) (akRef inp) s = Some x" and "epStatus x = Ps_posted \<or> epStatus x = Ps_rejected"
  shows "ackOutcome parse inp now s = (if sameLogicalOutcome parse x inp then Inr (project_outcome parse x, True, False) else Inl ack_conflict, s)"
  using assms by (auto simp: ackOutcome_def runWithTenantContext_def as_work_def ack_work_def act_open_simps)

lemma honest_ack [simp]: "honest (ack_work parse inp now c)"
proof -
  have "honest (applyRejected i k now c)" "honest (applyPosted inp now c)" for i k
    by (auto simp: applyRejected_def applyPosted_def split: option.split)
  then have "honest (applyTransient i n now c)" "honest (applyRejected i k now c)" "honest (applyPosted inp now c)" for i k n
    by (auto simp: applyTransient_def)
  then show ?thesis unfolding ack_work_def by (auto split: option.split ack_outcome.split)
qed

text \<open>A first acknowledgement that ends a posting leaves it with the outcome of the answer.\<close>

lemma applied_row:
  assumes "erp_ok s" and "open_posting t i x s" and "akTenant inp = t" and "akRef inp = i"
    and "succeeds (case akOutcome inp of
              Ack_posted \<Rightarrow> applyPosted inp now (tenant_ctx t)
            | Ack_rejected \<Rightarrow> applyRejected (akRef inp) k now (tenant_ctx t)
            | Ack_transient \<Rightarrow> applyTransient (akRef inp) (epRetries x) now (tenant_ctx t)) s (r, counted) s'"
    and "rdOutcome r \<noteq> Ack_transient"
    and "\<And>d. akDocument inp = Some d \<Longrightarrow> parseDocRef parse (Some (serializeDocRef d)) = Some d"
  obtains y where "find_posting (tenant_ctx t) i s' = Some y" "epStatus y = Ps_posted \<or> epStatus y = Ps_rejected"
    "project_outcome parse y = r"
proof -
  let ?c = "tenant_ctx t"
  have x: "find_posting ?c i s = Some x" and id: "epId x = i"
    using assms(2) open_postingD [OF assms(2)] by (auto simp: open_posting_def)
  have none: "epDocument x = None"
    using assms(1) open_postingD [OF assms(2)] by (auto simp: erp_ok_def postings_ok_def posting_row_ok_def erp_checks_def)
  have later: "find_posting ?c i s' = Some (f x)"
    if "\<And>y. epId (f y) = epId y" "\<And>y. epTenant (f y) = epTenant y"
      "s' = s\<lparr>postings := update_where (\<lambda>y. epTenant y = t \<and> epId y = i) f (postings s)\<rparr>" for f
    using x that find_update_where_same [of "\<lambda>y. rls_tenant ?c (epTenant y) \<and> epId y = i" f "postings s"]
    by (simp add: find_posting_def)
  have rejected: "find_posting ?c i s' = Some (x\<lparr>epStatus := Ps_rejected, epCategory := Some q, epUpdated := now\<rparr>) \<and>
      project_outcome parse (x\<lparr>epStatus := Ps_rejected, epCategory := Some q, epUpdated := now\<rparr>) = r"
    if "succeeds (applyRejected (akRef inp) q now ?c) s (r, counted) s'" for q
    using that none id assms(3,4) later [of "\<lambda>x. x\<lparr>epStatus := Ps_rejected, epCategory := Some q, epUpdated := now\<rparr>"]
    by (auto simp: run_simps project_outcome_def parseDocRef_def)
  show thesis
  proof (cases "akOutcome inp")
    case Ack_posted
    with assms(5) obtain d where d: "akDocument inp = Some d" "r = \<lparr>rdRef = akRef inp, rdOutcome = Ack_posted, rdDocument = Some d, rdAt = now, rdDlq = False\<rparr>"
      "update_posting ?c (akRef inp) (\<lambda>x. x\<lparr>epStatus := Ps_posted, epDocument := Some (serializeDocRef d), epUpdated := now\<rparr>) s = Inr ((), s')"
      by (auto simp: posted_succeeds)
    show thesis
      by (rule that [of "x\<lparr>epStatus := Ps_posted, epDocument := Some (serializeDocRef d), epUpdated := now\<rparr>"])
         (use d id assms(3,4,7) later [of "\<lambda>x. x\<lparr>epStatus := Ps_posted, epDocument := Some (serializeDocRef d), epUpdated := now\<rparr>"]
          in \<open>auto simp: run_simps project_outcome_def\<close>)
  next
    case Ack_transient
    with assms(5,6) have "succeeds (applyRejected (akRef inp) ''retry_budget_exhausted'' now ?c) s (r, counted) s'"
      by (auto simp: transient_succeeds split: if_splits)
    from rejected [OF this] show thesis by (intro that) auto
  next
    case Ack_rejected
    with assms(5) have "succeeds (applyRejected (akRef inp) k now ?c) s (r, counted) s'" by simp
    from rejected [OF this] show thesis by (intro that) auto
  qed
qed

section \<open>A connector that follows the cursor\<close>

text \<open>
  A round is a pull from the cursor reached so far and what runs until the next one. The result: each
  pull with the state it read, the cursor reached, and the state at the end.
\<close>

fun connect ::
    "sales_env \<Rightarrow> (string \<Rightarrow> json option) \<Rightarrow> uuid \<Rightarrow> (nat \<times> erp_op list) list \<Rightarrow> nat option \<Rightarrow> erp_db \<Rightarrow>
     (erp_db \<times> pull_result) list \<times> nat option \<times> erp_db" where
  "connect env parse t [] since s = ([], since, s)"
| "connect env parse t ((lim, ops) # rounds) since s =
     (let r = pullPostings t since lim s; cursor = (case plCursor r of None \<Rightarrow> since | Some k \<Rightarrow> Some k);
          (log, reached, s') = connect env parse t rounds cursor (erp_run env parse ops s)
      in ((s, r) # log, reached, s'))"

definition offered :: "uuid \<Rightarrow> (erp_db \<times> pull_result) list \<Rightarrow> erp_posting \<Rightarrow> bool" where
  "offered t log x \<longleftrightarrow> (\<exists>(z, r) \<in> set log. x \<in> set (postings z) \<and>
     (case buildWorkItem (tenant_ctx t) z x of None \<Rightarrow> True | Some w \<Rightarrow> w \<in> set (plItems r)))"

lemma connect_end: "connect env parse t rounds since s = (log, reached, s') \<Longrightarrow> s' = erp_run env parse (concat (map snd rounds)) s"
  by (induction env parse t rounds since s arbitrary: log reached rule: connect.induct)
     (auto simp: Let_def split: prod.splits)

lemma connect_offers:
  "erp_ok s \<Longrightarrow> connect env parse t rounds since s = (log, Some m, s') \<Longrightarrow> x \<in> set (postings s') \<Longrightarrow> epTenant x = t \<Longrightarrow>
     epStatus x = Ps_pending \<Longrightarrow> epSequence x \<le> m \<Longrightarrow> (\<exists>n. since = Some n \<and> epSequence x \<le> n) \<or> offered t log x"
proof (induction rounds arbitrary: since s log)
  case (Cons round rounds)
  obtain lim ops where round: "round = (lim, ops)" by (cases round)
  let ?r = "pullPostings t since lim s" and ?s = "erp_run env parse ops s"
  let ?c = "case plCursor ?r of None \<Rightarrow> since | Some k \<Rightarrow> Some k"
  from Cons.prems(2) obtain log' where log: "connect env parse t rounds ?c ?s = (log', Some m, s')" "log = (s, ?r) # log'"
    by (auto simp: round Let_def split: prod.splits)
  have ok: "postings_ok s" using Cons.prems(1) by (simp add: erp_ok_def)
  from Cons.IH [OF run_erp_ok [OF Cons.prems(1)] log(1) Cons.prems(3-6)] show ?case
  proof
    assume "offered t log' x"
    then show ?thesis by (auto simp: offered_def log(2))
  next
    assume "\<exists>n. ?c = Some n \<and> epSequence x \<le> n"
    then obtain n where n: "?c = Some n" "epSequence x \<le> n" by blast
    show ?thesis
    proof (cases "plCursor ?r")
      case (Some k)
      with n have k: "epSequence x \<le> k" by simp
      have "s' = erp_run env parse (ops @ concat (map snd rounds)) s" using connect_end [OF log(1)] by simp
      then have x: "x \<in> set (postings s)"
        using run_old_sequence [OF Cons.prems(1)] Cons.prems(3,5) k pull_cursor(1) [OF ok Some] by (metis le_less_trans)
      show ?thesis
      proof (cases "\<exists>n. since = Some n \<and> epSequence x \<le> n")
        case False
        then have "x \<in> set (pulled t since lim s)"
          using pull_covers [OF ok Some x Cons.prems(4,5) k] by force
        then have "offered t log x"
          using x by (auto simp: offered_def log(2) pull_sel intro: built_in_items split: option.splits)
        then show ?thesis ..
      qed simp
    qed (use n in simp)
  qed
qed simp

section \<open>A sequence drawn and stored later\<close>

lemma move_unused_sequence:
  assumes "erp_move t k s s'" and "postings_ok s" and "n \<notin> epSequence ` set (postings s)" and "n < nextSequence s"
  shows "n \<notin> epSequence ` set (postings s') \<and> n < nextSequence s'"
  using assms
proof (induction rule: erp_move.induct)
  case (em_transient i x s now)
  have "epSequence y \<noteq> n" if "y \<in> set (update_row t i (mark_transient (nextSequence s) now) (postings s))" for y
    using marked_row [OF em_transient(3,1) that] em_transient(4,5) by auto
  with em_transient(5) show ?case by auto
qed (auto simp: set_update_where)

lemma run_unused_sequence:
  "erp_ok s \<Longrightarrow> n \<notin> epSequence ` set (postings s) \<Longrightarrow> n < nextSequence s \<Longrightarrow>
     n \<notin> epSequence ` set (postings (erp_run env parse ops s)) \<and> n < nextSequence (erp_run env parse ops s)"
proof (induction ops arbitrary: s)
  case (Cons op ops)
  have "n \<notin> epSequence ` set (postings (erp_step env parse op s)) \<and> n < nextSequence (erp_step env parse op s)"
    using erp_step_moves [of env parse op s] move_unused_sequence [of _ _ s _ n] Cons.prems by (auto simp: erp_ok_def)
  with Cons.IH step_erp_ok [OF Cons.prems(1)] show ?case by simp
qed simp

lemma late_store_ok:
  assumes "erp_ok s" and "store_posting c x s = Inr (True, s')" and "epSequence x \<notin> epSequence ` set (postings s)"
    and "epSequence x < nextSequence s" and "epStatus x = (if epCategory x = None then Ps_pending else Ps_rejected)" and "epRetries x = 0"
  shows "erp_ok s' \<and> postings s' = postings s @ [x]"
proof -
  from assms(2) have new: "posting_new c x s" and s': "s' = s\<lparr>postings := postings s @ [x]\<rparr>"
    by (auto simp: store_posting_Inr split: if_splits)
  have "postings_ok s'"
    using assms new by (auto simp: s' erp_ok_def postings_ok_def posting_row_ok_def posting_new_def)
  with assms(1) show ?thesis by (simp add: s' erp_ok_def item_maps_ok_def warehouse_maps_ok_def)
qed

text \<open>A pending row behind the cursor is not offered.\<close>

lemma behind_cursor_not_offered:
  assumes "postings_ok s" and "x \<in> set (postings s)" and "epSequence x \<le> m" and "w \<in> set (plItems (pullPostings t (Some m) lim s))"
  shows "wiRef w \<noteq> epId x"
proof
  assume ref: "wiRef w = epId x"
  from assms(4) obtain y where y: "y \<in> set (pulled t (Some m) lim s)" "buildWorkItem (tenant_ctx t) s y = Some w"
    by (auto simp: pull_sel dest: items_built)
  then have "y \<in> set (pending_rows (tenant_ctx t) (Some m) s)" by (auto simp: pulled_def dest: in_set_takeD)
  then have mem: "y \<in> set (postings s)" "m < epSequence y" by (auto simp: set_pending_rows)
  moreover have "epId y = epId x" using buildWorkItem_ref [OF y(2)] ref by simp
  ultimately have "y = x" using assms(1,2) distinct_key_unique [of epId "postings s" y x] by (simp add: postings_ok_def)
  with mem(2) assms(3) show False by simp
qed

end
