(* ===== verification/ErpTheorems.thy ===== *)
theory ErpTheorems
  imports ErpLife SalesTheorems CatalogTheorems
begin

text \<open>
  The properties of the posting of sales to the ERP: the history of postings and mappings, what a
  posting request leaves behind, what an acknowledgement settles, what a connector that follows the
  cursor is offered and what it never is, and the versions of the mappings.
\<close>

section \<open>Versions\<close>

text \<open>
  Rows with an id and a version, whose tables are carried by a run: a version that a row has left
  is never seen on that row again.
\<close>

locale versioned_rows =
  fixes rows :: "'s \<Rightarrow> 'r list"
    and ident :: "'r \<Rightarrow> uuid"
    and version :: "'r \<Rightarrow> nat"
    and inv :: "'s \<Rightarrow> bool"
    and later :: "'s \<Rightarrow> 's \<Rightarrow> bool"
  assumes idents: "inv s \<Longrightarrow> distinct (map ident (rows s))"
    and later_inv: "inv s \<Longrightarrow> later s s' \<Longrightarrow> inv s'"
    and later_row: "inv s \<Longrightarrow> later s s' \<Longrightarrow> x \<in> set (rows s) \<Longrightarrow>
      \<exists>y \<in> set (rows s'). ident y = ident x \<and> version x \<le> version y"
begin

lemma version_left:
  assumes "inv s" and "later s s'" and "x \<in> set (rows s)" and "v < version x" and "y \<in> set (rows s')" and "ident y = ident x"
  shows "version y \<noteq> v"
proof -
  obtain z where z: "z \<in> set (rows s')" "ident z = ident x" "version x \<le> version z" using later_row assms(1-3) by blast
  have "y = z" using distinct_key_unique [OF idents [OF later_inv [OF assms(1,2)]] assms(5) z(1)] assms(6) z(2) by simp
  with z assms(4) show ?thesis by simp
qed

lemma row_stays: "inv s \<Longrightarrow> later s s' \<Longrightarrow> x \<in> set (rows s) \<Longrightarrow> \<exists>y \<in> set (rows s'). ident y = ident x"
  using later_row by blast

end

abbreviation erp_later :: "erp_db \<Rightarrow> erp_db \<Rightarrow> bool" where
  "erp_later s s' \<equiv> \<exists>env parse ops. s' = erp_run env parse ops s"

lemma item_maps_later:
  assumes "erp_ok s" and "x \<in> set (itemMaps s)"
  shows "\<exists>y \<in> set (itemMaps (erp_run env parse ops s)). map_facts y = map_facts x \<and> imVersion x \<le> imVersion y"
proof -
  have "table_extends (map_life (erp_run_tenants ops)) (\<lambda>x. imTenant x \<in> erp_run_tenants ops) (itemMaps s) (itemMaps (erp_run env parse ops s))"
    using run_extends_erp [OF assms(1)] by (simp add: erp_extends_def)
  from table_extends_rowD [OF this assms(2)] obtain y where "y \<in> set (itemMaps (erp_run env parse ops s))"
    "map_life (erp_run_tenants ops) x y" .
  then show ?thesis by (intro bexI [of _ y]) (auto simp: map_life_def)
qed

lemma warehouse_maps_later:
  assumes "erp_ok s" and "x \<in> set (warehouseMaps s)"
  shows "\<exists>y \<in> set (warehouseMaps (erp_run env parse ops s)). wmId y = wmId x \<and> wmTenant y = wmTenant x \<and> wmVersion x \<le> wmVersion y"
proof -
  have "table_extends (warehouse_life (erp_run_tenants ops)) (\<lambda>x. wmTenant x \<in> erp_run_tenants ops) (warehouseMaps s)
      (warehouseMaps (erp_run env parse ops s))"
    using run_extends_erp [OF assms(1)] by (simp add: erp_extends_def)
  from table_extends_rowD [OF this assms(2)] obtain y where "y \<in> set (warehouseMaps (erp_run env parse ops s))"
    "warehouse_life (erp_run_tenants ops) x y" .
  then show ?thesis by (intro bexI [of _ y]) (auto simp: warehouse_life_def retire_warehouse_def)
qed

lemma erp_ok_ids: "erp_ok s \<Longrightarrow> distinct (map imId (itemMaps s)) \<and> distinct (map wmId (warehouseMaps s))"
  by (simp add: erp_ok_def item_maps_ok_def warehouse_maps_ok_def)

interpretation item_versions: versioned_rows itemMaps imId imVersion erp_ok erp_later
  by unfold_locales (auto simp: erp_ok_ids run_erp_ok map_facts_def dest: item_maps_later [unfolded map_facts_def])

interpretation warehouse_versions: versioned_rows warehouseMaps wmId wmVersion erp_ok erp_later
  by unfold_locales (auto simp: erp_ok_ids run_erp_ok dest: warehouse_maps_later)

section \<open>Posting requests\<close>

lemma posting_request_payload:
  assumes "parse_uuid ref = Some sale" and "parse_uuid aref = Some anchor" and "st < 16 ^ 32"
  shows "posting_request (posting_payload ref st (kind_text kind) (J_string aref)) = Some (sale, st, kind, anchor)"
  using assms
  by (simp add: posting_request_def posting_payload_def uuid_field_def text_field_def J_uuid_def parse_uuid_text kind_of_text_def kind_text_def
      split: posting_kind.split)

lemma find_sale_row:
  assumes "sales_ok s" and "x \<in> set (saleRows s)" and "sale_scope x = (sale, t, st)"
  shows "find_sale (tenant_ctx t) sale st s = Some x"
proof -
  have "distinct (map saId (saleRows s))" using assms(1) by (simp add: sales_ok_def keys_ok_def)
  from distinct_find [OF this assms(2), of sale] assms(3) have "find (\<lambda>y. saId y = sale) (saleRows s) = Some x" by (simp add: sale_scope_def)
  from find_stronger [OF this, of "\<lambda>y. saTenant y = t \<and> saStore y = st"] assms(3)
  show ?thesis by (simp add: find_sale_def sale_scope_def conj_ac)
qed

lemma requested_row:
  assumes "erp_ok s" and "x \<in> set (saleRows (erpSales s))" and "sale_scope x = (sale, t, st)" and "hash_ok (saHash x)"
    and "store_exists st (erpSales s)"
  defines "verdict \<equiv> resolveEligibility (tenant_ctx t) sale st s"
  shows "(t, anchor) \<in> origin ` set (postings s) \<Longrightarrow>
      runWithTenantContext (tenant_ctx t) (\<lambda>c. as_work (posting_work t sale st kind anchor corr i now c)) s =
        (Inr False, s\<lparr>nextSequence := Suc (nextSequence s)\<rparr>)"
    and "(t, anchor) \<notin> origin ` set (postings s) \<Longrightarrow> i \<notin> epId ` set (postings s) \<Longrightarrow>
      runWithTenantContext (tenant_ctx t) (\<lambda>c. as_work (posting_work t sale st kind anchor corr i now c)) s =
        (Inr (verdict \<noteq> None), s\<lparr>nextSequence := Suc (nextSequence s),
          postings := postings s @ [(posting_row i t kind anchor x verdict corr now)\<lparr>epSequence := nextSequence s\<rparr>]\<rparr>)"
proof -
  have found: "find_sale (tenant_ctx t) sale st (erpSales s) = Some x"
    using assms(1-3) by (simp add: erp_ok_def find_sale_row)
  have row: "erp_checks (posting_row i t kind anchor x verdict corr now)"
    using assms(4) by (simp add: erp_checks_def posting_row_def)
  show "runWithTenantContext (tenant_ctx t) (\<lambda>c. as_work (posting_work t sale st kind anchor corr i now c)) s =
        (Inr False, s\<lparr>nextSequence := Suc (nextSequence s)\<rparr>)" if "(t, anchor) \<in> origin ` set (postings s)"
  proof (rule runWithTenantContext_commits, unfold as_work_Returns)
    show "succeeds (posting_work t sale st kind anchor corr i now (tenant_ctx t)) s False (s\<lparr>nextSequence := Suc (nextSequence s)\<rparr>)"
      using found row that unfolding verdict_def by (simp add: posting_succeeds Let_def insert_posting_Inr posting_row_def ex_bool_eq)
  qed
  show "runWithTenantContext (tenant_ctx t) (\<lambda>c. as_work (posting_work t sale st kind anchor corr i now c)) s =
        (Inr (verdict \<noteq> None), s\<lparr>nextSequence := Suc (nextSequence s),
          postings := postings s @ [(posting_row i t kind anchor x verdict corr now)\<lparr>epSequence := nextSequence s\<rparr>]\<rparr>)"
    if "(t, anchor) \<notin> origin ` set (postings s)" "i \<notin> epId ` set (postings s)"
  proof (rule runWithTenantContext_commits, unfold as_work_Returns)
    have scope: "(saId x, t, saStore x) \<in> scopes (erpSales s)" and st: "saStore x = st"
      using assms(2,3) by (auto simp: scopes_def sale_scope_def image_iff)
    from found row that scope st assms(5)
    show "succeeds (posting_work t sale st kind anchor corr i now (tenant_ctx t)) s (verdict \<noteq> None) (s\<lparr>nextSequence := Suc (nextSequence s),
          postings := postings s @ [(posting_row i t kind anchor x verdict corr now)\<lparr>epSequence := nextSequence s\<rparr>]\<rparr>)"
      unfolding verdict_def by (simp add: posting_succeeds Let_def insert_posting_Inr posting_new_def posting_row_def ex_bool_eq)
  qed
qed

lemma sale_later_row:
  assumes "erp_ok s" and "x \<in> set (saleRows (erpSales s))"
  obtains y where "y \<in> set (saleRows (erpSales (erp_run env parse ops s)))" "sale_scope y = sale_scope x" "saHash y = saHash x"
proof -
  have "table_extends sale_writes\<^sup>*\<^sup>* (\<lambda>_. True) (saleRows (erpSales s)) (saleRows (erpSales (erp_run env parse ops s)))"
    using run_extends_erp [OF assms(1)] by (simp add: erp_extends_def sales_extends_def)
  from table_extends_rowD [OF this assms(2)] obtain y where y: "y \<in> set (saleRows (erpSales (erp_run env parse ops s)))" "sale_writes\<^sup>*\<^sup>* x y" .
  from y(2) obtain p q where "y = x\<lparr>saProcessed := p, saStatus := q\<rparr>" by (rule sale_later)
  with y(1) show thesis by (intro that [of y]) (simp_all add: sale_scope_def)
qed

lemma later_stores: "erp_ok s \<Longrightarrow> store_exists st (erpSales (erp_run env parse ops s)) = store_exists st (erpSales s)"
  using run_extends_erp [of s ops env parse] by (simp add: store_exists_def erp_extends_def sales_extends_def)

section \<open>A small depot\<close>

text \<open>Tenant 1 sold the mapped product 40 at its mapped store 2; the sale 50 is to be posted.\<close>

definition posting_hash :: string where
  "posting_hash = replicate 64 (CHR ''a'')"

definition depot_sales :: sales_db where
  "depot_sales = shop_db\<lparr>saleRows := [shop_sale\<lparr>saHash := posting_hash\<rparr>], soldLines := [shop_line\<lparr>lnProduct := Some 40\<rparr>]\<rparr>"

definition tea_map :: item_mapping where
  "tea_map = confirm_map 8 20 (suggested_map \<lparr>siTenant = 1, siProduct = 40, siRef = ''TEA'', siActor = 8\<rparr> 30 10)"

definition depot_map :: warehouse_mapping where
  "depot_map = set_map \<lparr>swTenant = 1, swStore = 2, swRef = ''Main'', swActor = 8\<rparr> 31 10"

definition depot :: erp_db where
  "depot = \<lparr>erpSales = depot_sales, erpProducts = [tea], postings = [], itemMaps = [tea_map], warehouseMaps = [depot_map], nextSequence = 1\<rparr>"

lemma depot_ok: "erp_ok depot"
proof -
  have "saTotal shop_sale = 255000" by (simp add: shop_sale_def)
  moreover have "sale_scope (shop_sale\<lparr>saHash := posting_hash\<rparr>) = (50, 1, 2)" by (simp add: sale_scope_def)
  ultimately have "sales_ok depot_sales"
    by (simp add: sales_ok_def keys_ok_def children_ok_def sale_ok_def scopes_def depot_sales_def shop_db_def shop_line_def line_sum_def)
  moreover have "postings_ok depot" "item_maps_ok depot" "warehouse_maps_ok depot"
    by (simp_all add: postings_ok_def item_maps_ok_def warehouse_maps_ok_def depot_def item_map_checks_def warehouse_map_checks_def
        tea_map_def depot_map_def confirm_map_def suggested_map_def set_map_def length_between_def)
  ultimately show ?thesis by (simp add: erp_ok_def depot_def)
qed

definition depot_payload :: json where
  "depot_payload = posting_payload (uuid_text 50) 2 ''sale_post'' (J_string (uuid_text 50))"

definition depot_document :: document_ref where
  "depot_document = \<lparr>drDoctype = ''Sales Invoice'', drName = ''INV-1''\<rparr>"

definition depot_parse :: "string \<Rightarrow> json option" where
  "depot_parse x = (if x = json_text depot_payload then Some depot_payload
     else if x = serializeDocRef depot_document
     then Some (J_object [(''doctype'', J_string ''Sales Invoice''), (''name'', J_string ''INV-1'')]) else None)"

definition depot_event :: claimed_event where
  "depot_event = \<lparr>ceId = 90, ceType = ''erpnext.posting.requested'', ceTenant = 1, ceStore = Some 2, cePayload = json_text depot_payload,
     ceCorrelation = None, ceOccurred = 100, ceAttempts = 1\<rparr>"

definition depot_posted :: erp_db where
  "depot_posted = depot\<lparr>nextSequence := 2,
     postings := [(posting_row 60 1 Sale_post 50 (shop_sale\<lparr>saHash := posting_hash\<rparr>) None None 200)\<lparr>epSequence := 1\<rparr>]\<rparr>"

lemma depot_request: "posting_handle depot_parse depot_event 60 200 depot = (Inr False, depot_posted)"
  by code_simp

section \<open>Properties\<close>



text \<open>C25: A posting request is honoured once, and its first verdict stands. The payload the sales code
  emits for a sale that exists is accepted: afterwards the originating row has its posting, with the
  facts of the sale, open exactly when the store and every line were mapped at that moment, unless it
  had one before, which is then left alone. Whatever runs later, mappings included, a re-delivery of
  the request succeeds and changes no posting.\<close>

theorem posting_request_honoured:
  assumes "erp_ok s" and "x \<in> set (saleRows (erpSales s))" and "sale_scope x = (sale, t, st)" and "hash_ok (saHash x)"
    and "store_exists st (erpSales s)" and "i \<notin> epId ` set (postings s)"
    and "cePayload e = json_text p" and "p = posting_payload ref st (kind_text kind) (J_string aref)" and "parse (json_text p) = Some p"
    and "parse_uuid ref = Some sale" and "parse_uuid aref = Some anchor" and "st < 16 ^ 32" and "ceTenant e = t"
  defines "verdict \<equiv> resolveEligibility (tenant_ctx t) sale st s"
  shows "\<exists>r s'. posting_handle parse e i now s = (Inr r, s') \<and>
    postings s' = (if (t, anchor) \<in> origin ` set (postings s) then postings s
      else postings s @ [(posting_row i t kind anchor x verdict (ceCorrelation e) now)\<lparr>epSequence := nextSequence s\<rparr>]) \<and>
    (\<forall>ops i' now'. \<exists>s''. posting_handle parse e i' now' (erp_run env parse ops s') = (Inr False, s'') \<and>
       postings s'' = postings (erp_run env parse ops s'))"
proof -
  have run: "posting_handle parse e j at z = runWithTenantContext (tenant_ctx t)
      (\<lambda>c. as_work (posting_work t sale st kind anchor (ceCorrelation e) j at c)) z" for j at z
    using posting_request_payload [OF assms(10-12), of kind] assms(7,9,13) by (simp add: posting_handle_def assms(8))
  obtain r s' where first: "posting_handle parse e i now s = (Inr r, s')"
    "postings s' = (if (t, anchor) \<in> origin ` set (postings s) then postings s
      else postings s @ [(posting_row i t kind anchor x verdict (ceCorrelation e) now)\<lparr>epSequence := nextSequence s\<rparr>])"
    using requested_row [OF assms(1-5)] assms(6) unfolding run verdict_def by (cases "(t, anchor) \<in> origin ` set (postings s)") simp_all
  have later: "\<exists>s''. posting_handle parse e i' now' (erp_run env parse ops s') = (Inr False, s'') \<and>
      postings s'' = postings (erp_run env parse ops s')" for ops i' now'
  proof -
    let ?z = "erp_run env parse (Erp_consume e i now # ops) s"
    have z: "erp_run env parse ops s' = ?z" using first(1) by simp
    have ok': "erp_ok s'" using step_erp_ok [OF assms(1), of env parse "Erp_consume e i now"] first(1) by simp
    obtain y where y: "y \<in> set (saleRows (erpSales ?z))" "sale_scope y = (sale, t, st)" "hash_ok (saHash y)"
      using sale_later_row [OF assms(1,2), of env parse "Erp_consume e i now # ops"] assms(3,4) by metis
    have "(t, anchor) \<in> origin ` set (postings s')" by (auto simp: first(2) posting_row_def)
    then obtain w where w: "w \<in> set (postings s')" "origin w = (t, anchor)" by auto
    obtain v where v: "v \<in> set (postings ?z)" "posting_facts v = posting_facts w"
      using posting_later [OF ok' w(1), of env parse ops] unfolding z by blast
    have "origin v = origin w" using v(2) by (simp add: posting_facts_def)
    with w(2) v(1) have taken: "(t, anchor) \<in> origin ` set (postings ?z)" by (intro image_eqI [of _ _ v]) simp_all
    have "store_exists st (erpSales ?z)" using assms(5) by (simp only: later_stores [OF assms(1)])
    from requested_row(1) [OF run_erp_ok [OF assms(1)] y this taken] show ?thesis unfolding z run by simp
  qed
  with first show ?thesis by blast
qed

lemma posting_request_honoured_witness:
  "\<exists>r s'. posting_handle depot_parse depot_event 60 200 depot = (Inr r, s') \<and> length (postings s') = 1"
proof -
  have "parse_uuid (uuid_text 50) = Some 50" by (rule parse_uuid_text) simp
  then have "\<exists>r s'. posting_handle depot_parse depot_event 60 200 depot = (Inr r, s') \<and>
    postings s' = (if (1, 50) \<in> origin ` set (postings depot) then postings depot
      else postings depot @ [(posting_row 60 1 Sale_post 50 (shop_sale\<lparr>saHash := posting_hash\<rparr>)
        (resolveEligibility (tenant_ctx 1) 50 2 depot) (ceCorrelation depot_event) 200)\<lparr>epSequence := nextSequence depot\<rparr>]) \<and>
    (\<forall>ops i' now'. \<exists>s''. posting_handle depot_parse depot_event i' now' (erp_run shop_env depot_parse ops s') = (Inr False, s'') \<and>
       postings s'' = postings (erp_run shop_env depot_parse ops s'))"
    by (intro posting_request_honoured [OF depot_ok, where p = depot_payload])
      (simp_all add: depot_def depot_sales_def shop_db_def store_exists_def depot_event_def depot_parse_def depot_payload_def kind_text_def
        sale_scope_def posting_hash_def hash_ok_def is_digit_def list_all_iff)
  then show ?thesis by (auto simp: depot_def)
qed






text \<open>C27: The cursor of the feed skips nothing that was committed before it passed. A connector that
  starts without a cursor and pulls from the cursor it reached, while anything else runs between its
  pulls, has been offered every posting that is pending at the end with a sequence up to its cursor, at
  the present sequence, unless its work item could not be built when its turn came.\<close>

theorem feed_never_skips:
  assumes "erp_ok s" and "connect env parse t rounds None s = (log, Some m, s')"
    and "x \<in> set (postings s')" and "epTenant x = t" and "epStatus x = Ps_pending" and "epSequence x \<le> m"
  shows "\<exists>(z, r) \<in> set log. x \<in> set (postings z) \<and>
    (case buildWorkItem (tenant_ctx t) z x of None \<Rightarrow> True | Some w \<Rightarrow> w \<in> set (plItems r))"
  using connect_offers [OF assms] by (simp add: offered_def)

lemma feed_never_skips_witness:
  "\<exists>log. connect shop_env depot_parse 1 [(10, [])] None depot_posted = (log, Some 1, depot_posted) \<and>
     (\<exists>(z, r) \<in> set log. hd (postings depot_posted) \<in> set (postings z) \<and> plItems r \<noteq> [])"
proof -
  have ok: "erp_ok depot_posted" using step_erp_ok [OF depot_ok, of shop_env depot_parse "Erp_consume depot_event 60 200"] depot_request by simp
  have run: "connect shop_env depot_parse 1 [(10, [])] None depot_posted =
      ([(depot_posted, pullPostings 1 None 10 depot_posted)], Some 1, depot_posted)"
    by code_simp
  have "\<exists>(z, r) \<in> set [(depot_posted, pullPostings 1 None 10 depot_posted)]. hd (postings depot_posted) \<in> set (postings z) \<and>
    (case buildWorkItem (tenant_ctx 1) z (hd (postings depot_posted)) of None \<Rightarrow> True | Some w \<Rightarrow> w \<in> set (plItems r))"
    by (rule feed_never_skips [OF ok run]) (simp_all add: depot_posted_def posting_row_def)
  moreover have "buildWorkItem (tenant_ctx 1) depot_posted (hd (postings depot_posted)) \<noteq> None" by code_simp
  ultimately show ?thesis unfolding run by (auto split: option.splits)
qed

text \<open>The cursor skips what commits late. A request draws its sequence when it inserts; if other
  transactions run before it commits, and the connector meanwhile pulls a posting with a later sequence,
  then the new posting commits pending behind the cursor: no pull from that cursor or any later one ever
  offers it, whatever runs, as long as it is not acknowledged, which the connector, that never saw it,
  has no reason to do.\<close>

lemma late_commit_never_offered:
  fixes i kind anchor sale corr now
  assumes "erp_ok s" and "draw_sequence s = Inr (n, s0)" and "z = erp_run env parse ops s0"
    and "plCursor (pullPostings t since lim z) = Some m" and "n \<le> m"
    and "store_posting (tenant_ctx t) x z = Inr (True, z')"
    and "x = (posting_row i t kind anchor sale None corr now)\<lparr>epSequence := n\<rparr>"
    and "\<forall>op \<in> set ops'. \<not> acked_by op x" and "m \<le> m'"
  shows "x \<in> set (postings (erp_run env parse ops' z')) \<and>
    (\<forall>w \<in> set (plItems (pullPostings t (Some m') lim' (erp_run env parse ops' z'))). wiRef w \<noteq> i)"
proof -
  have s0: "n = nextSequence s" "s0 = s\<lparr>nextSequence := Suc (nextSequence s)\<rparr>" using assms(2) by (auto simp: draw_sequence_Inr)
  have "erp_ok s0" using move_erp_ok [OF em_draw assms(1)] by (simp add: s0(2))
  have "epSequence y < n" if "y \<in> set (postings s)" for y
    using assms(1) that by (simp add: s0(1) erp_ok_def postings_ok_def posting_row_ok_def)
  then have "n \<notin> epSequence ` set (postings s0)" "n < nextSequence s0" unfolding s0 by fastforce+
  with \<open>erp_ok s0\<close> run_unused_sequence have "n \<notin> epSequence ` set (postings z)" "n < nextSequence z" unfolding assms(3) by blast+
  then have "erp_ok z' \<and> postings z' = postings z @ [x]"
    using \<open>erp_ok s0\<close> by (intro late_store_ok [OF _ assms(6)]) (simp_all add: assms(3,7) run_erp_ok posting_row_def)
  then have ok: "erp_ok (erp_run env parse ops' z')" and "x \<in> set (postings z')" by (simp_all add: run_erp_ok)
  from run_keeps_unacked [OF this(2) assms(8)] have stays: "x \<in> set (postings (erp_run env parse ops' z'))" .
  moreover have "epSequence x \<le> m'" "epId x = i" using assms(5,9) by (simp_all add: assms(7) posting_row_def)
  ultimately show ?thesis
    using behind_cursor_not_offered [of "erp_run env parse ops' z'" x m' _ t lim'] ok by (auto simp: erp_ok_def)
qed

text \<open>Posting 61 has drawn the sequence 1, posting 60 draws 2, commits and is pulled; then 61 commits.\<close>

definition depot_drawn :: erp_db where
  "depot_drawn = depot\<lparr>nextSequence := 2\<rparr>"

definition late_row :: erp_posting where
  "late_row = (posting_row 61 1 Reversal 70 (shop_sale\<lparr>saHash := posting_hash\<rparr>) None None 210)\<lparr>epSequence := 1\<rparr>"

lemma late_commit_never_offered_witness:
  "\<exists>z z'. z = erp_run shop_env depot_parse [Erp_consume depot_event 60 200] depot_drawn \<and> plCursor (pullPostings 1 None 10 z) = Some 2 \<and>
     store_posting (tenant_ctx 1) late_row z = Inr (True, z') \<and> late_row \<in> set (postings z') \<and>
     (\<forall>w \<in> set (plItems (pullPostings 1 (Some 2) 10 z')). wiRef w \<noteq> 61)"
proof -
  let ?z = "erp_run shop_env depot_parse [Erp_consume depot_event 60 200] depot_drawn"
  let ?z' = "?z\<lparr>postings := postings ?z @ [late_row]\<rparr>"
  have draw: "draw_sequence depot = Inr (1, depot_drawn)" by (simp add: draw_sequence_def depot_drawn_def depot_def)
  have pull: "plCursor (pullPostings 1 None 10 ?z) = Some 2" by code_simp
  have store: "store_posting (tenant_ctx 1) late_row ?z = Inr (True, ?z')" by code_simp
  have "late_row \<in> set (postings (erp_run shop_env depot_parse [] ?z')) \<and>
    (\<forall>w \<in> set (plItems (pullPostings 1 (Some 2) 10 (erp_run shop_env depot_parse [] ?z'))). wiRef w \<noteq> 61)"
    by (rule late_commit_never_offered [OF depot_ok draw refl pull _ store]) (simp_all add: late_row_def)
  then show ?thesis using pull store by simp
qed

section \<open>Versions of a mapping\<close>

lemma confirm_run:
  "item_map_confirm t i v actor now s =
     (if 2 ^ 31 \<le> v then (Inl numeric_overflow, s)
      else case find (item_row_at (tenant_ctx t) i v (\<lambda>x. imState x = Map_suggested \<and> imRetired x = None)) (itemMaps s) of
        None \<Rightarrow> (Inr (if item_map_exists (tenant_ctx t) i s then Map_conflict else Map_not_found), s)
      | Some x \<Rightarrow>
          if 2 ^ 31 \<le> Suc v then (Inl numeric_overflow, s)
          else (Inr (Map_ok (confirm_map actor now x)), s\<lparr>itemMaps :=
            update_where (item_row_at (tenant_ctx t) i v (\<lambda>x. imState x = Map_suggested \<and> imRetired x = None)) (confirm_map actor now) (itemMaps s)\<rparr>))"
  by (simp add: item_map_confirm_def runWithTenantContext_def as_work_def confirmOnClient_def act_open_simps map_outcome_def
      update_item_map_def sql_bind_def int4_in_def Let_def item_row_at_def [abs_def] split: option.split)

lemma retire_run:
  "item_map_retire t i v now s =
     (if 2 ^ 31 \<le> v then (Inl numeric_overflow, s)
      else case find (item_row_at (tenant_ctx t) i v (\<lambda>x. imRetired x = None)) (itemMaps s) of
        None \<Rightarrow> (Inr (if item_map_exists (tenant_ctx t) i s then Map_conflict else Map_not_found), s)
      | Some x \<Rightarrow>
          if 2 ^ 31 \<le> Suc v then (Inl numeric_overflow, s)
          else (Inr (Map_ok (retire_map now x)), s\<lparr>itemMaps :=
            update_where (item_row_at (tenant_ctx t) i v (\<lambda>x. imRetired x = None)) (retire_map now) (itemMaps s)\<rparr>))"
  by (simp add: item_map_retire_def runWithTenantContext_def as_work_def retireOnClient_def act_open_simps map_outcome_def
      update_item_map_def sql_bind_def int4_in_def Let_def item_row_at_def [abs_def] split: option.split)

text \<open>A change that was made at a version leaves a row at the next one.\<close>

lemma changed_row:
  assumes "find (item_row_at (tenant_ctx t) i v p) (itemMaps s) = Some x" and "s' = s\<lparr>itemMaps := update_where (item_row_at (tenant_ctx t) i v p) f (itemMaps s)\<rparr>"
    and "map_facts (f x) = map_facts x" and "imVersion (f x) = Suc (imVersion x)"
  shows "\<exists>y \<in> set (itemMaps s'). imTenant y = t \<and> imId y = i \<and> v < imVersion y"
proof (rule bexI [of _ "f x"])
  from find_SomeD [OF assms(1)] have x: "x \<in> set (itemMaps s)" "item_row_at (tenant_ctx t) i v p x" by simp_all
  then show "f x \<in> set (itemMaps s')" by (auto simp: assms(2) set_update_where image_iff intro: bexI [of _ x])
  show "imTenant (f x) = t \<and> imId (f x) = i \<and> v < imVersion (f x)"
    using x(2) assms(3,4) by (auto simp: item_row_at_def map_facts_def)
qed

lemma map_answer_ok: "map_answer st body r = Response_ok n b \<Longrightarrow> \<exists>x. r = Inr (Map_ok x)"
  by (auto simp: map_answer_def split: sum.splits map_result.splits)

lemma answered_change:
  assumes "requireMapContext req = Inr (t, u)"
    and "item_map_confirm_route req i v now s = (Response_ok n b, s') \<or> item_map_retire_route req i v now s = (Response_ok n b, s')"
  shows "1 \<le> v \<and> v < 2 ^ 31 \<and> (\<exists>y \<in> set (itemMaps s'). imTenant y = t \<and> imId y = i \<and> v < imVersion y)"
  using assms(2)
proof
  assume ok: "item_map_confirm_route req i v now s = (Response_ok n b, s')"
  with assms(1) obtain r where r: "item_map_confirm t i v u now s = (r, s')" "map_answer 200 toErpnextItemMapping r = Response_ok n b" "1 \<le> v"
    by (auto simp: item_map_confirm_route_def VersionedMutationRequestSchema_def split: if_splits prod.splits)
  from map_answer_ok [OF r(2)] r(1) show ?thesis
    using changed_row [of t i v _ s _ s' "confirm_map u now"] r(3)
    by (auto simp: confirm_run confirm_map_def map_facts_def split: if_splits option.splits)
next
  assume ok: "item_map_retire_route req i v now s = (Response_ok n b, s')"
  with assms(1) obtain r where r: "item_map_retire t i v now s = (r, s')" "map_answer 200 toErpnextItemMapping r = Response_ok n b" "1 \<le> v"
    by (auto simp: item_map_retire_route_def VersionedMutationRequestSchema_def split: if_splits prod.splits)
  from map_answer_ok [OF r(2)] r(1) show ?thesis
    using changed_row [of t i v _ s _ s' "retire_map now"] r(3)
    by (auto simp: retire_run retire_map_def map_facts_def split: if_splits option.splits)
qed

text \<open>A change of an item mapping is made at most once per version. Once a confirmation or a
  retirement was answered with success for a version, every later confirmation or retirement of the
  same mapping that names the version is answered 409 and changes nothing, whatever ran in between:
  of two operators who read the same version, one wins.\<close>

lemma stale_version_refused:
  fixes env :: sales_env and parse :: "string \<Rightarrow> json option" and ops :: "erp_op list"
  assumes "erp_ok s" and "requireMapContext req = Inr (t, u)" and "requireMapContext req' = Inr (t, u')"
    and "item_map_confirm_route req i v now s = (Response_ok n b, s') \<or> item_map_retire_route req i v now s = (Response_ok n b, s')"
  defines "z \<equiv> erp_run env parse ops s'"
  shows "item_map_confirm_route req' i v now' z = (Response_error 409 ''conflict'', z) \<and>
    item_map_retire_route req' i v now' z = (Response_error 409 ''conflict'', z)"
proof -
  obtain y where v: "1 \<le> v" "v < 2 ^ 31" and y: "y \<in> set (itemMaps s')" "imTenant y = t" "imId y = i" "v < imVersion y"
    using answered_change [OF assms(2,4)] by blast
  have ok: "erp_ok s'"
    using step_erp_ok [OF assms(1), of env parse "Erp_confirm req i v now"] step_erp_ok [OF assms(1), of env parse "Erp_retire req i v now"] assms(4)
    by auto
  have later: "erp_later s' z" unfolding z_def by blast
  have "imVersion w \<noteq> v" if "w \<in> set (itemMaps z)" "imId w = i" for w
    using item_versions.version_left [OF ok later y(1,4) that(1)] that(2) y(3) by simp
  then have none: "find (item_row_at (tenant_ctx t) i v p) (itemMaps z) = None" for p
    by (auto simp: find_None_iff item_row_at_def)
  obtain w where "w \<in> set (itemMaps z)" "map_facts w = map_facts y" using item_maps_later [OF ok y(1)] unfolding z_def by blast
  with y(2,3) have "item_map_exists (tenant_ctx t) i z" by (auto simp: item_map_exists_def list_ex_iff map_facts_def)
  with none v assms(3) show ?thesis
    by (simp_all add: item_map_confirm_route_def item_map_retire_route_def VersionedMutationRequestSchema_def confirm_run retire_run map_answer_def)
qed

lemma stale_version_refused_witness:
  "\<exists>n b s'. item_map_retire_route back_office 30 2 300 depot = (Response_ok n b, s') \<and>
     item_map_confirm_route back_office 30 2 400 s' = (Response_error 409 ''conflict'', s')"
proof -
  let ?s = "snd (item_map_retire_route back_office 30 2 300 depot)"
  let ?b = "toErpnextItemMapping (retire_map 300 tea_map)"
  have first: "item_map_retire_route back_office 30 2 300 depot = (Response_ok 200 ?b, ?s)"
    by (rule prod_eqI) (code_simp, simp)
  have req: "requireMapContext back_office = Inr (1, 8)" by (simp add: requireMapContext_def back_office_def)
  have "item_map_confirm_route back_office 30 2 400 ?s = (Response_error 409 ''conflict'', ?s)"
    using stale_version_refused [where env = shop_env and parse = depot_parse and ops = "[]", OF depot_ok req req disjI2 [OF first], of 400] by simp
  with first show ?thesis by blast
qed

end
