(* ===== verification/AccessTables.thy ===== *)
theory AccessTables
  imports Http Money "HOL-Library.Option_ord" "HOL-Library.Product_Lexorder"
begin

text \<open>
  Who may do what: users, roles, memberships with their store grants, devices, bearer tokens, dashboard
  sessions, connector registrations, identity links and the keys of takeovers, with the checks of an
  insert. The lookups of apps/api/src/auth and apps/api/src/pos-operators run on the pool outside a
  tenant context (the admin pool, as their comments say), one statement at a time: they see every row.

  SHA-256 (\<open>hashToken\<close> of packages/auth) and the identity provider's verification of a token are
  parameters. The clock of the process and the clock of the database agree within a request. A query
  with \<open>LIMIT 1\<close> and no order gives the first row of the table, whose order is arbitrary.
\<close>

section \<open>Rows\<close>

record user_row =
  usrId :: uuid
  usrEmail :: string
  usrDisplay :: "string option"
  usrClerk :: "string option"
  usrPlatformAdmin :: bool
  usrDeleted :: "instant option"

record role_row =
  rolId :: uuid
  rolTenant :: "uuid option"
  rolCode :: string

record store_row =
  stoId :: uuid
  stoTenant :: uuid
  stoCode :: string
  stoName :: string
  stoDeleted :: "instant option"

record tenant_row =
  tenId :: uuid
  tenSlug :: string
  tenName :: string
  tenDeleted :: "instant option"

datatype access_kind = Access_all | Access_specific

record membership =
  memId :: uuid
  memTenant :: uuid
  memUser :: uuid
  memRole :: uuid
  memKind :: access_kind
  memRevoked :: "instant option"
  memDeleted :: "instant option"

record store_grant =
  graMembership :: uuid
  graStore :: uuid
  graTenant :: uuid

record device =
  devId :: uuid
  devTenant :: uuid
  devStore :: uuid
  devHash :: string
  devRevoked :: "instant option"

datatype token_scope = Dashboard_api | Pos | Pos_operator | Connector | Password_reset | Email_verify

record auth_token =
  tokId :: uuid
  tokHash :: string
  tokTenant :: "uuid option"
  tokUser :: "uuid option"
  tokDevice :: "uuid option"
  tokStore :: "uuid option"
  tokScope :: token_scope
  tokRegistration :: "uuid option"
  tokIssued :: instant
  tokExpires :: instant
  tokRevoked :: "instant option"

record dash_session =
  sesId :: uuid
  sesUser :: uuid
  sesTenant :: "uuid option"
  sesStore :: "uuid option"
  sesExpires :: instant
  sesRevoked :: "instant option"

record connector_reg =
  regId :: uuid
  regTenant :: uuid
  regName :: string
  regSite :: string
  regEnvironment :: string
  regCreated :: instant
  regCreatedBy :: uuid
  regDisabled :: "instant option"
  regDisabledBy :: "uuid option"

record identity_link =
  lnkId :: uuid
  lnkProvider :: string
  lnkIssuer :: string
  lnkSubject :: string
  lnkUser :: uuid
  lnkEmail :: "string option"
  lnkActive :: bool

text \<open>The key row of a takeover: \<open>response_body\<close> is the operator and the session, once there is one.\<close>

record takeover_key =
  tkyTenant :: uuid
  tkyStore :: uuid
  tkyClient :: string
  tkyKey :: uuid
  tkyHash :: string
  tkyOperator :: string
  tkySession :: "uuid option"
  tkyExpires :: instant

record takeover_audit =
  taId :: uuid
  taActor :: uuid
  taTenant :: uuid
  taStore :: uuid
  taTarget :: uuid
  taSuperseded :: uuid

text \<open>The audit rows of connector administration; \<open>metadata\<close> holds at most one entry.\<close>

datatype audit_meta = Meta_none | Meta_environment string | Meta_credential uuid

record connector_audit =
  caId :: uuid
  caActor :: uuid
  caTenant :: uuid
  caAction :: string
  caTarget :: uuid
  caMeta :: audit_meta

datatype code_status = Code_pending | Code_used | Code_cancelled

record pairing_code =
  pcId :: uuid
  pcTenant :: uuid
  pcStore :: uuid
  pcHash :: string
  pcTerminal :: uuid
  pcLabel :: string
  pcBranch :: string
  pcAddress :: string
  pcTaxId :: string
  pcVendor :: string
  pcProduct :: string
  pcComPort :: "string option"
  pcStatus :: code_status
  pcExpires :: instant
  pcAttempts :: nat
  pcLastAttempt :: "instant option"
  pcDevice :: "uuid option"
  pcUsed :: "instant option"

datatype invite_status = Invite_pending | Invite_accepted | Invite_expired | Invite_revoked

record invitation =
  ivId :: uuid
  ivTenant :: uuid
  ivEmail :: string
  ivRole :: uuid
  ivKind :: access_kind
  ivStores :: "uuid list"
  ivInvitedBy :: uuid
  ivHash :: string
  ivStatus :: invite_status
  ivExpires :: instant
  ivAcceptedBy :: "uuid option"
  ivAcceptedAt :: "instant option"
  ivDeleted :: "instant option"

record access_db =
  users :: "user_row list"
  roles :: "role_row list"
  stores :: "store_row list"
  tenants :: "tenant_row list"
  memberships :: "membership list"
  grants :: "store_grant list"
  devices :: "device list"
  tokens :: "auth_token list"
  dashSessions :: "dash_session list"
  connectorRegs :: "connector_reg list"
  identityLinks :: "identity_link list"
  takeoverKeys :: "takeover_key list"
  takeoverAudits :: "takeover_audit list"
  connectorAudits :: "connector_audit list"
  pairingCodes :: "pairing_code list"
  invitations :: "invitation list"

section \<open>Selects\<close>

text \<open>The first row of a result, as \<open>rows[0] ?? null\<close>.\<close>

fun first_row :: "'a list \<Rightarrow> 'a option" where
  "first_row [] = None"
| "first_row (x # xs) = Some x"

lemma first_row_SomeD: "first_row xs = Some x \<Longrightarrow> x \<in> set xs"
  by (cases xs) auto

lemma first_row_None [simp]: "first_row xs = None \<longleftrightarrow> xs = []"
  by (cases xs) auto

text \<open>\<open>memberships JOIN roles ON roles.id = memberships.role_id\<close>.\<close>

definition with_role :: "membership list \<Rightarrow> access_db \<Rightarrow> (membership \<times> string) list" where
  "with_role ms s = concat (map (\<lambda>m. map (\<lambda>r. (m, rolCode r)) (filter (\<lambda>r. rolId r = memRole m) (roles s))) ms)"

lemma with_role_mem: "(m, c) \<in> set (with_role ms s) \<longleftrightarrow> m \<in> set ms \<and> (\<exists>r \<in> set (roles s). rolId r = memRole m \<and> rolCode r = c)"
  by (auto simp: with_role_def)

definition live_membership :: "membership \<Rightarrow> bool" where
  "live_membership m \<longleftrightarrow> memRevoked m = None \<and> memDeleted m = None"

definition active_token :: "instant \<Rightarrow> auth_token \<Rightarrow> bool" where
  "active_token now x \<longleftrightarrow> tokRevoked x = None \<and> now < tokExpires x"

section \<open>Inserts\<close>

text \<open>
  \<open>auth_tokens_principal_by_scope\<close> of migration 0001: the operator scope carries a user and a device,
  every other scope exactly one of them.
\<close>

definition principal_by_scope :: "auth_token \<Rightarrow> bool" where
  "principal_by_scope x \<longleftrightarrow>
     (if tokScope x = Pos_operator then tokUser x \<noteq> None \<and> tokDevice x \<noteq> None
      else (tokUser x \<noteq> None) \<noteq> (tokDevice x \<noteq> None))"

definition refers :: "'k option \<Rightarrow> ('r \<Rightarrow> 'k) \<Rightarrow> 'r list \<Rightarrow> bool" where
  "refers k f rows = (case k of None \<Rightarrow> True | Some i \<Rightarrow> list_ex (\<lambda>r. f r = i) rows)"

text \<open>The partial unique index of migration 0021: one unrevoked credential of a connector.\<close>

definition live_credential :: "uuid \<Rightarrow> auth_token \<Rightarrow> bool" where
  "live_credential i x \<longleftrightarrow> tokRegistration x = Some i \<and> tokScope x = Connector \<and> tokRevoked x = None"

definition credential_clash :: "auth_token \<Rightarrow> auth_token list \<Rightarrow> bool" where
  "credential_clash x ts \<longleftrightarrow>
     (case tokRegistration x of None \<Rightarrow> False | Some i \<Rightarrow> live_credential i x \<and> list_ex (live_credential i) ts)"

definition token_checks :: "auth_token \<Rightarrow> access_db \<Rightarrow> exn option" where
  "token_checks x s =
     sql_check (principal_by_scope x) check_violation
    (sql_check (\<not> list_ex (\<lambda>y. tokId y = tokId x \<or> tokHash y = tokHash x) (tokens s)) unique_violation
    (sql_check (\<not> credential_clash x (tokens s)) unique_violation
    (sql_check (refers (tokTenant x) tenId (tenants s)) fk_violation
    (sql_check (refers (tokUser x) usrId (users s)) fk_violation
    (sql_check (refers (tokDevice x) devId (devices s)) fk_violation
    (sql_check (refers (tokStore x) stoId (stores s)) fk_violation
    (sql_check (refers (tokRegistration x) regId (connectorRegs s)) fk_violation None)))))))"

definition insert_token :: "auth_token \<Rightarrow> access_db \<Rightarrow> exn + access_db" where
  "insert_token x s = (case token_checks x s of Some e \<Rightarrow> Inl e | None \<Rightarrow> Inr (s\<lparr>tokens := tokens s @ [x]\<rparr>))"

section \<open>Token repository (apps/api/src/auth/auth-token.repository.ts)\<close>

definition token_issue :: "(string \<Rightarrow> string) \<Rightarrow> string \<Rightarrow> auth_token \<Rightarrow> access_db \<Rightarrow> (exn + auth_token) \<times> access_db" where
  "token_issue sha256 raw x s =
     (let row = x\<lparr>tokHash := sha256 raw\<rparr>
      in case insert_token row s of Inl e \<Rightarrow> (Inl e, s) | Inr s' \<Rightarrow> (Inr row, s'))"

definition findActiveByRawToken :: "(string \<Rightarrow> string) \<Rightarrow> instant \<Rightarrow> string \<Rightarrow> access_db \<Rightarrow> auth_token option" where
  "findActiveByRawToken sha256 now raw s = find (\<lambda>x. tokHash x = sha256 raw \<and> active_token now x) (tokens s)"

definition findActiveConnectorCredentialByTokenId :: "instant \<Rightarrow> uuid \<Rightarrow> access_db \<Rightarrow> connector_reg option" where
  "findActiveConnectorCredentialByTokenId now i s =
     first_row (concat (map (\<lambda>x. filter (\<lambda>r. tokRegistration x = Some (regId r) \<and> tokTenant x = Some (regTenant r) \<and>
                                       regDisabled r = None) (connectorRegs s))
       (filter (\<lambda>x. tokId x = i \<and> tokScope x = Connector \<and> active_token now x) (tokens s))))"

definition token_revoke :: "instant \<Rightarrow> uuid \<Rightarrow> access_db \<Rightarrow> bool \<times> access_db" where
  "token_revoke now i s =
     (list_ex (\<lambda>x. tokId x = i \<and> tokRevoked x = None) (tokens s),
      s\<lparr>tokens := update_where (\<lambda>x. tokId x = i \<and> tokRevoked x = None) (tokRevoked_update (\<lambda>_. Some now)) (tokens s)\<rparr>)"

section \<open>Devices (apps/api/src/pos-operators/device.repository.ts)\<close>

definition findActiveByAttestation :: "(string \<Rightarrow> string) \<Rightarrow> string \<Rightarrow> access_db \<Rightarrow> device option" where
  "findActiveByAttestation sha256 raw s =
     (if raw = [] then None else find (\<lambda>d. devHash d = sha256 raw \<and> devRevoked d = None) (devices s))"

section \<open>Sessions (apps/api/src/auth/session.repository.ts)\<close>

text \<open>Without a cache, as the module wires it; \<open>last_seen_at\<close> is not kept.\<close>

definition session_findActiveById :: "instant \<Rightarrow> uuid \<Rightarrow> access_db \<Rightarrow> dash_session option" where
  "session_findActiveById now i s = find (\<lambda>x. sesId x = i \<and> sesRevoked x = None \<and> now < sesExpires x) (dashSessions s)"

definition session_checks :: "dash_session \<Rightarrow> bool" where
  "session_checks x \<longleftrightarrow> (sesStore x \<noteq> None \<longrightarrow> sesTenant x \<noteq> None)"

definition updateActiveContext ::
    "uuid \<Rightarrow> uuid option \<Rightarrow> uuid option \<Rightarrow> access_db \<Rightarrow> (exn + dash_session option) \<times> access_db" where
  "updateActiveContext i t st s =
     (let p = (\<lambda>x. sesId x = i \<and> sesRevoked x = None); f = (\<lambda>x. x\<lparr>sesTenant := t, sesStore := st\<rparr>)
      in case find p (dashSessions s) of
           None \<Rightarrow> (Inr None, s)
         | Some x \<Rightarrow>
             (case sql_check (session_checks (f x)) check_violation
                  (sql_check (refers t tenId (tenants s)) fk_violation
                  (sql_check (refers st stoId (stores s)) fk_violation None)) of
                Some e \<Rightarrow> (Inl e, s)
              | None \<Rightarrow> (Inr (Some (f x)), s\<lparr>dashSessions := update_where p f (dashSessions s)\<rparr>)))"

definition session_revoke :: "instant \<Rightarrow> uuid \<Rightarrow> access_db \<Rightarrow> bool \<times> access_db" where
  "session_revoke now i s =
     (list_ex (\<lambda>x. sesId x = i \<and> sesRevoked x = None) (dashSessions s),
      s\<lparr>dashSessions := update_where (\<lambda>x. sesId x = i \<and> sesRevoked x = None) (sesRevoked_update (\<lambda>_. Some now)) (dashSessions s)\<rparr>)"

end
