(* ===== verification/PosOperators.thy ===== *)
theory PosOperators
  imports AccessTables
begin

text \<open>
  Operators at a terminal (apps/api/src/pos-operators): sign-in, sign-out, the roster, the confirmation
  of a takeover and the probe for an active session, with their routes. Each statement commits on its
  own, except the two on the key of a takeover; an error leaves what was written before it. Ids of a
  request arrive parsed; the log lines are left out.
\<close>

section \<open>Results\<close>

datatype refusal =
    Clerk_jwt_invalid
  | User_unmapped
  | User_disabled
  | Device_invalid
  | Membership_missing
  | Membership_revoked
  | Role_ineligible
  | Store_not_in_access_set
  | Tenant_mismatch
  | Session_unknown
  | Session_user_mismatch
  | Session_scope_mismatch
  | Session_revoked
  | Session_expired
  | Session_revoke_race
  | Branch_id_required
  | Branch_mismatch
  | Store_not_accessible
  | Operator_id_mismatch
  | Event_id_operator_conflict
  | No_active_session_to_supersede

datatype pos_role = Role_manager | Role_admin

record operator_summary =
  opClerk :: string
  opUser :: uuid
  opName :: string
  opRole :: pos_role
  opTenant :: uuid
  opBranch :: uuid

record session_summary =
  smId :: uuid
  smIssued :: instant
  smEnvelope :: "string option"

datatype sign_in_result = Signed_in operator_summary session_summary | Takeover_required | Sign_in_refused refusal

datatype sign_out_result = Signed_out | Sign_out_refused refusal

datatype session_probe = Probe_active | Probe_none

text \<open>The bindings of a service call: the verifier of tokens and the hash.\<close>

record pos_env =
  verify :: "string \<Rightarrow> string option"
  sha256 :: "string \<Rightarrow> string"

definition OPERATOR_SESSION_TTL_MS :: int where
  "OPERATOR_SESSION_TTL_MS = 8 * 60 * 60 * 1000"

definition ELIGIBLE_INTERNAL_ROLES :: "string list" where
  "ELIGIBLE_INTERNAL_ROLES = [''owner'', ''tenant_admin'', ''store_manager'']"

definition mapInternalRoleToPos :: "string \<Rightarrow> pos_role option" where
  "mapInternalRoleToPos c =
     (if c = ''owner'' \<or> c = ''tenant_admin'' then Some Role_admin
      else if c = ''store_manager'' then Some Role_manager else None)"

section \<open>Lookups\<close>

definition findUserByClerkSubject :: "string \<Rightarrow> access_db \<Rightarrow> user_row option" where
  "findUserByClerkSubject sub s = find (\<lambda>u. usrClerk u = Some sub) (users s)"

definition findActiveMembership :: "uuid \<Rightarrow> uuid \<Rightarrow> access_db \<Rightarrow> (membership \<times> string) option" where
  "findActiveMembership t u s = first_row (with_role (filter (\<lambda>m. memTenant m = t \<and> memUser m = u) (memberships s)) s)"

definition storeIsInAccessSet :: "uuid \<Rightarrow> uuid \<Rightarrow> access_db \<Rightarrow> bool" where
  "storeIsInAccessSet m st s \<longleftrightarrow> list_ex (\<lambda>g. graMembership g = m \<and> graStore g = st) (grants s)"

definition session_of :: "instant \<Rightarrow> uuid \<Rightarrow> uuid \<Rightarrow> auth_token \<Rightarrow> bool" where
  "session_of now d st x \<longleftrightarrow> tokScope x = Pos_operator \<and> tokDevice x = Some d \<and> tokStore x = Some st \<and> active_token now x"

definition activeOperatorSessionExists :: "instant \<Rightarrow> uuid \<Rightarrow> uuid \<Rightarrow> access_db \<Rightarrow> bool" where
  "activeOperatorSessionExists now d st s \<longleftrightarrow> list_ex (session_of now d st) (tokens s)"

definition findOperatorSessionById :: "uuid \<Rightarrow> access_db \<Rightarrow> auth_token option" where
  "findOperatorSessionById i s = find (\<lambda>x. tokId x = i) (tokens s)"

definition findActiveMembershipByStore :: "uuid \<Rightarrow> uuid \<Rightarrow> access_db \<Rightarrow> (membership \<times> string) option" where
  "findActiveMembershipByStore st u s =
     first_row (filter (\<lambda>(m, c). list_ex (\<lambda>b. stoTenant b = memTenant m \<and> stoId b = st) (stores s))
       (with_role (filter (\<lambda>m. memUser m = u \<and> live_membership m) (memberships s)) s))"

definition anyActiveOperatorSessionInStore :: "instant \<Rightarrow> uuid \<Rightarrow> uuid \<Rightarrow> access_db \<Rightarrow> bool" where
  "anyActiveOperatorSessionInStore now u st s \<longleftrightarrow>
     list_ex (\<lambda>x. tokScope x = Pos_operator \<and> tokUser x = Some u \<and> tokStore x = Some st \<and> active_token now x) (tokens s)"

section \<open>Sign-in\<close>

definition resolve_user :: "pos_env \<Rightarrow> string \<Rightarrow> access_db \<Rightarrow> refusal + user_row" where
  "resolve_user env sub s =
     (case findUserByClerkSubject sub s of
        None \<Rightarrow> Inl User_unmapped
      | Some u \<Rightarrow> if usrDeleted u \<noteq> None then Inl User_disabled else Inr u)"

text \<open>Membership in the tenant of the device, role, store.\<close>

definition operator_eligibility :: "uuid \<Rightarrow> uuid \<Rightarrow> uuid \<Rightarrow> access_db \<Rightarrow> refusal + pos_role" where
  "operator_eligibility t st u s =
     (case findActiveMembership t u s of
        None \<Rightarrow> Inl Membership_missing
      | Some (m, code) \<Rightarrow>
          if memRevoked m \<noteq> None \<or> memDeleted m \<noteq> None then Inl Membership_revoked
          else if code \<notin> set ELIGIBLE_INTERNAL_ROLES then Inl Role_ineligible
          else case mapInternalRoleToPos code of
                 None \<Rightarrow> Inl Role_ineligible
               | Some r \<Rightarrow>
                   if memKind m = Access_specific \<and> \<not> storeIsInAccessSet (memId m) st s
                   then Inl Store_not_in_access_set else Inr r)"

definition device_operator :: "pos_env \<Rightarrow> user_row \<Rightarrow> string \<Rightarrow> access_db \<Rightarrow> refusal + (user_row \<times> device \<times> pos_role)" where
  "device_operator env u att s =
     (case findActiveByAttestation (sha256 env) att s of
        None \<Rightarrow> Inl Device_invalid
      | Some d \<Rightarrow>
          (case operator_eligibility (devTenant d) (devStore d) (usrId u) s of
             Inl r \<Rightarrow> Inl r
           | Inr role \<Rightarrow> Inr (u, d, role)))"

definition sign_in_checks :: "pos_env \<Rightarrow> string \<Rightarrow> string \<Rightarrow> access_db \<Rightarrow> refusal + (user_row \<times> device \<times> pos_role)" where
  "sign_in_checks env jwt att s =
     (case verify env jwt of
        None \<Rightarrow> Inl Clerk_jwt_invalid
      | Some sub \<Rightarrow>
          (case resolve_user env sub s of Inl r \<Rightarrow> Inl r | Inr u \<Rightarrow> device_operator env u att s))"

definition operator_token :: "pos_env \<Rightarrow> uuid \<Rightarrow> string \<Rightarrow> instant \<Rightarrow> device \<Rightarrow> uuid \<Rightarrow> auth_token" where
  "operator_token env i raw now d u =
     \<lparr>tokId = i, tokHash = sha256 env raw, tokTenant = Some (devTenant d), tokUser = Some u, tokDevice = Some (devId d),
      tokStore = Some (devStore d), tokScope = Pos_operator, tokRegistration = None, tokIssued = now,
      tokExpires = now + OPERATOR_SESSION_TTL_MS, tokRevoked = None\<rparr>"

definition issueOperatorSessionRow ::
    "pos_env \<Rightarrow> uuid \<Rightarrow> string \<Rightarrow> instant \<Rightarrow> device \<Rightarrow> uuid \<Rightarrow> access_db \<Rightarrow> (exn + session_summary) \<times> access_db" where
  "issueOperatorSessionRow env i raw now d u s =
     (case insert_token (operator_token env i raw now d u) s of
        Inl e \<Rightarrow> (Inl e, s)
      | Inr s' \<Rightarrow> (Inr \<lparr>smId = i, smIssued = now, smEnvelope = Some raw\<rparr>, s'))"

definition summary_of :: "user_row \<Rightarrow> device \<Rightarrow> pos_role \<Rightarrow> operator_summary" where
  "summary_of u d r =
     \<lparr>opClerk = (case usrClerk u of None \<Rightarrow> [] | Some c \<Rightarrow> c), opUser = usrId u,
      opName = (case usrDisplay u of None \<Rightarrow> usrEmail u | Some n \<Rightarrow> n), opRole = r,
      opTenant = devTenant d, opBranch = devStore d\<rparr>"

definition issue_session ::
    "pos_env \<Rightarrow> uuid \<Rightarrow> string \<Rightarrow> instant \<Rightarrow> user_row \<times> device \<times> pos_role \<Rightarrow> access_db \<Rightarrow> (exn + sign_in_result) \<times> access_db" where
  "issue_session env i raw now who s =
     (case who of (u, d, r) \<Rightarrow>
        (case issueOperatorSessionRow env i raw now d (usrId u) s of
           (Inl e, s') \<Rightarrow> (Inl e, s')
         | (Inr ss, s') \<Rightarrow> (Inr (Signed_in (summary_of u d r) ss), s')))"

definition signIn ::
    "pos_env \<Rightarrow> string \<Rightarrow> string \<Rightarrow> uuid \<Rightarrow> string \<Rightarrow> instant \<Rightarrow> access_db \<Rightarrow> (exn + sign_in_result) \<times> access_db" where
  "signIn env jwt att i raw now s =
     (case sign_in_checks env jwt att s of
        Inl r \<Rightarrow> (Inr (Sign_in_refused r), s)
      | Inr (u, d, r) \<Rightarrow>
          if activeOperatorSessionExists now (devId d) (devStore d) s then (Inr Takeover_required, s)
          else issue_session env i raw now (u, d, r) s)"

section \<open>Sign-out\<close>

definition markSessionRevoked :: "instant \<Rightarrow> uuid \<Rightarrow> uuid \<Rightarrow> access_db \<Rightarrow> bool \<times> access_db" where
  "markSessionRevoked now i u s =
     (let p = (\<lambda>x. tokId x = i \<and> tokUser x = Some u \<and> tokRevoked x = None)
      in (list_ex p (tokens s), s\<lparr>tokens := update_where p (tokRevoked_update (\<lambda>_. Some now)) (tokens s)\<rparr>))"

definition signOut :: "pos_env \<Rightarrow> string \<Rightarrow> uuid \<Rightarrow> instant \<Rightarrow> access_db \<Rightarrow> sign_out_result \<times> access_db" where
  "signOut env jwt i now s =
     (case verify env jwt of
        None \<Rightarrow> (Sign_out_refused Clerk_jwt_invalid, s)
      | Some sub \<Rightarrow>
          (case resolve_user env sub s of
             Inl r \<Rightarrow> (Sign_out_refused r, s)
           | Inr u \<Rightarrow>
               (case findOperatorSessionById i s of
                  None \<Rightarrow> (Sign_out_refused Session_unknown, s)
                | Some x \<Rightarrow>
                    if tokUser x \<noteq> Some (usrId u) then (Sign_out_refused Session_user_mismatch, s)
                    else if tokScope x \<noteq> Pos_operator then (Sign_out_refused Session_scope_mismatch, s)
                    else if tokRevoked x \<noteq> None then (Sign_out_refused Session_revoked, s)
                    else if tokExpires x \<le> now then (Sign_out_refused Session_expired, s)
                    else case markSessionRevoked now i (usrId u) s of
                           (True, s') \<Rightarrow> (Signed_out, s')
                         | (False, s') \<Rightarrow> (Sign_out_refused Session_revoke_race, s'))))"

section \<open>Roster and active session\<close>

definition findCashiersByStore :: "(string \<Rightarrow> nat) \<Rightarrow> uuid \<Rightarrow> uuid \<Rightarrow> access_db \<Rightarrow> (string \<times> uuid \<times> string) list" where
  "findCashiersByStore collation st t s =
     sort_key (\<lambda>(c, i, n). collation n)
       (concat (map (\<lambda>(m, code).
          concat (map (\<lambda>u. case (usrClerk u, usrDisplay u) of (Some c, Some n) \<Rightarrow> [(c, usrId u, n)] | _ \<Rightarrow> [])
            (filter (\<lambda>u. usrId u = memUser m \<and> usrDeleted u = None) (users s))))
        (filter (\<lambda>(m, code). code = ''store_staff'' \<and> (memKind m = Access_all \<or> storeIsInAccessSet (memId m) st s))
          (with_role (filter (\<lambda>m. memTenant m = t \<and> live_membership m) (memberships s)) s))))"

text \<open>A caller who may look into a store: a live membership in its tenant that covers it.\<close>

definition store_reader :: "pos_env \<Rightarrow> string \<Rightarrow> uuid option \<Rightarrow> access_db \<Rightarrow> refusal + (uuid \<times> membership)" where
  "store_reader env jwt branch s =
     (case verify env jwt of
        None \<Rightarrow> Inl Clerk_jwt_invalid
      | Some sub \<Rightarrow>
          (case resolve_user env sub s of
             Inl r \<Rightarrow> Inl r
           | Inr u \<Rightarrow>
               (case branch of
                  None \<Rightarrow> Inl Branch_id_required
                | Some st \<Rightarrow>
                    (case findActiveMembershipByStore st (usrId u) s of
                       None \<Rightarrow> Inl Membership_missing
                     | Some (m, code) \<Rightarrow>
                         if memKind m = Access_specific \<and> \<not> storeIsInAccessSet (memId m) st s
                         then Inl Store_not_accessible else Inr (st, m)))))"

definition roster :: "pos_env \<Rightarrow> (string \<Rightarrow> nat) \<Rightarrow> string \<Rightarrow> uuid option \<Rightarrow> access_db \<Rightarrow> refusal + (string \<times> uuid \<times> string) list" where
  "roster env collation jwt branch s =
     (case store_reader env jwt branch s of
        Inl r \<Rightarrow> Inl r
      | Inr (st, m) \<Rightarrow> Inr (findCashiersByStore collation st (memTenant m) s))"

definition activeSession :: "pos_env \<Rightarrow> string \<Rightarrow> uuid \<Rightarrow> string \<Rightarrow> instant \<Rightarrow> access_db \<Rightarrow> refusal + session_probe" where
  "activeSession env jwt branch operator now s =
     (case store_reader env jwt (Some branch) s of
        Inl r \<Rightarrow> Inl r
      | Inr (st, m) \<Rightarrow>
          (case findUserByClerkSubject operator s of
             None \<Rightarrow> Inr Probe_none
           | Some u \<Rightarrow>
               if usrDeleted u \<noteq> None then Inr Probe_none
               else Inr (if anyActiveOperatorSessionInStore now (usrId u) branch s then Probe_active else Probe_none)))"

end
