(* ===== verification/Takeover.thy ===== *)
theory Takeover
  imports PosOperators Transaction
begin

text \<open>
  The confirmation of a takeover (apps/api/src/pos-operators): the running session of a terminal is
  revoked and another operator gets one, under an event id that makes a repetition harmless. Five
  writes, each committed on its own: the key, the revocation, the new session, the session in the key,
  the audit row. Then the routes of the whole component, and the link of an identity
  (apps/api/src/auth/clerk-identity-provider.adapter.ts).
\<close>

section \<open>The key of an event\<close>

record takeover_body =
  tvEvent :: uuid
  tvOperator :: string
  tvAttestation :: string

datatype key_outcome = Key_fresh | Key_duplicate uuid | Key_conflict

definition key_at :: "uuid \<Rightarrow> uuid \<Rightarrow> uuid \<Rightarrow> takeover_key \<Rightarrow> bool" where
  "key_at t st e k \<longleftrightarrow> tkyTenant k = t \<and> tkyStore k = st \<and> tkyClient k = ''pos_takeover'' \<and> tkyKey k = e"

definition new_key :: "pos_env \<Rightarrow> uuid \<Rightarrow> string \<Rightarrow> uuid \<Rightarrow> uuid \<Rightarrow> instant \<Rightarrow> takeover_key" where
  "new_key env e operator t st now =
     \<lparr>tkyTenant = t, tkyStore = st, tkyClient = ''pos_takeover'', tkyKey = e, tkyHash = sha256 env operator,
      tkyOperator = operator, tkySession = None, tkyExpires = now + OPERATOR_SESSION_TTL_MS\<rparr>"

text \<open>\<open>INSERT ... ON CONFLICT (tenant_id, store_id, client_id, key) DO NOTHING RETURNING\<close>.\<close>

definition insert_key :: "tenant_context \<Rightarrow> takeover_key \<Rightarrow> access_db \<Rightarrow> exn + (bool \<times> access_db)" where
  "insert_key c x s =
     (case sql_check (rls_tenant_or_admin c (tkyTenant x)) (Pg_error ''42501'') None of
        Some e \<Rightarrow> Inl e
      | None \<Rightarrow>
          if list_ex (\<lambda>k. tkyTenant k = tkyTenant x \<and> tkyStore k = tkyStore x \<and> tkyClient k = tkyClient x \<and> tkyKey k = tkyKey x)
               (takeoverKeys s)
          then Inr (False, s)
          else (case sql_check (refers (Some (tkyTenant x)) tenId (tenants s)) fk_violation None of
                  Some e \<Rightarrow> Inl e
                | None \<Rightarrow> Inr (True, s\<lparr>takeoverKeys := takeoverKeys s @ [x]\<rparr>)))"

definition find_key :: "tenant_context \<Rightarrow> uuid \<Rightarrow> uuid \<Rightarrow> uuid \<Rightarrow> access_db \<Rightarrow> takeover_key option" where
  "find_key c t st e s = find (\<lambda>k. rls_tenant_or_admin c (tkyTenant k) \<and> key_at t st e k) (takeoverKeys s)"

definition key_verdict :: "pos_env \<Rightarrow> string \<Rightarrow> takeover_key option \<Rightarrow> key_outcome" where
  "key_verdict env operator existing =
     (case existing of
        None \<Rightarrow> Key_fresh
      | Some k \<Rightarrow> if tkyHash k \<noteq> sha256 env operator then Key_conflict
                  else (case tkySession k of None \<Rightarrow> Key_fresh | Some i \<Rightarrow> Key_duplicate i))"

definition upsertTakeoverIdempotencyKey ::
    "pos_env \<Rightarrow> uuid \<Rightarrow> string \<Rightarrow> uuid \<Rightarrow> uuid \<Rightarrow> instant \<Rightarrow> access_db \<Rightarrow> (exn + key_outcome) \<times> access_db" where
  "upsertTakeoverIdempotencyKey env e operator t st now =
     runWithTenantContext (tenant_ctx t) (\<lambda>c. as_work
       (act_bind (act_query (insert_key c (new_key env e operator t st now))) (\<lambda>inserted.
          if inserted then act_return Key_fresh
          else act_bind (act_select (find_key c t st e)) (\<lambda>existing. act_return (key_verdict env operator existing)))))"

definition updateIdempotencyKeyWithSession :: "uuid \<Rightarrow> uuid \<Rightarrow> uuid \<Rightarrow> uuid \<Rightarrow> access_db \<Rightarrow> (exn + unit) \<times> access_db" where
  "updateIdempotencyKeyWithSession e t st i =
     runWithTenantContext (tenant_ctx t) (\<lambda>c. as_work (act_query (\<lambda>s.
       Inr ((), s\<lparr>takeoverKeys := update_where (\<lambda>k. rls_tenant_or_admin c (tkyTenant k) \<and> key_at t st e k)
                                    (tkySession_update (\<lambda>_. Some i)) (takeoverKeys s)\<rparr>))))"

section \<open>The confirmation\<close>

definition takeover_checks :: "pos_env \<Rightarrow> string \<Rightarrow> string \<Rightarrow> string \<Rightarrow> access_db \<Rightarrow> refusal + (user_row \<times> device \<times> pos_role)" where
  "takeover_checks env jwt operator att s =
     (case verify env jwt of
        None \<Rightarrow> Inl Clerk_jwt_invalid
      | Some sub \<Rightarrow>
          if sub \<noteq> operator then Inl Operator_id_mismatch
          else (case resolve_user env sub s of Inl r \<Rightarrow> Inl r | Inr u \<Rightarrow> device_operator env u att s))"

definition revokeActiveOperatorSession :: "instant \<Rightarrow> uuid \<Rightarrow> uuid \<Rightarrow> access_db \<Rightarrow> uuid option \<times> access_db" where
  "revokeActiveOperatorSession now d st s =
     (map_option tokId (find (session_of now d st) (tokens s)),
      s\<lparr>tokens := update_where (session_of now d st) (tokRevoked_update (\<lambda>_. Some now)) (tokens s)\<rparr>)"

text \<open>A repetition answers the session the key holds, without its envelope.\<close>

definition takeover_replay :: "instant \<Rightarrow> uuid \<Rightarrow> user_row \<times> device \<times> pos_role \<Rightarrow> access_db \<Rightarrow> sign_in_result" where
  "takeover_replay now i who s =
     (case findOperatorSessionById i s of
        None \<Rightarrow> Sign_in_refused No_active_session_to_supersede
      | Some x \<Rightarrow>
          if tokRevoked x \<noteq> None \<or> tokExpires x \<le> now then Sign_in_refused No_active_session_to_supersede
          else (case who of (u, d, r) \<Rightarrow>
                  Signed_in (summary_of u d r) \<lparr>smId = tokId x, smIssued = tokIssued x, smEnvelope = None\<rparr>))"

text \<open>A failed audit row is logged and leaves the takeover standing.\<close>

definition insert_takeover_audit :: "takeover_audit \<Rightarrow> access_db \<Rightarrow> access_db" where
  "insert_takeover_audit a s =
     (if list_ex (\<lambda>b. taId b = taId a) (takeoverAudits s) then s
      else s\<lparr>takeoverAudits := takeoverAudits s @ [a]\<rparr>)"

text \<open>The ids drawn are the new session's and the audit row's.\<close>

definition takeover_first_time ::
    "pos_env \<Rightarrow> uuid \<Rightarrow> user_row \<times> device \<times> pos_role \<Rightarrow> id_source \<Rightarrow> string \<Rightarrow> instant \<Rightarrow> access_db \<Rightarrow>
     (exn + sign_in_result) \<times> access_db" where
  "takeover_first_time env e who ids raw now s =
     (case who of (u, d, r) \<Rightarrow>
        (case revokeActiveOperatorSession now (devId d) (devStore d) s of
           (None, s1) \<Rightarrow> (Inr (Sign_in_refused No_active_session_to_supersede), s1)
         | (Some old, s1) \<Rightarrow>
             (case issue_session env (ids 0) raw now (u, d, r) s1 of
                (Inl x, s2) \<Rightarrow> (Inl x, s2)
              | (Inr answer, s2) \<Rightarrow>
                  (case updateIdempotencyKeyWithSession e (devTenant d) (devStore d) (ids 0) s2 of
                     (Inl x, s3) \<Rightarrow> (Inl x, s3)
                   | (Inr _, s3) \<Rightarrow>
                       (Inr answer, insert_takeover_audit
                          \<lparr>taId = ids 1, taActor = usrId u, taTenant = devTenant d, taStore = devStore d,
                           taTarget = ids 0, taSuperseded = old\<rparr> s3)))))"

definition takeoverConfirm ::
    "pos_env \<Rightarrow> string \<Rightarrow> takeover_body \<Rightarrow> id_source \<Rightarrow> string \<Rightarrow> instant \<Rightarrow> access_db \<Rightarrow> (exn + sign_in_result) \<times> access_db" where
  "takeoverConfirm env jwt b ids raw now s =
     (case takeover_checks env jwt (tvOperator b) (tvAttestation b) s of
        Inl r \<Rightarrow> (Inr (Sign_in_refused r), s)
      | Inr (u, d, r) \<Rightarrow>
          (case upsertTakeoverIdempotencyKey env (tvEvent b) (tvOperator b) (devTenant d) (devStore d) now s of
             (Inl e, s1) \<Rightarrow> (Inl e, s1)
           | (Inr Key_conflict, s1) \<Rightarrow> (Inr (Sign_in_refused Event_id_operator_conflict), s1)
           | (Inr (Key_duplicate i), s1) \<Rightarrow> (Inr (takeover_replay now i (u, d, r) s1), s1)
           | (Inr Key_fresh, s1) \<Rightarrow> takeover_first_time env (tvEvent b) (u, d, r) ids raw now s1))"

section \<open>Routes (apps/api/src/pos-operators/pos-operators.controller.ts)\<close>

text \<open>
  \<open>toLowerCase\<close> on the characters of a scheme. A body is validated before the handler looks at the
  header; a request without a bearer is refused like every other.
\<close>

definition js_lower :: "char \<Rightarrow> char" where
  "js_lower c = (if 65 \<le> (of_char c :: nat) \<and> (of_char c :: nat) \<le> 90 then char_of ((of_char c :: nat) + 32) else c)"

definition extractBearer :: "string option \<Rightarrow> string option" where
  "extractBearer value =
     (case value of
        None \<Rightarrow> None
      | Some v \<Rightarrow>
          let trimmed = dropWhile is_space v; token = js_trim (drop 7 trimmed)
          in if length trimmed < 7 then None
             else if map js_lower (take 7 trimmed) \<noteq> ''bearer '' then None
             else if token = [] then None else Some token)"

record sign_in_body =
  sbKind :: string
  sbAttestation :: string

definition PosOperatorSignInSchema :: "sign_in_body \<Rightarrow> bool" where
  "PosOperatorSignInSchema b \<longleftrightarrow> sbKind b = ''manager_admin'' \<and> sbAttestation b \<noteq> []"

definition PosTakeoverConfirmSchema :: "takeover_body \<Rightarrow> bool" where
  "PosTakeoverConfirmSchema b \<longleftrightarrow> tvOperator b \<noteq> [] \<and> tvAttestation b \<noteq> []"

abbreviation "unauthorized \<equiv> Http_exception 401 None"

definition pos_answer :: "(exn + sign_in_result) \<times> access_db \<Rightarrow> sign_in_result response \<times> access_db" where
  "pos_answer r =
     (respond 200 (case fst r of
        Inl e \<Rightarrow> Inl (Unhandled e)
      | Inr (Sign_in_refused x) \<Rightarrow> Inl unauthorized
      | Inr a \<Rightarrow> Inr a), snd r)"

definition signIn_route ::
    "pos_env \<Rightarrow> string option \<Rightarrow> sign_in_body \<Rightarrow> uuid \<Rightarrow> string \<Rightarrow> instant \<Rightarrow> access_db \<Rightarrow> sign_in_result response \<times> access_db" where
  "signIn_route env authz b i raw now s =
     (if \<not> PosOperatorSignInSchema b then (respond 200 (Inl Zod_error), s)
      else case extractBearer authz of
        None \<Rightarrow> (respond 200 (Inl unauthorized), s)
      | Some jwt \<Rightarrow> pos_answer (signIn env jwt (sbAttestation b) i raw now s))"

definition signOut_route ::
    "pos_env \<Rightarrow> string option \<Rightarrow> uuid \<Rightarrow> instant \<Rightarrow> access_db \<Rightarrow> sign_out_result response \<times> access_db" where
  "signOut_route env authz i now s =
     (case extractBearer authz of
        None \<Rightarrow> (respond 200 (Inl unauthorized), s)
      | Some jwt \<Rightarrow>
          (case signOut env jwt i now s of
             (Signed_out, s') \<Rightarrow> (respond 200 (Inr Signed_out), s')
           | (Sign_out_refused r, s') \<Rightarrow> (respond 200 (Inl unauthorized), s')))"

definition read_route :: "string option \<Rightarrow> (string \<Rightarrow> refusal + 'b) \<Rightarrow> 'b response" where
  "read_route authz f =
     respond 200 (case extractBearer authz of
        None \<Rightarrow> Inl unauthorized
      | Some jwt \<Rightarrow> (case f jwt of Inl r \<Rightarrow> Inl unauthorized | Inr b \<Rightarrow> Inr b))"

definition roster_route ::
    "pos_env \<Rightarrow> (string \<Rightarrow> nat) \<Rightarrow> string option \<Rightarrow> uuid option \<Rightarrow> access_db \<Rightarrow> (string \<times> uuid \<times> string) list response" where
  "roster_route env collation authz branch s = read_route authz (\<lambda>jwt. roster env collation jwt branch s)"

definition takeoverConfirm_route ::
    "pos_env \<Rightarrow> string option \<Rightarrow> takeover_body \<Rightarrow> id_source \<Rightarrow> string \<Rightarrow> instant \<Rightarrow> access_db \<Rightarrow> sign_in_result response \<times> access_db" where
  "takeoverConfirm_route env authz b ids raw now s =
     (if \<not> PosTakeoverConfirmSchema b then (respond 200 (Inl Zod_error), s)
      else case extractBearer authz of
        None \<Rightarrow> (respond 200 (Inl unauthorized), s)
      | Some jwt \<Rightarrow> pos_answer (takeoverConfirm env jwt b ids raw now s))"

definition activeSession_route ::
    "pos_env \<Rightarrow> string option \<Rightarrow> uuid \<Rightarrow> string \<Rightarrow> instant \<Rightarrow> access_db \<Rightarrow> session_probe response" where
  "activeSession_route env authz branch operator now s =
     (if operator = [] then respond 200 (Inl Zod_error)
      else read_route authz (\<lambda>jwt. activeSession env jwt branch operator now s))"

section \<open>Identity links\<close>

text \<open>
  \<open>INSERT ... ON CONFLICT (provider_key, issuer, subject) DO UPDATE\<close>: an existing link gets the email
  and is active again; its user stays. A user has at most one active link.
\<close>

definition not_blank :: "string \<Rightarrow> bool" where
  "not_blank v \<longleftrightarrow> list_ex (\<lambda>c. c \<noteq> CHR '' '') v"

definition link_checks :: "identity_link \<Rightarrow> bool" where
  "link_checks x \<longleftrightarrow> not_blank (lnkProvider x) \<and> not_blank (lnkIssuer x) \<and> not_blank (lnkSubject x) \<and>
     (case lnkEmail x of None \<Rightarrow> True | Some e \<Rightarrow> not_blank e)"

definition linkExternalIdentity :: "identity_link \<Rightarrow> access_db \<Rightarrow> (exn + uuid) \<times> access_db" where
  "linkExternalIdentity x s =
     (let same = (\<lambda>l. lnkProvider l = lnkProvider x \<and> lnkIssuer l = lnkIssuer x \<and> lnkSubject l = lnkSubject x);
          taken = (\<lambda>u i. list_ex (\<lambda>l. lnkActive l \<and> lnkUser l = u \<and> lnkId l \<noteq> i) (identityLinks s))
      in if \<not> link_checks x then (Inl check_violation, s)
         else case find same (identityLinks s) of
           Some l \<Rightarrow>
             if taken (lnkUser l) (lnkId l) then (Inl unique_violation, s)
             else (Inr (lnkId l), s\<lparr>identityLinks := update_where same (\<lambda>l. l\<lparr>lnkEmail := lnkEmail x, lnkActive := True\<rparr>) (identityLinks s)\<rparr>)
         | None \<Rightarrow>
             if taken (lnkUser x) (lnkId x) then (Inl unique_violation, s)
             else if \<not> refers (Some (lnkUser x)) usrId (users s) then (Inl fk_violation, s)
             else (Inr (lnkId x), s\<lparr>identityLinks := identityLinks s @ [x\<lparr>lnkActive := True\<rparr>]\<rparr>))"

end
