(* ===== verification/AccessGuards.thy ===== *)
theory AccessGuards
  imports Takeover
begin

text \<open>
  The guards of the API (apps/api/src/auth, apps/api/src/context): the caller behind a cookie or a
  bearer, the scopes a route family accepts, the live check of an operator behind every sale, the
  active tenant and store, the role. A guard answers with a thrown exception or with what it puts on
  the request. A session cookie is text that PostgreSQL reads as a UUID (\<open>uuid_in\<close>, a parameter).
\<close>

section \<open>The caller (auth.guard.ts)\<close>

datatype principal =
    By_session uuid uuid
  | By_token uuid "uuid option" "uuid option" "uuid option" token_scope

record auth_request =
  arCookie :: "string option"
  arAuthorization :: "string option"
  arAttestation :: "string option"

definition BEARER_AUTH_SCOPES :: "token_scope list" where
  "BEARER_AUTH_SCOPES = [Dashboard_api, Pos, Pos_operator, Connector]"

definition readSessionCookie :: "auth_request \<Rightarrow> string option" where
  "readSessionCookie req =
     (case arCookie req of None \<Rightarrow> None | Some v \<Rightarrow> if js_trim v = [] then None else Some (js_trim v))"

definition readBearerToken :: "auth_request \<Rightarrow> string option" where
  "readBearerToken req =
     (case arAuthorization req of
        None \<Rightarrow> None
      | Some header \<Rightarrow>
          if length header < 7 then None
          else if map js_lower (take 7 header) \<noteq> ''bearer '' then None
          else if js_trim (drop 7 header) = [] then None else Some (js_trim (drop 7 header)))"

definition principalFromSession :: "dash_session \<Rightarrow> principal" where
  "principalFromSession x = By_session (sesId x) (sesUser x)"

definition principalFromToken :: "auth_token \<Rightarrow> principal" where
  "principalFromToken x = By_token (tokId x) (tokTenant x) (tokUser x) (tokStore x) (tokScope x)"

definition AuthGuard ::
    "pos_env \<Rightarrow> (string \<Rightarrow> uuid option) \<Rightarrow> instant \<Rightarrow> auth_request \<Rightarrow> access_db \<Rightarrow> thrown + principal" where
  "AuthGuard env uuid_in now req s =
     (case readSessionCookie req of
        Some v \<Rightarrow>
          (case uuid_in v of
             None \<Rightarrow> Inl (Unhandled invalid_text)
           | Some i \<Rightarrow>
               (case session_findActiveById now i s of
                  None \<Rightarrow> Inl unauthorized
                | Some x \<Rightarrow> Inr (principalFromSession x)))
      | None \<Rightarrow>
          (case readBearerToken req of
             None \<Rightarrow> Inl unauthorized
           | Some raw \<Rightarrow>
               (case findActiveByRawToken (sha256 env) now raw s of
                  None \<Rightarrow> Inl unauthorized
                | Some x \<Rightarrow>
                    if tokScope x \<notin> set BEARER_AUTH_SCOPES then Inl unauthorized
                    else Inr (principalFromToken x))))"

section \<open>Scope guards\<close>

definition after_auth :: "(principal \<Rightarrow> thrown + 'b) \<Rightarrow> thrown + principal \<Rightarrow> thrown + 'b" where
  "after_auth f r = (case r of Inl e \<Rightarrow> Inl e | Inr p \<Rightarrow> f p)"

definition PosOperatorAuthGuard :: "principal \<Rightarrow> thrown + principal" where
  "PosOperatorAuthGuard p =
     (case p of By_token i t u st Pos_operator \<Rightarrow> Inr p | _ \<Rightarrow> Inl unauthorized)"

definition DashboardAuthGuard :: "principal \<Rightarrow> thrown + principal" where
  "DashboardAuthGuard p =
     (case p of
        By_session i u \<Rightarrow> Inr p
      | By_token i t u st sc \<Rightarrow> if sc = Dashboard_api then Inr p else Inl unauthorized)"

definition SessionOnlyAdminGuard :: "principal \<Rightarrow> thrown + principal" where
  "SessionOnlyAdminGuard p = (case p of By_session i u \<Rightarrow> Inr p | _ \<Rightarrow> Inl unauthorized)"

definition ConnectorAuthGuard :: "instant \<Rightarrow> access_db \<Rightarrow> principal \<Rightarrow> thrown + (principal \<times> connector_reg)" where
  "ConnectorAuthGuard now s p =
     (case p of
        By_token i t u st Connector \<Rightarrow>
          (case findActiveConnectorCredentialByTokenId now i s of
             None \<Rightarrow> Inl unauthorized | Some r \<Rightarrow> Inr (p, r))
      | _ \<Rightarrow> Inl unauthorized)"

definition PosDeviceAuthGuard :: "pos_env \<Rightarrow> auth_request \<Rightarrow> access_db \<Rightarrow> thrown + (principal \<times> resolved_context)" where
  "PosDeviceAuthGuard env req s =
     (case readBearerToken req of
        None \<Rightarrow> Inl unauthorized
      | Some raw \<Rightarrow>
          (case findActiveByAttestation (sha256 env) raw s of
             None \<Rightarrow> Inl unauthorized
           | Some d \<Rightarrow>
               Inr (By_token (devId d) (Some (devTenant d)) None (Some (devStore d)) Pos,
                    \<lparr>rcUser = None, rcTenant = Some (devTenant d), rcStore = Some (devStore d), rcPlatformAdmin = False\<rparr>)))"

section \<open>The operator behind a sale (operator-context-resolver.ts)\<close>

definition CLERK_PROVIDER_KEY :: string where
  "CLERK_PROVIDER_KEY = ''clerk''"

definition findUserByExternalIdentity :: "string \<Rightarrow> string \<Rightarrow> access_db \<Rightarrow> user_row option" where
  "findUserByExternalIdentity provider subject s =
     first_row (concat (map (\<lambda>l. filter (\<lambda>u. usrId u = lnkUser l) (users s))
       (filter (\<lambda>l. lnkProvider l = provider \<and> lnkSubject l = subject \<and> lnkActive l) (identityLinks s))))"

text \<open>\<open>ORDER BY revoked_at NULLS FIRST, deleted_at NULLS FIRST\<close>: the order of options.\<close>

definition resolver_findActiveMembership :: "uuid \<Rightarrow> uuid \<Rightarrow> access_db \<Rightarrow> (membership \<times> string) option" where
  "resolver_findActiveMembership t u s =
     first_row (sort_key (\<lambda>(m, c). (memRevoked m, memDeleted m))
       (with_role (filter (\<lambda>m. memTenant m = t \<and> memUser m = u) (memberships s)) s))"

definition resolver_eligibility :: "uuid \<Rightarrow> uuid \<Rightarrow> uuid \<Rightarrow> access_db \<Rightarrow> refusal option" where
  "resolver_eligibility t st u s =
     (case resolver_findActiveMembership t u s of
        None \<Rightarrow> Some Membership_missing
      | Some (m, code) \<Rightarrow>
          if memRevoked m \<noteq> None \<or> memDeleted m \<noteq> None then Some Membership_revoked
          else if code \<notin> set ELIGIBLE_INTERNAL_ROLES then Some Role_ineligible
          else if memKind m = Access_specific \<and> \<not> storeIsInAccessSet (memId m) st s then Some Store_not_in_access_set
          else None)"

definition resolve :: "pos_env \<Rightarrow> string \<Rightarrow> string \<Rightarrow> access_db \<Rightarrow> refusal + (resolved_context \<times> uuid)" where
  "resolve env jwt att s =
     (case verify env jwt of
        None \<Rightarrow> Inl Clerk_jwt_invalid
      | Some sub \<Rightarrow>
          (case findUserByExternalIdentity CLERK_PROVIDER_KEY sub s of
             None \<Rightarrow> Inl User_unmapped
           | Some u \<Rightarrow>
               if usrDeleted u \<noteq> None then Inl User_disabled
               else case findActiveByAttestation (sha256 env) att s of
                      None \<Rightarrow> Inl Device_invalid
                    | Some d \<Rightarrow>
                        (case resolver_eligibility (devTenant d) (devStore d) (usrId u) s of
                           Some r \<Rightarrow> Inl r
                         | None \<Rightarrow>
                             Inr (\<lparr>rcUser = Some (usrId u), rcTenant = Some (devTenant d), rcStore = Some (devStore d),
                                   rcPlatformAdmin = False\<rparr>, devId d))))"

definition recoverDeviceId :: "uuid \<Rightarrow> access_db \<Rightarrow> uuid option" where
  "recoverDeviceId i s =
     (case find (\<lambda>x. tokId x = i \<and> tokScope x = Pos_operator) (tokens s) of None \<Rightarrow> None | Some x \<Rightarrow> tokDevice x)"

definition findActiveDeviceById :: "uuid \<Rightarrow> access_db \<Rightarrow> device option" where
  "findActiveDeviceById i s = find (\<lambda>d. devId d = i \<and> devRevoked d = None) (devices s)"

definition reverify :: "uuid \<Rightarrow> uuid \<Rightarrow> uuid \<Rightarrow> access_db \<Rightarrow> refusal option" where
  "reverify u d st s =
     (case findActiveDeviceById d s of
        None \<Rightarrow> Some Device_invalid
      | Some x \<Rightarrow> resolver_eligibility (devTenant x) st u s)"

text \<open>The gate of the sale routes (pos-operator-envelope-sale.guard.ts), and the one it replaced.\<close>

definition PosOperatorEnvelopeSaleGuard :: "access_db \<Rightarrow> principal \<Rightarrow> thrown + (principal \<times> resolved_context)" where
  "PosOperatorEnvelopeSaleGuard s p =
     (case p of
        By_token i t (Some u) (Some st) Pos_operator \<Rightarrow>
          (case recoverDeviceId i s of
             None \<Rightarrow> Inl unauthorized
           | Some d \<Rightarrow>
               (case reverify u d st s of
                  Some r \<Rightarrow> Inl unauthorized
                | None \<Rightarrow>
                    Inr (p, \<lparr>rcUser = Some u, rcTenant = t, rcStore = Some st, rcPlatformAdmin = False\<rparr>)))
      | _ \<Rightarrow> Inl unauthorized)"

definition sale_gate ::
    "pos_env \<Rightarrow> (string \<Rightarrow> uuid option) \<Rightarrow> instant \<Rightarrow> auth_request \<Rightarrow> access_db \<Rightarrow> thrown + (principal \<times> resolved_context)" where
  "sale_gate env uuid_in now req s = after_auth (PosOperatorEnvelopeSaleGuard s) (AuthGuard env uuid_in now req s)"

definition readAttestationHeader :: "auth_request \<Rightarrow> string option" where
  "readAttestationHeader req =
     (case arAttestation req of None \<Rightarrow> None | Some v \<Rightarrow> if js_trim v = [] then None else Some (js_trim v))"

definition PosOperatorSaleAuthGuard :: "pos_env \<Rightarrow> auth_request \<Rightarrow> access_db \<Rightarrow> thrown + (principal \<times> resolved_context)" where
  "PosOperatorSaleAuthGuard env req s =
     (case readBearerToken req of
        None \<Rightarrow> Inl unauthorized
      | Some jwt \<Rightarrow>
          (case readAttestationHeader req of
             None \<Rightarrow> Inl unauthorized
           | Some att \<Rightarrow>
               (case resolve env jwt att s of
                  Inl r \<Rightarrow> Inl unauthorized
                | Inr (c, d) \<Rightarrow> Inr (By_token d (rcTenant c) (rcUser c) (rcStore c) Pos_operator, c))))"

end
