(* ===== verification/AccessContext.thy ===== *)
theory AccessContext
  imports AccessGuards
begin

text \<open>
  The active tenant and store of a request and the role check (apps/api/src/context,
  apps/api/src/auth/roles.guard.ts), and the service that switches them. The lookups run inside
  \<open>runWithTenantContext\<close> as platform admin, so the policies hide no row from them.
\<close>

abbreviation "not_found \<equiv> Http_exception 404 None"
abbreviation "forbidden \<equiv> Http_exception 403 None"

section \<open>Membership repository\<close>

definition isPlatformAdmin :: "uuid \<Rightarrow> access_db \<Rightarrow> bool" where
  "isPlatformAdmin u s = (case find (\<lambda>x. usrId x = u \<and> usrDeleted x = None) (users s) of None \<Rightarrow> False | Some x \<Rightarrow> usrPlatformAdmin x)"

definition repo_findActiveMembership :: "uuid \<Rightarrow> uuid \<Rightarrow> access_db \<Rightarrow> membership option" where
  "repo_findActiveMembership u t s = find (\<lambda>m. memUser m = u \<and> memTenant m = t \<and> live_membership m) (memberships s)"

definition canAccessStore :: "uuid \<Rightarrow> uuid \<Rightarrow> uuid \<Rightarrow> access_kind \<Rightarrow> access_db \<Rightarrow> bool" where
  "canAccessStore m t st kind s \<longleftrightarrow>
     list_ex (\<lambda>b. stoId b = st \<and> stoTenant b = t \<and> stoDeleted b = None) (stores s) \<and>
     (kind = Access_all \<or> list_ex (\<lambda>g. graMembership g = m \<and> graStore g = st \<and> graTenant g = t) (grants s))"

definition findTenantSummary :: "uuid \<Rightarrow> access_db \<Rightarrow> tenant_row option" where
  "findTenantSummary t s = find (\<lambda>x. tenId x = t \<and> tenDeleted x = None) (tenants s)"

definition findStoreSummary :: "uuid \<Rightarrow> uuid \<Rightarrow> access_db \<Rightarrow> store_row option" where
  "findStoreSummary st t s = find (\<lambda>x. stoId x = st \<and> stoTenant x = t \<and> stoDeleted x = None) (stores s)"

definition findRoleCodeForUserInTenant :: "uuid \<Rightarrow> uuid \<Rightarrow> access_db \<Rightarrow> string option" where
  "findRoleCodeForUserInTenant u t s =
     map_option snd (first_row (with_role (filter (\<lambda>m. memUser m = u \<and> memTenant m = t \<and> live_membership m) (memberships s)) s))"

definition findUserSummary :: "uuid \<Rightarrow> access_db \<Rightarrow> user_row option" where
  "findUserSummary u s = find (\<lambda>x. usrId x = u \<and> usrDeleted x = None) (users s)"

record membership_summary =
  msTenant :: uuid
  msTenantName :: string
  msRole :: string
  msKind :: access_kind
  msStores :: "uuid list"

definition listForUser :: "uuid \<Rightarrow> access_db \<Rightarrow> membership_summary list" where
  "listForUser u s =
     concat (map (\<lambda>(m, code).
        map (\<lambda>t. \<lparr>msTenant = tenId t, msTenantName = tenName t, msRole = code, msKind = memKind m,
                  msStores = (if memKind m = Access_specific
                              then map graStore (filter (\<lambda>g. graMembership g = memId m \<and>
                                     list_ex (\<lambda>b. stoId b = graStore g \<and> stoDeleted b = None) (stores s)) (grants s))
                              else [])\<rparr>)
          (filter (\<lambda>t. tenId t = memTenant m \<and> tenDeleted t = None) (tenants s)))
      (with_role (filter (\<lambda>m. memUser m = u \<and> live_membership m) (memberships s)) s))"

section \<open>The tenant context guard (tenant-context.guard.ts)\<close>

definition resolveToken :: "uuid option \<Rightarrow> uuid option \<Rightarrow> uuid option \<Rightarrow> resolved_context" where
  "resolveToken t u st =
     (if t = None then \<lparr>rcUser = u, rcTenant = None, rcStore = None, rcPlatformAdmin = True\<rparr>
      else \<lparr>rcUser = u, rcTenant = t, rcStore = st, rcPlatformAdmin = False\<rparr>)"

text \<open>What a user may reach of a tenant: the tenant, and the store if one is named.\<close>

definition reach :: "uuid \<Rightarrow> uuid \<Rightarrow> uuid option \<Rightarrow> access_db \<Rightarrow> thrown + unit" where
  "reach u t st s =
     (if \<not> isPlatformAdmin u s then
        (case repo_findActiveMembership u t s of
           None \<Rightarrow> Inl not_found
         | Some m \<Rightarrow>
             (case st of
                None \<Rightarrow> Inr ()
              | Some b \<Rightarrow> if canAccessStore (memId m) t b (memKind m) s then Inr () else Inl not_found))
      else (case st of
              None \<Rightarrow> Inr ()
            | Some b \<Rightarrow> if canAccessStore NIL_TENANT_ID t b Access_all s then Inr () else Inl not_found))"

definition resolveSession :: "instant \<Rightarrow> uuid \<Rightarrow> uuid \<Rightarrow> access_db \<Rightarrow> thrown + resolved_context" where
  "resolveSession now i u s =
     (case session_findActiveById now i s of
        None \<Rightarrow> Inl unauthorized
      | Some x \<Rightarrow>
          (case sesTenant x of
             None \<Rightarrow> Inl unauthorized
           | Some t \<Rightarrow>
               (case reach u t (sesStore x) s of
                  Inl e \<Rightarrow> Inl e
                | Inr _ \<Rightarrow> Inr \<lparr>rcUser = Some u, rcTenant = Some t, rcStore = sesStore x, rcPlatformAdmin = isPlatformAdmin u s\<rparr>)))"

definition TenantContextGuard :: "instant \<Rightarrow> access_db \<Rightarrow> principal \<Rightarrow> thrown + resolved_context" where
  "TenantContextGuard now s p =
     (case p of
        By_token i t u st sc \<Rightarrow> Inr (resolveToken t u st)
      | By_session i u \<Rightarrow> resolveSession now i u s)"

section \<open>The role guard\<close>

datatype tenant_source = From_context | From_param string

record roles_metadata =
  rmAny :: "string list"
  rmTenantFrom :: tenant_source
  rmAdminOnly :: bool
  rmDenyAs :: nat

definition Roles_meta :: "string list \<Rightarrow> nat option \<Rightarrow> roles_metadata" where
  "Roles_meta codes deny =
     \<lparr>rmAny = codes, rmTenantFrom = From_context, rmAdminOnly = False, rmDenyAs = (case deny of None \<Rightarrow> 404 | Some d \<Rightarrow> d)\<rparr>"

definition RolesFromParam :: "string \<Rightarrow> string list \<Rightarrow> roles_metadata" where
  "RolesFromParam key codes = \<lparr>rmAny = codes, rmTenantFrom = From_param key, rmAdminOnly = False, rmDenyAs = 404\<rparr>"

definition PlatformAdminOnly :: roles_metadata where
  "PlatformAdminOnly = \<lparr>rmAny = [], rmTenantFrom = From_context, rmAdminOnly = True, rmDenyAs = 403\<rparr>"

definition principal_user :: "principal \<Rightarrow> uuid option" where
  "principal_user p = (case p of By_session i u \<Rightarrow> Some u | By_token i t u st sc \<Rightarrow> u)"

definition guard_isPlatformAdmin :: "principal \<Rightarrow> request_context \<Rightarrow> access_db \<Rightarrow> bool" where
  "guard_isPlatformAdmin p ctx s \<longleftrightarrow>
     (case ctx of None \<Rightarrow> False | Some c \<Rightarrow> rcPlatformAdmin c) \<or>
     (case p of By_session i u \<Rightarrow> False | By_token i t u st sc \<Rightarrow> t = None \<and> sc \<in> set BEARER_AUTH_SCOPES) \<or>
     (case principal_user p of None \<Rightarrow> False | Some u \<Rightarrow> isPlatformAdmin u s)"

text \<open>The parameters of a path arrive as parsed ids, by name.\<close>

definition resolveTenantId :: "roles_metadata \<Rightarrow> request_context \<Rightarrow> (string \<times> uuid) list \<Rightarrow> uuid option" where
  "resolveTenantId md ctx params =
     (case rmTenantFrom md of
        From_context \<Rightarrow> (case ctx of None \<Rightarrow> None | Some c \<Rightarrow> rcTenant c)
      | From_param k \<Rightarrow> if k = [] then None else map_of params k)"

definition denied :: "roles_metadata \<Rightarrow> thrown" where
  "denied md = (if rmDenyAs md = 403 then forbidden else not_found)"

definition RolesGuard ::
    "roles_metadata option \<Rightarrow> principal option \<Rightarrow> request_context \<Rightarrow> (string \<times> uuid) list \<Rightarrow> access_db \<Rightarrow> thrown + unit" where
  "RolesGuard metadata caller ctx params s =
     (case metadata of
        None \<Rightarrow> Inl forbidden
      | Some md \<Rightarrow>
          (case caller of
             None \<Rightarrow> Inl unauthorized
           | Some p \<Rightarrow>
               if rmAdminOnly md then (if guard_isPlatformAdmin p ctx s then Inr () else Inl forbidden)
               else if guard_isPlatformAdmin p ctx s then Inr ()
               else (case resolveTenantId md ctx params of
                       None \<Rightarrow> Inl forbidden
                     | Some t \<Rightarrow>
                         (case principal_user p of
                            None \<Rightarrow> Inl (denied md)
                          | Some u \<Rightarrow>
                              (case findRoleCodeForUserInTenant u t s of
                                 None \<Rightarrow> Inl (denied md)
                               | Some role \<Rightarrow> if role \<in> set (rmAny md) then Inr () else Inl (denied md))))))"

section \<open>Switching (context.service.ts)\<close>

record context_body =
  cxUser :: "user_row option"
  cxTenant :: "tenant_row option"
  cxStore :: "store_row option"
  cxRole :: "string option"
  cxMemberships :: "membership_summary list"

definition buildResponse :: "uuid \<Rightarrow> uuid option \<Rightarrow> uuid option \<Rightarrow> access_db \<Rightarrow> thrown + context_body" where
  "buildResponse u t st s =
     (case findUserSummary u s of
        None \<Rightarrow> Inl unauthorized
      | Some x \<Rightarrow>
          Inr \<lparr>cxUser = Some x,
               cxTenant = (case t of None \<Rightarrow> None | Some i \<Rightarrow> findTenantSummary i s),
               cxStore = (case (st, t) of (Some b, Some i) \<Rightarrow> findStoreSummary b i s | _ \<Rightarrow> None),
               cxRole = (case t of None \<Rightarrow> None | Some i \<Rightarrow> map_option msRole (find (\<lambda>m. msTenant m = i) (listForUser u s))),
               cxMemberships = listForUser u s\<rparr>)"

definition getActiveContext :: "instant \<Rightarrow> principal \<Rightarrow> access_db \<Rightarrow> thrown + context_body" where
  "getActiveContext now p s =
     (case p of
        By_session i u \<Rightarrow>
          (case session_findActiveById now i s of
             None \<Rightarrow> Inl unauthorized
           | Some x \<Rightarrow> buildResponse u (sesTenant x) (sesStore x) s)
      | By_token i t None st sc \<Rightarrow>
          Inr \<lparr>cxUser = None, cxTenant = (case t of None \<Rightarrow> None | Some k \<Rightarrow> findTenantSummary k s), cxStore = None,
               cxRole = None, cxMemberships = []\<rparr>
      | By_token i t (Some u) st sc \<Rightarrow> buildResponse u t None s)"

text \<open>The write of a switch and its answer; a revoked session is not switched.\<close>

definition switch_session ::
    "uuid \<Rightarrow> uuid \<Rightarrow> uuid option \<Rightarrow> uuid option \<Rightarrow> access_db \<Rightarrow> (thrown + context_body) \<times> access_db" where
  "switch_session i u t st s =
     (case updateActiveContext i t st s of
        (Inl e, s') \<Rightarrow> (Inl (Unhandled e), s')
      | (Inr None, s') \<Rightarrow> (Inl unauthorized, s')
      | (Inr (Some _), s') \<Rightarrow> (buildResponse u t st s', s'))"

definition switchTenant :: "principal \<Rightarrow> uuid \<Rightarrow> access_db \<Rightarrow> (thrown + context_body) \<times> access_db" where
  "switchTenant p t s =
     (case p of
        By_token i k u st sc \<Rightarrow> (Inl (Http_exception 400 None), s)
      | By_session i u \<Rightarrow>
          if \<not> isPlatformAdmin u s \<and> repo_findActiveMembership u t s = None then (Inl not_found, s)
          else if isPlatformAdmin u s \<and> findTenantSummary t s = None then (Inl not_found, s)
          else switch_session i u (Some t) None s)"

definition switchStore :: "instant \<Rightarrow> principal \<Rightarrow> uuid \<Rightarrow> access_db \<Rightarrow> (thrown + context_body) \<times> access_db" where
  "switchStore now p st s =
     (case p of
        By_token i k u b sc \<Rightarrow> (Inl (Http_exception 400 None), s)
      | By_session i u \<Rightarrow>
          (case session_findActiveById now i s of
             None \<Rightarrow> (Inl unauthorized, s)
           | Some x \<Rightarrow>
               (case sesTenant x of
                  None \<Rightarrow> (Inl (Http_exception 409 None), s)
                | Some t \<Rightarrow>
                    (case reach u t (Some st) s of
                       Inl e \<Rightarrow> (Inl e, s)
                     | Inr _ \<Rightarrow> switch_session i u (Some t) (Some st) s))))"

definition clearStore :: "instant \<Rightarrow> principal \<Rightarrow> access_db \<Rightarrow> (thrown + context_body) \<times> access_db" where
  "clearStore now p s =
     (case p of
        By_token i k u b sc \<Rightarrow> (Inl (Http_exception 400 None), s)
      | By_session i u \<Rightarrow>
          (case session_findActiveById now i s of
             None \<Rightarrow> (Inl unauthorized, s)
           | Some x \<Rightarrow> switch_session i u (sesTenant x) None s))"

end
