(* ===== verification/AccessMachine.thy ===== *)
theory AccessMachine
  imports AccessContext
begin

text \<open>
  What every interleaving of the operations leaves of the tables. A move is one committed statement of
  a request, or any change of the directory (users, roles, memberships, grants, new or revoked devices)
  that keeps its keys; a run is any sequence of moves, so the statements of several requests may come
  in any order between each other.
\<close>

section \<open>Well-formed tables\<close>

text \<open>The keys of the directory: ids, and one membership of a user in a tenant that is not deleted.\<close>

definition member_of :: "membership \<Rightarrow> uuid \<times> uuid" where
  "member_of m = (memTenant m, memUser m)"

definition directory_ok :: "access_db \<Rightarrow> bool" where
  "directory_ok s \<longleftrightarrow> distinct (map usrId (users s)) \<and> distinct (map rolId (roles s)) \<and>
     distinct (map memId (memberships s)) \<and> distinct (map member_of (filter (\<lambda>m. memDeleted m = None) (memberships s))) \<and>
     distinct (map devId (devices s)) \<and> distinct (map devHash (devices s)) \<and> distinct (map sesId (dashSessions s))"

text \<open>An operator's token carries the scope of its device.\<close>

definition token_bound :: "device list \<Rightarrow> auth_token \<Rightarrow> bool" where
  "token_bound ds x \<longleftrightarrow> principal_by_scope x \<and>
     (tokScope x = Pos_operator \<longrightarrow>
        (\<exists>d \<in> set ds. tokDevice x = Some (devId d) \<and> tokTenant x = Some (devTenant d) \<and> tokStore x = Some (devStore d)))"

definition key_scope :: "takeover_key \<Rightarrow> uuid \<times> uuid \<times> string \<times> uuid" where
  "key_scope k = (tkyTenant k, tkyStore k, tkyClient k, tkyKey k)"

definition in_store :: "uuid \<Rightarrow> uuid \<Rightarrow> uuid \<Rightarrow> auth_token \<Rightarrow> bool" where
  "in_store t st i x \<longleftrightarrow> tokId x = i \<and> tokScope x = Pos_operator \<and> tokTenant x = Some t \<and> tokStore x = Some st"

definition key_bound :: "auth_token list \<Rightarrow> takeover_key \<Rightarrow> bool" where
  "key_bound xs k \<longleftrightarrow> (case tkySession k of None \<Rightarrow> True | Some i \<Rightarrow> \<exists>x \<in> set xs. in_store (tkyTenant k) (tkyStore k) i x)"

lemma key_bound_iff:
  "key_bound xs k \<longleftrightarrow> (\<forall>i. tkySession k = Some i \<longrightarrow> (\<exists>x \<in> set xs. in_store (tkyTenant k) (tkyStore k) i x))"
  by (simp add: key_bound_def split: option.split)

definition access_ok :: "access_db \<Rightarrow> bool" where
  "access_ok s \<longleftrightarrow> directory_ok s \<and> distinct (map tokId (tokens s)) \<and> distinct (map tokHash (tokens s)) \<and>
     (\<forall>x \<in> set (tokens s). token_bound (devices s) x) \<and>
     distinct (map key_scope (takeoverKeys s)) \<and> (\<forall>k \<in> set (takeoverKeys s). key_bound (tokens s) k)"

section \<open>Moves\<close>

definition device_facts :: "device \<Rightarrow> uuid \<times> uuid \<times> uuid \<times> string" where
  "device_facts d = (devId d, devTenant d, devStore d, devHash d)"

definition token_facts :: "auth_token \<Rightarrow> auth_token" where
  "token_facts x = x\<lparr>tokRevoked := None\<rparr>"

text \<open>The life of a token: it is revoked once.\<close>

definition token_life :: "auth_token \<Rightarrow> auth_token \<Rightarrow> bool" where
  "token_life x y \<longleftrightarrow> y = x \<or> tokRevoked x = None \<and> token_facts y = token_facts x"

definition device_kept :: "device list \<Rightarrow> device list \<Rightarrow> bool" where
  "device_kept ds ds' \<longleftrightarrow> table_extends (\<lambda>d e. device_facts e = device_facts d) (\<lambda>_. True) ds ds'"

inductive access_move :: "pos_env \<Rightarrow> access_db \<Rightarrow> access_db \<Rightarrow> bool" for env where
  am_issue: "insert_token (operator_token env i raw now d u) s = Inr s' \<Longrightarrow> d0 \<in> set (devices s) \<Longrightarrow>
     device_facts d0 = device_facts d \<Longrightarrow> access_move env s s'"
| am_other: "insert_token x s = Inr s' \<Longrightarrow> tokScope x \<noteq> Pos_operator \<Longrightarrow> access_move env s s'"
| am_revoke: "(\<And>x. p x \<Longrightarrow> tokRevoked x = None) \<Longrightarrow>
     access_move env s (s\<lparr>tokens := update_where p (tokRevoked_update (\<lambda>_. Some now)) (tokens s)\<rparr>)"
| am_key: "insert_key (tenant_ctx t) (new_key env e operator t st now) s = Inr (b, s') \<Longrightarrow> access_move env s s'"
| am_bind: "x \<in> set (tokens s) \<Longrightarrow> in_store t st i x \<Longrightarrow>
     access_move env s (s\<lparr>takeoverKeys := update_where (key_at t st e) (tkySession_update (\<lambda>_. Some i)) (takeoverKeys s)\<rparr>)"
| am_audit: "access_move env s (insert_takeover_audit a s)"
| am_directory: "tokens s' = tokens s \<Longrightarrow> takeoverKeys s' = takeoverKeys s \<Longrightarrow> device_kept (devices s) (devices s') \<Longrightarrow>
     directory_ok s' \<Longrightarrow> access_move env s s'"

inductive_cases access_moveE: "access_move env s s'"

abbreviation access_run :: "pos_env \<Rightarrow> access_db \<Rightarrow> access_db \<Rightarrow> bool" where
  "access_run env \<equiv> (access_move env)\<^sup>*\<^sup>*"

section \<open>Statements\<close>

lemma insert_token_Inr:
  "insert_token x s = Inr s' \<longleftrightarrow> token_checks x s = None \<and> s' = s\<lparr>tokens := tokens s @ [x]\<rparr>"
  by (auto simp: insert_token_def split: option.splits)

lemma token_checks_None:
  "token_checks x s = None \<Longrightarrow> principal_by_scope x \<and> (\<forall>y \<in> set (tokens s). tokId y \<noteq> tokId x \<and> tokHash y \<noteq> tokHash x)"
  by (simp add: token_checks_def list_ex_iff)

lemma key_taken:
  "list_ex (\<lambda>k. tkyTenant k = tkyTenant x \<and> tkyStore k = tkyStore x \<and> tkyClient k = tkyClient x \<and> tkyKey k = tkyKey x) ks \<longleftrightarrow>
   key_scope x \<in> key_scope ` set ks"
  by (induction ks) (auto simp: key_scope_def)

lemma insert_key_Inr:
  "insert_key c x s = Inr (b, s') \<Longrightarrow>
   s' = s \<and> \<not> b \<and> key_scope x \<in> key_scope ` set (takeoverKeys s) \<or>
   s' = s\<lparr>takeoverKeys := takeoverKeys s @ [x]\<rparr> \<and> b \<and> key_scope x \<notin> key_scope ` set (takeoverKeys s)"
  unfolding insert_key_def key_taken by (auto split: option.splits if_splits)

lemma operator_token_simps [simp]:
  "tokId (operator_token env i raw now d u) = i" "tokHash (operator_token env i raw now d u) = sha256 env raw"
  "tokTenant (operator_token env i raw now d u) = Some (devTenant d)" "tokUser (operator_token env i raw now d u) = Some u"
  "tokDevice (operator_token env i raw now d u) = Some (devId d)" "tokStore (operator_token env i raw now d u) = Some (devStore d)"
  "tokScope (operator_token env i raw now d u) = Pos_operator" "tokIssued (operator_token env i raw now d u) = now"
  "tokExpires (operator_token env i raw now d u) = now + OPERATOR_SESSION_TTL_MS"
  "tokRevoked (operator_token env i raw now d u) = None"
  by (simp_all add: operator_token_def)

lemma token_facts_simps:
  assumes "token_facts y = token_facts x"
  shows "tokId y = tokId x" "tokHash y = tokHash x" "tokTenant y = tokTenant x" "tokUser y = tokUser x" "tokDevice y = tokDevice x"
    "tokStore y = tokStore x" "tokScope y = tokScope x" "tokExpires y = tokExpires x" "tokIssued y = tokIssued x"
  using assms by (cases x; cases y; simp add: token_facts_def)+

lemma token_life_facts: "token_life x y \<Longrightarrow> token_facts y = token_facts x"
  by (auto simp: token_life_def)

lemma token_life_refl [simp]: "token_life x x"
  by (simp add: token_life_def)

lemma token_life_trans: "token_life x y \<Longrightarrow> token_life y z \<Longrightarrow> token_life x z"
  by (auto simp: token_life_def)

lemma token_life_revoked: "token_life x y \<Longrightarrow> tokRevoked x = Some r \<Longrightarrow> y = x"
  by (simp add: token_life_def)

lemma facts_revoked [simp]: "token_facts (x\<lparr>tokRevoked := v\<rparr>) = token_facts x"
  by (simp add: token_facts_def)

section \<open>Every move keeps the tables well-formed\<close>

lemma device_facts_simps:
  assumes "device_facts e = device_facts d"
  shows "devId e = devId d" "devTenant e = devTenant d" "devStore e = devStore d" "devHash e = devHash d"
  using assms by (simp_all add: device_facts_def)

lemma token_bound_cong: "token_facts y = token_facts x \<Longrightarrow> token_bound ds y = token_bound ds x"
  using token_facts_simps [of y x] by (simp add: token_bound_def principal_by_scope_def)

lemma token_bound_kept:
  assumes "token_bound ds x" and "device_kept ds ds'"
  shows "token_bound ds' x"
proof -
  have "\<exists>e \<in> set ds'. tokDevice x = Some (devId e) \<and> tokTenant x = Some (devTenant e) \<and> tokStore x = Some (devStore e)"
    if d: "d \<in> set ds" "tokDevice x = Some (devId d)" "tokTenant x = Some (devTenant d)" "tokStore x = Some (devStore d)" for d
  proof -
    from assms(2) d(1) obtain e where "e \<in> set ds'" "device_facts e = device_facts d"
      unfolding device_kept_def by (rule table_extends_rowD)
    with d show ?thesis using device_facts_simps [of e d] by (intro bexI [of _ e]) simp_all
  qed
  with assms(1) show ?thesis unfolding token_bound_def by blast
qed

lemma in_store_cong: "token_facts y = token_facts x \<Longrightarrow> in_store t st i y = in_store t st i x"
  using token_facts_simps [of y x] by (simp add: in_store_def)

lemma key_bound_kept:
  assumes "key_bound xs k" and "table_extends token_life (\<lambda>_. True) xs ys"
  shows "key_bound ys k"
  unfolding key_bound_iff
proof (intro allI impI)
  fix i assume "tkySession k = Some i"
  with assms(1) obtain x where x: "x \<in> set xs" "in_store (tkyTenant k) (tkyStore k) i x" by (auto simp: key_bound_iff)
  from assms(2) x(1) obtain y where y: "y \<in> set ys" "token_life x y" by (rule table_extends_rowD)
  have "in_store (tkyTenant k) (tkyStore k) i y" using in_store_cong [OF token_life_facts [OF y(2)]] x(2) by blast
  with y(1) show "\<exists>x \<in> set ys. in_store (tkyTenant k) (tkyStore k) i x" by blast
qed

lemma move_tokens:
  assumes "access_move env s s'"
  shows "table_extends token_life (\<lambda>_. True) (tokens s) (tokens s')"
  using assms
proof (cases rule: access_move.cases)
  case (am_revoke p now)
  have "table_extends token_life (\<lambda>_. True) (tokens s) (update_where p (tokRevoked_update (\<lambda>_. Some now)) (tokens s))"
    by (rule table_extends_update_where) (simp_all add: token_life_def am_revoke(2))
  with am_revoke(1) show ?thesis by simp
next
  case (am_key t e operator st now b)
  then show ?thesis by (auto dest: insert_key_Inr simp: table_extends_refl)
qed (auto simp: insert_token_Inr insert_takeover_audit_def table_extends_snoc table_extends_refl)

lemma access_ok_directory: "access_ok s \<Longrightarrow> directory_ok s"
  by (simp add: access_ok_def)

lemma ok_append_token:
  assumes "access_ok s" and "token_checks x s = None" and "token_bound (devices s) x"
  shows "access_ok (s\<lparr>tokens := tokens s @ [x]\<rparr>)"
  using assms token_checks_None [OF assms(2)] key_bound_kept [of "tokens s" _ "tokens s @ [x]"]
  by (auto simp: access_ok_def directory_ok_def table_extends_snoc)

lemma ok_revoke:
  assumes "access_ok s" and "\<And>x. p x \<Longrightarrow> tokRevoked x = None"
  shows "access_ok (s\<lparr>tokens := update_where p (tokRevoked_update (\<lambda>_. Some now)) (tokens s)\<rparr>)"
proof -
  let ?ts = "update_where p (tokRevoked_update (\<lambda>_. Some now)) (tokens s)"
  have "table_extends token_life (\<lambda>_. True) (tokens s) ?ts"
    by (rule table_extends_update_where) (simp_all add: token_life_def assms(2))
  moreover have "\<forall>x \<in> set ?ts. token_bound (devices s) x"
    using assms(1) by (auto simp: set_update_where access_ok_def token_bound_cong [OF facts_revoked])
  ultimately show ?thesis using assms(1) key_bound_kept [of "tokens s" _ ?ts]
    by (auto simp: access_ok_def directory_ok_def map_update_where)
qed

lemma ok_append_key:
  assumes "access_ok s" and "key_scope x \<notin> key_scope ` set (takeoverKeys s)" and "tkySession x = None"
  shows "access_ok (s\<lparr>takeoverKeys := takeoverKeys s @ [x]\<rparr>)"
  using assms by (auto simp: access_ok_def directory_ok_def key_bound_iff)

lemma ok_bind:
  assumes "access_ok s" and "x \<in> set (tokens s)" and "in_store t st i x"
  shows "access_ok (s\<lparr>takeoverKeys := update_where (key_at t st e) (tkySession_update (\<lambda>_. Some i)) (takeoverKeys s)\<rparr>)"
  using assms by (auto simp: access_ok_def directory_ok_def map_update_where key_scope_def set_update_where key_bound_iff key_at_def)

lemma move_ok:
  assumes "access_move env s s'" and "access_ok s"
  shows "access_ok s'"
  using assms
proof (cases rule: access_move.cases)
  case (am_issue i raw now d u d0)
  have "token_bound (devices s) (operator_token env i raw now d u)"
    using am_issue(2,3) device_facts_simps [of d0 d] by (auto simp: token_bound_def principal_by_scope_def intro!: bexI [of _ d0])
  with am_issue(1) assms(2) show ?thesis by (auto simp: insert_token_Inr ok_append_token)
next
  case (am_other x)
  have "token_bound (devices s) x" using am_other token_checks_None [of x s] by (auto simp: insert_token_Inr token_bound_def)
  with am_other(1) assms(2) show ?thesis by (auto simp: insert_token_Inr ok_append_token)
next
  case (am_key t e operator st now b)
  then show ?thesis using assms(2) by (auto dest!: insert_key_Inr intro!: ok_append_key simp: new_key_def)
next
  case (am_directory)
  then show ?thesis using assms(2) by (auto simp: access_ok_def intro: token_bound_kept)
next
  case (am_audit a)
  then show ?thesis using assms(2) by (auto simp: insert_takeover_audit_def access_ok_def directory_ok_def)
qed (auto intro: ok_revoke ok_bind)

lemma run_ok: "access_run env s s' \<Longrightarrow> access_ok s \<Longrightarrow> access_ok s'"
  by (induction rule: rtranclp_induct) (auto intro: move_ok)

lemma run_tokens: "access_run env s s' \<Longrightarrow> table_extends token_life (\<lambda>_. True) (tokens s) (tokens s')"
proof (induction rule: rtranclp_induct)
  case base
  show ?case by (simp add: table_extends_refl)
next
  case (step s1 s2)
  then show ?case using table_extends_trans [of token_life "\<lambda>_. True" "tokens s" "tokens s1" "tokens s2"] move_tokens [OF step(2)] token_life_trans by blast
qed

end
