(* ===== verification/AccessLife.thy ===== *)
theory AccessLife
  imports AccessMachine
begin

text \<open>
  The operations as moves, and what the checks of the guards mean: which rows a lookup that succeeds
  has found, and that the live re-verification of an operator and the eligibility at sign-in are one
  condition on the directory.
\<close>

section \<open>Lookups by a key\<close>

lemma find_by_key:
  assumes "distinct (map k xs)"
  shows "find (\<lambda>x. k x = i \<and> q x) xs = Some x \<longleftrightarrow> x \<in> set xs \<and> k x = i \<and> q x"
proof
  assume "find (\<lambda>x. k x = i \<and> q x) xs = Some x"
  then show "x \<in> set xs \<and> k x = i \<and> q x" by (auto dest: find_SomeD)
next
  assume x: "x \<in> set xs \<and> k x = i \<and> q x"
  with assms have "find (\<lambda>x. k x = i) xs = Some x" by (auto intro: distinct_find)
  with x show "find (\<lambda>x. k x = i \<and> q x) xs = Some x" by (auto intro: find_stronger)
qed

lemma first_row_sort:
  assumes "first_row (sort_key f xs) = Some x"
  shows "x \<in> set xs \<and> (\<forall>y \<in> set xs. f x \<le> f y)"
proof -
  from assms obtain ys where ys: "sort_key f xs = x # ys" by (cases "sort_key f xs") auto
  have "sorted (map f (sort_key f xs))" by simp
  with ys have "\<forall>y \<in> set (x # ys). f x \<le> f y" by (simp add: less_imp_le)
  moreover have "set (x # ys) = set xs" using ys by (metis set_sort)
  ultimately show ?thesis by auto
qed

lemma ok_keys:
  assumes "access_ok s"
  shows "distinct (map tokId (tokens s))" "distinct (map tokHash (tokens s))" "distinct (map devId (devices s))"
    "distinct (map devHash (devices s))" "distinct (map usrId (users s))" "distinct (map rolId (roles s))"
    "distinct (map sesId (dashSessions s))"
  using assms by (simp_all add: access_ok_def directory_ok_def)

text \<open>The interface of a table with a unique key: a lookup by the key finds the one row that has it.\<close>

locale keyed_table =
  fixes ok :: "'db \<Rightarrow> bool" and rows :: "'db \<Rightarrow> 'r list" and key :: "'r \<Rightarrow> 'k"
  assumes keys_distinct: "ok s \<Longrightarrow> distinct (map key (rows s))"
begin

lemma key_lookup: "ok s \<Longrightarrow> find (\<lambda>x. key x = i \<and> q x) (rows s) = Some x \<longleftrightarrow> x \<in> set (rows s) \<and> key x = i \<and> q x"
  by (rule find_by_key) (rule keys_distinct)

lemma lookup_key: "ok s \<Longrightarrow> x \<in> set (rows s) \<Longrightarrow> key x = i \<Longrightarrow> find (\<lambda>x. key x = i) (rows s) = Some x"
  by (rule distinct_find) (rule keys_distinct)

lemma lookup_fails: "ok s \<Longrightarrow> x \<in> set (rows s) \<Longrightarrow> key x = i \<Longrightarrow> \<not> q x \<Longrightarrow> find (\<lambda>x. key x = i \<and> q x) (rows s) = None"
  using distinct_key_unique [OF keys_distinct, of s _ x] key_lookup [of s i q] by (metis not_Some_eq)

lemma one_row: "ok s \<Longrightarrow> x \<in> set (rows s) \<Longrightarrow> y \<in> set (rows s) \<Longrightarrow> key y = key x \<Longrightarrow> y = x"
  using distinct_key_unique [OF keys_distinct, of s y x] by blast

end

interpretation token_ids: keyed_table access_ok tokens tokId
  by unfold_locales (rule ok_keys)

interpretation token_hashes: keyed_table access_ok tokens tokHash
  by unfold_locales (rule ok_keys)

interpretation device_ids: keyed_table access_ok devices devId
  by unfold_locales (rule ok_keys)

interpretation device_hashes: keyed_table access_ok devices devHash
  by unfold_locales (rule ok_keys)

interpretation session_ids: keyed_table access_ok dashSessions sesId
  by unfold_locales (rule ok_keys)

interpretation takeover_scopes: keyed_table access_ok takeoverKeys key_scope
  by unfold_locales (simp add: access_ok_def)

lemma ok_bound: "access_ok s \<Longrightarrow> x \<in> set (tokens s) \<Longrightarrow> token_bound (devices s) x"
  by (simp add: access_ok_def)

section \<open>Who may operate a terminal\<close>

definition may_operate :: "access_db \<Rightarrow> uuid \<Rightarrow> uuid \<Rightarrow> uuid \<Rightarrow> membership \<Rightarrow> string \<Rightarrow> bool" where
  "may_operate s t st u m code \<longleftrightarrow>
     (m, code) \<in> set (with_role (memberships s) s) \<and> memTenant m = t \<and> memUser m = u \<and> live_membership m \<and>
     code \<in> set ELIGIBLE_INTERNAL_ROLES \<and> (memKind m = Access_specific \<longrightarrow> storeIsInAccessSet (memId m) st s)"

abbreviation "eligible s t st u \<equiv> \<exists>m code. may_operate s t st u m code"

lemma with_role_filter:
  "(m, c) \<in> set (with_role (filter p ms) s) \<longleftrightarrow> (m, c) \<in> set (with_role ms s) \<and> p m"
  by (auto simp: with_role_mem)

lemma one_row_per_member:
  assumes "directory_ok s" and "(m, c) \<in> set (with_role (memberships s) s)" and "(m', c') \<in> set (with_role (memberships s) s)"
    and "member_of m' = member_of m" and "memDeleted m = None" and "memDeleted m' = None"
  shows "m' = m \<and> c' = c"
proof -
  have m: "m \<in> set (memberships s)" "m' \<in> set (memberships s)" using assms(2,3) by (simp_all add: with_role_mem)
  have "m' = m"
    using assms(1,4-6) m distinct_key_unique [of member_of "filter (\<lambda>m. memDeleted m = None) (memberships s)" m' m]
    by (simp add: directory_ok_def)
  moreover from assms(2) obtain r where r: "r \<in> set (roles s)" "rolId r = memRole m" "rolCode r = c"
    by (auto simp: with_role_mem)
  moreover from assms(3) obtain r' where "r' \<in> set (roles s)" "rolId r' = memRole m'" "rolCode r' = c'"
    by (auto simp: with_role_mem)
  ultimately show ?thesis using assms(1) distinct_key_unique [of rolId "roles s" r' r] by (auto simp: directory_ok_def)
qed

lemma membership_row:
  assumes "directory_ok s" and "(m, c) \<in> set (with_role (memberships s) s)" and "memUser m = u" and "memTenant m = t" and "live_membership m"
  shows "repo_findActiveMembership u t s = Some m" "findRoleCodeForUserInTenant u t s = Some c"
proof -
  have m: "m \<in> set (memberships s)" using assms(2) by (simp add: with_role_mem)
  have only: "m' = m" if "m' \<in> set (memberships s)" "memUser m' = u" "memTenant m' = t" "live_membership m'" for m'
    using assms(1,3-5) m that distinct_key_unique [of member_of "filter (\<lambda>m. memDeleted m = None) (memberships s)" m' m]
    by (simp add: directory_ok_def live_membership_def member_of_def)
  obtain m' where "repo_findActiveMembership u t s = Some m'"
    using m assms(3-5) by (cases "repo_findActiveMembership u t s") (auto simp: repo_findActiveMembership_def dest: find_NoneD)
  then show "repo_findActiveMembership u t s = Some m"
    using only by (auto simp: repo_findActiveMembership_def dest: find_SomeD)
  let ?rows = "with_role (filter (\<lambda>m. memUser m = u \<and> memTenant m = t \<and> live_membership m) (memberships s)) s"
  have "(m, c) \<in> set ?rows" using assms(2-5) by (simp add: with_role_filter)
  then have "?rows \<noteq> []" by auto
  then obtain w where w: "first_row ?rows = Some w" by (cases ?rows) simp_all
  obtain m2 c2 where "w = (m2, c2)" by (cases w)
  with w have "(m2, c2) \<in> set (with_role (memberships s) s)" "memUser m2 = u" "memTenant m2 = t" "live_membership m2"
    by (auto dest!: first_row_SomeD simp: with_role_filter)
  with one_row_per_member [OF assms(1,2), of m2 c2] assms(3-5) have "c2 = c"
    by (auto simp: member_of_def live_membership_def)
  with w \<open>w = (m2, c2)\<close> show "findRoleCodeForUserInTenant u t s = Some c" by (simp add: findRoleCodeForUserInTenant_def)
qed

lemma eligibility_at_sign_in:
  assumes "operator_eligibility t st u s = Inr r"
  obtains m code where "may_operate s t st u m code" "mapInternalRoleToPos code = Some r"
proof -
  from assms obtain m code where found: "findActiveMembership t u s = Some (m, code)"
    by (auto simp: operator_eligibility_def split: option.splits)
  with assms have "live_membership m" "code \<in> set ELIGIBLE_INTERNAL_ROLES" "mapInternalRoleToPos code = Some r"
    "memKind m = Access_specific \<longrightarrow> storeIsInAccessSet (memId m) st s"
    by (auto simp: operator_eligibility_def live_membership_def split: option.splits if_splits)
  moreover from found have "(m, code) \<in> set (with_role (memberships s) s) \<and> memTenant m = t \<and> memUser m = u"
    unfolding findActiveMembership_def by (auto dest!: first_row_SomeD simp: with_role_filter)
  ultimately show thesis using that [of m code] by (simp add: may_operate_def)
qed

lemma eligibility_refused: "operator_eligibility t st u s = Inl r \<Longrightarrow> r \<in> {Membership_missing, Membership_revoked, Role_ineligible, Store_not_in_access_set}"
  by (auto simp: operator_eligibility_def split: option.splits if_splits prod.splits)

lemma least_options: "(a :: instant option, b :: instant option) \<le> (None, None) \<Longrightarrow> a = None \<and> b = None"
  by (cases a; cases b) simp_all

text \<open>The re-verification succeeds for exactly the users who may operate.\<close>

lemma eligibility_live:
  assumes "directory_ok s"
  shows "resolver_eligibility t st u s = None \<longleftrightarrow> eligible s t st u"
proof
  assume none: "resolver_eligibility t st u s = None"
  then obtain m code where found: "resolver_findActiveMembership t u s = Some (m, code)"
    by (auto simp: resolver_eligibility_def split: option.splits)
  with none have "live_membership m" "code \<in> set ELIGIBLE_INTERNAL_ROLES"
    "memKind m = Access_specific \<longrightarrow> storeIsInAccessSet (memId m) st s"
    by (auto simp: resolver_eligibility_def live_membership_def split: if_splits)
  moreover from found have "(m, code) \<in> set (with_role (memberships s) s) \<and> memTenant m = t \<and> memUser m = u"
    unfolding resolver_findActiveMembership_def by (auto dest!: first_row_SomeD simp: with_role_filter)
  ultimately show "eligible s t st u" by (auto simp: may_operate_def)
next
  assume "eligible s t st u"
  then obtain m code where m: "may_operate s t st u m code" by blast
  let ?rows = "with_role (filter (\<lambda>m. memTenant m = t \<and> memUser m = u) (memberships s)) s"
  let ?key = "\<lambda>(m, c :: string). (memRevoked m, memDeleted m)"
  from m have mem: "(m, code) \<in> set ?rows" by (simp add: may_operate_def with_role_filter)
  then have "set (sort_key ?key ?rows) \<noteq> {}" by auto
  then obtain w where "first_row (sort_key ?key ?rows) = Some w" by (cases "sort_key ?key ?rows") simp_all
  moreover obtain m' code' where "w = (m', code')" by (cases w)
  ultimately have first: "first_row (sort_key ?key ?rows) = Some (m', code')" by simp
  from first_row_sort [OF first] have row: "(m', code') \<in> set ?rows" and least: "?key (m', code') \<le> ?key (m, code)"
    using mem by blast+
  have "memRevoked m = None" "memDeleted m = None" using m by (simp_all add: may_operate_def live_membership_def)
  with least have gone: "memRevoked m' = None" "memDeleted m' = None" using least_options [of "memRevoked m'" "memDeleted m'"] by simp_all
  have "(m', code') \<in> set (with_role (memberships s) s)" "member_of m' = member_of m" "(m, code) \<in> set (with_role (memberships s) s)"
    using row m by (simp_all add: with_role_filter member_of_def may_operate_def)
  with one_row_per_member [OF assms, of m code m' code'] gone \<open>memDeleted m = None\<close> have "m' = m" "code' = code" by blast+
  with first m show "resolver_eligibility t st u s = None"
    by (auto simp: resolver_eligibility_def resolver_findActiveMembership_def may_operate_def live_membership_def)
qed

lemma signed_in_is_eligible: "operator_eligibility t st u s = Inr r \<Longrightarrow> eligible s t st u"
  by (erule eligibility_at_sign_in) blast

section \<open>Checks that pass\<close>

lemma device_operatorD:
  assumes "device_operator env u att s = Inr (v, d, r)"
  shows "v = u \<and> d \<in> set (devices s) \<and> devHash d = sha256 env att \<and> devRevoked d = None \<and> att \<noteq> [] \<and>
     operator_eligibility (devTenant d) (devStore d) (usrId u) s = Inr r"
  using assms
  by (auto simp: device_operator_def findActiveByAttestation_def split: option.splits sum.splits if_splits dest: find_SomeD)

lemma resolve_userD: "resolve_user env sub s = Inr u \<Longrightarrow> u \<in> set (users s) \<and> usrClerk u = Some sub \<and> usrDeleted u = None"
  by (auto simp: resolve_user_def findUserByClerkSubject_def split: option.splits if_splits dest: find_SomeD)

lemma sign_in_checksD:
  assumes "sign_in_checks env jwt att s = Inr (u, d, r)"
  obtains sub where "verify env jwt = Some sub" "u \<in> set (users s)" "usrClerk u = Some sub" "usrDeleted u = None"
    "device_operator env u att s = Inr (u, d, r)"
proof -
  from assms obtain sub v where a: "verify env jwt = Some sub" "resolve_user env sub s = Inr v"
    "device_operator env v att s = Inr (u, d, r)"
    by (auto simp: sign_in_checks_def split: option.splits sum.splits)
  with device_operatorD [OF a(3)] have "v = u" by simp
  with a resolve_userD [OF a(2)] show thesis by (intro that [of sub]) simp_all
qed

lemma takeover_checks_sign_in:
  "takeover_checks env jwt operator att s = Inr w \<longleftrightarrow> verify env jwt = Some operator \<and> sign_in_checks env jwt att s = Inr w"
  by (auto simp: takeover_checks_def sign_in_checks_def split: option.splits if_splits)

lemma active_by_raw:
  "access_ok s \<Longrightarrow> findActiveByRawToken (sha256 env) now raw s = Some x \<longleftrightarrow>
     x \<in> set (tokens s) \<and> tokHash x = sha256 env raw \<and> active_token now x"
  by (simp add: findActiveByRawToken_def token_hashes.key_lookup)

lemma active_device_by_id:
  "access_ok s \<Longrightarrow> findActiveDeviceById i s = Some d \<longleftrightarrow> d \<in> set (devices s) \<and> devId d = i \<and> devRevoked d = None"
  by (simp add: findActiveDeviceById_def device_ids.key_lookup)

lemma recovered_device:
  assumes "access_ok s" and "x \<in> set (tokens s)" and "tokScope x = Pos_operator"
  shows "recoverDeviceId (tokId x) s = tokDevice x"
  using assms token_ids.key_lookup [OF assms(1), of "tokId x" "\<lambda>y. tokScope y = Pos_operator" x]
  by (simp add: recoverDeviceId_def)

section \<open>Operations are moves\<close>

lemma issue_moves:
  assumes "issue_session env i raw now (u, d, r) s = (a, s')" and "d \<in> set (devices s)"
  shows "access_run env s s'"
proof -
  from assms(1) have "s' = s \<or> insert_token (operator_token env i raw now d (usrId u)) s = Inr s'"
    by (auto simp: issue_session_def issueOperatorSessionRow_def split: sum.splits prod.splits)
  then show ?thesis using am_issue [OF _ assms(2) refl] by auto
qed

lemma signIn_moves:
  assumes "signIn env jwt att i raw now s = (a, s')"
  shows "access_run env s s'"
proof (cases "sign_in_checks env jwt att s")
  case (Inr w)
  obtain u d r where w: "w = (u, d, r)" by (cases w)
  with Inr have "d \<in> set (devices s)" by (auto elim!: sign_in_checksD dest: device_operatorD)
  with assms Inr w show ?thesis by (auto simp: signIn_def dest: issue_moves split: if_splits)
qed (use assms in \<open>simp add: signIn_def\<close>)

lemma signOut_moves:
  assumes "signOut env jwt i now s = (a, s')"
  shows "access_run env s s'"
proof -
  have "s' = s \<or> (\<exists>u. s' = snd (markSessionRevoked now i u s))"
    using assms by (auto simp: signOut_def Let_def split: option.splits sum.splits if_splits prod.splits bool.splits) (metis snd_conv)+
  moreover have "access_run env s (snd (markSessionRevoked now i u s))" for u
    by (auto simp: markSessionRevoked_def Let_def intro!: r_into_rtranclp am_revoke)
  ultimately show ?thesis by auto
qed

lemma upsert_cases:
  assumes "upsertTakeoverIdempotencyKey env e operator t st now s = (r, s')"
  obtains (failed) x where "r = Inl x" "s' = s"
  | (fresh) "insert_key (tenant_ctx t) (new_key env e operator t st now) s = Inr (True, s')" "r = Inr Key_fresh"
  | (seen) "insert_key (tenant_ctx t) (new_key env e operator t st now) s = Inr (False, s)" "s' = s"
      "r = Inr (key_verdict env operator (find_key (tenant_ctx t) t st e s))"
proof (cases "insert_key (tenant_ctx t) (new_key env e operator t st now) s")
  case (Inl x)
  with assms have "r = Inl x" "s' = s"
    by (simp_all add: upsertTakeoverIdempotencyKey_def runWithTenantContext_def as_work_def act_bind_def act_query_def)
  then show thesis by (rule failed)
next
  case (Inr w)
  obtain b z where w: "w = (b, z)" by (cases w)
  show thesis
  proof (cases b)
    case True
    with assms Inr w have "r = Inr Key_fresh" "s' = z"
      by (simp_all add: upsertTakeoverIdempotencyKey_def runWithTenantContext_def as_work_def act_bind_def act_query_def act_return_def)
    with Inr w True show thesis by (intro fresh) simp_all
  next
    case False
    with Inr w insert_key_Inr [of "tenant_ctx t" "new_key env e operator t st now" s b z]
    have ins: "insert_key (tenant_ctx t) (new_key env e operator t st now) s = Inr (False, s)" by simp
    with assms have "s' = s \<and> r = Inr (key_verdict env operator (find_key (tenant_ctx t) t st e s))"
      by (simp add: upsertTakeoverIdempotencyKey_def runWithTenantContext_def as_work_def act_bind_def act_query_def
          act_select_def act_return_def) blast
    with ins show thesis by (auto intro: seen)
  qed
qed

lemma bind_key:
  "updateIdempotencyKeyWithSession e t st i s =
     (Inr (), s\<lparr>takeoverKeys := update_where (key_at t st e) (tkySession_update (\<lambda>_. Some i)) (takeoverKeys s)\<rparr>)"
proof -
  have "(\<lambda>k. rls_tenant_or_admin (tenant_ctx t) (tkyTenant k) \<and> key_at t st e k) = key_at t st e"
    by (auto simp: key_at_def fun_eq_iff)
  then show ?thesis
    by (simp add: updateIdempotencyKeyWithSession_def runWithTenantContext_def as_work_def act_query_def)
qed

lemma session_of_unrevoked: "session_of now d st x \<Longrightarrow> tokRevoked x = None"
  by (simp add: session_of_def active_token_def)

lemma issue_session_cases:
  assumes "issue_session env i raw now (u, d, r) s = (a, s')"
  obtains (failed) x where "a = Inl x" "s' = s"
  | (issued) "a = Inr (Signed_in (summary_of u d r) \<lparr>smId = i, smIssued = now, smEnvelope = Some raw\<rparr>)"
      "insert_token (operator_token env i raw now d (usrId u)) s = Inr s'"
      "s' = s\<lparr>tokens := tokens s @ [operator_token env i raw now d (usrId u)]\<rparr>"
proof (cases "insert_token (operator_token env i raw now d (usrId u)) s")
  case (Inl x)
  with assms have "a = Inl x" "s' = s" by (simp_all add: issue_session_def issueOperatorSessionRow_def)
  then show thesis by (rule failed)
next
  case (Inr z)
  then have z: "z = s\<lparr>tokens := tokens s @ [operator_token env i raw now d (usrId u)]\<rparr>" by (simp add: insert_token_Inr)
  from assms Inr have "a = Inr (Signed_in (summary_of u d r) \<lparr>smId = i, smIssued = now, smEnvelope = Some raw\<rparr>)" "s' = z"
    by (simp_all add: issue_session_def issueOperatorSessionRow_def)
  with Inr z show thesis by (intro issued) simp_all
qed

lemma first_time_moves:
  assumes "takeover_first_time env e (u, d, r) ids raw now s = (a, s')" and "d \<in> set (devices s)"
  shows "access_run env s s'"
proof -
  let ?s1 = "snd (revokeActiveOperatorSession now (devId d) (devStore d) s)"
  have one: "access_run env s ?s1"
    using am_revoke [of "session_of now (devId d) (devStore d)" env s now] session_of_unrevoked
    by (auto simp: revokeActiveOperatorSession_def)
  have dev: "d \<in> set (devices ?s1)" using assms(2) by (simp add: revokeActiveOperatorSession_def)
  show ?thesis
  proof (cases "fst (revokeActiveOperatorSession now (devId d) (devStore d) s)")
    case None
    with assms(1) one show ?thesis by (auto simp: takeover_first_time_def split: prod.splits)
  next
    case (Some old)
    obtain a2 s2 where two: "issue_session env (ids 0) raw now (u, d, r) ?s1 = (a2, s2)" by fastforce
    note moved = rtranclp_trans [OF one issue_moves [OF two dev]]
    from two show ?thesis
    proof (cases rule: issue_session_cases)
      case failed
      with assms(1) Some two moved show ?thesis by (auto simp: takeover_first_time_def split: prod.splits)
    next
      case issued
      let ?t = "operator_token env (ids 0) raw now d (usrId u)"
      have "access_move env s2 (snd (updateIdempotencyKeyWithSession e (devTenant d) (devStore d) (ids 0) s2))"
        unfolding bind_key snd_conv by (rule am_bind [of ?t]) (simp_all add: issued(3) in_store_def)
      then have "access_run env s (snd (updateIdempotencyKeyWithSession e (devTenant d) (devStore d) (ids 0) s2))" (is "access_run env s ?s3")
        by (rule rtranclp.rtrancl_into_rtrancl [OF moved])
      then have "access_run env s (insert_takeover_audit x ?s3)" for x
        by (rule rtranclp.rtrancl_into_rtrancl) (rule am_audit)
      with assms(1) Some two issued show ?thesis
        by (auto simp: takeover_first_time_def bind_key split: prod.splits)
    qed
  qed
qed

lemma upsert_moves: "upsertTakeoverIdempotencyKey env e operator t st now s = (r, s') \<Longrightarrow> access_run env s s'"
  by (erule upsert_cases) (auto intro: am_key)

lemma upsert_tables:
  assumes "upsertTakeoverIdempotencyKey env e operator t st now s = (r, s')"
  shows "tokens s' = tokens s \<and> devices s' = devices s"
  using assms by (cases rule: upsert_cases) (auto dest!: insert_key_Inr)

lemma takeover_moves:
  assumes "takeoverConfirm env jwt b ids raw now s = (a, s')"
  shows "access_run env s s'"
proof (cases "takeover_checks env jwt (tvOperator b) (tvAttestation b) s")
  case (Inr w)
  obtain u d r where w: "w = (u, d, r)" by (cases w)
  with Inr have dev: "d \<in> set (devices s)"
    unfolding takeover_checks_sign_in by (auto elim!: sign_in_checksD dest: device_operatorD)
  obtain k s1 where up: "upsertTakeoverIdempotencyKey env (tvEvent b) (tvOperator b) (devTenant d) (devStore d) now s = (k, s1)"
    by fastforce
  note one = upsert_moves [OF up]
  have "devices s1 = devices s" using upsert_tables [OF up] by simp
  with assms Inr w up one dev show ?thesis
    by (auto simp: takeoverConfirm_def split: sum.splits key_outcome.splits intro: rtranclp_trans [OF _ first_time_moves])
qed (use assms in \<open>simp add: takeoverConfirm_def\<close>)

end
