(* ===== verification/AccessFacts.thy ===== *)
theory AccessFacts
  imports AccessLife
begin

text \<open>
  The guards on well-formed tables, the sessions of a terminal through the operations, and the context
  of a dashboard session.
\<close>

section \<open>The gate of a sale\<close>

abbreviation operator_context :: "uuid \<Rightarrow> device \<Rightarrow> resolved_context" where
  "operator_context u d \<equiv> \<lparr>rcUser = Some u, rcTenant = Some (devTenant d), rcStore = Some (devStore d), rcPlatformAdmin = False\<rparr>"

lemma bound_operator:
  assumes "access_ok s" and "x \<in> set (tokens s)" and "tokScope x = Pos_operator"
  obtains u d where "tokUser x = Some u" "d \<in> set (devices s)" "tokDevice x = Some (devId d)"
    "tokTenant x = Some (devTenant d)" "tokStore x = Some (devStore d)"
  using ok_bound [OF assms(1,2)] assms(3) by (auto simp: token_bound_def principal_by_scope_def)

lemma reverify_device:
  assumes "access_ok s" and "d \<in> set (devices s)"
  shows "reverify u (devId d) st s = None \<longleftrightarrow> devRevoked d = None \<and> eligible s (devTenant d) st u"
proof (cases "devRevoked d = None")
  case True
  then have "findActiveDeviceById (devId d) s = Some d" by (simp add: active_device_by_id assms)
  with True show ?thesis by (simp add: reverify_def eligibility_live access_ok_directory assms(1))
next
  case False
  with assms have "findActiveDeviceById (devId d) s = None" by (simp add: findActiveDeviceById_def device_ids.lookup_fails)
  with False show ?thesis by (simp add: reverify_def)
qed

lemma gate_of_token:
  assumes "access_ok s" and "x \<in> set (tokens s)" and "tokScope x = Pos_operator" and "tokUser x = Some u"
    and "d \<in> set (devices s)" and "tokDevice x = Some (devId d)"
  shows "PosOperatorEnvelopeSaleGuard s (principalFromToken x) =
     (if devRevoked d = None \<and> eligible s (devTenant d) (devStore d) u
      then Inr (principalFromToken x, operator_context u d) else Inl unauthorized)"
proof -
  from assms(1-3) obtain e where "e \<in> set (devices s)" "tokDevice x = Some (devId e)"
    "tokTenant x = Some (devTenant e)" "tokStore x = Some (devStore e)" by (rule bound_operator)
  with assms(6) device_ids.one_row [OF assms(1,5), of e] have st: "tokTenant x = Some (devTenant d)" "tokStore x = Some (devStore d)" by auto
  have rec: "recoverDeviceId (tokId x) s = Some (devId d)" using recovered_device [OF assms(1-3)] assms(6) by simp
  show ?thesis
    using reverify_device [OF assms(1,5), of u "devStore d"] rec st assms(3,4)
    by (auto simp: PosOperatorEnvelopeSaleGuard_def principalFromToken_def split: option.splits)
qed

lemma gate_needs_operator:
  "PosOperatorEnvelopeSaleGuard s p = Inr q \<Longrightarrow> \<exists>i t u st. p = By_token i t (Some u) (Some st) Pos_operator"
  by (auto simp: PosOperatorEnvelopeSaleGuard_def split: principal.splits option.splits token_scope.splits)

lemma auth_of_bearer:
  assumes "access_ok s" and "readSessionCookie req = None" and "readBearerToken req = Some raw"
    and "x \<in> set (tokens s)" and "tokHash x = sha256 env raw"
  shows "AuthGuard env uuid_in now req s =
     (if active_token now x \<and> tokScope x \<in> set BEARER_AUTH_SCOPES then Inr (principalFromToken x) else Inl unauthorized)"
proof (cases "active_token now x")
  case True
  with assms have "findActiveByRawToken (sha256 env) now raw s = Some x" by (simp add: active_by_raw)
  with True assms(2,3) show ?thesis by (simp add: AuthGuard_def)
next
  case False
  with assms have "findActiveByRawToken (sha256 env) now raw s = None" by (simp add: findActiveByRawToken_def token_hashes.lookup_fails)
  with False assms(2,3) show ?thesis by (simp add: AuthGuard_def)
qed

lemma auth_unknown:
  assumes "access_ok s" and "readSessionCookie req = None" and "readBearerToken req = Some raw"
    and "\<And>x. x \<in> set (tokens s) \<Longrightarrow> tokHash x \<noteq> sha256 env raw"
  shows "AuthGuard env uuid_in now req s = Inl unauthorized"
proof -
  have "findActiveByRawToken (sha256 env) now raw s \<noteq> Some y" for y using assms by (auto simp: active_by_raw)
  with assms(2,3) show ?thesis by (simp add: AuthGuard_def split: option.splits)
qed

lemma auth_token_cases:
  assumes "access_ok s" and "AuthGuard env uuid_in now req s = Inr (By_token i t u st sc)"
  obtains raw x where "readSessionCookie req = None" "readBearerToken req = Some raw" "x \<in> set (tokens s)"
    "tokHash x = sha256 env raw" "active_token now x" "principalFromToken x = By_token i t u st sc"
  using assms(2)
  by (auto simp: AuthGuard_def principalFromSession_def active_by_raw [OF assms(1)] split: option.splits if_splits)

text \<open>A token that is revoked stays so, and no other token has its hash.\<close>

lemma revoked_for_good:
  assumes "access_ok s" and "access_run env s s'" and "x \<in> set (tokens s)" and "tokRevoked x \<noteq> None"
  shows "x \<in> set (tokens s')"
proof -
  from run_tokens [OF assms(2)] assms(3) obtain y where y: "y \<in> set (tokens s')" "token_life x y" by (rule table_extends_rowD)
  with assms(4) show ?thesis by (auto simp: token_life_def)
qed

lemma revoked_is_refused:
  assumes "access_ok s" and "access_run env s s'" and "x \<in> set (tokens s)" and "tokRevoked x \<noteq> None"
    and "tokHash x = sha256 env raw" and "readSessionCookie req = None" and "readBearerToken req = Some raw"
  shows "AuthGuard env uuid_in now req s' = Inl unauthorized"
  using auth_of_bearer [OF run_ok [OF assms(2,1)] assms(6,7) revoked_for_good [OF assms(1-4)] assms(5)] assms(4)
  by (simp add: active_token_def)

section \<open>The operations in detail\<close>

lemma signIn_signed:
  assumes "signIn env jwt att i raw now s = (Inr (Signed_in op ss), s')"
  obtains u d r where "sign_in_checks env jwt att s = Inr (u, d, r)" "\<forall>x \<in> set (tokens s). \<not> session_of now (devId d) (devStore d) x"
    "op = summary_of u d r" "ss = \<lparr>smId = i, smIssued = now, smEnvelope = Some raw\<rparr>"
    "insert_token (operator_token env i raw now d (usrId u)) s = Inr s'"
    "s' = s\<lparr>tokens := tokens s @ [operator_token env i raw now d (usrId u)]\<rparr>"
proof -
  from assms obtain u d r where c: "sign_in_checks env jwt att s = Inr (u, d, r)" "\<not> activeOperatorSessionExists now (devId d) (devStore d) s"
    "issue_session env i raw now (u, d, r) s = (Inr (Signed_in op ss), s')"
    by (auto simp: signIn_def split: sum.splits if_splits)
  from c(3) show thesis
  proof (cases rule: issue_session_cases)
    case issued
    with c(1,2) show ?thesis by (intro that [of u d r]) (auto simp: activeOperatorSessionExists_def list_ex_iff)
  qed simp
qed

lemma signOut_done:
  assumes "signOut env jwt i now s = (Signed_out, s')"
  obtains u x where "x \<in> set (tokens s)" "tokId x = i" "tokUser x = Some u" "tokScope x = Pos_operator" "active_token now x"
    "s' = s\<lparr>tokens := update_where (\<lambda>x. tokId x = i \<and> tokUser x = Some u \<and> tokRevoked x = None) (tokRevoked_update (\<lambda>_. Some now)) (tokens s)\<rparr>"
proof -
  from assms obtain sub u x where c: "verify env jwt = Some sub" "resolve_user env sub s = Inr u" "findOperatorSessionById i s = Some x" "tokUser x = Some (usrId u)" "tokScope x = Pos_operator"
    "tokRevoked x = None" "\<not> tokExpires x \<le> now" "markSessionRevoked now i (usrId u) s = (True, s')"
    by (auto simp: signOut_def split: option.splits sum.splits if_splits prod.splits bool.splits)
  moreover from c(3) have "x \<in> set (tokens s)" "tokId x = i" by (auto simp: findOperatorSessionById_def dest: find_SomeD)
  ultimately show thesis by (intro that [of x "usrId u"]) (auto simp: markSessionRevoked_def active_token_def Let_def)
qed

text \<open>The states of a first confirmation.\<close>

lemma takeover_cases:
  assumes "takeoverConfirm env jwt b ids raw now s = (Inr (Signed_in op ss), s')"
  obtains (first) u d r s1 where "takeover_checks env jwt (tvOperator b) (tvAttestation b) s = Inr (u, d, r)"
      "upsertTakeoverIdempotencyKey env (tvEvent b) (tvOperator b) (devTenant d) (devStore d) now s = (Inr Key_fresh, s1)"
      "takeover_first_time env (tvEvent b) (u, d, r) ids raw now s1 = (Inr (Signed_in op ss), s')"
  | (replay) u d r i where "takeover_checks env jwt (tvOperator b) (tvAttestation b) s = Inr (u, d, r)"
      "upsertTakeoverIdempotencyKey env (tvEvent b) (tvOperator b) (devTenant d) (devStore d) now s = (Inr (Key_duplicate i), s')"
      "takeover_replay now i (u, d, r) s' = Signed_in op ss"
  using assms by (auto simp: takeoverConfirm_def split: sum.splits prod.splits key_outcome.splits)

definition after_takeover ::
    "pos_env \<Rightarrow> uuid \<Rightarrow> device \<Rightarrow> uuid \<Rightarrow> id_source \<Rightarrow> string \<Rightarrow> instant \<Rightarrow> uuid \<Rightarrow> access_db \<Rightarrow> access_db" where
  "after_takeover env e d u ids raw now old s =
     insert_takeover_audit \<lparr>taId = ids 1, taActor = u, taTenant = devTenant d, taStore = devStore d, taTarget = ids 0, taSuperseded = old\<rparr>
       (s\<lparr>tokens := update_where (session_of now (devId d) (devStore d)) (tokRevoked_update (\<lambda>_. Some now)) (tokens s) @
                    [operator_token env (ids 0) raw now d u],
          takeoverKeys := update_where (key_at (devTenant d) (devStore d) e) (tkySession_update (\<lambda>_. Some (ids 0))) (takeoverKeys s)\<rparr>)"

lemma audit_keeps [simp]:
  "tokens (insert_takeover_audit a s) = tokens s" "takeoverKeys (insert_takeover_audit a s) = takeoverKeys s"
  "devices (insert_takeover_audit a s) = devices s" "users (insert_takeover_audit a s) = users s"
  "memberships (insert_takeover_audit a s) = memberships s" "roles (insert_takeover_audit a s) = roles s"
  "grants (insert_takeover_audit a s) = grants s" "tenants (insert_takeover_audit a s) = tenants s"
  by (simp_all add: insert_takeover_audit_def)

lemma first_time_signed:
  assumes "takeover_first_time env e (u, d, r) ids raw now s = (Inr (Signed_in op ss), s')"
  obtains x where "x \<in> set (tokens s)" "session_of now (devId d) (devStore d) x"
    "op = summary_of u d r" "ss = \<lparr>smId = ids 0, smIssued = now, smEnvelope = Some raw\<rparr>"
    "s' = after_takeover env e d (usrId u) ids raw now (tokId x) s"
proof -
  let ?s1 = "snd (revokeActiveOperatorSession now (devId d) (devStore d) s)"
  from assms obtain old a2 s2 where two: "fst (revokeActiveOperatorSession now (devId d) (devStore d) s) = Some old"
    "issue_session env (ids 0) raw now (u, d, r) ?s1 = (a2, s2)" "a2 = Inr (Signed_in op ss)"
    by (auto simp: takeover_first_time_def split: prod.splits option.splits sum.splits)
  from two(1) obtain x where x: "find (session_of now (devId d) (devStore d)) (tokens s) = Some x" "old = tokId x"
    by (auto simp: revokeActiveOperatorSession_def)
  from two(2) show thesis
  proof (cases rule: issue_session_cases)
    case failed
    with two(3) show ?thesis by simp
  next
    case issued
    from issued(3) have s2: "s2 = s\<lparr>tokens := update_where (session_of now (devId d) (devStore d)) (tokRevoked_update (\<lambda>_. Some now)) (tokens s) @
                    [operator_token env (ids 0) raw now d (usrId u)]\<rparr>"
      by (simp add: revokeActiveOperatorSession_def)
    have "s' = after_takeover env e d (usrId u) ids raw now (tokId x) s"
      using assms two issued(1) x s2 by (auto simp: takeover_first_time_def after_takeover_def bind_key split: prod.splits)
    with two(3) issued(1) x show ?thesis by (intro that [of x]) (auto dest: find_SomeD)
  qed
qed

lemma upsert_fresh_tables:
  assumes "upsertTakeoverIdempotencyKey env e operator t st now s = (r, s')"
  shows "tokens s' = tokens s \<and> devices s' = devices s \<and> users s' = users s \<and> memberships s' = memberships s \<and>
    roles s' = roles s \<and> grants s' = grants s \<and> tenants s' = tenants s"
  using assms by (cases rule: upsert_cases) (auto dest!: insert_key_Inr)

end
