(* ===== verification/AccessExample.thy ===== *)
theory AccessExample
  imports AccessFacts
begin

text \<open>
  A small directory for the witnesses: a tenant with one store and one terminal, a manager and an owner
  who may operate it, a dashboard session of the owner. The hash is the identity.
\<close>

definition env0 :: pos_env where
  "env0 = \<lparr>verify = (\<lambda>j. if j = ''jwt-ann'' then Some ''ann'' else if j = ''jwt-bob'' then Some ''bob'' else None), sha256 = (\<lambda>x. x)\<rparr>"

definition ann :: user_row where
  "ann = \<lparr>usrId = 1, usrEmail = ''ann@x'', usrDisplay = None, usrClerk = Some ''ann'', usrPlatformAdmin = False, usrDeleted = None\<rparr>"

definition bob :: user_row where
  "bob = \<lparr>usrId = 2, usrEmail = ''bob@x'', usrDisplay = Some ''Bob'', usrClerk = Some ''bob'', usrPlatformAdmin = False, usrDeleted = None\<rparr>"

definition member :: "uuid \<Rightarrow> uuid \<Rightarrow> uuid \<Rightarrow> membership" where
  "member i u r = \<lparr>memId = i, memTenant = 7, memUser = u, memRole = r, memKind = Access_all, memRevoked = None, memDeleted = None\<rparr>"

definition till0 :: device where
  "till0 = \<lparr>devId = 40, devTenant = 7, devStore = 20, devHash = ''till'', devRevoked = None\<rparr>"

definition link :: "uuid \<Rightarrow> uuid \<Rightarrow> string \<Rightarrow> identity_link" where
  "link i u c = \<lparr>lnkId = i, lnkProvider = ''clerk'', lnkIssuer = ''iss'', lnkSubject = c, lnkUser = u, lnkEmail = None, lnkActive = True\<rparr>"

definition db0 :: access_db where
  "db0 = \<lparr>users = [ann, bob],
     roles = [\<lparr>rolId = 10, rolTenant = Some 7, rolCode = ''store_manager''\<rparr>, \<lparr>rolId = 11, rolTenant = Some 7, rolCode = ''owner''\<rparr>],
     stores = [\<lparr>stoId = 20, stoTenant = 7, stoCode = ''S1'', stoName = ''Store'', stoDeleted = None\<rparr>],
     tenants = [\<lparr>tenId = 7, tenSlug = ''t'', tenName = ''Tenant'', tenDeleted = None\<rparr>],
     memberships = [member 31 1 10, member 32 2 11], grants = [], devices = [till0], tokens = [],
     dashSessions = [\<lparr>sesId = 60, sesUser = 2, sesTenant = Some 7, sesStore = None, sesExpires = 9000, sesRevoked = None\<rparr>],
     connectorRegs = [], identityLinks = [link 81 1 ''ann'', link 82 2 ''bob''], takeoverKeys = [], takeoverAudits = [],
     connectorAudits = [], pairingCodes = [], invitations = []\<rparr>"

definition uuid_in0 :: "string \<Rightarrow> uuid option" where
  "uuid_in0 v = (if v = ''s60'' then Some 60 else None)"

definition bearer :: "string \<Rightarrow> auth_request" where
  "bearer raw = \<lparr>arCookie = None, arAuthorization = Some (''Bearer '' @ raw), arAttestation = Some ''till''\<rparr>"

definition cookie :: auth_request where
  "cookie = \<lparr>arCookie = Some ''s60'', arAuthorization = None, arAttestation = None\<rparr>"

text \<open>Ann has signed in; Bob then takes over.\<close>

definition db1 :: access_db where
  "db1 = snd (signIn env0 ''jwt-ann'' ''till'' 50 ''raw-ann'' 100 db0)"

definition ids0 :: id_source where
  "ids0 n = 51 + n"

definition confirm0 :: takeover_body where
  "confirm0 = \<lparr>tvEvent = 90, tvOperator = ''bob'', tvAttestation = ''till''\<rparr>"

definition db2 :: access_db where
  "db2 = snd (takeoverConfirm env0 ''jwt-bob'' confirm0 ids0 ''raw-bob'' 200 db1)"

lemma db0_ok: "access_ok db0"
  by code_simp

lemma db1_is: "db1 = db0\<lparr>tokens := [operator_token env0 50 ''raw-ann'' 100 till0 1]\<rparr>"
  by code_simp

lemma db1_run: "access_run env0 db0 db1"
  unfolding db1_def by (rule signIn_moves) (rule prod.collapse [symmetric])

lemma db1_ok: "access_ok db1"
  using run_ok [OF db1_run db0_ok] .

lemma ann_signs_in:
  "signIn env0 ''jwt-ann'' ''till'' 50 ''raw-ann'' 100 db0 =
     (Inr (Signed_in (summary_of ann till0 Role_manager) \<lparr>smId = 50, smIssued = 100, smEnvelope = Some ''raw-ann''\<rparr>), db1)"
  unfolding db1_is by code_simp

lemma bob_takes_over:
  "takeoverConfirm env0 ''jwt-bob'' confirm0 ids0 ''raw-bob'' 200 db1 =
     (Inr (Signed_in (summary_of bob till0 Role_admin) \<lparr>smId = 51, smIssued = 200, smEnvelope = Some ''raw-bob''\<rparr>), db2)"
  unfolding db2_def prod_eq_iff db1_is by simp code_simp

lemma db2_ok: "access_ok db2"
  unfolding db2_def by (rule run_ok [OF takeover_moves db1_ok]) (rule prod.collapse [symmetric])

lemma db2_tokens:
  "tokens db2 = [(operator_token env0 50 ''raw-ann'' 100 till0 1)\<lparr>tokRevoked := Some 200\<rparr>, operator_token env0 51 ''raw-bob'' 200 till0 2]"
  unfolding db2_def db1_is by code_simp

lemma bearer_reads [simp]:
  "readSessionCookie (bearer raw) = None"
  "readBearerToken (bearer ''raw-ann'') = Some ''raw-ann''" "readBearerToken (bearer ''raw-bob'') = Some ''raw-bob''"
  "readBearerToken (bearer ''jwt-ann'') = Some ''jwt-ann''" "readAttestationHeader (bearer raw) = Some ''till''"
  by (simp add: bearer_def readSessionCookie_def) (code_simp | simp add: bearer_def readAttestationHeader_def js_trim_def is_space_def)+

lemma env0_simps [simp]:
  "sha256 env0 x = x" "verify env0 ''jwt-ann'' = Some ''ann''" "verify env0 ''jwt-bob'' = Some ''bob''"
  by (simp_all add: env0_def)

end
