(* ===== verification/AccessTheorems.thy ===== *)
theory AccessTheorems
  imports AccessExample
begin

text \<open>
  What holds of the access to terminals and of the guards, each property with a witness.
\<close>

section \<open>The tables under every interleaving\<close>

datatype access_op =
    Op_sign_in string string uuid string instant
  | Op_sign_out string uuid instant
  | Op_takeover string takeover_body id_source string instant

fun access_step :: "pos_env \<Rightarrow> access_op \<Rightarrow> access_db \<Rightarrow> access_db" where
  "access_step env (Op_sign_in jwt att i raw now) s = snd (signIn env jwt att i raw now s)"
| "access_step env (Op_sign_out jwt i now) s = snd (signOut env jwt i now s)"
| "access_step env (Op_takeover jwt b ids raw now) s = snd (takeoverConfirm env jwt b ids raw now s)"

lemma step_moves: "access_run env s (access_step env op s)"
proof (cases op)
  case (Op_sign_in jwt att i raw now)
  then show ?thesis using signIn_moves [of env jwt att i raw now s] by (simp add: prod_eq_iff)
next
  case (Op_sign_out jwt i now)
  then show ?thesis using signOut_moves [of env jwt i now s] by (simp add: prod_eq_iff)
next
  case (Op_takeover jwt b ids raw now)
  then show ?thesis using takeover_moves [of env jwt b ids raw now s] by (simp add: prod_eq_iff)
qed

text \<open>
  C28: After any interleaving of statements and any operation, the tables are well-formed: ids and hashes of
  tokens are unique, every operator token carries the tenant and the store of its device, and the key of
  a takeover names a session of its own store. A token keeps every fact and is revoked at most once.
\<close>

theorem access_books_kept:
  assumes "access_ok s" and "access_run env s s1"
  shows "access_ok (access_step env op s1) \<and>
    (\<forall>x \<in> set (tokens s). \<exists>y \<in> set (tokens (access_step env op s1)).
        token_facts y = token_facts x \<and> (tokRevoked x \<noteq> None \<longrightarrow> y = x))"
proof -
  let ?s' = "access_step env op s1"
  have run: "access_run env s ?s'" using assms(2) step_moves by (rule rtranclp_trans)
  have "\<exists>y \<in> set (tokens ?s'). token_facts y = token_facts x \<and> (tokRevoked x \<noteq> None \<longrightarrow> y = x)" if "x \<in> set (tokens s)" for x
  proof -
    from run_tokens [OF run] that obtain y where y: "y \<in> set (tokens ?s')" "token_life x y" by (rule table_extends_rowD)
    then show ?thesis by (intro bexI [of _ y]) (auto simp: token_life_facts, auto simp: token_life_def)
  qed
  with run_ok [OF run assms(1)] show ?thesis by blast
qed

lemma access_books_kept_witness:
  "access_ok (access_step env0 (Op_takeover ''jwt-bob'' confirm0 ids0 ''raw-bob'' 200) db1)"
  using access_books_kept [OF db0_ok db1_run, of "Op_takeover ''jwt-bob'' confirm0 ids0 ''raw-bob'' 200"] ..

section \<open>Signing in\<close>

text \<open>
  C29: A sign-in that answers a session: the identity belongs to a user who is not deleted, the attestation
  to a device that is not revoked, the user may operate it, and no session ran on it; the tables gain
  the one token, bound to the device's tenant and store, and its envelope opens the gate of the sale
  routes until it expires.
\<close>

theorem operator_signed_in:
  assumes "access_ok s" and "signIn env jwt att i raw now s = (Inr (Signed_in op ss), s')"
  shows "\<exists>u d m code. u \<in> set (users s) \<and> usrDeleted u = None \<and> verify env jwt = usrClerk u \<and> opUser op = usrId u \<and>
    d \<in> set (devices s) \<and> devHash d = sha256 env att \<and> devRevoked d = None \<and> opTenant op = devTenant d \<and> opBranch op = devStore d \<and>
    may_operate s (devTenant d) (devStore d) (usrId u) m code \<and> mapInternalRoleToPos code = Some (opRole op) \<and>
    (\<forall>x \<in> set (tokens s). \<not> session_of now (devId d) (devStore d) x) \<and>
    s' = s\<lparr>tokens := tokens s @ [operator_token env i raw now d (usrId u)]\<rparr> \<and>
    ss = \<lparr>smId = i, smIssued = now, smEnvelope = Some raw\<rparr> \<and>
    (\<forall>later req. later < now + OPERATOR_SESSION_TTL_MS \<and> readSessionCookie req = None \<and> readBearerToken req = Some raw \<longrightarrow>
       sale_gate env uuid_in later req s' =
         Inr (By_token i (Some (devTenant d)) (Some (usrId u)) (Some (devStore d)) Pos_operator, operator_context (usrId u) d))"
proof -
  from assms(2) obtain u d r where c: "sign_in_checks env jwt att s = Inr (u, d, r)"
    "\<forall>x \<in> set (tokens s). \<not> session_of now (devId d) (devStore d) x"
    "op = summary_of u d r" "ss = \<lparr>smId = i, smIssued = now, smEnvelope = Some raw\<rparr>"
    "insert_token (operator_token env i raw now d (usrId u)) s = Inr s'"
    "s' = s\<lparr>tokens := tokens s @ [operator_token env i raw now d (usrId u)]\<rparr>"
    by (rule signIn_signed)
  from c(1) obtain sub where u: "verify env jwt = Some sub" "u \<in> set (users s)" "usrClerk u = Some sub" "usrDeleted u = None"
    "device_operator env u att s = Inr (u, d, r)" by (rule sign_in_checksD)
  from device_operatorD [OF u(5)] have d: "d \<in> set (devices s)" "devHash d = sha256 env att" "devRevoked d = None"
    "operator_eligibility (devTenant d) (devStore d) (usrId u) s = Inr r" by auto
  from d(4) obtain m code where m: "may_operate s (devTenant d) (devStore d) (usrId u) m code" "mapInternalRoleToPos code = Some r"
    by (rule eligibility_at_sign_in)
  let ?t = "operator_token env i raw now d (usrId u)"
  have ok: "access_ok s'" using run_ok [OF signIn_moves [OF assms(2)] assms(1)] .
  have may: "may_operate s' (devTenant d) (devStore d) (usrId u) m code"
    using m(1) by (simp add: c(6) may_operate_def with_role_def storeIsInAccessSet_def)
  have "sale_gate env uuid_in later req s' =
         Inr (By_token i (Some (devTenant d)) (Some (usrId u)) (Some (devStore d)) Pos_operator, operator_context (usrId u) d)"
    if "later < now + OPERATOR_SESSION_TTL_MS" "readSessionCookie req = None" "readBearerToken req = Some raw" for later req
  proof -
    have t: "?t \<in> set (tokens s')" by (simp add: c(6))
    have "AuthGuard env uuid_in later req s' = Inr (principalFromToken ?t)"
      using auth_of_bearer [OF ok that(2,3) t] that(1) by (simp add: active_token_def BEARER_AUTH_SCOPES_def)
    moreover have "PosOperatorEnvelopeSaleGuard s' (principalFromToken ?t) = Inr (principalFromToken ?t, operator_context (usrId u) d)"
      using gate_of_token [OF ok t, of "usrId u" d] d(1,3) may by (auto simp: c(6))
    ultimately show ?thesis by (simp add: sale_gate_def after_auth_def principalFromToken_def)
  qed
  with c u d m show ?thesis
    by (intro exI [of _ u] exI [of _ d] exI [of _ m] exI [of _ code]) (simp add: summary_of_def)
qed

lemma operator_signed_in_witness:
  "\<exists>u d. u \<in> set (users db0) \<and> d \<in> set (devices db0) \<and> verify env0 ''jwt-ann'' = usrClerk u \<and>
     sale_gate env0 uuid_in0 150 (bearer ''raw-ann'') db1 =
       Inr (By_token 50 (Some (devTenant d)) (Some (usrId u)) (Some (devStore d)) Pos_operator, operator_context (usrId u) d)"
proof -
  from operator_signed_in [OF db0_ok ann_signs_in, of uuid_in0] obtain u d where
    "u \<in> set (users db0)" "d \<in> set (devices db0)" "verify env0 ''jwt-ann'' = usrClerk u"
    "\<forall>later req. later < 100 + OPERATOR_SESSION_TTL_MS \<and> readSessionCookie req = None \<and> readBearerToken req = Some ''raw-ann'' \<longrightarrow>
       sale_gate env0 uuid_in0 later req db1 =
         Inr (By_token 50 (Some (devTenant d)) (Some (usrId u)) (Some (devStore d)) Pos_operator, operator_context (usrId u) d)"
    by blast
  then show ?thesis by (intro exI [of _ u] exI [of _ d]) (simp add: OPERATOR_SESSION_TTL_MS_def)
qed

section \<open>The gate of the sale routes\<close>

text \<open>
  C30: A request passes the gate of the sale routes exactly if its bearer is the envelope of an operator
  token that is neither revoked nor expired, and at that moment the device is not revoked and the user
  may operate it. The scope a sale gets is that of the device.
\<close>

theorem sale_gate_exact:
  assumes "access_ok s"
  shows "sale_gate env uuid_in now req s = Inr (p, c) \<longleftrightarrow>
    (\<exists>raw x u d. readSessionCookie req = None \<and> readBearerToken req = Some raw \<and>
       x \<in> set (tokens s) \<and> tokHash x = sha256 env raw \<and> tokScope x = Pos_operator \<and> active_token now x \<and> tokUser x = Some u \<and>
       d \<in> set (devices s) \<and> tokDevice x = Some (devId d) \<and> devRevoked d = None \<and> eligible s (devTenant d) (devStore d) u \<and>
       p = principalFromToken x \<and> c = operator_context u d)"
    (is "?gate \<longleftrightarrow> ?spec")
proof
  assume gate: ?gate
  then obtain q where auth: "AuthGuard env uuid_in now req s = Inr q" "PosOperatorEnvelopeSaleGuard s q = Inr (p, c)"
    by (auto simp: sale_gate_def after_auth_def split: sum.splits)
  from gate_needs_operator [OF auth(2)] obtain i t u st where q: "q = By_token i t (Some u) (Some st) Pos_operator" by blast
  from assms auth(1) [unfolded q] obtain raw x where x: "readSessionCookie req = None" "readBearerToken req = Some raw"
    "x \<in> set (tokens s)" "tokHash x = sha256 env raw" "active_token now x" "principalFromToken x = q"
    unfolding q by (rule auth_token_cases)
  from x(6) q have sc: "tokScope x = Pos_operator" "tokUser x = Some u" by (auto simp: principalFromToken_def)
  from assms x(3) sc(1) obtain v d where d: "tokUser x = Some v" "d \<in> set (devices s)" "tokDevice x = Some (devId d)" by (rule bound_operator)
  from gate_of_token [OF assms x(3) sc d(2,3)] auth(2) x(6)
  have "devRevoked d = None" "eligible s (devTenant d) (devStore d) u" "p = principalFromToken x" "c = operator_context u d"
    by (auto split: if_splits)
  with x sc d(2,3) show ?spec by blast
next
  assume ?spec
  then obtain raw x u d where a: "readSessionCookie req = None" "readBearerToken req = Some raw"
    "x \<in> set (tokens s)" "tokHash x = sha256 env raw" "tokScope x = Pos_operator" "active_token now x" "tokUser x = Some u"
    "d \<in> set (devices s)" "tokDevice x = Some (devId d)" "devRevoked d = None" "eligible s (devTenant d) (devStore d) u"
    "p = principalFromToken x" "c = operator_context u d" by blast
  from auth_of_bearer [OF assms a(1-4)] a(5,6) have "AuthGuard env uuid_in now req s = Inr (principalFromToken x)"
    by (simp add: BEARER_AUTH_SCOPES_def)
  with gate_of_token [OF assms a(3,5,7,8,9)] a(10-13) show ?gate by (simp add: sale_gate_def after_auth_def)
qed

lemma sale_gate_exact_witness:
  "\<exists>x u d. x \<in> set (tokens db1) \<and> active_token 150 x \<and> d \<in> set (devices db1) \<and> tokDevice x = Some (devId d) \<and>
     eligible db1 (devTenant d) (devStore d) u"
proof -
  have "sale_gate env0 uuid_in0 150 (bearer ''raw-ann'') db1 =
    Inr (By_token 50 (Some 7) (Some 1) (Some 20) Pos_operator, operator_context 1 till0)"
    unfolding db1_is by code_simp
  with sale_gate_exact [OF db1_ok] show ?thesis by blast
qed

text \<open>
  C31: The gate that reads the identity token and the device attestation on every request, and the gate by
  envelope that replaced it, answer alike for the operator and the device of an active session, as long
  as the user is not deleted: the same refusal, or the same context.
\<close>

theorem gates_agree:
  assumes "access_ok s" and "x \<in> set (tokens s)" and "tokScope x = Pos_operator" and "active_token now x"
    and "tokUser x = Some (usrId u)" and "d \<in> set (devices s)" and "tokDevice x = Some (devId d)"
    and "tokHash x = sha256 env raw" and "readSessionCookie req = None" and "readBearerToken req = Some raw"
    and "devHash d = sha256 env att" and "readBearerToken old = Some jwt" and "readAttestationHeader old = Some att"
    and "verify env jwt = Some sub" and "findUserByExternalIdentity CLERK_PROVIDER_KEY sub s = Some u" and "usrDeleted u = None"
  shows "map_sum id snd (sale_gate env uuid_in now req s) = map_sum id snd (PosOperatorSaleAuthGuard env old s)"
proof -
  have att: "att \<noteq> []" using assms(13) by (auto simp: readAttestationHeader_def split: option.splits if_splits)
  have found: "findActiveByAttestation (sha256 env) att s = (if devRevoked d = None then Some d else None)"
    using att device_hashes.key_lookup [OF assms(1), of "sha256 env att" "\<lambda>d. devRevoked d = None" d] assms(6,11)
      device_hashes.lookup_fails [OF assms(1,6,11), of "\<lambda>d. devRevoked d = None"]
    by (simp add: findActiveByAttestation_def)
  have "AuthGuard env uuid_in now req s = Inr (principalFromToken x)"
    using auth_of_bearer [OF assms(1,9,10,2,8)] assms(3,4) by (simp add: BEARER_AUTH_SCOPES_def)
  then have new: "sale_gate env uuid_in now req s =
      (if devRevoked d = None \<and> eligible s (devTenant d) (devStore d) (usrId u)
       then Inr (principalFromToken x, operator_context (usrId u) d) else Inl unauthorized)"
    using gate_of_token [OF assms(1-3,5-7)] by (simp add: sale_gate_def after_auth_def)
  show ?thesis
    using new found assms(12-16) eligibility_live [OF access_ok_directory [OF assms(1)], of "devTenant d" "devStore d" "usrId u"]
    by (cases "resolver_eligibility (devTenant d) (devStore d) (usrId u) s")
       (simp_all add: PosOperatorSaleAuthGuard_def resolve_def)
qed

lemma gates_agree_witness:
  "map_sum id snd (sale_gate env0 uuid_in0 150 (bearer ''raw-ann'') db1) =
   map_sum id snd (PosOperatorSaleAuthGuard env0 (bearer ''jwt-ann'') db1)"
proof (rule gates_agree [OF db1_ok, of "operator_token env0 50 ''raw-ann'' 100 till0 1" 150 ann till0 env0 "''raw-ann''" "bearer ''raw-ann''"
    "''till''" "bearer ''jwt-ann''" "''jwt-ann''" "''ann''"])
  show "findUserByExternalIdentity CLERK_PROVIDER_KEY ''ann'' db1 = Some ann" unfolding db1_is by code_simp
qed (simp_all add: db1_is db0_def till0_def ann_def active_token_def OPERATOR_SESSION_TTL_MS_def)

section \<open>Signing out\<close>

text \<open>
  C32: Once a sign-out has been answered, nothing brings the session back: whatever statements run
  afterwards, in any interleaving, its envelope is refused at every time and the session cannot be
  signed out again.
\<close>

theorem signed_out_for_good:
  assumes "access_ok s" and "signOut env jwt i now s = (Signed_out, s1)" and "access_run env s1 s2"
    and "x \<in> set (tokens s)" and "tokId x = i" and "tokHash x = sha256 env raw"
    and "readSessionCookie req = None" and "readBearerToken req = Some raw"
  shows "AuthGuard env uuid_in later req s2 = Inl unauthorized \<and> fst (signOut env jwt2 i later s2) \<noteq> Signed_out"
proof -
  from assms(2) obtain u y where y: "y \<in> set (tokens s)" "tokId y = i" "tokUser y = Some u" "tokScope y = Pos_operator" "active_token now y"
    "s1 = s\<lparr>tokens := update_where (\<lambda>x. tokId x = i \<and> tokUser x = Some u \<and> tokRevoked x = None) (tokRevoked_update (\<lambda>_. Some now)) (tokens s)\<rparr>"
    by (rule signOut_done)
  have "y = x" using token_ids.one_row [OF assms(1,4) y(1)] y(2) assms(5) by simp
  let ?x = "x\<lparr>tokRevoked := Some now\<rparr>"
  have x1: "?x \<in> set (tokens s1)" using y \<open>y = x\<close> assms(4) by (auto simp: set_update_where active_token_def image_iff intro!: bexI [of _ x])
  have ok: "access_ok s1" using run_ok [OF signOut_moves [OF assms(2)] assms(1)] .
  have x2: "?x \<in> set (tokens s2)" using revoked_for_good [OF ok assms(3) x1] by simp
  have "AuthGuard env uuid_in later req s2 = Inl unauthorized"
    using revoked_is_refused [OF ok assms(3) x1, of raw req] assms(6-8) by simp
  moreover have "fst (signOut env jwt2 i later s2) \<noteq> Signed_out"
  proof
    assume "fst (signOut env jwt2 i later s2) = Signed_out"
    then obtain s3 where "signOut env jwt2 i later s2 = (Signed_out, s3)" by (metis prod.collapse)
    then obtain z where "z \<in> set (tokens s2)" "tokId z = i" "active_token later z" by (rule signOut_done) blast
    moreover from this have "z = ?x"
      using token_ids.one_row [OF run_ok [OF assms(3) ok] x2, of z] assms(5) by simp
    ultimately show False by (simp add: active_token_def)
  qed
  ultimately show ?thesis ..
qed

lemma signed_out_for_good_witness:
  "AuthGuard env0 uuid_in0 170 (bearer ''raw-ann'') (snd (signOut env0 ''jwt-ann'' 50 160 db1)) = Inl unauthorized"
proof -
  have "signOut env0 ''jwt-ann'' 50 160 db1 = (Signed_out, snd (signOut env0 ''jwt-ann'' 50 160 db1))"
    unfolding prod_eq_iff db1_is by simp code_simp
  from signed_out_for_good [OF db1_ok this rtranclp.rtrancl_refl, of "operator_token env0 50 ''raw-ann'' 100 till0 1" "''raw-ann''" "bearer ''raw-ann''"]
  show ?thesis by (simp add: db1_is)
qed

section \<open>Taking over\<close>

lemma checks_cong:
  assumes "users s' = users s" "devices s' = devices s" "memberships s' = memberships s" "roles s' = roles s" "grants s' = grants s"
  shows "takeover_checks env jwt operator att s' = takeover_checks env jwt operator att s"
  unfolding takeover_checks_def resolve_user_def findUserByClerkSubject_def device_operator_def findActiveByAttestation_def
    operator_eligibility_def findActiveMembership_def with_role_def storeIsInAccessSet_def assms
  by (rule refl)

lemma after_takeover_tables [simp]:
  "users (after_takeover env e d u ids raw now old s) = users s" "devices (after_takeover env e d u ids raw now old s) = devices s"
  "memberships (after_takeover env e d u ids raw now old s) = memberships s" "roles (after_takeover env e d u ids raw now old s) = roles s"
  "grants (after_takeover env e d u ids raw now old s) = grants s"
  by (simp_all add: after_takeover_def insert_takeover_audit_def)

lemma after_takeover_tokens:
  "tokens (after_takeover env e d u ids raw now old s) =
     update_where (session_of now (devId d) (devStore d)) (tokRevoked_update (\<lambda>_. Some now)) (tokens s) @ [operator_token env (ids 0) raw now d u]"
  "takeoverKeys (after_takeover env e d u ids raw now old s) =
     update_where (key_at (devTenant d) (devStore d) e) (tkySession_update (\<lambda>_. Some (ids 0))) (takeoverKeys s)"
  by (simp_all add: after_takeover_def)

text \<open>
  C33: A first confirmation needs a session to supersede; it leaves the new one as the only active session
  of the terminal, and the superseded envelopes are refused whatever runs afterwards.
\<close>

theorem takeover_supersedes:
  assumes "access_ok s" and "takeoverConfirm env jwt b ids raw now s = (Inr (Signed_in op ss), s')" and "smEnvelope ss \<noteq> None"
  shows "\<exists>u d. verify env jwt = Some (tvOperator b) \<and> u \<in> set (users s) \<and> usrClerk u = Some (tvOperator b) \<and> opUser op = usrId u \<and>
    d \<in> set (devices s) \<and> devHash d = sha256 env (tvAttestation b) \<and> eligible s (devTenant d) (devStore d) (usrId u) \<and>
    filter (session_of now (devId d) (devStore d)) (tokens s) \<noteq> [] \<and>
    filter (session_of now (devId d) (devStore d)) (tokens s') = [operator_token env (ids 0) raw now d (usrId u)] \<and>
    ss = \<lparr>smId = ids 0, smIssued = now, smEnvelope = Some raw\<rparr> \<and>
    (\<forall>x s2 raw2 req later. x \<in> set (tokens s) \<and> session_of now (devId d) (devStore d) x \<and> access_run env s' s2 \<and>
       tokHash x = sha256 env raw2 \<and> readSessionCookie req = None \<and> readBearerToken req = Some raw2 \<longrightarrow>
       AuthGuard env uuid_in later req s2 = Inl unauthorized)"
  using assms(2)
proof (cases rule: takeover_cases)
  case (first u d r s1)
  have up: "tokens s1 = tokens s" using upsert_fresh_tables [OF first(2)] by simp
  from first(3) obtain x where x: "x \<in> set (tokens s1)" "session_of now (devId d) (devStore d) x" "op = summary_of u d r"
    "ss = \<lparr>smId = ids 0, smIssued = now, smEnvelope = Some raw\<rparr>" "s' = after_takeover env (tvEvent b) d (usrId u) ids raw now (tokId x) s1"
    by (rule first_time_signed)
  let ?p = "session_of now (devId d) (devStore d)" and ?f = "tokRevoked_update (\<lambda>_. Some now)"
  have toks: "tokens s' = update_where ?p ?f (tokens s) @ [operator_token env (ids 0) raw now d (usrId u)]"
    by (simp add: x(5) after_takeover_tokens up)
  from first(1) have chk: "verify env jwt = Some (tvOperator b)" "sign_in_checks env jwt (tvAttestation b) s = Inr (u, d, r)"
    unfolding takeover_checks_sign_in by simp_all
  from chk(2) obtain sub where sub: "verify env jwt = Some sub" "usrClerk u = Some sub" "device_operator env u (tvAttestation b) s = Inr (u, d, r)"
    "u \<in> set (users s)"
    by (rule sign_in_checksD)
  from device_operatorD [OF sub(3)] have d: "d \<in> set (devices s)" "devHash d = sha256 env (tvAttestation b)"
    "eligible s (devTenant d) (devStore d) (usrId u)" by (auto dest: signed_in_is_eligible)
  have "\<not> ?p (?f y)" for y by (simp add: session_of_def active_token_def)
  then have "filter ?p (update_where ?p ?f (tokens s)) = []" by (simp add: filter_update_where_leave)
  then have one: "filter ?p (tokens s') = [operator_token env (ids 0) raw now d (usrId u)]"
    by (simp add: toks session_of_def active_token_def OPERATOR_SESSION_TTL_MS_def)
  have ok: "access_ok s'" using run_ok [OF takeover_moves [OF assms(2)] assms(1)] .
  have gone: "AuthGuard env uuid_in later req s2 = Inl unauthorized"
    if "y \<in> set (tokens s)" "?p y" "access_run env s' s2" "tokHash y = sha256 env raw2" "readSessionCookie req = None"
      "readBearerToken req = Some raw2" for y s2 raw2 req later
  proof -
    have "?f y \<in> set (tokens s')" using that(1,2) by (auto simp: toks set_update_where image_iff intro!: bexI [of _ y])
    with revoked_is_refused [OF ok that(3), of "?f y" raw2 req] that(4-6) show ?thesis by simp
  qed
  have "filter ?p (tokens s) \<noteq> []" using x(1,2) up by (auto simp: filter_empty_conv)
  moreover have "opUser op = usrId u" "usrClerk u = Some (tvOperator b)" using x(3) chk(1) sub(1,2) by (simp_all add: summary_of_def)
  moreover have "\<forall>y s2 raw2 req later. y \<in> set (tokens s) \<and> ?p y \<and> access_run env s' s2 \<and> tokHash y = sha256 env raw2 \<and>
      readSessionCookie req = None \<and> readBearerToken req = Some raw2 \<longrightarrow> AuthGuard env uuid_in later req s2 = Inl unauthorized"
    using gone by blast
  ultimately show ?thesis using chk(1) d x(4) one sub(4) by blast
next
  case (replay u d r i)
  with assms(3) show ?thesis by (auto simp: takeover_replay_def split: option.splits if_splits)
qed

lemma takeover_supersedes_witness:
  "\<exists>d. d \<in> set (devices db1) \<and> length (filter (session_of 200 (devId d) (devStore d)) (tokens db2)) = 1"
  using takeover_supersedes [OF db1_ok bob_takes_over] by fastforce

lemma find_key_scope: "find_key (tenant_ctx t) t st e s = find (\<lambda>k. key_scope k = (t, st, ''pos_takeover'', e)) (takeoverKeys s)"
proof -
  have "(\<lambda>k. rls_tenant_or_admin (tenant_ctx t) (tkyTenant k) \<and> key_at t st e k) = (\<lambda>k. key_scope k = (t, st, ''pos_takeover'', e))"
    by (auto simp: key_at_def key_scope_def fun_eq_iff)
  then show ?thesis by (simp add: find_key_def)
qed

lemma upsert_seen:
  assumes "access_ok s" and "k \<in> set (takeoverKeys s)" and "key_scope k = (t, st, ''pos_takeover'', e)"
  shows "upsertTakeoverIdempotencyKey env e operator t st now s = (Inr (key_verdict env operator (Some k)), s)"
proof -
  have "find_key (tenant_ctx t) t st e s = Some k"
    using assms by (simp add: find_key_scope takeover_scopes.lookup_key)
  moreover have "insert_key (tenant_ctx t) (new_key env e operator t st now) s = Inr (False, s)"
  proof -
    have "key_scope (new_key env e operator t st now) = key_scope k" using assms(3) by (simp add: key_scope_def new_key_def)
    with assms(2) have "key_scope (new_key env e operator t st now) \<in> key_scope ` set (takeoverKeys s)" by simp
    then show ?thesis unfolding insert_key_def key_taken by (simp add: new_key_def sql_check_def)
  qed
  ultimately show ?thesis
    by (simp add: upsertTakeoverIdempotencyKey_def runWithTenantContext_def as_work_def act_bind_def act_query_def act_select_def
        act_return_def)
qed

lemma key_of_fresh:
  assumes "access_ok s" and "upsertTakeoverIdempotencyKey env e operator t st now s = (Inr Key_fresh, s1)"
  obtains k where "k \<in> set (takeoverKeys s1)" "key_scope k = (t, st, ''pos_takeover'', e)" "tkyHash k = sha256 env operator"
  using assms(2)
proof (cases rule: upsert_cases)
  case fresh
  then have "new_key env e operator t st now \<in> set (takeoverKeys s1)" by (auto dest: insert_key_Inr)
  then show ?thesis by (rule that) (simp_all add: new_key_def key_scope_def)
next
  case seen
  from seen(1) insert_key_Inr [of "tenant_ctx t" "new_key env e operator t st now" s False s]
  obtain k where k: "k \<in> set (takeoverKeys s)" "key_scope k = (t, st, ''pos_takeover'', e)"
    by (auto simp: key_scope_def new_key_def)
  with assms(1) have "find_key (tenant_ctx t) t st e s = Some k" by (simp add: find_key_scope takeover_scopes.lookup_key)
  with seen(3) have "tkyHash k = sha256 env operator" by (simp add: key_verdict_def split: if_splits)
  with k seen(2) show ?thesis by (intro that [of k]) simp_all
qed simp

lemma key_of_duplicate:
  assumes "upsertTakeoverIdempotencyKey env e operator t st now s = (Inr (Key_duplicate i), s1)"
  obtains k where "s1 = s" "k \<in> set (takeoverKeys s)" "key_scope k = (t, st, ''pos_takeover'', e)" "tkyHash k = sha256 env operator"
    "tkySession k = Some i"
  using assms
proof (cases rule: upsert_cases)
  case seen
  then obtain k where "find_key (tenant_ctx t) t st e s = Some k" "tkyHash k = sha256 env operator" "tkySession k = Some i"
    by (auto simp: key_verdict_def split: option.splits if_splits)
  with seen(2) show ?thesis by (intro that [of k]) (auto simp: find_key_scope dest: find_SomeD)
qed simp_all

text \<open>The key and the session a confirmation leaves.\<close>

lemma confirmed:
  assumes "access_ok s" and "takeoverConfirm env jwt b ids raw now s = (Inr (Signed_in op ss), s1)"
  obtains u d r k x where "takeover_checks env jwt (tvOperator b) (tvAttestation b) s1 = Inr (u, d, r)" "op = summary_of u d r"
    "k \<in> set (takeoverKeys s1)" "key_scope k = (devTenant d, devStore d, ''pos_takeover'', tvEvent b)"
    "tkyHash k = sha256 env (tvOperator b)" "tkySession k = Some (smId ss)"
    "x \<in> set (tokens s1)" "tokId x = smId ss" "tokIssued x = smIssued ss" "tokRevoked x = None"
  using assms(2)
proof (cases rule: takeover_cases)
  case (first u d r s0)
  from first(3) obtain x where x: "x \<in> set (tokens s0)" "op = summary_of u d r"
    "ss = \<lparr>smId = ids 0, smIssued = now, smEnvelope = Some raw\<rparr>" "s1 = after_takeover env (tvEvent b) d (usrId u) ids raw now (tokId x) s0"
    by (rule first_time_signed)
  from assms(1) first(2) obtain k where k: "k \<in> set (takeoverKeys s0)" "key_scope k = (devTenant d, devStore d, ''pos_takeover'', tvEvent b)"
    "tkyHash k = sha256 env (tvOperator b)" by (rule key_of_fresh)
  have at: "key_at (devTenant d) (devStore d) (tvEvent b) k" using k(2) by (simp add: key_at_def key_scope_def)
  let ?k = "k\<lparr>tkySession := Some (ids 0)\<rparr>"
  have "?k \<in> set (takeoverKeys s1)" using k(1) at by (auto simp: x(4) after_takeover_tokens set_update_where image_iff intro!: bexI [of _ k])
  moreover have "takeover_checks env jwt (tvOperator b) (tvAttestation b) s1 = Inr (u, d, r)"
    using first(1) upsert_fresh_tables [OF first(2)] checks_cong [of s1 s] by (simp add: x(4))
  moreover have "operator_token env (ids 0) raw now d (usrId u) \<in> set (tokens s1)" by (simp add: x(4) after_takeover_tokens)
  ultimately show ?thesis using k x(2,3)
    by (intro that [of u d r ?k "operator_token env (ids 0) raw now d (usrId u)"]) (simp_all add: key_scope_def)
next
  case (replay u d r i)
  from replay(2) obtain k where k: "s1 = s" "k \<in> set (takeoverKeys s)" "key_scope k = (devTenant d, devStore d, ''pos_takeover'', tvEvent b)"
    "tkyHash k = sha256 env (tvOperator b)" "tkySession k = Some i" by (rule key_of_duplicate)
  from replay(3) obtain x where x: "findOperatorSessionById i s1 = Some x" "tokRevoked x = None" "op = summary_of u d r"
    "ss = \<lparr>smId = tokId x, smIssued = tokIssued x, smEnvelope = None\<rparr>"
    by (auto simp: takeover_replay_def split: option.splits if_splits)
  from x(1) have "x \<in> set (tokens s1)" "tokId x = i" by (auto simp: findOperatorSessionById_def dest: find_SomeD)
  with k x replay(1) show ?thesis by (intro that [of u d r k x]) simp_all
qed

text \<open>
  C34: A confirmation that is repeated, with any valid identity token of the operator and as long as the
  session lives, answers the same session without its envelope and writes nothing. The event id is
  spent: another operator who uses it on this terminal is refused, and nothing is written either.
\<close>

theorem takeover_replayed:
  assumes "access_ok s" and "takeoverConfirm env jwt b ids raw now s = (Inr (Signed_in op ss), s1)"
    and "verify env jwt2 = verify env jwt" and "\<forall>x \<in> set (tokens s1). tokId x = smId ss \<longrightarrow> later < tokExpires x"
    and "tvEvent b3 = tvEvent b" and "tvAttestation b3 = tvAttestation b" and "sha256 env (tvOperator b3) \<noteq> sha256 env (tvOperator b)"
  shows "takeoverConfirm env jwt2 b ids2 raw2 later s1 = (Inr (Signed_in op (ss\<lparr>smEnvelope := None\<rparr>)), s1) \<and>
    (\<exists>r. takeoverConfirm env jwt3 b3 ids3 raw3 later s1 = (Inr (Sign_in_refused r), s1))"
proof
  have ok: "access_ok s1" using run_ok [OF takeover_moves [OF assms(2)] assms(1)] .
  from assms(1,2) obtain u d r k x where c: "takeover_checks env jwt (tvOperator b) (tvAttestation b) s1 = Inr (u, d, r)" "op = summary_of u d r"
    "k \<in> set (takeoverKeys s1)" "key_scope k = (devTenant d, devStore d, ''pos_takeover'', tvEvent b)"
    "tkyHash k = sha256 env (tvOperator b)" "tkySession k = Some (smId ss)"
    "x \<in> set (tokens s1)" "tokId x = smId ss" "tokIssued x = smIssued ss" "tokRevoked x = None" by (rule confirmed)
  have chk: "takeover_checks env jwt2 (tvOperator b) (tvAttestation b) s1 = Inr (u, d, r)"
    using c(1) assms(3) by (simp add: takeover_checks_def)
  have "findOperatorSessionById (smId ss) s1 = Some x"
    using token_ids.lookup_key [OF ok c(7,8)] by (simp add: findOperatorSessionById_def)
  moreover have "later < tokExpires x" using assms(4) c(7,8) by blast
  ultimately show "takeoverConfirm env jwt2 b ids2 raw2 later s1 = (Inr (Signed_in op (ss\<lparr>smEnvelope := None\<rparr>)), s1)"
    using chk upsert_seen [OF ok c(3,4), of env "tvOperator b" later] c(2,5,6,8,9,10)
    by (simp add: takeoverConfirm_def key_verdict_def takeover_replay_def)
  show "\<exists>r. takeoverConfirm env jwt3 b3 ids3 raw3 later s1 = (Inr (Sign_in_refused r), s1)"
  proof (cases "takeover_checks env jwt3 (tvOperator b3) (tvAttestation b3) s1")
    case (Inr w)
    obtain v e q where w: "w = (v, e, q)" by (cases w)
    have "e \<in> set (devices s1) \<and> devHash e = sha256 env (tvAttestation b3)"
      using Inr w unfolding takeover_checks_sign_in by (auto elim!: sign_in_checksD dest: device_operatorD)
    moreover have "d \<in> set (devices s1) \<and> devHash d = sha256 env (tvAttestation b)"
      using c(1) unfolding takeover_checks_sign_in by (auto elim!: sign_in_checksD dest: device_operatorD)
    ultimately have "e = d" using device_hashes.one_row [OF ok, of d e] assms(6) by simp
    with Inr w upsert_seen [OF ok c(3,4), of env "tvOperator b3" later] c(5) assms(5,7)
    show ?thesis by (simp add: takeoverConfirm_def key_verdict_def)
  qed (simp add: takeoverConfirm_def)
qed

lemma takeover_replayed_witness:
  "takeoverConfirm env0 ''jwt-bob'' confirm0 ids0 ''other'' 300 db2 =
     (Inr (Signed_in (summary_of bob till0 Role_admin) \<lparr>smId = 51, smIssued = 200, smEnvelope = None\<rparr>), db2)"
  using takeover_replayed [OF db1_ok bob_takes_over refl, of 300 "confirm0\<lparr>tvOperator := ''ann''\<rparr>" ids0 "''other''"]
  by (simp add: db2_tokens confirm0_def OPERATOR_SESSION_TTL_MS_def)

end
