(* ===== verification/AccessRules.thy ===== *)
theory AccessRules
  imports AccessTheorems
begin

text \<open>
  The sessions of a terminal when requests come one after the other and when they do not.
\<close>

section \<open>Sessions of a terminal\<close>

lemma length_filter_mono: "(\<And>x. x \<in> set xs \<Longrightarrow> p x \<Longrightarrow> q x) \<Longrightarrow> length (filter p xs) \<le> length (filter q xs)"
proof (induction xs)
  case (Cons x xs)
  then have "length (filter p xs) \<le> length (filter q xs)" by simp
  with Cons.prems [of x] show ?case by auto
qed simp

definition one_session :: "instant \<Rightarrow> auth_token list \<Rightarrow> bool" where
  "one_session now xs \<longleftrightarrow> (\<forall>d st. length (filter (session_of now d st) xs) \<le> 1)"

lemma one_session_later: "one_session now xs \<Longrightarrow> now \<le> later \<Longrightarrow> one_session later xs"
  unfolding one_session_def
proof (intro allI)
  fix d st
  assume a: "\<forall>d st. length (filter (session_of now d st) xs) \<le> 1" "now \<le> later"
  have "length (filter (session_of later d st) xs) \<le> length (filter (session_of now d st) xs)"
    by (rule length_filter_mono) (use a(2) in \<open>auto simp: session_of_def active_token_def\<close>)
  with a(1) show "length (filter (session_of later d st) xs) \<le> 1" using le_trans by blast
qed

lemma not_session_revoked [simp]: "\<not> session_of now d st (tokRevoked_update (\<lambda>_. Some r) x)"
  by (simp add: session_of_def active_token_def)

lemma one_session_revoke: "one_session now xs \<Longrightarrow> one_session now (update_where p (tokRevoked_update (\<lambda>_. Some r)) xs)"
  unfolding one_session_def
proof (intro allI)
  fix d st
  assume a: "\<forall>d st. length (filter (session_of now d st) xs) \<le> 1"
  have "length (filter (session_of now d st) (update_where p (tokRevoked_update (\<lambda>_. Some r)) xs)) \<le> length (filter (session_of now d st) xs)"
    by (simp add: filter_update_where_leave) (rule length_filter_mono, simp)
  with a show "length (filter (session_of now d st) (update_where p (tokRevoked_update (\<lambda>_. Some r)) xs)) \<le> 1" using le_trans by blast
qed

lemma one_session_issue:
  assumes "one_session now xs" and "\<forall>x \<in> set xs. \<not> session_of now (devId d) (devStore d) x"
  shows "one_session now (xs @ [operator_token env i raw now d u])"
  unfolding one_session_def
proof (intro allI)
  fix e st
  show "length (filter (session_of now e st) (xs @ [operator_token env i raw now d u])) \<le> 1"
  proof (cases "e = devId d \<and> st = devStore d")
    case True
    with assms(2) have "filter (session_of now e st) xs = []" by (simp add: filter_empty_conv)
    then show ?thesis by simp
  next
    case False
    then have "\<not> session_of now e st (operator_token env i raw now d u)" by (auto simp: session_of_def)
    with assms(1) show ?thesis by (simp add: one_session_def)
  qed
qed

lemma sign_in_tokens:
  "tokens (snd (signIn env jwt att i raw now s)) = tokens s \<or>
   (\<exists>u d. (\<forall>x \<in> set (tokens s). \<not> session_of now (devId d) (devStore d) x) \<and>
      tokens (snd (signIn env jwt att i raw now s)) = tokens s @ [operator_token env i raw now d u])"
proof (cases "sign_in_checks env jwt att s")
  case (Inr w)
  obtain u d r where w: "w = (u, d, r)" by (cases w)
  obtain a s' where iss: "issue_session env i raw now (u, d, r) s = (a, s')" by fastforce
  then have "tokens s' = tokens s \<or> tokens s' = tokens s @ [operator_token env i raw now d (usrId u)]"
    by (cases rule: issue_session_cases) auto
  with Inr w iss show ?thesis
    by (auto simp: signIn_def activeOperatorSessionExists_def list_ex_iff)
qed (simp add: signIn_def)

lemma sign_out_tokens:
  "\<exists>p. tokens (snd (signOut env jwt i now s)) = update_where p (tokRevoked_update (\<lambda>_. Some now)) (tokens s)"
proof -
  have "\<exists>p. tokens s = update_where p (tokRevoked_update (\<lambda>_. Some now)) (tokens s)"
    by (rule exI [of _ "\<lambda>_. False"]) (simp add: update_where_def)
  then show ?thesis
    by (auto simp: signOut_def markSessionRevoked_def Let_def split: option.split sum.split bool.split)
qed

lemma first_time_tokens:
  "tokens (snd (takeover_first_time env e (u, d, r) ids raw now s)) = update_where (session_of now (devId d) (devStore d)) (tokRevoked_update (\<lambda>_. Some now)) (tokens s) \<or>
   tokens (snd (takeover_first_time env e (u, d, r) ids raw now s)) =
     update_where (session_of now (devId d) (devStore d)) (tokRevoked_update (\<lambda>_. Some now)) (tokens s) @ [operator_token env (ids 0) raw now d (usrId u)]"
proof -
  let ?s1 = "s\<lparr>tokens := update_where (session_of now (devId d) (devStore d)) (tokRevoked_update (\<lambda>_. Some now)) (tokens s)\<rparr>"
  obtain a s2 where iss: "issue_session env (ids 0) raw now (u, d, r) ?s1 = (a, s2)" by fastforce
  then have "tokens s2 = tokens ?s1 \<or> tokens s2 = tokens ?s1 @ [operator_token env (ids 0) raw now d (usrId u)]"
    by (cases rule: issue_session_cases) auto
  with iss show ?thesis
    by (auto simp: takeover_first_time_def revokeActiveOperatorSession_def bind_key split: option.split sum.split)
qed

lemma takeover_tokens:
  "tokens (snd (takeoverConfirm env jwt b ids raw now s)) = tokens s \<or>
   (\<exists>u d r s1. tokens s1 = tokens s \<and> tokens (snd (takeoverConfirm env jwt b ids raw now s)) = tokens (snd (takeover_first_time env (tvEvent b) (u, d, r) ids raw now s1)))"
proof (cases "takeover_checks env jwt (tvOperator b) (tvAttestation b) s")
  case (Inr w)
  obtain u d r where w: "w = (u, d, r)" by (cases w)
  obtain k s1 where up: "upsertTakeoverIdempotencyKey env (tvEvent b) (tvOperator b) (devTenant d) (devStore d) now s = (k, s1)" by fastforce
  have "tokens s1 = tokens s" using upsert_tables [OF up] by simp
  with Inr w up show ?thesis
    by (auto simp: takeoverConfirm_def split: sum.split key_outcome.split)
qed (simp add: takeoverConfirm_def)

fun op_time :: "access_op \<Rightarrow> instant" where
  "op_time (Op_sign_in jwt att i raw now) = now"
| "op_time (Op_sign_out jwt i now) = now"
| "op_time (Op_takeover jwt b ids raw now) = now"

lemma one_session_step:
  assumes "one_session (op_time op) (tokens s)"
  shows "one_session (op_time op) (tokens (access_step env op s))"
proof (cases op)
  case (Op_sign_in jwt att i raw now)
  with assms sign_in_tokens [of env jwt att i raw now s] show ?thesis by (auto simp: one_session_issue)
next
  case (Op_sign_out jwt i now)
  from sign_out_tokens [of env jwt i now s] obtain p where
    "tokens (snd (signOut env jwt i now s)) = update_where p (tokRevoked_update (\<lambda>_. Some now)) (tokens s)" by blast
  with Op_sign_out assms show ?thesis by (simp add: one_session_revoke)
next
  case (Op_takeover jwt b ids raw now)
  have "one_session now (tokens (snd (takeover_first_time env e (u, d, r) ids raw now s1)))" if "tokens s1 = tokens s" for e u d r s1
  proof -
    let ?ts = "update_where (session_of now (devId d) (devStore d)) (tokRevoked_update (\<lambda>_. Some now)) (tokens s)"
    have "one_session now ?ts" using assms Op_takeover by (simp add: one_session_revoke)
    moreover have "\<forall>x \<in> set ?ts. \<not> session_of now (devId d) (devStore d) x" by (auto simp: set_update_where)
    ultimately show ?thesis using first_time_tokens [of env e u d r ids raw now s1] that by (auto simp: one_session_issue)
  qed
  with Op_takeover assms takeover_tokens [of env jwt b ids raw now s] show ?thesis by auto
qed

text \<open>Requests one after the other, with changes of the directory between them.\<close>

inductive serial_access :: "pos_env \<Rightarrow> instant \<Rightarrow> access_db \<Rightarrow> instant \<Rightarrow> access_db \<Rightarrow> bool" for env now s where
  sa_start: "serial_access env now s now s"
| sa_op: "serial_access env now s t1 s1 \<Longrightarrow> t1 \<le> op_time op \<Longrightarrow> serial_access env now s (op_time op) (access_step env op s1)"
| sa_directory: "serial_access env now s t1 s1 \<Longrightarrow> tokens s2 = tokens s1 \<Longrightarrow> serial_access env now s t1 s2"

text \<open>
  C35: As long as requests do not overlap, no terminal ever has two active sessions, whatever the requests
  are and whatever changes in the directory between them.
\<close>

theorem one_session_per_terminal:
  assumes "\<forall>d st. length (filter (session_of now d st) (tokens s)) \<le> 1" and "serial_access env now s now' s'"
  shows "length (filter (session_of now' d st) (tokens s')) \<le> 1"
proof -
  have "one_session now' (tokens s')"
    using assms(2)
  proof (induction rule: serial_access.induct)
    case sa_start
    from assms(1) show ?case by (simp add: one_session_def)
  next
    case (sa_op t1 s1 op)
    from one_session_later [OF sa_op.IH sa_op.hyps(2)] show ?case by (rule one_session_step)
  next
    case (sa_directory t1 s1 s2)
    then show ?case by simp
  qed
  then show ?thesis by (simp add: one_session_def)
qed

lemma one_session_per_terminal_witness:
  "length (filter (session_of 200 40 20) (tokens db2)) \<le> 1"
proof -
  have "serial_access env0 100 db1 200 (access_step env0 (Op_takeover ''jwt-bob'' confirm0 ids0 ''raw-bob'' 200) db1)"
    using sa_op [OF sa_start, of 100 "Op_takeover ''jwt-bob'' confirm0 ids0 ''raw-bob'' 200"] by simp
  from one_session_per_terminal [OF _ this] show ?thesis by (simp add: db2_def db1_is)
qed

text \<open>
  Two sign-ins that both look before either writes are both answered with a session: the terminal then
  has two, and both envelopes open the gate of the sale routes.
\<close>

lemma concurrent_sign_ins:
  assumes "access_ok s" and "sign_in_checks env jwt1 att s = Inr (u1, d, r1)" and "sign_in_checks env jwt2 att s = Inr (u2, d, r2)"
    and "\<not> activeOperatorSessionExists now (devId d) (devStore d) s"
    and "issue_session env i1 raw1 now (u1, d, r1) s = (Inr a1, s1)" and "issue_session env i2 raw2 now (u2, d, r2) s1 = (Inr a2, s2)"
    and "readSessionCookie q1 = None" and "readBearerToken q1 = Some raw1" and "readSessionCookie q2 = None" and "readBearerToken q2 = Some raw2"
  shows "filter (session_of now (devId d) (devStore d)) (tokens s2) =
      [operator_token env i1 raw1 now d (usrId u1), operator_token env i2 raw2 now d (usrId u2)] \<and>
    map_sum id snd (sale_gate env uuid_in now q1 s2) = Inr (operator_context (usrId u1) d) \<and>
    map_sum id snd (sale_gate env uuid_in now q2 s2) = Inr (operator_context (usrId u2) d)"
proof -
  let ?x1 = "operator_token env i1 raw1 now d (usrId u1)" and ?x2 = "operator_token env i2 raw2 now d (usrId u2)"
  from assms(5) have s1: "s1 = s\<lparr>tokens := tokens s @ [?x1]\<rparr>" by (cases rule: issue_session_cases) auto
  from assms(6) have s2: "s2 = s1\<lparr>tokens := tokens s1 @ [?x2]\<rparr>" by (cases rule: issue_session_cases) auto
  from assms(2) have d1: "device_operator env u1 att s = Inr (u1, d, r1)" by (rule sign_in_checksD)
  from assms(3) have d2: "device_operator env u2 att s = Inr (u2, d, r2)" by (rule sign_in_checksD)
  from device_operatorD [OF d1] have dev: "d \<in> set (devices s)" "devRevoked d = None" "eligible s (devTenant d) (devStore d) (usrId u1)"
    by (auto dest: signed_in_is_eligible)
  from device_operatorD [OF d2] have dev2: "eligible s (devTenant d) (devStore d) (usrId u2)" by (auto dest: signed_in_is_eligible)
  have ok: "access_ok s2"
    using run_ok [OF issue_moves [OF assms(6)] run_ok [OF issue_moves [OF assms(5)] assms(1)]] dev(1) by (simp add: s1)
  have el: "eligible s2 t st u = eligible s t st u" for t st u
    by (simp add: s1 s2 may_operate_def with_role_def storeIsInAccessSet_def)
  have dev3: "d \<in> set (devices s2)" using dev(1) by (simp add: s1 s2)
  have gate: "sale_gate env uuid_in now q s2 = Inr (principalFromToken x, operator_context v d)"
    if "x \<in> set (tokens s2)" "tokHash x = sha256 env raw" "tokScope x = Pos_operator" "active_token now x" "tokUser x = Some v"
      "tokDevice x = Some (devId d)" "eligible s (devTenant d) (devStore d) v" "readSessionCookie q = None" "readBearerToken q = Some raw" for x v q raw
    using auth_of_bearer [OF ok that(8,9,1,2)] gate_of_token [OF ok that(1,3,5) dev3 that(6)] that(3,4,7) dev(2)
    by (simp add: sale_gate_def after_auth_def BEARER_AUTH_SCOPES_def el)
  have "filter (session_of now (devId d) (devStore d)) (tokens s) = []"
    using assms(4) by (simp add: activeOperatorSessionExists_def list_ex_iff filter_empty_conv)
  moreover have "active_token now ?x1" "active_token now ?x2" by (simp_all add: active_token_def OPERATOR_SESSION_TTL_MS_def)
  ultimately show ?thesis
    using gate [of ?x1 raw1 "usrId u1" q1] gate [of ?x2 raw2 "usrId u2" q2] dev(3) dev2 assms(7-10)
    by (simp add: s1 s2 session_of_def)
qed

lemma concurrent_sign_ins_witness:
  "length (filter (session_of 100 40 20)
     (tokens (snd (issue_session env0 51 ''raw-bob'' 100 (bob, till0, Role_admin) db1)))) = 2"
proof -
  have ann: "sign_in_checks env0 ''jwt-ann'' ''till'' db0 = Inr (ann, till0, Role_manager)" by code_simp
  have bob: "sign_in_checks env0 ''jwt-bob'' ''till'' db0 = Inr (bob, till0, Role_admin)" by code_simp
  have first: "issue_session env0 50 ''raw-ann'' 100 (ann, till0, Role_manager) db0 =
    (Inr (Signed_in (summary_of ann till0 Role_manager) \<lparr>smId = 50, smIssued = 100, smEnvelope = Some ''raw-ann''\<rparr>), db1)"
    unfolding db1_is by code_simp
  have second: "issue_session env0 51 ''raw-bob'' 100 (bob, till0, Role_admin) db1 =
    (Inr (Signed_in (summary_of bob till0 Role_admin) \<lparr>smId = 51, smIssued = 100, smEnvelope = Some ''raw-bob''\<rparr>),
     snd (issue_session env0 51 ''raw-bob'' 100 (bob, till0, Role_admin) db1))"
    unfolding prod_eq_iff db1_is by simp code_simp
  have "\<not> activeOperatorSessionExists 100 (devId till0) (devStore till0) db0" by code_simp
  from concurrent_sign_ins [OF db0_ok ann bob this first second, of "bearer ''raw-ann''" "bearer ''raw-bob''"]
  show ?thesis by (simp add: till0_def)
qed

end
