(* ===== verification/ContextTheorems.thy ===== *)
theory ContextTheorems
  imports AccessRules
begin

text \<open>
  The answers to refused requests, the tenant, store and role of a dashboard request, and two cases the
  checks of the sign-in and of the sale gate treat differently.
\<close>

section \<open>Refusals\<close>

lemma update_where_absent: "\<not> list_ex p xs \<Longrightarrow> update_where p f xs = xs"
  by (rule update_where_none) (simp add: list_ex_iff)

lemma sign_in_unsigned:
  assumes "signIn env jwt att i raw now s = (a, s')"
  shows "s' = s \<or> (\<exists>op ss. a = Inr (Signed_in op ss))"
proof (cases "sign_in_checks env jwt att s")
  case (Inr w)
  obtain u d r where w: "w = (u, d, r)" by (cases w)
  obtain b s2 where iss: "issue_session env i raw now (u, d, r) s = (b, s2)" by fastforce
  then have "s2 = s \<or> (\<exists>op ss. b = Inr (Signed_in op ss))" by (cases rule: issue_session_cases) auto
  with assms Inr w iss show ?thesis by (auto simp: signIn_def split: if_splits)
qed (use assms in \<open>simp add: signIn_def\<close>)

lemma sign_out_refused:
  assumes "signOut env jwt i now s = (Sign_out_refused r, s')"
  shows "s' = s"
  using assms
  by (auto simp: signOut_def markSessionRevoked_def Let_def update_where_absent
      split: option.splits sum.splits if_splits bool.splits)

lemma takeover_refused:
  assumes "takeoverConfirm env jwt b ids raw now s = (Inr (Sign_in_refused r), s')"
  shows "tokens s' = tokens s"
proof (cases "takeover_checks env jwt (tvOperator b) (tvAttestation b) s")
  case (Inr w)
  obtain u d q where w: "w = (u, d, q)" by (cases w)
  obtain k s1 where up: "upsertTakeoverIdempotencyKey env (tvEvent b) (tvOperator b) (devTenant d) (devStore d) now s = (k, s1)" by fastforce
  have "tokens s' = tokens s1" if "takeover_first_time env e (u, d, q) ids raw now s1 = (Inr (Sign_in_refused r), s')" for e
  proof -
    from that have "find (session_of now (devId d) (devStore d)) (tokens s1) = None"
      by (auto simp: takeover_first_time_def revokeActiveOperatorSession_def bind_key issue_session_def
          split: option.splits sum.splits prod.splits)
    with that show ?thesis
      by (auto simp: takeover_first_time_def revokeActiveOperatorSession_def update_where_no_match)
  qed
  with assms Inr w up upsert_tables [OF up] show ?thesis
    by (auto simp: takeoverConfirm_def split: sum.splits key_outcome.splits)
qed (use assms in \<open>simp add: takeoverConfirm_def\<close>)

abbreviation "refusal_answer \<equiv> Response_error 401 ''unauthorized''"

lemma read_route_answers: "read_route authz f = refusal_answer \<or> (\<exists>k. read_route authz f = Response_ok 200 k)"
proof (cases "extractBearer authz")
  case (Some jwt)
  then show ?thesis by (cases "f jwt") (simp_all add: read_route_def statusToCode_def)
qed (simp add: read_route_def statusToCode_def)

text \<open>
  C36: Whatever the reason of a refusal, the caller of any of the five routes sees one answer, and the tables
  are as they were; a confirmation may have left its key. The other answers of a valid request are a
  success and, when a statement fails, 500.
\<close>

theorem refusals_uniform:
  assumes "PosOperatorSignInSchema b" and "PosTakeoverConfirmSchema v" and "operator \<noteq> []"
  shows "(case signIn_route env authz b i raw now s of (x, s') \<Rightarrow>
      x = refusal_answer \<and> s' = s \<or> x = Response_error 500 ''internal_error'' \<and> s' = s \<or>
      (\<exists>a. x = Response_ok 200 a \<and> (\<forall>r. a \<noteq> Sign_in_refused r) \<and> (a = Takeover_required \<longrightarrow> s' = s))) \<and>
    (case signOut_route env authz i now s of (x, s') \<Rightarrow> x = refusal_answer \<and> s' = s \<or> x = Response_ok 200 Signed_out) \<and>
    (case takeoverConfirm_route env authz v ids raw now s of (x, s') \<Rightarrow>
      x = refusal_answer \<and> tokens s' = tokens s \<or> x = Response_error 500 ''internal_error'' \<or>
      (\<exists>a. x = Response_ok 200 a \<and> (\<forall>r. a \<noteq> Sign_in_refused r))) \<and>
    (roster_route env collation authz branch s = refusal_answer \<or> (\<exists>cs. roster_route env collation authz branch s = Response_ok 200 cs)) \<and>
    (activeSession_route env authz st operator now s = refusal_answer \<or> (\<exists>k. activeSession_route env authz st operator now s = Response_ok 200 k))"
proof (intro conjI)
  show "case signIn_route env authz b i raw now s of (x, s') \<Rightarrow>
      x = refusal_answer \<and> s' = s \<or> x = Response_error 500 ''internal_error'' \<and> s' = s \<or>
      (\<exists>a. x = Response_ok 200 a \<and> (\<forall>r. a \<noteq> Sign_in_refused r) \<and> (a = Takeover_required \<longrightarrow> s' = s))"
  proof (cases "extractBearer authz")
    case (Some jwt)
    obtain a s' where r: "signIn env jwt (sbAttestation b) i raw now s = (a, s')" by fastforce
    with sign_in_unsigned [OF r] assms(1) Some show ?thesis
      by (cases a; cases "projr a") (auto simp: signIn_route_def pos_answer_def statusToCode_def)
  qed (use assms(1) in \<open>simp add: signIn_route_def statusToCode_def\<close>)
  show "case signOut_route env authz i now s of (x, s') \<Rightarrow> x = refusal_answer \<and> s' = s \<or> x = Response_ok 200 Signed_out"
  proof (cases "extractBearer authz")
    case (Some jwt)
    obtain a s' where r: "signOut env jwt i now s = (a, s')" by fastforce
    with sign_out_refused [of env jwt i now s] Some show ?thesis
      by (cases a) (auto simp: signOut_route_def statusToCode_def)
  qed (simp add: signOut_route_def statusToCode_def)
  show "case takeoverConfirm_route env authz v ids raw now s of (x, s') \<Rightarrow>
      x = refusal_answer \<and> tokens s' = tokens s \<or> x = Response_error 500 ''internal_error'' \<or>
      (\<exists>a. x = Response_ok 200 a \<and> (\<forall>r. a \<noteq> Sign_in_refused r))"
  proof (cases "extractBearer authz")
    case (Some jwt)
    obtain a s' where r: "takeoverConfirm env jwt v ids raw now s = (a, s')" by fastforce
    then have kept: "a = Inr (Sign_in_refused x) \<Longrightarrow> tokens s' = tokens s" for x using takeover_refused by blast
    have route: "takeoverConfirm_route env authz v ids raw now s = pos_answer (a, s')"
      using r assms(2) Some by (simp add: takeoverConfirm_route_def)
    show ?thesis
    proof (cases a)
      case (Inr x)
      with kept route show ?thesis by (cases x) (simp_all add: pos_answer_def statusToCode_def)
    qed (simp add: route pos_answer_def)
  qed (use assms(2) in \<open>simp add: takeoverConfirm_route_def statusToCode_def\<close>)
  show "roster_route env collation authz branch s = refusal_answer \<or> (\<exists>cs. roster_route env collation authz branch s = Response_ok 200 cs)"
    unfolding roster_route_def by (rule read_route_answers)
  show "activeSession_route env authz st operator now s = refusal_answer \<or> (\<exists>k. activeSession_route env authz st operator now s = Response_ok 200 k)"
    unfolding activeSession_route_def using assms(3) read_route_answers [of authz "\<lambda>jwt. activeSession env jwt st operator now s"] by simp
qed

lemma refusals_uniform_witness:
  "signIn_route env0 (Some ''Bearer jwt-ann'') \<lparr>sbKind = ''manager_admin'', sbAttestation = ''no''\<rparr> 50 ''raw'' 100 db0 = (refusal_answer, db0)"
proof -
  let ?b = "\<lparr>sbKind = ''manager_admin'', sbAttestation = ''no''\<rparr>"
  have "fst (signIn_route env0 (Some ''Bearer jwt-ann'') ?b 50 ''raw'' 100 db0) = refusal_answer" by code_simp
  with refusals_uniform [where b = ?b and v = confirm0 and operator = "''bob''" and env = env0 and authz = "Some ''Bearer jwt-ann''"
      and i = 50 and raw = "''raw''" and now = 100 and s = db0]
  show ?thesis
    by (cases "signIn_route env0 (Some ''Bearer jwt-ann'') ?b 50 ''raw'' 100 db0")
       (auto simp: PosOperatorSignInSchema_def PosTakeoverConfirmSchema_def confirm0_def)
qed

section \<open>Two cases\<close>

text \<open>
  A member who was removed and added again has a deleted membership beside the live one. The sign-in
  reads whichever comes first: when it is the deleted one, the member is refused, although the gate's
  lookup, which orders the rows, finds the live one.
\<close>

lemma readded_operator_locked_out:
  assumes "access_ok s" and "verify env jwt = Some sub" and "findUserByClerkSubject sub s = Some u" and "usrDeleted u = None"
    and "findActiveByAttestation (sha256 env) att s = Some d"
    and "findActiveMembership (devTenant d) (usrId u) s = Some (m, code)" and "memDeleted m \<noteq> None"
    and "eligible s (devTenant d) (devStore d) (usrId u)" and "findUserByExternalIdentity CLERK_PROVIDER_KEY sub s = Some u"
  shows "signIn env jwt att i raw now s = (Inr (Sign_in_refused Membership_revoked), s) \<and>
    resolve env jwt att s = Inr (operator_context (usrId u) d, devId d)"
proof -
  have "sign_in_checks env jwt att s = Inl Membership_revoked"
    using assms(2-7) by (simp add: sign_in_checks_def resolve_user_def device_operator_def operator_eligibility_def)
  moreover have "resolver_eligibility (devTenant d) (devStore d) (usrId u) s = None"
    using eligibility_live [OF access_ok_directory [OF assms(1)]] assms(8) by blast
  ultimately show ?thesis using assms(2,4,5,9) by (simp add: signIn_def resolve_def)
qed

lemma readded_operator_locked_out_witness:
  "fst (signIn env0 ''jwt-ann'' ''till'' 50 ''raw-ann'' 100
     (db0\<lparr>memberships := (member 30 1 10)\<lparr>memDeleted := Some 5\<rparr> # memberships db0\<rparr>)) = Inr (Sign_in_refused Membership_revoked)"
proof -
  let ?s = "db0\<lparr>memberships := (member 30 1 10)\<lparr>memDeleted := Some 5\<rparr> # memberships db0\<rparr>"
  have ok: "access_ok ?s" by code_simp
  have rows: "findUserByClerkSubject ''ann'' ?s = Some ann" "findActiveByAttestation (sha256 env0) ''till'' ?s = Some till0"
    "findActiveMembership (devTenant till0) (usrId ann) ?s = Some ((member 30 1 10)\<lparr>memDeleted := Some 5\<rparr>, ''store_manager'')"
    "findUserByExternalIdentity CLERK_PROVIDER_KEY ''ann'' ?s = Some ann"
    by code_simp+
  have "may_operate ?s (devTenant till0) (devStore till0) (usrId ann) (member 31 1 10) ''store_manager''" by code_simp
  then have el: "eligible ?s (devTenant till0) (devStore till0) (usrId ann)" by blast
  show ?thesis using readded_operator_locked_out [OF ok _ rows(1) _ rows(2,3) _ el rows(4), of "''jwt-ann''"] by (simp add: ann_def)
qed

text \<open>
  A user who is deleted while a session runs can no longer sign in, and the gate by identity token
  refuses; the envelope still opens the gate of the sale routes.
\<close>

lemma deleted_operator_still_sells:
  assumes "access_ok s" and "x \<in> set (tokens s)" and "tokScope x = Pos_operator" and "active_token now x"
    and "tokUser x = Some (usrId u)" and "d \<in> set (devices s)" and "tokDevice x = Some (devId d)" and "devRevoked d = None"
    and "eligible s (devTenant d) (devStore d) (usrId u)" and "tokHash x = sha256 env raw"
    and "readSessionCookie req = None" and "readBearerToken req = Some raw"
    and "verify env jwt = Some sub" and "findUserByClerkSubject sub s = Some u"
    and "findUserByExternalIdentity CLERK_PROVIDER_KEY sub s = Some u" and "usrDeleted u \<noteq> None"
  shows "sale_gate env uuid_in now req s = Inr (principalFromToken x, operator_context (usrId u) d) \<and>
    signIn env jwt att i raw2 later s = (Inr (Sign_in_refused User_disabled), s) \<and> resolve env jwt att s = Inl User_disabled"
proof -
  have "AuthGuard env uuid_in now req s = Inr (principalFromToken x)"
    using auth_of_bearer [OF assms(1,11,12,2,10)] assms(3,4) by (simp add: BEARER_AUTH_SCOPES_def)
  then have "sale_gate env uuid_in now req s = Inr (principalFromToken x, operator_context (usrId u) d)"
    using gate_of_token [OF assms(1-3,5-7)] assms(8,9) by (simp add: sale_gate_def after_auth_def)
  with assms(13-16) show ?thesis by (simp add: signIn_def sign_in_checks_def resolve_user_def resolve_def)
qed

lemma deleted_operator_still_sells_witness:
  "sale_gate env0 uuid_in0 150 (bearer ''raw-ann'') (db1\<lparr>users := [ann\<lparr>usrDeleted := Some 120\<rparr>, bob]\<rparr>) =
     Inr (By_token 50 (Some 7) (Some 1) (Some 20) Pos_operator, operator_context 1 till0)"
proof -
  let ?s = "db1\<lparr>users := [ann\<lparr>usrDeleted := Some 120\<rparr>, bob]\<rparr>" and ?u = "ann\<lparr>usrDeleted := Some 120\<rparr>"
    and ?x = "operator_token env0 50 ''raw-ann'' 100 till0 1"
  have ok: "access_ok ?s" unfolding db1_is by code_simp
  have rows: "findUserByClerkSubject ''ann'' ?s = Some ?u" "findUserByExternalIdentity CLERK_PROVIDER_KEY ''ann'' ?s = Some ?u"
    unfolding db1_is by code_simp+
  have "may_operate ?s (devTenant till0) (devStore till0) (usrId ?u) (member 31 1 10) ''store_manager''" unfolding db1_is by code_simp
  then have el: "eligible ?s (devTenant till0) (devStore till0) (usrId ?u)" by blast
  have "sale_gate env0 uuid_in0 150 (bearer ''raw-ann'') ?s = Inr (principalFromToken ?x, operator_context (usrId ?u) till0)"
    using deleted_operator_still_sells [OF ok _ _ _ _ _ _ _ el, of ?x 150 env0 "''raw-ann''" "bearer ''raw-ann''" "''jwt-ann''" "''ann''"] rows
    by (simp add: db1_is db0_def till0_def active_token_def OPERATOR_SESSION_TTL_MS_def ann_def)
  then show ?thesis by (simp add: principalFromToken_def till0_def ann_def)
qed

text \<open>
  Linking an identity that already has a link reports success and leaves the link with its first user.
\<close>

lemma relink_keeps_user:
  assumes "linkExternalIdentity x s = (Inr i, s')" and "l \<in> set (identityLinks s)"
    and "lnkProvider l = lnkProvider x" and "lnkIssuer l = lnkIssuer x" and "lnkSubject l = lnkSubject x"
  shows "map (\<lambda>l. (lnkId l, lnkUser l)) (identityLinks s') = map (\<lambda>l. (lnkId l, lnkUser l)) (identityLinks s)"
proof -
  let ?same = "\<lambda>l. lnkProvider l = lnkProvider x \<and> lnkIssuer l = lnkIssuer x \<and> lnkSubject l = lnkSubject x"
  obtain k where "find ?same (identityLinks s) = Some k"
    using assms(2-5) by (cases "find ?same (identityLinks s)") (auto dest: find_NoneD)
  with assms(1) have "s' = s\<lparr>identityLinks := update_where ?same (\<lambda>l. l\<lparr>lnkEmail := lnkEmail x, lnkActive := True\<rparr>) (identityLinks s)\<rparr>"
    by (auto simp: linkExternalIdentity_def Let_def split: if_splits)
  then show ?thesis by (simp add: map_update_where)
qed

section \<open>Tenant, store and role of a dashboard request\<close>

text \<open>\<open>@UseGuards(AuthGuard, TenantContextGuard, RolesGuard)\<close>.\<close>

definition guard_chain ::
    "pos_env \<Rightarrow> (string \<Rightarrow> uuid option) \<Rightarrow> roles_metadata \<Rightarrow> instant \<Rightarrow> auth_request \<Rightarrow> access_db \<Rightarrow> thrown + (principal \<times> resolved_context)" where
  "guard_chain env uuid_in md now req s =
     after_auth (\<lambda>p. case TenantContextGuard now s p of
                       Inl e \<Rightarrow> Inl e
                     | Inr c \<Rightarrow> (case RolesGuard (Some md) (Some p) (Some c) [] s of Inl e \<Rightarrow> Inl e | Inr _ \<Rightarrow> Inr (p, c)))
       (AuthGuard env uuid_in now req s)"

text \<open>A member of a tenant with a role, who may go to a store if one is named.\<close>

definition member_reaches :: "access_db \<Rightarrow> uuid \<Rightarrow> uuid \<Rightarrow> uuid option \<Rightarrow> string \<Rightarrow> bool" where
  "member_reaches s u t st code \<longleftrightarrow>
     (\<exists>m. (m, code) \<in> set (with_role (memberships s) s) \<and> memUser m = u \<and> memTenant m = t \<and> live_membership m \<and>
        (case st of None \<Rightarrow> True | Some b \<Rightarrow> canAccessStore (memId m) t b (memKind m) s))"

lemma role_found: "findRoleCodeForUserInTenant u t s = Some c \<Longrightarrow>
  \<exists>m. (m, c) \<in> set (with_role (memberships s) s) \<and> memUser m = u \<and> memTenant m = t \<and> live_membership m"
  by (auto simp: findRoleCodeForUserInTenant_def dest!: first_row_SomeD) (auto simp: with_role_filter)

lemma session_row:
  "access_ok s \<Longrightarrow> session_findActiveById now i s = Some x \<longleftrightarrow> x \<in> set (dashSessions s) \<and> sesId x = i \<and> sesRevoked x = None \<and> now < sesExpires x"
  by (simp add: session_findActiveById_def session_ids.key_lookup)

text \<open>
  C37: A dashboard session passes the guards of a route for certain roles exactly if it has an active tenant
  and its user is a member of that tenant with one of the roles, who may go to the active store if there
  is one. A platform admin needs no membership, but the store must be one of the tenant.
\<close>

theorem role_gate_exact:
  assumes "access_ok s" and "AuthGuard env uuid_in now req s = Inr (By_session i u)"
  shows "guard_chain env uuid_in (Roles_meta codes deny) now req s = Inr (p, c) \<longleftrightarrow>
    (\<exists>x t. x \<in> set (dashSessions s) \<and> sesId x = i \<and> sesRevoked x = None \<and> now < sesExpires x \<and> sesTenant x = Some t \<and>
       (if isPlatformAdmin u s then \<forall>b. sesStore x = Some b \<longrightarrow> canAccessStore NIL_TENANT_ID t b Access_all s
        else \<exists>code \<in> set codes. member_reaches s u t (sesStore x) code) \<and>
       p = By_session i u \<and>
       c = \<lparr>rcUser = Some u, rcTenant = Some t, rcStore = sesStore x, rcPlatformAdmin = isPlatformAdmin u s\<rparr>)"
    (is "?chain \<longleftrightarrow> ?spec")
proof
  assume ?chain
  with assms(2) have r: "resolveSession now i u s = Inr c" "RolesGuard (Some (Roles_meta codes deny)) (Some (By_session i u)) (Some c) [] s = Inr ()"
    "p = By_session i u"
    by (auto simp: guard_chain_def after_auth_def TenantContextGuard_def split: sum.splits)
  from r(1) obtain x t where x: "session_findActiveById now i s = Some x" "sesTenant x = Some t" "reach u t (sesStore x) s = Inr ()"
    "c = \<lparr>rcUser = Some u, rcTenant = Some t, rcStore = sesStore x, rcPlatformAdmin = isPlatformAdmin u s\<rparr>"
    by (auto simp: resolveSession_def split: option.splits sum.splits)
  have "if isPlatformAdmin u s then \<forall>b. sesStore x = Some b \<longrightarrow> canAccessStore NIL_TENANT_ID t b Access_all s
        else \<exists>code \<in> set codes. member_reaches s u t (sesStore x) code"
  proof (cases "isPlatformAdmin u s")
    case True
    with x(3) show ?thesis by (auto simp: reach_def split: option.splits if_splits)
  next
    case False
    with r(2) x(4) obtain code where code: "findRoleCodeForUserInTenant u t s = Some code" "code \<in> set codes"
      by (auto simp: RolesGuard_def Roles_meta_def guard_isPlatformAdmin_def principal_user_def resolveTenantId_def
          split: option.splits if_splits)
    from role_found [OF code(1)] obtain m where m: "(m, code) \<in> set (with_role (memberships s) s)" "memUser m = u" "memTenant m = t"
      "live_membership m" by blast
    with False x(3) membership_row(1) [OF access_ok_directory [OF assms(1)] m] code(2) show ?thesis
      by (auto simp: reach_def member_reaches_def split: option.splits if_splits intro!: bexI [of _ code] exI [of _ m])
  qed
  with x(1,2,4) r(3) assms(1) show ?spec by (auto simp: session_row)
next
  assume ?spec
  then obtain x t where x: "session_findActiveById now i s = Some x" "sesTenant x = Some t" "p = By_session i u"
    "c = \<lparr>rcUser = Some u, rcTenant = Some t, rcStore = sesStore x, rcPlatformAdmin = isPlatformAdmin u s\<rparr>"
    "if isPlatformAdmin u s then \<forall>b. sesStore x = Some b \<longrightarrow> canAccessStore NIL_TENANT_ID t b Access_all s
        else \<exists>code \<in> set codes. member_reaches s u t (sesStore x) code"
    using assms(1) by (auto simp: session_row)
  show ?chain
  proof (cases "isPlatformAdmin u s")
    case True
    with x(5) have "reach u t (sesStore x) s = Inr ()" by (auto simp: reach_def split: option.splits)
    with x True assms(2) show ?thesis
      by (simp add: guard_chain_def after_auth_def TenantContextGuard_def resolveSession_def RolesGuard_def Roles_meta_def guard_isPlatformAdmin_def)
  next
    case False
    with x(5) obtain code m where m: "code \<in> set codes" "(m, code) \<in> set (with_role (memberships s) s)" "memUser m = u" "memTenant m = t"
      "live_membership m" "case sesStore x of None \<Rightarrow> True | Some b \<Rightarrow> canAccessStore (memId m) t b (memKind m) s"
      by (auto simp: member_reaches_def)
    note rows = membership_row [OF access_ok_directory [OF assms(1)] m(2-5)]
    have "reach u t (sesStore x) s = Inr ()" using False rows(1) m(6) by (auto simp: reach_def split: option.splits)
    with x False assms(2) rows(2) m(1) show ?thesis
      by (simp add: guard_chain_def after_auth_def TenantContextGuard_def resolveSession_def RolesGuard_def Roles_meta_def
          guard_isPlatformAdmin_def principal_user_def resolveTenantId_def)
  qed
qed

lemma role_gate_exact_witness:
  "\<exists>x t. x \<in> set (dashSessions db0) \<and> sesTenant x = Some t \<and> member_reaches db0 2 t (sesStore x) ''owner''"
proof -
  have auth: "AuthGuard env0 uuid_in0 100 cookie db0 = Inr (By_session 60 2)" by code_simp
  have "guard_chain env0 uuid_in0 (Roles_meta [''owner''] None) 100 cookie db0 =
    Inr (By_session 60 2, \<lparr>rcUser = Some 2, rcTenant = Some 7, rcStore = None, rcPlatformAdmin = False\<rparr>)" by code_simp
  moreover have "\<not> isPlatformAdmin 2 db0" by code_simp
  ultimately show ?thesis using role_gate_exact [OF db0_ok auth, of "[''owner'']" None] by auto
qed

section \<open>Switching\<close>

lemma buildResponse_Inr: "buildResponse u t st s = Inr b \<Longrightarrow> \<exists>x. findUserSummary u s = Some x"
  by (auto simp: buildResponse_def split: option.splits)

lemma switched:
  assumes "access_ok s" and "session_findActiveById now i s = Some x" and "switch_session i u t st s = (Inr b, s')"
  shows "session_findActiveById now i s' = Some (x\<lparr>sesTenant := t, sesStore := st\<rparr>)" "access_ok s'"
    "users s' = users s" "memberships s' = memberships s" "stores s' = stores s" "grants s' = grants s"
proof -
  let ?p = "\<lambda>x. sesId x = i \<and> sesRevoked x = None" and ?f = "\<lambda>x. x\<lparr>sesTenant := t, sesStore := st\<rparr>"
  from assms(3) have s': "s' = s\<lparr>dashSessions := update_where ?p ?f (dashSessions s)\<rparr>"
    by (auto simp: switch_session_def updateActiveContext_def Let_def split: option.splits sum.splits prod.splits)
  have row: "x \<in> set (dashSessions s)" "sesId x = i" "sesRevoked x = None" "now < sesExpires x"
    using assms(1,2) by (simp_all add: session_row)
  show ok: "access_ok s'" using assms(1) by (simp add: s' access_ok_def directory_ok_def map_update_where)
  have "?f x \<in> set (dashSessions s')" using row by (auto simp: s' set_update_where image_iff intro!: bexI [of _ x])
  with row show "session_findActiveById now i s' = Some (?f x)" by (simp add: session_row [OF ok])
qed (use assms(3) in \<open>auto simp: switch_session_def updateActiveContext_def Let_def split: option.splits sum.splits prod.splits\<close>)

lemma reach_cong:
  assumes "users s' = users s" "memberships s' = memberships s" "stores s' = stores s" "grants s' = grants s"
  shows "reach u t st s' = reach u t st s \<and> isPlatformAdmin u s' = isPlatformAdmin u s"
  unfolding reach_def isPlatformAdmin_def repo_findActiveMembership_def canAccessStore_def assms by (intro conjI refl)

lemma switch_then_guard:
  assumes "access_ok s" and "session_findActiveById now i s = Some x" and "switch_session i u (Some t) st s = (Inr b, s')"
    and "reach u t st s = Inr ()"
  shows "TenantContextGuard now s' (By_session i u) =
    Inr \<lparr>rcUser = Some u, rcTenant = Some t, rcStore = st, rcPlatformAdmin = isPlatformAdmin u s\<rparr>"
  using switched [OF assms(1-3)] assms(4) reach_cong [of s' s u t st]
  by (simp add: TenantContextGuard_def resolveSession_def)

lemma live_session: "AuthGuard env uuid_in now req s = Inr (By_session i u) \<Longrightarrow> \<exists>x. session_findActiveById now i s = Some x"
  by (auto simp: AuthGuard_def principalFromSession_def principalFromToken_def session_findActiveById_def
      split: option.splits if_splits dest: find_SomeD)

text \<open>
  What a switch has answered is what the guard resolves: after a change of the tenant the next request
  of the session runs in that tenant without a store, after a change of the store in that store. A
  bearer is never switched.
\<close>

lemma switch_is_honoured:
  assumes "access_ok s" and "AuthGuard env uuid_in now req s = Inr (By_session i u)"
  shows "(switchTenant (By_session i u) t s = (Inr b, s1) \<longrightarrow>
      TenantContextGuard now s1 (By_session i u) =
        Inr \<lparr>rcUser = Some u, rcTenant = Some t, rcStore = None, rcPlatformAdmin = isPlatformAdmin u s\<rparr>) \<and>
    (switchStore now (By_session i u) st s = (Inr b, s2) \<longrightarrow>
      (\<exists>k. TenantContextGuard now s2 (By_session i u) =
        Inr \<lparr>rcUser = Some u, rcTenant = Some k, rcStore = Some st, rcPlatformAdmin = isPlatformAdmin u s\<rparr>)) \<and>
    switchTenant (By_token j v w y sc) t s = (Inl (Http_exception 400 None), s) \<and>
    switchStore now (By_token j v w y sc) st s = (Inl (Http_exception 400 None), s)"
proof (intro conjI impI)
  from live_session [OF assms(2)] obtain x where x: "session_findActiveById now i s = Some x" ..
  show "TenantContextGuard now s1 (By_session i u) =
      Inr \<lparr>rcUser = Some u, rcTenant = Some t, rcStore = None, rcPlatformAdmin = isPlatformAdmin u s\<rparr>"
    if sw: "switchTenant (By_session i u) t s = (Inr b, s1)"
  proof -
    from sw have "switch_session i u (Some t) None s = (Inr b, s1)" "reach u t None s = Inr ()"
      by (auto simp: switchTenant_def reach_def split: if_splits option.split)
    then show ?thesis by (rule switch_then_guard [OF assms(1) x])
  qed
  show "\<exists>k. TenantContextGuard now s2 (By_session i u) =
      Inr \<lparr>rcUser = Some u, rcTenant = Some k, rcStore = Some st, rcPlatformAdmin = isPlatformAdmin u s\<rparr>"
    if sw: "switchStore now (By_session i u) st s = (Inr b, s2)"
  proof -
    from sw obtain k where "switch_session i u (Some k) (Some st) s = (Inr b, s2)" "reach u k (Some st) s = Inr ()"
      by (auto simp: switchStore_def split: option.splits sum.splits)
    then show ?thesis by (blast intro: switch_then_guard [OF assms(1) x])
  qed
qed (simp_all add: switchTenant_def switchStore_def)

lemma switch_is_honoured_witness:
  "\<exists>k. TenantContextGuard 100 (snd (switchStore 100 (By_session 60 2) 20 db0)) (By_session 60 2) =
     Inr \<lparr>rcUser = Some 2, rcTenant = Some k, rcStore = Some 20, rcPlatformAdmin = isPlatformAdmin 2 db0\<rparr>"
proof -
  have auth: "AuthGuard env0 uuid_in0 100 cookie db0 = Inr (By_session 60 2)" by code_simp
  have "isl (fst (switchStore 100 (By_session 60 2) 20 db0)) = False" by code_simp
  then obtain b where "switchStore 100 (By_session 60 2) 20 db0 = (Inr b, snd (switchStore 100 (By_session 60 2) 20 db0))"
    by (metis (full_types) prod.collapse sum.collapse(2))
  with switch_is_honoured [OF db0_ok auth] show ?thesis by blast
qed

end
