(* ===== verification/Connectors.thy ===== *)
theory Connectors
  imports AccessContext
begin

text \<open>
  Connector instances and their credentials (apps/api/src/connector): registration, issue, rotation,
  revocation and disabling, each one transaction under the caller's tenant that also writes its audit
  row, and the routes. The policies of connector_registration, auth_tokens and audit_events decide what
  a statement sees and writes. Instants stand for their ISO text; a day of an interval has 24 hours
  (the session's time zone is UTC); the counter of lifecycle actions is left out.
\<close>

section \<open>Requests and bodies (dto/register-connector.dto.ts)\<close>

definition CONNECTOR_ENVIRONMENTS :: "string list" where
  "CONNECTOR_ENVIRONMENTS = [''dev'', ''staging'', ''pilot'', ''prod'']"

definition DEFAULT_CREDENTIAL_EXPIRY_DAYS :: int where
  "DEFAULT_CREDENTIAL_EXPIRY_DAYS = 90"

definition MAX_CREDENTIAL_EXPIRY_DAYS :: int where
  "MAX_CREDENTIAL_EXPIRY_DAYS = 365"

record register_body =
  rbName :: string
  rbSite :: string
  rbEnvironment :: string

definition RegisterConnectorInstanceRequestSchema :: "register_body \<Rightarrow> register_body option" where
  "RegisterConnectorInstanceRequestSchema b =
     (let name = js_trim (rbName b); site = js_trim (rbSite b)
      in if name \<noteq> [] \<and> length name \<le> 180 \<and> site \<noteq> [] \<and> length site \<le> 255 \<and>
            rbEnvironment b \<in> set CONNECTOR_ENVIRONMENTS
         then Some (b\<lparr>rbName := name, rbSite := site\<rparr>) else None)"

text \<open>\<open>expires_in_days\<close>, when the body has it, as an integer.\<close>

definition IssueCredentialRequestSchema :: "int option \<Rightarrow> bool" where
  "IssueCredentialRequestSchema d \<longleftrightarrow> (case d of None \<Rightarrow> True | Some n \<Rightarrow> 1 \<le> n \<and> n \<le> MAX_CREDENTIAL_EXPIRY_DAYS)"

record credential_status =
  cdId :: uuid
  cdInstance :: uuid
  cdIssued :: instant
  cdExpires :: instant
  cdRevoked :: "instant option"

record connector_instance =
  inId :: uuid
  inName :: string
  inSite :: string
  inEnvironment :: string
  inCreated :: instant
  inDisabled :: "instant option"
  inActive :: "credential_status option"

record issued_credential =
  icId :: uuid
  icInstance :: uuid
  icSecret :: string
  icExpires :: instant
  icIssued :: instant

definition toConnectorInstance :: "connector_reg \<Rightarrow> credential_status option \<Rightarrow> connector_instance" where
  "toConnectorInstance r active =
     \<lparr>inId = regId r, inName = regName r, inSite = regSite r, inEnvironment = regEnvironment r,
      inCreated = regCreated r, inDisabled = regDisabled r, inActive = active\<rparr>"

section \<open>Statements\<close>

definition visible_token :: "tenant_context \<Rightarrow> auth_token \<Rightarrow> bool" where
  "visible_token c x \<longleftrightarrow> (case tokTenant x of None \<Rightarrow> ctxPlatformAdmin c | Some t \<Rightarrow> rls_tenant_or_admin c t)"

definition find_instance :: "tenant_context \<Rightarrow> uuid \<Rightarrow> access_db \<Rightarrow> connector_reg option" where
  "find_instance c i s = find (\<lambda>r. rls_tenant c (regTenant r) \<and> regId r = i) (connectorRegs s)"

text \<open>The keys of connector_registration: the id, and the site of an environment of a tenant.\<close>

definition reg_site :: "connector_reg \<Rightarrow> uuid \<times> string \<times> string" where
  "reg_site r = (regTenant r, regEnvironment r, regSite r)"

definition insert_registration :: "tenant_context \<Rightarrow> connector_reg \<Rightarrow> access_db \<Rightarrow> exn + (unit \<times> access_db)" where
  "insert_registration c r s =
     (case sql_check (rls_tenant c (regTenant r)) (Pg_error ''42501'')
          (sql_check (list_ex (\<lambda>k. k \<noteq> CHR '' '') (regName r) \<and> regEnvironment r \<in> set CONNECTOR_ENVIRONMENTS) check_violation
          (sql_check (\<not> list_ex (\<lambda>q. regId q = regId r \<or> reg_site q = reg_site r) (connectorRegs s)) unique_violation
          (sql_check (refers (Some (regTenant r)) tenId (tenants s)) fk_violation
          (sql_check (refers (Some (regCreatedBy r)) usrId (users s)) fk_violation None)))) of
        Some e \<Rightarrow> Inl e
      | None \<Rightarrow> Inr ((), s\<lparr>connectorRegs := connectorRegs s @ [r]\<rparr>))"

definition connectorAudit :: "tenant_context \<Rightarrow> connector_audit \<Rightarrow> access_db \<Rightarrow> exn + (unit \<times> access_db)" where
  "connectorAudit c a s =
     (case sql_check (rls_tenant_or_admin c (caTenant a)) (Pg_error ''42501'')
          (sql_check (\<not> list_ex (\<lambda>b. caId b = caId a) (connectorAudits s)) unique_violation
          (sql_check (refers (Some (caActor a)) usrId (users s)) fk_violation
          (sql_check (refers (Some (caTenant a)) tenId (tenants s)) fk_violation None))) of
        Some e \<Rightarrow> Inl e
      | None \<Rightarrow> Inr ((), s\<lparr>connectorAudits := connectorAudits s @ [a]\<rparr>))"

text \<open>\<open>UPDATE ... WHERE id = $1 AND disabled_at IS NULL RETURNING\<close>.\<close>

definition disable_row :: "tenant_context \<Rightarrow> uuid \<Rightarrow> uuid \<Rightarrow> instant \<Rightarrow> access_db \<Rightarrow> exn + (connector_reg option \<times> access_db)" where
  "disable_row c i actor now s =
     (let p = (\<lambda>r. rls_tenant c (regTenant r) \<and> regId r = i \<and> regDisabled r = None);
          f = (\<lambda>r. r\<lparr>regDisabled := Some now, regDisabledBy := Some actor\<rparr>)
      in if list_ex p (connectorRegs s) \<and> \<not> refers (Some actor) usrId (users s) then Inl fk_violation
         else Inr (map_option f (find p (connectorRegs s)), s\<lparr>connectorRegs := update_where p f (connectorRegs s)\<rparr>))"

definition revoke_rows :: "tenant_context \<Rightarrow> (auth_token \<Rightarrow> bool) \<Rightarrow> instant \<Rightarrow> access_db \<Rightarrow> exn + (unit \<times> access_db)" where
  "revoke_rows c p now s =
     Inr ((), s\<lparr>tokens := update_where (\<lambda>x. visible_token c x \<and> p x \<and> tokRevoked x = None)
                            (tokRevoked_update (\<lambda>_. Some now)) (tokens s)\<rparr>)"

definition activeCredential :: "tenant_context \<Rightarrow> uuid \<Rightarrow> access_db \<Rightarrow> credential_status option" where
  "activeCredential c i s =
     map_option (\<lambda>x. \<lparr>cdId = tokId x, cdInstance = i, cdIssued = tokIssued x, cdExpires = tokExpires x, cdRevoked = tokRevoked x\<rparr>)
       (find (\<lambda>x. visible_token c x \<and> live_credential i x) (tokens s))"

text \<open>The guard of the connector's own routes: it extends \<open>AuthGuard\<close>.\<close>

definition connector_gate ::
    "pos_env \<Rightarrow> (string \<Rightarrow> uuid option) \<Rightarrow> instant \<Rightarrow> auth_request \<Rightarrow> access_db \<Rightarrow> thrown + (principal \<times> connector_reg)" where
  "connector_gate env uuid_in now req s = after_auth (ConnectorAuthGuard now s) (AuthGuard env uuid_in now req s)"

section \<open>Registering and disabling (connector-registration.service.ts)\<close>

record register_input =
  riTenant :: uuid
  riActor :: uuid
  riName :: string
  riSite :: string
  riEnvironment :: string

definition registration_row :: "register_input \<Rightarrow> uuid \<Rightarrow> instant \<Rightarrow> connector_reg" where
  "registration_row inp i now =
     \<lparr>regId = i, regTenant = riTenant inp, regName = riName inp, regSite = riSite inp, regEnvironment = riEnvironment inp,
      regCreated = now, regCreatedBy = riActor inp, regDisabled = None, regDisabledBy = None\<rparr>"

datatype register_result = Registered connector_instance | Register_conflict

definition register_work :: "register_input \<Rightarrow> id_source \<Rightarrow> instant \<Rightarrow> tenant_context \<Rightarrow> (register_result, access_db) action" where
  "register_work inp ids now c =
     (let row = registration_row inp (ids 0) now
      in act_bind (act_catch (act_then (act_query (insert_registration c row)) (act_return True))
                             (\<lambda>e. if e = unique_violation then act_return False else act_throw e)) (\<lambda>inserted.
           if \<not> inserted then act_return Register_conflict
           else act_then (act_query (connectorAudit c
                  \<lparr>caId = ids 1, caActor = riActor inp, caTenant = riTenant inp, caAction = ''connector.registration.created'',
                   caTarget = ids 0, caMeta = Meta_environment (riEnvironment inp)\<rparr>))
                (act_return (Registered (toConnectorInstance row None)))))"

definition connector_register :: "register_input \<Rightarrow> id_source \<Rightarrow> instant \<Rightarrow> access_db \<Rightarrow> (exn + register_result) \<times> access_db" where
  "connector_register inp ids now =
     runWithTenantContext (tenant_ctx (riTenant inp)) (\<lambda>c. as_work (register_work inp ids now c))"

definition disable_work :: "uuid \<Rightarrow> uuid \<Rightarrow> uuid \<Rightarrow> id_source \<Rightarrow> instant \<Rightarrow> tenant_context \<Rightarrow> (connector_instance option, access_db) action" where
  "disable_work t actor i ids now c =
     act_bind (act_select (find_instance c i)) (\<lambda>existing. case existing of
        None \<Rightarrow> act_return None
      | Some r \<Rightarrow>
          if regDisabled r = None then
            act_bind (act_query (disable_row c i actor now)) (\<lambda>upd.
            act_then (act_query (connectorAudit c
              \<lparr>caId = ids 0, caActor = actor, caTenant = t, caAction = ''connector.registration.disabled'', caTarget = i, caMeta = Meta_none\<rparr>))
            (act_bind (act_select (activeCredential c i)) (\<lambda>active.
             act_return (Some (toConnectorInstance (case upd of None \<Rightarrow> r | Some q \<Rightarrow> q) active)))))
          else act_bind (act_select (activeCredential c i)) (\<lambda>active. act_return (Some (toConnectorInstance r active))))"

definition connector_disable :: "uuid \<Rightarrow> uuid \<Rightarrow> uuid \<Rightarrow> id_source \<Rightarrow> instant \<Rightarrow> access_db \<Rightarrow> (exn + connector_instance option) \<times> access_db" where
  "connector_disable t actor i ids now = runWithTenantContext (tenant_ctx t) (\<lambda>c. as_work (disable_work t actor i ids now c))"

definition connector_list :: "uuid \<Rightarrow> access_db \<Rightarrow> connector_instance list" where
  "connector_list t s =
     map (\<lambda>r. toConnectorInstance r (activeCredential (tenant_ctx t) (regId r) s))
       (sort_key regCreated (filter (\<lambda>r. rls_tenant (tenant_ctx t) (regTenant r)) (connectorRegs s)))"

section \<open>Credentials\<close>

definition credential_row :: "pos_env \<Rightarrow> uuid \<Rightarrow> uuid \<Rightarrow> uuid \<Rightarrow> int \<Rightarrow> uuid \<Rightarrow> string \<Rightarrow> instant \<Rightarrow> auth_token" where
  "credential_row env t actor i days k raw now =
     \<lparr>tokId = k, tokHash = sha256 env raw, tokTenant = Some t, tokUser = Some actor, tokDevice = None, tokStore = None,
      tokScope = Connector, tokRegistration = Some i, tokIssued = now, tokExpires = now + days * 86400000, tokRevoked = None\<rparr>"

definition issueCredentialRow ::
    "pos_env \<Rightarrow> uuid \<Rightarrow> uuid \<Rightarrow> uuid \<Rightarrow> int \<Rightarrow> uuid \<Rightarrow> string \<Rightarrow> instant \<Rightarrow> tenant_context \<Rightarrow> (issued_credential, access_db) action" where
  "issueCredentialRow env t actor i days k raw now c =
     (let row = credential_row env t actor i days k raw now
      in act_then (act_query (\<lambda>s. if \<not> visible_token c row then Inl (Pg_error ''42501'')
                                  else case insert_token row s of Inl e \<Rightarrow> Inl e | Inr s' \<Rightarrow> Inr ((), s')))
           (act_return \<lparr>icId = k, icInstance = i, icSecret = raw, icExpires = tokExpires row, icIssued = now\<rparr>))"

text \<open>The part issue and rotation share; a rotation revokes first.\<close>

definition credential_work ::
    "bool \<Rightarrow> pos_env \<Rightarrow> uuid \<Rightarrow> uuid \<Rightarrow> uuid \<Rightarrow> int \<Rightarrow> id_source \<Rightarrow> string \<Rightarrow> instant \<Rightarrow> tenant_context \<Rightarrow> (issued_credential option, access_db) action" where
  "credential_work rotating env t actor i days ids raw now c =
     act_bind (act_select (find_instance c i)) (\<lambda>row. case row of
        None \<Rightarrow> act_return None
      | Some r \<Rightarrow>
          if regDisabled r \<noteq> None then act_return None
          else act_then (if rotating then act_query (revoke_rows c (\<lambda>x. tokRegistration x = Some i \<and> tokScope x = Connector) now)
                         else act_return ())
              (act_bind (issueCredentialRow env t actor i days (ids 0) raw now c) (\<lambda>credential.
               act_then (act_query (connectorAudit c
                 \<lparr>caId = ids 1, caActor = actor, caTenant = t,
                  caAction = (if rotating then ''connector.credential.rotated'' else ''connector.credential.issued''),
                  caTarget = i, caMeta = Meta_credential (icId credential)\<rparr>))
               (act_return (Some credential)))))"

definition connector_issue ::
    "pos_env \<Rightarrow> uuid \<Rightarrow> uuid \<Rightarrow> uuid \<Rightarrow> int option \<Rightarrow> id_source \<Rightarrow> string \<Rightarrow> instant \<Rightarrow> access_db \<Rightarrow> (exn + issued_credential option) \<times> access_db" where
  "connector_issue env t actor i days ids raw now =
     runWithTenantContext (tenant_ctx t) (\<lambda>c. as_work (credential_work False env t actor i
       (case days of None \<Rightarrow> DEFAULT_CREDENTIAL_EXPIRY_DAYS | Some d \<Rightarrow> d) ids raw now c))"

definition connector_rotate ::
    "pos_env \<Rightarrow> uuid \<Rightarrow> uuid \<Rightarrow> uuid \<Rightarrow> int option \<Rightarrow> id_source \<Rightarrow> string \<Rightarrow> instant \<Rightarrow> access_db \<Rightarrow> (exn + issued_credential option) \<times> access_db" where
  "connector_rotate env t actor i days ids raw now =
     runWithTenantContext (tenant_ctx t) (\<lambda>c. as_work (credential_work True env t actor i
       (case days of None \<Rightarrow> DEFAULT_CREDENTIAL_EXPIRY_DAYS | Some d \<Rightarrow> d) ids raw now c))"

definition revoke_work :: "uuid \<Rightarrow> uuid \<Rightarrow> uuid \<Rightarrow> id_source \<Rightarrow> instant \<Rightarrow> tenant_context \<Rightarrow> (bool, access_db) action" where
  "revoke_work t actor k ids now c =
     act_bind (act_select (\<lambda>s. find (\<lambda>x. visible_token c x \<and> tokId x = k \<and> tokScope x = Connector) (tokens s))) (\<lambda>row. case row of
        None \<Rightarrow> act_return False
      | Some x \<Rightarrow>
          act_then (act_query (revoke_rows c (\<lambda>x. tokId x = k) now))
          (act_then (act_query (connectorAudit c
             \<lparr>caId = ids 0, caActor = actor, caTenant = t, caAction = ''connector.credential.revoked'',
              caTarget = (case tokRegistration x of None \<Rightarrow> k | Some i \<Rightarrow> i), caMeta = Meta_credential k\<rparr>))
          (act_return True)))"

definition connector_revoke :: "uuid \<Rightarrow> uuid \<Rightarrow> uuid \<Rightarrow> id_source \<Rightarrow> instant \<Rightarrow> access_db \<Rightarrow> (exn + bool) \<times> access_db" where
  "connector_revoke t actor k ids now = runWithTenantContext (tenant_ctx t) (\<lambda>c. as_work (revoke_work t actor k ids now c))"

section \<open>Routes (connector-registration.controller.ts)\<close>

definition connector_context :: "request_context \<Rightarrow> thrown + (uuid \<times> uuid)" where
  "connector_context ctx =
     (case ctx of
        Some c \<Rightarrow> (case (rcTenant c, rcUser c) of (Some t, Some u) \<Rightarrow> Inr (t, u) | _ \<Rightarrow> Inl unauthorized)
      | None \<Rightarrow> Inl unauthorized)"

definition connector_call ::
    "nat \<Rightarrow> request_context \<Rightarrow> (uuid \<Rightarrow> uuid \<Rightarrow> (exn + 'a) \<times> access_db) \<Rightarrow> ('a \<Rightarrow> thrown + 'b) \<Rightarrow> access_db \<Rightarrow> 'b response \<times> access_db" where
  "connector_call status ctx run answer s =
     (case connector_context ctx of
        Inl e \<Rightarrow> (respond status (Inl e), s)
      | Inr (t, u) \<Rightarrow>
          (case run t u of
             (Inl e, s') \<Rightarrow> (respond status (Inl (Unhandled e)), s')
           | (Inr a, s') \<Rightarrow> (respond status (answer a), s')))"

definition found_or_404 :: "'a option \<Rightarrow> thrown + 'a" where
  "found_or_404 r = (case r of None \<Rightarrow> Inl not_found | Some x \<Rightarrow> Inr x)"

definition list_instances_route :: "request_context \<Rightarrow> access_db \<Rightarrow> connector_instance list response \<times> access_db" where
  "list_instances_route ctx s = connector_call 200 ctx (\<lambda>t u. (Inr (connector_list t s), s)) Inr s"

definition register_route :: "request_context \<Rightarrow> register_body \<Rightarrow> id_source \<Rightarrow> instant \<Rightarrow> access_db \<Rightarrow> connector_instance response \<times> access_db" where
  "register_route ctx b ids now s =
     (case RegisterConnectorInstanceRequestSchema b of
        None \<Rightarrow> (respond 201 (Inl Zod_error), s)
      | Some q \<Rightarrow>
          connector_call 201 ctx
            (\<lambda>t u. connector_register \<lparr>riTenant = t, riActor = u, riName = rbName q, riSite = rbSite q, riEnvironment = rbEnvironment q\<rparr> ids now s)
            (\<lambda>r. case r of Registered x \<Rightarrow> Inr x | Register_conflict \<Rightarrow> Inl (Http_exception 409 (Some ''conflict''))) s)"

definition issue_route ::
    "pos_env \<Rightarrow> request_context \<Rightarrow> uuid \<Rightarrow> int option \<Rightarrow> id_source \<Rightarrow> string \<Rightarrow> instant \<Rightarrow> access_db \<Rightarrow> issued_credential response \<times> access_db" where
  "issue_route env ctx i days ids raw now s =
     (if \<not> IssueCredentialRequestSchema days then (respond 201 (Inl Zod_error), s)
      else connector_call 201 ctx (\<lambda>t u. connector_issue env t u i days ids raw now s) found_or_404 s)"

definition disable_route :: "request_context \<Rightarrow> uuid \<Rightarrow> id_source \<Rightarrow> instant \<Rightarrow> access_db \<Rightarrow> connector_instance response \<times> access_db" where
  "disable_route ctx i ids now s = connector_call 200 ctx (\<lambda>t u. connector_disable t u i ids now s) found_or_404 s"

definition rotate_route ::
    "pos_env \<Rightarrow> request_context \<Rightarrow> uuid \<Rightarrow> id_source \<Rightarrow> string \<Rightarrow> instant \<Rightarrow> access_db \<Rightarrow> issued_credential response \<times> access_db" where
  "rotate_route env ctx i ids raw now s = connector_call 201 ctx (\<lambda>t u. connector_rotate env t u i None ids raw now s) found_or_404 s"

definition revoke_route :: "request_context \<Rightarrow> uuid \<Rightarrow> id_source \<Rightarrow> instant \<Rightarrow> access_db \<Rightarrow> unit response \<times> access_db" where
  "revoke_route ctx k ids now s =
     connector_call 200 ctx (\<lambda>t u. connector_revoke t u k ids now s) (\<lambda>ok. if ok then Inr () else Inl not_found) s"

end
