(* ===== verification/ConnectorMachine.thy ===== *)
theory ConnectorMachine
  imports Connectors AccessFacts
begin

text \<open>
  What the administration of connectors leaves of the tables under every interleaving: each operation is
  a sequence of moves of rows, moves keep the keys and the ownership of the credentials, and they are
  moves of the access tables.
\<close>

section \<open>Moves\<close>

inductive connector_move :: "pos_env \<Rightarrow> access_db \<Rightarrow> access_db \<Rightarrow> bool" for env where
  cm_register: "insert_registration (tenant_ctx t) r s = Inr ((), s') \<Longrightarrow> connector_move env s s'"
| cm_audit: "connectorAudit (tenant_ctx t) a s = Inr ((), s') \<Longrightarrow> connector_move env s s'"
| cm_disable: "disable_row (tenant_ctx t) i actor now s = Inr (q, s') \<Longrightarrow> connector_move env s s'"
| cm_revoke: "revoke_rows (tenant_ctx t) p now s = Inr ((), s') \<Longrightarrow> connector_move env s s'"
| cm_issue: "insert_token (credential_row env t actor i days k raw now) s = Inr s' \<Longrightarrow>
     find_instance (tenant_ctx t) i s = Some r \<Longrightarrow> connector_move env s s'"
| cm_other: "access_move env s s' \<Longrightarrow> connectorRegs s' = connectorRegs s \<Longrightarrow>
     filter (\<lambda>x. tokScope x = Connector) (tokens s') = filter (\<lambda>x. tokScope x = Connector) (tokens s) \<Longrightarrow> connector_move env s s'"

abbreviation connector_run :: "pos_env \<Rightarrow> access_db \<Rightarrow> access_db \<Rightarrow> bool" where
  "connector_run env \<equiv> (connector_move env)\<^sup>*\<^sup>*"

section \<open>Statements\<close>

lemma insert_registration_Inr [run_simps]:
  "insert_registration c r s = Inr (u, s') \<longleftrightarrow>
     rls_tenant c (regTenant r) \<and> list_ex (\<lambda>k. k \<noteq> CHR '' '') (regName r) \<and> regEnvironment r \<in> set CONNECTOR_ENVIRONMENTS \<and>
     regId r \<notin> regId ` set (connectorRegs s) \<and> reg_site r \<notin> reg_site ` set (connectorRegs s) \<and>
     refers (Some (regTenant r)) tenId (tenants s) \<and> refers (Some (regCreatedBy r)) usrId (users s) \<and>
     s' = s\<lparr>connectorRegs := connectorRegs s @ [r]\<rparr>"
  unfolding insert_registration_def by (simp only: sql_check_then) (auto simp: list_ex_iff image_iff eq_commute)

lemma connectorAudit_Inr [run_simps]:
  "connectorAudit c a s = Inr (u, s') \<longleftrightarrow>
     rls_tenant_or_admin c (caTenant a) \<and> caId a \<notin> caId ` set (connectorAudits s) \<and>
     refers (Some (caActor a)) usrId (users s) \<and> refers (Some (caTenant a)) tenId (tenants s) \<and>
     s' = s\<lparr>connectorAudits := connectorAudits s @ [a]\<rparr>"
  unfolding connectorAudit_def by (simp only: sql_check_then) (auto simp: list_ex_iff image_iff eq_commute)

lemma revoke_rows_Inr [run_simps]:
  "revoke_rows c p now s = Inr (u, s') \<longleftrightarrow>
     s' = s\<lparr>tokens := update_where (\<lambda>x. visible_token c x \<and> p x \<and> tokRevoked x = None) (tokRevoked_update (\<lambda>_. Some now)) (tokens s)\<rparr>"
  by (auto simp: revoke_rows_def)

lemma disable_row_Inr:
  assumes "disable_row c i actor now s = Inr (q, s')"
  shows "s' = s\<lparr>connectorRegs := update_where (\<lambda>r. rls_tenant c (regTenant r) \<and> regId r = i \<and> regDisabled r = None)
                  (\<lambda>r. r\<lparr>regDisabled := Some now, regDisabledBy := Some actor\<rparr>) (connectorRegs s)\<rparr>"
    "q = map_option (\<lambda>r. r\<lparr>regDisabled := Some now, regDisabledBy := Some actor\<rparr>)
           (find (\<lambda>r. rls_tenant c (regTenant r) \<and> regId r = i \<and> regDisabled r = None) (connectorRegs s))"
  using assms by (simp_all add: disable_row_def Let_def split: if_splits)

lemma credential_row_simps [simp]:
  "tokId (credential_row env t u i days k raw now) = k" "tokHash (credential_row env t u i days k raw now) = sha256 env raw"
  "tokTenant (credential_row env t u i days k raw now) = Some t" "tokUser (credential_row env t u i days k raw now) = Some u"
  "tokStore (credential_row env t u i days k raw now) = None"
  "tokScope (credential_row env t u i days k raw now) = Connector" "tokRegistration (credential_row env t u i days k raw now) = Some i"
  "tokIssued (credential_row env t u i days k raw now) = now"
  "tokExpires (credential_row env t u i days k raw now) = now + days * 86400000" "tokRevoked (credential_row env t u i days k raw now) = None"
  by (simp_all add: credential_row_def)

lemma visible_credential [simp]: "visible_token (tenant_ctx t) (credential_row env t u i days k raw now)"
  by (simp add: visible_token_def)

lemma find_instanceD: "find_instance (tenant_ctx t) i s = Some r \<Longrightarrow> r \<in> set (connectorRegs s) \<and> regTenant r = t \<and> regId r = i"
  by (auto simp: find_instance_def dest: find_SomeD)

lemma live_credential_revoked [simp]: "\<not> live_credential i (tokRevoked_update (\<lambda>_. Some now) x)"
  by (simp add: live_credential_def)

section \<open>Well-formed connector tables\<close>

definition credential_owned :: "connector_reg list \<Rightarrow> auth_token \<Rightarrow> bool" where
  "credential_owned rs x \<longleftrightarrow>
     (tokScope x = Connector \<longrightarrow> (\<forall>i. tokRegistration x = Some i \<longrightarrow> (\<exists>r \<in> set rs. regId r = i \<and> tokTenant x = Some (regTenant r))))"

definition connector_ok :: "access_db \<Rightarrow> bool" where
  "connector_ok s \<longleftrightarrow> distinct (map regId (connectorRegs s)) \<and> distinct (map reg_site (connectorRegs s)) \<and>
     (\<forall>i. length (filter (live_credential i) (tokens s)) \<le> 1) \<and> (\<forall>x \<in> set (tokens s). credential_owned (connectorRegs s) x)"

text \<open>The life of a registration: it is disabled once.\<close>

definition reg_life :: "connector_reg \<Rightarrow> connector_reg \<Rightarrow> bool" where
  "reg_life r q \<longleftrightarrow> q = r \<or> regDisabled r = None \<and> (\<exists>u now. q = r\<lparr>regDisabled := Some now, regDisabledBy := Some u\<rparr>)"

lemma reg_life_refl [simp]: "reg_life r r"
  by (simp add: reg_life_def)

lemma reg_life_disabled: "regDisabled r = None \<Longrightarrow> reg_life r (r\<lparr>regDisabled := Some now, regDisabledBy := Some u\<rparr>)"
  unfolding reg_life_def by blast

lemma reg_life_trans: "reg_life x y \<Longrightarrow> reg_life y z \<Longrightarrow> reg_life x z"
  by (auto simp: reg_life_def)

lemma move_regs:
  assumes "connector_move env s s'"
  shows "table_extends reg_life (\<lambda>_. True) (connectorRegs s) (connectorRegs s')"
  using assms
proof (cases rule: connector_move.cases)
  case (cm_disable t i actor now q)
  then show ?thesis
    by (auto dest!: disable_row_Inr(1) intro!: table_extends_update_where reg_life_disabled)
qed (auto simp: run_simps insert_token_Inr table_extends_snoc table_extends_refl)

lemma run_regs: "connector_run env s s' \<Longrightarrow> table_extends reg_life (\<lambda>_. True) (connectorRegs s) (connectorRegs s')"
proof (induction rule: rtranclp_induct)
  case base
  show ?case by (simp add: table_extends_refl)
next
  case (step s1 s2)
  then show ?case
    using table_extends_trans [of reg_life "\<lambda>_. True" "connectorRegs s" "connectorRegs s1" "connectorRegs s2"] move_regs [OF step(2)] reg_life_trans
    by blast
qed

section \<open>Moves of connectors are moves of the access tables\<close>

lemma directory_move:
  assumes "access_ok s" and "tokens s' = tokens s" and "takeoverKeys s' = takeoverKeys s" and "devices s' = devices s" and "directory_ok s'"
  shows "access_run env s s'"
  using assms by (intro r_into_rtranclp am_directory) (simp_all add: device_kept_def table_extends_refl)

lemma move_access:
  assumes "connector_move env s s'" and "access_ok s"
  shows "access_run env s s'"
  using assms(1)
proof (cases rule: connector_move.cases)
  case (cm_register t r)
  with assms(2) show ?thesis by (intro directory_move) (auto simp: run_simps access_ok_def directory_ok_def)
next
  case (cm_audit t a)
  with assms(2) show ?thesis by (intro directory_move) (auto simp: run_simps access_ok_def directory_ok_def)
next
  case (cm_disable t i actor now q)
  note s' = disable_row_Inr(1) [OF cm_disable]
  show ?thesis using assms(2) by (intro directory_move) (simp_all add: s' access_ok_def directory_ok_def)
next
  case (cm_revoke t p now)
  then show ?thesis by (auto simp: run_simps intro!: r_into_rtranclp am_revoke)
next
  case (cm_issue t actor i days k raw now r)
  from am_other [OF this(1)] show ?thesis by (simp add: r_into_rtranclp)
qed auto

lemma run_access: "connector_run env s s' \<Longrightarrow> access_ok s \<Longrightarrow> access_run env s s' \<and> access_ok s'"
proof (induction rule: rtranclp_induct)
  case (step s1 s2)
  then have "access_run env s s1" "access_run env s1 s2" using move_access by blast+
  then have "access_run env s s2" by (rule rtranclp_trans)
  with run_ok [OF this step.prems] show ?case by blast
qed simp

section \<open>Moves keep the connector tables well-formed\<close>

lemma credential_owned_more: "credential_owned rs x \<Longrightarrow> credential_owned (rs @ qs) x"
  by (auto simp: credential_owned_def)

lemma credential_owned_cong: "token_facts y = token_facts x \<Longrightarrow> tokRegistration y = tokRegistration x \<Longrightarrow> credential_owned rs y = credential_owned rs x"
  using token_facts_simps [of y x] by (simp add: credential_owned_def)

lemma live_filter_revoke:
  "length (filter (live_credential i) (update_where p (tokRevoked_update (\<lambda>_. Some now)) xs)) \<le> length (filter (live_credential i) xs)"
  by (induction xs) (auto simp: update_where_def)

lemma live_filter_connectors:
  "filter (live_credential i) xs = filter (live_credential i) (filter (\<lambda>x. tokScope x = Connector) xs)"
  by (induction xs) (auto simp: live_credential_def)

lemma ok_register:
  assumes "connector_ok s" and "regId r \<notin> regId ` set (connectorRegs s)" and "reg_site r \<notin> reg_site ` set (connectorRegs s)"
  shows "connector_ok (s\<lparr>connectorRegs := connectorRegs s @ [r]\<rparr>)"
  using assms by (auto simp: connector_ok_def credential_owned_more)

lemma ok_disable:
  assumes "connector_ok s"
  shows "connector_ok (s\<lparr>connectorRegs := update_where p (\<lambda>r. r\<lparr>regDisabled := d, regDisabledBy := b\<rparr>) (connectorRegs s)\<rparr>)"
proof -
  let ?rs = "update_where p (\<lambda>r. r\<lparr>regDisabled := d, regDisabledBy := b\<rparr>) (connectorRegs s)"
  have "map regId ?rs = map regId (connectorRegs s)" "map reg_site ?rs = map reg_site (connectorRegs s)"
    by (simp_all add: update_where_def reg_site_def)
  moreover have "\<exists>q \<in> set ?rs. regId q = regId r \<and> regTenant q = regTenant r" if "r \<in> set (connectorRegs s)" for r
    using that by (intro bexI [of _ "if p r then r\<lparr>regDisabled := d, regDisabledBy := b\<rparr> else r"]) (auto simp: update_where_def)
  then have "credential_owned ?rs x" if "credential_owned (connectorRegs s) x" for x
    using that unfolding credential_owned_def by metis
  ultimately show ?thesis using assms by (simp add: connector_ok_def)
qed

lemma ok_connector_revoke:
  assumes "connector_ok s"
  shows "connector_ok (s\<lparr>tokens := update_where p (tokRevoked_update (\<lambda>_. Some now)) (tokens s)\<rparr>)"
proof -
  have "length (filter (live_credential i) (update_where p (tokRevoked_update (\<lambda>_. Some now)) (tokens s))) \<le> 1" for i
    using live_filter_revoke [of i p now "tokens s"] assms le_trans unfolding connector_ok_def by blast
  moreover have "\<forall>x \<in> set (update_where p (tokRevoked_update (\<lambda>_. Some now)) (tokens s)). credential_owned (connectorRegs s) x"
    using assms by (auto simp: connector_ok_def set_update_where credential_owned_def)
  ultimately show ?thesis using assms by (simp add: connector_ok_def)
qed

lemma token_checks_clash: "token_checks x s = None \<Longrightarrow> \<not> credential_clash x (tokens s)"
  by (simp add: token_checks_def)

lemma ok_issue:
  assumes "connector_ok s" and "insert_token (credential_row env t u i days k raw now) s = Inr s'"
    and "find_instance (tenant_ctx t) i s = Some r"
  shows "connector_ok s'"
proof -
  let ?x = "credential_row env t u i days k raw now"
  from assms(2) have s': "s' = s\<lparr>tokens := tokens s @ [?x]\<rparr>" and "\<not> credential_clash ?x (tokens s)"
    by (auto simp: insert_token_Inr dest: token_checks_clash)
  then have "filter (live_credential i) (tokens s) = []"
    by (simp add: credential_clash_def live_credential_def list_ex_iff filter_empty_conv)
  moreover have "\<not> live_credential j ?x" if "j \<noteq> i" for j using that by (simp add: live_credential_def)
  ultimately have "length (filter (live_credential j) (tokens s @ [?x])) \<le> 1" for j
    using assms(1) by (cases "j = i") (simp_all add: connector_ok_def)
  moreover have "credential_owned (connectorRegs s) ?x" using find_instanceD [OF assms(3)] by (auto simp: credential_owned_def)
  ultimately show ?thesis using assms(1) by (simp add: connector_ok_def s')
qed

lemma ok_other:
  assumes "connector_ok s" and "connectorRegs s' = connectorRegs s"
    and "filter (\<lambda>x. tokScope x = Connector) (tokens s') = filter (\<lambda>x. tokScope x = Connector) (tokens s)"
  shows "connector_ok s'"
proof -
  have "filter (live_credential i) (tokens s') = filter (live_credential i) (tokens s)" for i
    using assms(3) live_filter_connectors [of i "tokens s"] live_filter_connectors [of i "tokens s'"] by simp
  moreover have "credential_owned (connectorRegs s) x" if "x \<in> set (tokens s')" for x
  proof (cases "tokScope x = Connector")
    case True
    with that have "x \<in> set (filter (\<lambda>x. tokScope x = Connector) (tokens s'))" by simp
    with assms(3) have "x \<in> set (tokens s)" by (metis filter_is_subset subsetD)
    with assms(1) show ?thesis by (simp add: connector_ok_def)
  qed (simp add: credential_owned_def)
  ultimately show ?thesis using assms(1,2) by (simp add: connector_ok_def)
qed

lemma connector_move_ok:
  assumes "connector_move env s s'" and "connector_ok s"
  shows "connector_ok s'"
  using assms(1)
proof (cases rule: connector_move.cases)
  case (cm_audit t a)
  with assms(2) show ?thesis by (auto simp: run_simps connector_ok_def)
next
  case (cm_disable t i actor now q)
  from disable_row_Inr(1) [OF this] assms(2) show ?thesis by (simp add: ok_disable)
qed (use assms(2) in \<open>auto simp: run_simps intro: ok_register ok_connector_revoke ok_issue ok_other\<close>)

lemma connector_run_ok: "connector_run env s s' \<Longrightarrow> connector_ok s \<Longrightarrow> connector_ok s'"
  by (induction rule: rtranclp_induct) (auto intro: connector_move_ok)

end
