(* ===== verification/ConnectorFacts.thy ===== *)
theory ConnectorFacts
  imports ConnectorMachine
begin

text \<open>
  What each operation on connectors commits, and which credentials pass the guards of a connector.
\<close>

section \<open>Operations are runs\<close>

lemma move_then: "connector_move env s s1 \<Longrightarrow> connector_run env s1 s2 \<Longrightarrow> connector_run env s s2"
  by (rule converse_rtranclp_into_rtranclp)

lemma audit_run: "connectorAudit (tenant_ctx t) a s = Inr ((), s') \<Longrightarrow> connector_run env s s'"
  by (rule r_into_rtranclp) (rule cm_audit)

lemma register_succeeds:
  assumes "succeeds (register_work inp ids now c) s a s'"
  obtains s1 where "insert_registration c (registration_row inp (ids 0) now) s = Inr ((), s1)"
    "connectorAudit c \<lparr>caId = ids 1, caActor = riActor inp, caTenant = riTenant inp, caAction = ''connector.registration.created'',
        caTarget = ids 0, caMeta = Meta_environment (riEnvironment inp)\<rparr> s1 = Inr ((), s')"
    "a = Registered (toConnectorInstance (registration_row inp (ids 0) now) None)"
proof -
  let ?m = "act_then (act_query (insert_registration c (registration_row inp (ids 0) now))) (act_return True)"
  have "?m (Tx_open s) \<noteq> (Inl e, Tx_open z)" for e z by (auto simp: act_open_simps split: sum.splits)
  then have "succeeds (act_catch ?m (\<lambda>e. if e = unique_violation then act_return False else act_throw e)) s b z \<longleftrightarrow> succeeds ?m s b z" for b z
    by (intro succeeds_catch) simp_all
  with assms show thesis
    unfolding register_work_def Let_def
    by (auto simp: succeeds_bind succeeds_then succeeds_query succeeds_return intro: that)
qed

lemma register_run:
  assumes "connector_register inp ids now s = (a, s')"
  shows "connector_run env s s'"
  using run_commits_or_nothing [of "tenant_ctx (riTenant inp)" "register_work inp ids now" s] assms
  by (auto simp: connector_register_def elim!: register_succeeds intro: move_then [OF cm_register audit_run])

lemma disable_succeeds:
  assumes "succeeds (disable_work t actor i ids now c) s a s'"
  obtains "a = None" "find_instance c i s = None" "s' = s"
  | (again) r where "find_instance c i s = Some r" "regDisabled r \<noteq> None" "s' = s"
      "a = Some (toConnectorInstance r (activeCredential c i s))"
  | (disabled) r q s1 where "find_instance c i s = Some r" "regDisabled r = None" "disable_row c i actor now s = Inr (q, s1)"
      "connectorAudit c \<lparr>caId = ids 0, caActor = actor, caTenant = t, caAction = ''connector.registration.disabled'', caTarget = i,
         caMeta = Meta_none\<rparr> s1 = Inr ((), s')"
      "a = Some (toConnectorInstance (case q of None \<Rightarrow> r | Some q \<Rightarrow> q) (activeCredential c i s'))"
  using assms unfolding disable_work_def
  by (cases "find_instance c i s")
     (auto simp: succeeds_bind_select succeeds_bind succeeds_then succeeds_query succeeds_return split: if_splits)

lemma disable_run:
  assumes "connector_disable t actor i ids now s = (a, s')"
  shows "connector_run env s s'"
  using run_commits_or_nothing [of "tenant_ctx t" "disable_work t actor i ids now" s] assms
  by (auto simp: connector_disable_def elim!: disable_succeeds intro: move_then [OF cm_disable audit_run])

lemma succeeds_issueCredentialRow:
  "succeeds (issueCredentialRow env t actor i days k raw now (tenant_ctx t)) s a s' \<longleftrightarrow>
     insert_token (credential_row env t actor i days k raw now) s = Inr s' \<and>
     a = \<lparr>icId = k, icInstance = i, icSecret = raw, icExpires = now + days * 86400000, icIssued = now\<rparr>"
  by (auto simp: issueCredentialRow_def Let_def succeeds_then succeeds_query succeeds_return split: sum.splits)

definition before_issue :: "bool \<Rightarrow> uuid \<Rightarrow> uuid \<Rightarrow> instant \<Rightarrow> access_db \<Rightarrow> access_db" where
  "before_issue rotating t i now s =
     (if rotating then s\<lparr>tokens := update_where (\<lambda>x. visible_token (tenant_ctx t) x \<and> live_credential i x)
                                     (tokRevoked_update (\<lambda>_. Some now)) (tokens s)\<rparr> else s)"

lemma before_issue_simps [simp]:
  "find_instance c i (before_issue rotating t i now s) = find_instance c i s"
  "connectorRegs (before_issue rotating t i now s) = connectorRegs s"
  by (simp_all add: before_issue_def find_instance_def)

lemma stays_aborted_issue [simp]: "stays_aborted (issueCredentialRow env t actor i days k raw now c)"
  by (simp add: issueCredentialRow_def Let_def)

lemma succeeds_revoke_first:
  "succeeds (if rotating then act_query (revoke_rows (tenant_ctx t) (\<lambda>x. tokRegistration x = Some i \<and> tokScope x = Connector) now)
             else act_return ()) s u s' \<longleftrightarrow> s' = before_issue rotating t i now s"
proof -
  have "(\<lambda>x. visible_token (tenant_ctx t) x \<and> (tokRegistration x = Some i \<and> tokScope x = Connector) \<and> tokRevoked x = None) =
    (\<lambda>x. visible_token (tenant_ctx t) x \<and> live_credential i x)" by (auto simp: live_credential_def fun_eq_iff)
  then show ?thesis by (simp add: before_issue_def succeeds_query succeeds_return revoke_rows_Inr)
qed

lemma credential_succeeds:
  assumes "succeeds (credential_work rotating env t actor i days ids raw now (tenant_ctx t)) s a s'"
  obtains (refused) "a = None" "s' = s"
  | (issued) r s2 where "find_instance (tenant_ctx t) i s = Some r" "regDisabled r = None"
      "insert_token (credential_row env t actor i days (ids 0) raw now) (before_issue rotating t i now s) = Inr s2"
      "connectorAudit (tenant_ctx t)
         \<lparr>caId = ids 1, caActor = actor, caTenant = t,
          caAction = (if rotating then ''connector.credential.rotated'' else ''connector.credential.issued''),
          caTarget = i, caMeta = Meta_credential (ids 0)\<rparr> s2 = Inr ((), s')"
      "a = Some \<lparr>icId = ids 0, icInstance = i, icSecret = raw, icExpires = now + days * 86400000, icIssued = now\<rparr>"
proof (cases "find_instance (tenant_ctx t) i s")
  case None
  with assms have "a = None" "s' = s" by (simp_all add: credential_work_def succeeds_bind_select succeeds_return)
  then show thesis by (rule refused)
next
  case (Some r)
  show thesis
  proof (cases "regDisabled r = None")
    case True
    with assms Some obtain s2 where
      "insert_token (credential_row env t actor i days (ids 0) raw now) (before_issue rotating t i now s) = Inr s2"
      "connectorAudit (tenant_ctx t)
         \<lparr>caId = ids 1, caActor = actor, caTenant = t,
          caAction = (if rotating then ''connector.credential.rotated'' else ''connector.credential.issued''),
          caTarget = i, caMeta = Meta_credential (ids 0)\<rparr> s2 = Inr ((), s')"
      "a = Some \<lparr>icId = ids 0, icInstance = i, icSecret = raw, icExpires = now + days * 86400000, icIssued = now\<rparr>"
      unfolding credential_work_def
      by (auto simp: succeeds_bind_select succeeds_bind succeeds_then succeeds_revoke_first succeeds_issueCredentialRow succeeds_query
          succeeds_return simp del: if_split)
    with Some True show thesis by (rule issued)
  next
    case False
    with assms Some have "a = None" "s' = s" by (simp_all add: credential_work_def succeeds_bind_select succeeds_return)
    then show thesis by (rule refused)
  qed
qed

lemma before_issue_run: "connector_run env s (before_issue rotating t i now s)"
proof -
  have "succeeds (act_query (revoke_rows (tenant_ctx t) (\<lambda>x. tokRegistration x = Some i \<and> tokScope x = Connector) now)) s ()
          (before_issue True t i now s)"
    using succeeds_revoke_first [of True t i now s "()" "before_issue True t i now s"] by simp
  then have "connector_move env s (before_issue True t i now s)" unfolding succeeds_query by (rule cm_revoke)
  then show ?thesis by (cases rotating) (auto simp: before_issue_def)
qed

lemma credential_run:
  assumes "succeeds (credential_work rotating env t actor i days ids raw now (tenant_ctx t)) s a s'"
  shows "connector_run env s s'"
  using assms
proof (cases rule: credential_succeeds)
  case (issued r s2)
  have "connector_move env (before_issue rotating t i now s) s2" by (rule cm_issue [OF issued(3)]) (simp add: issued(1))
  from rtranclp_trans [OF before_issue_run move_then [OF this audit_run [OF issued(4)]]] show ?thesis .
qed simp

lemma issue_run:
  assumes "connector_issue env t actor i days ids raw now s = (a, s')"
  shows "connector_run env s s'"
  using run_commits_or_nothing [of "tenant_ctx t" "\<lambda>c. credential_work False env t actor i
      (case days of None \<Rightarrow> DEFAULT_CREDENTIAL_EXPIRY_DAYS | Some d \<Rightarrow> d) ids raw now c" s] assms
  by (auto simp: connector_issue_def intro: credential_run)

lemma rotate_run:
  assumes "connector_rotate env t actor i days ids raw now s = (a, s')"
  shows "connector_run env s s'"
  using run_commits_or_nothing [of "tenant_ctx t" "\<lambda>c. credential_work True env t actor i
      (case days of None \<Rightarrow> DEFAULT_CREDENTIAL_EXPIRY_DAYS | Some d \<Rightarrow> d) ids raw now c" s] assms
  by (auto simp: connector_rotate_def intro: credential_run)

lemma revoke_succeeds:
  assumes "succeeds (revoke_work t actor k ids now c) s a s'"
  obtains "a = False" "s' = s"
  | x s1 where "a" "find (\<lambda>x. visible_token c x \<and> tokId x = k \<and> tokScope x = Connector) (tokens s) = Some x"
      "revoke_rows c (\<lambda>x. tokId x = k) now s = Inr ((), s1)"
      "connectorAudit c \<lparr>caId = ids 0, caActor = actor, caTenant = t, caAction = ''connector.credential.revoked'',
         caTarget = (case tokRegistration x of None \<Rightarrow> k | Some i \<Rightarrow> i), caMeta = Meta_credential k\<rparr> s1 = Inr ((), s')"
  using assms unfolding revoke_work_def
  by (cases "find (\<lambda>x. visible_token c x \<and> tokId x = k \<and> tokScope x = Connector) (tokens s)")
     (auto simp: succeeds_bind_select succeeds_then succeeds_query succeeds_return)

lemma revoke_run:
  assumes "connector_revoke t actor k ids now s = (a, s')"
  shows "connector_run env s s'"
  using run_commits_or_nothing [of "tenant_ctx t" "revoke_work t actor k ids now" s] assms
  by (auto simp: connector_revoke_def elim!: revoke_succeeds intro: move_then [OF cm_revoke audit_run])

section \<open>The gate of the connector\<close>

lemma reg_ids: "connector_ok s \<Longrightarrow> distinct (map regId (connectorRegs s))"
  by (simp add: connector_ok_def)

interpretation registration_ids: keyed_table connector_ok connectorRegs regId
  by unfold_locales (rule reg_ids)

lemma first_row_unique:
  assumes "\<And>x y. x \<in> set xs \<Longrightarrow> y \<in> set xs \<Longrightarrow> p x \<Longrightarrow> p y \<Longrightarrow> y = x"
  shows "first_row (filter p xs) = Some x \<longleftrightarrow> x \<in> set xs \<and> p x"
proof
  assume "first_row (filter p xs) = Some x"
  from first_row_SomeD [OF this] show "x \<in> set xs \<and> p x" by simp
next
  assume x: "x \<in> set xs \<and> p x"
  then have "filter p xs \<noteq> []" by (auto simp: filter_empty_conv)
  then obtain y where y: "first_row (filter p xs) = Some y" by (cases "filter p xs") simp_all
  from first_row_SomeD [OF y] x assms [of x y] y show "first_row (filter p xs) = Some x" by simp
qed

lemma gate_of_credential:
  assumes "access_ok s" and "connector_ok s" and "x \<in> set (tokens s)" and "tokScope x = Connector" and "active_token now x"
  shows "ConnectorAuthGuard now s (principalFromToken x) = Inr (p, r) \<longleftrightarrow>
    r \<in> set (connectorRegs s) \<and> tokRegistration x = Some (regId r) \<and> tokTenant x = Some (regTenant r) \<and> regDisabled r = None \<and>
    p = principalFromToken x"
proof -
  have "filter (\<lambda>y. tokId y = tokId x) (tokens s) = [x]" by (rule filter_key_unique [OF ok_keys(1) [OF assms(1)] assms(3) refl])
  moreover have "filter (\<lambda>y. tokId y = tokId x \<and> tokScope y = Connector \<and> active_token now y) (tokens s) =
    filter (\<lambda>y. tokScope y = Connector \<and> active_token now y) (filter (\<lambda>y. tokId y = tokId x) (tokens s))" by simp
  ultimately have "filter (\<lambda>y. tokId y = tokId x \<and> tokScope y = Connector \<and> active_token now y) (tokens s) = [x]"
    using assms(4,5) by simp
  then have "findActiveConnectorCredentialByTokenId now (tokId x) s =
    first_row (filter (\<lambda>r. tokRegistration x = Some (regId r) \<and> tokTenant x = Some (regTenant r) \<and> regDisabled r = None) (connectorRegs s))"
    by (simp add: findActiveConnectorCredentialByTokenId_def)
  also have "\<dots> = Some r \<longleftrightarrow>
    r \<in> set (connectorRegs s) \<and> tokRegistration x = Some (regId r) \<and> tokTenant x = Some (regTenant r) \<and> regDisabled r = None" for r
    by (rule first_row_unique) (use registration_ids.one_row [OF assms(2)] in \<open>auto\<close>)
  finally have "findActiveConnectorCredentialByTokenId now (tokId x) s = Some r \<longleftrightarrow>
    r \<in> set (connectorRegs s) \<and> tokRegistration x = Some (regId r) \<and> tokTenant x = Some (regTenant r) \<and> regDisabled r = None" for r .
  moreover have "ConnectorAuthGuard now s (principalFromToken x) = Inr (p, r) \<longleftrightarrow>
    findActiveConnectorCredentialByTokenId now (tokId x) s = Some r \<and> p = principalFromToken x"
    using assms(4) by (auto simp: ConnectorAuthGuard_def principalFromToken_def split: option.splits)
  ultimately show ?thesis by simp
qed

lemma connector_gate_iff:
  assumes "access_ok s" and "connector_ok s"
  shows "connector_gate env uuid_in now req s = Inr (p, r) \<longleftrightarrow>
    (\<exists>raw x. readSessionCookie req = None \<and> readBearerToken req = Some raw \<and> x \<in> set (tokens s) \<and> tokHash x = sha256 env raw \<and>
       tokScope x = Connector \<and> active_token now x \<and> r \<in> set (connectorRegs s) \<and> tokRegistration x = Some (regId r) \<and>
       tokTenant x = Some (regTenant r) \<and> regDisabled r = None \<and> p = principalFromToken x)"
    (is "?gate \<longleftrightarrow> ?spec")
proof
  assume ?gate
  then obtain q where auth: "AuthGuard env uuid_in now req s = Inr q" "ConnectorAuthGuard now s q = Inr (p, r)"
    by (auto simp: connector_gate_def after_auth_def split: sum.splits)
  then obtain i t u st where q: "q = By_token i t u st Connector"
    by (auto simp: ConnectorAuthGuard_def split: principal.splits token_scope.splits)
  from assms(1) auth(1) [unfolded q] obtain raw x where x: "readSessionCookie req = None" "readBearerToken req = Some raw"
    "x \<in> set (tokens s)" "tokHash x = sha256 env raw" "active_token now x" "principalFromToken x = q"
    unfolding q by (rule auth_token_cases)
  then have "tokScope x = Connector" by (simp add: q principalFromToken_def)
  with gate_of_credential [OF assms x(3) this x(5), of p r] auth(2) x show ?spec by auto
next
  assume ?spec
  then obtain raw x where a: "readSessionCookie req = None" "readBearerToken req = Some raw" "x \<in> set (tokens s)" "tokHash x = sha256 env raw"
    "tokScope x = Connector" "active_token now x" "r \<in> set (connectorRegs s)" "tokRegistration x = Some (regId r)"
    "tokTenant x = Some (regTenant r)" "regDisabled r = None" "p = principalFromToken x" by blast
  have "AuthGuard env uuid_in now req s = Inr (principalFromToken x)"
    using auth_of_bearer [OF assms(1) a(1-4)] a(5,6) by (simp add: BEARER_AUTH_SCOPES_def)
  with gate_of_credential [OF assms a(3,5,6), of p r] a(7-11) show ?gate by (simp add: connector_gate_def after_auth_def)
qed

lemma connector_gate_error: "connector_gate env uuid_in now req s = Inl e \<Longrightarrow> readSessionCookie req = None \<Longrightarrow> e = unauthorized"
  by (auto simp: connector_gate_def after_auth_def ConnectorAuthGuard_def AuthGuard_def
      split: sum.splits option.splits if_splits principal.splits token_scope.splits)

end
