(* ===== verification/ConnectorTheorems.thy ===== *)
theory ConnectorTheorems
  imports ConnectorFacts AccessExample
begin

text \<open>
  What holds of connectors and their credentials, each property with a witness on the sample directory.
\<close>

section \<open>Sample connector\<close>

definition erp0 :: register_input where
  "erp0 = \<lparr>riTenant = 7, riActor = 2, riName = ''ERP'', riSite = ''erp.example'', riEnvironment = ''prod''\<rparr>"

definition ids_from :: "nat \<Rightarrow> id_source" where
  "ids_from k n = k + n"

text \<open>The instance 100 is registered and has its first credential 110.\<close>

definition erp1 :: access_db where
  "erp1 = snd (connector_register erp0 (ids_from 100) 10 db0)"

definition erp2 :: access_db where
  "erp2 = snd (connector_issue env0 7 2 100 None (ids_from 110) ''raw-one'' 20 erp1)"

lemma erp1_is: "erp1 = db0\<lparr>connectorRegs := [registration_row erp0 100 10],
    connectorAudits := [\<lparr>caId = 101, caActor = 2, caTenant = 7, caAction = ''connector.registration.created'', caTarget = 100,
      caMeta = Meta_environment ''prod''\<rparr>]\<rparr>"
  by code_simp

lemma erp1_run: "connector_run env0 db0 erp1"
  unfolding erp1_def by (rule register_run) (rule prod.collapse [symmetric])

lemma erp2_run: "connector_run env0 db0 erp2"
  unfolding erp2_def by (rule rtranclp_trans [OF erp1_run issue_run]) (rule prod.collapse [symmetric])

lemma erp2_tokens: "tokens erp2 = [credential_row env0 7 2 100 90 110 ''raw-one'' 20]"
  unfolding erp2_def erp1_is by code_simp

lemma erp2_regs: "connectorRegs erp2 = [registration_row erp0 100 10]"
  unfolding erp2_def erp1_is by code_simp

lemma db0_connector_ok: "connector_ok db0"
  by (simp add: connector_ok_def db0_def)

lemma erp2_ok: "access_ok erp2" "connector_ok erp2"
  using run_access [OF erp2_run db0_ok] connector_run_ok [OF erp2_run db0_connector_ok] by simp_all

section \<open>The tables under every interleaving\<close>

datatype connector_op =
    Op_register register_input id_source instant
  | Op_disable uuid uuid uuid id_source instant
  | Op_issue uuid uuid uuid "int option" id_source string instant
  | Op_rotate uuid uuid uuid "int option" id_source string instant
  | Op_revoke uuid uuid uuid id_source instant

fun connector_step :: "pos_env \<Rightarrow> connector_op \<Rightarrow> access_db \<Rightarrow> access_db" where
  "connector_step env (Op_register inp ids now) s = snd (connector_register inp ids now s)"
| "connector_step env (Op_disable t u i ids now) s = snd (connector_disable t u i ids now s)"
| "connector_step env (Op_issue t u i days ids raw now) s = snd (connector_issue env t u i days ids raw now s)"
| "connector_step env (Op_rotate t u i days ids raw now) s = snd (connector_rotate env t u i days ids raw now s)"
| "connector_step env (Op_revoke t u k ids now) s = snd (connector_revoke t u k ids now s)"

lemma connector_step_run: "connector_run env s (connector_step env op s)"
proof (cases op)
  case (Op_register inp ids now)
  then show ?thesis using register_run [of inp ids now s] by (simp add: prod_eq_iff)
next
  case (Op_disable t u i ids now)
  then show ?thesis using disable_run [of t u i ids now s] by (simp add: prod_eq_iff)
next
  case (Op_issue t u i days ids raw now)
  then show ?thesis using issue_run [of env t u i days ids raw now s] by (simp add: prod_eq_iff)
next
  case (Op_rotate t u i days ids raw now)
  then show ?thesis using rotate_run [of env t u i days ids raw now s] by (simp add: prod_eq_iff)
next
  case (Op_revoke t u k ids now)
  then show ?thesis using revoke_run [of t u k ids now s] by (simp add: prod_eq_iff)
qed

text \<open>
  C38: After any run of the administration of connectors, between which anything may happen to the other
  tables, and any further operation: an instance has at most one unrevoked credential, a credential is
  owned by the tenant of its instance, the site of an environment of a tenant is registered once, a
  credential keeps every fact and is revoked at most once, and an instance is disabled at most once.
\<close>

theorem connector_books_kept:
  assumes "access_ok s" and "connector_ok s" and "connector_run env s s1"
  shows "access_ok (connector_step env op s1) \<and>
    (\<forall>i. length (filter (live_credential i) (tokens (connector_step env op s1))) \<le> 1) \<and>
    (\<forall>x \<in> set (tokens (connector_step env op s1)). credential_owned (connectorRegs (connector_step env op s1)) x) \<and>
    distinct (map reg_site (connectorRegs (connector_step env op s1))) \<and>
    (\<forall>x \<in> set (tokens s). \<exists>y \<in> set (tokens (connector_step env op s1)). token_life x y) \<and>
    (\<forall>r \<in> set (connectorRegs s). \<exists>q \<in> set (connectorRegs (connector_step env op s1)). reg_life r q)"
proof -
  let ?s' = "connector_step env op s1"
  have run: "connector_run env s ?s'" using assms(3) connector_step_run by (rule rtranclp_trans)
  have acc: "access_run env s ?s'" "access_ok ?s'" using run_access [OF run assms(1)] by simp_all
  have "\<exists>y \<in> set (tokens ?s'). token_life x y" if "x \<in> set (tokens s)" for x
    using run_tokens [OF acc(1)] that by (rule table_extends_rowD) blast
  moreover have "\<exists>q \<in> set (connectorRegs ?s'). reg_life r q" if "r \<in> set (connectorRegs s)" for r
    using run_regs [OF run] that by (rule table_extends_rowD) blast
  ultimately show ?thesis using acc(2) connector_run_ok [OF run assms(2)] by (simp add: connector_ok_def)
qed

lemma connector_books_kept_witness:
  "length (filter (live_credential 100) (tokens (connector_step env0 (Op_rotate 7 2 100 None (ids_from 120) ''raw-two'' 30) erp2))) \<le> 1"
  using connector_books_kept [OF db0_ok db0_connector_ok erp2_run] by blast

section \<open>Rotation\<close>

lemma honest_revoke_first: "honest (issueCredentialRow env t u i days k raw now c)"
  by (simp add: issueCredentialRow_def Let_def)

lemma honest_credential: "honest (credential_work rotating env t u i days ids raw now c)"
  unfolding credential_work_def
  by (intro honest_bind honest_option honest_if honest_then honest_simps honest_revoke_first)

definition expiry_days :: "int option \<Rightarrow> int" where
  "expiry_days days = (case days of None \<Rightarrow> DEFAULT_CREDENTIAL_EXPIRY_DAYS | Some d \<Rightarrow> d)"

text \<open>
  C39: A rotation that answers a credential leaves it as the only unrevoked one of its instance: its secret
  passes the guard of the connector until it expires, as that instance, and the secrets of the credentials
  it replaces are refused whatever runs afterwards.
\<close>

theorem rotation_supersedes:
  assumes "access_ok s" and "connector_ok s"
    and "connector_rotate env t u i days ids raw now s = (Inr (Some cred), s')"
  shows "cred = \<lparr>icId = ids 0, icInstance = i, icSecret = raw, icExpires = now + expiry_days days * 86400000, icIssued = now\<rparr> \<and>
    (\<exists>r x. r \<in> set (connectorRegs s) \<and> regId r = i \<and> regTenant r = t \<and> regDisabled r = None \<and>
       filter (live_credential i) (tokens s') = [x] \<and> tokId x = ids 0 \<and> tokTenant x = Some t \<and>
       (\<forall>later req. later < icExpires cred \<and> readSessionCookie req = None \<and> readBearerToken req = Some raw \<longrightarrow>
          connector_gate env uuid_in later req s' = Inr (principalFromToken x, r))) \<and>
    (\<forall>x s2 raw2 req later. x \<in> set (tokens s) \<and> live_credential i x \<and> connector_run env s' s2 \<and> tokHash x = sha256 env raw2 \<and>
       readSessionCookie req = None \<and> readBearerToken req = Some raw2 \<longrightarrow> connector_gate env uuid_in later req s2 = Inl unauthorized)"
proof -
  let ?x = "credential_row env t u i (expiry_days days) (ids 0) raw now"
  have "succeeds (credential_work True env t u i (expiry_days days) ids raw now (tenant_ctx t)) s (Some cred) s'"
    using honest_run [of "\<lambda>c. credential_work True env t u i (expiry_days days) ids raw now c" "tenant_ctx t" s "Some cred" s']
      assms(3) honest_credential by (simp add: connector_rotate_def expiry_days_def)
  then obtain r s2 where r: "find_instance (tenant_ctx t) i s = Some r" "regDisabled r = None"
    "insert_token ?x (before_issue True t i now s) = Inr s2"
    "connectorAudits s2 = connectorAudits s" "s' = s2\<lparr>connectorAudits := connectorAudits s'\<rparr>"
    "cred = \<lparr>icId = ids 0, icInstance = i, icSecret = raw, icExpires = now + expiry_days days * 86400000, icIssued = now\<rparr>"
    by (cases rule: credential_succeeds) (auto simp: run_simps insert_token_Inr before_issue_def)
  have toks: "tokens s' = tokens (before_issue True t i now s) @ [?x]" and regs: "connectorRegs s' = connectorRegs s"
    using r(3) by (subst r(5), simp add: insert_token_Inr)+
  have run: "connector_run env s s'" using assms(3) by (rule rotate_run)
  have ok: "access_ok s'" "connector_ok s'"
    using run_access [OF run assms(1)] connector_run_ok [OF run assms(2)] by simp_all
  have reg: "r \<in> set (connectorRegs s)" "regTenant r = t" "regId r = i" using find_instanceD [OF r(1)] by simp_all
  have live: "live_credential i ?x" by (simp add: live_credential_def)
  have "length (filter (live_credential i) (tokens s')) \<le> 1" using ok(2) by (simp add: connector_ok_def)
  with live have one: "filter (live_credential i) (tokens s') = [?x]" by (simp add: toks)
  have pass: "connector_gate env uuid_in later req s' = Inr (principalFromToken ?x, r)"
    if "later < icExpires cred" "readSessionCookie req = None" "readBearerToken req = Some raw" for later req
  proof -
    have "?x \<in> set (tokens s')" "active_token later ?x" using that(1) by (simp_all add: toks r(6) active_token_def)
    then show ?thesis unfolding connector_gate_iff [OF ok]
      using that(2,3) reg r(2) by (intro exI [of _ raw] exI [of _ ?x]) (simp add: regs)
  qed
  have gone: "connector_gate env uuid_in later req s2 = Inl unauthorized"
    if "x \<in> set (tokens s)" "live_credential i x" "connector_run env s' s2" "tokHash x = sha256 env raw2" "readSessionCookie req = None"
      "readBearerToken req = Some raw2" for x s2 raw2 req later
  proof -
    have "visible_token (tenant_ctx t) x"
    proof -
      from that(1) assms(2) have "credential_owned (connectorRegs s) x" by (simp add: connector_ok_def)
      with that(2) obtain q where "q \<in> set (connectorRegs s)" "regId q = i" "tokTenant x = Some (regTenant q)"
        unfolding credential_owned_def live_credential_def by force
      with registration_ids.one_row [OF assms(2) reg(1), of q] reg show ?thesis by (simp add: visible_token_def)
    qed
    then have "tokRevoked_update (\<lambda>_. Some now) x \<in> set (tokens s')"
      using that(1,2) by (auto simp: toks before_issue_def set_update_where image_iff intro!: bexI [of _ x])
    moreover have "access_run env s' s2" using run_access [OF that(3) ok(1)] by simp
    ultimately have "AuthGuard env uuid_in later req s2 = Inl unauthorized"
      using revoked_is_refused [OF ok(1), of env s2 "tokRevoked_update (\<lambda>_. Some now) x" raw2 req] that(4-6) by simp
    then show ?thesis by (simp add: connector_gate_def after_auth_def)
  qed
  show ?thesis using r(2,6) reg one pass gone by (intro conjI exI [of _ r] exI [of _ ?x]) auto
qed

lemma erp2_rotates:
  "connector_rotate env0 7 2 100 None (ids_from 120) ''raw-two'' 30 erp2 =
     (Inr (Some \<lparr>icId = 120, icInstance = 100, icSecret = ''raw-two'', icExpires = 30 + 90 * 86400000, icIssued = 30\<rparr>),
      snd (connector_rotate env0 7 2 100 None (ids_from 120) ''raw-two'' 30 erp2))"
  unfolding prod_eq_iff erp2_def erp1_is by simp code_simp

lemma rotation_supersedes_witness:
  "\<exists>x. filter (live_credential 100) (tokens (snd (connector_rotate env0 7 2 100 None (ids_from 120) ''raw-two'' 30 erp2))) = [x] \<and> tokId x = 120"
proof -
  from rotation_supersedes [OF erp2_ok erp2_rotates, of uuid_in0] show ?thesis by (simp add: ids_from_def) blast
qed

section \<open>Disabling\<close>

lemma honest_disable: "honest (disable_work t u i ids now c)"
  unfolding disable_work_def by (intro honest_bind honest_option honest_if honest_then honest_simps)

lemma disabled_row:
  assumes "connector_ok s" and "connector_disable t u i ids now s = (Inr (Some inst), s1)"
  obtains r where "r \<in> set (connectorRegs s1)" "regId r = i" "regDisabled r \<noteq> None" "inDisabled inst = regDisabled r"
proof -
  have "succeeds (disable_work t u i ids now (tenant_ctx t)) s (Some inst) s1"
    using honest_run [of "\<lambda>c. disable_work t u i ids now c" "tenant_ctx t" s "Some inst" s1] assms(2) honest_disable
    by (simp add: connector_disable_def)
  then show thesis
  proof (cases rule: disable_succeeds)
    case (again r)
    with find_instanceD [OF again(1)] show ?thesis by (intro that [of r]) (simp_all add: toConnectorInstance_def)
  next
    case (disabled r q s2)
    let ?p = "\<lambda>r. rls_tenant (tenant_ctx t) (regTenant r) \<and> regId r = i \<and> regDisabled r = None"
    let ?f = "\<lambda>r. r\<lparr>regDisabled := Some now, regDisabledBy := Some u\<rparr>"
    note row = find_instanceD [OF disabled(1)]
    with disabled(2) have "find ?p (connectorRegs s) = Some r"
      using registration_ids.key_lookup [OF assms(1), of i "\<lambda>r. regTenant r = t \<and> regDisabled r = None" r] by (simp add: conj_ac)
    with disable_row_Inr [OF disabled(3)] have s2: "connectorRegs s2 = update_where ?p ?f (connectorRegs s)" "q = Some (?f r)" by simp_all
    moreover have "connectorRegs s1 = connectorRegs s2" using disabled(4) by (auto simp: run_simps)
    ultimately have "?f r \<in> set (connectorRegs s1)" using row disabled(2) by (auto simp: set_update_where)
    with row s2(2) disabled(5) show ?thesis by (intro that [of "?f r"]) (simp_all add: toConnectorInstance_def)
  qed simp
qed

lemma credential_refused:
  assumes "\<And>r. find_instance (tenant_ctx t) i s = Some r \<Longrightarrow> regDisabled r \<noteq> None"
  shows "connector_issue env t u i days ids raw now s = (Inr None, s)" "connector_rotate env t u i days ids raw now s = (Inr None, s)"
  using assms
  by (cases "find_instance (tenant_ctx t) i s";
      simp add: connector_issue_def connector_rotate_def runWithTenantContext_def as_work_def credential_work_def act_open_simps)+

text \<open>
  C40: Once an instance has been answered as disabled, it stays so: whatever runs afterwards, no secret, of
  an old credential or a new one, passes the guard of the connector as that instance, and neither an issue
  nor a rotation gives it a credential.
\<close>

theorem disabled_for_good:
  assumes "access_ok s" and "connector_ok s" and "connector_disable t u i ids now s = (Inr (Some inst), s1)" and "connector_run env s1 s2"
  shows "inDisabled inst \<noteq> None \<and> (\<forall>later req p r. connector_gate env uuid_in later req s2 = Inr (p, r) \<longrightarrow> regId r \<noteq> i) \<and>
    connector_issue env t2 u2 i days ids2 raw later s2 = (Inr None, s2) \<and>
    connector_rotate env t2 u2 i days ids2 raw later s2 = (Inr None, s2)"
proof -
  have run: "connector_run env s s2" using disable_run [OF assms(3)] assms(4) by (rule rtranclp_trans)
  have ok: "access_ok s2" "connector_ok s2" using run_access [OF run assms(1)] connector_run_ok [OF run assms(2)] by simp_all
  from assms(2,3) obtain r where r: "r \<in> set (connectorRegs s1)" "regId r = i" "regDisabled r \<noteq> None" "inDisabled inst = regDisabled r"
    by (rule disabled_row)
  from run_regs [OF assms(4)] r(1) obtain q where "q \<in> set (connectorRegs s2)" "reg_life r q" by (rule table_extends_rowD)
  with r(3) have r2: "r \<in> set (connectorRegs s2)" by (auto simp: reg_life_def)
  have only: "regDisabled q \<noteq> None" if "q \<in> set (connectorRegs s2)" "regId q = i" for q
    using registration_ids.one_row [OF ok(2) r2 that(1)] that(2) r(2,3) by simp
  have "regId q \<noteq> i" if "connector_gate env uuid_in later req s2 = Inr (p, q)" for later req p q
  proof
    assume "regId q = i"
    moreover from that have "q \<in> set (connectorRegs s2)" "regDisabled q = None" unfolding connector_gate_iff [OF ok] by blast+
    ultimately show False using only by blast
  qed
  moreover have "regDisabled q \<noteq> None" if "find_instance (tenant_ctx t2) i s2 = Some q" for q
    using find_instanceD [OF that] only by blast
  ultimately show ?thesis using r(3,4) credential_refused [of t2 i s2] by simp
qed

lemma disabled_for_good_witness:
  "connector_issue env0 7 2 100 None (ids_from 130) ''raw-two'' 50 (snd (connector_disable 7 2 100 (ids_from 120) 40 erp2)) =
     (Inr None, snd (connector_disable 7 2 100 (ids_from 120) 40 erp2))"
proof -
  have "fst (connector_disable 7 2 100 (ids_from 120) 40 erp2) =
    Inr (Some \<lparr>inId = 100, inName = ''ERP'', inSite = ''erp.example'', inEnvironment = ''prod'', inCreated = 10, inDisabled = Some 40,
      inActive = Some \<lparr>cdId = 110, cdInstance = 100, cdIssued = 20, cdExpires = 20 + 90 * 86400000, cdRevoked = None\<rparr>\<rparr>)"
    unfolding erp2_def erp1_is by code_simp
  then have "connector_disable 7 2 100 (ids_from 120) 40 erp2 =
    (Inr (Some \<lparr>inId = 100, inName = ''ERP'', inSite = ''erp.example'', inEnvironment = ''prod'', inCreated = 10, inDisabled = Some 40,
      inActive = Some \<lparr>cdId = 110, cdInstance = 100, cdIssued = 20, cdExpires = 20 + 90 * 86400000, cdRevoked = None\<rparr>\<rparr>),
     snd (connector_disable 7 2 100 (ids_from 120) 40 erp2))"
    by (simp add: prod_eq_iff)
  from disabled_for_good [OF erp2_ok this rtranclp.rtrancl_refl] show ?thesis by blast
qed

section \<open>Two cases\<close>

text \<open>
  Issuing a credential for an instance that has an unrevoked one, expired or not, fails on the partial
  unique index, which nothing catches.
\<close>

lemma second_issue_fails:
  assumes "find_instance (tenant_ctx t) i s = Some r" and "regDisabled r = None" and "x \<in> set (tokens s)" and "live_credential i x"
    and "\<forall>y \<in> set (tokens s). tokId y \<noteq> ids 0 \<and> tokHash y \<noteq> sha256 env raw"
  shows "connector_issue env t u i days ids raw now s = (Inl unique_violation, s)"
proof -
  let ?x = "credential_row env t u i (expiry_days days) (ids 0) raw now"
  have "credential_clash ?x (tokens s)" using assms(3,4) by (auto simp: credential_clash_def live_credential_def list_ex_iff)
  then have "insert_token ?x s = Inl unique_violation"
    using assms(5) by (auto simp: insert_token_def token_checks_def sql_check_def principal_by_scope_def list_ex_iff credential_row_def)
  then show ?thesis using assms(1,2)
    by (simp add: connector_issue_def expiry_days_def [symmetric] runWithTenantContext_def as_work_def credential_work_def
        issueCredentialRow_def Let_def act_open_simps)
qed

text \<open>The site of a disabled instance stays taken: it is never registered again.\<close>

lemma disabled_site_is_taken:
  assumes "r \<in> set (connectorRegs s)" and "reg_site r = (riTenant inp, riEnvironment inp, riSite inp)" and "riEnvironment inp \<in> set CONNECTOR_ENVIRONMENTS"
    and "list_ex (\<lambda>k. k \<noteq> CHR '' '') (riName inp)"
  shows "connector_register inp ids now s = (Inr Register_conflict, s)"
proof -
  have "reg_site (registration_row inp (ids 0) now) = reg_site r" using assms(2) by (simp add: reg_site_def registration_row_def)
  with assms have "insert_registration (tenant_ctx (riTenant inp)) (registration_row inp (ids 0) now) s = Inl unique_violation"
    by (auto simp: insert_registration_def sql_check_def registration_row_def list_ex_iff)
  then show ?thesis
    by (simp add: connector_register_def runWithTenantContext_def as_work_def register_work_def Let_def act_open_simps act_catch_def)
qed

end
