(* ===== verification/Spec2Isabelle.thy ===== *)
theory Spec2Isabelle
  imports SettlementTheorems OutboxTheorems IdempotencyTheorems InventoryTheorems SalesTheorems CatalogTheorems ErpTheorems ContextTheorems ConnectorTheorems
begin

text \<open>
  DataPulse 2: the transactional core of a multi-tenant retail back end.

  The program. The API (apps/api) and the worker (apps/worker) share one PostgreSQL database
  (packages/db). Every unit of work runs in a transaction that carries a tenant
  (\<open>runWithTenantContext\<close>); row-level-security policies let a statement see the rows of that tenant
  only. The point of sale captures sales; each capture, void, refund, stock movement or posting
  request leaves a row in the outbox table within the same transaction. The worker drains the outbox
  with at-least-once delivery and runs the consumers: a captured sale is processed (which requests its
  posting to the ERP) and its stock movements are backfilled. Settlement keeps the receivables of insured sales: payments,
  claims and remittances. Identifiers that a till scans and no product has are collected as unknown
  items and reconciled in the console. Operators sign in at terminals; guards decide from tokens and
  sessions who a request acts for.
  Write routes are behind an idempotency interceptor that replays saved responses.

  How the theories correspond to the code.

  \<^item> Prelude, Codec, Json, JsNumber: lists as tables (\<open>update_where\<close>, \<open>table_extends\<close>), decimal and
    hexadecimal text, UUID text, \<open>JSON.stringify\<close>, and the arithmetic of JavaScript numbers on
    quantities. Lifecycle: the interfaces several components share, as locales: a row life cycle, an
    append-only table, two forms of keyset pagination.
  \<^item> Tenancy, Transaction: packages/db/src/middleware/tenant-context.ts. A transaction is one atomic
    step from a state of the tables to a result and a state; inside it a program of statements may
    catch errors, but a failed statement aborts the transaction, and a commit of an aborted
    transaction rolls back. \<open>succeeds\<close> is the relation the component proofs use.
  \<^item> Http: the exception filter (apps/api/src/common/exception.filter.ts) and the request context that
    the guards leave.
  \<^item> Money, Settlement, SettlementFacts, SettlementHttp, SettlementProps, SettlementTheorems:
    apps/api/src/settlement (decisions, state machine, receivable and claim services, controller).
    Money is the scaled integer of \<open>numeric(19,4)\<close>.
  \<^item> Outbox, OutboxFacts, OutboxAdmin, OutboxTheorems: packages/db/src/outbox, the drainer and the
    retention sweep of apps/worker/src/outbox, the dead-letter endpoint of apps/api/src/outbox.
    Concurrent drainers are an inductive step relation (\<open>outbox_step\<close>).
  \<^item> Idempotency, IdempotencyFacts, IdempotencyTheorems: packages/shared/src/idempotency and the
    interceptor of apps/api/src/idempotency, with Redis as a map with expiry, again as a step relation.
  \<^item> Inventory, InventoryService, InventoryHttp, InventoryFacts, StockNumbers, InventoryLedger,
    InventoryMachine, InventoryHazards, InventoryTheorems: the stock ledger of apps/api/src/inventory
    and the backfill worker of apps/worker/src/inventory, against an abstract journal of stock.
  \<^item> SaleSync, Sales, SalesService, SalesWorker, SalesOps, SalesHttp: the tables and operations of
    apps/api/src/catalog/sales and sale-sync-ops and of apps/worker/src/sales. SalesFacts says what each
    operation commits, SalesMachine reduces every operation to one of six moves of rows, SalesInvariant
    and SalesLife prove by cases on the moves what a run keeps, SalesTheorems states the properties.
  \<^item> Catalog, UnknownItems, Reconciliation: the tables and operations of
    apps/api/src/catalog/unknown-items and reconciliation: an item a till does not know is captured,
    and linked to a product, turned into one, dismissed or reopened in the console. CatalogFacts,
    CatalogMachine, CatalogInvariant, CatalogLife and CatalogTheorems are built like those of the sales.
  \<^item> ErpTables, ErpMaps, ErpPosting: the posting of sales to the ERP: the consumer of a posting request
    (apps/worker/src/erpnext-posting), the feed and the acknowledgements of the connector
    (apps/api/src/catalog/erpnext-posting), and the mappings of products and stores it needs
    (erpnext-item-map, erpnext-warehouse-map). ErpFacts, ErpMachine, ErpInvariant, ErpLife and
    ErpTheorems are built like those of the sales, on whose machine \<open>erp_step\<close> runs; \<open>connect\<close> is a connector
    that follows the cursor of the feed.
  \<^item> AccessTables, PosOperators, Takeover, AccessGuards, AccessContext: who may do what. The directory
    tables (users, roles, stores, memberships, devices, tokens, sessions), the sessions of operators at
    terminals (apps/api/src/pos-operators), the guards that turn the credentials of a request into a
    principal (apps/api/src/auth/*.guard.ts), the resolver of the sale routes, and the tenant, store
    and role of a dashboard request (apps/api/src/context, roles.guard.ts). AccessMachine
    reduces every statement to a move of rows (\<open>access_move\<close>); a run of moves is any interleaving of the
    statements of any requests and of changes of the directory. AccessLife has the lookups by unique keys as a locale
    (\<open>keyed_table\<close>) and what a run keeps, AccessFacts computes the operations and guards, AccessExample is a
    small directory for the witnesses, AccessTheorems, AccessRules and ContextTheorems state the properties.
  \<^item> Connectors: the instances of the ERP connector and their credentials (apps/api/src/connector), the
    tokens that the guard of the connector's routes reads. ConnectorMachine has the moves of these
    tables (\<open>connector_move\<close>) beside those of the access tables and what they keep, ConnectorFacts what each
    operation commits and whom the guard lets pass, ConnectorTheorems the properties.

  State and operations. Each table is a list of records in insertion order, each INSERT checks policy,
  constraints and keys in the order PostgreSQL does, an UPDATE is \<open>update_where\<close>. An operation is the
  program of its statements, in the code's order, with every early return and error; a route adds the
  request schema, the context checks and the mapping of errors to statuses. A machine (\<open>sales_step\<close>,
  \<open>inv_step\<close>, \<open>settle_step\<close>, \<open>catalog_step\<close>, \<open>erp_step\<close>, \<open>access_step\<close>) is the fold of all writing operations, in any order and with any arguments;
  properties of runs are about it.

  What the lemma groups show. The \<open>Facts\<close> theories compute when an operation succeeds and with what
  effect; the \<open>Machine\<close>, \<open>Ledger\<close>, \<open>Props\<close> and \<open>Invariant\<close> theories prove invariants of the tables and the
  refinement of abstract specifications; the \<open>Theorems\<close> theories hold the numbered properties, each with
  a witness on concrete rows.

  Parameters. Clocks, generated identifiers, row locks held by others, SHA-256, the calendar date of
  an instant in a named zone, the collation order of texts, and the parsing of stored JSON are
  arguments. What is assumed of them is a named hypothesis of the property that uses it.

  Bounds and fuel. A backfill job takes at most 500 lines, the code's own ceiling. Quantities are computed as JavaScript
  numbers and are exact below 2^48 ten-thousandths (sums of two below 2^50), the bound the count and
  transfer properties state. A client that walks a paged listing has fuel one more than the number of
  rows, which is enough because each page but the last is full. Loops that the code bounds (the
  retention sweep, the drain of a batch) are structural recursion on that bound or batch.

  Not modelled. Statements of different transactions do not interleave: the operations lock the rows
  they write, and what runs concurrently in the code (drainers, idempotent requests, the statements of
  sign-ins and takeovers) is modelled as its own step relation. The reads of one sign-in, takeover or guard see
  one state. The guards are modelled on their own; the handlers of the other components take what the
  guards leave as their request context. The checks of an identity token and of the syntax of a UUID in
  a cookie are parameters, a request reads its clock once. The components listed as
  not modelled in the manifest are the sign-in and registration of dashboard users, the administration of tenants, stores,
  members and devices, the health reports of connectors, shifts, the views of the ERP connector other than the posting
  feed, catalog maintenance and read-down, audit fan-out, email, queues, logging, and metric
  registration; they interact with the modelled part only through the tables named there or not at all.
\<close>

end
